(* ===== verification/Prelude.thy ===== *)
theory Prelude
  imports Main "HOL-Library.Sublist"
begin

text \<open>
  Prelude of the development: the collections of facts the component theories share, the
  type synonyms for Go's basic types, and generic lemmas on lists, options and scans.

  Go's \<^verbatim>\<open>int\<close> is read as \<^typ>\<open>int\<close> (the quantities modelled are counts, indices and token
  numbers far below $2^{63}$; where a value comes from a file its range is checked). A Go
  \<^verbatim>\<open>string\<close> is a byte string: a list of \<^typ>\<open>char\<close>, each char one byte of the UTF-8 text.
\<close>

named_theorems frame_simps \<open>what an operation leaves unchanged\<close>
named_theorems invar_intros \<open>preservation of component invariants\<close>

type_synonym go_int = int
type_synonym entry_id = string
type_synonym path = string

subsection \<open>Lists scanned from the right\<close>

text \<open>
  Go code often walks a slice from its last index down and stops at the first hit
  (\<^verbatim>\<open>for i := len(xs) - 1; i >= 0; i--\<close>). \<open>find_last\<close> is that loop: the greatest index whose
  element satisfies the test.
\<close>

fun find_last_from :: "('a \<Rightarrow> bool) \<Rightarrow> 'a list \<Rightarrow> nat \<Rightarrow> nat option" where
  "find_last_from p xs 0 = None"
| "find_last_from p xs (Suc i) = (if p (xs ! i) then Some i else find_last_from p xs i)"

definition find_last :: "('a \<Rightarrow> bool) \<Rightarrow> 'a list \<Rightarrow> nat option" where
  "find_last p xs = find_last_from p xs (length xs)"

lemma find_last_from_SomeD:
  "find_last_from p xs n = Some i \<Longrightarrow> i < n \<and> p (xs ! i) \<and> (\<forall>j. i < j \<and> j < n \<longrightarrow> \<not> p (xs ! j))"
proof (induction n)
  case 0
  then show ?case by simp
next
  case (Suc n)
  show ?case
  proof (cases "p (xs ! n)")
    case True
    with Suc.prems show ?thesis by auto
  next
    case False
    with Suc have "i < n \<and> p (xs ! i) \<and> (\<forall>j. i < j \<and> j < n \<longrightarrow> \<not> p (xs ! j))"
      by simp
    with False show ?thesis by (auto simp: less_Suc_eq)
  qed
qed

lemma find_last_from_None: "find_last_from p xs n = None \<longleftrightarrow> (\<forall>j < n. \<not> p (xs ! j))"
  by (induction n) (auto simp: less_Suc_eq)

lemma find_last_SomeD:
  "find_last p xs = Some i \<Longrightarrow>
     i < length xs \<and> p (xs ! i) \<and> (\<forall>j. i < j \<and> j < length xs \<longrightarrow> \<not> p (xs ! j))"
  unfolding find_last_def by (rule find_last_from_SomeD)

lemma find_last_None: "find_last p xs = None \<longleftrightarrow> (\<forall>x \<in> set xs. \<not> p x)"
  unfolding find_last_def find_last_from_None by (metis in_set_conv_nth)

lemma find_last_from_append:
  "n \<le> length xs \<Longrightarrow> find_last_from p (xs @ ys) n = find_last_from p xs n"
  by (induction n) (auto simp: nth_append)

lemma find_last_snoc:
  "find_last p (xs @ [x]) = (if p x then Some (length xs) else find_last p xs)"
  by (simp add: find_last_def find_last_from_append)

subsection \<open>Association lists as Go maps\<close>

text \<open>
  Go's iteration order over a map is unspecified, so a map is a HOL map wherever the code only
  looks keys up, and an association list where it is iterated. \<open>put\<close> is \<^verbatim>\<open>m[k] = v\<close> on an
  association list with distinct keys.
\<close>

fun put :: "'k \<Rightarrow> 'v \<Rightarrow> ('k \<times> 'v) list \<Rightarrow> ('k \<times> 'v) list" where
  "put k v [] = [(k, v)]"
| "put k v ((k', v') # m) = (if k = k' then (k, v) # m else (k', v') # put k v m)"

definition remove_key :: "'k \<Rightarrow> ('k \<times> 'v) list \<Rightarrow> ('k \<times> 'v) list" where
  "remove_key k m = filter (\<lambda>p. fst p \<noteq> k) m"

lemma map_of_put [simp]: "map_of (put k v m) = (map_of m)(k \<mapsto> v)"
  by (induction k v m rule: put.induct) (auto simp: fun_eq_iff)

lemma set_keys_put: "fst ` set (put k v m) = insert k (fst ` set m)"
  by (induction k v m rule: put.induct) auto

lemma distinct_put [simp]: "distinct (map fst m) \<Longrightarrow> distinct (map fst (put k v m))"
  by (induction k v m rule: put.induct) (auto simp: set_keys_put[simplified image_def] image_iff set_keys_put)

lemma map_of_remove_key [simp]: "map_of (remove_key k m) = (map_of m)(k := None)"
  by (induction m) (auto simp: remove_key_def fun_eq_iff)

lemma distinct_remove_key [simp]: "distinct (map fst m) \<Longrightarrow> distinct (map fst (remove_key k m))"
  by (induction m) (auto simp: remove_key_def)

subsection \<open>Sums over scanned lists, options\<close>

lemma sum_list_nonneg_int: "(\<And>x. x \<in> set xs \<Longrightarrow> 0 \<le> f x) \<Longrightarrow> 0 \<le> sum_list (map f xs :: int list)"
  by (induction xs) auto

lemma drop_take_append:
  "i \<le> j \<Longrightarrow> j \<le> length xs \<Longrightarrow> take i xs @ drop i (take j xs) @ drop j xs = xs"
  by (metis append.assoc append_take_drop_id min.absorb1 take_take)

lemma nth_mem_drop: "k \<le> j \<Longrightarrow> j < length xs \<Longrightarrow> xs ! j \<in> set (drop k xs)"
proof -
  assume kj: "k \<le> j" "j < length xs"
  then have "drop k xs ! (j - k) = xs ! j" and "j - k < length (drop k xs)" by simp_all
  then show ?thesis by (metis nth_mem)
qed

lemma sorted_wrt_neq_distinct: "sorted_wrt (\<lambda>a b. f a \<noteq> f b) xs \<Longrightarrow> distinct (map f xs)"
  by (induction xs) auto

lemma set_map_filter: "set (List.map_filter f xs) = {y. \<exists>x \<in> set xs. f x = Some y}"
  by (induction xs) (auto simp: List.map_filter_simps split: option.split)

lemma disjoint_mono: "A \<subseteq> D \<Longrightarrow> B \<subseteq> E \<Longrightarrow> D \<inter> E = {} \<Longrightarrow> A \<inter> B = {}"
  by blast

definition the_default :: "'a \<Rightarrow> 'a option \<Rightarrow> 'a" where
  "the_default d x = (case x of None \<Rightarrow> d | Some y \<Rightarrow> y)"

lemma the_default_simps [simp]: "the_default d None = d" "the_default d (Some y) = y"
  by (simp_all add: the_default_def)

end
