(* ===== verification/GoStrings.thy ===== *)
theory GoStrings
  imports Prelude
begin

text \<open>
  The parts of Go's \<^verbatim>\<open>strings\<close>, \<^verbatim>\<open>strconv\<close> and \<^verbatim>\<open>unicode/utf8\<close> packages that the modelled code uses,
  on byte strings. White space is the set of runes of \<^verbatim>\<open>unicode.IsSpace\<close>, given by their UTF-8
  encodings. Lower-casing is the ASCII part of \<^verbatim>\<open>strings.ToLower\<close>, which is all the modelled
  code compares with.
\<close>

subsection \<open>Bytes\<close>

definition byte_of :: "char \<Rightarrow> nat" where
  "byte_of c = of_char c"

definition lower_char :: "char \<Rightarrow> char" where
  "lower_char c = (if 65 \<le> byte_of c \<and> byte_of c \<le> 90 then char_of (byte_of c + 32) else c)"

definition to_lower :: "string \<Rightarrow> string" where
  "to_lower s = map lower_char s"

abbreviation newline :: char where "newline \<equiv> CHR 0x0A"

subsection \<open>Prefixes, splitting and joining\<close>

definition has_prefix :: "string \<Rightarrow> string \<Rightarrow> bool" where
  "has_prefix s p \<longleftrightarrow> take (length p) s = p"

definition has_suffix :: "string \<Rightarrow> string \<Rightarrow> bool" where
  "has_suffix s p \<longleftrightarrow> length p \<le> length s \<and> drop (length s - length p) s = p"

fun contains :: "string \<Rightarrow> string \<Rightarrow> bool" where
  "contains [] p = (p = [])"
| "contains (c # s) p = (has_prefix (c # s) p \<or> contains s p)"

text \<open>\<open>split_on\<close> is \<^verbatim>\<open>strings.Split\<close> with a one-byte separator: never empty.\<close>

fun split_on :: "char \<Rightarrow> string \<Rightarrow> string list" where
  "split_on d [] = [[]]"
| "split_on d (c # s) =
     (if c = d then [] # split_on d s
      else case split_on d s of [] \<Rightarrow> [[c]] | w # ws \<Rightarrow> (c # w) # ws)"

fun join :: "string \<Rightarrow> string list \<Rightarrow> string" where
  "join sep [] = []"
| "join sep [x] = x"
| "join sep (x # y # xs) = x @ sep @ join sep (y # xs)"

lemma has_prefix_iff: "has_prefix s p \<longleftrightarrow> prefix p s"
  unfolding has_prefix_def prefix_def by (metis append_eq_conv_conj append_take_drop_id)

lemma split_on_nonempty [simp]: "split_on d s \<noteq> []"
  by (induction d s rule: split_on.induct) (auto split: list.splits)

lemma split_on_join: "join [d] (split_on d s) = s"
proof (induction d s rule: split_on.induct)
  case (1 d)
  then show ?case by simp
next
  case (2 d c s)
  obtain w ws where w: "split_on d s = w # ws"
    using split_on_nonempty [of d s] by (cases "split_on d s") auto
  from 2 w show ?case by (cases ws) auto
qed

lemma split_on_no_sep: "w \<in> set (split_on d s) \<Longrightarrow> d \<notin> set w"
proof (induction d s arbitrary: w rule: split_on.induct)
  case (1 d)
  then show ?case by simp
next
  case (2 d c s)
  then show ?case by (auto split: if_splits list.splits)
qed

lemma split_on_word: "d \<notin> set s \<Longrightarrow> split_on d s = [s]"
  by (induction s) auto

lemma split_on_append:
  "d \<notin> set w \<Longrightarrow> split_on d (w @ d # s) = w # split_on d s"
  by (induction w) auto

subsection \<open>Trimming\<close>

text \<open>The UTF-8 encodings of the runes \<^verbatim>\<open>unicode.IsSpace\<close> accepts.\<close>

definition space_runes :: "string list" where
  "space_runes =
     [[CHR 0x20], [CHR 0x09], [CHR 0x0A], [CHR 0x0B], [CHR 0x0C], [CHR 0x0D],
      [CHR 0xC2, CHR 0x85], [CHR 0xC2, CHR 0xA0], [CHR 0xE1, CHR 0x9A, CHR 0x80],
      [CHR 0xE2, CHR 0x80, CHR 0x80], [CHR 0xE2, CHR 0x80, CHR 0x81],
      [CHR 0xE2, CHR 0x80, CHR 0x82], [CHR 0xE2, CHR 0x80, CHR 0x83],
      [CHR 0xE2, CHR 0x80, CHR 0x84], [CHR 0xE2, CHR 0x80, CHR 0x85],
      [CHR 0xE2, CHR 0x80, CHR 0x86], [CHR 0xE2, CHR 0x80, CHR 0x87],
      [CHR 0xE2, CHR 0x80, CHR 0x88], [CHR 0xE2, CHR 0x80, CHR 0x89],
      [CHR 0xE2, CHR 0x80, CHR 0x8A], [CHR 0xE2, CHR 0x80, CHR 0xA8],
      [CHR 0xE2, CHR 0x80, CHR 0xA9], [CHR 0xE2, CHR 0x80, CHR 0xAF],
      [CHR 0xE2, CHR 0x81, CHR 0x9F], [CHR 0xE3, CHR 0x80, CHR 0x80]]"

function trim_start :: "string list \<Rightarrow> string \<Rightarrow> string" where
  "trim_start ps s =
     (case find (\<lambda>p. p \<noteq> [] \<and> has_prefix s p) ps of
        None \<Rightarrow> s
      | Some p \<Rightarrow> trim_start ps (drop (length p) s))"
  by pat_completeness auto

termination
proof (relation "measure (\<lambda>(ps, s). length s)")
  fix ps s p
  assume "find (\<lambda>p. p \<noteq> [] \<and> has_prefix s p) ps = Some p"
  then have "p \<noteq> []" and "has_prefix s p" by (auto simp: find_Some_iff)
  then have "s \<noteq> []" by (auto simp: has_prefix_def)
  with \<open>p \<noteq> []\<close> show "((ps, drop (length p) s), ps, s) \<in> measure (\<lambda>(ps, s). length s)"
    by auto
qed simp

declare trim_start.simps [simp del]

definition trim_space :: "string \<Rightarrow> string" where
  "trim_space s =
     rev (trim_start (map rev space_runes) (rev (trim_start space_runes s)))"

definition trim_bytes :: "char list \<Rightarrow> string \<Rightarrow> string" where
  "trim_bytes cs s = rev (dropWhile (\<lambda>c. c \<in> set cs) (rev (dropWhile (\<lambda>c. c \<in> set cs) s)))"

definition trim_right_bytes :: "char list \<Rightarrow> string \<Rightarrow> string" where
  "trim_right_bytes cs s = rev (dropWhile (\<lambda>c. c \<in> set cs) (rev s))"

lemma trim_start_suffix: "suffix (trim_start ps s) s"
proof (induction ps s rule: trim_start.induct)
  case (1 ps s)
  show ?case
  proof (cases "find (\<lambda>p. p \<noteq> [] \<and> has_prefix s p) ps")
    case None
    then show ?thesis by (simp add: trim_start.simps [of ps s])
  next
    case (Some p)
    then have "suffix (trim_start ps (drop (length p) s)) (drop (length p) s)" by (rule 1)
    with Some show ?thesis
      by (simp add: trim_start.simps [of ps s]) (metis suffix_drop suffix_order.trans)
  qed
qed

lemma trim_start_length: "length (trim_start ps s) \<le> length s"
  using trim_start_suffix by (rule suffix_length_le)

lemma trim_start_Nil [simp]: "trim_start ps [] = []"
  using trim_start_length [of ps "[]"] by simp

lemma trim_start_no_space:
  "p \<in> set ps \<Longrightarrow> p \<noteq> [] \<Longrightarrow> \<not> has_prefix (trim_start ps s) p"
proof (induction ps s rule: trim_start.induct)
  case (1 ps s)
  show ?case
  proof (cases "find (\<lambda>p. p \<noteq> [] \<and> has_prefix s p) ps")
    case None
    then have "trim_start ps s = s" by (simp add: trim_start.simps [of ps s])
    moreover from None "1.prems" have "\<not> has_prefix s p" by (auto simp: find_None_iff)
    ultimately show ?thesis by simp
  next
    case (Some q)
    with 1 show ?thesis by (simp add: trim_start.simps [of ps s])
  qed
qed

lemma trim_start_id: "(\<And>p. p \<in> set ps \<Longrightarrow> p \<noteq> [] \<Longrightarrow> \<not> has_prefix s p) \<Longrightarrow> trim_start ps s = s"
  by (subst trim_start.simps) (auto simp: find_None_iff split: option.splits dest!: find_Some_iff [THEN iffD1])

lemma trim_start_idem [simp]: "trim_start ps (trim_start ps s) = trim_start ps s"
  by (rule trim_start_id) (rule trim_start_no_space)

lemma trim_space_Nil [simp]: "trim_space [] = []"
  by (simp add: trim_space_def)

lemma trim_space_length: "length (trim_space s) \<le> length s"
  unfolding trim_space_def length_rev
  by (rule le_trans [OF trim_start_length]) (simp add: trim_start_length)

subsection \<open>Decimal numerals\<close>

fun nat_digits :: "nat \<Rightarrow> string" where
  "nat_digits n =
     (if n < 10 then [char_of (48 + n)] else nat_digits (n div 10) @ [char_of (48 + n mod 10)])"

declare nat_digits.simps [simp del]

definition itoa :: "int \<Rightarrow> string" where
  "itoa i = (if i < 0 then CHR ''-'' # nat_digits (nat (- i)) else nat_digits (nat i))"

subsection \<open>UTF-8 rune boundaries\<close>

text \<open>\<^verbatim>\<open>utf8.RuneStart\<close>: every byte that is not a continuation byte \<^verbatim>\<open>10xxxxxx\<close>.\<close>

definition rune_start :: "char \<Rightarrow> bool" where
  "rune_start c \<longleftrightarrow> byte_of c < 128 \<or> 192 \<le> byte_of c"

subsection \<open>Runes\<close>

text \<open>
  The width of the first rune of a string as \<^verbatim>\<open>range\<close> and \<^verbatim>\<open>utf8.DecodeRune\<close> find it: a byte that
  starts no valid encoding is a rune of its own.
\<close>

definition in_range :: "nat \<Rightarrow> nat \<Rightarrow> char \<Rightarrow> bool" where
  "in_range a b c \<longleftrightarrow> a \<le> byte_of c \<and> byte_of c \<le> b"

definition second_byte :: "char \<Rightarrow> char \<Rightarrow> bool" where
  "second_byte b c \<longleftrightarrow>
     (if byte_of b = 224 then in_range 160 191 c
      else if byte_of b = 237 then in_range 128 159 c
      else if byte_of b = 240 then in_range 144 191 c
      else if byte_of b = 244 then in_range 128 143 c
      else in_range 128 191 c)"

definition rune_len :: "string \<Rightarrow> nat" where
  "rune_len s =
     (case s of
        [] \<Rightarrow> 0
      | b # bs \<Rightarrow>
          if in_range 194 223 b \<and> bs \<noteq> [] \<and> second_byte b (hd bs) then 2
          else if in_range 224 239 b \<and> length bs \<ge> 2 \<and> second_byte b (hd bs) \<and> in_range 128 191 (bs ! 1)
          then 3
          else if in_range 240 244 b \<and> length bs \<ge> 3 \<and> second_byte b (hd bs) \<and> in_range 128 191 (bs ! 1)
             \<and> in_range 128 191 (bs ! 2) then 4
          else 1)"

lemma rune_len_bounds: "s \<noteq> [] \<Longrightarrow> 1 \<le> rune_len s \<and> rune_len s \<le> 4 \<and> rune_len s \<le> length s"
  by (cases s) (auto simp: rune_len_def Suc_le_eq)

lemma rune_len_Nil [simp]: "rune_len [] = 0"
  by (simp add: rune_len_def)

text \<open>The runes of a string, each as its bytes.\<close>

function runes :: "string \<Rightarrow> string list" where
  "runes s = (if s = [] then [] else take (rune_len s) s # runes (drop (rune_len s) s))"
  by pat_completeness auto

termination
proof (relation "measure length")
  fix s :: string
  assume "s \<noteq> []"
  with rune_len_bounds [of s] show "(drop (rune_len s) s, s) \<in> measure length" by (cases s) auto
qed simp

declare runes.simps [simp del]

lemma runes_Nil [simp]: "runes [] = []"
  by (simp add: runes.simps)

lemma concat_runes [simp]: "concat (runes s) = s"
proof (induction s rule: runes.induct)
  case (1 s)
  then show ?case by (cases "s = []") (simp_all add: runes.simps [of s])
qed

text \<open>\<^verbatim>\<open>truncateRunes\<close> and its like: the first runes of a string.\<close>

definition take_runes :: "nat \<Rightarrow> string \<Rightarrow> string" where
  "take_runes n s = concat (take n (runes s))"

lemma take_runes_prefix: "prefix (take_runes n s) s"
proof -
  have "s = take_runes n s @ concat (drop n (runes s))"
    unfolding take_runes_def by (metis append_take_drop_id concat_append concat_runes)
  then show ?thesis by (metis prefixI)
qed

end
