(* ===== verification/Json.thy ===== *)
theory Json
  imports GoStrings
begin

text \<open>
  JSON values and the part of Go's \<^verbatim>\<open>encoding/json\<close> the program relies on, at the level of
  values: a struct is written as an object whose members are the struct's fields in order, a
  field tagged \<^verbatim>\<open>omitempty\<close> left out when it is empty; an object is read into a struct member
  by member, a key naming the field that equals it up to ASCII case, later members overwriting
  earlier ones, \<^verbatim>\<open>null\<close> leaving a field alone, and a value of the wrong kind making the whole
  \<^verbatim>\<open>Unmarshal\<close> fail. Text that is not JSON at all is dealt with where files are read.

  The contract between writers and readers is the locale \<open>codec\<close>.
\<close>

datatype json =
    JNull
  | JBool bool
  | JInt int
  | JNum string
  | JStr string
  | JArr "json list"
  | JObj "(string \<times> json) list"

type_synonym members = "(string \<times> json) list"

subsection \<open>Reading struct fields\<close>

definition same_key :: "string \<Rightarrow> string \<Rightarrow> bool" where
  "same_key k f \<longleftrightarrow> to_lower k = to_lower f"

definition field_vals :: "string \<Rightarrow> members \<Rightarrow> json list" where
  "field_vals f ms = map snd (filter (\<lambda>m. same_key (fst m) f) ms)"

text \<open>The members a struct is filled from: \<^verbatim>\<open>null\<close> is accepted and fills nothing.\<close>

fun object_members :: "json \<Rightarrow> members option" where
  "object_members (JObj ms) = Some ms"
| "object_members JNull = Some []"
| "object_members _ = None"

fun fill_str :: "string \<Rightarrow> json list \<Rightarrow> string option" where
  "fill_str cur [] = Some cur"
| "fill_str cur (JStr s # vs) = fill_str s vs"
| "fill_str cur (JNull # vs) = fill_str cur vs"
| "fill_str cur (_ # vs) = None"

fun fill_bool :: "bool \<Rightarrow> json list \<Rightarrow> bool option" where
  "fill_bool cur [] = Some cur"
| "fill_bool cur (JBool b # vs) = fill_bool b vs"
| "fill_bool cur (JNull # vs) = fill_bool cur vs"
| "fill_bool cur (_ # vs) = None"

definition int_in_range :: "int \<Rightarrow> bool" where
  "int_in_range n \<longleftrightarrow> - (2 ^ 63) \<le> n \<and> n < 2 ^ 63"

fun fill_int :: "int \<Rightarrow> json list \<Rightarrow> int option" where
  "fill_int cur [] = Some cur"
| "fill_int cur (JInt n # vs) = (if int_in_range n then fill_int n vs else None)"
| "fill_int cur (JNull # vs) = fill_int cur vs"
| "fill_int cur (_ # vs) = None"

text \<open>A \<^verbatim>\<open>json.RawMessage\<close> keeps whatever value stands there, \<^verbatim>\<open>null\<close> included.\<close>

definition fill_raw :: "json list \<Rightarrow> json option" where
  "fill_raw vs = (if vs = [] then None else Some (last vs))"

text \<open>A \<^verbatim>\<open>map[string]string\<close>: members are stored one by one, a second object adds to the first.\<close>

fun fill_str_members :: "(string \<times> string) list \<Rightarrow> members \<Rightarrow> (string \<times> string) list option" where
  "fill_str_members acc [] = Some acc"
| "fill_str_members acc ((k, JStr s) # ms) = fill_str_members (put k s acc) ms"
| "fill_str_members acc ((k, JNull) # ms) = fill_str_members (put k [] acc) ms"
| "fill_str_members acc (_ # ms) = None"

fun fill_str_map :: "(string \<times> string) list \<Rightarrow> json list \<Rightarrow> (string \<times> string) list option" where
  "fill_str_map cur [] = Some cur"
| "fill_str_map cur (JObj ms # vs) =
     (case fill_str_members cur ms of None \<Rightarrow> None | Some m \<Rightarrow> fill_str_map m vs)"
| "fill_str_map cur (JNull # vs) = fill_str_map [] vs"
| "fill_str_map cur (_ # vs) = None"

subsection \<open>Writing structs\<close>

text \<open>
  A field table lists each field with the value written for it, \<open>None\<close> when \<^verbatim>\<open>omitempty\<close> drops it.
\<close>

type_synonym field_table = "(string \<times> json option) list"

definition emit :: "field_table \<Rightarrow> members" where
  "emit t = map (\<lambda>f. (fst f, the (snd f))) (filter (\<lambda>f. snd f \<noteq> None) t)"

definition omit_str :: "string \<Rightarrow> json option" where
  "omit_str s = (if s = [] then None else Some (JStr s))"

definition omit_int :: "int \<Rightarrow> json option" where
  "omit_int n = (if n = 0 then None else Some (JInt n))"

definition omit_bool :: "bool \<Rightarrow> json option" where
  "omit_bool b = (if b then Some (JBool True) else None)"

definition omit_str_map :: "(string \<times> string) list \<Rightarrow> json option" where
  "omit_str_map m = (if m = [] then None else Some (JObj (map (\<lambda>(k, v). (k, JStr v)) m)))"

definition omit_str_list :: "string list \<Rightarrow> json option" where
  "omit_str_list xs = (if xs = [] then None else Some (JArr (map JStr xs)))"

fun fill_str_elems :: "json list \<Rightarrow> string list option" where
  "fill_str_elems [] = Some []"
| "fill_str_elems (JStr s # vs) = map_option (\<lambda>xs. s # xs) (fill_str_elems vs)"
| "fill_str_elems (JNull # vs) = map_option (\<lambda>xs. [] # xs) (fill_str_elems vs)"
| "fill_str_elems (_ # vs) = None"

fun fill_str_list :: "string list \<Rightarrow> json list \<Rightarrow> string list option" where
  "fill_str_list cur [] = Some cur"
| "fill_str_list cur (JArr js # vs) =
     (case fill_str_elems js of None \<Rightarrow> None | Some xs \<Rightarrow> fill_str_list xs vs)"
| "fill_str_list cur (JNull # vs) = fill_str_list [] vs"
| "fill_str_list cur (_ # vs) = None"

subsection \<open>A written field is read back\<close>

lemma field_vals_Nil [simp]: "field_vals f [] = []"
  by (simp add: field_vals_def)

lemma emit_Nil [simp]: "emit [] = []"
  by (simp add: emit_def)

lemma emit_Cons: "emit ((k, v) # t) = (case v of None \<Rightarrow> [] | Some j \<Rightarrow> [(k, j)]) @ emit t"
  by (simp add: emit_def split: option.splits)

lemma field_vals_emit_absent:
  "to_lower k \<notin> set (map (to_lower \<circ> fst) t) \<Longrightarrow> field_vals k (emit t) = []"
  by (induction t) (auto simp: emit_def field_vals_def same_key_def)

lemma field_vals_emit:
  assumes "distinct (map (to_lower \<circ> fst) t)" and "(k, v) \<in> set t"
  shows "field_vals k (emit t) = (case v of None \<Rightarrow> [] | Some j \<Rightarrow> [j])"
  using assms
proof (induction t)
  case Nil
  then show ?case by simp
next
  case (Cons f t)
  obtain k' v' where f: "f = (k', v')" by (cases f)
  show ?case
  proof (cases "f = (k, v)")
    case True
    with Cons.prems have "field_vals k (emit t) = []"
      by (intro field_vals_emit_absent) auto
    with True show ?thesis
      by (cases v) (auto simp: emit_Cons field_vals_def same_key_def)
  next
    case False
    with Cons.prems have mem: "(k, v) \<in> set t" by simp
    then have "to_lower k \<in> set (map (to_lower \<circ> fst) t)" by force
    moreover from Cons.prems f have "to_lower k' \<notin> set (map (to_lower \<circ> fst) t)" by simp
    ultimately have "\<not> same_key k' k" by (auto simp: same_key_def simp del: set_map)
    with Cons.IH Cons.prems mem f show ?thesis
      by (cases v') (auto simp: emit_Cons field_vals_def)
  qed
qed

lemma fill_str_omit:
  "fill_str [] (case omit_str s of None \<Rightarrow> [] | Some j \<Rightarrow> [j]) = Some s"
  by (simp add: omit_str_def)

lemma fill_int_omit:
  "int_in_range n \<Longrightarrow> fill_int 0 (case omit_int n of None \<Rightarrow> [] | Some j \<Rightarrow> [j]) = Some n"
  by (simp add: omit_int_def)

lemma fill_bool_omit:
  "fill_bool False (case omit_bool b of None \<Rightarrow> [] | Some j \<Rightarrow> [j]) = Some b"
  by (simp add: omit_bool_def)

lemma fill_raw_omit: "fill_raw (case r of None \<Rightarrow> [] | Some j \<Rightarrow> [j]) = r"
  by (simp add: fill_raw_def split: option.splits)

lemma put_snoc: "k \<notin> fst ` set acc \<Longrightarrow> put k v acc = acc @ [(k, v)]"
  by (induction k v acc rule: put.induct) auto

lemma fill_str_members_map:
  "distinct (map fst (acc @ m)) \<Longrightarrow>
     fill_str_members acc (map (\<lambda>(k, v). (k, JStr v)) m) = Some (acc @ m)"
proof (induction m arbitrary: acc)
  case Nil
  then show ?case by simp
next
  case (Cons p m)
  obtain k v where p: "p = (k, v)" by (cases p)
  from Cons.prems p have "put k v acc = acc @ [(k, v)]"
    by (intro put_snoc) auto
  with Cons p show ?case by (auto simp: image_iff)
qed

lemma fill_str_map_omit:
  "distinct (map fst m) \<Longrightarrow>
     fill_str_map [] (case omit_str_map m of None \<Rightarrow> [] | Some j \<Rightarrow> [j]) = Some m"
  using fill_str_members_map [of "[]" m] by (simp add: omit_str_map_def)

lemma fill_str_elems_map: "fill_str_elems (map JStr xs) = Some xs"
  by (induction xs) auto

lemma fill_str_list_omit:
  "fill_str_list [] (case omit_str_list xs of None \<Rightarrow> [] | Some j \<Rightarrow> [j]) = Some xs"
  by (simp add: omit_str_list_def fill_str_elems_map)

lemmas fill_omit = fill_str_omit fill_int_omit fill_bool_omit fill_raw_omit fill_str_map_omit
  fill_str_list_omit

subsection \<open>The contract of writers and readers\<close>

text \<open>
  A codec writes values as JSON and reads back what it wrote, for the values satisfying \<open>ok\<close>.
  Its clients (the session file, its copies and its listings) rely on this law only.
\<close>

locale codec =
  fixes enc :: "'a \<Rightarrow> json" and dec :: "json \<Rightarrow> 'a option" and ok :: "'a \<Rightarrow> bool"
  assumes dec_enc: "ok x \<Longrightarrow> dec (enc x) = Some x"
begin

lemma enc_inject: "ok x \<Longrightarrow> ok y \<Longrightarrow> enc x = enc y \<longleftrightarrow> x = y"
  by (metis dec_enc option.inject)

lemma decode_all: "(\<And>x. x \<in> set xs \<Longrightarrow> ok x) \<Longrightarrow> List.map_filter dec (map enc xs) = xs"
  by (induction xs) (auto simp: List.map_filter_simps dec_enc)

end

subsection \<open>Reading a decoded value\<close>

text \<open>
  A value decoded into \<^verbatim>\<open>any\<close> is a \<^verbatim>\<open>map[string]any\<close> for an object; \<open>lookup\<close> is the map access
  (the last member of a repeated key won), \<open>get_str\<close> is \<^verbatim>\<open>s, _ := m[k].(string)\<close>.
\<close>

definition lookup :: "members \<Rightarrow> string \<Rightarrow> json option" where
  "lookup ms k = map_of (rev ms) k"

definition get_str :: "members \<Rightarrow> string \<Rightarrow> string option" where
  "get_str ms k = (case lookup ms k of Some (JStr s) \<Rightarrow> Some s | _ \<Rightarrow> None)"

definition get_bool :: "members \<Rightarrow> string \<Rightarrow> bool option" where
  "get_bool ms k = (case lookup ms k of Some (JBool b) \<Rightarrow> Some b | _ \<Rightarrow> None)"

text \<open>The text blocks of a decoded content array.\<close>

fun block_text :: "json \<Rightarrow> string option" where
  "block_text (JObj ms) =
     (if lookup ms ''type'' = Some (JStr ''text'') then get_str ms ''text'' else None)"
| "block_text _ = None"

lemma lookup_snoc [simp]: "lookup (ms @ [(k, v)]) k' = (if k' = k then Some v else lookup ms k')"
  by (simp add: lookup_def)

end
