(* ===== verification/Entries.thy ===== *)
theory Entries
  imports Json "HOL-Library.Monad_Syntax"
begin

text \<open>
  The records of a session file (\<^verbatim>\<open>pkg/session/store/session.go\<close>, \<^verbatim>\<open>invocation.go\<close>): the header
  on the first line, one entry per following line, and the runtime invocation stamped on the
  header; how each is written as JSON and read back.

  The main facts are the two codec interpretations: every header and every entry that fits its
  Go types is read back exactly as it was written.
\<close>

subsection \<open>Invocation, header and entry records\<close>

record session_invocation =
  inv_provider :: string
  inv_model :: string
  inv_models :: "string list"
  inv_thinking :: string
  inv_system_prompt :: string
  inv_append_system_prompt :: string
  inv_tools :: "string list"
  inv_no_tools :: bool
  inv_mcp_config :: string
  inv_mcp_config_sha256 :: string
  inv_no_mcp :: bool
  inv_extensions :: "string list"
  inv_disabled_extensions :: "string list"
  inv_no_extensions :: bool
  inv_skills :: "string list"
  inv_no_skills :: bool
  inv_themes :: "string list"
  inv_no_themes :: bool

definition zero_invocation :: session_invocation where
  "zero_invocation =
     \<lparr>inv_provider = [], inv_model = [], inv_models = [], inv_thinking = [],
      inv_system_prompt = [], inv_append_system_prompt = [], inv_tools = [], inv_no_tools = False,
      inv_mcp_config = [], inv_mcp_config_sha256 = [], inv_no_mcp = False,
      inv_extensions = [], inv_disabled_extensions = [], inv_no_extensions = False,
      inv_skills = [], inv_no_skills = False, inv_themes = [], inv_no_themes = False\<rparr>"

definition invocation_is_empty :: "session_invocation option \<Rightarrow> bool" where
  "invocation_is_empty oi =
     (case oi of None \<Rightarrow> True
      | Some i \<Rightarrow>
          inv_provider i = [] \<and> inv_model i = [] \<and> inv_models i = []
          \<and> inv_thinking i = []
          \<and> inv_system_prompt i = [] \<and> inv_append_system_prompt i = []
          \<and> inv_tools i = [] \<and> \<not> inv_no_tools i
          \<and> inv_mcp_config i = [] \<and> \<not> inv_no_mcp i
          \<and> inv_extensions i = [] \<and> inv_disabled_extensions i = [] \<and> \<not> inv_no_extensions i
          \<and> inv_skills i = [] \<and> \<not> inv_no_skills i
          \<and> inv_themes i = [] \<and> \<not> inv_no_themes i)"

record session_header =
  h_type :: string
  h_version :: go_int
  h_id :: string
  h_timestamp :: string
  h_cwd :: path
  h_parent_session :: path
  h_fir_version :: string
  h_commit :: string
  h_invocation :: "session_invocation option"

record session_entry =
  e_type :: string
  e_id :: entry_id
  e_parent :: entry_id
  e_timestamp :: string
  e_message :: "json option"
  e_thinking_level :: string
  e_provider :: string
  e_model_id :: string
  e_fir_version :: string
  e_commit :: string
  e_summary :: string
  e_first_kept :: entry_id
  e_tokens_before :: go_int
  e_details :: "json option"
  e_from_hook :: bool
  e_from_id :: entry_id
  e_custom_type :: string
  e_data :: "json option"
  e_content :: "json option"
  e_display :: bool
  e_target_id :: entry_id
  e_label :: string
  e_name :: string
  e_command :: string
  e_args :: string
  e_plan_entries :: "json option"
  e_plan_title :: string
  e_plan_metadata :: "(string \<times> string) list"

definition zero_entry :: session_entry where
  "zero_entry =
     \<lparr>e_type = [], e_id = [], e_parent = [], e_timestamp = [], e_message = None,
      e_thinking_level = [], e_provider = [], e_model_id = [], e_fir_version = [], e_commit = [],
      e_summary = [], e_first_kept = [], e_tokens_before = 0, e_details = None,
      e_from_hook = False, e_from_id = [], e_custom_type = [], e_data = None, e_content = None,
      e_display = False, e_target_id = [], e_label = [], e_name = [], e_command = [], e_args = [],
      e_plan_entries = None, e_plan_title = [], e_plan_metadata = []\<rparr>"

subsection \<open>Writing\<close>

definition invocation_table :: "session_invocation \<Rightarrow> field_table" where
  "invocation_table i =
     [(''provider'', omit_str (inv_provider i)),
      (''model'', omit_str (inv_model i)),
      (''models'', omit_str_list (inv_models i)),
      (''thinking'', omit_str (inv_thinking i)),
      (''system_prompt'', omit_str (inv_system_prompt i)),
      (''append_system_prompt'', omit_str (inv_append_system_prompt i)),
      (''tools'', omit_str_list (inv_tools i)),
      (''no_tools'', omit_bool (inv_no_tools i)),
      (''mcp_config'', omit_str (inv_mcp_config i)),
      (''mcp_config_sha256'', omit_str (inv_mcp_config_sha256 i)),
      (''no_mcp'', omit_bool (inv_no_mcp i)),
      (''extensions'', omit_str_list (inv_extensions i)),
      (''disabled_extensions'', omit_str_list (inv_disabled_extensions i)),
      (''no_extensions'', omit_bool (inv_no_extensions i)),
      (''skills'', omit_str_list (inv_skills i)),
      (''no_skills'', omit_bool (inv_no_skills i)),
      (''themes'', omit_str_list (inv_themes i)),
      (''no_themes'', omit_bool (inv_no_themes i))]"

definition json_of_invocation :: "session_invocation \<Rightarrow> json" where
  "json_of_invocation i = JObj (emit (invocation_table i))"

definition header_table :: "session_header \<Rightarrow> field_table" where
  "header_table h =
     [(''type'', Some (JStr (h_type h))),
      (''version'', Some (JInt (h_version h))),
      (''id'', Some (JStr (h_id h))),
      (''timestamp'', Some (JStr (h_timestamp h))),
      (''cwd'', Some (JStr (h_cwd h))),
      (''parentSession'', omit_str (h_parent_session h)),
      (''firVersion'', omit_str (h_fir_version h)),
      (''commit'', omit_str (h_commit h)),
      (''invocation'', map_option json_of_invocation (h_invocation h))]"

definition json_of_header :: "session_header \<Rightarrow> json" where
  "json_of_header h = JObj (emit (header_table h))"

definition entry_table :: "session_entry \<Rightarrow> field_table" where
  "entry_table e =
     [(''type'', Some (JStr (e_type e))),
      (''id'', Some (JStr (e_id e))),
      (''parentId'', Some (JStr (e_parent e))),
      (''timestamp'', Some (JStr (e_timestamp e))),
      (''message'', e_message e),
      (''thinkingLevel'', omit_str (e_thinking_level e)),
      (''provider'', omit_str (e_provider e)),
      (''modelId'', omit_str (e_model_id e)),
      (''firVersion'', omit_str (e_fir_version e)),
      (''commit'', omit_str (e_commit e)),
      (''summary'', omit_str (e_summary e)),
      (''firstKeptEntryId'', omit_str (e_first_kept e)),
      (''tokensBefore'', omit_int (e_tokens_before e)),
      (''details'', e_details e),
      (''fromHook'', omit_bool (e_from_hook e)),
      (''fromId'', omit_str (e_from_id e)),
      (''customType'', omit_str (e_custom_type e)),
      (''data'', e_data e),
      (''content'', e_content e),
      (''display'', omit_bool (e_display e)),
      (''targetId'', omit_str (e_target_id e)),
      (''label'', omit_str (e_label e)),
      (''name'', omit_str (e_name e)),
      (''command'', omit_str (e_command e)),
      (''args'', omit_str (e_args e)),
      (''planEntries'', e_plan_entries e),
      (''planTitle'', omit_str (e_plan_title e)),
      (''planMetadata'', omit_str_map (e_plan_metadata e))]"

definition json_of_entry :: "session_entry \<Rightarrow> json" where
  "json_of_entry e = JObj (emit (entry_table e))"

subsection \<open>Reading\<close>

text \<open>An invocation is filled over the one read so far, as \<^verbatim>\<open>Unmarshal\<close> fills a struct in place.\<close>

definition fill_invocation :: "session_invocation \<Rightarrow> members \<Rightarrow> session_invocation option" where
  "fill_invocation i ms = do {
     provider \<leftarrow> fill_str (inv_provider i) (field_vals ''provider'' ms);
     model \<leftarrow> fill_str (inv_model i) (field_vals ''model'' ms);
     models \<leftarrow> fill_str_list (inv_models i) (field_vals ''models'' ms);
     thinking \<leftarrow> fill_str (inv_thinking i) (field_vals ''thinking'' ms);
     sys \<leftarrow> fill_str (inv_system_prompt i) (field_vals ''system_prompt'' ms);
     app \<leftarrow> fill_str (inv_append_system_prompt i) (field_vals ''append_system_prompt'' ms);
     tools \<leftarrow> fill_str_list (inv_tools i) (field_vals ''tools'' ms);
     no_tools \<leftarrow> fill_bool (inv_no_tools i) (field_vals ''no_tools'' ms);
     mcp \<leftarrow> fill_str (inv_mcp_config i) (field_vals ''mcp_config'' ms);
     sha \<leftarrow> fill_str (inv_mcp_config_sha256 i) (field_vals ''mcp_config_sha256'' ms);
     no_mcp \<leftarrow> fill_bool (inv_no_mcp i) (field_vals ''no_mcp'' ms);
     exts \<leftarrow> fill_str_list (inv_extensions i) (field_vals ''extensions'' ms);
     dis \<leftarrow> fill_str_list (inv_disabled_extensions i) (field_vals ''disabled_extensions'' ms);
     no_exts \<leftarrow> fill_bool (inv_no_extensions i) (field_vals ''no_extensions'' ms);
     skills \<leftarrow> fill_str_list (inv_skills i) (field_vals ''skills'' ms);
     no_skills \<leftarrow> fill_bool (inv_no_skills i) (field_vals ''no_skills'' ms);
     themes \<leftarrow> fill_str_list (inv_themes i) (field_vals ''themes'' ms);
     no_themes \<leftarrow> fill_bool (inv_no_themes i) (field_vals ''no_themes'' ms);
     Some \<lparr>inv_provider = provider, inv_model = model, inv_models = models, inv_thinking = thinking,
       inv_system_prompt = sys, inv_append_system_prompt = app, inv_tools = tools,
       inv_no_tools = no_tools, inv_mcp_config = mcp, inv_mcp_config_sha256 = sha,
       inv_no_mcp = no_mcp, inv_extensions = exts, inv_disabled_extensions = dis,
       inv_no_extensions = no_exts, inv_skills = skills, inv_no_skills = no_skills,
       inv_themes = themes, inv_no_themes = no_themes\<rparr>
   }"

fun fill_invocation_ptr ::
  "session_invocation option \<Rightarrow> json list \<Rightarrow> session_invocation option option" where
  "fill_invocation_ptr cur [] = Some cur"
| "fill_invocation_ptr cur (JNull # vs) = fill_invocation_ptr None vs"
| "fill_invocation_ptr cur (JObj ms # vs) =
     (case fill_invocation (the_default zero_invocation cur) ms of
        None \<Rightarrow> None
      | Some i \<Rightarrow> fill_invocation_ptr (Some i) vs)"
| "fill_invocation_ptr cur (_ # vs) = None"

definition header_of_json :: "json \<Rightarrow> session_header option" where
  "header_of_json j = do {
     ms \<leftarrow> object_members j;
     ty \<leftarrow> fill_str [] (field_vals ''type'' ms);
     version \<leftarrow> fill_int 0 (field_vals ''version'' ms);
     hid \<leftarrow> fill_str [] (field_vals ''id'' ms);
     ts \<leftarrow> fill_str [] (field_vals ''timestamp'' ms);
     cwd \<leftarrow> fill_str [] (field_vals ''cwd'' ms);
     parent \<leftarrow> fill_str [] (field_vals ''parentSession'' ms);
     fir \<leftarrow> fill_str [] (field_vals ''firVersion'' ms);
     commit \<leftarrow> fill_str [] (field_vals ''commit'' ms);
     invo \<leftarrow> fill_invocation_ptr None (field_vals ''invocation'' ms);
     Some \<lparr>h_type = ty, h_version = version, h_id = hid, h_timestamp = ts, h_cwd = cwd,
       h_parent_session = parent, h_fir_version = fir, h_commit = commit, h_invocation = invo\<rparr>
   }"

definition entry_of_json :: "json \<Rightarrow> session_entry option" where
  "entry_of_json j = do {
     ms \<leftarrow> object_members j;
     ty \<leftarrow> fill_str [] (field_vals ''type'' ms);
     eid \<leftarrow> fill_str [] (field_vals ''id'' ms);
     parent \<leftarrow> fill_str [] (field_vals ''parentId'' ms);
     ts \<leftarrow> fill_str [] (field_vals ''timestamp'' ms);
     thinking \<leftarrow> fill_str [] (field_vals ''thinkingLevel'' ms);
     provider \<leftarrow> fill_str [] (field_vals ''provider'' ms);
     model \<leftarrow> fill_str [] (field_vals ''modelId'' ms);
     fir \<leftarrow> fill_str [] (field_vals ''firVersion'' ms);
     commit \<leftarrow> fill_str [] (field_vals ''commit'' ms);
     summary \<leftarrow> fill_str [] (field_vals ''summary'' ms);
     kept \<leftarrow> fill_str [] (field_vals ''firstKeptEntryId'' ms);
     tokens \<leftarrow> fill_int 0 (field_vals ''tokensBefore'' ms);
     hook \<leftarrow> fill_bool False (field_vals ''fromHook'' ms);
     from_id \<leftarrow> fill_str [] (field_vals ''fromId'' ms);
     custom \<leftarrow> fill_str [] (field_vals ''customType'' ms);
     display \<leftarrow> fill_bool False (field_vals ''display'' ms);
     target \<leftarrow> fill_str [] (field_vals ''targetId'' ms);
     label \<leftarrow> fill_str [] (field_vals ''label'' ms);
     name \<leftarrow> fill_str [] (field_vals ''name'' ms);
     command \<leftarrow> fill_str [] (field_vals ''command'' ms);
     args \<leftarrow> fill_str [] (field_vals ''args'' ms);
     title \<leftarrow> fill_str [] (field_vals ''planTitle'' ms);
     metadata \<leftarrow> fill_str_map [] (field_vals ''planMetadata'' ms);
     Some \<lparr>e_type = ty, e_id = eid, e_parent = parent, e_timestamp = ts,
       e_message = fill_raw (field_vals ''message'' ms),
       e_thinking_level = thinking, e_provider = provider, e_model_id = model,
       e_fir_version = fir, e_commit = commit, e_summary = summary, e_first_kept = kept,
       e_tokens_before = tokens, e_details = fill_raw (field_vals ''details'' ms),
       e_from_hook = hook, e_from_id = from_id, e_custom_type = custom,
       e_data = fill_raw (field_vals ''data'' ms), e_content = fill_raw (field_vals ''content'' ms),
       e_display = display, e_target_id = target, e_label = label, e_name = name,
       e_command = command, e_args = args,
       e_plan_entries = fill_raw (field_vals ''planEntries'' ms),
       e_plan_title = title, e_plan_metadata = metadata\<rparr>
   }"

subsection \<open>What is written is read back\<close>

text \<open>
  The side conditions are those of the Go types: integers fit 64 bits, a map has one member per
  key. Everything else the types allow is kept.
\<close>

definition header_ok :: "session_header \<Rightarrow> bool" where
  "header_ok h \<longleftrightarrow> int_in_range (h_version h)"

definition entry_ok :: "session_entry \<Rightarrow> bool" where
  "entry_ok e \<longleftrightarrow> int_in_range (e_tokens_before e) \<and> distinct (map fst (e_plan_metadata e))"

lemma invocation_keys_distinct: "distinct (map (to_lower \<circ> fst) (invocation_table i))"
  by (simp add: invocation_table_def to_lower_def lower_char_def byte_of_def)

lemma header_keys_distinct: "distinct (map (to_lower \<circ> fst) (header_table h))"
  by (simp add: header_table_def to_lower_def lower_char_def byte_of_def)

lemma entry_keys_distinct: "distinct (map (to_lower \<circ> fst) (entry_table e))"
  by (simp add: entry_table_def to_lower_def lower_char_def byte_of_def)

lemmas invocation_field = field_vals_emit [OF invocation_keys_distinct]
lemmas header_field = field_vals_emit [OF header_keys_distinct]
lemmas entry_field = field_vals_emit [OF entry_keys_distinct]

lemma invocation_mem:
  "(''provider'', omit_str (inv_provider i)) \<in> set (invocation_table i)"
  "(''model'', omit_str (inv_model i)) \<in> set (invocation_table i)"
  "(''models'', omit_str_list (inv_models i)) \<in> set (invocation_table i)"
  "(''thinking'', omit_str (inv_thinking i)) \<in> set (invocation_table i)"
  "(''system_prompt'', omit_str (inv_system_prompt i)) \<in> set (invocation_table i)"
  "(''append_system_prompt'', omit_str (inv_append_system_prompt i)) \<in> set (invocation_table i)"
  "(''tools'', omit_str_list (inv_tools i)) \<in> set (invocation_table i)"
  "(''no_tools'', omit_bool (inv_no_tools i)) \<in> set (invocation_table i)"
  "(''mcp_config'', omit_str (inv_mcp_config i)) \<in> set (invocation_table i)"
  "(''mcp_config_sha256'', omit_str (inv_mcp_config_sha256 i)) \<in> set (invocation_table i)"
  "(''no_mcp'', omit_bool (inv_no_mcp i)) \<in> set (invocation_table i)"
  "(''extensions'', omit_str_list (inv_extensions i)) \<in> set (invocation_table i)"
  "(''disabled_extensions'', omit_str_list (inv_disabled_extensions i)) \<in> set (invocation_table i)"
  "(''no_extensions'', omit_bool (inv_no_extensions i)) \<in> set (invocation_table i)"
  "(''skills'', omit_str_list (inv_skills i)) \<in> set (invocation_table i)"
  "(''no_skills'', omit_bool (inv_no_skills i)) \<in> set (invocation_table i)"
  "(''themes'', omit_str_list (inv_themes i)) \<in> set (invocation_table i)"
  "(''no_themes'', omit_bool (inv_no_themes i)) \<in> set (invocation_table i)"
  by (simp_all add: invocation_table_def)

lemma header_mem:
  "(''type'', Some (JStr (h_type h))) \<in> set (header_table h)"
  "(''version'', Some (JInt (h_version h))) \<in> set (header_table h)"
  "(''id'', Some (JStr (h_id h))) \<in> set (header_table h)"
  "(''timestamp'', Some (JStr (h_timestamp h))) \<in> set (header_table h)"
  "(''cwd'', Some (JStr (h_cwd h))) \<in> set (header_table h)"
  "(''parentSession'', omit_str (h_parent_session h)) \<in> set (header_table h)"
  "(''firVersion'', omit_str (h_fir_version h)) \<in> set (header_table h)"
  "(''commit'', omit_str (h_commit h)) \<in> set (header_table h)"
  "(''invocation'', map_option json_of_invocation (h_invocation h)) \<in> set (header_table h)"
  by (simp_all add: header_table_def)

lemma entry_mem:
  "(''type'', Some (JStr (e_type e))) \<in> set (entry_table e)"
  "(''id'', Some (JStr (e_id e))) \<in> set (entry_table e)"
  "(''parentId'', Some (JStr (e_parent e))) \<in> set (entry_table e)"
  "(''timestamp'', Some (JStr (e_timestamp e))) \<in> set (entry_table e)"
  "(''message'', e_message e) \<in> set (entry_table e)"
  "(''thinkingLevel'', omit_str (e_thinking_level e)) \<in> set (entry_table e)"
  "(''provider'', omit_str (e_provider e)) \<in> set (entry_table e)"
  "(''modelId'', omit_str (e_model_id e)) \<in> set (entry_table e)"
  "(''firVersion'', omit_str (e_fir_version e)) \<in> set (entry_table e)"
  "(''commit'', omit_str (e_commit e)) \<in> set (entry_table e)"
  "(''summary'', omit_str (e_summary e)) \<in> set (entry_table e)"
  "(''firstKeptEntryId'', omit_str (e_first_kept e)) \<in> set (entry_table e)"
  "(''tokensBefore'', omit_int (e_tokens_before e)) \<in> set (entry_table e)"
  "(''details'', e_details e) \<in> set (entry_table e)"
  "(''fromHook'', omit_bool (e_from_hook e)) \<in> set (entry_table e)"
  "(''fromId'', omit_str (e_from_id e)) \<in> set (entry_table e)"
  "(''customType'', omit_str (e_custom_type e)) \<in> set (entry_table e)"
  "(''data'', e_data e) \<in> set (entry_table e)"
  "(''content'', e_content e) \<in> set (entry_table e)"
  "(''display'', omit_bool (e_display e)) \<in> set (entry_table e)"
  "(''targetId'', omit_str (e_target_id e)) \<in> set (entry_table e)"
  "(''label'', omit_str (e_label e)) \<in> set (entry_table e)"
  "(''name'', omit_str (e_name e)) \<in> set (entry_table e)"
  "(''command'', omit_str (e_command e)) \<in> set (entry_table e)"
  "(''args'', omit_str (e_args e)) \<in> set (entry_table e)"
  "(''planEntries'', e_plan_entries e) \<in> set (entry_table e)"
  "(''planTitle'', omit_str (e_plan_title e)) \<in> set (entry_table e)"
  "(''planMetadata'', omit_str_map (e_plan_metadata e)) \<in> set (entry_table e)"
  by (simp_all add: entry_table_def)

lemmas invocation_fields = invocation_mem [THEN invocation_field]
lemmas header_fields = header_mem [THEN header_field]
lemmas entry_fields = entry_mem [THEN entry_field]

lemma fill_invocation_written:
  "fill_invocation zero_invocation (emit (invocation_table i)) = Some i"
  by (simp add: fill_invocation_def invocation_fields zero_invocation_def fill_omit)

lemma header_written:
  assumes "header_ok h"
  shows "header_of_json (json_of_header h) = Some h"
proof -
  have "fill_invocation_ptr None
      (case map_option json_of_invocation (h_invocation h) of None \<Rightarrow> [] | Some j \<Rightarrow> [j])
    = Some (h_invocation h)"
    by (cases "h_invocation h") (simp_all add: json_of_invocation_def fill_invocation_written)
  with assms show ?thesis
    by (simp add: header_of_json_def json_of_header_def header_fields fill_omit header_ok_def)
qed

lemma entry_written:
  assumes "entry_ok e"
  shows "entry_of_json (json_of_entry e) = Some e"
  using assms
  by (simp add: entry_of_json_def json_of_entry_def entry_fields fill_omit entry_ok_def)

interpretation header_codec: codec json_of_header header_of_json header_ok
  by unfold_locales (rule header_written)

interpretation entry_codec: codec json_of_entry entry_of_json entry_ok
  by unfold_locales (rule entry_written)

end
