(* ===== verification/Disk.thy ===== *)
theory Disk
  imports Entries
begin

text \<open>
  The files behind a session (\<^verbatim>\<open>pkg/session/store/session.go\<close>, \<^verbatim>\<open>session_sidecar.go\<close>,
  \<^verbatim>\<open>lock.go\<close>): transcripts as sequences of JSON lines, the metadata sidecar of each transcript,
  and the advisory lock on it.

  A transcript is the list of its newline-terminated lines and, when the last byte is not a
  newline, the unterminated rest. A line is a JSON document or a torn one: bytes that are not a
  single JSON document, left by a process killed during a write. Appending to an unterminated
  rest glues the two together, which never is one JSON document.

  The world a call runs in (clock, random identifiers, version, the read-only stores, whether a
  write succeeds) is the record \<open>world\<close>.
\<close>

subsection \<open>The world of a call\<close>

text \<open>
  \<open>w_read_only\<close> is \<^verbatim>\<open>ReadOnlyStoreFor\<close>: the label of the read-only store holding a path.
  \<open>w_parse_time\<close> is \<^verbatim>\<open>time.Parse\<close> (the zero time for an unreadable text), \<open>w_format_time\<close>
  \<^verbatim>\<open>Time.Format\<close> of the same layout, \<open>w_io_ok\<close> says whether opening a path for writing succeeds.
\<close>

record world =
  w_uuid :: "nat \<Rightarrow> string"
  w_session_uuid :: string
  w_now :: string
  w_clock :: int
  w_version :: string
  w_commit :: string
  w_read_only :: "path \<Rightarrow> string option"
  w_store_dir :: "path \<Rightarrow> path"
  w_parse_time :: "string \<Rightarrow> int"
  w_format_time :: "int \<Rightarrow> string"
  w_io_ok :: "path \<Rightarrow> bool"

definition check_writable :: "world \<Rightarrow> path \<Rightarrow> bool" where
  "check_writable w p \<longleftrightarrow> w_read_only w p = None"

subsection \<open>Transcript files\<close>

datatype disk_line = Line json | Torn

record dfile =
  f_lines :: "disk_line list"
  f_tail :: "disk_line option"
  f_mtime :: int

record meta_sidecar =
  ms_name :: string
  ms_first_message :: string
  ms_cwd :: path
  ms_id :: string
  ms_parent_session :: path
  ms_created :: int
  ms_message_count :: int
  ms_mod_time :: int

record disk =
  d_files :: "path \<Rightarrow> dfile option"
  d_sidecars :: "path \<Rightarrow> meta_sidecar option"
  d_locked :: "path \<Rightarrow> bool"

definition file_lines :: "dfile \<Rightarrow> disk_line list" where
  "file_lines f = f_lines f @ (case f_tail f of None \<Rightarrow> [] | Some l \<Rightarrow> [l])"

text \<open>Appending one JSON document and its newline to the bytes of a file.\<close>

definition append_line :: "json \<Rightarrow> dfile \<Rightarrow> dfile" where
  "append_line j f =
     (case f_tail f of
        None \<Rightarrow> f\<lparr>f_lines := f_lines f @ [Line j]\<rparr>
      | Some _ \<Rightarrow> f\<lparr>f_lines := f_lines f @ [Torn], f_tail := None\<rparr>)"

text \<open>
  A process killed inside such an append leaves a prefix of the document, or the whole document
  without its newline.
\<close>

inductive crashed_append :: "json \<Rightarrow> dfile \<Rightarrow> dfile \<Rightarrow> bool" for j f where
  nothing: "crashed_append j f f"
| partial: "f_tail f = None \<Longrightarrow> crashed_append j f (f\<lparr>f_tail := Some Torn\<rparr>)"
| no_newline: "f_tail f = None \<Longrightarrow> crashed_append j f (f\<lparr>f_tail := Some (Line j)\<rparr>)"
| glued: "f_tail f = Some l \<Longrightarrow> crashed_append j f (f\<lparr>f_tail := Some Torn\<rparr>)"
| whole: "crashed_append j f (append_line j f)"

definition set_file :: "path \<Rightarrow> dfile \<Rightarrow> disk \<Rightarrow> disk" where
  "set_file p f d = d\<lparr>d_files := (d_files d)(p := Some f)\<rparr>"

definition write_lines :: "world \<Rightarrow> path \<Rightarrow> json list \<Rightarrow> disk \<Rightarrow> disk" where
  "write_lines w p js d =
     set_file p \<lparr>f_lines = map Line js, f_tail = None, f_mtime = w_clock w\<rparr> d"

definition empty_file :: "world \<Rightarrow> dfile" where
  "empty_file w = \<lparr>f_lines = [], f_tail = None, f_mtime = w_clock w\<rparr>"

text \<open>\<^verbatim>\<open>os.OpenFile(path, O_CREATE|O_WRONLY|O_APPEND)\<close>, then the document and a newline.\<close>

definition append_to :: "world \<Rightarrow> path \<Rightarrow> json \<Rightarrow> disk \<Rightarrow> disk" where
  "append_to w p j d =
     set_file p ((append_line j (the_default (empty_file w) (d_files d p)))\<lparr>f_mtime := w_clock w\<rparr>) d"

subsection \<open>Repairing and loading\<close>

definition repair_trailing_newline :: "world \<Rightarrow> path \<Rightarrow> disk \<Rightarrow> disk" where
  "repair_trailing_newline w p d =
     (if \<not> check_writable w p then d
      else if \<not> w_io_ok w p then d
      else case d_files d p of
          None \<Rightarrow> d
        | Some f \<Rightarrow>
            (case f_tail f of
               None \<Rightarrow> d
             | Some l \<Rightarrow>
                 set_file p (f\<lparr>f_lines := f_lines f @ [l], f_tail := None, f_mtime := w_clock w\<rparr>) d))"

text \<open>The \<^verbatim>\<open>Type\<close> probe of a line: \<open>None\<close> when unmarshalling fails.\<close>

definition probe_type :: "json \<Rightarrow> string option" where
  "probe_type j = Option.bind (object_members j) (\<lambda>ms. fill_str [] (field_vals ''type'' ms))"

fun load_lines ::
  "session_header option \<Rightarrow> session_entry list \<Rightarrow> disk_line list
     \<Rightarrow> session_header option \<times> session_entry list" where
  "load_lines h es [] = (h, es)"
| "load_lines h es (Torn # ls) = load_lines h es ls"
| "load_lines h es (Line j # ls) =
     (case probe_type j of
        None \<Rightarrow> load_lines h es ls
      | Some t \<Rightarrow>
          if t = ''session'' then
            (case header_of_json j of
               Some h' \<Rightarrow> if h_id h' \<noteq> [] then load_lines (Some h') es ls else load_lines h es ls
             | None \<Rightarrow> load_lines h es ls)
          else
            (case entry_of_json j of
               Some e \<Rightarrow> load_lines h (es @ [e]) ls
             | None \<Rightarrow> load_lines h es ls))"

definition load_entries_from_file ::
  "disk \<Rightarrow> path \<Rightarrow> session_header option \<times> session_entry list" where
  "load_entries_from_file d p =
     (case d_files d p of
        None \<Rightarrow> (None, [])
      | Some f \<Rightarrow> load_lines None [] (file_lines f))"

subsection \<open>Locks and sidecars\<close>

text \<open>
  \<^verbatim>\<open>tryLockSession\<close>: a non-blocking exclusive \<^verbatim>\<open>flock\<close> on the sidecar file, refused when another open
  file, in this process or another, holds it. It creates the sidecar file empty when it is missing;
  an empty sidecar is unreadable, which is the model's \<open>None\<close>.
\<close>

definition try_lock_session :: "world \<Rightarrow> path \<Rightarrow> disk \<Rightarrow> disk \<times> bool" where
  "try_lock_session w p d =
     (if \<not> check_writable w p then (d, False)
      else if \<not> w_io_ok w (p @ ''.meta.json'') then (d, False)
      else if d_locked d p then (d, False)
      else (d\<lparr>d_locked := (d_locked d)(p := True)\<rparr>, True))"

definition release_lock :: "path \<Rightarrow> disk \<Rightarrow> disk" where
  "release_lock p d = d\<lparr>d_locked := (d_locked d)(p := False)\<rparr>"

definition read_sidecar :: "disk \<Rightarrow> path \<Rightarrow> int \<Rightarrow> meta_sidecar option" where
  "read_sidecar d p mtime =
     (case d_sidecars d p of
        None \<Rightarrow> None
      | Some m \<Rightarrow> if ms_mod_time m = mtime then Some m else None)"

definition write_sidecar :: "world \<Rightarrow> path \<Rightarrow> meta_sidecar \<Rightarrow> disk \<Rightarrow> disk" where
  "write_sidecar w p m d =
     (if \<not> check_writable w (p @ ''.meta.json'') then d
      else if \<not> w_io_ok w (p @ ''.meta.json'') then d
      else d\<lparr>d_sidecars := (d_sidecars d)(p := Some m)\<rparr>)"

subsection \<open>The listing summary of a transcript\<close>

definition extract_text_from_any :: "json \<Rightarrow> string" where
  "extract_text_from_any c =
     (case c of
        JStr s \<Rightarrow> s
      | JArr items \<Rightarrow> join '' '' (List.map_filter block_text items)
      | _ \<Rightarrow> [])"

text \<open>The \<^verbatim>\<open>Role\<close>/\<^verbatim>\<open>Content\<close> probe of a stored message.\<close>

definition probe_role_content :: "json \<Rightarrow> (string \<times> json) option" where
  "probe_role_content j = do {
     ms \<leftarrow> object_members j;
     role \<leftarrow> fill_str [] (field_vals ''role'' ms);
     Some (role, the_default JNull (fill_raw (field_vals ''content'' ms)))
   }"

record listing =
  li_name :: string
  li_count :: int
  li_first :: string

fun summarize_from :: "listing \<Rightarrow> session_entry list \<Rightarrow> listing" where
  "summarize_from l [] = l"
| "summarize_from l (e # es) =
     (let l1 = (if e_type e = ''session_info'' \<and> e_name e \<noteq> [] then l\<lparr>li_name := e_name e\<rparr> else l)
      in if e_type e \<noteq> ''message'' then summarize_from l1 es
         else
           let l2 = l1\<lparr>li_count := li_count l1 + 1\<rparr>
           in case e_message e of
                None \<Rightarrow> summarize_from l2 es
              | Some j \<Rightarrow>
                  if li_first l2 = [] then
                    (case probe_role_content j of
                       Some (role, content) \<Rightarrow>
                         if role = ''user''
                         then summarize_from (l2\<lparr>li_first := extract_text_from_any content\<rparr>) es
                         else summarize_from l2 es
                     | None \<Rightarrow> summarize_from l2 es)
                  else summarize_from l2 es)"

definition summarize :: "session_entry list \<Rightarrow> listing" where
  "summarize es =
     (let l = summarize_from \<lparr>li_name = [], li_count = 0, li_first = []\<rparr> es
      in if li_first l = [] then l\<lparr>li_first := ''(no messages)''\<rparr> else l)"

definition sidecar_of ::
  "world \<Rightarrow> session_header \<Rightarrow> session_entry list \<Rightarrow> int \<Rightarrow> meta_sidecar" where
  "sidecar_of w h es mtime =
     (let l = summarize es
      in \<lparr>ms_name = li_name l, ms_first_message = li_first l, ms_cwd = h_cwd h, ms_id = h_id h,
          ms_parent_session = h_parent_session h, ms_created = w_parse_time w (h_timestamp h),
          ms_message_count = li_count l, ms_mod_time = mtime\<rparr>)"

subsection \<open>Loading what was written\<close>

definition storable_header :: "session_header \<Rightarrow> bool" where
  "storable_header h \<longleftrightarrow> header_ok h \<and> h_type h = ''session'' \<and> h_id h \<noteq> []"

definition storable_entry :: "session_entry \<Rightarrow> bool" where
  "storable_entry e \<longleftrightarrow> entry_ok e \<and> e_type e \<noteq> ''session''"

lemma probe_type_header [simp]: "probe_type (json_of_header h) = Some (h_type h)"
  by (simp add: probe_type_def json_of_header_def header_fields)

lemma probe_type_entry [simp]: "probe_type (json_of_entry e) = Some (e_type e)"
  by (simp add: probe_type_def json_of_entry_def entry_fields)

lemma load_lines_append:
  "load_lines h es (xs @ ys) = (case load_lines h es xs of (h', es') \<Rightarrow> load_lines h' es' ys)"
  by (induction h es xs rule: load_lines.induct) (auto split: option.split)

lemma load_written_entries:
  "(\<And>e. e \<in> set es' \<Longrightarrow> storable_entry e) \<Longrightarrow>
     load_lines h es (map (Line \<circ> json_of_entry) es') = (h, es @ es')"
  by (induction es' arbitrary: es) (auto simp: storable_entry_def entry_written)

lemma load_written_header:
  "storable_header h' \<Longrightarrow> load_lines h es (Line (json_of_header h') # ls) = load_lines (Some h') es ls"
  by (simp add: storable_header_def header_written)

lemma load_torn [simp]: "load_lines h es (ls @ [Torn]) = load_lines h es ls"
  by (simp add: load_lines_append split: prod.split)

lemma load_snoc_entry:
  "storable_entry e \<Longrightarrow>
     load_lines h es (ls @ [Line (json_of_entry e)])
       = (fst (load_lines h es ls), snd (load_lines h es ls) @ [e])"
  by (simp add: load_lines_append storable_entry_def entry_written split: prod.split)

text \<open>The lines a store keeps on disk: its header and its entries.\<close>

definition transcript_lines :: "session_header \<Rightarrow> session_entry list \<Rightarrow> json list" where
  "transcript_lines h es = json_of_header h # map json_of_entry es"

lemma load_transcript_lines:
  "storable_header h \<Longrightarrow> (\<And>e. e \<in> set es \<Longrightarrow> storable_entry e) \<Longrightarrow>
     load_lines None [] (map Line (transcript_lines h es)) = (Some h, es)"
  using load_written_entries [of es "Some h" "[]"]
  by (simp add: transcript_lines_def load_written_header del: load_lines.simps(3))

subsection \<open>Crashes and the repair\<close>

text \<open>
  The bytes of a file as they stand after the repair: every line is terminated, none is lost.
\<close>

definition repaired :: "dfile \<Rightarrow> dfile" where
  "repaired f = f\<lparr>f_lines := file_lines f, f_tail := None\<rparr>"

lemma repair_loads_same:
  "load_lines h es (file_lines (repaired f)) = load_lines h es (file_lines f)"
  by (simp add: repaired_def file_lines_def)

lemma crashed_append_loads:
  assumes "crashed_append (json_of_entry e) f f'" and "f_tail f = None" and "storable_entry e"
  shows "load_lines None [] (file_lines f') = load_lines None [] (file_lines f)
       \<or> load_lines None [] (file_lines f')
           = (fst (load_lines None [] (file_lines f)), snd (load_lines None [] (file_lines f)) @ [e])"
  using assms
  by (cases rule: crashed_append.cases)
    (auto simp: file_lines_def append_line_def load_snoc_entry)

lemma append_after_repair:
  assumes "storable_entry e"
  shows "load_lines None [] (file_lines (append_line (json_of_entry e) (repaired f)))
       = (fst (load_lines None [] (file_lines f)), snd (load_lines None [] (file_lines f)) @ [e])"
  using load_snoc_entry [OF assms, of None "[]" "file_lines f"]
  by (simp add: repaired_def append_line_def file_lines_def)

lemma append_without_repair_lost:
  assumes "f_tail f = Some l"
  shows "load_lines h es (file_lines (append_line j f)) = load_lines h es (f_lines f)"
  using assms by (simp add: append_line_def file_lines_def)

end
