(* ===== verification/StateHistory.thy ===== *)
theory StateHistory
  imports Disk
begin

text \<open>
  The settings history of a session (\<^verbatim>\<open>pkg/session/store/state.go\<close>): an append-only file beside the
  transcript whose lines each hold a full snapshot. The last readable line is the current state; a
  line cut by a crash is skipped and, on the next append, terminated; a snapshot equal to the
  current one is not written; and past a cap of lines the file is rewritten with the newest ones.

  The file lives in the same directory of files as the transcripts, under its own name.
\<close>

definition state_path :: "path \<Rightarrow> path" where
  "state_path file = (if file = [] then [] else file @ ''.state.jsonl'')"

definition legacy_state_path :: "path \<Rightarrow> path" where
  "legacy_state_path file = file @ ''.state.json''"

definition max_state_history :: nat where
  "max_state_history = 1000"

record state_record =
  sr_ts :: string
  sr_reason :: string
  sr_state :: json

datatype state_error = NoSessionFile | StateReadOnly path | StateIo path

definition record_table :: "state_record \<Rightarrow> field_table" where
  "record_table r =
     [(''ts'', Some (JStr (sr_ts r))), (''reason'', omit_str (sr_reason r)),
      (''state'', Some (sr_state r))]"

definition json_of_record :: "state_record \<Rightarrow> json" where
  "json_of_record r = JObj (emit (record_table r))"

text \<open>A line without a \<^verbatim>\<open>state\<close> member is not a record.\<close>

definition record_of_json :: "json \<Rightarrow> state_record option" where
  "record_of_json j = do {
     ms \<leftarrow> object_members j;
     ts \<leftarrow> fill_str [] (field_vals ''ts'' ms);
     reason \<leftarrow> fill_str [] (field_vals ''reason'' ms);
     state \<leftarrow> fill_raw (field_vals ''state'' ms);
     Some \<lparr>sr_ts = ts, sr_reason = reason, sr_state = state\<rparr>
   }"

fun line_records :: "disk_line list \<Rightarrow> state_record list" where
  "line_records [] = []"
| "line_records (Torn # ls) = line_records ls"
| "line_records (Line j # ls) =
     (case record_of_json j of None \<Rightarrow> line_records ls | Some r \<Rightarrow> r # line_records ls)"

subsection \<open>Appending one record\<close>

definition terminated :: "dfile \<Rightarrow> dfile" where
  "terminated f = f\<lparr>f_lines := file_lines f, f_tail := None\<rparr>"

definition append_record ::
  "world \<Rightarrow> path \<Rightarrow> json \<Rightarrow> int \<Rightarrow> string \<Rightarrow> disk \<Rightarrow> disk \<times> state_error option" where
  "append_record w p state ts reason d =
     (let t = (if ts = 0 then w_clock w else ts);
          j = json_of_record \<lparr>sr_ts = w_format_time w t, sr_reason = reason, sr_state = state\<rparr>
      in if \<not> check_writable w p then (d, Some (StateReadOnly p))
         else if \<not> w_io_ok w p then (d, Some (StateIo p))
         else (set_file p
                 ((append_line j (terminated (the_default (empty_file w) (d_files d p))))
                    \<lparr>f_mtime := w_clock w\<rparr>) d, None))"

definition remove_file :: "path \<Rightarrow> disk \<Rightarrow> disk" where
  "remove_file p d = d\<lparr>d_files := (d_files d)(p := None)\<rparr>"

text \<open>
  The legacy file holds one JSON document; it becomes the first line of the history, unless a history
  already exists, and is removed.
\<close>

definition migrate_legacy_state :: "world \<Rightarrow> path \<Rightarrow> disk \<Rightarrow> disk" where
  "migrate_legacy_state w file d =
     (if \<not> check_writable w file then d
      else case d_files d (legacy_state_path file) of
          None \<Rightarrow> d
        | Some f \<Rightarrow>
            if d_files d (state_path file) \<noteq> None then remove_file (legacy_state_path file) d
            else case file_lines f of
                [Line j] \<Rightarrow>
                  (case append_record w (state_path file) j (f_mtime f) ''migrate'' d of
                     (d1, None) \<Rightarrow> remove_file (legacy_state_path file) d1
                   | (d1, Some e) \<Rightarrow> d1)
              | _ \<Rightarrow> d)"

definition read_history :: "world \<Rightarrow> path \<Rightarrow> disk \<Rightarrow> disk \<times> state_record list \<times> nat" where
  "read_history w file d =
     (if state_path file = [] then (d, [], 0)
      else let d1 = migrate_legacy_state w file d
           in case d_files d1 (state_path file) of
                None \<Rightarrow> (d1, [], 0)
              | Some f \<Rightarrow> (d1, line_records (file_lines f), length (file_lines f)))"

definition read_state :: "world \<Rightarrow> path \<Rightarrow> disk \<Rightarrow> disk \<times> json option" where
  "read_state w file d =
     (case read_history w file d of
        (d1, recs, n) \<Rightarrow> (d1, if recs = [] then None else Some (sr_state (last recs))))"

text \<open>Keeping the newest \<open>keep\<close> lines.\<close>

definition compact_history :: "world \<Rightarrow> path \<Rightarrow> nat \<Rightarrow> disk \<Rightarrow> disk \<times> state_error option" where
  "compact_history w p keep d =
     (case d_files d p of
        None \<Rightarrow> (d, Some (StateIo p))
      | Some f \<Rightarrow>
          if length (file_lines f) \<le> keep then (d, None)
          else if \<not> check_writable w p then (d, Some (StateReadOnly p))
          else if \<not> w_io_ok w p then (d, Some (StateIo p))
          else (set_file p
                  \<lparr>f_lines = drop (length (file_lines f) - keep) (file_lines f), f_tail = None,
                   f_mtime = w_clock w\<rparr> d, None))"

definition append_state ::
  "world \<Rightarrow> path \<Rightarrow> json \<Rightarrow> string \<Rightarrow> disk \<Rightarrow> disk \<times> state_error option" where
  "append_state w file v reason d =
     (if state_path file = [] then (d, Some NoSessionFile)
      else case read_history w file d of
          (d1, recs, n) \<Rightarrow>
            if recs \<noteq> [] \<and> sr_state (last recs) = v then (d1, None)
            else case append_record w (state_path file) v (w_clock w) reason d1 of
                (d2, Some e) \<Rightarrow> (d2, Some e)
              | (d2, None) \<Rightarrow>
                  if n + 1 > max_state_history
                  then compact_history w (state_path file) max_state_history d2
                  else (d2, None))"

definition write_state :: "world \<Rightarrow> path \<Rightarrow> json \<Rightarrow> disk \<Rightarrow> disk \<times> state_error option" where
  "write_state w file v d = append_state w file v [] d"

subsection \<open>Copying settings to a fork\<close>

text \<open>
  \<^verbatim>\<open>copyStateUnbound\<close> (\<^verbatim>\<open>fork_at.go\<close>): the settings without the runtime handle. The Go maps are
  written back with sorted keys; the order of members is not part of what is read, and the model
  keeps the one it finds.
\<close>

fun members_map :: "members \<Rightarrow> members" where
  "members_map [] = []"
| "members_map ((k, v) # ms) = (if k \<in> fst ` set ms then members_map ms else (k, v) # members_map ms)"

definition unbind :: "members \<Rightarrow> members" where
  "unbind st =
     (case map_of st ''runtime'' of
        Some (JObj rt) \<Rightarrow>
          (case map_of (members_map rt) ''handle'' of
             None \<Rightarrow> st
           | Some _ \<Rightarrow>
               put ''runtime'' (JObj (remove_key ''handle'' (members_map rt))) st)
      | _ \<Rightarrow> st)"

definition copy_state_unbound :: "world \<Rightarrow> path \<Rightarrow> path \<Rightarrow> disk \<Rightarrow> disk" where
  "copy_state_unbound w src dst d =
     (case read_state w src d of
        (d1, Some (JObj st)) \<Rightarrow> fst (write_state w dst (JObj (unbind (members_map st))) d1)
      | (d1, Some JNull) \<Rightarrow> fst (write_state w dst JNull d1)
      | (d1, _) \<Rightarrow> d1)"

subsection \<open>Reading back\<close>

lemma record_keys_distinct: "distinct (map (to_lower \<circ> fst) (record_table r))"
  by (simp add: record_table_def to_lower_def lower_char_def byte_of_def)

lemmas record_field = field_vals_emit [OF record_keys_distinct]

lemma record_fields:
  "field_vals ''ts'' (emit (record_table r)) = [JStr (sr_ts r)]"
  "field_vals ''reason'' (emit (record_table r))
     = (case omit_str (sr_reason r) of None \<Rightarrow> [] | Some j \<Rightarrow> [j])"
  "field_vals ''state'' (emit (record_table r)) = [sr_state r]"
  using record_field [of "''ts''" "Some (JStr (sr_ts r))" r]
    record_field [of "''reason''" "omit_str (sr_reason r)" r]
    record_field [of "''state''" "Some (sr_state r)" r]
  by (simp_all add: record_table_def)

lemma record_written: "record_of_json (json_of_record r) = Some r"
  by (simp add: record_of_json_def json_of_record_def record_fields fill_omit fill_raw_def)

interpretation record_codec: codec json_of_record record_of_json "\<lambda>_. True"
  by unfold_locales (rule record_written)

lemma line_records_append [simp]: "line_records (xs @ ys) = line_records xs @ line_records ys"
  by (induction xs rule: line_records.induct) (auto split: option.split)

lemma line_records_drop: "\<exists>k. line_records (drop n ls) = drop k (line_records ls)"
proof -
  have "line_records ls = line_records (take n ls) @ line_records (drop n ls)"
    by (metis append_take_drop_id line_records_append)
  then have "line_records (drop n ls) = drop (length (line_records (take n ls))) (line_records ls)"
    by simp
  then show ?thesis by blast
qed

lemma file_lines_append_terminated:
  "file_lines (append_line j (terminated f)) = file_lines f @ [Line j]"
  by (simp add: terminated_def append_line_def file_lines_def)

lemma file_lines_plain: "file_lines \<lparr>f_lines = ls, f_tail = None, f_mtime = m\<rparr> = ls"
  by (simp add: file_lines_def)

lemma state_paths_differ: "file \<noteq> [] \<Longrightarrow> state_path file \<noteq> legacy_state_path file"
  by (simp add: state_path_def legacy_state_path_def)

lemma migrate_existing:
  assumes "d_files d (state_path file) = Some f" and "file \<noteq> []"
  shows "d_files (migrate_legacy_state w file d) (state_path file) = Some f"
  using assms state_paths_differ [OF assms(2)]
  by (auto simp: migrate_legacy_state_def remove_file_def split: option.split)

lemma read_history_existing:
  assumes "d_files d (state_path file) = Some f" and "file \<noteq> []"
  shows "snd (read_history w file d) = (line_records (file_lines f), length (file_lines f))"
  using migrate_existing [OF assms, of w] assms(2)
  by (simp add: read_history_def Let_def state_path_def)

lemma read_history_none:
  assumes "read_history w file d = (d1, recs, n)" and "file \<noteq> []"
  shows "(d_files d1 (state_path file) = None \<and> recs = [] \<and> n = 0)
       \<or> (\<exists>f. d_files d1 (state_path file) = Some f \<and> recs = line_records (file_lines f)
            \<and> n = length (file_lines f))"
  using assms by (auto simp: read_history_def Let_def state_path_def split: option.splits)

lemma append_record_ok:
  assumes "append_record w p v ts reason d = (d', None)"
  shows "\<exists>f r. d_files d' p = Some f
     \<and> file_lines f = (case d_files d p of None \<Rightarrow> [] | Some g \<Rightarrow> file_lines g) @ [Line (json_of_record r)]
     \<and> sr_state r = v \<and> sr_reason r = reason"
proof -
  define r where "r = \<lparr>sr_ts = w_format_time w (if ts = 0 then w_clock w else ts),
      sr_reason = reason, sr_state = v\<rparr>"
  define g where "g = the_default (empty_file w) (d_files d p)"
  define f where "f = (append_line (json_of_record r) (terminated g))\<lparr>f_mtime := w_clock w\<rparr>"
  have d': "d' = set_file p f d"
    using assms by (auto simp: append_record_def Let_def r_def g_def f_def split: if_splits)
  have "file_lines f = file_lines g @ [Line (json_of_record r)]"
    using file_lines_append_terminated [of "json_of_record r" g]
    by (simp add: f_def file_lines_def)
  moreover have "file_lines g = (case d_files d p of None \<Rightarrow> [] | Some g \<Rightarrow> file_lines g)"
    by (simp add: g_def empty_file_def file_lines_def split: option.split)
  ultimately show ?thesis
    by (intro exI [of _ f] exI [of _ r]) (simp add: d' set_file_def r_def)
qed

lemma compact_history_ok:
  assumes "compact_history w p keep d = (d', None)"
  shows "\<exists>f g. d_files d p = Some f \<and> d_files d' p = Some g
     \<and> file_lines g = drop (length (file_lines f) - keep) (file_lines f)"
  using assms
  by (auto simp: compact_history_def set_file_def file_lines_plain split: option.splits if_splits)

text \<open>
  What an append does to the records: nothing when the state is the current one, else the new record
  behind those before it, the oldest dropped beyond the cap.
\<close>

lemma append_state_records:
  assumes ok: "append_state w file v reason d = (d', None)"
    and r: "read_history w file d = (d1, recs, n)" and sf: "file \<noteq> []"
  shows "\<exists>r k. snd (read_history w' file d') = (if recs \<noteq> [] \<and> sr_state (last recs) = v
      then (recs, n) else (drop k (recs @ [r]), min (n + 1) max_state_history)) \<and> sr_state r = v
      \<and> k \<le> length recs"
proof (cases "recs \<noteq> [] \<and> sr_state (last recs) = v")
  case True
  then have "d' = d1" using ok r sf by (simp add: append_state_def state_path_def)
  moreover from True read_history_none [OF r sf] obtain f where
    "d_files d1 (state_path file) = Some f" "recs = line_records (file_lines f)"
    "n = length (file_lines f)" by auto
  ultimately have "snd (read_history w' file d') = (recs, n)"
    using read_history_existing [OF _ sf] by simp
  with True show ?thesis by (intro exI [of _ "\<lparr>sr_ts = [], sr_reason = [], sr_state = v\<rparr>"] exI [of _ 0]) simp
next
  case False
  obtain d2 where a: "append_record w (state_path file) v (w_clock w) reason d1 = (d2, None)"
    and rest: "(d', None) = (if n + 1 > max_state_history
        then compact_history w (state_path file) max_state_history d2 else (d2, None))"
    using ok r sf False
    by (auto simp: append_state_def state_path_def split: prod.splits option.splits)
  from append_record_ok [OF a] obtain f r0 where f: "d_files d2 (state_path file) = Some f"
    "file_lines f = (case d_files d1 (state_path file) of None \<Rightarrow> [] | Some g \<Rightarrow> file_lines g)
        @ [Line (json_of_record r0)]" "sr_state r0 = v" by blast
  have lines: "line_records (file_lines f) = recs @ [r0]" "length (file_lines f) = n + 1"
    using read_history_none [OF r sf] f(2) by (auto simp: record_written)
  show ?thesis
  proof (cases "n + 1 > max_state_history")
    case True
    with rest have "compact_history w (state_path file) max_state_history d2 = (d', None)" by simp
    from compact_history_ok [OF this] f(1) obtain g where g: "d_files d' (state_path file) = Some g"
      "file_lines g = drop (length (file_lines f) - max_state_history) (file_lines f)" by auto
    let ?m = "length (file_lines f) - max_state_history"
    have m: "?m \<le> n" using lines(2) by (simp add: max_state_history_def)
    have "line_records (file_lines g) = drop (length (line_records (take ?m (file_lines f)))) (recs @ [r0])"
      using g(2) lines(1)
      by (metis append_eq_conv_conj append_take_drop_id line_records_append)
    moreover have "length (line_records (take ?m (file_lines f))) \<le> length recs"
    proof -
      have "file_lines f = butlast (file_lines f) @ [last (file_lines f)]"
        using lines(2) by (metis append_butlast_last_id length_0_conv not_add_less2 add_is_0 zero_neq_one)
      then have "take ?m (file_lines f) = take ?m (butlast (file_lines f))"
        using m lines(2) by (metis length_butlast diff_add_inverse2 take_append append.right_neutral take_0 diff_is_0_eq)
      moreover have "line_records (butlast (file_lines f)) = recs"
        using f(2) lines(1) record_written [of r0] by simp
      moreover have "line_records (butlast (file_lines f))
          = line_records (take ?m (butlast (file_lines f))) @ line_records (drop ?m (butlast (file_lines f)))"
        by (metis append_take_drop_id line_records_append)
      ultimately show ?thesis by (metis le_add1 length_append)
    qed
    moreover have "length (file_lines g) = max_state_history"
      using g(2) lines(2) True by simp
    ultimately have "snd (read_history w' file d')
        = (drop (length (line_records (take ?m (file_lines f)))) (recs @ [r0]), min (n + 1) max_state_history)"
      using read_history_existing [OF g(1) sf, of w'] True by simp
    with False f(3) \<open>length (line_records (take ?m (file_lines f))) \<le> length recs\<close> show ?thesis
      by (metis (no_types, lifting))
  next
    case no: False
    with rest have "d' = d2" by simp
    with read_history_existing [OF f(1) sf, of w'] lines no
    have "snd (read_history w' file d') = (drop 0 (recs @ [r0]), min (n + 1) max_state_history)" by simp
    with False f(3) show ?thesis by (metis (no_types, lifting) le0)
  qed
qed

end
