(* ===== verification/Forest.thy ===== *)
theory Forest
  imports Prelude
begin

text \<open>
  Walking from a node to its root along parent links, as \<^verbatim>\<open>getBranchUnlocked\<close> and
  \<^verbatim>\<open>BuildSessionContextFromEntries\<close> both do (\<^verbatim>\<open>pkg/session/store/session.go\<close>). The loop has no
  bound: with a cycle of parent links it does not return, which is the value \<open>None\<close> here.

  The locale \<open>parent_forest\<close> is the contract of an index whose parent links cannot cycle, and
  what its clients get from it: the walk returns, and returns the chain of ancestors.
\<close>

partial_function (option) ascend ::
  "('i \<Rightarrow> 'e option) \<Rightarrow> ('e \<Rightarrow> 'i) \<Rightarrow> 'i \<Rightarrow> 'e \<Rightarrow> 'e list \<Rightarrow> 'e list option" where
  "ascend get up root cur path =
     (if up cur = root then Some (cur # path)
      else case get (up cur) of
          None \<Rightarrow> Some (cur # path)
        | Some p \<Rightarrow> ascend get up root p (cur # path))"

text \<open>Consecutive elements of a path are linked child to parent.\<close>

definition linked :: "('i \<Rightarrow> 'e option) \<Rightarrow> ('e \<Rightarrow> 'i) \<Rightarrow> 'i \<Rightarrow> 'e list \<Rightarrow> bool" where
  "linked get up root path \<longleftrightarrow>
     (\<forall>k. Suc k < length path \<longrightarrow>
        up (path ! Suc k) \<noteq> root \<and> get (up (path ! Suc k)) = Some (path ! k))"

lemma linked_Nil [simp]: "linked get up root []" and linked_single [simp]: "linked get up root [x]"
  by (simp_all add: linked_def)

lemma linked_Cons:
  "linked get up root (x # y # path) \<longleftrightarrow>
     up y \<noteq> root \<and> get (up y) = Some x \<and> linked get up root (y # path)"
proof
  assume l: "linked get up root (x # y # path)"
  then have "up y \<noteq> root \<and> get (up y) = Some x"
    unfolding linked_def by (metis (no_types) One_nat_def Suc_less_eq length_Cons nth_Cons_0 nth_Cons_Suc zero_less_Suc)
  moreover have "linked get up root (y # path)"
    unfolding linked_def
  proof (intro allI impI)
    fix k assume "Suc k < length (y # path)"
    then have "Suc (Suc k) < length (x # y # path)" by simp
    with l show "up ((y # path) ! Suc k) \<noteq> root \<and> get (up ((y # path) ! Suc k)) = Some ((y # path) ! k)"
      unfolding linked_def by (metis nth_Cons_Suc)
  qed
  ultimately show "up y \<noteq> root \<and> get (up y) = Some x \<and> linked get up root (y # path)" by simp
next
  assume r: "up y \<noteq> root \<and> get (up y) = Some x \<and> linked get up root (y # path)"
  show "linked get up root (x # y # path)"
    unfolding linked_def
  proof (intro allI impI)
    fix k assume k: "Suc k < length (x # y # path)"
    show "up ((x # y # path) ! Suc k) \<noteq> root \<and>
        get (up ((x # y # path) ! Suc k)) = Some ((x # y # path) ! k)"
    proof (cases k)
      case 0
      with r show ?thesis by simp
    next
      case (Suc m)
      with r k show ?thesis by (simp add: linked_def)
    qed
  qed
qed

text \<open>What a returned walk is, whatever the index: the path gathered so far, below its ancestors.\<close>

definition top_of :: "('i \<Rightarrow> 'e option) \<Rightarrow> ('e \<Rightarrow> 'i) \<Rightarrow> 'i \<Rightarrow> 'e \<Rightarrow> bool" where
  "top_of get up root e \<longleftrightarrow> up e = root \<or> get (up e) = None"

lemma ascend_spec:
  fixes get :: "'i \<Rightarrow> 'e option"
  assumes "ascend get up root cur path = Some r" and "linked get up root (cur # path)"
  shows "\<exists>above. r = above @ cur # path \<and> linked get up root r \<and> top_of get up root (hd r)"
proof -
  have "linked get up root (cur # path) \<longrightarrow>
      (\<exists>above. r = above @ cur # path \<and> linked get up root r \<and> top_of get up root (hd r))"
  proof (rule ascend.raw_induct [where P = "\<lambda>g u ro cur path r. linked g u ro (cur # path) \<longrightarrow>
        (\<exists>above. r = above @ cur # path \<and> linked g u ro r \<and> top_of g u ro (hd r))", OF _ assms(1)])
    fix f :: "('i \<Rightarrow> 'e option) \<Rightarrow> ('e \<Rightarrow> 'i) \<Rightarrow> 'i \<Rightarrow> 'e \<Rightarrow> 'e list \<Rightarrow> 'e list option"
      and g u ro cur path r
    assume IH: "\<And>g u ro cur path r. f g u ro cur path = Some r \<Longrightarrow> linked g u ro (cur # path) \<longrightarrow>
        (\<exists>above. r = above @ cur # path \<and> linked g u ro r \<and> top_of g u ro (hd r))"
      and eq: "(if u cur = ro then Some (cur # path)
        else case g (u cur) of None \<Rightarrow> Some (cur # path) | Some p \<Rightarrow> f g u ro p (cur # path)) = Some r"
    show "linked g u ro (cur # path) \<longrightarrow>
        (\<exists>above. r = above @ cur # path \<and> linked g u ro r \<and> top_of g u ro (hd r))"
    proof
      assume l: "linked g u ro (cur # path)"
      show "\<exists>above. r = above @ cur # path \<and> linked g u ro r \<and> top_of g u ro (hd r)"
      proof (cases "u cur = ro \<or> g (u cur) = None")
        case True
        with eq have "r = cur # path" by (auto split: if_splits)
        with l True show ?thesis by (simp add: top_of_def)
      next
        case False
        then obtain p where p: "g (u cur) = Some p" by auto
        with False eq have "f g u ro p (cur # path) = Some r" by simp
        moreover from l p False have "linked g u ro (p # cur # path)" by (simp add: linked_Cons)
        ultimately obtain above where "r = above @ p # cur # path"
            and "linked g u ro r \<and> top_of g u ro (hd r)"
          using IH by blast
        then show ?thesis by (intro exI [of _ "above @ [p]"]) simp
      qed
    qed
  qed
  with assms(2) show ?thesis by blast
qed

text \<open>A walk that reached a root is the same in every larger index.\<close>

lemma ascend_extend:
  fixes get :: "'i \<Rightarrow> 'e option"
  assumes "ascend get up root e path = Some r" and "up (hd r) = root"
    and "\<And>i x. get i = Some x \<Longrightarrow> get' i = Some x"
  shows "ascend get' up root e path = Some r"
proof -
  have "(\<forall>i x. get i = Some x \<longrightarrow> get' i = Some x) \<and> up (hd r) = root \<longrightarrow>
      ascend get' up root e path = Some r"
  proof (rule ascend.raw_induct [where P = "\<lambda>g u ro e path r.
        (\<forall>i x. g i = Some x \<longrightarrow> get' i = Some x) \<and> u (hd r) = ro \<longrightarrow>
        ascend get' u ro e path = Some r", OF _ assms(1)])
    fix f :: "('i \<Rightarrow> 'e option) \<Rightarrow> ('e \<Rightarrow> 'i) \<Rightarrow> 'i \<Rightarrow> 'e \<Rightarrow> 'e list \<Rightarrow> 'e list option"
      and g u ro cur path r
    assume IH: "\<And>g u ro e path r. f g u ro e path = Some r \<Longrightarrow>
        (\<forall>i x. g i = Some x \<longrightarrow> get' i = Some x) \<and> u (hd r) = ro \<longrightarrow>
        ascend get' u ro e path = Some r"
      and eq: "(if u cur = ro then Some (cur # path)
        else case g (u cur) of None \<Rightarrow> Some (cur # path) | Some p \<Rightarrow> f g u ro p (cur # path)) = Some r"
    show "(\<forall>i x. g i = Some x \<longrightarrow> get' i = Some x) \<and> u (hd r) = ro \<longrightarrow>
        ascend get' u ro cur path = Some r"
    proof
      assume h: "(\<forall>i x. g i = Some x \<longrightarrow> get' i = Some x) \<and> u (hd r) = ro"
      show "ascend get' u ro cur path = Some r"
      proof (cases "u cur = ro")
        case True
        with eq show ?thesis by (simp add: ascend.simps [of get' u ro cur path])
      next
        case False
        with eq h obtain p where p: "g (u cur) = Some p"
          by (cases "g (u cur)") auto
        with False eq have "f g u ro p (cur # path) = Some r" by simp
        with IH h have "ascend get' u ro p (cur # path) = Some r" by blast
        moreover from p h have "get' (u cur) = Some p" by blast
        ultimately show ?thesis using False by (simp add: ascend.simps [of get' u ro cur path])
      qed
    qed
  qed
  with assms(2,3) show ?thesis by blast
qed

text \<open>The path gathered so far only ends up behind the ancestors.\<close>

lemma ascend_acc:
  fixes get :: "'i \<Rightarrow> 'e option"
  assumes "ascend get up root e path = Some r"
  shows "ascend get up root e (path @ more_path) = Some (r @ more_path)"
proof (rule ascend.raw_induct [where P = "\<lambda>g u ro e path r. ascend g u ro e (path @ more_path) = Some (r @ more_path)",
      OF _ assms])
  fix f :: "('i \<Rightarrow> 'e option) \<Rightarrow> ('e \<Rightarrow> 'i) \<Rightarrow> 'i \<Rightarrow> 'e \<Rightarrow> 'e list \<Rightarrow> 'e list option"
    and g u ro cur path r
  assume IH: "\<And>g u ro e path r. f g u ro e path = Some r \<Longrightarrow>
      ascend g u ro e (path @ more_path) = Some (r @ more_path)"
    and eq: "(if u cur = ro then Some (cur # path)
      else case g (u cur) of None \<Rightarrow> Some (cur # path) | Some p \<Rightarrow> f g u ro p (cur # path)) = Some r"
  show "ascend g u ro cur (path @ more_path) = Some (r @ more_path)"
  proof (cases "u cur = ro \<or> g (u cur) = None")
    case True
    with eq have "r = cur # path" by (auto split: if_splits)
    with True show ?thesis by (auto simp: ascend.simps [of g u ro cur "path @ more_path"])
  next
    case False
    then obtain p where p: "g (u cur) = Some p" by auto
    with False eq have "f g u ro p (cur # path) = Some r" by simp
    from IH [OF this] p False show ?thesis
      by (simp add: ascend.simps [of g u ro cur "path @ more_path"])
  qed
qed

text \<open>A self-parented node is a walk that never returns.\<close>

lemma ascend_self_parent:
  fixes get :: "'i \<Rightarrow> 'e option"
  assumes "get (up e) = Some e" and "up e \<noteq> root"
  shows "ascend get up root e path = None"
proof (rule ccontr)
  assume "ascend get up root e path \<noteq> None"
  then obtain r where "ascend get up root e path = Some r" by auto
  then have "get (up e) = Some e \<and> up e \<noteq> root \<longrightarrow> False"
  proof (rule ascend.raw_induct [where P = "\<lambda>g u ro e path r. g (u e) = Some e \<and> u e \<noteq> ro \<longrightarrow> False",
        rotated])
    fix f :: "('i \<Rightarrow> 'e option) \<Rightarrow> ('e \<Rightarrow> 'i) \<Rightarrow> 'i \<Rightarrow> 'e \<Rightarrow> 'e list \<Rightarrow> 'e list option"
      and g u ro cur path r
    assume IH: "\<And>g u ro e path r. f g u ro e path = Some r \<Longrightarrow> g (u e) = Some e \<and> u e \<noteq> ro \<longrightarrow> False"
      and eq: "(if u cur = ro then Some (cur # path)
        else case g (u cur) of None \<Rightarrow> Some (cur # path) | Some p \<Rightarrow> f g u ro p (cur # path)) = Some r"
    show "g (u cur) = Some cur \<and> u cur \<noteq> ro \<longrightarrow> False"
    proof
      assume loop: "g (u cur) = Some cur \<and> u cur \<noteq> ro"
      with eq have "f g u ro cur (cur # path) = Some r" by simp
      with IH loop show False by blast
    qed
  qed
  with assms show False by simp
qed

subsection \<open>The contract of an acyclic index\<close>

locale parent_forest =
  fixes get :: "'s \<Rightarrow> 'i \<Rightarrow> 'e option"
    and up :: "'e \<Rightarrow> 'i"
    and root :: 'i
    and wf :: "'s \<Rightarrow> bool"
    and rank :: "'s \<Rightarrow> 'e \<Rightarrow> nat"
  assumes rank_up:
    "wf s \<Longrightarrow> get s i = Some e \<Longrightarrow> up e \<noteq> root \<Longrightarrow> get s (up e) = Some p \<Longrightarrow> rank s p < rank s e"
begin

lemma ascend_returns:
  assumes "wf s" and "get s i = Some e"
  shows "\<exists>r. ascend (get s) up root e path = Some r"
  using assms(2)
proof (induction "rank s e" arbitrary: e i path rule: less_induct)
  case less
  show ?case
  proof (cases "up e = root \<or> get s (up e) = None")
    case True
    then show ?thesis by (auto simp: ascend.simps [of "get s" up root e path])
  next
    case False
    then obtain p where p: "get s (up e) = Some p" by auto
    with False less.prems assms(1) have "rank s p < rank s e" by (blast intro: rank_up)
    with less.hyps p obtain r where "ascend (get s) up root p (e # path) = Some r" by blast
    with p False show ?thesis by (auto simp: ascend.simps [of "get s" up root e path])
  qed
qed

text \<open>The walk from a node of the index: a chain that ends in the node and starts at a top.\<close>

lemma ascend_chain:
  assumes "wf s" and "get s i = Some e"
  shows "\<exists>above. ascend (get s) up root e [] = Some (above @ [e])
           \<and> linked (get s) up root (above @ [e]) \<and> top_of (get s) up root (hd (above @ [e]))"
proof -
  obtain r where "ascend (get s) up root e [] = Some r" using ascend_returns [OF assms] by blast
  moreover from ascend_spec [OF this] obtain above where
    "r = above @ [e]" "linked (get s) up root r" "top_of (get s) up root (hd r)" by auto
  ultimately show ?thesis by blast
qed

lemma linked_ranks:
  assumes "wf s" and "linked (get s) up root path" and "\<And>x. x \<in> set path \<Longrightarrow> \<exists>i. get s i = Some x"
  shows "sorted_wrt (\<lambda>a b. rank s a < rank s b) path"
  using assms(2,3)
proof (induction path rule: induct_list012)
  case (3 x y zs)
  have l: "up y \<noteq> root" "get s (up y) = Some x" "linked (get s) up root (y # zs)"
    using "3.prems"(1) by (auto simp: linked_Cons)
  obtain i where "get s i = Some y" using "3.prems"(2) by auto
  with l assms(1) have "rank s x < rank s y" by (blast intro: rank_up)
  moreover have "sorted_wrt (\<lambda>a b. rank s a < rank s b) (y # zs)"
    using 3 l(3) by auto
  ultimately show ?case by (auto intro: less_trans)
qed auto

end

end
