(* ===== verification/SessionStore.thy ===== *)
theory SessionStore
  imports StateHistory Forest
begin

text \<open>
  The session store (\<^verbatim>\<open>SessionStore\<close> of \<^verbatim>\<open>pkg/session/store/session.go\<close>): an append-only tree of
  entries with an index by id, the labels set on entries, and the current leaf, mirrored line by
  line in a transcript file. Every method that changes the store or the disk is a function on
  \<open>session_store \<times> disk\<close>; the mutex that makes each one atomic is the function call itself.
  The observable cards bound to a session are not part of this state.
\<close>

subsection \<open>State\<close>

record session_store =
  ss_id :: string
  ss_file :: path
  ss_dir :: path
  ss_cwd :: path
  ss_persist :: bool
  ss_flushed :: bool
  ss_header :: "session_header option"
  ss_entries :: "session_entry list"
  ss_by_id :: "entry_id \<Rightarrow> session_entry option"
  ss_labels :: "(entry_id \<times> string) list"
  ss_leaf :: entry_id
  ss_lock :: "path option"
  ss_forked_from :: string
  ss_resumed :: bool

type_synonym store_disk = "session_store \<times> disk"

definition blank_store :: "path \<Rightarrow> path \<Rightarrow> bool \<Rightarrow> session_store" where
  "blank_store cwd dir persist =
     \<lparr>ss_id = [], ss_file = [], ss_dir = dir, ss_cwd = cwd, ss_persist = persist,
      ss_flushed = False, ss_header = None, ss_entries = [], ss_by_id = Map.empty, ss_labels = [],
      ss_leaf = [], ss_lock = None, ss_forked_from = [], ss_resumed = False\<rparr>"

subsection \<open>Index, labels and identifiers\<close>

text \<open>\<^verbatim>\<open>buildIndex\<close> replays the entries: the last entry of an id wins, labels are set and cleared.\<close>

definition index_entry :: "session_entry \<Rightarrow> session_store \<Rightarrow> session_store" where
  "index_entry e ss =
     (let s1 = ss\<lparr>ss_by_id := (ss_by_id ss)(e_id e \<mapsto> e), ss_leaf := e_id e\<rparr>
      in if e_type e = ''label'' then
           (if e_label e \<noteq> [] then s1\<lparr>ss_labels := put (e_target_id e) (e_label e) (ss_labels s1)\<rparr>
            else s1\<lparr>ss_labels := remove_key (e_target_id e) (ss_labels s1)\<rparr>)
         else s1)"

definition build_index :: "session_store \<Rightarrow> session_store" where
  "build_index ss =
     fold index_entry (ss_entries ss) (ss\<lparr>ss_by_id := Map.empty, ss_labels := [], ss_leaf := []\<rparr>)"

text \<open>
  \<^verbatim>\<open>generateID\<close>: the first of a hundred 12-byte prefixes of random UUIDs that is not taken, else
  one more, unchecked. \<open>off\<close> numbers the draws already made by the same call.
\<close>

definition draw_id :: "world \<Rightarrow> nat \<Rightarrow> entry_id" where
  "draw_id w i = take 12 (w_uuid w i)"

definition generate_id :: "world \<Rightarrow> session_store \<Rightarrow> entry_id" where
  "generate_id w ss =
     (case find (\<lambda>i. ss_by_id ss (draw_id w i) = None) [0..<100] of
        Some i \<Rightarrow> draw_id w i
      | None \<Rightarrow> draw_id w 100)"

definition generate_id_excluding ::
  "world \<Rightarrow> nat \<Rightarrow> session_store \<Rightarrow> entry_id list \<Rightarrow> entry_id" where
  "generate_id_excluding w off ss exclude =
     (case find (\<lambda>i. ss_by_id ss (draw_id w i) = None \<and> draw_id w i \<notin> set exclude)
             [off..<off + 100] of
        Some i \<Rightarrow> draw_id w i
      | None \<Rightarrow> draw_id w (off + 100))"

subsection \<open>Writing the transcript\<close>

definition header_json :: "session_store \<Rightarrow> json" where
  "header_json ss = (case ss_header ss of None \<Rightarrow> JNull | Some h \<Rightarrow> json_of_header h)"

definition update_sidecar :: "world \<Rightarrow> store_disk \<Rightarrow> store_disk" where
  "update_sidecar w sd =
     (case sd of (ss, d) \<Rightarrow>
       if \<not> ss_persist ss \<or> ss_file ss = [] then (ss, d)
       else case ss_header ss of
           None \<Rightarrow> (ss, d)
         | Some h \<Rightarrow>
             (case d_files d (ss_file ss) of
                None \<Rightarrow> (ss, d)
              | Some f \<Rightarrow>
                  (ss, write_sidecar w (ss_file ss)
                         (sidecar_of w h (ss_entries ss) (f_mtime f)) d)))"

definition write_header_only :: "world \<Rightarrow> store_disk \<Rightarrow> store_disk" where
  "write_header_only w sd =
     (case sd of (ss, d) \<Rightarrow>
       if \<not> ss_persist ss \<or> ss_file ss = [] \<or> ss_header ss = None
          \<or> \<not> check_writable w (ss_file ss)
       then (ss, d)
       else if \<not> w_io_ok w (ss_file ss) \<or> d_files d (ss_file ss) \<noteq> None then (ss, d)
       else update_sidecar w
              (ss\<lparr>ss_flushed := True\<rparr>, write_lines w (ss_file ss) [header_json ss] d))"

definition rewrite_file :: "world \<Rightarrow> store_disk \<Rightarrow> store_disk" where
  "rewrite_file w sd =
     (case sd of (ss, d) \<Rightarrow>
       if \<not> ss_persist ss \<or> ss_file ss = [] then (ss, d)
       else if \<not> check_writable w (ss_file ss) then (ss, d)
       else update_sidecar w
              (ss, if w_io_ok w (ss_file ss)
                   then write_lines w (ss_file ss) (header_json ss # map json_of_entry (ss_entries ss)) d
                   else d))"

definition persist_entry :: "world \<Rightarrow> session_entry \<Rightarrow> store_disk \<Rightarrow> store_disk" where
  "persist_entry w e sd =
     (case sd of (ss, d) \<Rightarrow>
       if \<not> ss_persist ss \<or> ss_file ss = [] then (ss, d)
       else if \<not> check_writable w (ss_file ss) then (ss, d)
       else if \<not> ss_flushed ss
         then (case rewrite_file w (ss, d) of (s1, d1) \<Rightarrow> (s1\<lparr>ss_flushed := True\<rparr>, d1))
       else if \<not> w_io_ok w (ss_file ss) then (ss, d)
       else update_sidecar w (ss, append_to w (ss_file ss) (json_of_entry e) d))"

definition append_entry :: "world \<Rightarrow> session_entry \<Rightarrow> store_disk \<Rightarrow> store_disk" where
  "append_entry w e sd =
     (case sd of (ss, d) \<Rightarrow>
       persist_entry w e
         (ss\<lparr>ss_entries := ss_entries ss @ [e],
             ss_by_id := (ss_by_id ss)(e_id e \<mapsto> e),
             ss_leaf := e_id e\<rparr>, d))"

text \<open>\<^verbatim>\<open>StampInvocation\<close>: once, and only before the first entry.\<close>

definition stamp_invocation :: "world \<Rightarrow> session_invocation option \<Rightarrow> store_disk \<Rightarrow> store_disk" where
  "stamp_invocation w oi sd =
     (case sd of (ss, d) \<Rightarrow>
       if invocation_is_empty oi then (ss, d)
       else case ss_header ss of
           None \<Rightarrow> (ss, d)
         | Some h \<Rightarrow>
             if h_invocation h \<noteq> None then (ss, d)
             else if ss_entries ss \<noteq> [] then (ss, d)
             else let s1 = ss\<lparr>ss_header := Some (h\<lparr>h_invocation := oi\<rparr>)\<rparr>
                  in if ss_persist s1 \<and> ss_file s1 \<noteq> [] then rewrite_file w (s1, d) else (s1, d))"

definition get_invocation :: "session_store \<Rightarrow> session_invocation option" where
  "get_invocation ss =
     (case ss_header ss of
        None \<Rightarrow> None
      | Some h \<Rightarrow> if invocation_is_empty (h_invocation h) then None else h_invocation h)"

definition force_flush :: "world \<Rightarrow> store_disk \<Rightarrow> store_disk" where
  "force_flush w sd =
     (case sd of (ss, d) \<Rightarrow>
       if \<not> ss_persist ss \<or> ss_file ss = [] \<or> ss_entries ss = [] then (ss, d)
       else (case rewrite_file w (ss, d) of (s1, d1) \<Rightarrow> (s1\<lparr>ss_flushed := True\<rparr>, d1)))"

definition close_store :: "store_disk \<Rightarrow> store_disk" where
  "close_store sd =
     (case sd of (ss, d) \<Rightarrow>
       case ss_lock ss of
         None \<Rightarrow> (ss, d)
       | Some p \<Rightarrow> (ss\<lparr>ss_lock := None\<rparr>, release_lock p d))"

subsection \<open>New sessions\<close>

definition join_path :: "path \<Rightarrow> string \<Rightarrow> path" where
  "join_path dir name = (if dir = [] then name else dir @ ''/'' @ name)"

definition file_timestamp :: "string \<Rightarrow> string" where
  "file_timestamp ts = map (\<lambda>c. if c = CHR '':'' \<or> c = CHR ''.'' then CHR ''-'' else c) ts"

definition session_file_name :: "world \<Rightarrow> string" where
  "session_file_name w =
     file_timestamp (w_now w) @ ''_'' @ w_session_uuid w @ ''.jsonl''"

definition fresh_header :: "world \<Rightarrow> path \<Rightarrow> path \<Rightarrow> session_header" where
  "fresh_header w cwd parent =
     \<lparr>h_type = ''session'', h_version = 3, h_id = w_session_uuid w, h_timestamp = w_now w,
      h_cwd = cwd, h_parent_session = parent, h_fir_version = w_version w, h_commit = w_commit w,
      h_invocation = None\<rparr>"

text \<open>\<^verbatim>\<open>newSession\<close>; the options carry at most a parent session.\<close>

definition new_session :: "world \<Rightarrow> path option \<Rightarrow> store_disk \<Rightarrow> store_disk" where
  "new_session w parent sd =
     (case sd of (ss, d) \<Rightarrow>
       let s1 = ss\<lparr>ss_id := w_session_uuid w,
                   ss_header := Some (fresh_header w (ss_cwd ss) (the_default [] parent)),
                   ss_entries := [], ss_by_id := Map.empty, ss_labels := [], ss_leaf := [],
                   ss_flushed := False, ss_resumed := False\<rparr>
       in if ss_persist s1 \<and> ss_dir s1 \<noteq> [] then
            (case close_store (s1, d) of (s2, d2) \<Rightarrow>
              let file = join_path (ss_dir s2) (session_file_name w)
              in case try_lock_session w file d2 of (d3, ok) \<Rightarrow>
                   write_header_only w
                     (s2\<lparr>ss_file := file, ss_lock := (if ok then Some file else None)\<rparr>, d3))
          else (s1, d))"

definition new_session_store :: "world \<Rightarrow> path \<Rightarrow> path \<Rightarrow> disk \<Rightarrow> store_disk" where
  "new_session_store w cwd dir d =
     new_session w None
       (blank_store cwd dir (dir = [] \<or> check_writable w dir), d)"

definition in_memory_session_store :: "world \<Rightarrow> path \<Rightarrow> disk \<Rightarrow> store_disk" where
  "in_memory_session_store w cwd d = new_session w None (blank_store cwd [] False, d)"

end
