(* ===== verification/SessionOps.thy ===== *)
theory SessionOps
  imports SessionStore
begin

text \<open>
  The methods of the session store (\<^verbatim>\<open>pkg/session/store/session.go\<close>): reading accessors, the
  append methods, branching, the branch walk and the tree view, and the copy of one branch into a
  new session.
\<close>

subsection \<open>Accessors\<close>

definition get_entry :: "session_store \<Rightarrow> entry_id \<Rightarrow> session_entry option" where
  "get_entry ss i = ss_by_id ss i"

definition get_session_name :: "session_store \<Rightarrow> string" where
  "get_session_name ss =
     (case find_last (\<lambda>e. e_type e = ''session_info'' \<and> e_name e \<noteq> []) (ss_entries ss) of
        Some i \<Rightarrow> e_name (ss_entries ss ! i)
      | None \<Rightarrow> [])"

text \<open>
  \<^verbatim>\<open>GetTree\<close> builds one node per id (the last entry of that id) and links the nodes in entry order:
  the roots, and the children of each node.
\<close>

record session_tree =
  st_node :: "entry_id \<Rightarrow> (session_entry \<times> string) option"
  st_roots :: "entry_id list"
  st_children :: "entry_id \<Rightarrow> entry_id list"

definition tree_nodes ::
  "session_store \<Rightarrow> session_entry list \<Rightarrow> entry_id \<Rightarrow> (session_entry \<times> string) option" where
  "tree_nodes ss es =
     fold (\<lambda>e m. m(e_id e \<mapsto> (e, the_default [] (map_of (ss_labels ss) (e_id e))))) es Map.empty"

definition link_entry :: "session_entry \<Rightarrow> session_tree \<Rightarrow> session_tree" where
  "link_entry e t =
     (if e_parent e = [] \<or> e_parent e = e_id e then t\<lparr>st_roots := st_roots t @ [e_id e]\<rparr>
      else if st_node t (e_parent e) \<noteq> None
        then t\<lparr>st_children := (st_children t)(e_parent e := st_children t (e_parent e) @ [e_id e])\<rparr>
      else t\<lparr>st_roots := st_roots t @ [e_id e]\<rparr>)"

definition get_tree :: "session_store \<Rightarrow> session_tree" where
  "get_tree ss =
     fold link_entry (ss_entries ss)
       \<lparr>st_node = tree_nodes ss (ss_entries ss), st_roots = [], st_children = (\<lambda>_. [])\<rparr>"

subsection \<open>Append methods\<close>

definition next_entry :: "world \<Rightarrow> string \<Rightarrow> session_store \<Rightarrow> session_entry" where
  "next_entry w ty ss =
     zero_entry\<lparr>e_type := ty, e_id := generate_id w ss, e_parent := ss_leaf ss,
       e_timestamp := w_now w\<rparr>"

definition append_message :: "world \<Rightarrow> json option \<Rightarrow> store_disk \<Rightarrow> store_disk" where
  "append_message w raw sd =
     append_entry w ((next_entry w ''message'' (fst sd))\<lparr>e_message := raw\<rparr>) sd"

definition append_thinking_level_change :: "world \<Rightarrow> string \<Rightarrow> store_disk \<Rightarrow> store_disk" where
  "append_thinking_level_change w level sd =
     append_entry w ((next_entry w ''thinking_level_change'' (fst sd))\<lparr>e_thinking_level := level\<rparr>) sd"

definition append_model_change :: "world \<Rightarrow> string \<Rightarrow> string \<Rightarrow> store_disk \<Rightarrow> store_disk" where
  "append_model_change w provider model sd =
     append_entry w
       ((next_entry w ''model_change'' (fst sd))\<lparr>e_provider := provider, e_model_id := model\<rparr>) sd"

fun last_version :: "string \<Rightarrow> session_entry list \<Rightarrow> string" where
  "last_version v [] = v"
| "last_version v (e # es) =
     (if e_type e = ''agent_version'' \<and> e_fir_version e \<noteq> [] then last_version (e_fir_version e) es
      else last_version v es)"

definition maybe_record_agent_version_change :: "world \<Rightarrow> store_disk \<Rightarrow> store_disk" where
  "maybe_record_agent_version_change w sd =
     (case ss_header (fst sd) of
        None \<Rightarrow> sd
      | Some h \<Rightarrow>
          if \<not> ss_resumed (fst sd) then sd
          else if w_version w = [] then sd
          else if last_version (h_fir_version h) (ss_entries (fst sd)) = w_version w then sd
          else append_entry w
                 ((next_entry w ''agent_version'' (fst sd))
                    \<lparr>e_fir_version := w_version w, e_commit := w_commit w\<rparr>) sd)"

definition append_compaction ::
  "world \<Rightarrow> string \<Rightarrow> entry_id \<Rightarrow> go_int \<Rightarrow> json option \<Rightarrow> bool \<Rightarrow> store_disk \<Rightarrow> store_disk" where
  "append_compaction w summary first_kept tokens details hook sd =
     append_entry w
       ((next_entry w ''compaction'' (fst sd))
          \<lparr>e_summary := summary, e_first_kept := first_kept, e_tokens_before := tokens,
           e_details := details, e_from_hook := hook\<rparr>) sd"

definition append_custom_entry ::
  "world \<Rightarrow> string \<Rightarrow> json option \<Rightarrow> store_disk \<Rightarrow> store_disk" where
  "append_custom_entry w custom_type data sd =
     append_entry w
       ((next_entry w ''custom'' (fst sd))\<lparr>e_custom_type := custom_type, e_data := data\<rparr>) sd"

definition append_session_info :: "world \<Rightarrow> string \<Rightarrow> store_disk \<Rightarrow> store_disk" where
  "append_session_info w name sd =
     append_entry w ((next_entry w ''session_info'' (fst sd))\<lparr>e_name := trim_space name\<rparr>) sd"

definition append_label_change ::
  "world \<Rightarrow> entry_id \<Rightarrow> string \<Rightarrow> store_disk \<Rightarrow> store_disk" where
  "append_label_change w target label sd =
     (case append_entry w
             ((next_entry w ''label'' (fst sd))\<lparr>e_target_id := target, e_label := label\<rparr>) sd of
        (ss, d) \<Rightarrow>
          (ss\<lparr>ss_labels := (if label \<noteq> [] then put target label (ss_labels ss)
                            else remove_key target (ss_labels ss))\<rparr>, d))"

definition append_plan_update ::
  "world \<Rightarrow> string \<Rightarrow> json option \<Rightarrow> (string \<times> string) list \<Rightarrow> store_disk \<Rightarrow> store_disk" where
  "append_plan_update w title plan metadata sd =
     append_entry w
       ((next_entry w ''plan_update'' (fst sd))
          \<lparr>e_plan_entries := plan, e_plan_title := title, e_plan_metadata := metadata\<rparr>) sd"

definition append_command_entry :: "world \<Rightarrow> string \<Rightarrow> string \<Rightarrow> store_disk \<Rightarrow> store_disk" where
  "append_command_entry w command args sd =
     append_entry w
       ((next_entry w ''command'' (fst sd))\<lparr>e_command := command, e_args := args\<rparr>) sd"

subsection \<open>Branching\<close>

definition branch :: "entry_id \<Rightarrow> store_disk \<Rightarrow> store_disk" where
  "branch from_id sd = ((fst sd)\<lparr>ss_leaf := from_id\<rparr>, snd sd)"

definition branch_with_summary ::
  "world \<Rightarrow> entry_id \<Rightarrow> string \<Rightarrow> json option \<Rightarrow> bool \<Rightarrow> store_disk \<Rightarrow> store_disk" where
  "branch_with_summary w from_id summary details hook sd =
     (case branch from_id sd of (ss, d) \<Rightarrow>
       append_entry w
         ((next_entry w ''branch_summary'' ss)
            \<lparr>e_from_id := from_id, e_summary := summary, e_details := details,
             e_from_hook := hook\<rparr>) (ss, d))"

text \<open>\<^verbatim>\<open>getBranchUnlocked\<close>: the path from the root to an entry; \<open>None\<close> when the walk never ends.\<close>

definition get_branch :: "session_store \<Rightarrow> entry_id \<Rightarrow> session_entry list option" where
  "get_branch ss from_id =
     (let start = (if from_id = [] then ss_leaf ss else from_id)
      in case ss_by_id ss start of
           None \<Rightarrow> Some []
         | Some e \<Rightarrow> ascend (ss_by_id ss) e_parent [] e [])"

subsection \<open>Copying a branch into a new session\<close>

datatype store_error =
    EntryNotFound entry_id
  | ReadOnlyStore path
  | WriteFailed path
  | SourceInvalid path
  | SessionDirRequired
  | NoWritableStore
  | DanglingToolCall entry_id

text \<open>
  The label entries of the copy: one per label of a copied entry, chained after the last one.
  Go iterates the label map in an unspecified order; the model takes the order of the list.
\<close>

fun label_entries ::
  "world \<Rightarrow> nat \<Rightarrow> session_store \<Rightarrow> entry_id list \<Rightarrow> entry_id \<Rightarrow> (entry_id \<times> string) list
     \<Rightarrow> session_entry list" where
  "label_entries w off ss taken parent [] = []"
| "label_entries w off ss taken parent ((target, label) # ls) =
     (let i = generate_id_excluding w off ss taken;
          e = zero_entry\<lparr>e_type := ''label'', e_id := i, e_parent := parent,
                e_timestamp := w_now w, e_target_id := target, e_label := label\<rparr>
      in e # label_entries w (off + 101) ss (i # taken) i ls)"

definition branch_copy :: "world \<Rightarrow> session_store \<Rightarrow> session_entry list \<Rightarrow> session_entry list" where
  "branch_copy w ss path =
     (let kept = filter (\<lambda>e. e_type e \<noteq> ''label'') path;
          ids = map e_id kept;
          labels = filter (\<lambda>l. fst l \<in> set ids) (ss_labels ss);
          last_id = (if kept = [] then [] else e_id (last kept))
      in kept @ label_entries w 0 ss ids last_id labels)"

definition branch_header :: "world \<Rightarrow> session_store \<Rightarrow> session_header" where
  "branch_header w ss =
     (fresh_header w (ss_cwd ss) (if ss_persist ss then ss_file ss else []))
       \<lparr>h_invocation := Option.bind (ss_header ss) h_invocation\<rparr>"

definition create_branched_session ::
  "world \<Rightarrow> entry_id \<Rightarrow> store_disk \<Rightarrow> (store_disk \<times> (store_error + path)) option" where
  "create_branched_session w leaf sd =
     (case sd of (ss, d) \<Rightarrow>
       (case get_branch ss leaf of
          None \<Rightarrow> None
        | Some [] \<Rightarrow> Some ((ss, d), Inl (EntryNotFound leaf))
        | Some path \<Rightarrow>
            let header = branch_header w ss;
                es = branch_copy w ss path
            in if ss_persist ss \<and> ss_dir ss \<noteq> [] then
                 (let file = join_path (ss_dir ss) (session_file_name w)
                  in if \<not> check_writable w file then Some ((ss, d), Inl (ReadOnlyStore file))
                     else if \<not> w_io_ok w file then Some ((ss, d), Inl (WriteFailed file))
                     else Some
                       ((build_index (ss\<lparr>ss_header := Some header, ss_id := w_session_uuid w,
                             ss_file := file, ss_entries := es, ss_flushed := True\<rparr>),
                         write_lines w file (transcript_lines header es) d),
                        Inr file))
               else
                 Some ((build_index (ss\<lparr>ss_header := Some header, ss_id := w_session_uuid w,
                             ss_entries := es\<rparr>), d),
                       Inr [])))"

end
