(* ===== verification/SessionOpen.thy ===== *)
theory SessionOpen
  imports SessionOps
begin

text \<open>
  Opening sessions (\<^verbatim>\<open>setSessionFile\<close>, \<^verbatim>\<open>OpenSessionStore\<close>, \<^verbatim>\<open>ForkFrom\<close>, \<^verbatim>\<open>forkOutOfReadOnly\<close> of
  \<^verbatim>\<open>pkg/session/store/session.go\<close>): a file is locked, repaired and loaded; a file another process
  holds is forked into a new one, and one in a read-only store into the default store.

  Opening and forking call each other without a bound, so both run on a list of worlds, one for each
  nested call: \<open>None\<close> is the list running out. Paths are absolute and clean, as \<^verbatim>\<open>filepath.Abs\<close>
  makes them.
\<close>

definition dir_name :: "path \<Rightarrow> path" where
  "dir_name p =
     (case find_last (\<lambda>c. c = CHR ''/'') p of
        None \<Rightarrow> ''.''
      | Some i \<Rightarrow> if i = 0 then ''/'' else take i p)"

subsection \<open>Loading the chosen file\<close>

definition load_target :: "world \<Rightarrow> path \<Rightarrow> store_disk \<Rightarrow> store_disk" where
  "load_target w p sd =
     (case sd of (ss, d) \<Rightarrow>
       let s1 = ss\<lparr>ss_file := p\<rparr>
       in if d_files d p \<noteq> None then
            (let d1 = (if ss_lock s1 \<noteq> None then repair_trailing_newline w p d else d)
             in case load_entries_from_file d1 p of
                  (None, es) \<Rightarrow>
                    (case new_session w None (s1, d1) of (s2, d2) \<Rightarrow>
                       case rewrite_file w (s2\<lparr>ss_file := p\<rparr>, d2) of (s3, d3) \<Rightarrow>
                         (s3\<lparr>ss_flushed := True\<rparr>, d3))
                | (Some h, es) \<Rightarrow>
                    ((build_index (s1\<lparr>ss_header := Some h, ss_id := h_id h, ss_cwd := h_cwd h,
                                      ss_entries := es\<rparr>))
                       \<lparr>ss_flushed := True, ss_resumed := True\<rparr>, d1))
          else (case new_session w None (s1, d) of (s2, d2) \<Rightarrow> (s2\<lparr>ss_file := p\<rparr>, d2)))"

subsection \<open>Choosing the file\<close>

type_synonym fork_call =
  "path \<Rightarrow> path \<Rightarrow> path \<Rightarrow> disk \<Rightarrow> (disk \<times> (store_error + session_store)) option"

definition fork_out_of_read_only ::
  "world \<Rightarrow> fork_call \<Rightarrow> path \<Rightarrow> store_disk \<Rightarrow> (store_disk \<times> (store_error + path)) option" where
  "fork_out_of_read_only w fork src sd =
     (case sd of (ss, d) \<Rightarrow>
       let cwd = (if ss_cwd ss = []
                  then (case fst (load_entries_from_file d src) of None \<Rightarrow> [] | Some h \<Rightarrow> h_cwd h)
                  else ss_cwd ss);
           redirect = (ss_dir ss = [] \<or> \<not> check_writable w (ss_dir ss));
           dir = (if redirect then w_store_dir w cwd else ss_dir ss);
           s1 = ss\<lparr>ss_dir := dir\<rparr>
       in if redirect \<and> dir = [] then Some ((ss, d), Inl NoWritableStore)
          else case fork src cwd dir d of
              None \<Rightarrow> None
            | Some (d1, Inl e) \<Rightarrow> Some ((s1, d1), Inl e)
            | Some (d1, Inr forked) \<Rightarrow>
                Some ((s1, snd (close_store (forked, d1))), Inr (ss_file forked)))"

definition take_lock :: "world \<Rightarrow> path \<Rightarrow> store_disk \<Rightarrow> store_disk" where
  "take_lock w p sd =
     (case sd of (ss, d) \<Rightarrow>
       case try_lock_session w p d of (d1, ok) \<Rightarrow>
         (if ok then ss\<lparr>ss_lock := Some p\<rparr> else ss, d1))"

definition choose_file ::
  "world \<Rightarrow> fork_call \<Rightarrow> path \<Rightarrow> store_disk \<Rightarrow> (store_disk \<times> path \<times> bool) option" where
  "choose_file w fork p sd =
     (case sd of (ss, d) \<Rightarrow>
       if \<not> ss_persist ss then Some ((ss, d), p, False)
       else case w_read_only w p of
           Some label \<Rightarrow>
             (case fork_out_of_read_only w fork p (ss, d) of
                None \<Rightarrow> None
              | Some ((s1, d1), Inr q) \<Rightarrow>
                  Some (take_lock w q (s1\<lparr>ss_forked_from := label\<rparr>, d1), q, True)
              | Some ((s1, d1), Inl e) \<Rightarrow>
                  Some ((s1\<lparr>ss_persist := False, ss_forked_from := label\<rparr>, d1), p, False))
         | None \<Rightarrow>
             (case try_lock_session w p d of
                (d1, True) \<Rightarrow> Some ((ss\<lparr>ss_lock := Some p\<rparr>, d1), p, False)
              | (d1, False) \<Rightarrow>
                  if ss_dir ss = [] then Some ((ss, d1), p, False)
                  else case fork p (ss_cwd ss) (ss_dir ss) d1 of
                      None \<Rightarrow> None
                    | Some (d2, Inl e) \<Rightarrow> Some ((ss, d2), p, False)
                    | Some (d2, Inr forked) \<Rightarrow>
                        Some (take_lock w (ss_file forked) (ss, d2), ss_file forked, True)))"

subsection \<open>Opening and forking\<close>

fun set_session_file :: "world list \<Rightarrow> path \<Rightarrow> store_disk \<Rightarrow> (store_disk \<times> bool) option"
  and fork_from :: "world list \<Rightarrow> path \<Rightarrow> path \<Rightarrow> path \<Rightarrow> disk
     \<Rightarrow> (disk \<times> (store_error + session_store)) option" where
  "set_session_file [] p sd = None"
| "set_session_file (w # ws) p sd =
     (case close_store ((fst sd)\<lparr>ss_forked_from := []\<rparr>, snd sd) of sd0 \<Rightarrow>
       case choose_file w (\<lambda>src cwd dir d. fork_from ws src cwd dir d) p sd0 of
         None \<Rightarrow> None
       | Some (sd1, q, forked) \<Rightarrow> Some (load_target w q sd1, forked))"
| "fork_from [] src cwd dir d = None"
| "fork_from (w # ws) src cwd dir d =
     (case load_entries_from_file d src of
        (None, es) \<Rightarrow> Some (d, Inl (SourceInvalid src))
      | (Some h, es) \<Rightarrow>
          if dir = [] then Some (d, Inl SessionDirRequired)
          else if \<not> check_writable w dir then Some (d, Inl (ReadOnlyStore dir))
          else if \<not> w_io_ok w dir then Some (d, Inl (WriteFailed dir))
          else
            (let q = join_path dir (session_file_name w)
             in if \<not> w_io_ok w q then Some (d, Inl (WriteFailed q))
                else case set_session_file ws q
                       (blank_store [] dir True,
                        copy_state_unbound w src q
                          (write_lines w q (transcript_lines (fresh_header w cwd src) es) d)) of
                    None \<Rightarrow> None
                  | Some ((s, d1), _) \<Rightarrow> Some (d1, Inr s)))"

definition open_session_store ::
  "world list \<Rightarrow> path \<Rightarrow> path option \<Rightarrow> disk \<Rightarrow> (store_disk \<times> bool) option" where
  "open_session_store ws p dir d =
     set_session_file ws p (blank_store [] (the_default (dir_name p) dir) True, d)"

definition get_fork_notice :: "session_store \<Rightarrow> string" where
  "get_fork_notice ss =
     (if ss_forked_from ss \<noteq> []
      then ''Session is in read-only store '' @ [CHR 0x22] @ ss_forked_from ss @ [CHR 0x22]
           @ '' '' @ [CHR 0xE2, CHR 0x80, CHR 0x94] @ '' forked into the local store with history preserved.''
      else ''Session is active in another window '' @ [CHR 0xE2, CHR 0x80, CHR 0x94]
           @ '' branched with history preserved.'')"

subsection \<open>Opening an unlocked session\<close>

definition lockable :: "world \<Rightarrow> path \<Rightarrow> bool" where
  "lockable w p \<longleftrightarrow> check_writable w p \<and> w_io_ok w p \<and> w_io_ok w (p @ ''.meta.json'')"

definition loaded_store :: "path \<Rightarrow> session_header \<Rightarrow> session_entry list \<Rightarrow> session_store \<Rightarrow> session_store" where
  "loaded_store p h es ss =
     (build_index (ss\<lparr>ss_file := p, ss_header := Some h, ss_id := h_id h, ss_cwd := h_cwd h,
                      ss_entries := es\<rparr>))\<lparr>ss_flushed := True, ss_resumed := True\<rparr>"

lemma try_lock_free:
  "lockable w p \<Longrightarrow> \<not> d_locked d p \<Longrightarrow>
     try_lock_session w p d = (d\<lparr>d_locked := (d_locked d)(p := True)\<rparr>, True)"
  by (simp add: try_lock_session_def lockable_def)

lemma try_lock_held: "d_locked d p \<Longrightarrow> try_lock_session w p d = (d, False)"
  by (simp add: try_lock_session_def)

lemma repair_loads:
  "load_entries_from_file (repair_trailing_newline w p d) q = load_entries_from_file d q"
  by (auto simp: repair_trailing_newline_def load_entries_from_file_def set_file_def file_lines_def
      split: option.split)

lemma load_entries_lock [simp]:
  "load_entries_from_file (d\<lparr>d_locked := l\<rparr>) q = load_entries_from_file d q"
  by (simp add: load_entries_from_file_def)

lemma load_entries_exists: "load_entries_from_file d p = (Some h, es) \<Longrightarrow> d_files d p \<noteq> None"
  by (auto simp: load_entries_from_file_def split: option.splits)

lemma load_target_valid:
  assumes "load_entries_from_file d p = (Some h, es)" and "ss_lock ss \<noteq> None"
  shows "load_target w p (ss, d) = (loaded_store p h es ss, repair_trailing_newline w p d)"
  using assms load_entries_exists [OF assms(1)]
  by (simp add: load_target_def Let_def repair_loads loaded_store_def)

lemma load_target_unlocked:
  assumes "load_entries_from_file d p = (Some h, es)" and "ss_lock ss = None"
  shows "load_target w p (ss, d) = (loaded_store p h es ss, d)"
  using assms load_entries_exists [OF assms(1)]
  by (simp add: load_target_def Let_def loaded_store_def)

text \<open>One world is enough for a file nobody holds.\<close>

lemma set_session_file_free:
  assumes load: "load_entries_from_file d p = (Some h, es)" and "lockable w p" and "\<not> d_locked d p"
  shows "set_session_file (w # ws) p (blank_store cwd dir True, d)
    = Some ((loaded_store p h es ((blank_store cwd dir True)\<lparr>ss_lock := Some p\<rparr>),
             repair_trailing_newline w p (d\<lparr>d_locked := (d_locked d)(p := True)\<rparr>)), False)"
proof -
  have ro: "w_read_only w p = None" using assms(2) by (simp add: lockable_def check_writable_def)
  have c: "close_store ((blank_store cwd dir True)\<lparr>ss_forked_from := []\<rparr>, d) = (blank_store cwd dir True, d)"
    by (simp add: close_store_def blank_store_def)
  let ?d = "d\<lparr>d_locked := (d_locked d)(p := True)\<rparr>"
  have "choose_file w (\<lambda>src cwd dir d. fork_from ws src cwd dir d) p (blank_store cwd dir True, d)
      = Some (((blank_store cwd dir True)\<lparr>ss_lock := Some p\<rparr>, ?d), p, False)"
    by (simp add: choose_file_def ro try_lock_free [OF assms(2,3)] blank_store_def)
  moreover have "load_target w p ((blank_store cwd dir True)\<lparr>ss_lock := Some p\<rparr>, ?d)
      = (loaded_store p h es ((blank_store cwd dir True)\<lparr>ss_lock := Some p\<rparr>),
         repair_trailing_newline w p ?d)"
    by (rule load_target_valid) (simp_all add: load)
  ultimately show ?thesis by (simp add: c)
qed

end
