(* ===== verification/Stores.thy ===== *)
theory Stores
  imports SessionOpen
begin

text \<open>
  The session stores (\<^verbatim>\<open>pkg/session/store/stores.go\<close>): the writable default store, the read-only
  extra ones, the test of which store a path lies in, and the names of session directories and
  transcripts.

  What the code asks of the file system is the record \<open>path_env\<close>: \<^verbatim>\<open>filepath.Clean\<close>,
  \<^verbatim>\<open>filepath.Abs\<close> and \<^verbatim>\<open>filepath.EvalSymlinks\<close>. \<open>within\<close> is stated for the clean absolute paths
  these give.
\<close>

record path_env =
  pe_clean :: "path \<Rightarrow> path"
  pe_abs :: "path \<Rightarrow> path option"
  pe_eval :: "path \<Rightarrow> path option"

record session_root =
  sr_label :: string
  sr_path :: path
  sr_read_only :: bool

record store_registry =
  rg_def :: session_root
  rg_extras :: "session_root list"
  rg_roots :: "path list list"

definition default_store_label :: string where
  "default_store_label = ''local''"

subsection \<open>Containment\<close>

definition within :: "path \<Rightarrow> path \<Rightarrow> bool" where
  "within p root \<longleftrightarrow> p = root \<or> root = ''/'' \<or> has_prefix p (root @ ''/'')"

definition overlaps :: "path list \<Rightarrow> path list \<Rightarrow> bool" where
  "overlaps xs ys = (\<exists>x \<in> set xs. \<exists>y \<in> set ys. within x y \<or> within y x)"

text \<open>The base name, and what \<^verbatim>\<open>resolveExisting\<close> does: resolve the longest prefix that exists.\<close>

definition base_name :: "path \<Rightarrow> path" where
  "base_name p =
     (case find_last (\<lambda>c. c = CHR ''/'') p of
        None \<Rightarrow> p
      | Some i \<Rightarrow> if p = ''/'' then ''/'' else drop (Suc i) p)"

definition join_rest :: "path \<Rightarrow> path \<Rightarrow> path" where
  "join_rest p rest = (if rest = [] then p else if p = ''/'' then ''/'' @ rest else p @ ''/'' @ rest)"

definition depth :: "path \<Rightarrow> nat" where
  "depth p = (if CHR ''/'' \<in> set p then length p + 2 else if p = ''.'' then 0 else 1)"

lemma dir_name_depth:
  assumes "dir_name p \<noteq> p"
  shows "depth (dir_name p) < depth p"
proof (cases "find_last (\<lambda>c. c = CHR ''/'') p")
  case None
  then have "CHR ''/'' \<notin> set p" by (auto simp: find_last_None)
  with assms None show ?thesis by (auto simp: depth_def dir_name_def)
next
  case (Some i)
  then have i: "i < length p" "p ! i = CHR ''/''" using find_last_SomeD [OF Some] by auto
  then have s: "CHR ''/'' \<in> set p" by (metis nth_mem)
  show ?thesis
  proof (cases "i = 0")
    case True
    with Some have d: "dir_name p = ''/''" by (simp add: dir_name_def)
    with assms have "p \<noteq> ''/''" by simp
    with i True have "1 < length p" by (cases p; cases "tl p") auto
    with d s show ?thesis by (simp add: depth_def)
  next
    case False
    with Some i s show ?thesis by (auto simp: dir_name_def depth_def)
  qed
qed

function resolve_existing_from :: "path_env \<Rightarrow> path \<Rightarrow> path \<Rightarrow> path \<Rightarrow> path" where
  "resolve_existing_from env p cur rest =
     (case pe_eval env cur of
        Some real \<Rightarrow> join_rest real rest
      | None \<Rightarrow>
          if dir_name cur = cur then p
          else resolve_existing_from env p (dir_name cur) (join_rest (base_name cur) rest))"
  by pat_completeness auto

termination
  by (relation "measure (\<lambda>(env, p, cur, rest). depth cur)") (auto dest: dir_name_depth)

declare resolve_existing_from.simps [simp del]

definition resolve_existing :: "path_env \<Rightarrow> path \<Rightarrow> path" where
  "resolve_existing env p = resolve_existing_from env p p []"

subsection \<open>Configuring and asking\<close>

definition extra_root :: "path_env \<Rightarrow> session_root \<Rightarrow> session_root" where
  "extra_root env e = e\<lparr>sr_path := pe_clean env (sr_path e), sr_read_only := True\<rparr>"

definition root_forms :: "path_env \<Rightarrow> path \<Rightarrow> path list" where
  "root_forms env p =
     (case pe_eval env p of
        Some real \<Rightarrow> if real \<noteq> p then [p, real] else [p]
      | None \<Rightarrow> [p])"

fun add_extras ::
  "path_env \<Rightarrow> path list \<Rightarrow> store_registry \<Rightarrow> session_root list \<Rightarrow> session_root list
     \<Rightarrow> store_registry \<times> session_root list" where
  "add_extras env forms r skipped [] = (r, skipped)"
| "add_extras env forms r skipped (e # es) =
     (let e' = extra_root env e
      in if overlaps forms [sr_path e', resolve_existing env (sr_path e')]
         then add_extras env forms r (skipped @ [e']) es
         else add_extras env forms
                (r\<lparr>rg_extras := rg_extras r @ [e'],
                   rg_roots := rg_roots r @ [root_forms env (sr_path e')]\<rparr>) skipped es)"

definition configure_stores ::
  "path_env \<Rightarrow> path \<Rightarrow> session_root list \<Rightarrow> store_registry option \<times> session_root list" where
  "configure_stores env default_root extras =
     (if default_root = [] then (None, [])
      else let def_path = pe_clean env default_root;
               r = \<lparr>rg_def = \<lparr>sr_label = default_store_label, sr_path = def_path, sr_read_only = False\<rparr>,
                    rg_extras = [], rg_roots = []\<rparr>
           in case add_extras env [def_path, resolve_existing env def_path] r [] extras of
                (r', skipped) \<Rightarrow> (Some r', skipped))"

definition stores :: "store_registry option \<Rightarrow> session_root list" where
  "stores reg = (case reg of None \<Rightarrow> [] | Some r \<Rightarrow> rg_def r # rg_extras r)"

definition extra_stores :: "store_registry option \<Rightarrow> session_root list" where
  "extra_stores reg = (case reg of None \<Rightarrow> [] | Some r \<Rightarrow> rg_extras r)"

definition path_forms :: "path_env \<Rightarrow> path \<Rightarrow> path list" where
  "path_forms env p =
     (if resolve_existing env p \<noteq> p then [p, resolve_existing env p] else [p])"

fun find_root :: "path list \<Rightarrow> session_root list \<Rightarrow> path list list \<Rightarrow> session_root option" where
  "find_root forms (e # es) (roots # rs) =
     (if \<exists>root \<in> set roots. \<exists>f \<in> set forms. within f root then Some e else find_root forms es rs)"
| "find_root forms _ _ = None"

definition read_only_store_for :: "path_env \<Rightarrow> store_registry option \<Rightarrow> path \<Rightarrow> session_root option" where
  "read_only_store_for env reg p =
     (case reg of
        None \<Rightarrow> None
      | Some r \<Rightarrow>
          if rg_extras r = [] \<or> p = [] then None
          else case pe_abs env p of
              None \<Rightarrow> None
            | Some q \<Rightarrow> find_root (path_forms env q) (rg_extras r) (rg_roots r))"

definition is_within_store :: "path_env \<Rightarrow> store_registry option \<Rightarrow> path \<Rightarrow> bool" where
  "is_within_store env reg p =
     (case reg of
        None \<Rightarrow> False
      | Some r \<Rightarrow> within (pe_clean env p) (sr_path (rg_def r)) \<or> read_only_store_for env reg p \<noteq> None)"

subsection \<open>Directory and file names\<close>

definition encode_cwd :: "path \<Rightarrow> string" where
  "encode_cwd cwd =
     map (\<lambda>c. if c = CHR ''/'' \<or> c = CHR 0x5C \<or> c = CHR '':'' then CHR ''-'' else c)
       (''--'' @ dropWhile (\<lambda>c. c = CHR ''/'' \<or> c = CHR 0x5C) cwd) @ ''--''"

definition decode_cwd_dir :: "string \<Rightarrow> path" where
  "decode_cwd_dir name =
     (if \<not> has_prefix name ''--'' \<or> \<not> has_suffix name ''--'' \<or> length name < 4 then []
      else ''/'' @ map (\<lambda>c. if c = CHR ''-'' then CHR ''/'' else c)
                     (take (length name - 4) (drop 2 name)))"

definition writable_session_dir :: "store_registry option \<Rightarrow> path \<Rightarrow> path" where
  "writable_session_dir reg cwd =
     (case reg of None \<Rightarrow> [] | Some r \<Rightarrow> join_path (sr_path (rg_def r)) (encode_cwd cwd))"

text \<open>\<^verbatim>\<open>strings.Count\<close>: occurrences that do not overlap; \<open>skip\<close> is what is left of the last one.\<close>

fun count_sub :: "string \<Rightarrow> nat \<Rightarrow> string \<Rightarrow> nat" where
  "count_sub p skip [] = 0"
| "count_sub p (Suc k) (c # s) = count_sub p k s"
| "count_sub p 0 (c # s) =
     (if has_prefix (c # s) p then 1 + count_sub p (length p - 1) s else count_sub p 0 s)"

definition is_transcript_name :: "string \<Rightarrow> bool" where
  "is_transcript_name name \<longleftrightarrow>
     has_suffix name ''.jsonl'' \<and> count_sub ''.jsonl'' 0 name = 1
     \<and> \<not> has_prefix name ''bookmarks-'' \<and> \<not> has_prefix name ''ctx-''"

definition trim_suffix :: "string \<Rightarrow> string \<Rightarrow> string" where
  "trim_suffix s p = (if has_suffix s p then take (length s - length p) s else s)"

definition session_id_from_file_name :: "string \<Rightarrow> string" where
  "session_id_from_file_name name =
     (let base = trim_suffix name ''.jsonl''
      in case find_last (\<lambda>c. c = CHR ''_'') base of
           None \<Rightarrow> base
         | Some i \<Rightarrow> drop (Suc i) base)"

text \<open>\<^verbatim>\<open>matchSessionFile\<close>: the only transcript of a directory listing whose name holds the fragment.\<close>

definition match_session_file :: "path \<Rightarrow> string list \<Rightarrow> string \<Rightarrow> path" where
  "match_session_file dir names frag =
     (case filter (\<lambda>n. is_transcript_name n \<and> contains n frag) names of
        [n] \<Rightarrow> join_path dir n
      | _ \<Rightarrow> [])"

fun match_under_root :: "(path \<times> string list) list \<Rightarrow> string \<Rightarrow> path" where
  "match_under_root [] frag = []"
| "match_under_root ((dir, names) # ds) frag =
     (let p = match_session_file dir names frag in if p \<noteq> [] then p else match_under_root ds frag)"

text \<open>
  \<^verbatim>\<open>ResolveSessionRef\<close>, over the directory listings it reads: the session directory, the project
  directories of the sessions root, and those of each configured store.
\<close>

fun first_match :: "(path \<times> string list) list list \<Rightarrow> string \<Rightarrow> path" where
  "first_match [] frag = []"
| "first_match (r # rs) frag =
     (let p = match_under_root r frag in if p \<noteq> [] then p else first_match rs frag)"

definition cut_at :: "char \<Rightarrow> string \<Rightarrow> (string \<times> string) option" where
  "cut_at c s =
     (if c \<in> set s then Some (takeWhile (\<lambda>x. x \<noteq> c) s, tl (dropWhile (\<lambda>x. x \<noteq> c) s)) else None)"

definition resolve_session_ref ::
  "path_env \<Rightarrow> (path \<Rightarrow> bool) \<Rightarrow> store_registry option \<Rightarrow> (path \<Rightarrow> (path \<times> string list) list)
     \<Rightarrow> path \<Rightarrow> string list \<Rightarrow> path \<Rightarrow> string \<Rightarrow> path" where
  "resolve_session_ref env is_file reg dirs_of session_dir names root ref =
     (if ref = [] then []
      else if is_file ref then the_default [] (pe_abs env ref)
      else if is_file (join_path session_dir ref) then join_path session_dir ref
      else if match_session_file session_dir names ref \<noteq> [] then match_session_file session_dir names ref
      else
        let labelled =
          (case cut_at CHR '':'' ref of
             Some (label, frag) \<Rightarrow>
               if frag = [] then None
               else map_option (\<lambda>st. match_under_root (dirs_of (sr_path st)) frag)
                      (find (\<lambda>st. sr_label st = label) (stores reg))
           | None \<Rightarrow> None)
        in case labelled of
             Some p \<Rightarrow> p
           | None \<Rightarrow>
               if match_under_root (dirs_of root) ref \<noteq> [] then match_under_root (dirs_of root) ref
               else first_match (map (\<lambda>st. dirs_of (sr_path st)) (extra_stores reg)) ref)"

subsection \<open>Facts\<close>

lemma within_refl [simp]: "within p p"
  by (simp add: within_def)

text \<open>Two roots of the same path are one inside the other.\<close>

lemma within_comparable:
  assumes "within p a" and "within p b"
  shows "within a b \<or> within b a"
proof -
  have in_root: "prefix (r @ ''/'') (q @ ''/'') \<Longrightarrow> within q r" for q r
    unfolding within_def has_prefix_iff prefix_snoc by blast
  consider "p = a \<or> p = b \<or> a = ''/'' \<or> b = ''/''" | "prefix (a @ ''/'') p" "prefix (b @ ''/'') p"
    using assms unfolding within_def has_prefix_iff by blast
  then show ?thesis
  proof cases
    case 1
    with assms show ?thesis unfolding within_def by blast
  next
    case 2
    then have "prefix (a @ ''/'') (b @ ''/'') \<or> prefix (b @ ''/'') (a @ ''/'')"
      by (rule prefix_same_cases)
    with in_root show ?thesis by blast
  qed
qed

lemma resolve_eval: "pe_eval env p = Some real \<Longrightarrow> resolve_existing env p = real"
  by (simp add: resolve_existing_def resolve_existing_from.simps join_rest_def)

lemma find_root_none:
  "\<forall>roots \<in> set rs. \<forall>root \<in> set roots. \<forall>f \<in> set forms. \<not> within f root \<Longrightarrow> find_root forms es rs = None"
  by (induction forms es rs rule: find_root.induct) auto

lemma add_extras_roots:
  assumes "\<forall>roots \<in> set (rg_roots r). \<not> overlaps forms roots"
  shows "\<forall>roots \<in> set (rg_roots (fst (add_extras env forms r skipped es))). \<not> overlaps forms roots"
  using assms
proof (induction env forms r skipped es rule: add_extras.induct)
  case (2 env forms r skipped e es)
  have forms: "\<not> overlaps forms (root_forms env p)"
    if n: "\<not> overlaps forms [p, resolve_existing env p]" for p
  proof (cases "pe_eval env p")
    case None
    with n show ?thesis by (simp add: root_forms_def overlaps_def)
  next
    case (Some real)
    then have "set (root_forms env p) \<subseteq> set [p, resolve_existing env p]"
      using resolve_eval [OF Some] by (simp add: root_forms_def)
    with n show ?thesis unfolding overlaps_def by blast
  qed
  let ?p = "sr_path (extra_root env e)"
  show ?case
  proof (cases "overlaps forms [?p, resolve_existing env ?p]")
    case True
    from "2.IH"(1) [OF refl True "2.prems"] show ?thesis by (simp only: add_extras.simps Let_def True if_True)
  next
    case False
    from "2.prems" forms [OF False]
    have "\<forall>roots \<in> set (rg_roots (r\<lparr>rg_extras := rg_extras r @ [extra_root env e],
        rg_roots := rg_roots r @ [root_forms env ?p]\<rparr>)). \<not> overlaps forms roots" by simp
    from "2.IH"(2) [OF refl False this] show ?thesis
      by (simp only: add_extras.simps Let_def False if_False)
  qed
qed simp

lemma add_extras_def [simp]: "rg_def (fst (add_extras env forms r skipped es)) = rg_def r"
  by (induction env forms r skipped es rule: add_extras.induct) (simp_all add: Let_def)

lemma configured_roots:
  assumes "configure_stores env root extras = (Some r, skipped)"
  shows "\<forall>roots \<in> set (rg_roots r). \<not> overlaps [sr_path (rg_def r), resolve_existing env (sr_path (rg_def r))] roots"
proof -
  let ?f = "[pe_clean env root, resolve_existing env (pe_clean env root)]"
  let ?r = "\<lparr>rg_def = \<lparr>sr_label = default_store_label, sr_path = pe_clean env root, sr_read_only = False\<rparr>,
                    rg_extras = [], rg_roots = []\<rparr>"
  have "root \<noteq> []" using assms by (auto simp: configure_stores_def)
  then have r: "r = fst (add_extras env ?f ?r [] extras)"
    using assms by (simp add: configure_stores_def Let_def case_prod_beta)
  show ?thesis unfolding r using add_extras_roots [of ?r ?f env "[]" extras] by simp
qed

lemma default_path_writable:
  assumes c: "configure_stores env root extras = (Some r, skipped)"
    and p: "pe_abs env p = Some q"
    and f: "\<forall>f \<in> set (path_forms env q). \<exists>x \<in> {sr_path (rg_def r), resolve_existing env (sr_path (rg_def r))}. within f x"
  shows "read_only_store_for env (Some r) p = None"
proof -
  have "\<not> within g root"
    if rs: "roots \<in> set (rg_roots r)" "root \<in> set roots" and g: "g \<in> set (path_forms env q)"
    for roots root g
  proof
    assume w: "within g root"
    obtain x where x: "x \<in> {sr_path (rg_def r), resolve_existing env (sr_path (rg_def r))}" "within g x"
      using f g by blast
    from within_comparable [OF w x(2)] rs x(1) configured_roots [OF c] show False
      by (auto simp: overlaps_def)
  qed
  then have "find_root (path_forms env q) (rg_extras r) (rg_roots r) = None"
    by (intro find_root_none) blast
  then show ?thesis by (simp add: read_only_store_for_def p)
qed

text \<open>A path without \<open>-\<close>, \<open>:\<close>, backslash or a doubled root comes back from its directory name.\<close>

lemma decode_encode_cwd:
  assumes "\<forall>c \<in> set p. c \<noteq> CHR ''-'' \<and> c \<noteq> CHR '':'' \<and> c \<noteq> CHR 0x5C" and "p = [] \<or> hd p \<noteq> CHR ''/''"
  shows "decode_cwd_dir (encode_cwd (''/'' @ p)) = ''/'' @ p"
proof -
  let ?enc = "\<lambda>c. if c = CHR ''/'' \<or> c = CHR 0x5C \<or> c = CHR '':'' then CHR ''-'' else c"
  let ?dec = "\<lambda>c. if c = CHR ''-'' then CHR ''/'' else c"
  have "dropWhile (\<lambda>c. c = CHR ''/'' \<or> c = CHR 0x5C) p = p"
    using assms by (cases p) auto
  then have e: "encode_cwd (CHR ''/'' # p) = ''--'' @ map ?enc p @ ''--''"
    by (simp add: encode_cwd_def)
  have "map ?dec (map ?enc p) = p"
    using assms(1) by (induction p) auto
  then show ?thesis
    by (simp add: e decode_cwd_dir_def has_prefix_def has_suffix_def)
qed

end
