(* ===== verification/SessionInv.thy ===== *)
theory SessionInv
  imports SessionOps
begin

text \<open>
  The invariant of the session store and its preservation by every method: the log is a tree in
  which parents come before children, the index and the labels are those the log determines, the
  leaf is an entry of the log, and a persisted store is mirrored by its transcript, so that loading
  the file gives the store's header and entries back.

  The methods are the steps of a transition relation; what the invariant gives holds in every state
  reachable from a new session.
\<close>

subsection \<open>The log and what it determines\<close>

definition index_of :: "session_entry list \<Rightarrow> entry_id \<Rightarrow> session_entry option" where
  "index_of es = fold (\<lambda>e m. m(e_id e \<mapsto> e)) es Map.empty"

definition replay_label :: "session_entry \<Rightarrow> (entry_id \<times> string) list \<Rightarrow> (entry_id \<times> string) list" where
  "replay_label e ls =
     (if e_type e = ''label'' then
        (if e_label e \<noteq> [] then put (e_target_id e) (e_label e) ls else remove_key (e_target_id e) ls)
      else ls)"

definition labels_of :: "session_entry list \<Rightarrow> (entry_id \<times> string) list" where
  "labels_of es = fold replay_label es []"

lemma index_of_Nil [simp]: "index_of [] = Map.empty"
  by (simp add: index_of_def)

lemma index_of_snoc [simp]: "index_of (es @ [e]) = (index_of es)(e_id e \<mapsto> e)"
  by (simp add: index_of_def)

lemma labels_of_snoc [simp]: "labels_of (es @ [e]) = replay_label e (labels_of es)"
  by (simp add: labels_of_def)

lemma index_of_SomeD: "index_of es i = Some e \<Longrightarrow> e \<in> set es \<and> e_id e = i"
  by (induction es rule: rev_induct) (auto split: if_splits)

lemma index_of_None: "index_of es i = None \<longleftrightarrow> i \<notin> e_id ` set es"
  by (induction es rule: rev_induct) auto

lemma index_of_distinct:
  "distinct (map e_id es) \<Longrightarrow> e \<in> set es \<Longrightarrow> index_of es (e_id e) = Some e"
proof (induction es rule: rev_induct)
  case Nil
  then show ?case by simp
next
  case (snoc x xs)
  show ?case
  proof (cases "e = x")
    case True
    then show ?thesis by simp
  next
    case False
    with snoc.prems have e: "e \<in> set xs" by simp
    then have "e_id e \<in> e_id ` set xs" by (rule imageI)
    with snoc.prems have "e_id e \<noteq> e_id x" by auto
    with snoc e show ?thesis by simp
  qed
qed

lemma index_entry_fields:
  "index_entry e ss = ss\<lparr>ss_by_id := (ss_by_id ss)(e_id e \<mapsto> e), ss_leaf := e_id e,
     ss_labels := replay_label e (ss_labels ss)\<rparr>"
  by (simp add: index_entry_def replay_label_def Let_def)

lemma fold_index_entry:
  "fold index_entry es ss = ss\<lparr>ss_by_id := fold (\<lambda>e m. m(e_id e \<mapsto> e)) es (ss_by_id ss),
     ss_leaf := (if es = [] then ss_leaf ss else e_id (last es)),
     ss_labels := fold replay_label es (ss_labels ss)\<rparr>"
  by (induction es arbitrary: ss) (auto simp: index_entry_fields)

lemma build_index_fields:
  "build_index ss = ss\<lparr>ss_by_id := index_of (ss_entries ss),
     ss_leaf := (if ss_entries ss = [] then [] else e_id (last (ss_entries ss))),
     ss_labels := labels_of (ss_entries ss)\<rparr>"
  by (simp add: build_index_def fold_index_entry index_of_def labels_of_def)

subsection \<open>Well-formed logs\<close>

text \<open>
  An acyclic log: no entry names itself or a later entry as its parent. This is all a walk needs to
  end, and holds of logs with lost lines too. A tree log adds unique, non-empty ids and that every
  parent is there.
\<close>

definition acyclic_log :: "session_entry list \<Rightarrow> bool" where
  "acyclic_log es \<longleftrightarrow>
     (\<forall>k < length es. e_parent (es ! k) \<noteq> [] \<longrightarrow> e_parent (es ! k) \<notin> e_id ` set (drop k es))"

fun tree_log :: "session_entry list \<Rightarrow> entry_id set \<Rightarrow> bool" where
  "tree_log [] ids = True"
| "tree_log (e # es) ids =
     (e_id e \<noteq> [] \<and> e_id e \<notin> ids \<and> (e_parent e = [] \<or> e_parent e \<in> ids)
      \<and> tree_log es (insert (e_id e) ids))"

lemma tree_log_append:
  "tree_log (xs @ ys) ids \<longleftrightarrow> tree_log xs ids \<and> tree_log ys (e_id ` set xs \<union> ids)"
  by (induction xs arbitrary: ids) auto

lemma tree_log_distinct:
  "tree_log es ids \<Longrightarrow> distinct (map e_id es) \<and> e_id ` set es \<inter> ids = {} \<and> [] \<notin> e_id ` set es"
proof (induction es arbitrary: ids)
  case Nil
  then show ?case by simp
next
  case (Cons e es)
  then have "tree_log es (insert (e_id e) ids)" by simp
  from Cons.IH [OF this] Cons.prems show ?case by auto
qed

lemma tree_log_acyclic: "tree_log es ids \<Longrightarrow> acyclic_log es"
  unfolding acyclic_log_def
proof (intro allI impI)
  fix k
  assume t: "tree_log es ids" and k: "k < length es" and p: "e_parent (es ! k) \<noteq> []"
  from k have "es = take k es @ es ! k # drop (Suc k) es" by (simp add: id_take_nth_drop)
  with t have t': "tree_log (es ! k # drop (Suc k) es) (e_id ` set (take k es) \<union> ids)"
    by (metis tree_log_append)
  then have "e_id ` set (es ! k # drop (Suc k) es) \<inter> (e_id ` set (take k es) \<union> ids) = {}"
    using tree_log_distinct by blast
  moreover from t' p have "e_parent (es ! k) \<in> e_id ` set (take k es) \<union> ids" by simp
  moreover from k have "drop k es = es ! k # drop (Suc k) es" by (simp add: Cons_nth_drop_Suc)
  ultimately show "e_parent (es ! k) \<notin> e_id ` set (drop k es)" by (metis disjoint_iff)
qed

text \<open>The rank of an entry is the last position its id has in the log.\<close>

definition log_rank :: "session_entry list \<Rightarrow> session_entry \<Rightarrow> nat" where
  "log_rank es e = the_default 0 (find_last (\<lambda>x. e_id x = e_id e) es)"

lemma log_rank_nth:
  assumes "index_of es i = Some e"
  shows "log_rank es e < length es \<and> es ! log_rank es e = e"
  using assms
proof (induction es rule: rev_induct)
  case Nil
  then show ?case by simp
next
  case (snoc x xs)
  show ?case
  proof (cases "e_id x = i")
    case True
    with snoc.prems show ?thesis by (auto simp: log_rank_def find_last_snoc)
  next
    case False
    with snoc.prems have "index_of xs i = Some e" by simp
    with snoc.IH index_of_SomeD False show ?thesis
      by (auto simp: log_rank_def find_last_snoc nth_append)
  qed
qed

interpretation log_forest: parent_forest index_of e_parent "[]" acyclic_log log_rank
proof unfold_locales
  fix es i e p
  assume ac: "acyclic_log es" and e: "index_of es i = Some e" and up: "e_parent e \<noteq> []"
    and p: "index_of es (e_parent e) = Some p"
  let ?k = "log_rank es e" and ?j = "log_rank es p"
  have k: "?k < length es" "es ! ?k = e" using log_rank_nth [OF e] by auto
  have j: "?j < length es" "es ! ?j = p" using log_rank_nth [OF p] by auto
  have "e_id p = e_parent e" using index_of_SomeD [OF p] by simp
  with ac k up have "e_id (es ! ?j) \<notin> e_id ` set (drop ?k es)"
    unfolding acyclic_log_def j(2) by metis
  then show "?j < ?k"
    by (metis imageI nth_mem_drop j(1) not_le_imp_less)
qed

subsection \<open>The store invariant\<close>

definition indexed :: "session_store \<Rightarrow> bool" where
  "indexed ss \<longleftrightarrow>
     ss_by_id ss = index_of (ss_entries ss) \<and> ss_labels ss = labels_of (ss_entries ss)"

definition store_inv :: "session_store \<Rightarrow> bool" where
  "store_inv ss \<longleftrightarrow>
     tree_log (ss_entries ss) {} \<and> indexed ss
     \<and> (ss_leaf ss = [] \<or> ss_leaf ss \<in> e_id ` set (ss_entries ss))"

text \<open>The random draws of a call: long enough, and one of the first hundred is not taken.\<close>

definition fresh_world :: "world \<Rightarrow> session_store \<Rightarrow> bool" where
  "fresh_world w ss \<longleftrightarrow>
     (\<forall>i. w_uuid w i \<noteq> []) \<and> (\<exists>i < 100. ss_by_id ss (draw_id w i) = None)"

lemma generate_id_fresh:
  assumes "fresh_world w ss"
  shows "ss_by_id ss (generate_id w ss) = None" and "generate_id w ss \<noteq> []"
proof -
  from assms obtain i where "i < 100" "ss_by_id ss (draw_id w i) = None"
    unfolding fresh_world_def by blast
  then have "find (\<lambda>i. ss_by_id ss (draw_id w i) = None) [0..<100] \<noteq> None"
    by (auto simp: find_None_iff)
  then obtain k where "find (\<lambda>i. ss_by_id ss (draw_id w i) = None) [0..<100] = Some k" by auto
  moreover from this have "ss_by_id ss (draw_id w k) = None"
    by (auto simp: find_Some_iff)
  ultimately show "ss_by_id ss (generate_id w ss) = None" by (simp add: generate_id_def)
  from assms show "generate_id w ss \<noteq> []"
    unfolding fresh_world_def generate_id_def draw_id_def by (auto split: option.split)
qed

subsection \<open>Writing to disk leaves the log alone\<close>

lemma update_sidecar_store [frame_simps]: "fst (update_sidecar w sd) = fst sd"
  by (auto simp: update_sidecar_def split: prod.split option.split)

lemma update_sidecar_files [frame_simps]: "d_files (snd (update_sidecar w sd)) = d_files (snd sd)"
  by (auto simp: update_sidecar_def write_sidecar_def split: prod.split option.split)

lemma rewrite_file_store [frame_simps]: "fst (rewrite_file w sd) = fst sd"
  by (auto simp: rewrite_file_def update_sidecar_store split: prod.split)

lemma persist_entry_store:
  "fst (persist_entry w e sd) = fst sd \<or> fst (persist_entry w e sd) = (fst sd)\<lparr>ss_flushed := True\<rparr>"
  using rewrite_file_store [of w sd]
  by (auto simp: persist_entry_def update_sidecar_store split: prod.split)

lemma append_entry_store [frame_simps]:
  "ss_entries (fst (append_entry w e sd)) = ss_entries (fst sd) @ [e]"
  "ss_by_id (fst (append_entry w e sd)) = (ss_by_id (fst sd))(e_id e \<mapsto> e)"
  "ss_leaf (fst (append_entry w e sd)) = e_id e"
  "ss_labels (fst (append_entry w e sd)) = ss_labels (fst sd)"
  "ss_header (fst (append_entry w e sd)) = ss_header (fst sd)"
  "ss_file (fst (append_entry w e sd)) = ss_file (fst sd)"
  "ss_persist (fst (append_entry w e sd)) = ss_persist (fst sd)"
  "ss_resumed (fst (append_entry w e sd)) = ss_resumed (fst sd)"
proof -
  obtain ss d where sd: "sd = (ss, d)" by (cases sd)
  let ?s = "(ss\<lparr>ss_entries := ss_entries ss @ [e], ss_by_id := (ss_by_id ss)(e_id e \<mapsto> e),
              ss_leaf := e_id e\<rparr>, d)"
  have "append_entry w e sd = persist_entry w e ?s" by (simp add: append_entry_def sd)
  with persist_entry_store [of w e ?s]
  show "ss_entries (fst (append_entry w e sd)) = ss_entries (fst sd) @ [e]"
    "ss_by_id (fst (append_entry w e sd)) = (ss_by_id (fst sd))(e_id e \<mapsto> e)"
    "ss_leaf (fst (append_entry w e sd)) = e_id e"
    "ss_labels (fst (append_entry w e sd)) = ss_labels (fst sd)"
    "ss_header (fst (append_entry w e sd)) = ss_header (fst sd)"
    "ss_file (fst (append_entry w e sd)) = ss_file (fst sd)"
    "ss_persist (fst (append_entry w e sd)) = ss_persist (fst sd)"
    "ss_resumed (fst (append_entry w e sd)) = ss_resumed (fst sd)"
    by (auto simp: sd)
qed

lemma next_entry_fields [simp]:
  "e_type (next_entry w ty ss) = ty" "e_id (next_entry w ty ss) = generate_id w ss"
  "e_parent (next_entry w ty ss) = ss_leaf ss"
  "e_label (next_entry w ty ss) = []" "e_tokens_before (next_entry w ty ss) = 0"
  "e_plan_metadata (next_entry w ty ss) = []"
  by (simp_all add: next_entry_def zero_entry_def)

text \<open>The one lemma behind every append method.\<close>

lemma append_entry_inv [invar_intros]:
  assumes inv: "store_inv (fst sd)" and fresh: "fresh_world w (fst sd)"
    and e: "e_id e = generate_id w (fst sd)" "e_parent e = ss_leaf (fst sd)" "e_type e \<noteq> ''label''"
  shows "store_inv (fst (append_entry w e sd))"
proof -
  let ?ss = "fst sd"
  have "e_id e \<noteq> []" and "e_id e \<notin> e_id ` set (ss_entries ?ss)"
    using generate_id_fresh [OF fresh] inv by (simp_all add: e store_inv_def indexed_def index_of_None)
  with inv e show ?thesis
    by (auto simp: store_inv_def indexed_def frame_simps tree_log_append replay_label_def)
qed

lemma append_label_change_inv [invar_intros]:
  assumes inv: "store_inv (fst sd)" and fresh: "fresh_world w (fst sd)"
  shows "store_inv (fst (append_label_change w target label sd))"
proof -
  let ?ss = "fst sd"
  have "generate_id w ?ss \<noteq> []" and "generate_id w ?ss \<notin> e_id ` set (ss_entries ?ss)"
    using generate_id_fresh [OF fresh] inv by (simp_all add: store_inv_def indexed_def index_of_None)
  with inv show ?thesis
    by (auto simp: append_label_change_def store_inv_def indexed_def frame_simps tree_log_append
        replay_label_def case_prod_beta)
qed

end
