(* ===== verification/SessionRun.thy ===== *)
theory SessionRun
  imports SessionInv SessionOpen
begin

text \<open>
  Runs of a persisted session: the methods, closing and reopening, and a crash inside an append
  followed by a reopening, as steps; the states reachable from a new session; and the invariant that
  holds in them: the store is well formed, and its transcript on disk, whatever torn lines earlier
  crashes left in it, loads to exactly its header and entries.
\<close>

subsection \<open>The mirror invariant\<close>

definition on_disk :: "session_store \<Rightarrow> bool" where
  "on_disk ss \<longleftrightarrow> ss_persist ss \<and> ss_file ss \<noteq> [] \<and> ss_flushed ss"

definition mirrored :: "store_disk \<Rightarrow> bool" where
  "mirrored sd \<longleftrightarrow>
     (\<exists>f. d_files (snd sd) (ss_file (fst sd)) = Some f \<and> f_tail f = None
        \<and> load_lines None [] (f_lines f) = (ss_header (fst sd), ss_entries (fst sd)))"

definition storable :: "session_store \<Rightarrow> bool" where
  "storable ss \<longleftrightarrow>
     (\<exists>h. ss_header ss = Some h \<and> storable_header h) \<and> (\<forall>e \<in> set (ss_entries ss). storable_entry e)"

definition persisted :: "store_disk \<Rightarrow> bool" where
  "persisted sd \<longleftrightarrow> on_disk (fst sd) \<and> mirrored sd \<and> storable (fst sd)"

definition session_ok :: "store_disk \<Rightarrow> bool" where
  "session_ok sd \<longleftrightarrow> store_inv (fst sd) \<and> persisted sd"

definition can_write :: "world \<Rightarrow> session_store \<Rightarrow> bool" where
  "can_write w ss \<longleftrightarrow> check_writable w (ss_file ss) \<and> w_io_ok w (ss_file ss)"

lemma mirrored_load:
  "mirrored sd \<Longrightarrow>
     load_entries_from_file (snd sd) (ss_file (fst sd)) = (ss_header (fst sd), ss_entries (fst sd))"
  by (auto simp: mirrored_def load_entries_from_file_def file_lines_def)

lemma persisted_load:
  "persisted sd \<Longrightarrow>
     load_entries_from_file (snd sd) (ss_file (fst sd)) = (ss_header (fst sd), ss_entries (fst sd))"
  by (simp add: persisted_def mirrored_load)

lemma loaded_store_fields:
  "ss_entries (loaded_store p h es ss) = es" "ss_header (loaded_store p h es ss) = Some h"
  "ss_file (loaded_store p h es ss) = p" "ss_persist (loaded_store p h es ss) = ss_persist ss"
  "ss_flushed (loaded_store p h es ss)" "ss_lock (loaded_store p h es ss) = ss_lock ss"
  by (simp_all add: loaded_store_def build_index_fields)

lemma mirrored_same_files:
  "mirrored (ss, d) \<Longrightarrow> d_files d' = d_files d \<Longrightarrow> mirrored (ss, d')"
  by (simp add: mirrored_def)

lemma append_entry_persisted [invar_intros]:
  assumes p: "persisted sd" and w: "can_write w (fst sd)" and e: "storable_entry e"
  shows "persisted (append_entry w e sd)"
proof -
  obtain ss d where sd: "sd = (ss, d)" by (cases sd)
  let ?ss = "ss\<lparr>ss_entries := ss_entries ss @ [e], ss_by_id := (ss_by_id ss)(e_id e \<mapsto> e),
               ss_leaf := e_id e\<rparr>"
  let ?d = "append_to w (ss_file ss) (json_of_entry e) d"
  have app: "append_entry w e sd = update_sidecar w (?ss, ?d)"
    using p w by (simp add: append_entry_def sd persist_entry_def persisted_def on_disk_def can_write_def)
  then have fst: "fst (append_entry w e sd) = ?ss" and
      files: "d_files (snd (append_entry w e sd)) = d_files ?d"
    by (simp_all add: frame_simps)
  from p e have "mirrored (?ss, ?d)"
    by (auto simp: persisted_def mirrored_def sd append_to_def set_file_def append_line_def
        load_snoc_entry)
  then have "mirrored (append_entry w e sd)"
    using fst files by (simp add: mirrored_def)
  with p e show ?thesis
    unfolding persisted_def fst on_disk_def storable_def by (simp add: sd)
qed

lemma rewrite_file_mirrored:
  assumes "ss_persist ss" and "ss_file ss \<noteq> []" and "can_write w ss" and "storable ss"
  shows "mirrored (rewrite_file w (ss, d))"
proof -
  obtain h where h: "ss_header ss = Some h" "storable_header h" "\<forall>e \<in> set (ss_entries ss). storable_entry e"
    using assms(4) by (auto simp: storable_def)
  let ?d = "write_lines w (ss_file ss) (header_json ss # map json_of_entry (ss_entries ss)) d"
  have r: "rewrite_file w (ss, d) = update_sidecar w (ss, ?d)"
    using assms by (simp add: rewrite_file_def can_write_def)
  have "mirrored (ss, ?d)"
    using h load_transcript_lines [OF h(2)]
    by (simp add: mirrored_def write_lines_def set_file_def header_json_def transcript_lines_def)
  then show ?thesis by (simp add: r mirrored_def frame_simps)
qed

lemma stamp_invocation_persisted [invar_intros]:
  assumes p: "persisted sd" and w: "can_write w (fst sd)"
  shows "persisted (stamp_invocation w oi sd)"
proof -
  obtain ss d where sd: "sd = (ss, d)" by (cases sd)
  obtain h where h: "ss_header ss = Some h" "storable_header h"
    using p by (auto simp: persisted_def storable_def sd)
  let ?ss = "ss\<lparr>ss_header := Some (h\<lparr>h_invocation := oi\<rparr>)\<rparr>"
  have "persisted (rewrite_file w (?ss, d))"
  proof -
    have "storable ?ss"
      using p h by (simp add: storable_def persisted_def sd storable_header_def header_ok_def)
    then have "mirrored (rewrite_file w (?ss, d))"
      using p w by (intro rewrite_file_mirrored) (auto simp: persisted_def on_disk_def can_write_def sd)
    with p h show ?thesis
      by (auto simp: persisted_def frame_simps on_disk_def storable_def sd storable_header_def
          header_ok_def)
  qed
  with p h show ?thesis
    by (simp add: stamp_invocation_def sd persisted_def on_disk_def Let_def)
qed

lemma force_flush_persisted [invar_intros]:
  assumes p: "persisted sd" and w: "can_write w (fst sd)"
  shows "persisted (force_flush w sd)"
proof -
  obtain ss d where sd: "sd = (ss, d)" by (cases sd)
  have "mirrored (rewrite_file w (ss, d))"
    using p w by (intro rewrite_file_mirrored)
      (auto simp: persisted_def on_disk_def storable_def sd)
  then have "mirrored (ss\<lparr>ss_flushed := True\<rparr>, snd (rewrite_file w (ss, d)))"
    by (simp add: mirrored_def frame_simps)
  with p show ?thesis
    by (auto simp: force_flush_def sd persisted_def on_disk_def storable_def case_prod_beta frame_simps)
qed

subsection \<open>Steps and reachable states\<close>

definition ready :: "world \<Rightarrow> store_disk \<Rightarrow> bool" where
  "ready w sd \<longleftrightarrow> fresh_world w (fst sd) \<and> can_write w (fst sd)"

text \<open>
  The premises are the facts of the caller's types and of the environment: the random draws are
  fresh, the file can be written, a token count fits its machine word, a Go map has one value per
  key, and a branch target is the empty id or an entry of the session.
\<close>

text \<open>
  The file of a stopped process, opened again: nobody holds its lock, and the open does not fork.
\<close>

definition reopened :: "world \<Rightarrow> path \<Rightarrow> path \<Rightarrow> disk \<Rightarrow> store_disk \<Rightarrow> bool" where
  "reopened w dir p d sd \<longleftrightarrow>
     lockable w p \<and> \<not> d_locked d p \<and> open_session_store [w] p (Some dir) d = Some (sd, False)"

inductive session_step :: "store_disk \<Rightarrow> store_disk \<Rightarrow> bool" where
  message: "ready w sd \<Longrightarrow> session_step sd (append_message w raw sd)"
| thinking: "ready w sd \<Longrightarrow> session_step sd (append_thinking_level_change w level sd)"
| model: "ready w sd \<Longrightarrow> session_step sd (append_model_change w provider mid sd)"
| version: "ready w sd \<Longrightarrow> session_step sd (maybe_record_agent_version_change w sd)"
| compaction: "ready w sd \<Longrightarrow> int_in_range tokens \<Longrightarrow>
     session_step sd (append_compaction w summary kept tokens details hook sd)"
| custom: "ready w sd \<Longrightarrow> session_step sd (append_custom_entry w ctype data sd)"
| info: "ready w sd \<Longrightarrow> session_step sd (append_session_info w name sd)"
| label: "ready w sd \<Longrightarrow> session_step sd (append_label_change w target lab sd)"
| plan: "ready w sd \<Longrightarrow> distinct (map fst metadata) \<Longrightarrow>
     session_step sd (append_plan_update w title plan metadata sd)"
| command: "ready w sd \<Longrightarrow> session_step sd (append_command_entry w cmd args sd)"
| branch: "target = [] \<or> ss_by_id (fst sd) target \<noteq> None \<Longrightarrow> session_step sd (branch target sd)"
| branch_summary: "ready w sd \<Longrightarrow> target = [] \<or> ss_by_id (fst sd) target \<noteq> None \<Longrightarrow>
     session_step sd (branch_with_summary w target summary details hook sd)"
| stamp: "can_write w (fst sd) \<Longrightarrow> session_step sd (stamp_invocation w oi sd)"
| flush: "can_write w (fst sd) \<Longrightarrow> session_step sd (force_flush w sd)"
| reopen: "reopened w dir (ss_file (fst sd)) (snd (close_store sd)) sd' \<Longrightarrow> session_step sd sd'"
| crash: "fresh_world w (fst sd) \<Longrightarrow> storable_entry e \<Longrightarrow>
     e_id e = generate_id w (fst sd) \<Longrightarrow> e_parent e = ss_leaf (fst sd) \<Longrightarrow>
     d_files (snd sd) (ss_file (fst sd)) = Some f \<Longrightarrow> crashed_append (json_of_entry e) f f' \<Longrightarrow>
     reopened w' dir (ss_file (fst sd))
       (release_lock (ss_file (fst sd)) (set_file (ss_file (fst sd)) f' (snd sd))) sd' \<Longrightarrow>
     session_step sd sd'"

text \<open>A new persisted session: its directory is writable and its file name is not taken.\<close>

definition startable :: "world \<Rightarrow> path \<Rightarrow> disk \<Rightarrow> bool" where
  "startable w dir d \<longleftrightarrow>
     (let file = join_path dir (session_file_name w)
      in dir \<noteq> [] \<and> check_writable w dir \<and> check_writable w file \<and> w_io_ok w file
         \<and> d_files d file = None \<and> w_session_uuid w \<noteq> [])"

inductive reachable :: "store_disk \<Rightarrow> bool" where
  start: "startable w dir d \<Longrightarrow> reachable (new_session_store w cwd dir d)"
| step: "reachable sd \<Longrightarrow> session_step sd sd' \<Longrightarrow> reachable sd'"

lemma store_inv_frame:
  assumes "store_inv ss" and "ss_entries ss' = ss_entries ss" and "ss_by_id ss' = ss_by_id ss"
    and "ss_labels ss' = ss_labels ss" and "ss_leaf ss' = ss_leaf ss"
  shows "store_inv ss'"
  using assms by (simp add: store_inv_def indexed_def)

lemma branch_inv [invar_intros]:
  assumes "store_inv (fst sd)" and "target = [] \<or> ss_by_id (fst sd) target \<noteq> None"
  shows "store_inv (fst (branch target sd))"
  using assms index_of_None [of "ss_entries (fst sd)" target]
  by (auto simp: branch_def store_inv_def indexed_def)

lemma branch_fst_snd [simp]:
  "ss_by_id (fst (branch target sd)) = ss_by_id (fst sd)"
  "ss_leaf (fst (branch target sd)) = target"
  "snd (branch target sd) = snd sd"
  "(fst (branch target sd), snd sd) = branch target sd"
  by (simp_all add: branch_def)

lemma branch_persisted [invar_intros]: "persisted sd \<Longrightarrow> persisted (branch target sd)"
  by (auto simp: branch_def persisted_def on_disk_def mirrored_def storable_def)

lemma ready_branch [simp]: "ready w (branch target sd) = ready w sd"
  by (simp add: ready_def branch_def fresh_world_def can_write_def)

lemma stamp_invocation_frame:
  "ss_entries (fst (stamp_invocation w oi sd)) = ss_entries (fst sd)"
  "ss_by_id (fst (stamp_invocation w oi sd)) = ss_by_id (fst sd)"
  "ss_labels (fst (stamp_invocation w oi sd)) = ss_labels (fst sd)"
  "ss_leaf (fst (stamp_invocation w oi sd)) = ss_leaf (fst sd)"
  by (auto simp: stamp_invocation_def frame_simps Let_def split: prod.split option.split)

lemma force_flush_frame:
  "ss_entries (fst (force_flush w sd)) = ss_entries (fst sd)"
  "ss_by_id (fst (force_flush w sd)) = ss_by_id (fst sd)"
  "ss_labels (fst (force_flush w sd)) = ss_labels (fst sd)"
  "ss_leaf (fst (force_flush w sd)) = ss_leaf (fst sd)"
  using rewrite_file_store [of w sd]
  by (auto simp: force_flush_def split: prod.splits)

lemma int_in_range_0 [simp]: "int_in_range 0"
  by (simp add: int_in_range_def)

lemmas storable_defs = storable_entry_def entry_ok_def

lemmas append_method_defs = append_message_def append_thinking_level_change_def
  append_model_change_def append_compaction_def append_custom_entry_def append_session_info_def
  append_plan_update_def append_command_entry_def

text \<open>One entry appended by any of the methods.\<close>

lemma append_next:
  assumes "session_ok sd" and "ready w sd"
    and "e_id e = generate_id w (fst sd)" "e_parent e = ss_leaf (fst sd)" "e_type e \<noteq> ''label''"
    and "storable_entry e"
  shows "session_ok (append_entry w e sd)"
  using assms by (auto simp: ready_def session_ok_def intro: append_entry_inv append_entry_persisted)

lemma label_step:
  assumes "session_ok sd" and "ready w sd"
  shows "session_ok (append_label_change w target lab sd)"
proof -
  let ?e = "(next_entry w ''label'' (fst sd))\<lparr>e_target_id := target, e_label := lab\<rparr>"
  have "persisted (append_entry w ?e sd)"
    using assms by (intro append_entry_persisted) (auto simp: ready_def session_ok_def storable_defs)
  then have "persisted (append_label_change w target lab sd)"
    by (auto simp: append_label_change_def persisted_def on_disk_def mirrored_def storable_def
        case_prod_beta)
  with assms show ?thesis by (auto simp: ready_def session_ok_def intro: append_label_change_inv)
qed

lemma close_store_disk:
  "d_files (snd (close_store sd)) = d_files (snd sd)"
  by (auto simp: close_store_def release_lock_def split: prod.split option.split)

lemma load_entries_same_files:
  "d_files d = d_files d' \<Longrightarrow> load_entries_from_file d p = load_entries_from_file d' p"
  by (simp add: load_entries_from_file_def)

text \<open>What opening a well-formed transcript gives: a store in the invariant, its file repaired.\<close>

lemma reopened_ok:
  assumes r: "reopened w dir p d sd'" and load: "load_entries_from_file d p = (Some h, es)"
    and t: "tree_log es {}" and st: "storable_header h" "\<forall>e \<in> set es. storable_entry e" and "p \<noteq> []"
  shows "session_ok sd' \<and> ss_entries (fst sd') = es \<and> ss_header (fst sd') = Some h
    \<and> ss_file (fst sd') = p"
proof -
  let ?ss = "loaded_store p h es ((blank_store [] dir True)\<lparr>ss_lock := Some p\<rparr>)"
  let ?d = "repair_trailing_newline w p (d\<lparr>d_locked := (d_locked d)(p := True)\<rparr>)"
  from r have free: "lockable w p" "\<not> d_locked d p"
    and o: "open_session_store [w] p (Some dir) d = Some (sd', False)"
    by (simp_all add: reopened_def)
  have sd': "sd' = (?ss, ?d)"
    using o set_session_file_free [OF load free] by (simp add: open_session_store_def)
  obtain f where f: "d_files d p = Some f" using load_entries_exists [OF load] by auto
  obtain g where g: "d_files ?d p = Some g" "f_tail g = None" "f_lines g = file_lines f"
    using f free(1)
    by (cases "f_tail f")
      (auto simp: repair_trailing_newline_def lockable_def set_file_def file_lines_def)
  have "load_lines None [] (f_lines g) = (Some h, es)"
    using load f g(3) by (simp add: load_entries_from_file_def)
  with g have "mirrored (?ss, ?d)" by (simp add: mirrored_def loaded_store_fields)
  moreover have "store_inv ?ss"
    using t by (auto simp: store_inv_def indexed_def loaded_store_def build_index_fields)
  moreover have "on_disk ?ss"
    using \<open>p \<noteq> []\<close> by (simp add: on_disk_def loaded_store_fields blank_store_def)
  moreover have "storable ?ss" using st by (simp add: storable_def loaded_store_fields)
  ultimately show ?thesis
    by (simp add: sd' session_ok_def persisted_def loaded_store_fields)
qed

lemma session_ok_fields:
  assumes "session_ok sd"
  obtains h where "ss_header (fst sd) = Some h" "storable_header h"
    "\<forall>e \<in> set (ss_entries (fst sd)). storable_entry e" "ss_file (fst sd) \<noteq> []"
    "tree_log (ss_entries (fst sd)) {}"
  using assms by (auto simp: session_ok_def persisted_def storable_def on_disk_def store_inv_def)

lemma reopen_step:
  assumes ok: "session_ok sd" and r: "reopened w dir (ss_file (fst sd)) (snd (close_store sd)) sd'"
  shows "session_ok sd' \<and> ss_entries (fst sd') = ss_entries (fst sd)"
proof -
  obtain h where h: "ss_header (fst sd) = Some h" "storable_header h"
    "\<forall>e \<in> set (ss_entries (fst sd)). storable_entry e" "ss_file (fst sd) \<noteq> []"
    "tree_log (ss_entries (fst sd)) {}" using session_ok_fields [OF ok] .
  have "load_entries_from_file (snd (close_store sd)) (ss_file (fst sd))
      = load_entries_from_file (snd sd) (ss_file (fst sd))"
    by (rule load_entries_same_files) (rule close_store_disk)
  also have "\<dots> = (Some h, ss_entries (fst sd))"
    using ok persisted_load h(1) by (simp add: session_ok_def)
  finally show ?thesis using reopened_ok [OF r _ h(5,2,3,4)] by blast
qed

lemma crash_step:
  assumes ok: "session_ok sd" and fresh: "fresh_world w (fst sd)" and e: "storable_entry e"
    "e_id e = generate_id w (fst sd)" "e_parent e = ss_leaf (fst sd)"
    and f: "d_files (snd sd) (ss_file (fst sd)) = Some f"
    and c: "crashed_append (json_of_entry e) f f'"
    and r: "reopened w' dir (ss_file (fst sd))
       (release_lock (ss_file (fst sd)) (set_file (ss_file (fst sd)) f' (snd sd))) sd'"
  shows "session_ok sd' \<and> (ss_entries (fst sd') = ss_entries (fst sd)
    \<or> ss_entries (fst sd') = ss_entries (fst sd) @ [e])"
proof -
  let ?d = "release_lock (ss_file (fst sd)) (set_file (ss_file (fst sd)) f' (snd sd))"
  obtain h where h: "ss_header (fst sd) = Some h" "storable_header h"
    "\<forall>e \<in> set (ss_entries (fst sd)). storable_entry e" "ss_file (fst sd) \<noteq> []"
    "tree_log (ss_entries (fst sd)) {}" using session_ok_fields [OF ok] .
  have m: "f_tail f = None" "load_lines None [] (file_lines f) = (Some h, ss_entries (fst sd))"
    using ok f h(1) by (auto simp: session_ok_def persisted_def mirrored_def file_lines_def)
  have d: "load_entries_from_file ?d (ss_file (fst sd)) = load_lines None [] (file_lines f')"
    by (simp add: load_entries_from_file_def release_lock_def set_file_def)
  have inv: "store_inv (fst sd)" using ok by (simp add: session_ok_def)
  have "e_id e \<noteq> []" and "e_id e \<notin> e_id ` set (ss_entries (fst sd))"
    using generate_id_fresh [OF fresh] inv e(2) by (simp_all add: store_inv_def indexed_def index_of_None)
  with inv e(3) have t: "tree_log (ss_entries (fst sd) @ [e]) {}"
    by (auto simp: store_inv_def tree_log_append)
  from crashed_append_loads [OF c m(1) e(1)] m(2) d
  consider "load_entries_from_file ?d (ss_file (fst sd)) = (Some h, ss_entries (fst sd))"
    | "load_entries_from_file ?d (ss_file (fst sd)) = (Some h, ss_entries (fst sd) @ [e])" by auto
  then show ?thesis
  proof cases
    case 1
    from reopened_ok [OF r 1 h(5,2,3,4)] show ?thesis by blast
  next
    case 2
    from reopened_ok [OF r 2 t h(2) _ h(4)] h(3) e(1) show ?thesis by auto
  qed
qed

lemma session_step_keeps:
  assumes "session_step sd sd'" and "session_ok sd"
  shows "session_ok sd'"
  using assms
proof (induction rule: session_step.induct)
  case (version w sd)
  then show ?case
    by (auto simp: maybe_record_agent_version_change_def storable_defs
        intro!: append_next split: option.split)
next
  case (label w sd target lab)
  then show ?case by (intro label_step)
next
  case (branch target sd)
  then show ?case by (auto simp: session_ok_def intro: branch_inv branch_persisted)
next
  case (branch_summary w sd target summary details hook)
  let ?sd = "branch target sd"
  have "session_ok ?sd"
    using branch_summary by (auto simp: session_ok_def intro: branch_inv branch_persisted)
  then show ?case
    unfolding branch_with_summary_def
    using branch_summary(1)
    by (auto simp: case_prod_beta storable_defs intro!: append_next)
next
  case (stamp w sd oi)
  then show ?case
    using store_inv_frame [OF _ stamp_invocation_frame] by (auto simp: session_ok_def intro: stamp_invocation_persisted)
next
  case (flush w sd)
  then show ?case
    using store_inv_frame [OF _ force_flush_frame] by (auto simp: session_ok_def intro: force_flush_persisted)
next
  case (reopen w dir sd sd')
  then show ?case using reopen_step by blast
next
  case (crash w sd e f f' w' dir sd')
  then show ?case using crash_step by blast
qed (auto simp: append_method_defs storable_defs intro!: append_next)

lemma new_session_store_keeps:
  assumes "startable w dir d"
  shows "session_ok (new_session_store w cwd dir d)"
proof -
  let ?file = "join_path dir (session_file_name w)"
  let ?ss = "blank_store cwd dir True"
  let ?h = "fresh_header w cwd []"
  from assms have a: "dir \<noteq> []" "check_writable w dir" "check_writable w ?file" "w_io_ok w ?file"
    "d_files d ?file = None" "w_session_uuid w \<noteq> []"
    by (simp_all add: startable_def Let_def)
  have nonempty: "?file \<noteq> []" by (simp add: join_path_def a)
  obtain d3 ok where l: "try_lock_session w ?file d = (d3, ok)" by (cases "try_lock_session w ?file d")
  then have d3: "d_files d3 = d_files d"
    by (auto simp: try_lock_session_def split: if_splits)
  let ?s = "?ss\<lparr>ss_id := w_session_uuid w, ss_header := Some ?h, ss_file := ?file,
                ss_lock := (if ok then Some ?file else None), ss_flushed := True\<rparr>"
  have new: "new_session_store w cwd dir d
      = update_sidecar w (?s, write_lines w ?file [json_of_header ?h] d3)"
    using a l d3 nonempty
    by (simp add: new_session_store_def new_session_def blank_store_def close_store_def Let_def
        write_header_only_def header_json_def)
  have "store_inv ?s" by (simp add: store_inv_def indexed_def blank_store_def labels_of_def)
  moreover have "on_disk ?s" by (simp add: on_disk_def blank_store_def nonempty)
  moreover have "storable ?s"
    by (simp add: storable_def blank_store_def storable_header_def fresh_header_def header_ok_def
        int_in_range_def a)
  moreover have "mirrored (update_sidecar w (?s, write_lines w ?file [json_of_header ?h] d3))"
    using load_written_header [of ?h None "[]" "[]"] \<open>storable ?s\<close>
    by (simp add: mirrored_def frame_simps write_lines_def set_file_def storable_def blank_store_def)
  ultimately show ?thesis by (simp add: new session_ok_def persisted_def frame_simps)
qed

lemma reachable_ok: "reachable sd \<Longrightarrow> session_ok sd"
proof (induction sd rule: reachable.induct)
  case (start w dir d cwd)
  then show ?case by (rule new_session_store_keeps)
next
  case (step sd sd')
  then show ?case by (blast intro: session_step_keeps)
qed

end
