(* ===== verification/Catalog.thy ===== *)
theory Catalog
  imports Stores SessionRun "HOL-Library.Multiset"
begin

text \<open>
  Listing sessions (\<^verbatim>\<open>ListSessions\<close>, \<^verbatim>\<open>buildSessionListInfo\<close>, \<^verbatim>\<open>MergeSessions\<close>, \<^verbatim>\<open>listRoots\<close> and
  \<^verbatim>\<open>findMostRecentSession\<close> of \<^verbatim>\<open>pkg/session/store/session.go\<close>; \<^verbatim>\<open>Catalog\<close> of
  \<^verbatim>\<open>stores.go\<close>): one summary per transcript, taken from its metadata sidecar when that is current
  and from the transcript otherwise.

  A directory is given by the names \<^verbatim>\<open>os.ReadDir\<close> returns, in its order. The worker pools of the code
  load the files of one listing in parallel; each result goes to its own slot, so the model loads
  them in order. \<^verbatim>\<open>sort.Slice\<close> leaves the order of equal times open; the model keeps them as they
  were.
\<close>

record session_list_info =
  si_path :: path
  si_id :: string
  si_cwd :: path
  si_name :: string
  si_parent :: path
  si_created :: int
  si_modified :: int
  si_count :: int
  si_first :: string
  si_store :: string
  si_read_only :: bool

definition info_of_sidecar :: "path \<Rightarrow> int \<Rightarrow> meta_sidecar \<Rightarrow> session_list_info" where
  "info_of_sidecar p mtime m =
     \<lparr>si_path = p, si_id = ms_id m, si_cwd = ms_cwd m, si_name = ms_name m,
      si_parent = ms_parent_session m, si_created = ms_created m, si_modified = mtime,
      si_count = ms_message_count m, si_first = ms_first_message m, si_store = [],
      si_read_only = False\<rparr>"

definition build_session_list_info ::
  "world \<Rightarrow> path \<Rightarrow> disk \<Rightarrow> disk \<times> session_list_info option" where
  "build_session_list_info w p d =
     (case d_files d p of
        None \<Rightarrow> (d, None)
      | Some f \<Rightarrow>
          (case read_sidecar d p (f_mtime f) of
             Some m \<Rightarrow> (d, Some (info_of_sidecar p (f_mtime f) m))
           | None \<Rightarrow>
               (case load_entries_from_file d p of
                  (None, es) \<Rightarrow> (d, None)
                | (Some h, es) \<Rightarrow>
                    let m = sidecar_of w h es (f_mtime f)
                    in (write_sidecar w p m d, Some (info_of_sidecar p (f_mtime f) m)))))"

subsection \<open>Listing a directory\<close>

fun list_infos :: "world \<Rightarrow> path list \<Rightarrow> disk \<Rightarrow> disk \<times> session_list_info list" where
  "list_infos w [] d = (d, [])"
| "list_infos w (p # ps) d =
     (case build_session_list_info w p d of (d1, oi) \<Rightarrow>
       case list_infos w ps d1 of (d2, infos) \<Rightarrow>
         (d2, case oi of None \<Rightarrow> infos | Some i \<Rightarrow> i # infos))"

definition newest_first :: "session_list_info list \<Rightarrow> session_list_info list" where
  "newest_first infos = sort_key (\<lambda>i. - si_modified i) infos"

definition max_sessions :: nat where
  "max_sessions = 200"

definition list_sessions ::
  "world \<Rightarrow> path \<Rightarrow> string list \<Rightarrow> disk \<Rightarrow> disk \<times> session_list_info list" where
  "list_sessions w dir names d =
     (let ps = take max_sessions (rev (map (join_path dir) (filter is_transcript_name names)))
      in case list_infos w ps d of (d1, infos) \<Rightarrow> (d1, newest_first infos))"

subsection \<open>Merging and roots\<close>

text \<open>\<open>resolve\<close> is \<^verbatim>\<open>filepath.EvalSymlinks\<close>, or the path itself when that fails.\<close>

fun keep_new ::
  "(path \<Rightarrow> path) \<Rightarrow> path list \<Rightarrow> session_list_info list \<Rightarrow> session_list_info list" where
  "keep_new resolve seen [] = []"
| "keep_new resolve seen (s # ss) =
     (if resolve (si_path s) \<in> set seen then keep_new resolve seen ss
      else s # keep_new resolve (resolve (si_path s) # seen) ss)"

definition merge_sessions ::
  "(path \<Rightarrow> path) \<Rightarrow> session_list_info list \<Rightarrow> session_list_info list \<Rightarrow> session_list_info list" where
  "merge_sessions resolve a b = newest_first (keep_new resolve [] (a @ b))"

fun list_dirs ::
  "world \<Rightarrow> (path \<times> string list) list \<Rightarrow> disk \<Rightarrow> disk \<times> session_list_info list" where
  "list_dirs w [] d = (d, [])"
| "list_dirs w ((dir, names) # ds) d =
     (case list_sessions w dir names d of (d1, infos) \<Rightarrow>
       case list_dirs w ds d1 of (d2, rest) \<Rightarrow> (d2, infos @ rest))"

definition list_roots ::
  "world \<Rightarrow> (path \<Rightarrow> path) \<Rightarrow> (path \<times> string list) list \<Rightarrow> disk \<Rightarrow> disk \<times> session_list_info list" where
  "list_roots w resolve dirs d =
     (case list_dirs w dirs d of (d1, infos) \<Rightarrow> (d1, newest_first (keep_new resolve [] infos)))"

subsection \<open>The most recent session\<close>

text \<open>
  The quick check of a transcript reads its first 512 bytes: a first line longer than that is cut
  and does not parse. \<open>bytes\<close> is the length of a JSON text.
\<close>

definition is_valid_session_file :: "(json \<Rightarrow> nat) \<Rightarrow> disk \<Rightarrow> path \<Rightarrow> bool" where
  "is_valid_session_file bytes d p =
     (case d_files d p of
        None \<Rightarrow> False
      | Some f \<Rightarrow>
          (case file_lines f of
             Line j # ls \<Rightarrow>
               bytes j \<le> 512 \<and>
               (case object_members j of
                  None \<Rightarrow> False
                | Some ms \<Rightarrow>
                    fill_str [] (field_vals ''type'' ms) = Some ''session''
                    \<and> (case fill_str [] (field_vals ''id'' ms) of None \<Rightarrow> False | Some i \<Rightarrow> i \<noteq> []))
           | _ \<Rightarrow> False))"

text \<open>
  The bytes \<^verbatim>\<open>"type":"message"\<close> occur in a compact JSON text when some object in it has that
  member. \<open>torn\<close> says whether torn lines hold them.
\<close>

fun mentions_message :: "json \<Rightarrow> bool" where
  "mentions_message (JObj ms) =
     ((''type'', JStr ''message'') \<in> set ms \<or> (\<exists>m \<in> set ms. mentions_message (snd m)))"
| "mentions_message (JArr js) = (\<exists>j \<in> set js. mentions_message j)"
| "mentions_message _ = False"

fun line_mentions :: "bool \<Rightarrow> disk_line \<Rightarrow> bool" where
  "line_mentions torn (Line j) = mentions_message j"
| "line_mentions torn Torn = torn"

definition session_file_has_messages :: "bool \<Rightarrow> disk \<Rightarrow> path \<Rightarrow> int \<Rightarrow> bool" where
  "session_file_has_messages torn d p mtime =
     (case read_sidecar d p mtime of
        Some m \<Rightarrow> ms_message_count m > 0
      | None \<Rightarrow>
          (case d_files d p of
             None \<Rightarrow> False
           | Some f \<Rightarrow> list_ex (line_mentions torn) (file_lines f)))"

definition candidate :: "(json \<Rightarrow> nat) \<Rightarrow> bool \<Rightarrow> disk \<Rightarrow> path \<Rightarrow> (path \<times> int) option" where
  "candidate bytes torn d p =
     (if \<not> is_valid_session_file bytes d p then None
      else case d_files d p of
          None \<Rightarrow> None
        | Some f \<Rightarrow> if session_file_has_messages torn d p (f_mtime f) then Some (p, f_mtime f) else None)"

fun later :: "(path \<times> int) \<Rightarrow> (path \<times> int) list \<Rightarrow> path \<times> int" where
  "later best [] = best"
| "later best (f # fs) = later (if snd f > snd best then f else best) fs"

definition find_most_recent_session ::
  "(json \<Rightarrow> nat) \<Rightarrow> bool \<Rightarrow> disk \<Rightarrow> path \<Rightarrow> string list \<Rightarrow> path" where
  "find_most_recent_session bytes torn d dir names =
     (case List.map_filter (candidate bytes torn d) (map (join_path dir) (filter is_transcript_name names)) of
        [] \<Rightarrow> []
      | f # fs \<Rightarrow> fst (later f fs))"

definition continue_recent_session ::
  "(json \<Rightarrow> nat) \<Rightarrow> bool \<Rightarrow> world list \<Rightarrow> path \<Rightarrow> path \<Rightarrow> string list \<Rightarrow> disk
     \<Rightarrow> (store_disk \<times> bool) option" where
  "continue_recent_session bytes torn ws cwd dir names d =
     (let most = find_most_recent_session bytes torn d dir names
      in if most \<noteq> [] then set_session_file ws most (blank_store cwd dir True, d)
         else case ws of
             [] \<Rightarrow> None
           | w # _ \<Rightarrow> Some (new_session_store w cwd dir d, False))"

subsection \<open>Read-only stores\<close>

definition remap_parent :: "disk \<Rightarrow> path \<Rightarrow> path \<Rightarrow> path" where
  "remap_parent d root parent =
     (if parent = [] then []
      else let cand = join_path (join_path root (base_name (dir_name parent))) (base_name parent)
           in if within cand root \<and> d_files d cand \<noteq> None then cand else parent)"

definition read_only_info ::
  "session_root \<Rightarrow> path \<Rightarrow> int \<Rightarrow> disk \<Rightarrow> string \<Rightarrow> session_list_info option" where
  "read_only_info s dir cutoff d name =
     (let p = join_path dir name
      in if \<not> is_transcript_name name then None
         else case d_files d p of
             None \<Rightarrow> None
           | Some f \<Rightarrow>
               if f_mtime f > cutoff then None
               else case d_sidecars d p of
                   None \<Rightarrow> None
                 | Some m \<Rightarrow>
                     let i = (if ms_id m = [] then session_id_from_file_name name else ms_id m);
                         c = (if ms_cwd m = [] then decode_cwd_dir (base_name dir) else ms_cwd m)
                     in Some ((info_of_sidecar p (f_mtime f) m)
                          \<lparr>si_id := i, si_cwd := c,
                           si_parent := remap_parent d (sr_path s) (ms_parent_session m),
                           si_store := sr_label s, si_read_only := True\<rparr>))"

definition list_read_only_dir ::
  "session_root \<Rightarrow> path \<Rightarrow> int \<Rightarrow> disk \<Rightarrow> string list \<Rightarrow> session_list_info list" where
  "list_read_only_dir s dir cutoff d names = List.map_filter (read_only_info s dir cutoff d) names"

text \<open>\<open>dirs_of\<close> gives the project directories of a store with their names.\<close>

definition list_read_only_store ::
  "session_root \<Rightarrow> (path \<times> string list) list \<Rightarrow> path \<Rightarrow> int \<Rightarrow> disk \<Rightarrow> session_list_info list" where
  "list_read_only_store s dirs cwd cutoff d =
     concat (map (\<lambda>(dir, names). list_read_only_dir s dir cutoff d names)
       (if cwd \<noteq> [] then filter (\<lambda>(dir, names). dir = join_path (sr_path s) (encode_cwd cwd)) dirs
        else dirs))"

record catalog_options =
  co_cwd :: path
  co_labels :: "string list option"
  co_extras_only :: bool

definition wanted :: "catalog_options \<Rightarrow> string \<Rightarrow> bool" where
  "wanted opts label = (case co_labels opts of None \<Rightarrow> True | Some ls \<Rightarrow> label \<in> set ls)"

definition mid_write_age :: int where
  "mid_write_age = 60000000000"

definition catalog ::
  "world \<Rightarrow> (path \<Rightarrow> path) \<Rightarrow> store_registry option \<Rightarrow> (path \<Rightarrow> (path \<times> string list) list)
     \<Rightarrow> catalog_options \<Rightarrow> disk \<Rightarrow> disk \<times> session_list_info list" where
  "catalog w resolve reg dirs_of opts d =
     (case reg of
        None \<Rightarrow> (d, [])
      | Some r \<Rightarrow>
          let own = sr_path (rg_def r);
              (d1, local) =
                (if \<not> co_extras_only opts \<and> wanted opts (sr_label (rg_def r)) then
                   (if co_cwd opts \<noteq> [] then
                      (let dir = join_path own (encode_cwd (co_cwd opts))
                       in list_sessions w dir (the_default [] (map_of (dirs_of own) dir)) d)
                    else list_roots w resolve (dirs_of own) d)
                 else (d, []));
              tagged = map (\<lambda>s. s\<lparr>si_store := sr_label (rg_def r)\<rparr>) local;
              extras = concat (map (\<lambda>s. if wanted opts (sr_label s)
                         then list_read_only_store s (dirs_of (sr_path s)) (co_cwd opts)
                                (w_clock w - mid_write_age) d1
                         else []) (rg_extras r))
          in (d1, newest_first (tagged @ extras)))"

subsection \<open>Facts\<close>

lemma newest_first_set [simp]: "set (newest_first xs) = set xs"
  by (simp add: newest_first_def)

lemma newest_first_sorted: "sorted_wrt (\<lambda>a b. si_modified b \<le> si_modified a) (newest_first xs)"
proof -
  have "sorted (map (\<lambda>i. - si_modified i) (newest_first xs))"
    by (simp add: newest_first_def)
  then show ?thesis by (simp add: sorted_map)
qed

lemma keep_new_paths:
  "distinct (map (\<lambda>s. resolve (si_path s)) (keep_new resolve seen xs))
   \<and> (\<lambda>s. resolve (si_path s)) ` set (keep_new resolve seen xs)
       = (\<lambda>s. resolve (si_path s)) ` set xs - set seen
   \<and> set (keep_new resolve seen xs) \<subseteq> set xs"
proof (induction resolve seen xs rule: keep_new.induct)
  case (2 resolve seen s ss)
  then show ?case by (cases "resolve (si_path s) \<in> set seen") (auto simp: image_iff)
qed simp

lemma newest_first_distinct:
  "distinct (map f xs) \<Longrightarrow> distinct (map f (newest_first xs))"
proof -
  assume d: "distinct (map f xs)"
  have "mset (newest_first xs) = mset xs" by (simp add: newest_first_def)
  then have "mset (map f (newest_first xs)) = mset (map f xs)" by (simp only: mset_map)
  with d show "distinct (map f (newest_first xs))" by (metis mset_eq_imp_distinct_iff)
qed

lemma later_spec: "later b fs \<in> insert b (set fs) \<and> (\<forall>f \<in> insert b (set fs). snd f \<le> snd (later b fs))"
  by (induction b fs rule: later.induct) (fastforce split: if_splits)+

text \<open>The directory behind a listing only changes by sidecars.\<close>

lemma build_info_frame:
  "d_files (fst (build_session_list_info w p d)) = d_files d
   \<and> d_locked (fst (build_session_list_info w p d)) = d_locked d"
  by (auto simp: build_session_list_info_def write_sidecar_def Let_def split: option.split prod.split)

lemma list_infos_frame: "d_files (fst (list_infos w ps d)) = d_files d"
proof (induction w ps d rule: list_infos.induct)
  case (2 w p ps d)
  from "2.IH" [of "fst (build_session_list_info w p d)" "snd (build_session_list_info w p d)"] build_info_frame [of w p d]
  show ?case by (simp add: case_prod_beta)
qed simp

text \<open>A current sidecar holds what the transcript gives, after any append that could write it.\<close>

definition sidecar_writable :: "world \<Rightarrow> path \<Rightarrow> bool" where
  "sidecar_writable w p \<longleftrightarrow> check_writable w (p @ ''.meta.json'') \<and> w_io_ok w (p @ ''.meta.json'')"

lemma append_entry_sidecar:
  assumes p: "persisted sd" and w: "can_write w (fst sd)" "sidecar_writable w (ss_file (fst sd))"
    and e: "storable_entry e" and h: "ss_header (fst sd) = Some h"
    and a: "append_entry w e sd = (ss', d')"
  shows "\<exists>f. d_files d' (ss_file ss') = Some f
    \<and> d_sidecars d' (ss_file ss') = Some (sidecar_of w h (ss_entries ss') (f_mtime f))
    \<and> load_entries_from_file d' (ss_file ss') = (Some h, ss_entries ss')"
proof -
  obtain ss d where sd: "sd = (ss, d)" by (cases sd)
  let ?ss = "ss\<lparr>ss_entries := ss_entries ss @ [e], ss_by_id := (ss_by_id ss)(e_id e \<mapsto> e),
               ss_leaf := e_id e\<rparr>"
  let ?d = "append_to w (ss_file ss) (json_of_entry e) d"
  have app: "append_entry w e sd = update_sidecar w (?ss, ?d)"
    using p w by (simp add: append_entry_def sd persist_entry_def persisted_def on_disk_def can_write_def)
  have "persisted (append_entry w e sd)" using p w(1) e by (rule append_entry_persisted)
  then have l: "load_entries_from_file d' (ss_file ss') = (ss_header ss', ss_entries ss')"
    using persisted_load a by fastforce
  obtain f where f: "d_files ?d (ss_file ss) = Some f"
    by (simp add: append_to_def set_file_def)
  with p w h have "update_sidecar w (?ss, ?d)
      = (?ss, write_sidecar w (ss_file ss) (sidecar_of w h (ss_entries ss @ [e]) (f_mtime f)) ?d)"
    by (simp add: update_sidecar_def persisted_def on_disk_def sd)
  with app a have s: "ss' = ?ss"
    "d' = write_sidecar w (ss_file ss) (sidecar_of w h (ss_entries ss @ [e]) (f_mtime f)) ?d" by simp_all
  with w(2) have "d_sidecars d' (ss_file ss)
      = Some (sidecar_of w h (ss_entries ss @ [e]) (f_mtime f))" "d_files d' = d_files ?d"
    by (simp_all add: write_sidecar_def sidecar_writable_def sd)
  with f l s h show ?thesis by (simp add: sd)
qed

lemma write_sidecar_readable:
  "sidecar_writable w p \<Longrightarrow> d_sidecars (write_sidecar w p m d) p = Some m"
  by (simp add: write_sidecar_def sidecar_writable_def)

end
