(* ===== verification/Messages.thy ===== *)
theory Messages
  imports Json
begin

text \<open>
  Conversation messages: the message types the session store, compaction and the providers share,
  and \<^verbatim>\<open>pkg/session/store/messages.go\<close>, which turns the store's custom messages into messages
  an LLM accepts.

  The types of the module \<^verbatim>\<open>github.com/kfet/ai\<close> (re-exported by \<^verbatim>\<open>pkg/ai/aliases.go\<close>) are not part
  of the repository; the datatypes below hold the fields and the role distinction the repository
  reads (\<^verbatim>\<open>AsUser\<close>, \<^verbatim>\<open>AsAssistant\<close>, \<^verbatim>\<open>AsToolResult\<close>, the content block tests), nothing else.
\<close>

subsection \<open>Messages of an LLM conversation\<close>

record text_content =
  txt_text :: string
  txt_sig :: string

record thinking_content =
  th_text :: string
  th_sig :: string
  th_redacted :: bool

record tool_call =
  tc_id :: string
  tc_name :: string
  tc_args :: members
  tc_sig :: string

record server_content =
  srv_display :: string
  srv_raw :: json

datatype assistant_content =
    CText text_content
  | CThinking thinking_content
  | CToolCall tool_call
  | CServer server_content
  | COther json

datatype stop_reason = StopStop | StopLength | StopToolUse | StopError | StopAborted | StopOther string

record usage =
  u_total :: int
  u_input :: int
  u_output :: int
  u_cache_read :: int
  u_cache_write :: int

record assistant_msg =
  am_content :: "assistant_content list"
  am_api :: string
  am_provider :: string
  am_model :: string
  am_usage :: usage
  am_stop :: stop_reason
  am_timestamp :: int

record result_content =
  rc_type :: string
  rc_text :: string
  rc_data :: string
  rc_mime :: string

record tool_result_msg =
  tr_call_id :: string
  tr_tool_name :: string
  tr_content :: "result_content list"
  tr_details :: "json option"
  tr_is_error :: bool
  tr_timestamp :: int
  tr_meta :: "json option"

record user_msg =
  um_content :: json
  um_timestamp :: int

datatype message =
    MUser user_msg
  | MAssistant assistant_msg
  | MToolResult tool_result_msg
  | MOther string

fun role_of :: "message \<Rightarrow> string" where
  "role_of (MUser _) = ''user''"
| "role_of (MAssistant _) = ''assistant''"
| "role_of (MToolResult _) = ''toolResult''"
| "role_of (MOther r) = r"

definition text_result :: "string \<Rightarrow> result_content" where
  "text_result s = \<lparr>rc_type = ''text'', rc_text = s, rc_data = [], rc_mime = []\<rparr>"

definition rc_is_text :: "result_content \<Rightarrow> bool" where
  "rc_is_text c \<longleftrightarrow> rc_type c = ''text''"

definition rc_is_image :: "result_content \<Rightarrow> bool" where
  "rc_is_image c \<longleftrightarrow> rc_type c = ''image''"

fun tool_calls_of :: "assistant_content list \<Rightarrow> tool_call list" where
  "tool_calls_of [] = []"
| "tool_calls_of (CToolCall tc # cs) = tc # tool_calls_of cs"
| "tool_calls_of (_ # cs) = tool_calls_of cs"

text \<open>The assistant turns a provider drops: \<^verbatim>\<open>StopReason\<close> error or aborted.\<close>

definition failed_stop :: "assistant_msg \<Rightarrow> bool" where
  "failed_stop a \<longleftrightarrow> am_stop a = StopError \<or> am_stop a = StopAborted"

lemma tool_calls_of_append [simp]:
  "tool_calls_of (xs @ ys) = tool_calls_of xs @ tool_calls_of ys"
  by (induction xs rule: tool_calls_of.induct) auto

lemma set_tool_calls_of: "tc \<in> set (tool_calls_of cs) \<longleftrightarrow> CToolCall tc \<in> set cs"
  by (induction cs rule: tool_calls_of.induct) auto

subsection \<open>Custom messages of the session store\<close>

record bash_execution =
  be_command :: string
  be_output :: string
  be_exit_code :: "go_int option"
  be_cancelled :: bool
  be_truncated :: bool
  be_full_output_path :: string
  be_timestamp :: int
  be_exclude :: bool

record custom_message =
  cm_custom_type :: string
  cm_content :: json
  cm_display :: bool
  cm_details :: "json option"
  cm_timestamp :: int

record branch_summary_message =
  bs_summary :: string
  bs_from_id :: entry_id
  bs_timestamp :: int

record compaction_summary_message =
  cs_summary :: string
  cs_tokens_before :: go_int
  cs_timestamp :: int

datatype custom =
    Bash bash_execution
  | CustomMsg custom_message
  | BranchSummary branch_summary_message
  | CompactionSummary compaction_summary_message
  | UnknownCustom

text \<open>
  \<^verbatim>\<open>agent.AgentMessage\<close>: either a message or, with \<^verbatim>\<open>Custom != nil\<close>, a custom message.
\<close>

datatype agent_message = Msg message | Custom custom

definition create_branch_summary_message :: "string \<Rightarrow> entry_id \<Rightarrow> int \<Rightarrow> agent_message" where
  "create_branch_summary_message summary from_id ts =
     Custom (BranchSummary \<lparr>bs_summary = summary, bs_from_id = from_id, bs_timestamp = ts\<rparr>)"

definition create_compaction_summary_message :: "string \<Rightarrow> go_int \<Rightarrow> int \<Rightarrow> agent_message" where
  "create_compaction_summary_message summary tokens_before ts =
     Custom (CompactionSummary
       \<lparr>cs_summary = summary, cs_tokens_before = tokens_before, cs_timestamp = ts\<rparr>)"

text \<open>
  A custom message's content is unmarshalled as a string when it is one, and kept raw otherwise;
  \<open>JNull\<close> stands for Go's \<^verbatim>\<open>nil\<close> (unmarshalling \<^verbatim>\<open>null\<close> into a string yields the empty string).
\<close>

definition create_custom_message ::
  "string \<Rightarrow> json option \<Rightarrow> bool \<Rightarrow> json option \<Rightarrow> int \<Rightarrow> agent_message" where
  "create_custom_message custom_type content display details ts =
     Custom (CustomMsg
       \<lparr>cm_custom_type = custom_type,
        cm_content = (case content of None \<Rightarrow> JNull
                      | Some JNull \<Rightarrow> JStr []
                      | Some j \<Rightarrow> j),
        cm_display = display, cm_details = details, cm_timestamp = ts\<rparr>)"

subsection \<open>Conversion to LLM messages\<close>

definition nl :: string where
  "nl = [newline]"

definition fence :: string where
  "fence = ''```''"

definition compaction_summary_prefix :: string where
  "compaction_summary_prefix =
     ''The conversation history before this point was compacted into the following summary:''
     @ nl @ nl @ ''<summary>'' @ nl"

definition compaction_summary_suffix :: string where
  "compaction_summary_suffix =
     nl @ ''</summary>'' @ nl @ nl
     @ ''Note on references in the summary above:'' @ nl
     @ ''- `path (entry <id>)` lines under `<read-files>` / `<modified-files>` point at the ''
     @ ''session-store entry where that file was last touched. The full pre-compaction history ''
     @ ''still exists on disk, but is no longer in your context.'' @ nl
     @ ''- `[entry <id> tool=<name> bytes=<n> head='' @ [CHR 0x22] @ ''...'' @ [CHR 0x22]
     @ '' tail='' @ [CHR 0x22] @ ''...'' @ [CHR 0x22]
     @ '']` is a pointer-stub: a large/old tool result was elided to keep the summary compact. ''
     @ ''Treat it as a reference, not data '' @ [CHR 0xE2, CHR 0x80, CHR 0x94]
     @ '' do not invent content for it. If you need the actual output to continue, re-run the ''
     @ ''command or re-`read` the file rather than guess.''"

definition branch_summary_prefix :: string where
  "branch_summary_prefix =
     ''The following is a summary of a branch that this conversation came back from:''
     @ nl @ nl @ ''<summary>'' @ nl"

definition branch_summary_suffix :: string where
  "branch_summary_suffix = ''</summary>''"

definition bash_execution_to_text :: "bash_execution \<Rightarrow> string" where
  "bash_execution_to_text m =
     (let t1 = ''Ran `'' @ be_command m @ ''`'' @ nl;
          t2 = (if be_output m \<noteq> [] then t1 @ fence @ nl @ be_output m @ nl @ fence
                else t1 @ ''(no output)'');
          t3 = (if be_cancelled m then t2 @ nl @ nl @ ''(command cancelled)''
                else case be_exit_code m of
                    Some c \<Rightarrow> if c \<noteq> 0 then t2 @ nl @ nl @ ''Command exited with code '' @ itoa c else t2
                  | None \<Rightarrow> t2)
      in if be_truncated m \<and> be_full_output_path m \<noteq> []
         then t3 @ nl @ nl @ ''[Output truncated. Full output: '' @ be_full_output_path m @ '']''
         else t3)"

definition user_text :: "string \<Rightarrow> int \<Rightarrow> message" where
  "user_text s ts = MUser \<lparr>um_content = JStr s, um_timestamp = ts\<rparr>"

fun convert_custom_to_llm :: "custom \<Rightarrow> message option" where
  "convert_custom_to_llm (Bash m) =
     (if be_exclude m then None
      else Some (user_text (bash_execution_to_text m) (be_timestamp m)))"
| "convert_custom_to_llm (BranchSummary m) =
     Some (user_text (branch_summary_prefix @ bs_summary m @ branch_summary_suffix) (bs_timestamp m))"
| "convert_custom_to_llm (CompactionSummary m) =
     Some (user_text (compaction_summary_prefix @ cs_summary m @ compaction_summary_suffix)
             (cs_timestamp m))"
| "convert_custom_to_llm (CustomMsg m) =
     Some (MUser \<lparr>um_content = cm_content m, um_timestamp = cm_timestamp m\<rparr>)"
| "convert_custom_to_llm UnknownCustom = None"

fun convert_to_llm :: "agent_message list \<Rightarrow> message list" where
  "convert_to_llm [] = []"
| "convert_to_llm (Custom c # ms) =
     (case convert_custom_to_llm c of
        None \<Rightarrow> convert_to_llm ms
      | Some m \<Rightarrow> m # convert_to_llm ms)"
| "convert_to_llm (Msg m # ms) =
     (if role_of m \<in> {''user'', ''assistant'', ''toolResult''} then m # convert_to_llm ms
      else convert_to_llm ms)"

subsection \<open>Facts about the conversion\<close>

lemma convert_to_llm_append [simp]:
  "convert_to_llm (xs @ ys) = convert_to_llm xs @ convert_to_llm ys"
  by (induction xs rule: convert_to_llm.induct) (auto split: option.splits)

lemma convert_custom_role: "convert_custom_to_llm c = Some m \<Longrightarrow> role_of m = ''user''"
  by (cases c) (auto simp: user_text_def split: if_splits)

lemma convert_to_llm_roles:
  "m \<in> set (convert_to_llm ms) \<Longrightarrow> role_of m \<in> {''user'', ''assistant'', ''toolResult''}"
  by (induction ms rule: convert_to_llm.induct)
    (auto split: option.splits if_splits dest: convert_custom_role)

lemma bash_text_mentions_output:
  assumes "be_output m \<noteq> []"
  shows "\<exists>a b. bash_execution_to_text m = a @ be_output m @ b"
proof -
  let ?h = "''Ran `'' @ be_command m @ ''`'' @ nl @ fence @ nl"
  have "\<exists>b. bash_execution_to_text m = ?h @ be_output m @ b"
    using assms unfolding bash_execution_to_text_def Let_def
    by (simp split: option.split)
  then show ?thesis by blast
qed

end
