(* ===== verification/ToolRepair.thy ===== *)
theory ToolRepair
  imports Messages "HOL-Library.Sublist"
begin

text \<open>
  Repairing tool calls that were never answered (\<^verbatim>\<open>pkg/session/store/orphan.go\<close>): a process killed
  while a tool runs leaves an assistant message whose call has no result, and on resume a
  synthetic error result is put in right after it.

  The locale \<open>tool_repair\<close> is the contract such a repair offers, met here by
  \<^verbatim>\<open>SynthesizeInterruptedToolResults\<close> and again by the providers' own pass.
\<close>

subsection \<open>The contract of a repair\<close>

locale tool_repair =
  fixes repair :: "'m list \<Rightarrow> 'm list"
    and complete :: "'m list \<Rightarrow> bool"
    and kept :: "'m \<Rightarrow> bool"
  assumes repair_complete: "complete (repair ms)"
    and complete_fixed: "complete ms \<Longrightarrow> repair ms = ms"
    and repair_keeps: "subseq (filter kept ms) (repair ms)"
begin

lemma repair_idem: "repair (repair ms) = repair ms"
  by (rule complete_fixed) (rule repair_complete)

lemma repair_fixed_iff: "repair ms = ms \<longleftrightarrow> complete ms"
  by (metis repair_complete complete_fixed)

lemma repair_keeps_mem: "m \<in> set ms \<Longrightarrow> kept m \<Longrightarrow> m \<in> set (repair ms)"
proof -
  assume m: "m \<in> set ms" "kept m"
  obtain N where "filter kept ms = nths (repair ms) N"
    using repair_keeps [of ms] unfolding subseq_conv_nths by blast
  then have "set (filter kept ms) \<subseteq> set (repair ms)" by (metis set_nths_subset)
  with m show "m \<in> set (repair ms)" by auto
qed

end

subsection \<open>Synthesized results\<close>

definition interrupted_tool_result_text :: string where
  "interrupted_tool_result_text =
     ''<system>Tool call interrupted: the agent process was terminated before this tool returned. ''
     @ ''The tool MAY OR MAY NOT have executed '' @ [CHR 0xE2, CHR 0x80, CHR 0x94]
     @ '' any side effects (file writes, commands run, network requests) are UNKNOWN. ''
     @ ''Do not assume either outcome; verify the current state before retrying.</system>''"

definition interrupted_key :: string where
  "interrupted_key = ''interruptedToolCall''"

definition is_interrupted_tool_result :: "tool_result_msg \<Rightarrow> bool" where
  "is_interrupted_tool_result tr =
     (case tr_details tr of
        Some (JObj d) \<Rightarrow> (case get_bool d interrupted_key of Some b \<Rightarrow> b | None \<Rightarrow> False)
      | _ \<Rightarrow> False)"

definition new_interrupted_tool_result :: "tool_call \<Rightarrow> int \<Rightarrow> agent_message" where
  "new_interrupted_tool_result tc ts =
     Msg (MToolResult
       \<lparr>tr_call_id = tc_id tc, tr_tool_name = tc_name tc,
        tr_content = [text_result interrupted_tool_result_text],
        tr_details = Some (JObj [(interrupted_key, JBool True)]),
        tr_is_error = True, tr_timestamp = ts, tr_meta = None\<rparr>)"

text \<open>First pass: the ids answered anywhere.\<close>

fun answered_ids :: "agent_message list \<Rightarrow> string list" where
  "answered_ids [] = []"
| "answered_ids (Msg (MToolResult tr) # ms) = tr_call_id tr # answered_ids ms"
| "answered_ids (_ # ms) = answered_ids ms"

text \<open>
  The results put in after one assistant message, and the ids answered from then on. A repeated id
  is answered once.
\<close>

fun synthesize_calls ::
  "string list \<Rightarrow> int \<Rightarrow> tool_call list \<Rightarrow> agent_message list \<times> string list" where
  "synthesize_calls answered ts [] = ([], answered)"
| "synthesize_calls answered ts (tc # tcs) =
     (if tc_id tc \<in> set answered then synthesize_calls answered ts tcs
      else case synthesize_calls (tc_id tc # answered) ts tcs of
          (out, answered') \<Rightarrow> (new_interrupted_tool_result tc ts # out, answered'))"

fun synthesize_pass :: "string list \<Rightarrow> agent_message list \<Rightarrow> agent_message list" where
  "synthesize_pass answered [] = []"
| "synthesize_pass answered (Msg (MAssistant a) # ms) =
     (if failed_stop a then Msg (MAssistant a) # synthesize_pass answered ms
      else case synthesize_calls answered (am_timestamp a) (tool_calls_of (am_content a)) of
          (out, answered') \<Rightarrow> Msg (MAssistant a) # out @ synthesize_pass answered' ms)"
| "synthesize_pass answered (m # ms) = m # synthesize_pass answered ms"

definition synthesize_interrupted_tool_results :: "agent_message list \<Rightarrow> agent_message list" where
  "synthesize_interrupted_tool_results ms =
     (if ms = [] then ms else synthesize_pass (answered_ids ms) ms)"

subsection \<open>The repair meets its contract\<close>

fun live_calls :: "agent_message \<Rightarrow> string list" where
  "live_calls (Msg (MAssistant a)) =
     (if failed_stop a then [] else map tc_id (tool_calls_of (am_content a)))"
| "live_calls _ = []"

definition all_answered :: "agent_message list \<Rightarrow> bool" where
  "all_answered ms \<longleftrightarrow> (\<forall>m \<in> set ms. set (live_calls m) \<subseteq> set (answered_ids ms))"

lemma answered_ids_append [simp]: "answered_ids (xs @ ys) = answered_ids xs @ answered_ids ys"
  by (induction xs rule: answered_ids.induct) auto

lemma answered_new [simp]: "answered_ids (new_interrupted_tool_result tc ts # ms) = tc_id tc # answered_ids ms"
  by (simp add: new_interrupted_tool_result_def)

lemma synthesize_calls_ids:
  "set (snd (synthesize_calls answered ts tcs)) = set answered \<union> tc_id ` set tcs"
  by (induction answered ts tcs rule: synthesize_calls.induct) (auto simp: case_prod_beta)

lemma synthesize_calls_answers:
  "set (answered_ids (fst (synthesize_calls answered ts tcs))) = tc_id ` set tcs - set answered"
  by (induction answered ts tcs rule: synthesize_calls.induct) (auto simp: case_prod_beta)

lemma synthesize_calls_live:
  "m \<in> set (fst (synthesize_calls answered ts tcs)) \<Longrightarrow> live_calls m = []"
  by (induction answered ts tcs rule: synthesize_calls.induct)
    (auto simp: case_prod_beta new_interrupted_tool_result_def split: if_splits)

lemma synthesize_calls_none:
  "tc_id ` set tcs \<subseteq> set answered \<Longrightarrow> synthesize_calls answered ts tcs = ([], answered)"
  by (induction tcs) auto

lemma synthesize_pass_keeps: "subseq ms (synthesize_pass answered ms)"
  by (induction answered ms rule: synthesize_pass.induct)
    (auto split: prod.split intro: list_emb_append2)

lemma answered_ids_mono: "set (answered_ids ms) \<subseteq> set (answered_ids (synthesize_pass ans ms))"
  by (induction ans ms rule: synthesize_pass.induct) (auto split: prod.splits)

lemma synthesize_pass_answers:
  "m \<in> set (synthesize_pass ans ms) \<Longrightarrow>
     set (live_calls m) \<subseteq> set ans \<union> set (answered_ids (synthesize_pass ans ms))"
proof (induction ans ms arbitrary: m rule: synthesize_pass.induct)
  case (2 ans a ms)
  show ?case
  proof (cases "failed_stop a")
    case True
    with 2 show ?thesis by auto
  next
    case False
    obtain out ans' where s:
      "synthesize_calls ans (am_timestamp a) (tool_calls_of (am_content a)) = (out, ans')"
      by (cases "synthesize_calls ans (am_timestamp a) (tool_calls_of (am_content a))")
    have spec: "set ans' = set ans \<union> tc_id ` set (tool_calls_of (am_content a))"
      "set (answered_ids out) = tc_id ` set (tool_calls_of (am_content a)) - set ans"
      "\<And>m. m \<in> set out \<Longrightarrow> live_calls m = []"
      using synthesize_calls_ids [of ans "am_timestamp a" "tool_calls_of (am_content a)"]
        synthesize_calls_answers [of ans "am_timestamp a" "tool_calls_of (am_content a)"]
        synthesize_calls_live [of _ ans "am_timestamp a" "tool_calls_of (am_content a)"]
      by (simp_all add: s)
    have IH: "m \<in> set (synthesize_pass ans' ms) \<Longrightarrow>
        set (live_calls m) \<subseteq> set ans' \<union> set (answered_ids (synthesize_pass ans' ms))"
      using "2.IH"(2) [OF False s [symmetric]] by blast
    show ?thesis
      using "2.prems" IH spec False by (auto simp: s)
  qed
qed (auto)

lemma synthesize_pass_id:
  "(\<And>m. m \<in> set ms \<Longrightarrow> set (live_calls m) \<subseteq> set ans) \<Longrightarrow> synthesize_pass ans ms = ms"
proof (induction ans ms rule: synthesize_pass.induct)
  case (2 ans a ms)
  show ?case
  proof (cases "failed_stop a")
    case True
    with 2 show ?thesis by auto
  next
    case False
    obtain out ans' where s:
      "synthesize_calls ans (am_timestamp a) (tool_calls_of (am_content a)) = (out, ans')"
      by (cases "synthesize_calls ans (am_timestamp a) (tool_calls_of (am_content a))")
    from "2.prems" [of "Msg (MAssistant a)"] False
    have "tc_id ` set (tool_calls_of (am_content a)) \<subseteq> set ans" by simp
    then have "out = []" "ans' = ans" using s by (simp_all add: synthesize_calls_none)
    with "2.IH"(2) [OF False s [symmetric]] "2.prems" False s show ?thesis by simp
  qed
qed auto

lemma synthesize_all_answered: "all_answered (synthesize_interrupted_tool_results ms)"
proof (cases "ms = []")
  case True
  then show ?thesis by (simp add: all_answered_def synthesize_interrupted_tool_results_def)
next
  case False
  let ?out = "synthesize_pass (answered_ids ms) ms"
  have "set (live_calls m) \<subseteq> set (answered_ids ?out)" if "m \<in> set ?out" for m
    using synthesize_pass_answers [OF that] answered_ids_mono [of ms "answered_ids ms"] by blast
  with False show ?thesis
    by (simp add: all_answered_def synthesize_interrupted_tool_results_def)
qed

interpretation orphan_repair:
  tool_repair synthesize_interrupted_tool_results all_answered "\<lambda>_. True"
proof unfold_locales
  fix ms
  show "all_answered (synthesize_interrupted_tool_results ms)" by (rule synthesize_all_answered)
  show "synthesize_interrupted_tool_results ms = ms" if "all_answered ms"
    using that by (auto simp: synthesize_interrupted_tool_results_def all_answered_def
        intro: synthesize_pass_id)
  show "subseq (filter (\<lambda>_. True) ms) (synthesize_interrupted_tool_results ms)"
    by (simp add: synthesize_interrupted_tool_results_def synthesize_pass_keeps)
qed

end
