(* ===== verification/SessionContext.thy ===== *)
theory SessionContext
  imports SessionRun ToolRepair
begin

text \<open>
  The context a session gives the LLM (\<^verbatim>\<open>BuildSessionContextFromEntries\<close> of
  \<^verbatim>\<open>pkg/session/store/session.go\<close>) and the entries at which it can be forked
  (\<^verbatim>\<open>pkg/session/store/fork_at.go\<close>): the path from the leaf to the root is scanned for the settings
  in force and the last compaction, and turned into messages, the summary standing for everything
  before the first kept entry.

  Decoding a stored message or plan into the external types, and reading a timestamp, are the
  parameter \<open>decoders\<close>.
\<close>

record decoders =
  dc_message :: "json \<Rightarrow> message option"
  dc_plan :: "json \<Rightarrow> json list"
  dc_time :: "string \<Rightarrow> int"

record session_context =
  sc_messages :: "agent_message list"
  sc_thinking :: string
  sc_model :: "(string \<times> string) option"
  sc_plan :: "json list"
  sc_plan_title :: string
  sc_plan_metadata :: "(string \<times> string) list"

definition off_context :: session_context where
  "off_context = \<lparr>sc_messages = [], sc_thinking = ''off'', sc_model = None, sc_plan = [],
     sc_plan_title = [], sc_plan_metadata = []\<rparr>"

subsection \<open>Scanning the path\<close>

record path_scan =
  sn_thinking :: string
  sn_model :: "(string \<times> string) option"
  sn_compaction :: "session_entry option"
  sn_plan :: "json option"
  sn_plan_title :: string
  sn_plan_metadata :: "(string \<times> string) list"

definition start_scan :: path_scan where
  "start_scan = \<lparr>sn_thinking = ''off'', sn_model = None, sn_compaction = None, sn_plan = None,
     sn_plan_title = [], sn_plan_metadata = []\<rparr>"

text \<open>The \<^verbatim>\<open>Role\<close>/\<^verbatim>\<open>Provider\<close>/\<^verbatim>\<open>Model\<close> probe of a stored message.\<close>

definition probe_model :: "json \<Rightarrow> (string \<times> string \<times> string) option" where
  "probe_model j = do {
     ms \<leftarrow> object_members j;
     role \<leftarrow> fill_str [] (field_vals ''role'' ms);
     provider \<leftarrow> fill_str [] (field_vals ''provider'' ms);
     model \<leftarrow> fill_str [] (field_vals ''model'' ms);
     Some (role, provider, model)
   }"

definition scan_entry :: "session_entry \<Rightarrow> path_scan \<Rightarrow> path_scan" where
  "scan_entry e s =
     (if e_type e = ''thinking_level_change'' then s\<lparr>sn_thinking := e_thinking_level e\<rparr>
      else if e_type e = ''model_change'' then s\<lparr>sn_model := Some (e_provider e, e_model_id e)\<rparr>
      else if e_type e = ''message'' then
        (case Option.bind (e_message e) probe_model of
           Some (role, provider, model) \<Rightarrow>
             if role = ''assistant'' then s\<lparr>sn_model := Some (provider, model)\<rparr> else s
         | None \<Rightarrow> s)
      else if e_type e = ''compaction'' then s\<lparr>sn_compaction := Some e\<rparr>
      else if e_type e = ''plan_update'' then
        s\<lparr>sn_plan := e_plan_entries e, sn_plan_title := e_plan_title e,
          sn_plan_metadata := e_plan_metadata e\<rparr>
      else s)"

definition scan_path :: "session_entry list \<Rightarrow> path_scan" where
  "scan_path path = fold scan_entry path start_scan"

subsection \<open>Messages of the path\<close>

definition entry_messages :: "decoders \<Rightarrow> session_entry \<Rightarrow> agent_message list" where
  "entry_messages dc e =
     (if e_type e = ''message'' then
        (case Option.bind (e_message e) (dc_message dc) of Some m \<Rightarrow> [Msg m] | None \<Rightarrow> [])
      else if e_type e = ''branch_summary'' then
        (if e_summary e \<noteq> [] then
           [create_branch_summary_message (e_summary e) (e_from_id e) (dc_time dc (e_timestamp e))]
         else [])
      else [])"

text \<open>The loop over the entries before the compaction: nothing until the first kept one.\<close>

fun kept_messages ::
  "decoders \<Rightarrow> entry_id \<Rightarrow> bool \<Rightarrow> session_entry list \<Rightarrow> agent_message list" where
  "kept_messages dc first found [] = []"
| "kept_messages dc first found (e # es) =
     (let found' = (found \<or> e_id e = first)
      in (if found' then entry_messages dc e else []) @ kept_messages dc first found' es)"

fun compaction_index :: "session_entry list \<Rightarrow> entry_id \<Rightarrow> nat \<Rightarrow> nat option" where
  "compaction_index [] i n = None"
| "compaction_index (e # es) i n =
     (if e_type e = ''compaction'' \<and> e_id e = i then Some n else compaction_index es i (Suc n))"

definition path_messages ::
  "decoders \<Rightarrow> session_entry list \<Rightarrow> session_entry option \<Rightarrow> agent_message list" where
  "path_messages dc path compacted =
     (case compacted of
        None \<Rightarrow> concat (map (entry_messages dc) path)
      | Some c \<Rightarrow>
          create_compaction_summary_message (e_summary c) (e_tokens_before c)
            (dc_time dc (e_timestamp c))
          # (case compaction_index path (e_id c) 0 of
               None \<Rightarrow> concat (map (entry_messages dc) path)
             | Some i \<Rightarrow>
                 kept_messages dc (e_first_kept c) False (take i path)
                 @ concat (map (entry_messages dc) (drop (Suc i) path))))"

subsection \<open>Building the context\<close>

definition context_of_path :: "decoders \<Rightarrow> session_entry list \<Rightarrow> session_context" where
  "context_of_path dc path =
     (let s = scan_path path
      in \<lparr>sc_messages =
            synthesize_interrupted_tool_results (path_messages dc path (sn_compaction s)),
          sc_thinking = sn_thinking s, sc_model = sn_model s,
          sc_plan = (case sn_plan s of None \<Rightarrow> [] | Some j \<Rightarrow> dc_plan dc j),
          sc_plan_title = sn_plan_title s, sc_plan_metadata = sn_plan_metadata s\<rparr>)"

definition context_leaf ::
  "session_entry list \<Rightarrow> entry_id \<Rightarrow> (entry_id \<Rightarrow> session_entry option) \<Rightarrow> session_entry option" where
  "context_leaf es leaf by_id =
     (case (if leaf \<noteq> [] then by_id leaf else None) of
        Some e \<Rightarrow> Some e
      | None \<Rightarrow> if es \<noteq> [] then Some (last es) else None)"

text \<open>\<open>None\<close> is a walk that does not return (a cycle of parents).\<close>

definition build_session_context_from_entries ::
  "decoders \<Rightarrow> session_entry list \<Rightarrow> entry_id \<Rightarrow> (entry_id \<Rightarrow> session_entry option) option
     \<Rightarrow> session_context option" where
  "build_session_context_from_entries dc es leaf by_id_opt =
     (let by_id = the_default (index_of es) by_id_opt
      in if leaf = [] \<and> es = [] then Some off_context
         else case context_leaf es leaf by_id of
             None \<Rightarrow> Some off_context
           | Some e \<Rightarrow> map_option (context_of_path dc) (ascend by_id e_parent [] e []))"

definition build_session_context :: "decoders \<Rightarrow> session_store \<Rightarrow> session_context option" where
  "build_session_context dc ss =
     build_session_context_from_entries dc (ss_entries ss) (ss_leaf ss) (Some (ss_by_id ss))"

subsection \<open>Entries at which a session can be forked\<close>

text \<open>\<^verbatim>\<open>danglingToolUse\<close>, from the last message back.\<close>

fun dangling_from_end :: "agent_message list \<Rightarrow> bool" where
  "dangling_from_end [] = False"
| "dangling_from_end (Msg (MToolResult tr) # ms) =
     (is_interrupted_tool_result tr \<or> dangling_from_end ms)"
| "dangling_from_end (_ # ms) = False"

definition dangling_tool_use :: "session_context \<Rightarrow> bool" where
  "dangling_tool_use ctx = dangling_from_end (rev (sc_messages ctx))"

fun forkable_from_end ::
  "decoders \<Rightarrow> session_store \<Rightarrow> session_entry list \<Rightarrow> entry_id option" where
  "forkable_from_end dc ss [] = Some []"
| "forkable_from_end dc ss (e # es) =
     (case build_session_context_from_entries dc (ss_entries ss) (e_id e) (Some (ss_by_id ss)) of
        None \<Rightarrow> None
      | Some ctx \<Rightarrow>
          if \<not> dangling_tool_use ctx then Some (e_id e) else forkable_from_end dc ss es)"

definition forkable_leaf_id :: "decoders \<Rightarrow> session_store \<Rightarrow> entry_id option" where
  "forkable_leaf_id dc ss =
     (case get_branch ss (ss_leaf ss) of
        None \<Rightarrow> None
      | Some path \<Rightarrow> forkable_from_end dc ss (rev path))"

definition leaf_id_if_forkable :: "decoders \<Rightarrow> session_store \<Rightarrow> entry_id option" where
  "leaf_id_if_forkable dc ss =
     (if ss_leaf ss = [] then Some []
      else case build_session_context_from_entries dc (ss_entries ss) (ss_leaf ss)
                  (Some (ss_by_id ss)) of
          None \<Rightarrow> None
        | Some ctx \<Rightarrow> if dangling_tool_use ctx then Some [] else Some (ss_leaf ss))"

definition forkable_leaf_id_of_file :: "decoders \<Rightarrow> disk \<Rightarrow> path \<Rightarrow> entry_id option" where
  "forkable_leaf_id_of_file dc d p =
     (case load_entries_from_file d p of
        (None, es) \<Rightarrow> Some []
      | (Some h, es) \<Rightarrow>
          forkable_leaf_id dc
            (build_index ((blank_store [] [] False)\<lparr>ss_header := Some h, ss_entries := es\<rparr>)))"

end
