(* ===== verification/ContextFacts.thy ===== *)
theory ContextFacts
  imports SessionContext
begin

text \<open>
  Facts about branches and contexts: in a well-formed store every walk returns the chain from a
  root to the entry; the context is the compaction summary, the kept entries and what follows;
  appending never changes the context of an entry already there.
\<close>

subsection \<open>Branches of a tree log\<close>

lemma tree_log_parent:
  "tree_log es ids \<Longrightarrow> e \<in> set es \<Longrightarrow> e_parent e = [] \<or> e_parent e \<in> e_id ` set es \<union> ids"
  by (induction es arbitrary: ids) fastforce+

lemma tree_walk:
  assumes t: "tree_log es {}" and e: "index_of es i = Some e"
  shows "\<exists>above. ascend (index_of es) e_parent [] e [] = Some (above @ [e])
           \<and> linked (index_of es) e_parent [] (above @ [e])
           \<and> e_parent (hd (above @ [e])) = []
           \<and> set (above @ [e]) \<subseteq> set es \<and> distinct (map e_id (above @ [e]))"
proof -
  note ac = tree_log_acyclic [OF t]
  obtain above where w: "ascend (index_of es) e_parent [] e [] = Some (above @ [e])"
      and l: "linked (index_of es) e_parent [] (above @ [e])"
      and top: "top_of (index_of es) e_parent [] (hd (above @ [e]))"
    using log_forest.ascend_chain [OF ac e] by blast
  have idx: "\<exists>j. index_of es j = Some x" if x: "x \<in> set (above @ [e])" for x
  proof -
    obtain k where k: "k < length (above @ [e])" "(above @ [e]) ! k = x"
      using x by (metis in_set_conv_nth)
    show ?thesis
    proof (cases "Suc k < length (above @ [e])")
      case True
      with l k(2) show ?thesis unfolding linked_def by blast
    next
      case False
      with k have "x = e" by (simp add: nth_append)
      with e show ?thesis by blast
    qed
  qed
  then have sub: "set (above @ [e]) \<subseteq> set es" using index_of_SomeD by blast
  have "e_parent (hd (above @ [e])) = []"
  proof (rule ccontr)
    assume n: "e_parent (hd (above @ [e])) \<noteq> []"
    have "hd (above @ [e]) \<in> set es" using sub by (cases above) auto
    with tree_log_parent [OF t] n have "e_parent (hd (above @ [e])) \<in> e_id ` set es" by blast
    with top n show False by (simp add: top_of_def index_of_None)
  qed
  moreover have "distinct (map e_id (above @ [e]))"
  proof -
    have "sorted_wrt (\<lambda>a b. log_rank es a < log_rank es b) (above @ [e])"
      using log_forest.linked_ranks [OF ac l] idx by blast
    then have "sorted_wrt (\<lambda>a b. e_id a \<noteq> e_id b) (above @ [e])"
      by (rule sorted_wrt_mono_rel [rotated]) (auto simp: log_rank_def)
    then show ?thesis by (rule sorted_wrt_neq_distinct)
  qed
  ultimately show ?thesis using w l sub by blast
qed


lemma index_of_mono:
  assumes "tree_log (es @ later) {}" and "index_of es i = Some e"
  shows "index_of (es @ later) i = Some e"
proof -
  from assms(2) have "e \<in> set es" and "e_id e = i" using index_of_SomeD by auto
  moreover from assms(1) have "distinct (map e_id (es @ later))" using tree_log_distinct by blast
  ultimately show ?thesis using index_of_distinct [of "es @ later" e] by simp
qed

text \<open>Appending to the log does not change the branch of an entry already there.\<close>

lemma walk_append:
  assumes t: "tree_log (es @ later) {}" and e: "index_of es i = Some e"
  shows "ascend (index_of (es @ later)) e_parent [] e [] = ascend (index_of es) e_parent [] e []"
proof -
  from t have "tree_log es {}" by (simp add: tree_log_append)
  then obtain above where "ascend (index_of es) e_parent [] e [] = Some (above @ [e])"
      and "e_parent (hd (above @ [e])) = []"
    using tree_walk [OF _ e] by blast
  moreover from this have "ascend (index_of (es @ later)) e_parent [] e [] = Some (above @ [e])"
    by (rule ascend_extend) (rule index_of_mono [OF t])
  ultimately show ?thesis by simp
qed

lemma store_inv_index: "store_inv ss \<Longrightarrow> ss_by_id ss = index_of (ss_entries ss)"
  by (simp add: store_inv_def indexed_def)

lemma store_inv_tree: "store_inv ss \<Longrightarrow> tree_log (ss_entries ss) {}"
  by (simp add: store_inv_def)

lemma store_inv_leaf:
  assumes "store_inv ss" and "ss_leaf ss \<noteq> []"
  shows "\<exists>e. ss_by_id ss (ss_leaf ss) = Some e"
  using assms index_of_None [of "ss_entries ss" "ss_leaf ss"]
  by (auto simp: store_inv_def indexed_def)

lemma get_branch_some:
  assumes "store_inv ss" and "ss_by_id ss i = Some e" and "i \<noteq> []"
  shows "\<exists>above. get_branch ss i = Some (above @ [e])
           \<and> linked (ss_by_id ss) e_parent [] (above @ [e])
           \<and> e_parent (hd (above @ [e])) = []
           \<and> set (above @ [e]) \<subseteq> set (ss_entries ss) \<and> distinct (map e_id (above @ [e]))"
  using tree_walk [OF store_inv_tree [OF assms(1)], of i e] assms
  by (simp add: get_branch_def store_inv_index)

lemma branch_is_chain':
  assumes "store_inv ss" and "get_branch ss i = Some path"
  shows "distinct (map e_id path)" and "set path \<subseteq> set (ss_entries ss)"
proof -
  have "distinct (map e_id path) \<and> set path \<subseteq> set (ss_entries ss)"
  proof (cases "path = []")
    case False
    then obtain start e where e: "index_of (ss_entries ss) start = Some e"
        and w: "ascend (index_of (ss_entries ss)) e_parent [] e [] = Some path"
      using assms(2) store_inv_index [OF assms(1)]
      by (auto simp: get_branch_def Let_def split: option.splits)
    with tree_walk [OF store_inv_tree [OF assms(1)] e] show ?thesis by auto
  qed simp
  then show "distinct (map e_id path)" "set path \<subseteq> set (ss_entries ss)" by simp_all
qed

text \<open>The branch of an entry appended at the leaf: the old branch and the entry.\<close>

lemma branch_of_append:
  assumes inv: "store_inv ss" and leaf: "ss_leaf ss \<noteq> []" and b: "get_branch ss [] = Some path"
    and e: "e_parent e = ss_leaf ss" "e_id e \<noteq> []" "ss_by_id ss (e_id e) = None"
    and get: "get' = (ss_by_id ss)(e_id e \<mapsto> e)"
  shows "ascend get' e_parent [] e [] = Some (path @ [e])"
proof -
  obtain l where l: "ss_by_id ss (ss_leaf ss) = Some l" using store_inv_leaf [OF inv leaf] by blast
  have w: "ascend (ss_by_id ss) e_parent [] l [] = Some path" using b l by (simp add: get_branch_def)
  have top: "e_parent (hd path) = []"
    using tree_walk [OF store_inv_tree [OF inv], of "ss_leaf ss" l] l w store_inv_index [OF inv] by auto
  have "ascend get' e_parent [] l [] = Some path"
    using w top by (rule ascend_extend) (use e(3) get in auto)
  from ascend_acc [OF this, of "[e]"] have "ascend get' e_parent [] l [e] = Some (path @ [e])" by simp
  moreover have "get' (e_parent e) = Some l" using l e get by auto
  ultimately show ?thesis
    using e(1) leaf by (simp add: ascend.simps [of get' e_parent "[]" e "[]"])
qed

subsection \<open>Contexts\<close>

lemma kept_messages_found: "kept_messages dc first True es = concat (map (entry_messages dc) es)"
  by (induction es) auto

lemma kept_messages_dropWhile:
  "kept_messages dc first False es
     = concat (map (entry_messages dc) (dropWhile (\<lambda>e. e_id e \<noteq> first) es))"
  by (induction es) (auto simp: kept_messages_found)

lemma compaction_index_skip:
  "\<forall>e \<in> set pre. e_id e \<noteq> i \<Longrightarrow> compaction_index (pre @ es) i n = compaction_index es i (n + length pre)"
  by (induction pre arbitrary: n) auto

lemma path_messages_compacted:
  assumes "distinct (map e_id (pre @ c # post))" and "e_type c = ''compaction''"
  shows "path_messages dc (pre @ c # post) (Some c)
       = create_compaction_summary_message (e_summary c) (e_tokens_before c) (dc_time dc (e_timestamp c))
         # concat (map (entry_messages dc) (dropWhile (\<lambda>e. e_id e \<noteq> e_first_kept c) pre))
         @ concat (map (entry_messages dc) post)"
proof -
  from assms(1) have "e_id c \<notin> e_id ` set pre" by auto
  then have "\<forall>e \<in> set pre. e_id e \<noteq> e_id c" by (metis imageI)
  then have "compaction_index (pre @ c # post) (e_id c) 0 = Some (length pre)"
    using assms(2) by (simp add: compaction_index_skip)
  then show ?thesis by (simp add: path_messages_def kept_messages_dropWhile)
qed

lemma scan_entry_compaction:
  "sn_compaction (scan_entry e s) = (if e_type e = ''compaction'' then Some e else sn_compaction s)"
  by (auto simp: scan_entry_def split: option.split)

lemma scan_no_compaction:
  "\<forall>e \<in> set post. e_type e \<noteq> ''compaction'' \<Longrightarrow>
     sn_compaction (fold scan_entry post s) = sn_compaction s"
  by (induction post arbitrary: s) (auto simp: scan_entry_compaction)

lemma scan_last_compaction:
  assumes "e_type c = ''compaction''" and "\<forall>e \<in> set post. e_type e \<noteq> ''compaction''"
  shows "sn_compaction (scan_path (pre @ c # post)) = Some c"
  using assms by (simp add: scan_path_def scan_no_compaction scan_entry_compaction)

text \<open>
  What the code does for a stored context: with \<open>c\<close> the last compaction on the path, its summary,
  then the messages from the first kept entry on, then everything after it.
\<close>

definition compacted_view ::
  "decoders \<Rightarrow> session_entry list \<Rightarrow> session_entry \<Rightarrow> session_entry list \<Rightarrow> agent_message list" where
  "compacted_view dc pre c post =
     create_compaction_summary_message (e_summary c) (e_tokens_before c) (dc_time dc (e_timestamp c))
     # concat (map (entry_messages dc) (dropWhile (\<lambda>e. e_id e \<noteq> e_first_kept c) pre))
     @ concat (map (entry_messages dc) post)"

lemma context_of_compacted_path:
  assumes "distinct (map e_id (pre @ c # post))" and "e_type c = ''compaction''"
    and "\<forall>e \<in> set post. e_type e \<noteq> ''compaction''"
  shows "sc_messages (context_of_path dc (pre @ c # post))
           = synthesize_interrupted_tool_results (compacted_view dc pre c post)"
  using scan_last_compaction [OF assms(2,3)] path_messages_compacted [OF assms(1,2)]
  by (simp add: context_of_path_def Let_def compacted_view_def)

lemma context_of_plain_path:
  assumes "\<forall>e \<in> set path. e_type e \<noteq> ''compaction''"
  shows "sc_messages (context_of_path dc path)
           = synthesize_interrupted_tool_results (concat (map (entry_messages dc) path))"
  using scan_no_compaction [OF assms, of start_scan]
  by (simp add: context_of_path_def Let_def scan_path_def start_scan_def path_messages_def)

lemma context_answered: "all_answered (sc_messages (context_of_path dc path))"
  by (simp add: context_of_path_def Let_def synthesize_all_answered)

lemma build_context_leaf:
  assumes "store_inv ss" and "ss_by_id ss i = Some e" and "i \<noteq> []"
  shows "\<exists>path. get_branch ss i = Some path \<and>
     build_session_context_from_entries dc (ss_entries ss) i (Some (ss_by_id ss))
       = Some (context_of_path dc path)"
proof -
  obtain path where p: "get_branch ss i = Some path" using get_branch_some [OF assms] by blast
  with assms(2,3) have "ascend (ss_by_id ss) e_parent [] e [] = Some path"
    by (simp add: get_branch_def)
  with assms(2,3) p show ?thesis
    by (simp add: build_session_context_from_entries_def context_leaf_def)
qed

lemma context_append:
  assumes t: "tree_log (es @ later) {}" and e: "index_of es i = Some e" and "i \<noteq> []"
  shows "build_session_context_from_entries dc (es @ later) i None
       = build_session_context_from_entries dc es i None"
  using walk_append [OF t e] index_of_mono [OF t e] e assms(3)
  by (simp add: build_session_context_from_entries_def context_leaf_def)

subsection \<open>Forkable entries\<close>

lemma forkable_from_end_spec:
  assumes "forkable_from_end dc ss es = Some i" and "i \<noteq> []"
  shows "\<exists>newer e older ctx. es = newer @ e # older \<and> i = e_id e
     \<and> build_session_context_from_entries dc (ss_entries ss) i (Some (ss_by_id ss)) = Some ctx
     \<and> \<not> dangling_tool_use ctx
     \<and> (\<forall>x \<in> set newer. \<exists>c. build_session_context_from_entries dc (ss_entries ss) (e_id x)
            (Some (ss_by_id ss)) = Some c \<and> dangling_tool_use c)"
  using assms
proof (induction dc ss es rule: forkable_from_end.induct)
  case (1 dc ss)
  then show ?case by simp
next
  case (2 dc ss e es)
  then obtain ctx where c:
    "build_session_context_from_entries dc (ss_entries ss) (e_id e) (Some (ss_by_id ss)) = Some ctx"
    by (auto split: option.splits)
  show ?case
  proof (cases "dangling_tool_use ctx")
    case False
    with 2 c show ?thesis by (intro exI [of _ "[]"]) auto
  next
    case True
    with 2 c have "\<exists>newer e older ctx. es = newer @ e # older \<and> i = e_id e
       \<and> build_session_context_from_entries dc (ss_entries ss) i (Some (ss_by_id ss)) = Some ctx
       \<and> \<not> dangling_tool_use ctx
       \<and> (\<forall>x \<in> set newer. \<exists>c. build_session_context_from_entries dc (ss_entries ss) (e_id x)
            (Some (ss_by_id ss)) = Some c \<and> dangling_tool_use c)"
      by simp
    then obtain newer e' older ctx' where "es = newer @ e' # older" "i = e_id e'"
       "build_session_context_from_entries dc (ss_entries ss) i (Some (ss_by_id ss)) = Some ctx'"
       "\<not> dangling_tool_use ctx'"
       "\<forall>x \<in> set newer. \<exists>c. build_session_context_from_entries dc (ss_entries ss) (e_id x)
            (Some (ss_by_id ss)) = Some c \<and> dangling_tool_use c"
      by blast
    with c True show ?thesis
      by (intro exI [of _ "e # newer"] exI [of _ e'] exI [of _ older] exI [of _ ctx']) auto
  qed
qed

end
