(* ===== verification/BranchCopy.thy ===== *)
theory BranchCopy
  imports ContextFacts
begin

text \<open>
  What \<^verbatim>\<open>CreateBranchedSession\<close> (\<^verbatim>\<open>pkg/session/store/session.go\<close>) copies. Along a branch without label
  entries the copy is the branch followed by fresh label entries, and rebuilds the same context. The
  copy drops the label entries of the branch but not the links to them: an entry whose parent was a
  label becomes a root of the copy, and everything before it is out of reach.
\<close>

subsection \<open>Chains\<close>

fun chain :: "entry_id \<Rightarrow> session_entry list \<Rightarrow> bool" where
  "chain p [] = True"
| "chain p (e # es) = (e_parent e = p \<and> chain (e_id e) es)"

lemma chain_append:
  "chain p (xs @ ys) \<longleftrightarrow> chain p xs \<and> chain (if xs = [] then p else e_id (last xs)) ys"
  by (induction xs arbitrary: p) auto

lemma chain_snoc:
  "chain p (xs @ [e]) \<longleftrightarrow> chain p xs \<and> e_parent e = (if xs = [] then p else e_id (last xs))"
  by (auto simp: chain_append)

lemma linked_chain:
  assumes "linked get e_parent [] path" and "\<And>i x. get i = Some x \<Longrightarrow> e_id x = i" and "path \<noteq> []"
  shows "chain (e_parent (hd path)) path"
  using assms(1,3)
proof (induction path rule: induct_list012)
  case (3 x y zs)
  then have "get (e_parent y) = Some x" and l: "linked get e_parent [] (y # zs)"
    by (auto simp: linked_Cons)
  with assms(2) have "e_parent y = e_id x" by auto
  with "3.IH"(2) l show ?case by simp
qed auto

lemma chain_walk:
  assumes "chain p es" and "es \<noteq> []" and "p = [] \<or> get p = None"
    and "\<And>x. x \<in> set es \<Longrightarrow> get (e_id x) = Some x \<and> e_id x \<noteq> []"
  shows "ascend get e_parent [] (last es) acc = Some (es @ acc)"
  using assms
proof (induction es arbitrary: acc rule: rev_induct)
  case Nil
  then show ?case by simp
next
  case (snoc e es)
  show ?case
  proof (cases "es = []")
    case True
    with snoc.prems show ?thesis
      by (auto simp: ascend.simps [of get e_parent "[]" e acc] split: option.splits)
  next
    case False
    with snoc.prems(1) have c: "chain p es" "e_parent e = e_id (last es)" by (auto simp: chain_snoc)
    with snoc.prems(4) [of "last es"] False
    have "get (e_parent e) = Some (last es)" "e_parent e \<noteq> []" by auto
    then have "ascend get e_parent [] e acc = ascend get e_parent [] (last es) (e # acc)"
      by (simp add: ascend.simps [of get e_parent "[]" e acc])
    also have "\<dots> = Some (es @ e # acc)"
      using snoc.IH [OF c(1) False snoc.prems(3)] snoc.prems(4) by simp
    finally show ?thesis by simp
  qed
qed

subsection \<open>The label entries of a copy\<close>

text \<open>
  Each label entry of a copy may use up 101 draws; the draws of one copy differ from each other and
  from the ids of the log.
\<close>

definition draw_bound :: "session_store \<Rightarrow> nat" where
  "draw_bound ss = 101 * length (ss_labels ss)"

definition fresh_draws :: "world \<Rightarrow> session_store \<Rightarrow> bool" where
  "fresh_draws w ss \<longleftrightarrow>
     inj_on (draw_id w) {..<draw_bound ss}
     \<and> (\<forall>i < draw_bound ss. draw_id w i \<noteq> [] \<and> draw_id w i \<notin> e_id ` set (ss_entries ss))"

lemma generate_id_excluding_fresh:
  assumes "store_inv ss" and "fresh_draws w ss" and "off < draw_bound ss"
    and "draw_id w off \<notin> set taken"
  shows "generate_id_excluding w off ss taken = draw_id w off"
proof -
  have "ss_by_id ss (draw_id w off) = None"
    using assms(1,2,3) by (simp add: fresh_draws_def store_inv_index index_of_None)
  moreover have "[off..<off + 100] = off # [Suc off..<off + 100]" by (simp add: upt_conv_Cons)
  ultimately show ?thesis using assms(4) by (simp add: generate_id_excluding_def del: upt_Suc)
qed

lemma label_entries_spec:
  assumes "store_inv ss" and "fresh_draws w ss"
    and "\<forall>i. off \<le> i \<and> i < draw_bound ss \<longrightarrow> draw_id w i \<notin> set taken"
    and "off + 101 * length ls \<le> draw_bound ss"
  shows "chain parent (label_entries w off ss taken parent ls)
    \<and> e_id ` set (label_entries w off ss taken parent ls) \<subseteq> draw_id w ` {off..<draw_bound ss}
    \<and> distinct (map e_id (label_entries w off ss taken parent ls))
    \<and> (\<forall>e \<in> set (label_entries w off ss taken parent ls). e_type e = ''label'')"
  using assms(3,4)
proof (induction ls arbitrary: off taken parent)
  case Nil
  then show ?case by simp
next
  case (Cons l ls)
  obtain target lab where l: "l = (target, lab)" by (cases l)
  let ?i = "draw_id w off"
  have off: "off < draw_bound ss" using Cons.prems(2) by simp
  have g: "generate_id_excluding w off ss taken = ?i"
    using Cons.prems(1) off by (intro generate_id_excluding_fresh [OF assms(1,2)]) simp_all
  have inj: "draw_id w i = ?i \<longleftrightarrow> i = off" if "i < draw_bound ss" for i
    using assms(2) that off unfolding fresh_draws_def by (metis inj_onD lessThan_iff)
  have "\<forall>i. off + 101 \<le> i \<and> i < draw_bound ss \<longrightarrow> draw_id w i \<notin> set (?i # taken)"
    using Cons.prems(1) inj by auto
  from Cons.IH [OF this, of ?i] Cons.prems(2) have rest:
    "chain ?i (label_entries w (off + 101) ss (?i # taken) ?i ls)"
    "e_id ` set (label_entries w (off + 101) ss (?i # taken) ?i ls)
       \<subseteq> draw_id w ` {off + 101..<draw_bound ss}"
    "distinct (map e_id (label_entries w (off + 101) ss (?i # taken) ?i ls))"
    "\<forall>e \<in> set (label_entries w (off + 101) ss (?i # taken) ?i ls). e_type e = ''label''"
    by auto
  moreover have "?i \<notin> e_id ` set (label_entries w (off + 101) ss (?i # taken) ?i ls)"
  proof
    assume "?i \<in> e_id ` set (label_entries w (off + 101) ss (?i # taken) ?i ls)"
    with rest(2) have "?i \<in> draw_id w ` {off + 101..<draw_bound ss}" by blast
    then obtain k where "off + 101 \<le> k" "k < draw_bound ss" "draw_id w k = ?i" by auto
    with inj show False by auto
  qed
  moreover have "draw_id w ` {off + 101..<draw_bound ss} \<subseteq> draw_id w ` {off..<draw_bound ss}"
    by (rule image_mono) auto
  moreover have "?i \<in> draw_id w ` {off..<draw_bound ss}" using off by simp
  ultimately show ?case by (auto simp: l g Let_def zero_entry_def)
qed

text \<open>Label entries say nothing to the LLM and change no setting.\<close>

lemma label_messages: "e_type e = ''label'' \<Longrightarrow> entry_messages dc e = [] \<and> scan_entry e s = s"
  by (simp add: entry_messages_def scan_entry_def)

lemma concat_labels:
  "\<forall>e \<in> set ls. e_type e = ''label'' \<Longrightarrow> concat (map (entry_messages dc) ls) = []"
  by (induction ls) (auto simp: label_messages)

lemma scan_labels: "\<forall>e \<in> set ls. e_type e = ''label'' \<Longrightarrow> fold scan_entry ls s = s"
  by (induction ls) (auto simp: label_messages)

lemma compaction_index_append_labels:
  "\<forall>e \<in> set ls. e_type e = ''label'' \<Longrightarrow> compaction_index (path @ ls) i n = compaction_index path i n"
proof (induction path arbitrary: n)
  case Nil
  then show ?case by (induction ls arbitrary: n) auto
qed auto

lemma compaction_index_bound: "compaction_index path i n = Some k \<Longrightarrow> n \<le> k \<and> k < n + length path"
  by (induction path arbitrary: n) (fastforce split: if_splits)+

lemma context_append_labels:
  assumes "\<forall>e \<in> set ls. e_type e = ''label''"
  shows "context_of_path dc (path @ ls) = context_of_path dc path"
proof -
  have "path_messages dc (path @ ls) c = path_messages dc path c" for c
    using assms
    by (auto simp: path_messages_def concat_labels compaction_index_append_labels
        dest: compaction_index_bound split: option.split)
  with assms show ?thesis by (simp add: context_of_path_def scan_path_def scan_labels)
qed

subsection \<open>The copy and its branch\<close>

lemma branch_is_chain:
  assumes "store_inv ss" and "get_branch ss i = Some path" and "path \<noteq> []"
  shows "chain [] path" and "set path \<subseteq> set (ss_entries ss)" and "distinct (map e_id path)"
proof -
  have branch: "\<exists>start e. ss_by_id ss start = Some e \<and> ascend (ss_by_id ss) e_parent [] e [] = Some path"
    using assms(2,3) by (auto simp: get_branch_def Let_def split: option.splits)
  then obtain start e where e: "index_of (ss_entries ss) start = Some e"
      and w: "ascend (index_of (ss_entries ss)) e_parent [] e [] = Some path"
    using store_inv_index [OF assms(1)] by auto
  with tree_walk [OF store_inv_tree [OF assms(1)] e] have p:
    "linked (index_of (ss_entries ss)) e_parent [] path" "e_parent (hd path) = []"
    "set path \<subseteq> set (ss_entries ss)" "distinct (map e_id path)" by auto
  from linked_chain [OF p(1) _ assms(3)] index_of_SomeD p(2) show "chain [] path" by fastforce
  from p show "set path \<subseteq> set (ss_entries ss)" "distinct (map e_id path)" by auto
qed

text \<open>The entries after the last label of a branch, and what the copy's own walk finds.\<close>

definition after_last_label :: "session_entry list \<Rightarrow> session_entry list" where
  "after_last_label path = rev (takeWhile (\<lambda>e. e_type e \<noteq> ''label'') (rev path))"

lemma after_last_label_split:
  "\<exists>pre. path = pre @ after_last_label path
     \<and> (pre = [] \<or> e_type (last pre) = ''label'')
     \<and> filter (\<lambda>e. e_type e \<noteq> ''label'') path
         = filter (\<lambda>e. e_type e \<noteq> ''label'') pre @ after_last_label path"
proof -
  let ?p = "\<lambda>e. e_type e \<noteq> ''label''"
  let ?pre = "rev (dropWhile ?p (rev path))"
  have eq: "path = ?pre @ after_last_label path"
    unfolding after_last_label_def by (metis rev_append rev_rev_ident takeWhile_dropWhile_id)
  have suf: "filter ?p (after_last_label path) = after_last_label path"
    by (auto simp: after_last_label_def filter_id_conv dest: set_takeWhileD)
  have "filter ?p path = filter ?p ?pre @ filter ?p (after_last_label path)"
    using arg_cong [OF eq, of "filter ?p"] by (simp only: filter_append)
  then have "filter ?p path = filter ?p ?pre @ after_last_label path" unfolding suf .
  moreover have "?pre = [] \<or> e_type (last ?pre) = ''label''"
    using hd_dropWhile [of ?p "rev path"] by (cases "dropWhile ?p (rev path) = []") (auto simp: last_rev)
  ultimately show ?thesis using eq by blast
qed

lemma copy_branch:
  assumes inv: "store_inv ss" and b: "get_branch ss i = Some path" and nonempty_suffix: "after_last_label path \<noteq> []"
    and fresh: "fresh_draws w ss"
  shows "\<exists>labs. (\<forall>e \<in> set labs. e_type e = ''label'')
     \<and> branch_copy w ss path = filter (\<lambda>e. e_type e \<noteq> ''label'') path @ labs
     \<and> ascend (index_of (branch_copy w ss path)) e_parent [] (last (branch_copy w ss path)) []
         = Some (after_last_label path @ labs)
     \<and> (\<forall>x \<in> set (branch_copy w ss path). e_id x \<noteq> [])"
proof -
  define kept where "kept = filter (\<lambda>e. e_type e \<noteq> ''label'') path"
  define suf where "suf = after_last_label path"
  obtain pre where pre: "path = pre @ suf" "pre = [] \<or> e_type (last pre) = ''label''"
      "kept = filter (\<lambda>e. e_type e \<noteq> ''label'') pre @ suf"
    using after_last_label_split [of path] unfolding kept_def suf_def by blast
  have ne: "suf \<noteq> []" using nonempty_suffix by (simp add: suf_def)
  from ne pre(1) have path: "path \<noteq> []" by auto
  note bc = branch_is_chain [OF inv b path]
  have sufkept: "last kept = last suf" "kept \<noteq> []" using pre(3) ne by auto
  have kept_sub: "set kept \<subseteq> set path" by (auto simp: kept_def)
  define labs where "labs = label_entries w 0 ss (map e_id kept) (e_id (last suf))
      (filter (\<lambda>l. fst l \<in> set (map e_id kept)) (ss_labels ss))"
  have copy: "branch_copy w ss path = kept @ labs"
    using sufkept by (simp add: branch_copy_def Let_def labs_def kept_def [symmetric])
  have draws: "\<forall>i. 0 \<le> i \<and> i < draw_bound ss \<longrightarrow> draw_id w i \<notin> set (map e_id kept)"
    using fresh bc(2) kept_sub by (auto simp: fresh_draws_def)
  have "0 + 101 * length (filter (\<lambda>l. fst l \<in> set (map e_id kept)) (ss_labels ss)) \<le> draw_bound ss"
    by (simp add: draw_bound_def)
  note spec = label_entries_spec [OF inv fresh draws this, of "e_id (last suf)"]
  have lc: "chain (e_id (last suf)) labs"
    and li: "e_id ` set labs \<subseteq> draw_id w ` {0..<draw_bound ss}"
    and ld: "distinct (map e_id labs)" and ll: "\<forall>e \<in> set labs. e_type e = ''label''"
    unfolding labs_def using spec by blast+
  have disj: "e_id ` set labs \<inter> e_id ` set path = {}"
  proof -
    have "e_id ` set path \<subseteq> e_id ` set (ss_entries ss)" using bc(2) by (rule image_mono)
    moreover have "draw_id w ` {0..<draw_bound ss} \<inter> e_id ` set (ss_entries ss) = {}"
    proof -
      have "\<forall>i < draw_bound ss. draw_id w i \<notin> e_id ` set (ss_entries ss)"
        using fresh by (simp add: fresh_draws_def)
      then show ?thesis by auto
    qed
    ultimately show ?thesis by (rule disjoint_mono [OF li])
  qed
  have "distinct (map e_id kept)" using bc(3) unfolding kept_def by (rule distinct_map_filter)
  moreover have "e_id ` set kept \<inter> e_id ` set labs = {}"
    using disjoint_mono [OF subset_refl image_mono [OF kept_sub] disj] by (simp add: Int_commute)
  ultimately have dist: "distinct (map e_id (kept @ labs))" using ld by simp
  have nonempty: "e_id x \<noteq> []" if x: "x \<in> set (kept @ labs)" for x
  proof (cases "x \<in> set labs")
    case True
    then have "e_id x \<in> draw_id w ` {0..<draw_bound ss}" using li by (metis imageI subsetD)
    then obtain k where "k < draw_bound ss" "e_id x = draw_id w k" by auto
    with fresh show ?thesis by (simp add: fresh_draws_def)
  next
    case False
    with x kept_sub bc(2) have "e_id x \<in> e_id ` set (ss_entries ss)" by auto
    with tree_log_distinct [OF store_inv_tree [OF inv]] show ?thesis by metis
  qed
  let ?p = "e_parent (hd suf)"
  have chain: "chain ?p (suf @ labs)"
  proof -
    from bc(1) pre(1) have "chain (if pre = [] then [] else e_id (last pre)) suf"
      by (metis chain_append)
    with ne have "chain ?p suf" by (cases suf) auto
    with lc ne show ?thesis by (simp add: chain_append)
  qed
  have top: "?p = [] \<or> index_of (kept @ labs) ?p = None"
  proof (cases "pre = []")
    case True
    with bc(1) pre(1) ne show ?thesis by (cases suf) auto
  next
    case False
    with bc(1) pre(1) ne have p: "?p = e_id (last pre)"
      by (cases suf) (auto simp: chain_append dest: arg_cong [where f = "chain []"])
    have lp: "last pre \<in> set path" "e_type (last pre) = ''label''"
      using False pre(1,2) by (metis Un_iff last_in_set set_append, simp)
    have "e_id (last pre) \<notin> e_id ` set kept"
    proof
      assume "e_id (last pre) \<in> e_id ` set kept"
      then obtain x where "x \<in> set path" "e_type x \<noteq> ''label''" "e_id x = e_id (last pre)"
        unfolding kept_def by auto
      with bc(3) lp show False by (metis distinct_map inj_onD)
    qed
    moreover have "e_id (last pre) \<notin> e_id ` set labs" using disj lp(1) by blast
    ultimately show ?thesis by (simp add: p index_of_None image_Un)
  qed
  have walk: "ascend (index_of (kept @ labs)) e_parent [] (last (suf @ labs)) []
      = Some ((suf @ labs) @ [])"
  proof (rule chain_walk [OF chain])
    show "suf @ labs \<noteq> []" using ne by simp
    show "e_parent (hd suf) = [] \<or> index_of (kept @ labs) (e_parent (hd suf)) = None" by (rule top)
    fix x assume "x \<in> set (suf @ labs)"
    then have x: "x \<in> set (kept @ labs)" unfolding pre(3) by auto
    show "index_of (kept @ labs) (e_id x) = Some x \<and> e_id x \<noteq> []"
      using index_of_distinct [OF dist x] nonempty [OF x] by simp
  qed
  have "last (suf @ labs) = last (kept @ labs)" using sufkept ne by (cases labs) auto
  with walk copy ll nonempty show ?thesis
    by (intro exI [of _ labs]) (simp add: kept_def suf_def)
qed

lemma after_last_label_plain:
  "\<forall>e \<in> set path. e_type e \<noteq> ''label'' \<Longrightarrow> after_last_label path = path"
  by (simp add: after_last_label_def takeWhile_eq_all_conv [THEN iffD2])

text \<open>The store after the copy, whether it is written to disk or not.\<close>

lemma create_branched_session_store:
  assumes "create_branched_session w leaf (ss, d) = Some ((ss', d'), Inr file)"
    and "get_branch ss leaf = Some path"
  shows "ss_entries ss' = branch_copy w ss path \<and> ss_by_id ss' = index_of (ss_entries ss')
     \<and> ss_header ss' = Some (branch_header w ss) \<and> path \<noteq> []
     \<and> ss_leaf ss' = (if ss_entries ss' = [] then [] else e_id (last (ss_entries ss')))"
  using assms
  by (auto simp: create_branched_session_def build_index_fields Let_def split: if_splits list.splits)

lemma copy_context:
  assumes inv: "store_inv ss" and b: "get_branch ss leaf = Some path"
    and fresh: "fresh_draws w ss" and ne: "after_last_label path \<noteq> []"
    and c: "create_branched_session w leaf (ss, d) = Some ((ss', d'), Inr file)"
  shows "\<exists>labs. (\<forall>e \<in> set labs. e_type e = ''label'')
     \<and> get_branch ss' [] = Some (after_last_label path @ labs)
     \<and> build_session_context dc ss' = Some (context_of_path dc (after_last_label path))"
proof -
  from copy_branch [OF inv b ne fresh] obtain labs where labs: "\<forall>e \<in> set labs. e_type e = ''label''"
    and copy: "branch_copy w ss path = filter (\<lambda>e. e_type e \<noteq> ''label'') path @ labs"
    and walk: "ascend (index_of (branch_copy w ss path)) e_parent [] (last (branch_copy w ss path)) []
         = Some (after_last_label path @ labs)"
    and ids: "\<forall>x \<in> set (branch_copy w ss path). e_id x \<noteq> []" by blast
  note st = create_branched_session_store [OF c b]
  let ?es = "branch_copy w ss path"
  have "set (after_last_label path) \<subseteq> set ?es"
    unfolding copy by (auto simp: after_last_label_def dest: set_takeWhileD)
  with ne have nonempty: "?es \<noteq> []" by auto
  then have "?es = butlast ?es @ [last ?es]" by simp
  then have idx: "index_of ?es (e_id (last ?es)) = Some (last ?es)"
    by (metis fun_upd_same index_of_snoc)
  have leaf: "ss_leaf ss' = e_id (last ?es)" "ss_leaf ss' \<noteq> []"
    using st nonempty ids by auto
  have by_id: "ss_by_id ss' = index_of ?es" using st by simp
  have "get_branch ss' [] = Some (after_last_label path @ labs)"
    by (simp add: get_branch_def by_id leaf(1) idx walk)
  moreover have "build_session_context dc ss' = Some (context_of_path dc (after_last_label path @ labs))"
    using leaf(2)
    by (simp add: build_session_context_def build_session_context_from_entries_def context_leaf_def
        by_id leaf(1) idx walk)
  ultimately show ?thesis using labs context_append_labels [OF labs] by auto
qed

end
