(* ===== verification/Samples.thy ===== *)
theory Samples
  imports BranchCopy
begin

text \<open>
  Concrete worlds, disks and sessions: the inputs at which the properties are applied.
\<close>

definition sample_world :: "char \<Rightarrow> world" where
  "sample_world c =
     \<lparr>w_uuid = (\<lambda>i. [c, char_of i]), w_session_uuid = ''0198-session'',
      w_now = ''2025-01-01T00:00:00.000Z'', w_clock = 7, w_version = ''1.4.0'', w_commit = ''f00d'',
      w_read_only = (\<lambda>_. None), w_store_dir = (\<lambda>p. p), w_parse_time = (\<lambda>_. 0), w_format_time = (\<lambda>_. ''t''),
      w_io_ok = (\<lambda>_. True)\<rparr>"

definition empty_disk :: disk where
  "empty_disk = \<lparr>d_files = Map.empty, d_sidecars = Map.empty, d_locked = (\<lambda>_. False)\<rparr>"

definition user_json :: "string \<Rightarrow> json" where
  "user_json s = JObj [(''role'', JStr ''user''), (''content'', JStr s)]"

definition sample_start :: store_disk where
  "sample_start = new_session_store (sample_world CHR ''0'') ''/repo'' ''/sessions'' empty_disk"

definition sample_one :: store_disk where
  "sample_one = append_message (sample_world CHR ''a'') (Some (user_json ''hello'')) sample_start"

definition sample_two :: store_disk where
  "sample_two = append_message (sample_world CHR ''b'') (Some (user_json ''again'')) sample_one"

lemma sample_world_simps [simp]:
  "w_uuid (sample_world c) i = [c, char_of i]" "draw_id (sample_world c) i = [c, char_of i]"
  "check_writable (sample_world c) p" "w_io_ok (sample_world c) p"
  "w_session_uuid (sample_world c) = ''0198-session''" "w_read_only (sample_world c) p = None"
  by (simp_all add: sample_world_def check_writable_def draw_id_def)

lemma sample_generate_id:
  "(\<And>i::nat. ss_by_id ss [c, char_of i] = None) \<Longrightarrow> generate_id (sample_world c) ss = [c, char_of (0::nat)]"
  by (simp add: generate_id_def upt_conv_Cons [of 0 100] del: upt_rec_numeral)

lemma sample_now [simp]: "w_now (sample_world c) = ''2025-01-01T00:00:00.000Z''"
  by (simp add: sample_world_def)

lemma sample_fresh:
  "(\<And>i::nat. ss_by_id ss [c, char_of i] = None) \<Longrightarrow> fresh_world (sample_world c) ss"
  by (simp add: fresh_world_def) (rule exI [of _ 0], simp)

lemma sample_can_write [simp]: "can_write (sample_world c) ss"
  by (simp add: can_write_def)

lemma sample_startable: "startable (sample_world c) ''/sessions'' empty_disk"
  by (simp add: startable_def Let_def empty_disk_def)

lemma sample_start_reachable: "reachable sample_start"
  unfolding sample_start_def by (rule reachable.start [OF sample_startable])

lemma sample_start_store:
  "ss_entries (fst sample_start) = []" "ss_by_id (fst sample_start) = Map.empty"
  "ss_labels (fst sample_start) = []" "ss_leaf (fst sample_start) = []"
  by (auto simp: sample_start_def new_session_store_def new_session_def blank_store_def
      close_store_def try_lock_session_def write_header_only_def update_sidecar_store Let_def)

lemma sample_one_reachable: "reachable sample_one"
  unfolding sample_one_def
  by (rule reachable.step [OF sample_start_reachable], rule session_step.message)
    (simp add: ready_def sample_fresh sample_start_store)

lemma sample_one_store:
  "ss_entries (fst sample_one) =
     [zero_entry\<lparr>e_type := ''message'', e_id := [CHR ''a'', char_of (0::nat)], e_parent := [],
        e_timestamp := ''2025-01-01T00:00:00.000Z'', e_message := Some (user_json ''hello'')\<rparr>]"
  "dom (ss_by_id (fst sample_one)) = {[CHR ''a'', char_of (0::nat)]}"
  "ss_leaf (fst sample_one) = [CHR ''a'', char_of (0::nat)]"
  "ss_labels (fst sample_one) = []"
  by (simp_all add: sample_one_def append_message_def frame_simps sample_start_store next_entry_def
      sample_generate_id)

lemma sample_two_reachable: "reachable sample_two"
proof -
  have "ss_by_id (fst sample_one) [CHR ''b'', char_of i] = None" for i :: nat
  proof -
    have "[CHR ''b'', char_of i] \<notin> dom (ss_by_id (fst sample_one))" by (simp only: sample_one_store(2)) simp
    then show ?thesis by (simp add: domIff)
  qed
  then have "ready (sample_world CHR ''b'') sample_one" by (simp add: ready_def sample_fresh)
  then show ?thesis
    unfolding sample_two_def by (rule reachable.step [OF sample_one_reachable session_step.message])
qed

end
