(* ===== verification/StoreProps.thy ===== *)
theory StoreProps
  imports Samples
begin

text \<open>
  Properties of the session store: its log, its transcript on disk, the index rebuilt from it, and
  what a crash can cost.
\<close>

subsection \<open>Every reachable session\<close>



text \<open>
  C3: in every reachable state, torn lines of earlier crashes included, the transcript on disk loads back to exactly the header and the
  entries the store holds in memory, so a process that opens the file sees what the store saw.
\<close>

theorem reachable_reload:
  assumes "reachable sd"
  shows "load_entries_from_file (snd sd) (ss_file (fst sd))
           = (ss_header (fst sd), ss_entries (fst sd))"
  using reachable_ok [OF assms] persisted_load by (simp add: session_ok_def)

theorem reachable_reload_witness:
  "load_entries_from_file (snd sample_two) (ss_file (fst sample_two))
     = (ss_header (fst sample_two), ss_entries (fst sample_two))"
  by (rule reachable_reload [OF sample_two_reachable])

text \<open>
  rebuilding the index of a reachable session from its log (\<^verbatim>\<open>buildIndex\<close>, run when a file is
  opened) gives back the index and the labels the append methods maintained step by step; only the
  leaf moves, to the last entry.
\<close>

theorem build_index_reachable:
  assumes "reachable sd"
  shows "build_index (fst sd)
    = (fst sd)\<lparr>ss_leaf := (if ss_entries (fst sd) = [] then [] else e_id (last (ss_entries (fst sd))))\<rparr>"
  using reachable_ok [OF assms]
  by (simp add: build_index_fields session_ok_def store_inv_def indexed_def)

theorem build_index_reachable_witness:
  "build_index (fst sample_one) = (fst sample_one)\<lparr>ss_leaf := [CHR ''a'', char_of (0::nat)]\<rparr>"
  using build_index_reachable [OF sample_one_reachable] by (simp add: sample_one_store)

subsection \<open>Crashes\<close>

text \<open>
  C10: a process killed while appending an entry to an intact transcript, and a later process that
  repairs the trailing newline before its own append, lose nothing that was there: after the second
  append the file loads the old entries, possibly the interrupted one, and the new one.
\<close>

theorem crash_repair_append:
  assumes crash: "crashed_append (json_of_entry e) f f'" and "f_tail f = None"
    and "storable_entry e" and new: "storable_entry e'"
    and at: "d_files d p = Some f'" and w: "check_writable w p" "w_io_ok w p"
    and old: "load_lines None [] (file_lines f) = (h, es)"
  shows "load_entries_from_file (append_to w p (json_of_entry e') (repair_trailing_newline w p d)) p
           \<in> {(h, es @ [e']), (h, es @ [e, e'])}"
proof -
  define r where "r = append_to w p (json_of_entry e') (repair_trailing_newline w p d)"
  obtain g where g: "d_files r p = Some g" and
      "file_lines g = file_lines (append_line (json_of_entry e') (repaired f'))"
    using at w
    by (auto simp: r_def append_to_def repair_trailing_newline_def set_file_def repaired_def
        append_line_def file_lines_def split: option.splits)
  then have "load_entries_from_file r p
      = (fst (load_lines None [] (file_lines f')), snd (load_lines None [] (file_lines f')) @ [e'])"
    using append_after_repair [OF new, of f'] by (simp add: load_entries_from_file_def)
  then show ?thesis
    using crashed_append_loads [OF crash assms(2,3)] old unfolding r_def by auto
qed

definition sample_entry :: "string \<Rightarrow> session_entry" where
  "sample_entry i = zero_entry\<lparr>e_type := ''message'', e_id := i, e_message := Some (user_json i)\<rparr>"

lemma sample_entry_storable [simp]: "storable_entry (sample_entry i)"
  by (simp add: sample_entry_def storable_entry_def entry_ok_def zero_entry_def)

definition intact_file :: dfile where
  "intact_file = \<lparr>f_lines = [Line (json_of_entry (sample_entry ''a''))], f_tail = None, f_mtime = 3\<rparr>"

lemma intact_file_loads: "load_lines None [] (file_lines intact_file) = (None, [sample_entry ''a''])"
  using load_written_entries [of "[sample_entry ''a'']" None "[]"]
  by (simp add: intact_file_def file_lines_def)

theorem crash_repair_append_witness:
  "load_entries_from_file
     (append_to (sample_world CHR ''w'') ''/s.jsonl'' (json_of_entry (sample_entry ''c''))
       (repair_trailing_newline (sample_world CHR ''w'') ''/s.jsonl''
         (empty_disk\<lparr>d_files := [''/s.jsonl'' \<mapsto> intact_file\<lparr>f_tail := Some Torn\<rparr>]\<rparr>))) ''/s.jsonl''
     \<in> {(None, [sample_entry ''a'', sample_entry ''c'']),
        (None, [sample_entry ''a'', sample_entry ''b'', sample_entry ''c''])}"
  using crash_repair_append
      [of "sample_entry ''b''" intact_file "intact_file\<lparr>f_tail := Some Torn\<rparr>" "sample_entry ''c''"
        "empty_disk\<lparr>d_files := [''/s.jsonl'' \<mapsto> intact_file\<lparr>f_tail := Some Torn\<rparr>]\<rparr>" "''/s.jsonl''"
        "sample_world CHR ''w''" None "[sample_entry ''a'']",
       OF crashed_append.partial _ _ _ _ _ _ intact_file_loads]
  by (simp add: intact_file_def)

text \<open>
  Without the repair both entries are lost: appending to a file whose last line was cut before
  its newline glues the two documents into one unreadable line, and the file loads as if neither had
  been written.
\<close>

theorem append_to_torn_file:
  assumes "d_files d p = Some f" and "f_tail f = Some l"
  shows "load_entries_from_file (append_to w p j d) p = load_lines None [] (f_lines f)"
  using append_without_repair_lost [OF assms(2), of None "[]" j] assms(1)
  by (simp add: load_entries_from_file_def append_to_def set_file_def file_lines_def append_line_def
      assms(2))

theorem append_to_torn_file_witness:
  "load_entries_from_file
     (append_to (sample_world CHR ''w'') ''/s.jsonl'' (json_of_entry (sample_entry ''c''))
       (empty_disk\<lparr>d_files := [''/s.jsonl'' \<mapsto>
          intact_file\<lparr>f_tail := Some (Line (json_of_entry (sample_entry ''b'')))\<rparr>]\<rparr>)) ''/s.jsonl''
     = (None, [sample_entry ''a''])"
  using append_to_torn_file
      [of "empty_disk\<lparr>d_files := [''/s.jsonl'' \<mapsto>
            intact_file\<lparr>f_tail := Some (Line (json_of_entry (sample_entry ''b'')))\<rparr>]\<rparr>" "''/s.jsonl''"
        "intact_file\<lparr>f_tail := Some (Line (json_of_entry (sample_entry ''b'')))\<rparr>"]
    intact_file_loads
  by (simp add: intact_file_def file_lines_def)

subsection \<open>Codecs and identifiers\<close>

text \<open>
  a session entry written as a JSON line reads back unchanged, whichever of its twenty-eight
  fields are set, provided its token count fits a machine integer and its plan metadata has one
  value per key, which Go's types guarantee.
\<close>

theorem entry_roundtrip: "entry_ok e \<Longrightarrow> entry_of_json (json_of_entry e) = Some e"
  by (rule entry_codec.dec_enc)

theorem entry_roundtrip_witness:
  "entry_of_json (json_of_entry (zero_entry\<lparr>e_type := ''compaction'', e_tokens_before := 9000\<rparr>))
     = Some (zero_entry\<lparr>e_type := ''compaction'', e_tokens_before := 9000\<rparr>)"
  by (rule entry_roundtrip) (simp add: entry_ok_def zero_entry_def int_in_range_def)

text \<open>
  A session header, with or without a stamped invocation, reads back unchanged.
\<close>

theorem header_roundtrip: "header_ok h \<Longrightarrow> header_of_json (json_of_header h) = Some h"
  by (rule header_codec.dec_enc)

theorem header_roundtrip_witness:
  "header_of_json (json_of_header (fresh_header (sample_world CHR ''w'') ''/repo'' []))
     = Some (fresh_header (sample_world CHR ''w'') ''/repo'' [])"
  by (rule header_roundtrip) (simp add: header_ok_def fresh_header_def int_in_range_def)

text \<open>
  The id \<^verbatim>\<open>generateID\<close> picks is never one of the log's as long as one of its first hundred draws
  is free; and appending with it never overwrites an entry of the index.
\<close>

theorem append_keeps_index:
  assumes "fresh_world w (fst sd)" and "e_id e = generate_id w (fst sd)"
    and "ss_by_id (fst sd) i = Some x"
  shows "ss_by_id (fst (append_entry w e sd)) i = Some x"
  using generate_id_fresh(1) [OF assms(1)] assms(2,3) by (auto simp: frame_simps)

theorem append_keeps_index_witness:
  "ss_by_id (fst (append_entry (sample_world CHR ''b'')
      (next_entry (sample_world CHR ''b'') ''custom'' (fst sample_one)) sample_one))
      [CHR ''a'', char_of (0::nat)] \<noteq> None"
proof -
  have "[CHR ''a'', char_of (0::nat)] \<in> dom (ss_by_id (fst sample_one))"
    by (simp only: sample_one_store(2)) simp
  then obtain x where x: "ss_by_id (fst sample_one) [CHR ''a'', char_of (0::nat)] = Some x" by blast
  have "fresh_world (sample_world CHR ''b'') (fst sample_one)"
  proof (rule sample_fresh)
    fix i :: nat
    have "[CHR ''b'', char_of i] \<notin> dom (ss_by_id (fst sample_one))"
      by (simp only: sample_one_store(2)) simp
    then show "ss_by_id (fst sample_one) [CHR ''b'', char_of i] = None" by (simp add: domIff)
  qed
  from append_keeps_index [OF this _ x,
      of "next_entry (sample_world CHR ''b'') ''custom'' (fst sample_one)"]
  show ?thesis by simp
qed

lemma stamp_noop:
  "ss_header (fst sd) = Some h \<Longrightarrow> h_invocation h \<noteq> None \<or> ss_entries (fst sd) \<noteq> [] \<Longrightarrow>
     stamp_invocation w oi sd = sd"
  by (cases sd) (auto simp: stamp_invocation_def)

lemma stamp_sets:
  assumes "ss_header (fst sd) = Some h" and "h_invocation h = None" and "ss_entries (fst sd) = []"
    and "\<not> invocation_is_empty a"
  shows "ss_header (fst (stamp_invocation w a sd)) = Some (h\<lparr>h_invocation := a\<rparr>)"
  using assms by (cases sd) (simp add: stamp_invocation_def Let_def frame_simps)

text \<open>
  The runtime invocation is stamped on a session once: a second stamp changes nothing, and
  neither does one after the first entry was written.
\<close>

theorem stamp_once:
  assumes "ss_header (fst sd) = Some h"
  shows "(\<not> invocation_is_empty a \<longrightarrow>
            stamp_invocation w' b (stamp_invocation w a sd) = stamp_invocation w a sd)
       \<and> (ss_entries (fst sd) \<noteq> [] \<longrightarrow> stamp_invocation w a sd = sd)"
proof (cases "h_invocation h \<noteq> None \<or> ss_entries (fst sd) \<noteq> []")
  case True
  then show ?thesis using stamp_noop [OF assms True] by simp
next
  case False
  have "stamp_invocation w' b (stamp_invocation w a sd) = stamp_invocation w a sd"
    if a: "\<not> invocation_is_empty a"
  proof (rule stamp_noop)
    show "ss_header (fst (stamp_invocation w a sd)) = Some (h\<lparr>h_invocation := a\<rparr>)"
      using stamp_sets [OF assms] False a by simp
    show "h_invocation (h\<lparr>h_invocation := a\<rparr>) \<noteq> None
        \<or> ss_entries (fst (stamp_invocation w a sd)) \<noteq> []"
      using a by (cases a) (simp_all add: invocation_is_empty_def)
  qed
  with False show ?thesis by simp
qed

theorem stamp_once_witness:
  "stamp_invocation (sample_world CHR ''c'') (Some (zero_invocation\<lparr>inv_model := ''m2''\<rparr>))
     (stamp_invocation (sample_world CHR ''b'') (Some (zero_invocation\<lparr>inv_model := ''m1''\<rparr>)) sample_start)
   = stamp_invocation (sample_world CHR ''b'') (Some (zero_invocation\<lparr>inv_model := ''m1''\<rparr>)) sample_start"
proof -
  obtain h where "ss_header (fst sample_start) = Some h"
    using reachable_ok [OF sample_start_reachable]
    by (auto simp: session_ok_def persisted_def storable_def)
  then show ?thesis
    by (rule stamp_once [THEN conjunct1, rule_format])
      (simp add: invocation_is_empty_def zero_invocation_def)
qed

end
