(* ===== verification/ContextProps.thy ===== *)
theory ContextProps
  imports StoreProps
begin

text \<open>
  Properties of branches, contexts and forks of a session.
\<close>

subsection \<open>Branches\<close>

text \<open>
  C17: in a well-formed store the walk from any entry to its root returns, and its result is the
  chain from a root entry down to that entry, without repetition, every element naming the one
  before it as its parent.
\<close>

theorem get_branch_rooted:
  assumes "store_inv ss" and "ss_by_id ss i = Some e" and "i \<noteq> []"
  shows "\<exists>path. get_branch ss i = Some path \<and> path \<noteq> [] \<and> last path = e \<and> chain [] path
           \<and> set path \<subseteq> set (ss_entries ss) \<and> distinct (map e_id path)"
proof -
  obtain above where b: "get_branch ss i = Some (above @ [e])"
    using get_branch_some [OF assms] by blast
  with branch_is_chain [OF assms(1) b] show ?thesis by auto
qed

lemma sample_two_inv: "store_inv (fst sample_two)"
  using reachable_ok [OF sample_two_reachable] by (simp add: session_ok_def)

lemma sample_two_last:
  "\<exists>e. ss_by_id (fst sample_two) (ss_leaf (fst sample_two)) = Some e" "ss_leaf (fst sample_two) \<noteq> []"
proof -
  show ne: "ss_leaf (fst sample_two) \<noteq> []"
    by (simp add: sample_two_def append_message_def frame_simps generate_id_def draw_id_def
        sample_world_def split: option.split)
  show "\<exists>e. ss_by_id (fst sample_two) (ss_leaf (fst sample_two)) = Some e"
    using store_inv_leaf [OF sample_two_inv ne] .
qed

theorem get_branch_rooted_witness:
  "\<exists>path. get_branch (fst sample_two) (ss_leaf (fst sample_two)) = Some path \<and> chain [] path"
proof -
  obtain e where "ss_by_id (fst sample_two) (ss_leaf (fst sample_two)) = Some e"
    using sample_two_last(1) by blast
  from get_branch_rooted [OF sample_two_inv this sample_two_last(2)] show ?thesis by blast
qed

text \<open>The roots only grow while the tree is linked.\<close>

lemma link_entries_roots:
  "e \<in> set es \<Longrightarrow> e_parent e = e_id e \<Longrightarrow> e_id e \<in> set (st_roots (fold link_entry es t))"
proof (induction es arbitrary: t)
  case Nil
  then show ?case by simp
next
  case (Cons x es)
  have keep: "i \<in> set (st_roots s) \<Longrightarrow> i \<in> set (st_roots (fold link_entry ys s))" for i ys s
    by (induction ys arbitrary: s) (auto simp: link_entry_def)
  show ?case
  proof (cases "e = x")
    case True
    with Cons.prems(2) have "e_id e \<in> set (st_roots (link_entry x t))" by (simp add: link_entry_def)
    then show ?thesis by (simp add: keep)
  next
    case False
    with Cons show ?thesis by simp
  qed
qed

text \<open>
  An entry that names itself as its parent, which a damaged or hand-edited transcript can
  hold, is shown by the tree view as a root, but the branch walk of the same store never returns from
  it: \<^verbatim>\<open>GetTree\<close> guards against it and \<^verbatim>\<open>getBranchUnlocked\<close> does not.
\<close>

theorem self_parent_diverges:
  assumes "ss_by_id ss i = Some e" and "i \<noteq> []" and "e_parent e = i" and "e_id e = i"
    and "e \<in> set (ss_entries ss)"
  shows "get_branch ss i = None \<and> i \<in> set (st_roots (get_tree ss))"
proof
  show "get_branch ss i = None"
    using ascend_self_parent [of "ss_by_id ss" e_parent e "[]" "[]"] assms
    by (simp add: get_branch_def)
  show "i \<in> set (st_roots (get_tree ss))"
    using link_entries_roots [OF assms(5)] assms(3,4) by (simp add: get_tree_def)
qed

definition self_parented :: session_entry where
  "self_parented = zero_entry\<lparr>e_type := ''message'', e_id := ''x'', e_parent := ''x''\<rparr>"

theorem self_parent_diverges_witness:
  "get_branch ((blank_store [] [] False)\<lparr>ss_entries := [self_parented],
      ss_by_id := [''x'' \<mapsto> self_parented]\<rparr>) ''x'' = None"
  by (rule self_parent_diverges [THEN conjunct1, of _ _ self_parented])
    (simp_all add: self_parented_def zero_entry_def)

subsection \<open>Contexts\<close>

lemma session_step_extends:
  "session_step sd sd' \<Longrightarrow> session_ok sd \<Longrightarrow>
     \<exists>later. ss_entries (fst sd') = ss_entries (fst sd) @ later"
proof (induction rule: session_step.induct)
  case (branch_summary w sd target summary details hook)
  then show ?case by (simp add: branch_with_summary_def frame_simps case_prod_beta) (simp add: branch_def)
next
  case (reopen w dir sd sd')
  then show ?case using reopen_step by (metis append_Nil2)
next
  case (crash w sd e f f' w' dir sd')
  then show ?case using crash_step by (metis append_Nil2)
qed (auto simp: append_method_defs frame_simps append_label_change_def case_prod_beta branch_def
    maybe_record_agent_version_change_def stamp_invocation_frame force_flush_frame
    split: option.splits)

text \<open>
  C4: what the LLM is shown at an entry never changes once the entry exists: whatever step a
  reachable session takes next (messages, compaction, labels, branches, stamps), the context built at
  an entry that was already in the log stays the same, which is what a provider's prompt cache
  needs.
\<close>

theorem step_keeps_context:
  assumes r: "reachable sd" and s: "session_step sd sd'" and i: "ss_by_id (fst sd) i = Some e"
  shows "build_session_context_from_entries dc (ss_entries (fst sd')) i (Some (ss_by_id (fst sd')))
       = build_session_context_from_entries dc (ss_entries (fst sd)) i (Some (ss_by_id (fst sd)))"
proof -
  have inv: "store_inv (fst sd)" and inv': "store_inv (fst sd')"
    using reachable_ok r reachable.step [OF r s] by (auto simp: session_ok_def)
  obtain later where l: "ss_entries (fst sd') = ss_entries (fst sd) @ later"
    using session_step_extends [OF s reachable_ok [OF r]] by blast
  have e: "index_of (ss_entries (fst sd)) i = Some e"
    using i store_inv_index [OF inv] by simp
  then have "i \<in> e_id ` set (ss_entries (fst sd))" using index_of_SomeD by blast
  then have "i \<noteq> []" using tree_log_distinct [OF store_inv_tree [OF inv]] by blast
  from context_append [OF _ e this, of later dc] store_inv_tree [OF inv']
  show ?thesis
    by (simp add: store_inv_index [OF inv] store_inv_index [OF inv'] l
        build_session_context_from_entries_def)
qed

definition sample_decoders :: decoders where
  "sample_decoders =
     \<lparr>dc_message = (\<lambda>j. case j of
          JObj ms \<Rightarrow> (case map_of ms ''content'' of Some (JStr s) \<Rightarrow> Some (user_text s 1) | _ \<Rightarrow> None)
        | _ \<Rightarrow> None),
      dc_plan = (\<lambda>_. []), dc_time = (\<lambda>_. 0)\<rparr>"

theorem step_keeps_context_witness:
  "\<exists>i. i \<noteq> [] \<and> build_session_context_from_entries sample_decoders
      (ss_entries (fst (branch [] sample_two))) i (Some (ss_by_id (fst (branch [] sample_two))))
    = build_session_context_from_entries sample_decoders (ss_entries (fst sample_two)) i
        (Some (ss_by_id (fst sample_two)))"
proof -
  obtain e where "ss_by_id (fst sample_two) (ss_leaf (fst sample_two)) = Some e"
    using sample_two_last(1) by blast
  moreover have "session_step sample_two (branch [] sample_two)" by (rule session_step.branch) simp
  ultimately show ?thesis
    using step_keeps_context [OF sample_two_reachable] sample_two_last(2) by blast
qed

text \<open>
  C5: after a compaction the context is its summary, then the messages of the branch from the
  first kept entry on, then the messages after the compaction entry, with unanswered tool calls
  repaired; nothing before the first kept entry is left in it.
\<close>

theorem compacted_context:
  assumes inv: "store_inv ss" and b: "get_branch ss i = Some (pre @ c # post)" and "i \<noteq> []"
    and c: "e_type c = ''compaction''" "\<forall>e \<in> set post. e_type e \<noteq> ''compaction''"
  shows "\<exists>ctx. build_session_context_from_entries dc (ss_entries ss) i (Some (ss_by_id ss)) = Some ctx
    \<and> sc_messages ctx = synthesize_interrupted_tool_results
        (create_compaction_summary_message (e_summary c) (e_tokens_before c) (dc_time dc (e_timestamp c))
         # concat (map (entry_messages dc) (dropWhile (\<lambda>e. e_id e \<noteq> e_first_kept c) pre))
         @ concat (map (entry_messages dc) post))"
proof -
  note bc = branch_is_chain [OF inv b]
  obtain e where e: "ss_by_id ss i = Some e"
    using b \<open>i \<noteq> []\<close> by (auto simp: get_branch_def split: option.splits)
  from build_context_leaf [OF inv e \<open>i \<noteq> []\<close>, of dc] b
  have "build_session_context_from_entries dc (ss_entries ss) i (Some (ss_by_id ss))
      = Some (context_of_path dc (pre @ c # post))" by simp
  with context_of_compacted_path [of pre c post dc] bc(3) c show ?thesis
    by (simp add: compacted_view_def)
qed

definition compacted_log :: "session_entry list" where
  "compacted_log =
     [(sample_entry ''a''), (sample_entry ''b'')\<lparr>e_parent := ''a''\<rparr>,
      zero_entry\<lparr>e_type := ''compaction'', e_id := ''c'', e_parent := ''b'', e_summary := ''sum'',
        e_first_kept := ''b''\<rparr>,
      (sample_entry ''d'')\<lparr>e_parent := ''c''\<rparr>]"

definition store_of_log :: "session_entry list \<Rightarrow> session_store" where
  "store_of_log es = build_index ((blank_store ''/repo'' [] False)\<lparr>ss_entries := es\<rparr>)"

lemma store_of_log_fields:
  "ss_entries (store_of_log es) = es" "ss_by_id (store_of_log es) = index_of es"
  "ss_labels (store_of_log es) = labels_of es"
  "ss_leaf (store_of_log es) = (if es = [] then [] else e_id (last es))"
  by (simp_all add: store_of_log_def build_index_fields blank_store_def)

lemma store_of_log_inv: "tree_log es {} \<Longrightarrow> store_inv (store_of_log es)"
  by (simp add: store_inv_def indexed_def store_of_log_fields)

lemma sample_entry_fields [simp]:
  "e_type (sample_entry i) = ''message''" "e_id (sample_entry i) = i" "e_parent (sample_entry i) = []"
  "e_label (sample_entry i) = []" "e_summary (sample_entry i) = []"
  "e_message (sample_entry i) = Some (user_json i)"
  by (simp_all add: sample_entry_def zero_entry_def)

lemma compacted_log_inv: "store_inv (store_of_log compacted_log)"
  by (rule store_of_log_inv) (simp add: compacted_log_def)

lemma compacted_log_branch:
  "get_branch (store_of_log compacted_log) ''d''
     = Some (take 2 compacted_log @ compacted_log ! 2 # [compacted_log ! 3])"
  by (simp add: get_branch_def store_of_log_fields index_of_def compacted_log_def ascend.simps)

theorem compacted_context_witness:
  "\<exists>ctx. build_session_context_from_entries sample_decoders (ss_entries (store_of_log compacted_log))
      ''d'' (Some (ss_by_id (store_of_log compacted_log))) = Some ctx
    \<and> sc_messages ctx = [create_compaction_summary_message ''sum'' 0 0,
        Msg (user_text ''b'' 1), Msg (user_text ''d'' 1)]"
  using compacted_context [OF compacted_log_inv compacted_log_branch, of sample_decoders]
  by (simp add: compacted_log_def sample_decoders_def entry_messages_def user_json_def zero_entry_def
      synthesize_interrupted_tool_results_def create_compaction_summary_message_def user_text_def)

text \<open>
  C8: every assistant tool call in a context the LLM is given (errored and aborted turns apart,
  which the providers drop) has a tool result with its id; the repair that sees to this removes and
  reorders nothing, is idempotent, and leaves a conversation that needs no repair alone.
\<close>

theorem context_tool_calls_answered:
  "all_answered (sc_messages (context_of_path dc path))
   \<and> subseq ms (synthesize_interrupted_tool_results ms)
   \<and> synthesize_interrupted_tool_results (synthesize_interrupted_tool_results ms)
       = synthesize_interrupted_tool_results ms
   \<and> (synthesize_interrupted_tool_results ms = ms \<longleftrightarrow> all_answered ms)"
  using orphan_repair.repair_keeps [of ms] orphan_repair.repair_idem [of ms]
    orphan_repair.repair_fixed_iff [of ms] context_answered [of dc path]
  by simp

subsection \<open>Forks\<close>

lemma forkable_from_end_total:
  assumes "store_inv ss" and "\<And>e. e \<in> set es \<Longrightarrow> e \<in> set (ss_entries ss)"
  shows "forkable_from_end dc ss es \<noteq> None"
  using assms(2)
proof (induction es)
  case Nil
  then show ?case by simp
next
  case (Cons e es)
  have e: "ss_by_id ss (e_id e) = Some e" "e_id e \<noteq> []"
    using tree_log_distinct [OF store_inv_tree [OF assms(1)]] Cons.prems [of e]
      index_of_distinct [of "ss_entries ss" e] store_inv_index [OF assms(1)]
    by (auto simp: image_iff)
  from build_context_leaf [OF assms(1) e, of dc] Cons show ?case by auto
qed

text \<open>
  looking for the entry a session can be forked at returns, and when it finds one it is on
  the branch of the current leaf, its context ends in no interrupted tool call, and every entry after
  it on the branch does.
\<close>

theorem forkable_leaf_newest:
  assumes inv: "store_inv ss" and leaf: "ss_leaf ss \<noteq> []"
  shows "\<exists>i path. forkable_leaf_id dc ss = Some i \<and> get_branch ss (ss_leaf ss) = Some path
    \<and> (i \<noteq> [] \<longrightarrow> (\<exists>older e newer ctx. path = older @ e # newer \<and> e_id e = i
         \<and> build_session_context_from_entries dc (ss_entries ss) i (Some (ss_by_id ss)) = Some ctx
         \<and> \<not> dangling_tool_use ctx
         \<and> (\<forall>x \<in> set newer. \<exists>c. build_session_context_from_entries dc (ss_entries ss) (e_id x)
              (Some (ss_by_id ss)) = Some c \<and> dangling_tool_use c)))"
proof -
  obtain e where "ss_by_id ss (ss_leaf ss) = Some e" using store_inv_leaf [OF inv leaf] by blast
  from get_branch_some [OF inv this leaf] obtain path where
    b: "get_branch ss (ss_leaf ss) = Some path" and sub: "set path \<subseteq> set (ss_entries ss)" by blast
  have "forkable_from_end dc ss (rev path) \<noteq> None"
    using sub by (intro forkable_from_end_total [OF inv]) auto
  then obtain i where i: "forkable_from_end dc ss (rev path) = Some i" by auto
  have "\<exists>older e newer ctx. path = older @ e # newer \<and> e_id e = i
         \<and> build_session_context_from_entries dc (ss_entries ss) i (Some (ss_by_id ss)) = Some ctx
         \<and> \<not> dangling_tool_use ctx
         \<and> (\<forall>x \<in> set newer. \<exists>c. build_session_context_from_entries dc (ss_entries ss) (e_id x)
              (Some (ss_by_id ss)) = Some c \<and> dangling_tool_use c)" if "i \<noteq> []"
  proof -
    from forkable_from_end_spec [OF i that] obtain newer e older ctx where
      f: "rev path = newer @ e # older" "i = e_id e"
        "build_session_context_from_entries dc (ss_entries ss) i (Some (ss_by_id ss)) = Some ctx"
        "\<not> dangling_tool_use ctx"
        "\<forall>x \<in> set newer. \<exists>c. build_session_context_from_entries dc (ss_entries ss) (e_id x)
            (Some (ss_by_id ss)) = Some c \<and> dangling_tool_use c" by blast
    from f(1) have "path = rev older @ e # rev newer"
      by (metis append.assoc append_Cons append_Nil rev.simps(2) rev_append rev_rev_ident)
    with f(2-5) show ?thesis
      by (intro exI [of _ "rev older"] exI [of _ e] exI [of _ "rev newer"] exI [of _ ctx]) simp
  qed
  with b i show ?thesis by (simp add: forkable_leaf_id_def)
qed

theorem forkable_leaf_newest_witness:
  "\<exists>i. forkable_leaf_id sample_decoders (store_of_log compacted_log) = Some i"
proof -
  have "ss_leaf (store_of_log compacted_log) \<noteq> []"
    by (simp add: store_of_log_fields compacted_log_def)
  from forkable_leaf_newest [OF compacted_log_inv this] show ?thesis by blast
qed

end
