(* ===== verification/ForkAt.thy ===== *)
theory ForkAt
  imports BranchCopy
begin

text \<open>
  Forking a session at an entry (\<^verbatim>\<open>ForkAt\<close> of \<^verbatim>\<open>pkg/session/store/fork_at.go\<close>) and opening a session
  another process holds (\<^verbatim>\<open>setSessionFile\<close>, \<^verbatim>\<open>ForkFrom\<close>), with what the two do to the disk.
\<close>

fun fork_at ::
  "decoders \<Rightarrow> world list \<Rightarrow> path \<Rightarrow> entry_id \<Rightarrow> path \<Rightarrow> path \<Rightarrow> disk
     \<Rightarrow> (disk \<times> (store_error + session_store)) option" where
  "fork_at dc [] src i cwd dir d = None"
| "fork_at dc (w # ws) src i cwd dir d =
     (case load_entries_from_file d src of
        (None, es) \<Rightarrow> Some (d, Inl (SourceInvalid src))
      | (Some h, es) \<Rightarrow>
          if dir = [] then Some (d, Inl SessionDirRequired)
          else if \<not> check_writable w dir then Some (d, Inl (ReadOnlyStore dir))
          else if \<not> w_io_ok w dir then Some (d, Inl (WriteFailed dir))
          else
            (let s = build_index ((blank_store (if cwd \<noteq> [] then cwd else h_cwd h) dir True)
                       \<lparr>ss_header := Some h, ss_id := h_id h, ss_file := src, ss_entries := es\<rparr>)
             in if ss_by_id s i = None then Some (d, Inl (EntryNotFound i))
                else case build_session_context_from_entries dc (ss_entries s) i (Some (ss_by_id s)) of
                    None \<Rightarrow> None
                  | Some ctx \<Rightarrow>
                      if dangling_tool_use ctx then Some (d, Inl (DanglingToolCall i))
                      else case create_branched_session w i (s, d) of
                          None \<Rightarrow> None
                        | Some (sd, Inl e) \<Rightarrow> Some (snd sd, Inl e)
                        | Some (sd, Inr q) \<Rightarrow>
                            (case open_session_store ws q (Some dir)
                                    (copy_state_unbound w src q (snd sd)) of
                               None \<Rightarrow> None
                             | Some ((s1, d1), _) \<Rightarrow> Some (d1, Inr s1))))"

definition fork_source :: "path \<Rightarrow> path \<Rightarrow> path \<Rightarrow> session_header \<Rightarrow> session_entry list \<Rightarrow> session_store" where
  "fork_source src cwd dir h es =
     build_index ((blank_store (if cwd \<noteq> [] then cwd else h_cwd h) dir True)
       \<lparr>ss_header := Some h, ss_id := h_id h, ss_file := src, ss_entries := es\<rparr>)"

subsection \<open>What the settings copy touches\<close>

definition settings_files :: "path \<Rightarrow> path set" where
  "settings_files p = {state_path p, legacy_state_path p}"

definition same_outside :: "path set \<Rightarrow> disk \<Rightarrow> disk \<Rightarrow> bool" where
  "same_outside P d d' \<longleftrightarrow> (\<forall>q. q \<notin> P \<longrightarrow> d_files d' q = d_files d q) \<and> d_locked d' = d_locked d"

lemma same_outside_trans:
  "same_outside P d d' \<Longrightarrow> same_outside Q d' d'' \<Longrightarrow> same_outside (P \<union> Q) d d''"
  by (auto simp: same_outside_def)

lemma same_outside_refl [simp]: "same_outside P d d"
  by (simp add: same_outside_def)

lemma same_outside_set_file: "p \<in> P \<Longrightarrow> same_outside P d (set_file p f d)"
  by (auto simp: same_outside_def set_file_def)

lemma same_outside_remove_file: "p \<in> P \<Longrightarrow> same_outside P d (remove_file p d)"
  by (auto simp: same_outside_def remove_file_def)

lemma append_record_outside: "p \<in> P \<Longrightarrow> same_outside P d (fst (append_record w p v ts r d))"
  by (simp add: append_record_def Let_def same_outside_set_file)

lemma same_outside_step: "same_outside P d d1 \<Longrightarrow> same_outside P d1 d2 \<Longrightarrow> same_outside P d d2"
  by (simp add: same_outside_def)

lemma migrate_outside: "same_outside (settings_files p) d (migrate_legacy_state w p d)"
proof -
  have s: "state_path p \<in> settings_files p" "legacy_state_path p \<in> settings_files p"
    by (simp_all add: settings_files_def)
  have "same_outside (settings_files p) d
      (case append_record w (state_path p) j ts r d of
         (d1, None) \<Rightarrow> remove_file (legacy_state_path p) d1 | (d1, Some e) \<Rightarrow> d1)" for j ts r
    using append_record_outside [OF s(1), of d w j ts r]
      same_outside_step [OF _ same_outside_remove_file [OF s(2)]]
    by (auto split: prod.split option.split)
  with s show ?thesis
    by (auto simp: migrate_legacy_state_def same_outside_remove_file
        split: option.split list.split disk_line.split)
qed

lemma read_history_outside: "same_outside (settings_files p) d (fst (read_history w p d))"
  using migrate_outside [of p d w] by (simp add: read_history_def Let_def split: option.split)

lemma append_state_outside: "same_outside (settings_files p) d (fst (append_state w p v r d))"
proof (cases "state_path p = []")
  case True
  then show ?thesis by (simp add: append_state_def)
next
  case False
  obtain d1 recs n where h: "read_history w p d = (d1, recs, n)" by (metis prod_cases3)
  have s: "state_path p \<in> settings_files p" by (simp add: settings_files_def)
  obtain d2 e where a: "append_record w (state_path p) v (w_clock w) r d1 = (d2, e)"
    by (metis surj_pair)
  have 1: "same_outside (settings_files p) d d1" using read_history_outside [of p d w] h by simp
  have 2: "same_outside (settings_files p) d1 d2"
    using append_record_outside [OF s, of d1 w v "w_clock w" r] a by simp
  have 3: "same_outside (settings_files p) d2
      (fst (compact_history w (state_path p) max_state_history d2))"
    using s by (simp add: compact_history_def same_outside_set_file split: option.split)
  show ?thesis
    using False 1 same_outside_step [OF 1 2] same_outside_step [OF same_outside_step [OF 1 2] 3]
    by (auto simp: append_state_def h a split: option.split)
qed

lemma copy_state_outside:
  "same_outside (settings_files src \<union> settings_files dst) d (copy_state_unbound w src dst d)"
proof -
  obtain d1 o1 where r: "read_state w src d = (d1, o1)" by (metis surj_pair)
  have 1: "same_outside (settings_files src) d d1"
    using read_history_outside [of src d w] r by (auto simp: read_state_def split: prod.splits)
  have 2: "same_outside (settings_files dst) d1 (fst (write_state w dst v d1))" for v
    by (simp add: write_state_def append_state_outside)
  have 0: "same_outside (settings_files src \<union> settings_files dst) d d1"
    using same_outside_trans [OF 1 same_outside_refl] .
  show ?thesis
    using 0 same_outside_trans [OF 1 2]
    by (simp add: copy_state_unbound_def r split: option.split json.split)
qed

subsection \<open>Forking at an entry\<close>

lemma label_entries_storable: "\<forall>e \<in> set (label_entries w off ss taken p ls). storable_entry e"
  by (induction w off ss taken p ls rule: label_entries.induct)
    (auto simp: Let_def storable_entry_def entry_ok_def zero_entry_def int_in_range_def)

lemma branch_copy_storable:
  "\<forall>e \<in> set path. storable_entry e \<Longrightarrow> \<forall>e \<in> set (branch_copy w ss path). storable_entry e"
  using label_entries_storable by (auto simp: branch_copy_def Let_def)

lemma fork_source_store:
  assumes "tree_log es {}"
  shows "store_inv (fork_source src cwd dir h es)" and "ss_entries (fork_source src cwd dir h es) = es"
    and "ss_by_id (fork_source src cwd dir h es) = index_of es"
    and "ss_dir (fork_source src cwd dir h es) = dir" and "ss_persist (fork_source src cwd dir h es)"
  using assms
  by (auto simp: fork_source_def build_index_fields store_inv_def indexed_def blank_store_def)

text \<open>The environment of a successful fork: the new file is free and apart from what is there.\<close>

definition forkable_to :: "world \<Rightarrow> world \<Rightarrow> path \<Rightarrow> path \<Rightarrow> disk \<Rightarrow> bool" where
  "forkable_to w w' src dir d \<longleftrightarrow>
     (let q = join_path dir (session_file_name w)
      in dir \<noteq> [] \<and> check_writable w dir \<and> w_io_ok w dir \<and> check_writable w q \<and> w_io_ok w q
         \<and> lockable w' q \<and> \<not> d_locked d q \<and> q \<noteq> src
         \<and> q \<notin> settings_files src \<union> settings_files q \<and> src \<notin> settings_files src \<union> settings_files q
         \<and> w_session_uuid w \<noteq> [])"

lemma load_same_outside:
  "same_outside P d d' \<Longrightarrow> p \<notin> P \<Longrightarrow> load_entries_from_file d' p = load_entries_from_file d p"
  by (simp add: same_outside_def load_entries_from_file_def)

lemma load_written_transcript:
  assumes "storable_header h" and "\<forall>e \<in> set es. storable_entry e"
  shows "load_entries_from_file (write_lines w p (transcript_lines h es) d) p = (Some h, es)"
  using load_transcript_lines [of h es] assms
  by (simp add: load_entries_from_file_def write_lines_def set_file_def file_lines_plain)

lemma fork_at_opens:
  assumes load: "load_entries_from_file d src = (Some h, es)" and t: "tree_log es {}"
    and st: "\<forall>e \<in> set es. storable_entry e" and i: "index_of es i \<noteq> None" "i \<noteq> []"
    and env: "forkable_to w w' src dir d"
    and b: "get_branch (fork_source src cwd dir h es) i = Some path"
    and nd: "\<not> dangling_tool_use (context_of_path dc path)"
  shows "\<exists>d' s. fork_at dc [w, w'] src i cwd dir d = Some (d', Inr s)
    \<and> ss_entries s = branch_copy w (fork_source src cwd dir h es) path
    \<and> ss_by_id s = index_of (ss_entries s)
    \<and> ss_leaf s = (if ss_entries s = [] then [] else e_id (last (ss_entries s)))
    \<and> load_entries_from_file d' src = (Some h, es) \<and> path \<noteq> []"
proof -
  let ?s = "fork_source src cwd dir h es"
  define q where "q = join_path dir (session_file_name w)"
  define hdr where "hdr = branch_header w ?s"
  define new where "new = branch_copy w ?s path"
  note fs = fork_source_store [OF t, of src cwd dir h]
  obtain e where e: "index_of es i = Some e" using i(1) by auto
  have bi: "ss_by_id ?s i = Some e" using fs(3) e by simp
  have ctx: "build_session_context_from_entries dc es i (Some (index_of es)) = Some (context_of_path dc path)"
    using build_context_leaf [OF fs(1) bi i(2), of dc] b fs(2,3) by simp
  obtain above where "path = above @ [e]" and "set path \<subseteq> set es"
    using get_branch_some [OF fs(1) bi i(2)] b fs(2) by auto
  then have path: "path \<noteq> []" "\<forall>x \<in> set path. storable_entry x" using st by auto
  have envs: "dir \<noteq> []" "check_writable w dir" "w_io_ok w dir" "check_writable w q" "w_io_ok w q"
    "lockable w' q" "\<not> d_locked d q" "q \<noteq> src" "q \<notin> settings_files src \<union> settings_files q"
    "src \<notin> settings_files src \<union> settings_files q" "w_session_uuid w \<noteq> []"
    using env by (simp_all add: forkable_to_def Let_def q_def)
  define d1 where "d1 = write_lines w q (transcript_lines hdr new) d"
  define d2 where "d2 = copy_state_unbound w src q d1"
  obtain x xs where cons: "path = x # xs" using path(1) by (cases path) auto
  obtain s0 where cb: "create_branched_session w i (?s, d) = Some ((s0, d1), Inr q)"
    using b envs(1,4,5) fs(4,5) cons
    by (auto simp: create_branched_session_def Let_def q_def [symmetric] d1_def hdr_def new_def)
  have hdr_ok: "storable_header hdr"
    using envs(11)
    by (simp add: hdr_def branch_header_def fresh_header_def storable_header_def header_ok_def
        int_in_range_def)
  have new_ok: "\<forall>x \<in> set new. storable_entry x"
    unfolding new_def by (rule branch_copy_storable [OF path(2)])
  note out = copy_state_outside [of src q d1 w, folded d2_def]
  have "load_entries_from_file d2 q = (Some hdr, new)"
    using load_same_outside [OF out envs(9)] load_written_transcript [OF hdr_ok new_ok]
    by (simp add: d1_def)
  moreover have "\<not> d_locked d2 q"
    using out envs(7) by (simp add: same_outside_def d1_def write_lines_def set_file_def)
  ultimately have open_q: "open_session_store [w'] q (Some dir) d2
      = Some ((loaded_store q hdr new ((blank_store [] dir True)\<lparr>ss_lock := Some q\<rparr>),
             repair_trailing_newline w' q (d2\<lparr>d_locked := (d_locked d2)(q := True)\<rparr>)), False)"
    using set_session_file_free [OF _ envs(6)] by (simp add: open_session_store_def)
  have src_kept: "load_entries_from_file (repair_trailing_newline w' q
      (d2\<lparr>d_locked := (d_locked d2)(q := True)\<rparr>)) src = (Some h, es)"
  proof -
    have "load_entries_from_file d1 src = (Some h, es)"
      using load envs(8) by (simp add: d1_def load_entries_from_file_def write_lines_def set_file_def)
    then show ?thesis using load_same_outside [OF out envs(10)] by (simp add: repair_loads)
  qed
  have "fork_at dc [w, w'] src i cwd dir d
      = Some (repair_trailing_newline w' q (d2\<lparr>d_locked := (d_locked d2)(q := True)\<rparr>),
          Inr (loaded_store q hdr new ((blank_store [] dir True)\<lparr>ss_lock := Some q\<rparr>)))"
    using load envs(1,2,3) bi ctx nd cb open_q fs(2,3)
    by (simp add: fork_source_def [symmetric] d2_def [symmetric] Let_def)
  with src_kept path(1) show ?thesis
    by (auto simp: loaded_store_fields new_def loaded_store_def build_index_fields)
qed

text \<open>The context of the forked session, for a branch without label entries.\<close>

lemma fork_at_context:
  assumes load: "load_entries_from_file d src = (Some h, es)" and t: "tree_log es {}"
    and st: "\<forall>e \<in> set es. storable_entry e" and i: "index_of es i \<noteq> None" "i \<noteq> []"
    and env: "forkable_to w w' src dir d"
    and b: "get_branch (fork_source src cwd dir h es) i = Some path"
    and nd: "\<not> dangling_tool_use (context_of_path dc path)"
    and plain: "\<forall>e \<in> set path. e_type e \<noteq> ''label''"
    and fresh: "fresh_draws w (fork_source src cwd dir h es)"
  shows "\<exists>d' s. fork_at dc [w, w'] src i cwd dir d = Some (d', Inr s)
    \<and> build_session_context dc s = Some (context_of_path dc path)
    \<and> load_entries_from_file d' src = (Some h, es)"
proof -
  let ?s = "fork_source src cwd dir h es"
  note fs = fork_source_store [OF t, of src cwd dir h]
  obtain d' s where f: "fork_at dc [w, w'] src i cwd dir d = Some (d', Inr s)"
    and s: "ss_entries s = branch_copy w ?s path" "ss_by_id s = index_of (ss_entries s)"
      "ss_leaf s = (if ss_entries s = [] then [] else e_id (last (ss_entries s)))"
    and src: "load_entries_from_file d' src = (Some h, es)" and path: "path \<noteq> []"
    using fork_at_opens [OF load t st i env b nd] by blast
  have al: "after_last_label path = path" using plain by (rule after_last_label_plain)
  with path have "after_last_label path \<noteq> []" by simp
  from copy_branch [OF fs(1) b this fresh] obtain labs where labs: "\<forall>e \<in> set labs. e_type e = ''label''"
    and copy: "branch_copy w ?s path = filter (\<lambda>e. e_type e \<noteq> ''label'') path @ labs"
    and walk: "ascend (index_of (branch_copy w ?s path)) e_parent [] (last (branch_copy w ?s path)) []
         = Some (path @ labs)"
    and ids: "\<forall>x \<in> set (branch_copy w ?s path). e_id x \<noteq> []"
    unfolding al by blast
  let ?es = "branch_copy w ?s path"
  have nonempty: "?es \<noteq> []" using copy path plain by (cases path) auto
  then have "?es = butlast ?es @ [last ?es]" by simp
  then have "index_of ?es (e_id (last ?es)) = Some (last ?es)" by (metis fun_upd_same index_of_snoc)
  then have "build_session_context dc s = Some (context_of_path dc (path @ labs))"
    using s walk nonempty ids
    by (simp add: build_session_context_def build_session_context_from_entries_def context_leaf_def)
  then have "build_session_context dc s = Some (context_of_path dc path)"
    using context_append_labels [OF labs, of dc path] by simp
  with f src show ?thesis by blast
qed

subsection \<open>Opening a session another process holds\<close>

lemma open_locked:
  assumes load: "load_entries_from_file d p = (Some h, es)" and st: "\<forall>e \<in> set es. storable_entry e"
    and locked: "d_locked d p" and env: "forkable_to w1 w2 p dir d" and w: "w_read_only w p = None"
      "lockable w (join_path dir (session_file_name w1))"
  shows "\<exists>s d'. open_session_store [w, w1, w2] p (Some dir) d = Some ((s, d'), True)
    \<and> ss_entries s = es \<and> ss_lock s = None
    \<and> map_option h_parent_session (ss_header s) = Some p
    \<and> load_entries_from_file d' p = (Some h, es) \<and> d_locked d' (ss_file s)"
proof -
  define q where "q = join_path dir (session_file_name w1)"
  define hdr where "hdr = fresh_header w1 [] p"
  have envs: "dir \<noteq> []" "check_writable w1 dir" "w_io_ok w1 dir" "check_writable w1 q" "w_io_ok w1 q"
    "lockable w2 q" "\<not> d_locked d q" "q \<noteq> p" "q \<notin> settings_files p \<union> settings_files q"
    "p \<notin> settings_files p \<union> settings_files q" "w_session_uuid w1 \<noteq> []"
    using env by (simp_all add: forkable_to_def Let_def q_def)
  define d2 where "d2 = copy_state_unbound w1 p q (write_lines w1 q (transcript_lines hdr es) d)"
  note out = copy_state_outside [of p q "write_lines w1 q (transcript_lines hdr es) d" w1, folded d2_def]
  have hdr_ok: "storable_header hdr"
    using envs(11) by (simp add: hdr_def fresh_header_def storable_header_def header_ok_def int_in_range_def)
  have lq: "load_entries_from_file d2 q = (Some hdr, es)"
    using load_same_outside [OF out envs(9)] load_written_transcript [OF hdr_ok st] by simp
  have lp: "load_entries_from_file d2 p = (Some h, es)"
    using load_same_outside [OF out envs(10)] load envs(8)
    by (simp add: load_entries_from_file_def write_lines_def set_file_def)
  have un: "\<not> d_locked d2 q"
    using out envs(7) by (simp add: same_outside_def write_lines_def set_file_def)
  define d3 where "d3 = repair_trailing_newline w2 q (d2\<lparr>d_locked := (d_locked d2)(q := True)\<rparr>)"
  have held: "d_locked d3 q"
    by (auto simp: d3_def repair_trailing_newline_def set_file_def split: option.split)
  have fork: "fork_from [w1, w2] p [] dir d
      = Some (d3, Inr (loaded_store q hdr es ((blank_store [] dir True)\<lparr>ss_lock := Some q\<rparr>)))"
    using load envs(1-3,5) set_session_file_free [OF lq envs(6) un, of "[]" "[]" dir]
    by (simp add: Let_def q_def [symmetric] hdr_def [symmetric] d2_def [symmetric] d3_def)
  let ?ss = "blank_store [] dir True"
  have c: "close_store (?ss\<lparr>ss_forked_from := []\<rparr>, d) = (?ss, d)"
    by (simp add: close_store_def blank_store_def)
  have blank: "ss_persist ?ss" "ss_dir ?ss = dir" "ss_cwd ?ss = []" "ss_lock ?ss = None"
    by (simp_all add: blank_store_def)
  have ch: "choose_file w (\<lambda>src cwd dir d. fork_from [w1, w2] src cwd dir d) p (?ss, d)
      = Some ((?ss, d3), q, True)"
    using w(1) envs(1) blank try_lock_held [OF locked, of w] try_lock_held [OF held, of w] fork
    by (simp add: choose_file_def take_lock_def loaded_store_fields
        del: fork_from.simps set_session_file.simps)
  have lq3: "load_entries_from_file d3 q = (Some hdr, es)"
    and lp3: "load_entries_from_file d3 p = (Some h, es)"
    using lq lp by (simp_all add: d3_def repair_loads)
  have "open_session_store [w, w1, w2] p (Some dir) d = Some ((loaded_store q hdr es ?ss, d3), True)"
    by (simp add: open_session_store_def c ch load_target_unlocked [OF lq3 blank(4)]
        del: fork_from.simps)
  with lp3 held show ?thesis
    by (simp add: loaded_store_fields blank hdr_def fresh_header_def)
qed

end
