(* ===== verification/ForkProps.thy ===== *)
theory ForkProps
  imports ContextProps ForkAt
begin

text \<open>
  Properties of \<^verbatim>\<open>CreateBranchedSession\<close>, \<^verbatim>\<open>ForkAt\<close> and the fork of a locked session: what
  the copy shows the LLM, and what is left on disk.
\<close>

lemma branch_context:
  assumes inv: "store_inv ss" and b: "get_branch ss leaf = Some path" and "path \<noteq> []" and "leaf \<noteq> []"
  shows "build_session_context_from_entries dc (ss_entries ss) leaf (Some (ss_by_id ss))
           = Some (context_of_path dc path)"
proof -
  obtain e where e: "ss_by_id ss leaf = Some e"
    using b assms(3,4) by (auto simp: get_branch_def split: option.splits)
  from build_context_leaf [OF inv e assms(4), of dc] b show ?thesis by simp
qed

text \<open>
  C16: copying a branch that holds no label entries into a new session keeps what the LLM is shown:
  the context of the copy is the context of the original at the entry it was copied to.
\<close>

theorem branched_copy_context:
  assumes inv: "store_inv ss" and b: "get_branch ss leaf = Some path" and leaf: "leaf \<noteq> []"
    and plain: "\<forall>e \<in> set path. e_type e \<noteq> ''label''"
    and fresh: "fresh_draws w ss"
    and c: "create_branched_session w leaf (ss, d) = Some ((ss', d'), Inr file)"
  shows "build_session_context dc ss'
           = build_session_context_from_entries dc (ss_entries ss) leaf (Some (ss_by_id ss))"
proof -
  have ne: "path \<noteq> []" using create_branched_session_store [OF c b] by simp
  have "after_last_label path = path" using plain by (rule after_last_label_plain)
  with copy_context [OF inv b fresh _ c, of dc] ne
  have "build_session_context dc ss' = Some (context_of_path dc path)" by auto
  with branch_context [OF inv b ne leaf, of dc] show ?thesis by simp
qed

text \<open>A branch with a label on its first entry, and the same branch with the label set midway.\<close>

definition labelled_log :: "session_entry list" where
  "labelled_log =
     [sample_entry ''a'',
      zero_entry\<lparr>e_type := ''label'', e_id := ''l'', e_parent := ''a'', e_target_id := ''a'',
        e_label := ''start''\<rparr>,
      (sample_entry ''b'')\<lparr>e_parent := ''l''\<rparr>]"

definition sideways_log :: "session_entry list" where
  "sideways_log =
     [sample_entry ''a'',
      zero_entry\<lparr>e_type := ''label'', e_id := ''l'', e_parent := ''a'', e_target_id := ''a'',
        e_label := ''start''\<rparr>,
      (sample_entry ''b'')\<lparr>e_parent := ''a''\<rparr>]"

lemma sample_logs_inv:
  "store_inv (store_of_log labelled_log)" "store_inv (store_of_log sideways_log)"
  by (rule store_of_log_inv, simp add: labelled_log_def zero_entry_def)
    (rule store_of_log_inv, simp add: sideways_log_def zero_entry_def)

lemma sample_logs_labels:
  "labels_of labelled_log = [(''a'', ''start'')]" "labels_of sideways_log = [(''a'', ''start'')]"
  by (simp_all add: labels_of_def labelled_log_def sideways_log_def replay_label_def zero_entry_def)

lemma sample_logs_branch:
  "get_branch (store_of_log labelled_log) ''b'' = Some labelled_log"
  "get_branch (store_of_log sideways_log) ''b'' = Some [sideways_log ! 0, sideways_log ! 2]"
  by (simp_all add: get_branch_def store_of_log_fields index_of_def labelled_log_def
      sideways_log_def ascend.simps zero_entry_def)

lemma char_of_inj_on: "inj_on (\<lambda>i. [c, char_of i]) {..<n}" if "n \<le> 256" for n :: nat
proof (rule inj_onI)
  fix i j :: nat
  assume "i \<in> {..<n}" "j \<in> {..<n}" and "[c, char_of i] = [c, char_of j]"
  then have "(of_char (char_of i :: char) :: nat) = of_char (char_of j :: char)" by simp
  moreover have "i < 256" "j < 256" using \<open>i \<in> {..<n}\<close> \<open>j \<in> {..<n}\<close> that by simp_all
  ultimately show "i = j" by (simp add: of_char_of)
qed

lemma sample_fresh_draws:
  assumes "length (ss_labels ss) \<le> 1" and "\<And>e i. e \<in> set (ss_entries ss) \<Longrightarrow> e_id e \<noteq> [c, char_of (i::nat)]"
  shows "fresh_draws (sample_world c) ss"
proof -
  have "draw_bound ss \<le> 256" using assms(1) by (simp add: draw_bound_def)
  moreover have "draw_id (sample_world c) = (\<lambda>i. [c, char_of i])" by (simp add: fun_eq_iff)
  ultimately show ?thesis
    using char_of_inj_on [of "draw_bound ss" c] assms(2)
    unfolding fresh_draws_def by (metis (no_types, lifting) imageE list.distinct(1))
qed

lemma sample_logs_fresh:
  "fresh_draws (sample_world CHR ''z'') (store_of_log labelled_log)"
  "fresh_draws (sample_world CHR ''z'') (store_of_log sideways_log)"
proof -
  have "e_id e \<noteq> [CHR ''z'', char_of (i::nat)]"
    if "e \<in> set labelled_log \<or> e \<in> set sideways_log" for e i
    using that by (auto simp: labelled_log_def sideways_log_def zero_entry_def)
  then show "fresh_draws (sample_world CHR ''z'') (store_of_log labelled_log)"
    "fresh_draws (sample_world CHR ''z'') (store_of_log sideways_log)"
    by (auto intro!: sample_fresh_draws simp: store_of_log_fields sample_logs_labels)
qed

lemma sample_copy:
  assumes "get_branch (store_of_log es) leaf = Some (x # path)"
  shows "\<exists>ss'. create_branched_session w leaf (store_of_log es, d) = Some ((ss', d), Inr [])"
  using assms by (auto simp: create_branched_session_def Let_def store_of_log_def build_index_fields
      blank_store_def)

theorem branched_copy_context_witness:
  "\<exists>ss'. create_branched_session (sample_world CHR ''z'') ''b'' (store_of_log sideways_log, empty_disk)
          = Some ((ss', empty_disk), Inr [])
    \<and> build_session_context sample_decoders ss'
        = build_session_context_from_entries sample_decoders sideways_log ''b''
            (Some (index_of sideways_log))"
proof -
  obtain ss' where c: "create_branched_session (sample_world CHR ''z'') ''b''
      (store_of_log sideways_log, empty_disk) = Some ((ss', empty_disk), Inr [])"
    using sample_copy [OF sample_logs_branch(2)] by blast
  from branched_copy_context [OF sample_logs_inv(2) sample_logs_branch(2) _ _ sample_logs_fresh(2) c,
      of sample_decoders] c
  show ?thesis by (simp add: sideways_log_def store_of_log_fields)
qed

text \<open>
  The copy drops the label entries of the branch but leaves their children pointing at them, so
  with a label on the branch the copy's context holds only what came after the last label: every
  message before it, though copied into the file, is out of the LLM's reach.
\<close>

theorem branched_copy_loses_before_label:
  assumes inv: "store_inv ss" and b: "get_branch ss leaf = Some (pre @ l # post)"
    and l: "e_type l = ''label''" and post: "post \<noteq> []" "\<forall>e \<in> set post. e_type e \<noteq> ''label''"
    and fresh: "fresh_draws w ss"
    and c: "create_branched_session w leaf (ss, d) = Some ((ss', d'), Inr file)"
  shows "build_session_context dc ss' = Some (context_of_path dc post)
    \<and> set (filter (\<lambda>e. e_type e \<noteq> ''label'') pre) \<subseteq> set (ss_entries ss')"
proof -
  have "takeWhile (\<lambda>e. e_type e \<noteq> ''label'') (rev post @ l # rev pre)
      = rev post @ takeWhile (\<lambda>e. e_type e \<noteq> ''label'') (l # rev pre)"
    using post(2) by (intro takeWhile_append2) simp
  with l have "after_last_label (pre @ l # post) = post"
    by (simp add: after_last_label_def)
  with copy_context [OF inv b fresh _ c, of dc] post(1) create_branched_session_store [OF c b]
  show ?thesis by (auto simp: branch_copy_def Let_def)
qed

theorem branched_copy_loses_before_label_witness:
  "\<exists>ss'. create_branched_session (sample_world CHR ''z'') ''b'' (store_of_log labelled_log, empty_disk)
          = Some ((ss', empty_disk), Inr [])
    \<and> map_option sc_messages (build_session_context sample_decoders ss')
        = Some [Msg (user_text ''b'' 1)]"
proof -
  obtain x path where "labelled_log = x # path" by (simp add: labelled_log_def)
  with sample_logs_branch(1) obtain ss' where c: "create_branched_session (sample_world CHR ''z'') ''b''
      (store_of_log labelled_log, empty_disk) = Some ((ss', empty_disk), Inr [])"
    using sample_copy by metis
  have b: "get_branch (store_of_log labelled_log) ''b''
      = Some ([labelled_log ! 0] @ labelled_log ! 1 # [labelled_log ! 2])"
    by (simp only: sample_logs_branch(1)) (simp add: labelled_log_def)
  have "build_session_context sample_decoders ss' = Some (context_of_path sample_decoders [labelled_log ! 2])"
    using branched_copy_loses_before_label
        [OF sample_logs_inv(1) b _ _ _ sample_logs_fresh(1) c, of sample_decoders]
    by (simp add: labelled_log_def zero_entry_def)
  then have "map_option sc_messages (build_session_context sample_decoders ss')
      = Some [Msg (user_text ''b'' 1)]"
    by (simp add: context_of_plain_path labelled_log_def entry_messages_def sample_decoders_def
        user_json_def synthesize_interrupted_tool_results_def user_text_def)
  with c show ?thesis by blast
qed

subsection \<open>Forks of a file\<close>

definition source_disk :: disk where
  "source_disk = write_lines (sample_world CHR ''w'') ''/src.jsonl''
     (transcript_lines (fresh_header (sample_world CHR ''w'') ''/repo'' []) sideways_log) empty_disk"

definition fork_file :: path where
  "fork_file = ''/sessions/2025-01-01T00-00-00-000Z_0198-session.jsonl''"

lemma sample_fork_file: "join_path ''/sessions'' (session_file_name (sample_world c)) = fork_file"
  by (simp add: join_path_def session_file_name_def file_timestamp_def fork_file_def)

lemma sideways_storable: "\<forall>e \<in> set sideways_log. storable_entry e"
  by (simp add: sideways_log_def storable_entry_def entry_ok_def zero_entry_def int_in_range_def
      sample_entry_def)

lemma source_disk_loads:
  "load_entries_from_file source_disk ''/src.jsonl''
     = (Some (fresh_header (sample_world CHR ''w'') ''/repo'' []), sideways_log)"
  unfolding source_disk_def
  by (rule load_written_transcript)
    (simp_all add: sideways_storable fresh_header_def storable_header_def header_ok_def int_in_range_def)

lemma sample_forkable:
  assumes "\<not> d_locked d fork_file"
  shows "forkable_to (sample_world a) (sample_world b) ''/src.jsonl'' ''/sessions'' d"
proof -
  have "fork_file \<notin> settings_files ''/src.jsonl'' \<union> settings_files fork_file"
    and "''/src.jsonl'' \<notin> settings_files ''/src.jsonl'' \<union> settings_files fork_file"
    and "fork_file \<noteq> ''/src.jsonl''"
    by (simp_all add: settings_files_def state_path_def legacy_state_path_def fork_file_def)
  with assms show ?thesis
    by (simp add: forkable_to_def Let_def sample_fork_file lockable_def)
qed







text \<open>
  A fork that is refused (a missing or headerless source, no session directory, a read-only or
  unwritable target, an unknown entry, an entry inside an unfinished tool call) changes nothing on
  disk.
\<close>

theorem fork_at_refused:
  assumes "fork_at dc (w # ws) src i cwd dir d = Some (d', Inl err)"
  shows "d' = d"
proof -
  have "snd sd = d" if "create_branched_session w i (s, d) = Some (sd, Inl e)" for s sd e
    using that by (auto simp: create_branched_session_def Let_def split: option.splits list.splits if_splits)
  with assms show ?thesis
    by (auto simp: Let_def split: prod.splits option.splits if_splits sum.splits)
qed

theorem fork_at_refused_witness:
  "fork_at sample_decoders [sample_world CHR ''z''] ''/none.jsonl'' ''b'' [] ''/sessions'' empty_disk
     = Some (empty_disk, Inl (SourceInvalid ''/none.jsonl''))"
proof -
  have r: "\<exists>d'. fork_at sample_decoders [sample_world CHR ''z''] ''/none.jsonl'' ''b'' [] ''/sessions'' empty_disk
     = Some (d', Inl (SourceInvalid ''/none.jsonl''))"
    by (simp add: load_entries_from_file_def empty_disk_def)
  then obtain d' where d': "fork_at sample_decoders [sample_world CHR ''z''] ''/none.jsonl'' ''b'' [] ''/sessions''
      empty_disk = Some (d', Inl (SourceInvalid ''/none.jsonl''))" by blast
  from fork_at_refused [OF d'] d' show ?thesis by simp
qed

text \<open>
  Opening a session file another process holds gives a new session with the same entries whose
  header names the held file as its parent, and leaves that file as it was. The new session however
  does not hold the lock on its own file: the store the fork was built with still does, so the second
  attempt to take it fails.
\<close>

theorem open_held_session:
  assumes "load_entries_from_file d p = (Some h, es)" and "\<forall>e \<in> set es. storable_entry e"
    and "d_locked d p" and "forkable_to w1 w2 p dir d" and "w_read_only w p = None"
    and "lockable w (join_path dir (session_file_name w1))"
  shows "\<exists>s d'. open_session_store [w, w1, w2] p (Some dir) d = Some ((s, d'), True)
    \<and> ss_entries s = es \<and> map_option h_parent_session (ss_header s) = Some p
    \<and> load_entries_from_file d' p = (Some h, es)
    \<and> ss_lock s = None \<and> d_locked d' (ss_file s)"
  using open_locked [OF assms] by blast

theorem open_held_session_witness:
  "\<exists>s d'. open_session_store [sample_world CHR ''x'', sample_world CHR ''y'', sample_world CHR ''z'']
       ''/src.jsonl'' (Some ''/sessions'') (source_disk\<lparr>d_locked := (\<lambda>p. p = ''/src.jsonl'')\<rparr>)
     = Some ((s, d'), True) \<and> ss_entries s = sideways_log \<and> ss_lock s = None"
proof -
  have "forkable_to (sample_world CHR ''y'') (sample_world CHR ''z'') ''/src.jsonl'' ''/sessions''
      (source_disk\<lparr>d_locked := (\<lambda>p. p = ''/src.jsonl'')\<rparr>)"
    by (rule sample_forkable) (simp add: fork_file_def)
  from open_held_session [OF _ sideways_storable _ this, of "fresh_header (sample_world CHR ''w'') ''/repo'' []"
      "sample_world CHR ''x''"] source_disk_loads
  show ?thesis by (auto simp add: lockable_def)
qed

end
