(* ===== verification/CatalogProps.thy ===== *)
theory CatalogProps
  imports Catalog ForkProps
begin

text \<open>
  Properties of the settings history, the session stores and the listings.
\<close>

subsection \<open>Settings\<close>

text \<open>
  a settings snapshot that was saved is the one read back by any later process; the records
  before it are kept in order, the oldest lines going only beyond the cap of a thousand; saving the
  current snapshot again writes nothing. Lines torn by a crash and the legacy file do not disturb
  this.
\<close>

theorem saved_state_is_read:
  assumes ok: "append_state w p v reason d = (d', None)" and p: "p \<noteq> []"
    and r: "read_history w p d = (d1, recs, n)"
  shows "snd (read_state w' p d') = Some v
    \<and> (\<exists>k r. fst (snd (read_history w' p d'))
           \<in> {recs, drop k (recs @ [r])} \<and> (sr_state r = v) \<and> k \<le> length recs)
    \<and> (n \<le> max_state_history \<longrightarrow> snd (snd (read_history w' p d')) \<le> max_state_history)
    \<and> (recs \<noteq> [] \<and> sr_state (last recs) = v \<longrightarrow> d' = d1)"
proof -
  obtain r0 k where h: "snd (read_history w' p d') = (if recs \<noteq> [] \<and> sr_state (last recs) = v
      then (recs, n) else (drop k (recs @ [r0]), min (n + 1) max_state_history))"
    and v: "sr_state r0 = v" and k: "k \<le> length recs"
    using append_state_records [OF ok r p, of w'] by blast
  have "sr_state (last (fst (snd (read_history w' p d')))) = v
      \<and> fst (snd (read_history w' p d')) \<noteq> []"
    using h v k by (auto simp: last_drop)
  then have "snd (read_state w' p d') = Some v"
    by (auto simp: read_state_def case_prod_beta)
  moreover have "recs \<noteq> [] \<and> sr_state (last recs) = v \<longrightarrow> d' = d1"
    using ok r p by (auto simp: append_state_def state_path_def)
  ultimately show ?thesis using h v k by (auto intro!: exI [of _ k] exI [of _ r0])
qed

theorem saved_state_is_read_witness:
  "\<exists>d'. append_state (sample_world CHR ''s'') ''/s.jsonl'' (JObj [(''model'', JStr ''m'')]) [] empty_disk
      = (d', None)
    \<and> snd (read_state (sample_world CHR ''t'') ''/s.jsonl'' d') = Some (JObj [(''model'', JStr ''m'')])"
proof -
  let ?v = "JObj [(''model'', JStr ''m'')]"
  have r: "read_history (sample_world CHR ''s'') ''/s.jsonl'' empty_disk = (empty_disk, [], 0)"
    by (simp add: read_history_def Let_def migrate_legacy_state_def empty_disk_def state_path_def)
  obtain d' where a: "append_record (sample_world CHR ''s'') (state_path ''/s.jsonl'') ?v
      (w_clock (sample_world CHR ''s'')) [] empty_disk = (d', None)"
    by (simp add: append_record_def Let_def)
  have "append_state (sample_world CHR ''s'') ''/s.jsonl'' ?v [] empty_disk = (d', None)"
    using a by (simp add: append_state_def r state_path_def max_state_history_def)
  with saved_state_is_read [OF this _ r] show ?thesis by blast
qed

subsection \<open>Stores\<close>

text \<open>
  Whatever extra stores are configured, a path that lies, with its symbolic links resolved or
  not, in the default sessions directory is never in a read-only store: an extra store that would
  make fir's own sessions read-only is skipped.
\<close>

theorem default_store_writable:
  assumes "configure_stores env root extras = (Some r, skipped)" and "pe_abs env p = Some q"
    and "\<forall>f \<in> set (path_forms env q).
           within f (sr_path (rg_def r)) \<or> within f (resolve_existing env (sr_path (rg_def r)))"
  shows "read_only_store_for env (Some r) p = None"
  using default_path_writable [OF assms(1,2)] assms(3) by auto

definition plain_env :: path_env where
  "plain_env = \<lparr>pe_clean = (\<lambda>p. p), pe_abs = Some, pe_eval = Some\<rparr>"

theorem default_store_writable_witness:
  "read_only_store_for plain_env
     (fst (configure_stores plain_env ''/a/sessions''
        [\<lparr>sr_label = ''bad'', sr_path = ''/a'', sr_read_only = True\<rparr>,
         \<lparr>sr_label = ''nas'', sr_path = ''/b'', sr_read_only = True\<rparr>])) ''/a/sessions/x.jsonl'' = None"
proof -
  let ?extras = "[\<lparr>sr_label = ''bad'', sr_path = ''/a'', sr_read_only = True\<rparr>,
         \<lparr>sr_label = ''nas'', sr_path = ''/b'', sr_read_only = True\<rparr>]"
  have res: "resolve_existing plain_env p = p" for p
    by (rule resolve_eval) (simp add: plain_env_def)
  obtain r skipped where c: "configure_stores plain_env ''/a/sessions'' ?extras = (Some r, skipped)"
    by (simp add: configure_stores_def Let_def case_prod_beta)
  then have "rg_def r = \<lparr>sr_label = default_store_label, sr_path = ''/a/sessions'', sr_read_only = False\<rparr>"
    by (auto simp: configure_stores_def Let_def case_prod_beta plain_env_def)
  with default_store_writable [OF c, of "''/a/sessions/x.jsonl''" "''/a/sessions/x.jsonl''"] c
  show ?thesis
    by (simp add: plain_env_def [THEN arg_cong [where f = pe_abs]] path_forms_def res within_def
        has_prefix_def)
qed

subsection \<open>Listings\<close>



text \<open>
  resuming the most recent session picks a transcript that holds messages, and no other
  candidate of the directory is newer.
\<close>

theorem most_recent_session:
  assumes "find_most_recent_session bytes torn d dir names = p" and "p \<noteq> []"
  shows "\<exists>t. candidate bytes torn d p = Some (p, t)
    \<and> session_file_has_messages torn d p t
    \<and> (\<forall>n \<in> set names. \<forall>q u. is_transcript_name n
         \<and> candidate bytes torn d (join_path dir n) = Some (q, u) \<longrightarrow> u \<le> t)"
proof -
  let ?ps = "map (join_path dir) (filter is_transcript_name names)"
  let ?fs = "List.map_filter (candidate bytes torn d) ?ps"
  have own: "candidate bytes torn d q = Some (q', u) \<Longrightarrow> q' = q \<and> session_file_has_messages torn d q u"
    for q q' u
    by (auto simp: candidate_def split: if_splits option.splits)
  obtain f fs where fs: "?fs = f # fs"
    using assms by (cases ?fs) (auto simp: find_most_recent_session_def)
  then have p: "p = fst (later f fs)" using assms(1) by (simp add: find_most_recent_session_def)
  have l: "later f fs \<in> set ?fs" "\<forall>x \<in> set ?fs. snd x \<le> snd (later f fs)"
    using later_spec [of f fs] unfolding fs by simp_all
  from l(1) obtain q where "candidate bytes torn d q = Some (later f fs)"
    unfolding set_map_filter by blast
  then have c: "candidate bytes torn d p = Some (p, snd (later f fs))"
    using own p by (metis prod.collapse)
  moreover have "u \<le> snd (later f fs)"
    if "n \<in> set names" "is_transcript_name n" "candidate bytes torn d (join_path dir n) = Some (q, u)"
    for n q u
  proof -
    have "(q, u) \<in> set ?fs" unfolding set_map_filter using that by auto
    with l(2) show ?thesis by fastforce
  qed
  ultimately show ?thesis using own by blast
qed

definition listed_disk :: disk where
  "listed_disk = write_lines (sample_world CHR ''w'') ''/sessions/a.jsonl''
     (transcript_lines (fresh_header (sample_world CHR ''w'') ''/repo'' []) [sample_entry ''a'']) empty_disk"

lemma listed_most_recent:
  "find_most_recent_session (\<lambda>_. 200) False listed_disk ''/sessions'' [''a.jsonl''] = ''/sessions/a.jsonl''"
proof -
  have v: "is_valid_session_file (\<lambda>_. 200) listed_disk ''/sessions/a.jsonl''"
    by (simp add: is_valid_session_file_def listed_disk_def write_lines_def set_file_def file_lines_plain
        transcript_lines_def json_of_header_def header_fields fresh_header_def)
  have m: "session_file_has_messages False listed_disk ''/sessions/a.jsonl'' 7"
    by (simp add: session_file_has_messages_def read_sidecar_def listed_disk_def write_lines_def
        set_file_def empty_disk_def file_lines_plain transcript_lines_def json_of_entry_def
        entry_table_def emit_def)
  have "d_files listed_disk ''/sessions/a.jsonl'' \<noteq> None"
    by (simp add: listed_disk_def write_lines_def set_file_def)
  moreover have "\<forall>f. d_files listed_disk ''/sessions/a.jsonl'' = Some f \<longrightarrow> f_mtime f = 7"
    by (simp add: listed_disk_def write_lines_def set_file_def sample_world_def)
  moreover have "is_transcript_name ''a.jsonl''"
    by (simp add: is_transcript_name_def has_prefix_def has_suffix_def)
  ultimately show ?thesis
    using v m by (auto simp: find_most_recent_session_def candidate_def join_path_def List.map_filter_simps)
qed

theorem most_recent_session_witness:
  "\<exists>t. candidate (\<lambda>_. 200) False listed_disk ''/sessions/a.jsonl'' = Some (''/sessions/a.jsonl'', t)"
  using most_recent_session [OF listed_most_recent] by blast

text \<open>
  A transcript whose header line is longer than 512 bytes, as one stamped with a system prompt
  or a list of skills can be, fails the quick check of its first 512 bytes, so however many messages
  it holds it is never the session that is continued.
\<close>

theorem long_header_never_continued:
  assumes "bytes (json_of_header h) > 512"
  shows "find_most_recent_session bytes torn
      (write_lines w (join_path dir name) (transcript_lines h es) d) dir [name] = []"
  using assms
  by (auto simp: find_most_recent_session_def candidate_def is_valid_session_file_def write_lines_def
      set_file_def file_lines_plain transcript_lines_def List.map_filter_simps)

theorem long_header_never_continued_witness:
  "find_most_recent_session (\<lambda>_. 600) True
     (write_lines (sample_world CHR ''w'') (join_path ''/sessions'' ''a.jsonl'')
       (transcript_lines ((fresh_header (sample_world CHR ''w'') ''/repo'' [])
          \<lparr>h_invocation := Some (zero_invocation\<lparr>inv_system_prompt := ''...''\<rparr>)\<rparr>) [sample_entry ''a''])
       empty_disk) ''/sessions'' [''a.jsonl''] = []"
  by (rule long_header_never_continued) simp

end
