(* ===== verification/CutPoint.thy ===== *)
theory CutPoint
  imports SessionContext
begin

text \<open>
  Token accounting (\<^verbatim>\<open>pkg/session/compaction/tokens.go\<close>): the estimate of four bytes per token, the
  usage a provider reported, and the decision to compact.

  The length of the JSON text of a tool call's arguments is the parameter \<open>args_len\<close>.

  Where a session is cut for compaction (\<^verbatim>\<open>pkg/session/compaction/cutpoint.go\<close>): walking back from
  the end until enough recent tokens are gathered, then to the next place where a cut is valid,
  which is never in front of a tool result.
\<close>

record compaction_settings =
  cp_enabled :: bool
  cp_reserve_tokens :: go_int
  cp_keep_recent :: go_int
  cp_max_context :: go_int

definition default_compaction_settings :: compaction_settings where
  "default_compaction_settings =
     \<lparr>cp_enabled = True, cp_reserve_tokens = 16384, cp_keep_recent = 20000, cp_max_context = 0\<rparr>"

record context_usage_estimate =
  cu_tokens :: go_int
  cu_usage_tokens :: go_int
  cu_trailing_tokens :: go_int
  cu_last_usage :: "nat option"

definition calculate_context_tokens :: "usage \<Rightarrow> go_int" where
  "calculate_context_tokens u =
     (if u_total u > 0 then u_total u
      else u_input u + u_output u + u_cache_read u + u_cache_write u)"

fun get_assistant_usage :: "agent_message \<Rightarrow> usage option" where
  "get_assistant_usage (Msg (MAssistant a)) =
     (if am_stop a = StopAborted \<or> am_stop a = StopError then None
      else let u = am_usage a
           in if u_total u = 0 \<and> u_input u = 0 \<and> u_output u = 0 \<and> u_cache_read u = 0
                 \<and> u_cache_write u = 0
              then None else Some u)"
| "get_assistant_usage _ = None"

subsection \<open>Estimates\<close>

text \<open>\<^verbatim>\<open>int(math.Ceil(float64(chars) / 4))\<close>.\<close>

definition quarter_up :: "nat \<Rightarrow> go_int" where
  "quarter_up chars = int ((chars + 3) div 4)"

fun custom_chars :: "custom \<Rightarrow> nat" where
  "custom_chars (Bash m) = length (be_command m) + length (be_output m)"
| "custom_chars (BranchSummary m) = length (bs_summary m)"
| "custom_chars (CompactionSummary m) = length (cs_summary m)"
| "custom_chars (CustomMsg m) = (case cm_content m of JStr s \<Rightarrow> length s | _ \<Rightarrow> 0)"
| "custom_chars UnknownCustom = 0"

definition user_chars :: "json \<Rightarrow> nat" where
  "user_chars content =
     (case content of
        JStr s \<Rightarrow> length s
      | JArr blocks \<Rightarrow> sum_list (map length (List.map_filter block_text blocks))
      | _ \<Rightarrow> 0)"

fun block_chars :: "(members \<Rightarrow> nat) \<Rightarrow> assistant_content \<Rightarrow> nat" where
  "block_chars args_len (CText t) = length (txt_text t)"
| "block_chars args_len (CThinking t) = length (th_text t)"
| "block_chars args_len (CToolCall tc) = length (tc_name tc) + args_len (tc_args tc)"
| "block_chars args_len _ = 0"

definition result_chars :: "result_content \<Rightarrow> nat" where
  "result_chars c = (if rc_is_text c then length (rc_text c) else 0) + (if rc_is_image c then 4800 else 0)"

fun message_chars :: "(members \<Rightarrow> nat) \<Rightarrow> message \<Rightarrow> nat" where
  "message_chars args_len (MUser u) = user_chars (um_content u)"
| "message_chars args_len (MAssistant a) = sum_list (map (block_chars args_len) (am_content a))"
| "message_chars args_len (MToolResult tr) = sum_list (map result_chars (tr_content tr))"
| "message_chars args_len (MOther r) = 0"

fun estimate_tokens :: "(members \<Rightarrow> nat) \<Rightarrow> agent_message \<Rightarrow> go_int" where
  "estimate_tokens args_len (Custom c) = quarter_up (custom_chars c)"
| "estimate_tokens args_len (Msg m) = quarter_up (message_chars args_len m)"

definition sum_estimates :: "(members \<Rightarrow> nat) \<Rightarrow> agent_message list \<Rightarrow> go_int" where
  "sum_estimates args_len ms = sum_list (map (estimate_tokens args_len) ms)"

definition estimate_context_tokens ::
  "(members \<Rightarrow> nat) \<Rightarrow> agent_message list \<Rightarrow> context_usage_estimate" where
  "estimate_context_tokens args_len ms =
     (case find_last (\<lambda>m. get_assistant_usage m \<noteq> None) ms of
        None \<Rightarrow>
          \<lparr>cu_tokens = sum_estimates args_len ms, cu_usage_tokens = 0,
           cu_trailing_tokens = sum_estimates args_len ms, cu_last_usage = None\<rparr>
      | Some i \<Rightarrow>
          let used = calculate_context_tokens (the (get_assistant_usage (ms ! i)));
              trailing = sum_estimates args_len (drop (Suc i) ms)
          in \<lparr>cu_tokens = used + trailing, cu_usage_tokens = used, cu_trailing_tokens = trailing,
              cu_last_usage = Some i\<rparr>)"

text \<open>
  The fill ratio is compared in floating point, \<^verbatim>\<open>float64(t)/float64(w) >= 0.70\<close>. The model compares
  exactly, \<open>10 * t \<ge> 7 * w\<close>. The two agree for windows below $10^{14}$: a quotient below 7/10 is
  below it by at least 1/(10w), far more than the rounding of the quotient and of the constant.
\<close>

definition should_compact :: "go_int \<Rightarrow> go_int \<Rightarrow> compaction_settings \<Rightarrow> bool" where
  "should_compact tokens window s =
     (if \<not> cp_enabled s \<or> window \<le> 0 then False
      else if cp_max_context s > 0 \<and> tokens > cp_max_context s then True
      else 10 * tokens \<ge> 7 * window)"

subsection \<open>Facts\<close>

lemma quarter_up_nonneg [simp]: "0 \<le> quarter_up n"
  by (simp add: quarter_up_def)

lemma estimate_tokens_nonneg [simp]: "0 \<le> estimate_tokens args_len m"
  by (cases m) simp_all

lemma sum_estimates_nonneg [simp]: "0 \<le> sum_estimates args_len ms"
  unfolding sum_estimates_def by (rule sum_list_nonneg_int) simp

lemma sum_estimates_append [simp]:
  "sum_estimates args_len (xs @ ys) = sum_estimates args_len xs + sum_estimates args_len ys"
  by (simp add: sum_estimates_def)

lemma should_compact_mono:
  "should_compact t w s \<Longrightarrow> t \<le> t' \<Longrightarrow> should_compact t' w s"
  by (auto simp: should_compact_def split: if_splits)


record cut_point_result =
  cut_first_kept :: nat
  cut_turn_start :: "nat option"
  cut_split :: bool

text \<open>
  A failed \<^verbatim>\<open>Unmarshal\<close> into the role probe is ignored: members of the right kind are kept.
\<close>

definition lenient_str :: "json list \<Rightarrow> string" where
  "lenient_str vs = fold (\<lambda>v cur. case v of JStr s \<Rightarrow> s | _ \<Rightarrow> cur) vs []"

definition get_message_role :: "session_entry \<Rightarrow> string" where
  "get_message_role e =
     (if e_type e \<noteq> ''message'' then []
      else case e_message e of
          None \<Rightarrow> []
        | Some j \<Rightarrow>
            (case object_members j of
               None \<Rightarrow> []
             | Some ms \<Rightarrow> lenient_str (field_vals ''role'' ms)))"

definition cut_roles :: "string list" where
  "cut_roles = [''bashExecution'', ''custom'', ''branchSummary'', ''compactionSummary'', ''user'', ''assistant'']"

definition valid_cut :: "session_entry \<Rightarrow> bool" where
  "valid_cut e \<longleftrightarrow>
     (if e_type e = ''message'' then get_message_role e \<in> set cut_roles
      else e_type e = ''branch_summary'' \<or> e_type e = ''custom_message'')"

definition find_valid_cut_points :: "session_entry list \<Rightarrow> nat \<Rightarrow> nat \<Rightarrow> nat list" where
  "find_valid_cut_points es start stop = filter (\<lambda>i. valid_cut (es ! i)) [start..<stop]"

definition starts_turn :: "session_entry \<Rightarrow> bool" where
  "starts_turn e \<longleftrightarrow>
     e_type e = ''branch_summary'' \<or> e_type e = ''custom_message''
     \<or> (e_type e = ''message'' \<and> get_message_role e \<in> {''user'', ''bashExecution''})"

text \<open>\<open>None\<close> is the code's \<^verbatim>\<open>-1\<close>; the loop runs from \<open>i\<close> down to \<open>start\<close>.\<close>

fun find_turn_start_index :: "session_entry list \<Rightarrow> nat \<Rightarrow> nat \<Rightarrow> nat option" where
  "find_turn_start_index es 0 start =
     (if start \<le> 0 \<and> starts_turn (es ! 0) then Some 0 else None)"
| "find_turn_start_index es (Suc i) start =
     (if Suc i < start then None
      else if starts_turn (es ! Suc i) then Some (Suc i)
      else find_turn_start_index es i start)"

text \<open>The tokens of one entry, as the backward walk counts them.\<close>

definition entry_tokens :: "(members \<Rightarrow> nat) \<Rightarrow> decoders \<Rightarrow> session_entry \<Rightarrow> go_int" where
  "entry_tokens args_len dc e =
     (if e_type e \<noteq> ''message'' then 0
      else case Option.bind (e_message e) (dc_message dc) of
          None \<Rightarrow> 0
        | Some m \<Rightarrow> estimate_tokens args_len (Msg m))"

definition counted :: "decoders \<Rightarrow> session_entry \<Rightarrow> bool" where
  "counted dc e \<longleftrightarrow> e_type e = ''message'' \<and> Option.bind (e_message e) (dc_message dc) \<noteq> None"

text \<open>
  The backward walk over \<open>[start, i)\<close>: the index at which the gathered tokens reach the budget. The
  test is made only at entries that count.
\<close>

fun budget_index ::
  "(members \<Rightarrow> nat) \<Rightarrow> decoders \<Rightarrow> session_entry list \<Rightarrow> nat \<Rightarrow> go_int \<Rightarrow> go_int \<Rightarrow> nat \<Rightarrow> nat option" where
  "budget_index args_len dc es start keep acc 0 = None"
| "budget_index args_len dc es start keep acc (Suc i) =
     (if i < start then None
      else if \<not> counted dc (es ! i) then budget_index args_len dc es start keep acc i
      else let acc' = acc + entry_tokens args_len dc (es ! i)
           in if acc' \<ge> keep then Some i else budget_index args_len dc es start keep acc' i)"

text \<open>Moving the cut back over the entries that are neither messages nor compactions.\<close>

fun back_over :: "session_entry list \<Rightarrow> nat \<Rightarrow> nat \<Rightarrow> nat" where
  "back_over es start 0 = 0"
| "back_over es start (Suc i) =
     (if Suc i > start \<and> e_type (es ! i) \<noteq> ''compaction'' \<and> e_type (es ! i) \<noteq> ''message''
      then back_over es start i else Suc i)"

definition cut_index ::
  "(members \<Rightarrow> nat) \<Rightarrow> decoders \<Rightarrow> session_entry list \<Rightarrow> nat \<Rightarrow> nat \<Rightarrow> go_int \<Rightarrow> nat list \<Rightarrow> nat" where
  "cut_index args_len dc es start stop keep cuts =
     (case budget_index args_len dc es start keep 0 stop of
        None \<Rightarrow> hd cuts
      | Some i \<Rightarrow> (case find (\<lambda>c. i \<le> c) cuts of None \<Rightarrow> hd cuts | Some c \<Rightarrow> c))"

definition find_cut_point ::
  "(members \<Rightarrow> nat) \<Rightarrow> decoders \<Rightarrow> session_entry list \<Rightarrow> nat \<Rightarrow> nat \<Rightarrow> go_int \<Rightarrow> cut_point_result" where
  "find_cut_point args_len dc es start stop keep =
     (let cuts = find_valid_cut_points es start stop
      in if cuts = [] then \<lparr>cut_first_kept = start, cut_turn_start = None, cut_split = False\<rparr>
         else
           let cut = back_over es start (cut_index args_len dc es start stop keep cuts);
               is_user = (get_message_role (es ! cut) = ''user'');
               turn = (if is_user then None else find_turn_start_index es cut start)
           in \<lparr>cut_first_kept = cut, cut_turn_start = turn, cut_split = (\<not> is_user \<and> turn \<noteq> None)\<rparr>)"

subsection \<open>Messages of entries\<close>

text \<open>
  \<^verbatim>\<open>getMessageFromEntry\<close>. The content of a custom message is decoded as a value; \<open>JNull\<close> is Go's
  \<^verbatim>\<open>nil\<close>.
\<close>

definition get_message_from_entry :: "decoders \<Rightarrow> session_entry \<Rightarrow> agent_message option" where
  "get_message_from_entry dc e =
     (if e_type e = ''message'' then
        map_option Msg (Option.bind (e_message e) (dc_message dc))
      else if e_type e = ''custom_message'' then
        (case e_content e of
           Some content \<Rightarrow>
             if e_custom_type e \<noteq> [] then
               Some (Custom (CustomMsg
                 \<lparr>cm_custom_type = e_custom_type e, cm_content = content, cm_display = e_display e,
                  cm_details = None, cm_timestamp = dc_time dc (e_timestamp e)\<rparr>))
             else None
         | None \<Rightarrow> None)
      else if e_type e = ''branch_summary'' then
        (if e_summary e \<noteq> [] then
           Some (create_branch_summary_message (e_summary e) (e_from_id e) (dc_time dc (e_timestamp e)))
         else None)
      else if e_type e = ''compaction'' then
        (if e_summary e \<noteq> [] then
           Some (create_compaction_summary_message (e_summary e) (e_tokens_before e)
                   (dc_time dc (e_timestamp e)))
         else None)
      else None)"

subsection \<open>Facts\<close>

lemma valid_cut_points:
  "c \<in> set (find_valid_cut_points es start stop) \<longleftrightarrow> start \<le> c \<and> c < stop \<and> valid_cut (es ! c)"
  by (auto simp: find_valid_cut_points_def)

lemma back_over_le: "back_over es start i \<le> i"
  by (induction i) auto

lemma back_over_start: "start \<le> i \<Longrightarrow> start \<le> back_over es start i"
  by (induction i) auto

lemma back_over_skipped:
  "back_over es start i \<le> j \<Longrightarrow> j < i \<Longrightarrow> e_type (es ! j) \<noteq> ''message'' \<and> e_type (es ! j) \<noteq> ''compaction''"
  by (induction i) (auto simp: less_Suc_eq split: if_splits)

lemma budget_index_bounds:
  "budget_index args_len dc es start keep acc i = Some k \<Longrightarrow> start \<le> k \<and> k < i \<and> counted dc (es ! k)"
  by (induction i arbitrary: acc) (fastforce simp: Let_def split: if_splits)+

lemma cut_index_cut:
  assumes "cuts \<noteq> []"
  shows "cut_index args_len dc es start stop keep cuts \<in> set cuts"
  using assms by (auto simp: cut_index_def find_Some_iff split: option.splits)

lemma find_turn_start_bounds:
  "find_turn_start_index es i start = Some t \<Longrightarrow> start \<le> t \<and> t \<le> i \<and> starts_turn (es ! t)"
  by (induction i) (auto split: if_splits)

text \<open>The tokens gathered from \<open>[k, i)\<close>.\<close>

definition tokens_between :: "(members \<Rightarrow> nat) \<Rightarrow> decoders \<Rightarrow> session_entry list \<Rightarrow> nat \<Rightarrow> nat \<Rightarrow> go_int" where
  "tokens_between args_len dc es i j = sum_list (map (\<lambda>k. entry_tokens args_len dc (es ! k)) [i..<j])"

lemma entry_tokens_nonneg [simp]: "0 \<le> entry_tokens args_len dc e"
  by (simp add: entry_tokens_def split: option.split)

lemma entry_tokens_uncounted: "\<not> counted dc e \<Longrightarrow> entry_tokens args_len dc e = 0"
  by (auto simp: entry_tokens_def counted_def split: option.split)

lemma tokens_between_empty [simp]: "j \<le> i \<Longrightarrow> tokens_between args_len dc es i j = 0"
  by (simp add: tokens_between_def)

lemma tokens_between_Suc:
  "i \<le> j \<Longrightarrow> tokens_between args_len dc es i (Suc j)
     = tokens_between args_len dc es i j + entry_tokens args_len dc (es ! j)"
  by (simp add: tokens_between_def)

lemma tokens_between_split:
  assumes "i \<le> k" and "k \<le> j"
  shows "tokens_between args_len dc es i j
    = tokens_between args_len dc es i k + tokens_between args_len dc es k j"
proof -
  have "[i..<j] = [i..<k] @ [k..<j]"
    using assms by (metis le_iff_add upt_add_eq_append)
  then show ?thesis by (simp add: tokens_between_def)
qed

lemma tokens_between_nonneg [simp]: "0 \<le> tokens_between args_len dc es i j"
  unfolding tokens_between_def by (rule sum_list_nonneg_int) simp

text \<open>
  Where the walk stops: the tokens from there on reach the budget, those after it do not; where it
  does not stop, the whole range is below the budget.
\<close>

lemma budget_index_spec:
  assumes "acc < keep"
  shows "(budget_index args_len dc es start keep acc i = Some k \<longrightarrow>
            acc + tokens_between args_len dc es k i \<ge> keep
            \<and> acc + tokens_between args_len dc es (Suc k) i < keep)
       \<and> (budget_index args_len dc es start keep acc i = None \<longrightarrow>
            acc + tokens_between args_len dc es start i < keep)"
  using assms
proof (induction i arbitrary: acc)
  case 0
  then show ?case by simp
next
  case (Suc i)
  let ?t = "entry_tokens args_len dc (es ! i)"
  consider "i < start" | "start \<le> i" "\<not> counted dc (es ! i)"
    | "start \<le> i" "counted dc (es ! i)" "acc + ?t \<ge> keep"
    | "start \<le> i" "counted dc (es ! i)" "acc + ?t < keep" by linarith
  then show ?case
  proof cases
    case 1
    with Suc.prems show ?thesis by simp
  next
    case 2
    have k: "k < i" if "budget_index args_len dc es start keep acc i = Some k"
      using budget_index_bounds [OF that] by simp
    from 2 Suc.IH [OF Suc.prems] show ?thesis
      using k by (auto simp: tokens_between_Suc entry_tokens_uncounted)
  next
    case 3
    with Suc.prems show ?thesis by (auto simp: tokens_between_Suc)
  next
    case 4
    have k: "k < i" if "budget_index args_len dc es start keep (acc + ?t) i = Some k"
      using budget_index_bounds [OF that] by simp
    from 4 Suc.IH [OF 4(3)] show ?thesis
      using k by (auto simp: tokens_between_Suc Let_def algebra_simps)
  qed
qed

text \<open>
  The entries between the kept entry and the cut the walk chose are neither messages nor
  compactions, so the first message kept is at a valid cut.
\<close>

lemma find_cut_point_cut:
  assumes "find_valid_cut_points es start stop \<noteq> []"
  shows "\<exists>c. valid_cut (es ! c) \<and> cut_first_kept (find_cut_point args_len dc es start stop keep) \<le> c
     \<and> start \<le> cut_first_kept (find_cut_point args_len dc es start stop keep) \<and> c < stop
     \<and> (\<forall>j. cut_first_kept (find_cut_point args_len dc es start stop keep) \<le> j \<and> j < c \<longrightarrow>
           e_type (es ! j) \<noteq> ''message'' \<and> e_type (es ! j) \<noteq> ''compaction'')
     \<and> c = cut_index args_len dc es start stop keep (find_valid_cut_points es start stop)
     \<and> cut_first_kept (find_cut_point args_len dc es start stop keep) = back_over es start c"
proof -
  let ?c = "cut_index args_len dc es start stop keep (find_valid_cut_points es start stop)"
  have c: "start \<le> ?c" "?c < stop" "valid_cut (es ! ?c)"
    using cut_index_cut [OF assms] by (simp_all add: valid_cut_points)
  have k: "cut_first_kept (find_cut_point args_len dc es start stop keep) = back_over es start ?c"
    using assms by (simp add: find_cut_point_def Let_def)
  show ?thesis
    unfolding k using c back_over_le back_over_start [OF c(1)] back_over_skipped by blast
qed

end
