(* ===== verification/FileOps.thy ===== *)
theory FileOps
  imports CutPoint "HOL-Library.List_Lexorder" "HOL-Library.Char_ord"
begin

text \<open>
  What compaction keeps verbatim: the files a conversation read and wrote
  (\<^verbatim>\<open>pkg/session/compaction/fileops.go\<close>) and the commands and error lines in it (\<^verbatim>\<open>facts.go\<close>).

  The regular expressions are parameters: \<open>re_redirects\<close> and \<open>re_tees\<close> give the first submatch of
  every match of \<^verbatim>\<open>bashRedirectRe\<close> and \<^verbatim>\<open>bashTeeRe\<close>, \<open>re_error\<close> whether \<^verbatim>\<open>factErrorRe\<close> matches a
  line. Go sets of paths are lists without repetition; their order is never looked at.
\<close>

record regexes =
  re_redirects :: "string \<Rightarrow> string list"
  re_tees :: "string \<Rightarrow> string list"
  re_error :: "string \<Rightarrow> bool"

record file_operations =
  fo_read :: "path list"
  fo_written :: "path list"
  fo_edited :: "path list"
  fo_entry_ids :: "path \<Rightarrow> entry_id option"

definition new_file_operations :: file_operations where
  "new_file_operations = \<lparr>fo_read = [], fo_written = [], fo_edited = [], fo_entry_ids = Map.empty\<rparr>"

datatype file_op = OpRead | OpWrite | OpEdit

definition record_op :: "entry_id \<Rightarrow> file_op \<Rightarrow> path \<Rightarrow> file_operations \<Rightarrow> file_operations" where
  "record_op i op p fo =
     (if p = [] then fo
      else let fo1 = (case op of
                 OpRead \<Rightarrow> fo\<lparr>fo_read := List.insert p (fo_read fo)\<rparr>
               | OpWrite \<Rightarrow> fo\<lparr>fo_written := List.insert p (fo_written fo)\<rparr>
               | OpEdit \<Rightarrow> fo\<lparr>fo_edited := List.insert p (fo_edited fo)\<rparr>)
           in if i \<noteq> [] then fo1\<lparr>fo_entry_ids := (fo_entry_ids fo1)(p \<mapsto> i)\<rparr> else fo1)"

definition normalise_bash_target :: "string \<Rightarrow> string" where
  "normalise_bash_target tok =
     (let t = trim_bytes [CHR 0x22, CHR 0x27] tok
      in if t = [] then []
         else if has_prefix t ''&'' then []
         else if t \<in> {''/dev/null'', ''/dev/stdout'', ''/dev/stderr'', ''/dev/tty''} then []
         else t)"

definition extract_bash_written_paths :: "regexes \<Rightarrow> string \<Rightarrow> path list" where
  "extract_bash_written_paths re cmd =
     (if cmd = [] then []
      else remdups (filter (\<lambda>p. p \<noteq> [])
             (map normalise_bash_target (re_redirects re cmd @ re_tees re cmd))))"

definition call_file_ops :: "regexes \<Rightarrow> entry_id \<Rightarrow> tool_call \<Rightarrow> file_operations \<Rightarrow> file_operations" where
  "call_file_ops re i tc fo =
     (if tc_name tc = ''bash'' then
        fold (record_op i OpWrite)
          (extract_bash_written_paths re (the_default [] (get_str (tc_args tc) ''command''))) fo
      else case get_str (tc_args tc) ''path'' of
          None \<Rightarrow> fo
        | Some p \<Rightarrow>
            if p = [] then fo
            else if tc_name tc = ''read'' then record_op i OpRead p fo
            else if tc_name tc = ''write'' then record_op i OpWrite p fo
            else if tc_name tc \<in> {''edit'', ''multi_edit'', ''MultiEdit''} then record_op i OpEdit p fo
            else fo)"

fun extract_file_ops_from_message ::
  "regexes \<Rightarrow> agent_message \<Rightarrow> entry_id \<Rightarrow> file_operations \<Rightarrow> file_operations" where
  "extract_file_ops_from_message re (Msg (MAssistant a)) i fo =
     fold (call_file_ops re i) (tool_calls_of (am_content a)) fo"
| "extract_file_ops_from_message re _ i fo = fo"

definition compute_file_lists :: "file_operations \<Rightarrow> path list \<times> path list" where
  "compute_file_lists fo =
     (let modified = List.union (fo_edited fo) (fo_written fo)
      in (sort (filter (\<lambda>f. f \<notin> set modified) (fo_read fo)), sort modified))"

definition render_path :: "(path \<Rightarrow> entry_id option) \<Rightarrow> path \<Rightarrow> string" where
  "render_path ids p =
     (case ids p of
        None \<Rightarrow> p
      | Some i \<Rightarrow> if i = [] then p else p @ '' (entry '' @ i @ '')'')"

definition format_file_operations ::
  "path list \<Rightarrow> path list \<Rightarrow> (path \<Rightarrow> entry_id option) \<Rightarrow> string" where
  "format_file_operations read_files modified_files ids =
     (let section_of = (\<lambda>tag ps. if ps = [] then []
            else [''<'' @ tag @ ''>'' @ nl @ join nl (map (render_path ids) ps) @ nl @ ''</'' @ tag @ ''>'']);
          sections = section_of ''read-files'' read_files @ section_of ''modified-files'' modified_files
      in if sections = [] then [] else nl @ nl @ join (nl @ nl) sections)"

subsection \<open>Facts\<close>

record facts =
  fa_commands :: "string list"
  fa_errors :: "string list"

definition fact_error_lines :: "regexes \<Rightarrow> string \<Rightarrow> string list" where
  "fact_error_lines re text =
     filter (\<lambda>l. l \<noteq> [] \<and> length l \<le> 240 \<and> re_error re l)
       (map (trim_right_bytes [CHR '' '', CHR 0x09, CHR 0x0D]) (split_on newline text))"

definition push_new :: "string \<Rightarrow> string list \<Rightarrow> string list" where
  "push_new x xs = (if x \<in> set xs then xs else xs @ [x])"

definition call_command :: "tool_call \<Rightarrow> string" where
  "call_command tc =
     (if tc_name tc = ''bash'' then trim_space (the_default [] (get_str (tc_args tc) ''command'')) else [])"

fun message_facts :: "regexes \<Rightarrow> agent_message \<Rightarrow> facts \<Rightarrow> facts" where
  "message_facts re (Msg (MAssistant a)) f =
     f\<lparr>fa_commands := fold push_new
          (filter (\<lambda>c. c \<noteq> []) (map call_command (tool_calls_of (am_content a)))) (fa_commands f)\<rparr>"
| "message_facts re (Msg (MToolResult tr)) f =
     f\<lparr>fa_errors := fold push_new
          (concat (map (\<lambda>c. fact_error_lines re (rc_text c)) (filter rc_is_text (tr_content tr))))
          (fa_errors f)\<rparr>"
| "message_facts re _ f = f"

definition keep_newest :: "nat \<Rightarrow> 'a list \<Rightarrow> 'a list" where
  "keep_newest n xs = drop (length xs - n) xs"

definition extract_facts :: "regexes \<Rightarrow> agent_message list \<Rightarrow> int \<Rightarrow> facts" where
  "extract_facts re ms limit =
     (let n = (if limit \<le> 0 then 20 else nat limit);
          f = fold (message_facts re) ms \<lparr>fa_commands = [], fa_errors = []\<rparr>
      in \<lparr>fa_commands = keep_newest n (fa_commands f), fa_errors = keep_newest n (fa_errors f)\<rparr>)"

definition fact_block :: "string \<Rightarrow> string list \<Rightarrow> string" where
  "fact_block title xs =
     (if xs = [] then []
      else nl @ ''### '' @ title @ nl @ fence @ nl @ concat (map (\<lambda>x. x @ nl) xs) @ fence @ nl)"

definition format_facts :: "facts \<Rightarrow> string" where
  "format_facts f =
     (if fa_commands f = [] \<and> fa_errors f = [] then []
      else nl @ nl @ ''## Facts (verbatim)'' @ nl
           @ fact_block ''Commands'' (fa_commands f)
           @ fact_block ''Errors / exit codes'' (fa_errors f))"

subsection \<open>What is recorded\<close>

definition well_recorded :: "file_operations \<Rightarrow> bool" where
  "well_recorded fo \<longleftrightarrow> distinct (fo_read fo) \<and> distinct (fo_written fo) \<and> distinct (fo_edited fo)"

lemma record_op_well: "well_recorded fo \<Longrightarrow> well_recorded (record_op i op p fo)"
  by (cases op) (simp_all add: record_op_def well_recorded_def Let_def)

lemma fold_record_well: "well_recorded fo \<Longrightarrow> well_recorded (fold (record_op i op) ps fo)"
  by (induction ps arbitrary: fo) (simp_all add: record_op_well)

lemma call_file_ops_well: "well_recorded fo \<Longrightarrow> well_recorded (call_file_ops re i tc fo)"
  by (auto simp: call_file_ops_def fold_record_well record_op_well split: option.split)

lemma fold_calls_well: "well_recorded fo \<Longrightarrow> well_recorded (fold (call_file_ops re i) tcs fo)"
  by (induction tcs arbitrary: fo) (simp_all add: call_file_ops_well)

lemma extract_ops_well: "well_recorded fo \<Longrightarrow> well_recorded (extract_file_ops_from_message re m i fo)"
  by (induction re m i fo rule: extract_file_ops_from_message.induct) (simp_all add: fold_calls_well)

text \<open>Recording only adds.\<close>

definition records_more :: "file_operations \<Rightarrow> file_operations \<Rightarrow> bool" where
  "records_more fo fo' \<longleftrightarrow>
     set (fo_read fo) \<subseteq> set (fo_read fo') \<and> set (fo_written fo) \<subseteq> set (fo_written fo')
     \<and> set (fo_edited fo) \<subseteq> set (fo_edited fo')"

lemma records_more_refl [simp]: "records_more fo fo"
  by (simp add: records_more_def)

lemma records_more_trans: "records_more a b \<Longrightarrow> records_more b c \<Longrightarrow> records_more a c"
  by (auto simp: records_more_def)

lemma record_op_more: "records_more fo (record_op i op p fo)"
  by (cases op) (auto simp: record_op_def records_more_def Let_def)

lemma fold_more: "(\<And>x s. records_more s (f x s)) \<Longrightarrow> records_more s (fold f xs s)"
proof (induction xs arbitrary: s)
  case Nil
  then show ?case by simp
next
  case (Cons x xs)
  have "records_more s (f x s)" by (rule Cons.prems)
  moreover have "records_more (f x s) (fold f xs (f x s))" by (rule Cons.IH [OF Cons.prems])
  ultimately show ?case using records_more_trans by simp
qed

lemma call_file_ops_more: "records_more fo (call_file_ops re i tc fo)"
  by (auto simp: call_file_ops_def fold_more record_op_more split: option.split)

lemma extract_ops_more: "records_more fo (extract_file_ops_from_message re m i fo)"
  by (induction re m i fo rule: extract_file_ops_from_message.induct)
    (simp_all add: fold_more call_file_ops_more)

lemma compute_lists_spec:
  assumes "well_recorded fo" and "compute_file_lists fo = (rs, ms)"
  shows "set ms = set (fo_written fo) \<union> set (fo_edited fo)"
    and "set rs = set (fo_read fo) - set ms"
    and "sorted rs" "sorted ms" "distinct rs" "distinct ms"
  using assms by (auto simp: compute_file_lists_def Let_def well_recorded_def)

subsection \<open>What the facts are\<close>

lemma push_new_facts:
  "set (push_new x xs) = insert x (set xs)" "distinct xs \<Longrightarrow> distinct (push_new x xs)"
  by (auto simp: push_new_def)

lemma fold_push_new:
  "set (fold push_new ys xs) = set ys \<union> set xs" "distinct xs \<Longrightarrow> distinct (fold push_new ys xs)"
  by (induction ys arbitrary: xs) (auto simp: push_new_facts)

fun message_commands :: "agent_message \<Rightarrow> string set" where
  "message_commands (Msg (MAssistant a)) =
     {c. c \<noteq> [] \<and> (\<exists>tc \<in> set (tool_calls_of (am_content a)). c = call_command tc)}"
| "message_commands _ = {}"

lemma message_facts_commands:
  "set (fa_commands (message_facts re m f)) = message_commands m \<union> set (fa_commands f)"
  "distinct (fa_commands f) \<Longrightarrow> distinct (fa_commands (message_facts re m f))"
  "distinct (fa_errors f) \<Longrightarrow> distinct (fa_errors (message_facts re m f))"
  by (induction re m f rule: message_facts.induct) (auto simp: fold_push_new)

lemma fold_message_facts:
  "set (fa_commands (fold (message_facts re) ms f)) = \<Union> (message_commands ` set ms) \<union> set (fa_commands f)"
  "distinct (fa_commands f) \<Longrightarrow> distinct (fa_commands (fold (message_facts re) ms f))"
  "distinct (fa_errors f) \<Longrightarrow> distinct (fa_errors (fold (message_facts re) ms f))"
  by (induction ms arbitrary: f) (auto simp: message_facts_commands)

lemma keep_newest_facts:
  "length (keep_newest n xs) = min n (length xs)" "set (keep_newest n xs) \<subseteq> set xs"
  "distinct xs \<Longrightarrow> distinct (keep_newest n xs)" "length xs \<le> n \<Longrightarrow> keep_newest n xs = xs"
  by (auto simp: keep_newest_def dest: in_set_dropD)

end
