(* ===== verification/Serialize.thy ===== *)
theory Serialize
  imports FileOps
begin

text \<open>
  The text a conversation is summarised from (\<^verbatim>\<open>pkg/session/compaction/serialize.go\<close> and the prompt
  building of \<^verbatim>\<open>prompts.go\<close>): one part per message, thinking left out, large or old tool results
  replaced by a stub that keeps a head and a tail cut at rune boundaries.

  \<open>qt_quote\<close> is \<^verbatim>\<open>%q\<close> and \<open>qt_value\<close> is \<^verbatim>\<open>%v\<close> of \<^verbatim>\<open>fmt\<close>; \<open>qt_prompt\<close>, \<open>qt_update_prompt\<close> and
  \<open>qt_prefix_prompt\<close> are the three instruction texts, whose wording nothing depends on. Arguments of a
  call are a Go map, printed in an unspecified order; the model keeps the order they have.
\<close>

record texts =
  qt_quote :: "string \<Rightarrow> string"
  qt_value :: "json \<Rightarrow> string"
  qt_prompt :: string
  qt_update_prompt :: string
  qt_prefix_prompt :: string

record stub_options =
  so_size_threshold :: int
  so_head_bytes :: int
  so_tail_bytes :: int
  so_oldest_kept :: int

definition default_stub_options :: stub_options where
  "default_stub_options =
     \<lparr>so_size_threshold = 4096, so_head_bytes = 128, so_tail_bytes = 128, so_oldest_kept = 0\<rparr>"

subsection \<open>Cutting at rune boundaries\<close>

fun back_to_start :: "string \<Rightarrow> nat \<Rightarrow> nat" where
  "back_to_start s 0 = 0"
| "back_to_start s (Suc n) = (if rune_start (s ! Suc n) then Suc n else back_to_start s n)"

definition utf8_prefix :: "string \<Rightarrow> int \<Rightarrow> string" where
  "utf8_prefix s n =
     (if n \<le> 0 then []
      else if n \<ge> int (length s) then s
      else take (back_to_start s (nat n)) s)"

definition utf8_suffix :: "string \<Rightarrow> int \<Rightarrow> string" where
  "utf8_suffix s n =
     (if n \<le> 0 then []
      else if n \<ge> int (length s) then s
      else dropWhile (\<lambda>c. \<not> rune_start c) (drop (length s - nat n) s))"

definition format_tool_result_stub ::
  "texts \<Rightarrow> entry_id \<Rightarrow> string \<Rightarrow> string \<Rightarrow> stub_options \<Rightarrow> string" where
  "format_tool_result_stub q i tool text opts =
     (let long = int (length text) > so_head_bytes opts + so_tail_bytes opts;
          head = (if long then utf8_prefix text (so_head_bytes opts) else text);
          tail = (if long then utf8_suffix text (so_tail_bytes opts) else []);
          tok = (if i \<noteq> [] then ''entry '' @ i else ''entry=?'')
      in ''['' @ tok @ '' tool='' @ (if tool = [] then ''?'' else tool)
         @ '' bytes='' @ itoa (int (length text)) @ '' head='' @ qt_quote q head
         @ '' tail='' @ qt_quote q tail @ '']'')"

subsection \<open>Parts\<close>

definition extract_text_from_user_content :: "json \<Rightarrow> string" where
  "extract_text_from_user_content c =
     (case c of
        JStr s \<Rightarrow> s
      | JArr blocks \<Rightarrow> concat (List.map_filter block_text blocks)
      | _ \<Rightarrow> [])"

definition to_json_text :: "texts \<Rightarrow> json \<Rightarrow> string" where
  "to_json_text q v = (case v of JStr s \<Rightarrow> qt_quote q s | _ \<Rightarrow> qt_value q v)"

fun text_parts :: "assistant_content list \<Rightarrow> string list" where
  "text_parts [] = []"
| "text_parts (CText t # cs) = txt_text t # text_parts cs"
| "text_parts (_ # cs) = text_parts cs"

definition call_text :: "texts \<Rightarrow> tool_call \<Rightarrow> string" where
  "call_text q tc =
     tc_name tc @ ''('' @ join '', '' (map (\<lambda>(k, v). k @ ''='' @ to_json_text q v) (tc_args tc)) @ '')''"

definition tool_result_text :: "tool_result_msg \<Rightarrow> string" where
  "tool_result_text tr = concat (map rc_text (filter rc_is_text (tr_content tr)))"

definition is_stubbed :: "stub_options \<Rightarrow> nat \<Rightarrow> string \<Rightarrow> bool" where
  "is_stubbed opts i text \<longleftrightarrow>
     (so_oldest_kept opts > 0 \<and> int i < so_oldest_kept opts)
     \<or> (so_size_threshold opts > 0 \<and> int (length text) > so_size_threshold opts)"

fun message_parts :: "texts \<Rightarrow> stub_options \<Rightarrow> nat \<Rightarrow> entry_id \<Rightarrow> message \<Rightarrow> string list" where
  "message_parts q opts i eid (MUser u) =
     (let t = extract_text_from_user_content (um_content u)
      in if t = [] then [] else [''[User]: '' @ t])"
| "message_parts q opts i eid (MAssistant a) =
     (if text_parts (am_content a) = [] then []
      else [''[Assistant]: '' @ join nl (text_parts (am_content a))])
     @ (if tool_calls_of (am_content a) = [] then []
        else [''[Assistant tool calls]: '' @ join ''; '' (map (call_text q) (tool_calls_of (am_content a)))])"
| "message_parts q opts i eid (MToolResult tr) =
     (let t = tool_result_text tr
      in if t = [] then []
         else if is_stubbed opts i t then [format_tool_result_stub q eid (tr_tool_name tr) t opts]
         else [''[Tool result]: '' @ t])"
| "message_parts q opts i eid (MOther r) = []"

definition id_at :: "entry_id list \<Rightarrow> nat \<Rightarrow> entry_id" where
  "id_at ids i = (if i < length ids then ids ! i else [])"

fun serialize_from ::
  "texts \<Rightarrow> stub_options \<Rightarrow> entry_id list \<Rightarrow> nat \<Rightarrow> message list \<Rightarrow> string list" where
  "serialize_from q opts ids i [] = []"
| "serialize_from q opts ids i (m # ms) =
     message_parts q opts i (id_at ids i) m @ serialize_from q opts ids (Suc i) ms"

definition effective_options :: "stub_options \<Rightarrow> stub_options" where
  "effective_options opts =
     opts\<lparr>so_head_bytes := (if so_head_bytes opts \<le> 0 then 128 else so_head_bytes opts),
          so_tail_bytes := (if so_tail_bytes opts \<le> 0 then 128 else so_tail_bytes opts)\<rparr>"

definition serialize_conversation_with_ids ::
  "texts \<Rightarrow> message list \<Rightarrow> entry_id list \<Rightarrow> stub_options \<Rightarrow> string" where
  "serialize_conversation_with_ids q ms ids opts =
     join (nl @ nl) (serialize_from q (effective_options opts) ids 0 ms)"

definition serialize_conversation :: "texts \<Rightarrow> message list \<Rightarrow> string" where
  "serialize_conversation q ms = serialize_conversation_with_ids q ms [] default_stub_options"

subsection \<open>Prompts\<close>

definition build_summarization_prompt :: "texts \<Rightarrow> string \<Rightarrow> string \<Rightarrow> string \<Rightarrow> string" where
  "build_summarization_prompt q conversation previous custom =
     ''<conversation>'' @ nl @ conversation @ nl @ ''</conversation>'' @ nl @ nl
     @ (if previous = [] then []
        else ''<previous-summary>'' @ nl @ previous @ nl @ ''</previous-summary>'' @ nl @ nl)
     @ (if custom = [] then []
        else ''<user-focus>'' @ nl @ ''The user supplied the following focus for this compaction. ''
             @ ''Treat it as a hard requirement; the structured format below is the medium, this ''
             @ ''focus is the priority.'' @ nl @ nl @ custom @ nl @ ''</user-focus>'' @ nl @ nl)
     @ (if previous = [] then qt_prompt q else qt_update_prompt q)"

text \<open>Conversion to LLM messages that keeps the entry id of each.\<close>

fun convert_with_ids :: "agent_message list \<Rightarrow> entry_id list \<Rightarrow> (message \<times> entry_id) list" where
  "convert_with_ids [] ids = []"
| "convert_with_ids (m # ms) ids =
     map (\<lambda>x. (x, id_at ids 0)) (convert_to_llm [m]) @ convert_with_ids ms (tl ids)"

subsection \<open>Facts\<close>

lemma back_to_start_le: "back_to_start s n \<le> n"
  by (induction n) auto

lemma back_to_start_rune: "back_to_start s n = 0 \<or> rune_start (s ! back_to_start s n)"
  by (induction n) auto

lemma utf8_prefix_spec:
  "prefix (utf8_prefix s n) s \<and> (0 \<le> n \<longrightarrow> int (length (utf8_prefix s n)) \<le> n)
   \<and> (utf8_prefix s n = s \<or> utf8_prefix s n = [] \<or> rune_start (s ! length (utf8_prefix s n)))"
proof (cases "0 < n \<and> n < int (length s)")
  case True
  then have "back_to_start s (nat n) \<le> nat n" "nat n < length s"
    using back_to_start_le by (simp, linarith)
  with True back_to_start_rune [of s "nat n"] show ?thesis
    by (auto simp: utf8_prefix_def take_is_prefix)
next
  case False
  then show ?thesis by (auto simp: utf8_prefix_def)
qed

lemma suffix_dropWhile: "suffix (dropWhile p xs) xs"
  by (induction xs) (auto simp: suffix_ConsI)

lemma utf8_suffix_spec:
  "suffix (utf8_suffix s n) s \<and> (0 \<le> n \<longrightarrow> int (length (utf8_suffix s n)) \<le> n)
   \<and> (utf8_suffix s n = s \<or> utf8_suffix s n = [] \<or> rune_start (hd (utf8_suffix s n)))"
proof (cases "0 < n \<and> n < int (length s)")
  case True
  let ?d = "drop (length s - nat n) s"
  have suf: "suffix (dropWhile (\<lambda>c. \<not> rune_start c) ?d) s"
    using suffix_dropWhile suffix_drop suffix_order.trans by blast
  have "length (dropWhile (\<lambda>c. \<not> rune_start c) ?d) \<le> length ?d" by (rule length_dropWhile_le)
  then have len: "int (length (dropWhile (\<lambda>c. \<not> rune_start c) ?d)) \<le> n" using True by (simp, linarith)
  have "dropWhile (\<lambda>c. \<not> rune_start c) ?d = [] \<or> rune_start (hd (dropWhile (\<lambda>c. \<not> rune_start c) ?d))"
    using hd_dropWhile [of "\<lambda>c. \<not> rune_start c" ?d] by blast
  with True suf len show ?thesis by (simp add: utf8_suffix_def)
next
  case False
  then show ?thesis by (auto simp: utf8_suffix_def)
qed

lemma convert_with_ids_messages: "map fst (convert_with_ids ms ids) = convert_to_llm ms"
proof (induction ms arbitrary: ids)
  case (Cons m ms)
  have "convert_to_llm (m # ms) = convert_to_llm [m] @ convert_to_llm ms"
    using convert_to_llm_append [of "[m]" ms] by simp
  with Cons show ?case by (simp add: comp_def)
qed simp

end
