(* ===== verification/Compaction.thy ===== *)
theory Compaction
  imports Serialize ContextFacts
begin

text \<open>
  Compaction (\<^verbatim>\<open>pkg/session/compaction/compaction.go\<close>, \<^verbatim>\<open>prompts.go\<close>, and \<^verbatim>\<open>ApplyCompaction\<close> of
  \<^verbatim>\<open>pkg/session/artifact.go\<close>): from the entries of a branch, what is to be summarised and what is
  kept; the summary itself, by two requests to an LLM at most; and the compaction entry that makes
  the context start from it.

  The LLM is the parameter \<open>ask\<close>, from a request to an error or a text.
\<close>

subsection \<open>Preparation\<close>

record compaction_preparation =
  pr_first_kept :: entry_id
  pr_messages :: "agent_message list"
  pr_ids :: "entry_id list"
  pr_prefix_messages :: "agent_message list"
  pr_prefix_ids :: "entry_id list"
  pr_split :: bool
  pr_tokens_before :: go_int
  pr_previous :: string
  pr_file_ops :: file_operations
  pr_settings :: compaction_settings

text \<open>The messages of a range of entries, each with its entry id.\<close>

definition range_messages ::
  "decoders \<Rightarrow> session_entry list \<Rightarrow> nat \<Rightarrow> nat \<Rightarrow> (agent_message \<times> entry_id) list" where
  "range_messages dc es i j =
     List.map_filter (\<lambda>e. map_option (\<lambda>m. (m, e_id e)) (get_message_from_entry dc e)) (drop i (take j es))"

record compaction_details =
  cd_read :: "path list"
  cd_modified :: "path list"

text \<open>A nil slice is written as \<^verbatim>\<open>null\<close>, and \<^verbatim>\<open>ComputeFileLists\<close> returns nil for no files.\<close>

definition json_of_paths :: "path list \<Rightarrow> json" where
  "json_of_paths ps = (if ps = [] then JNull else JArr (map JStr ps))"

definition json_of_details :: "compaction_details \<Rightarrow> json" where
  "json_of_details d =
     JObj [(''readFiles'', json_of_paths (cd_read d)), (''modifiedFiles'', json_of_paths (cd_modified d))]"

definition details_of_json :: "json \<Rightarrow> compaction_details option" where
  "details_of_json j =
     Option.bind (object_members j) (\<lambda>ms.
     Option.bind (fill_str_list [] (field_vals ''readFiles'' ms)) (\<lambda>rs.
     Option.bind (fill_str_list [] (field_vals ''modifiedFiles'' ms)) (\<lambda>xs.
     Some \<lparr>cd_read = rs, cd_modified = xs\<rparr>)))"

definition carried_file_ops :: "session_entry list \<Rightarrow> nat option \<Rightarrow> file_operations" where
  "carried_file_ops es prev =
     (case prev of
        None \<Rightarrow> new_file_operations
      | Some i \<Rightarrow>
          if e_type (es ! i) = ''compaction'' \<and> \<not> e_from_hook (es ! i) then
            (case Option.bind (e_details (es ! i)) details_of_json of
               None \<Rightarrow> new_file_operations
             | Some d \<Rightarrow>
                 new_file_operations
                   \<lparr>fo_read := fold List.insert (cd_read d) [],
                    fo_edited := fold List.insert (cd_modified d) []\<rparr>)
          else new_file_operations)"

definition add_file_ops ::
  "regexes \<Rightarrow> (agent_message \<times> entry_id) list \<Rightarrow> file_operations \<Rightarrow> file_operations" where
  "add_file_ops re ms fo = fold (\<lambda>(m, i). extract_file_ops_from_message re m i) ms fo"

definition extract_file_operations ::
  "regexes \<Rightarrow> (agent_message \<times> entry_id) list \<Rightarrow> session_entry list \<Rightarrow> nat option \<Rightarrow> file_operations" where
  "extract_file_operations re ms es prev = add_file_ops re ms (carried_file_ops es prev)"

text \<open>Where the entries to compact start: after the previous compaction.\<close>

definition boundary_start :: "session_entry list \<Rightarrow> nat" where
  "boundary_start es =
     (case find_last (\<lambda>e. e_type e = ''compaction'') es of None \<Rightarrow> 0 | Some i \<Rightarrow> Suc i)"

definition tokens_before :: "(members \<Rightarrow> nat) \<Rightarrow> decoders \<Rightarrow> session_entry list \<Rightarrow> go_int" where
  "tokens_before args_len dc es =
     cu_tokens (estimate_context_tokens args_len (map fst
       (range_messages dc es (the_default 0 (find_last (\<lambda>e. e_type e = ''compaction'') es)) (length es))))"

definition preparation ::
  "(members \<Rightarrow> nat) \<Rightarrow> regexes \<Rightarrow> decoders \<Rightarrow> session_entry list \<Rightarrow> compaction_settings
     \<Rightarrow> cut_point_result \<Rightarrow> compaction_preparation" where
  "preparation args_len re dc es s cp =
     (let prev = find_last (\<lambda>e. e_type e = ''compaction'') es;
          history_end = (if cut_split cp then the (cut_turn_start cp) else cut_first_kept cp);
          history = range_messages dc es (boundary_start es) history_end;
          turn_prefix = (if cut_split cp
            then range_messages dc es (the (cut_turn_start cp)) (cut_first_kept cp) else []);
          fo = add_file_ops re turn_prefix (extract_file_operations re history es prev)
      in \<lparr>pr_first_kept = e_id (es ! cut_first_kept cp),
          pr_messages = map fst history, pr_ids = map snd history,
          pr_prefix_messages = map fst turn_prefix, pr_prefix_ids = map snd turn_prefix,
          pr_split = cut_split cp, pr_tokens_before = tokens_before args_len dc es,
          pr_previous = (case prev of None \<Rightarrow> [] | Some i \<Rightarrow> e_summary (es ! i)),
          pr_file_ops = fo, pr_settings = s\<rparr>)"

definition prepare_compaction ::
  "(members \<Rightarrow> nat) \<Rightarrow> regexes \<Rightarrow> decoders \<Rightarrow> session_entry list \<Rightarrow> compaction_settings
     \<Rightarrow> compaction_preparation option" where
  "prepare_compaction args_len re dc es s =
     (if es = [] then None
      else if e_type (last es) = ''compaction'' then None
      else
        let cp = find_cut_point args_len dc es (boundary_start es) (length es) (cp_keep_recent s)
        in if e_id (es ! cut_first_kept cp) = [] then None
           else Some (preparation args_len re dc es s cp))"

subsection \<open>Summaries\<close>

record summary_request =
  rq_prompt :: string
  rq_max_tokens :: int
  rq_think_high :: bool

text \<open>\<^verbatim>\<open>int(0.8 * float64(reserve))\<close> and \<^verbatim>\<open>int(0.5 * float64(reserve))\<close> for a reserve that is not negative.\<close>

definition generate_summary ::
  "texts \<Rightarrow> (summary_request \<Rightarrow> string + string) \<Rightarrow> agent_message list \<Rightarrow> entry_id list \<Rightarrow> go_int
     \<Rightarrow> string \<Rightarrow> string \<Rightarrow> string + string" where
  "generate_summary q ask ms ids reserve custom previous =
     (let conv = convert_with_ids ms ids;
          text = serialize_conversation_with_ids q (map fst conv) (map snd conv) default_stub_options
      in ask \<lparr>rq_prompt = build_summarization_prompt q text previous custom,
              rq_max_tokens = (8 * reserve) div 10, rq_think_high = True\<rparr>)"

definition generate_turn_prefix_summary ::
  "texts \<Rightarrow> (summary_request \<Rightarrow> string + string) \<Rightarrow> agent_message list \<Rightarrow> entry_id list \<Rightarrow> go_int
     \<Rightarrow> string + string" where
  "generate_turn_prefix_summary q ask ms ids reserve =
     (let conv = convert_with_ids ms ids;
          text = serialize_conversation_with_ids q (map fst conv) (map snd conv) default_stub_options
      in ask \<lparr>rq_prompt = ''<conversation>'' @ nl @ text @ nl @ ''</conversation>'' @ nl @ nl @ qt_prefix_prompt q,
              rq_max_tokens = reserve div 2, rq_think_high = False\<rparr>)"

record compaction_result =
  cr_summary :: string
  cr_first_kept :: entry_id
  cr_tokens_before :: go_int
  cr_details :: compaction_details

definition summary_text ::
  "texts \<Rightarrow> (summary_request \<Rightarrow> string + string) \<Rightarrow> compaction_preparation \<Rightarrow> string \<Rightarrow> string + string" where
  "summary_text q ask p custom =
     (let reserve = cp_reserve_tokens (pr_settings p)
      in if pr_split p \<and> pr_prefix_messages p \<noteq> [] then
           (case (if pr_messages p \<noteq> []
                  then generate_summary q ask (pr_messages p) (pr_ids p) reserve custom (pr_previous p)
                  else Inr ''No prior history.'') of
              Inl e \<Rightarrow> Inl e
            | Inr history \<Rightarrow>
                (case generate_turn_prefix_summary q ask (pr_prefix_messages p) (pr_prefix_ids p) reserve of
                   Inl e \<Rightarrow> Inl e
                 | Inr turn \<Rightarrow>
                     Inr (history @ nl @ nl @ ''---'' @ nl @ nl @ ''**Turn Context (split turn):**''
                          @ nl @ nl @ turn)))
         else generate_summary q ask (pr_messages p) (pr_ids p) reserve custom (pr_previous p))"

definition compact ::
  "texts \<Rightarrow> regexes \<Rightarrow> (summary_request \<Rightarrow> string + string) \<Rightarrow> compaction_preparation \<Rightarrow> string
     \<Rightarrow> string + compaction_result" where
  "compact q re ask p custom =
     (case summary_text q ask p custom of
        Inl e \<Rightarrow> Inl e
      | Inr summary \<Rightarrow>
          (case compute_file_lists (pr_file_ops p) of (rs, ms) \<Rightarrow>
             let all_msgs = (if pr_split p \<and> pr_prefix_messages p \<noteq> []
                             then pr_messages p @ pr_prefix_messages p else pr_messages p)
             in Inr \<lparr>cr_summary = summary
                       @ format_file_operations rs ms (fo_entry_ids (pr_file_ops p))
                       @ format_facts (extract_facts re all_msgs 20),
                     cr_first_kept = pr_first_kept p, cr_tokens_before = pr_tokens_before p,
                     cr_details = \<lparr>cd_read = rs, cd_modified = ms\<rparr>\<rparr>))"

text \<open>\<^verbatim>\<open>ApplyCompaction\<close> as \<^verbatim>\<open>RunCompaction\<close> calls it: the entry is appended, the context rebuilt.\<close>

definition apply_compaction ::
  "world \<Rightarrow> decoders \<Rightarrow> compaction_result \<Rightarrow> store_disk \<Rightarrow> store_disk \<times> session_context option" where
  "apply_compaction w dc r sd =
     (let sd' = append_compaction w (cr_summary r) (cr_first_kept r) (cr_tokens_before r)
                  (Some (json_of_details (cr_details r))) False sd
      in (sd', build_session_context dc (fst sd')))"

subsection \<open>Nothing in between is lost\<close>

lemma map_filter_append [simp]:
  "List.map_filter f (xs @ ys) = List.map_filter f xs @ List.map_filter f ys"
  by (simp add: List.map_filter_def)

lemma range_messages_split:
  assumes "i \<le> j" and "j \<le> k" and "k \<le> length es"
  shows "range_messages dc es i k = range_messages dc es i j @ range_messages dc es j k"
proof -
  have "take k es = take j es @ drop j (take k es)"
    using assms(2) by (metis append_take_drop_id min.absorb1 take_take)
  then have "drop i (take k es) = drop i (take j es @ drop j (take k es))" by (rule arg_cong)
  also have "\<dots> = drop i (take j es) @ drop j (take k es)"
    using assms by simp
  finally have "drop i (take k es) = drop i (take j es) @ drop j (take k es)" .
  then show ?thesis by (simp add: range_messages_def)
qed

lemma find_cut_point_bounds:
  assumes "start < stop"
  shows "start \<le> cut_first_kept (find_cut_point args_len dc es start stop keep)"
    and "cut_first_kept (find_cut_point args_len dc es start stop keep) < stop"
    and "cut_split (find_cut_point args_len dc es start stop keep) \<Longrightarrow>
      \<exists>t. cut_turn_start (find_cut_point args_len dc es start stop keep) = Some t \<and> start \<le> t
        \<and> t \<le> cut_first_kept (find_cut_point args_len dc es start stop keep)"
proof -
  let ?r = "find_cut_point args_len dc es start stop keep"
  have "start \<le> cut_first_kept ?r \<and> cut_first_kept ?r < stop"
  proof (cases "find_valid_cut_points es start stop = []")
    case True
    then show ?thesis using assms by (simp add: find_cut_point_def)
  next
    case False
    from find_cut_point_cut [OF False, of args_len dc keep] show ?thesis by auto
  qed
  then show "start \<le> cut_first_kept ?r" "cut_first_kept ?r < stop" by simp_all
  show "\<exists>t. cut_turn_start ?r = Some t \<and> start \<le> t \<and> t \<le> cut_first_kept ?r" if "cut_split ?r"
    using that find_turn_start_bounds
    by (auto simp: find_cut_point_def Let_def split: if_splits)
qed

lemma boundary_start_less:
  assumes "es \<noteq> []" and "e_type (last es) \<noteq> ''compaction''"
  shows "boundary_start es < length es"
proof (cases "find_last (\<lambda>e. e_type e = ''compaction'') es")
  case None
  with assms show ?thesis by (simp add: boundary_start_def)
next
  case (Some i)
  then have i: "i < length es" "e_type (es ! i) = ''compaction''" using find_last_SomeD [OF Some] by auto
  with assms have "i \<noteq> length es - 1" by (auto simp: last_conv_nth)
  with i(1) Some show ?thesis by (simp add: boundary_start_def)
qed

lemma prepare_parts:
  assumes p: "prepare_compaction args_len re dc es s = Some p"
  shows "\<exists>k. boundary_start es \<le> k \<and> k < length es \<and> pr_first_kept p = e_id (es ! k)
    \<and> k = cut_first_kept (find_cut_point args_len dc es (boundary_start es) (length es) (cp_keep_recent s))
    \<and> zip (pr_messages p) (pr_ids p) @ zip (pr_prefix_messages p) (pr_prefix_ids p)
        = range_messages dc es (boundary_start es) k
    \<and> length (pr_ids p) = length (pr_messages p)
    \<and> length (pr_prefix_ids p) = length (pr_prefix_messages p)"
proof -
  let ?start = "boundary_start es"
  let ?cut = "find_cut_point args_len dc es ?start (length es) (cp_keep_recent s)"
  have es: "es \<noteq> []" "e_type (last es) \<noteq> ''compaction''"
    using p by (auto simp: prepare_compaction_def split: if_splits)
  note lt = boundary_start_less [OF es]
  note b = find_cut_point_bounds [OF lt, of args_len dc es "cp_keep_recent s"]
  let ?k = "cut_first_kept ?cut"
  have k: "?start \<le> ?k" "?k < length es" using b(1,2) by simp_all
  have "p = preparation args_len re dc es s ?cut"
    using p es by (simp add: prepare_compaction_def Let_def split: if_splits)
  then have pf: "pr_first_kept p = e_id (es ! ?k)"
    "pr_messages p = map fst (range_messages dc es ?start
        (if cut_split ?cut then the (cut_turn_start ?cut) else ?k))"
    "pr_ids p = map snd (range_messages dc es ?start
        (if cut_split ?cut then the (cut_turn_start ?cut) else ?k))"
    "pr_prefix_messages p = map fst (if cut_split ?cut
        then range_messages dc es (the (cut_turn_start ?cut)) ?k else [])"
    "pr_prefix_ids p = map snd (if cut_split ?cut
        then range_messages dc es (the (cut_turn_start ?cut)) ?k else [])"
    by (simp_all add: preparation_def Let_def)
  have z: "zip (map fst xs) (map snd xs) = xs" for xs :: "('a \<times> 'b) list" by (simp add: zip_map_fst_snd)
  have "zip (pr_messages p) (pr_ids p) @ zip (pr_prefix_messages p) (pr_prefix_ids p)
      = range_messages dc es ?start ?k"
  proof (cases "cut_split ?cut")
    case True
    then obtain t where t: "cut_turn_start ?cut = Some t" "?start \<le> t" "t \<le> ?k" using b(3) by blast
    with True k show ?thesis
      using range_messages_split [OF t(2,3), of es dc] by (simp add: pf z)
  next
    case False
    then show ?thesis by (simp add: pf z)
  qed
  with k pf(1) show ?thesis by (intro exI [of _ ?k]) (simp add: pf(2-5))
qed

subsection \<open>The context after a compaction\<close>

lemma dropWhile_to_index:
  assumes "distinct (map f xs)" and "k < length xs"
  shows "dropWhile (\<lambda>x. f x \<noteq> f (xs ! k)) xs = drop k xs"
proof -
  have "\<forall>x \<in> set (take k xs). f x \<noteq> f (xs ! k)"
  proof
    fix x assume "x \<in> set (take k xs)"
    then obtain j where j: "j < k" "j < length xs" "xs ! j = x" by (auto simp: in_set_conv_nth)
    with assms show "f x \<noteq> f (xs ! k)"
      by (metis distinct_conv_nth length_map nth_map order_less_irrefl)
  qed
  then have "dropWhile (\<lambda>x. f x \<noteq> f (xs ! k)) (take k xs @ drop k xs)
      = dropWhile (\<lambda>x. f x \<noteq> f (xs ! k)) (drop k xs)"
    by (intro dropWhile_append2) blast
  also have "\<dots> = drop k xs"
    using Cons_nth_drop_Suc [OF assms(2)] by (metis (full_types) dropWhile.simps(2))
  finally show ?thesis by (simp only: append_take_drop_id)
qed

lemma append_compaction_branch:
  assumes inv: "store_inv (fst sd)" and fresh: "fresh_world w (fst sd)"
    and leaf: "ss_leaf (fst sd) \<noteq> []" and b: "get_branch (fst sd) [] = Some es"
    and a: "append_compaction w summary kept tokens details hook sd = sd'"
  shows "\<exists>c. get_branch (fst sd') [] = Some (es @ [c]) \<and> e_type c = ''compaction''
    \<and> e_summary c = summary \<and> e_first_kept c = kept \<and> e_tokens_before c = tokens
    \<and> e_timestamp c = w_now w \<and> store_inv (fst sd') \<and> ss_leaf (fst sd') \<noteq> []
    \<and> build_session_context dc (fst sd') = Some (context_of_path dc (es @ [c]))"
proof -
  let ?s = "fst sd"
  define c where "c = (next_entry w ''compaction'' ?s)
      \<lparr>e_summary := summary, e_first_kept := kept, e_tokens_before := tokens, e_details := details,
       e_from_hook := hook\<rparr>"
  have sd': "sd' = append_entry w c sd" using a by (simp add: append_compaction_def c_def)
  have cf: "e_id c = generate_id w ?s" "e_parent c = ss_leaf ?s" "e_type c = ''compaction''"
    "e_summary c = summary" "e_first_kept c = kept" "e_tokens_before c = tokens" "e_timestamp c = w_now w"
    by (simp_all add: c_def next_entry_def)
  have inv': "store_inv (fst sd')"
    unfolding sd' by (rule append_entry_inv [OF inv fresh]) (simp_all add: cf)
  have st: "ss_by_id (fst sd') = (ss_by_id ?s)(e_id c \<mapsto> c)" "ss_leaf (fst sd') = e_id c"
    by (simp_all add: sd' frame_simps)
  have cid: "e_id c \<noteq> []" "ss_by_id ?s (e_id c) = None"
    using generate_id_fresh [OF fresh] by (simp_all add: cf(1))
  have walk: "ascend (ss_by_id (fst sd')) e_parent [] c [] = Some (es @ [c])"
    by (rule branch_of_append [OF inv leaf b cf(2) cid st(1)])
  have at: "ss_by_id (fst sd') (ss_leaf (fst sd')) = Some c" by (simp add: st)
  have "get_branch (fst sd') [] = Some (es @ [c])"
    using at walk by (simp add: get_branch_def)
  moreover have "build_session_context dc (fst sd') = Some (context_of_path dc (es @ [c]))"
    using at walk cid(1) st(2)
    by (simp add: build_session_context_def build_session_context_from_entries_def context_leaf_def)
  ultimately show ?thesis using cf inv' st(2) cid(1) by (intro exI [of _ c]) simp
qed

lemma apply_compaction_context:
  assumes inv: "store_inv (fst sd)" and fresh: "fresh_world w (fst sd)"
    and leaf: "ss_leaf (fst sd) \<noteq> []" and b: "get_branch (fst sd) [] = Some es"
    and k: "k < length es" and r: "cr_first_kept r = e_id (es ! k)"
  shows "\<exists>ctx. snd (apply_compaction w dc r sd) = Some ctx
    \<and> sc_messages ctx = synthesize_interrupted_tool_results
        (create_compaction_summary_message (cr_summary r) (cr_tokens_before r) (dc_time dc (w_now w))
         # concat (map (entry_messages dc) (drop k es)))"
proof -
  define sd' where "sd' = append_compaction w (cr_summary r) (cr_first_kept r) (cr_tokens_before r)
                  (Some (json_of_details (cr_details r))) False sd"
  from append_compaction_branch [OF inv fresh leaf b sd'_def [symmetric], of dc] obtain c where
    c: "get_branch (fst sd') [] = Some (es @ [c])" "e_type c = ''compaction''"
      "e_summary c = cr_summary r" "e_first_kept c = cr_first_kept r"
      "e_tokens_before c = cr_tokens_before r" "e_timestamp c = w_now w"
    and inv': "store_inv (fst sd')"
    and ctx: "build_session_context dc (fst sd') = Some (context_of_path dc (es @ [c]))" by blast
  have d: "distinct (map e_id (es @ [c]))" using branch_is_chain' [OF inv' c(1)] by simp
  have "sc_messages (context_of_path dc (es @ [c]))
      = synthesize_interrupted_tool_results (compacted_view dc es c [])"
    using context_of_compacted_path [of es c "[]" dc] d c(2) by simp
  moreover have "dropWhile (\<lambda>e. e_id e \<noteq> e_first_kept c) es = drop k es"
    using dropWhile_to_index [of e_id es k] d k c(4) r by simp
  ultimately show ?thesis
    using ctx c by (simp add: apply_compaction_def Let_def sd'_def [symmetric] compacted_view_def)
qed

end
