(* ===== verification/FactProps.thy ===== *)
theory FactProps
  imports Compaction ContextProps
begin

text \<open>
  Properties of what compaction carries over verbatim: files, commands, error lines, and the pieces
  of large tool results.
\<close>

lemma details_round_trip [simp]: "details_of_json (json_of_details d) = Some d"
proof -
  have paths: "fill_str_list [] [json_of_paths ps] = Some ps" for ps
    by (simp add: json_of_paths_def fill_str_elems_map)
  show ?thesis
    by (simp add: json_of_details_def details_of_json_def field_vals_def same_key_def to_lower_def
        lower_char_def byte_of_def paths)
qed

subsection \<open>Files\<close>

lemma set_fold_insert: "set (fold List.insert xs ys) = set xs \<union> set ys"
  by (induction xs arbitrary: ys) auto

lemma distinct_fold_insert: "distinct ys \<Longrightarrow> distinct (fold List.insert xs ys)"
  by (induction xs arbitrary: ys) auto

lemma carried_well: "well_recorded (carried_file_ops es prev)"
  by (auto simp: carried_file_ops_def new_file_operations_def well_recorded_def distinct_fold_insert
      split: option.split)

lemma carried_details:
  assumes "e_type (es ! i) = ''compaction''" and "\<not> e_from_hook (es ! i)"
    and "e_details (es ! i) = Some (json_of_details d)"
  shows "set (fo_read (carried_file_ops es (Some i))) = set (cd_read d)"
    and "set (fo_edited (carried_file_ops es (Some i))) = set (cd_modified d)"
  using assms by (simp_all add: carried_file_ops_def set_fold_insert)

lemma add_file_ops_well: "well_recorded fo \<Longrightarrow> well_recorded (add_file_ops re ms fo)"
  unfolding add_file_ops_def by (induction ms arbitrary: fo) (auto simp: extract_ops_well)

lemma add_file_ops_more: "records_more fo (add_file_ops re ms fo)"
  unfolding add_file_ops_def by (rule fold_more) (auto simp: extract_ops_more)

lemma add_file_ops_append: "add_file_ops re (xs @ ys) fo = add_file_ops re ys (add_file_ops re xs fo)"
  by (simp add: add_file_ops_def)

text \<open>The operations a preparation gathers: those of everything it summarises, on those carried over.\<close>

lemma prepared_file_ops:
  assumes "prepare_compaction args_len re dc es s = Some p"
  shows "pr_file_ops p = add_file_ops re
      (zip (pr_messages p) (pr_ids p) @ zip (pr_prefix_messages p) (pr_prefix_ids p))
      (carried_file_ops es (find_last (\<lambda>e. e_type e = ''compaction'') es))"
  using assms
  by (auto simp: prepare_compaction_def preparation_def Let_def add_file_ops_append
      extract_file_operations_def zip_map_fst_snd split: if_splits)

lemma compact_details:
  assumes "compact q re ask p custom = Inr r"
  shows "compute_file_lists (pr_file_ops p) = (cd_read (cr_details r), cd_modified (cr_details r))"
  using assms by (auto simp: compact_def Let_def split: sum.splits prod.splits)

text \<open>
  no file is forgotten over a compaction: the files the previous compaction recorded as modified
  are modified files of the new one, those it recorded as read are read or modified ones; the two
  lists stay disjoint, sorted and without repetition.
\<close>

theorem files_survive_compaction:
  assumes p: "prepare_compaction args_len re dc es s = Some p" and r: "compact q re ask p custom = Inr r"
    and prev: "find_last (\<lambda>e. e_type e = ''compaction'') es = Some i" "\<not> e_from_hook (es ! i)"
      "e_details (es ! i) = Some (json_of_details d)"
  shows "set (cd_modified d) \<subseteq> set (cd_modified (cr_details r))
    \<and> set (cd_read d) \<subseteq> set (cd_read (cr_details r)) \<union> set (cd_modified (cr_details r))
    \<and> set (cd_read (cr_details r)) \<inter> set (cd_modified (cr_details r)) = {}
    \<and> sorted (cd_read (cr_details r)) \<and> sorted (cd_modified (cr_details r))
    \<and> distinct (cd_read (cr_details r)) \<and> distinct (cd_modified (cr_details r))"
proof -
  let ?fo = "carried_file_ops es (Some i)"
  have more: "records_more ?fo (pr_file_ops p)"
    using prepared_file_ops [OF p] prev(1) add_file_ops_more by simp
  have w: "well_recorded (pr_file_ops p)"
    using prepared_file_ops [OF p] add_file_ops_well carried_well by simp
  have "e_type (es ! i) = ''compaction''" using find_last_SomeD [OF prev(1)] by simp
  from carried_details [OF this prev(2,3)] more compute_lists_spec [OF w compact_details [OF r]]
  show ?thesis unfolding records_more_def by blast
qed

definition once_compacted :: "session_entry list" where
  "once_compacted = [zero_entry\<lparr>e_type := ''compaction'', e_id := ''c'', e_summary := ''sum'',
       e_details := Some (json_of_details \<lparr>cd_read = [''r''], cd_modified = [''m'']\<rparr>)\<rparr>,
     zero_entry\<lparr>e_type := ''custom_message'', e_id := ''u'', e_parent := ''c''\<rparr>]"

definition no_regexes :: regexes where
  "no_regexes = \<lparr>re_redirects = (\<lambda>_. []), re_tees = (\<lambda>_. []), re_error = (\<lambda>_. False)\<rparr>"

definition sample_texts :: texts where
  "sample_texts = \<lparr>qt_quote = (\<lambda>s. s), qt_value = (\<lambda>_. []), qt_prompt = ''p'', qt_update_prompt = ''u'',
     qt_prefix_prompt = ''t''\<rparr>"

lemma compact_answered: "\<exists>r. compact q re (\<lambda>_. Inr t) p custom = Inr r"
  by (cases "pr_split p \<and> pr_prefix_messages p \<noteq> []"; cases "pr_messages p = []")
    (auto simp: compact_def summary_text_def generate_summary_def generate_turn_prefix_summary_def
      Let_def case_prod_beta)

lemma once_compacted_prepared:
  "\<exists>p. prepare_compaction (\<lambda>_. 0) no_regexes dc once_compacted s = Some p"
proof -
  have e: "once_compacted \<noteq> []" "e_type (last once_compacted) \<noteq> ''compaction''"
    by (simp_all add: once_compacted_def zero_entry_def)
  have "\<forall>k < length once_compacted. e_id (once_compacted ! k) \<noteq> []"
    by (auto simp: once_compacted_def zero_entry_def less_Suc_eq)
  with e show ?thesis
    using find_cut_point_bounds(2) [OF boundary_start_less [OF e], of "\<lambda>_. 0" dc once_compacted
        "cp_keep_recent s"]
    by (simp add: prepare_compaction_def Let_def)
qed

theorem files_survive_compaction_witness:
  "\<exists>p r. prepare_compaction (\<lambda>_. 0) no_regexes sample_decoders once_compacted default_compaction_settings = Some p
    \<and> compact sample_texts no_regexes (\<lambda>_. Inr ''s'') p [] = Inr r
    \<and> ''m'' \<in> set (cd_modified (cr_details r))"
proof -
  obtain p where p: "prepare_compaction (\<lambda>_. 0) no_regexes sample_decoders once_compacted
      default_compaction_settings = Some p"
    using once_compacted_prepared by blast
  obtain r where r: "compact sample_texts no_regexes (\<lambda>_. Inr ''s'') p [] = Inr r"
    using compact_answered by blast
  have "find_last (\<lambda>e. e_type e = ''compaction'') once_compacted = Some 0"
    by (simp add: find_last_def once_compacted_def zero_entry_def)
  from files_survive_compaction [OF p r this, of "\<lparr>cd_read = [''r''], cd_modified = [''m'']\<rparr>"] p r
  show ?thesis by (auto simp: once_compacted_def zero_entry_def)
qed

text \<open>Every summarised call leaves its mark.\<close>

lemma fold_reaches:
  assumes "x \<in> set xs" and mono: "\<And>y s. records_more s (f y s)" and hit: "\<And>s. P (f x s)"
    and keep: "\<And>s s'. P s \<Longrightarrow> records_more s s' \<Longrightarrow> P s'"
  shows "P (fold f xs s)"
proof -
  obtain ys zs where xs: "xs = ys @ x # zs" using assms(1) by (meson split_list)
  have "records_more (f x (fold f ys s)) (fold f zs (f x (fold f ys s)))" by (rule fold_more [OF mono])
  with hit have "P (fold f zs (f x (fold f ys s)))" by (rule keep)
  with xs show ?thesis by simp
qed

lemma call_recorded:
  assumes tc: "tc \<in> set (tool_calls_of (am_content a))" and m: "(Msg (MAssistant a), i) \<in> set ms"
    and hit: "\<And>fo. P (call_file_ops re i tc fo)"
    and keep: "\<And>s s'. P s \<Longrightarrow> records_more s s' \<Longrightarrow> P s'"
  shows "P (add_file_ops re ms fo)"
  unfolding add_file_ops_def
proof (rule fold_reaches [OF m])
  show "records_more s ((\<lambda>(m, i). extract_file_ops_from_message re m i) y s)" for y s
    by (auto simp: extract_ops_more split: prod.split)
  show "P ((\<lambda>(m, i). extract_file_ops_from_message re m i) (Msg (MAssistant a), i) s)" for s
    using fold_reaches [OF tc, of "call_file_ops re i" P] hit keep by (simp add: call_file_ops_more)
qed (rule keep)

text \<open>
  every file a summarised assistant message writes or edits by a tool call is listed as modified
  in the summary's details, and every file it reads is listed as read or modified.
\<close>

theorem summarised_calls_recorded:
  assumes p: "prepare_compaction args_len re dc es s = Some p" and r: "compact q re ask p custom = Inr r"
    and m: "(Msg (MAssistant a), i) \<in> set (zip (pr_messages p) (pr_ids p))
                                    \<union> set (zip (pr_prefix_messages p) (pr_prefix_ids p))"
    and tc: "tc \<in> set (tool_calls_of (am_content a))" and f: "get_str (tc_args tc) ''path'' = Some f" "f \<noteq> []"
  shows "(tc_name tc \<in> {''write'', ''edit'', ''multi_edit'', ''MultiEdit''} \<longrightarrow> f \<in> set (cd_modified (cr_details r)))
    \<and> (tc_name tc = ''read'' \<longrightarrow> f \<in> set (cd_read (cr_details r)) \<union> set (cd_modified (cr_details r)))"
proof -
  let ?ms = "zip (pr_messages p) (pr_ids p) @ zip (pr_prefix_messages p) (pr_prefix_ids p)"
  note fo = prepared_file_ops [OF p]
  have w: "well_recorded (pr_file_ops p)" using fo add_file_ops_well carried_well by simp
  have m': "(Msg (MAssistant a), i) \<in> set ?ms" using m by simp
  note spec = compute_lists_spec [OF w compact_details [OF r]]
  have "f \<in> set (fo_written (pr_file_ops p)) \<union> set (fo_edited (pr_file_ops p))"
    if "tc_name tc \<in> {''write'', ''edit'', ''multi_edit'', ''MultiEdit''}"
    unfolding fo
    by (rule call_recorded [OF tc m'])
      (use that f in \<open>auto simp: call_file_ops_def record_op_def records_more_def Let_def\<close>)
  moreover have "f \<in> set (fo_read (pr_file_ops p))" if "tc_name tc = ''read''"
    unfolding fo
    by (rule call_recorded [OF tc m'])
      (use that f in \<open>auto simp: call_file_ops_def record_op_def records_more_def Let_def\<close>)
  ultimately show ?thesis using spec(1,2) by auto
qed

text \<open>A message with one call.\<close>

definition calling :: "string \<Rightarrow> string \<Rightarrow> string \<Rightarrow> assistant_msg" where
  "calling tool key arg =
     \<lparr>am_content = [CToolCall \<lparr>tc_id = ''1'', tc_name = tool, tc_args = [(key, JStr arg)], tc_sig = []\<rparr>],
      am_api = [], am_provider = [], am_model = [],
      am_usage = \<lparr>u_total = 0, u_input = 0, u_output = 0, u_cache_read = 0, u_cache_write = 0\<rparr>,
      am_stop = StopToolUse, am_timestamp = 0\<rparr>"

text \<open>A session of a call that writes a file and a user message.\<close>

definition call_decoders :: decoders where
  "call_decoders = \<lparr>dc_message = (\<lambda>_. Some (MAssistant (calling ''write'' ''path'' ''f''))),
     dc_plan = (\<lambda>_. []), dc_time = (\<lambda>_. 0)\<rparr>"

definition role_entry :: "string \<Rightarrow> string \<Rightarrow> session_entry" where
  "role_entry i role = zero_entry\<lparr>e_type := ''message'', e_id := i, e_message := Some (JObj [(''role'', JStr role)])\<rparr>"

definition write_turns :: "session_entry list" where
  "write_turns = [role_entry ''a'' ''assistant'', role_entry ''b'' ''user'']"

definition small_settings :: compaction_settings where
  "small_settings = default_compaction_settings\<lparr>cp_keep_recent := 2\<rparr>"

lemma role_entry_fields [simp]:
  "e_type (role_entry i role) = ''message''" "e_id (role_entry i role) = i"
  "e_message (role_entry i role) = Some (JObj [(''role'', JStr role)])"
  by (simp_all add: role_entry_def zero_entry_def)

lemma role_entry_role [simp]: "get_message_role (role_entry i role) = role"
  by (simp add: get_message_role_def field_vals_def same_key_def to_lower_def lower_char_def byte_of_def
      lenient_str_def)

lemma write_turns_cut:
  "find_cut_point (\<lambda>_. 0) call_decoders write_turns 0 (Suc (Suc 0)) 2
     = \<lparr>cut_first_kept = 1, cut_turn_start = None, cut_split = False\<rparr>"
proof -
  have "find_valid_cut_points write_turns 0 (Suc (Suc 0)) = [0, 1]"
    by (simp add: find_valid_cut_points_def write_turns_def valid_cut_def cut_roles_def)
  then show ?thesis
    by (simp add: find_cut_point_def Let_def cut_index_def write_turns_def counted_def
        entry_tokens_def call_decoders_def calling_def quarter_up_def)
qed

theorem summarised_calls_recorded_witness:
  "\<exists>p r. prepare_compaction (\<lambda>_. 0) no_regexes call_decoders write_turns small_settings = Some p
    \<and> compact sample_texts no_regexes (\<lambda>_. Inr ''s'') p [] = Inr r \<and> ''f'' \<in> set (cd_modified (cr_details r))"
proof -
  let ?p = "preparation (\<lambda>_. 0) no_regexes call_decoders write_turns small_settings
      \<lparr>cut_first_kept = 1, cut_turn_start = None, cut_split = False\<rparr>"
  have bs: "boundary_start write_turns = 0"
    by (simp add: boundary_start_def find_last_def write_turns_def)
  have "length write_turns = Suc (Suc 0)" by (simp add: write_turns_def)
  then have p: "prepare_compaction (\<lambda>_. 0) no_regexes call_decoders write_turns small_settings = Some ?p"
    by (simp add: prepare_compaction_def bs small_settings_def write_turns_cut)
      (simp add: write_turns_def)
  obtain r where r: "compact sample_texts no_regexes (\<lambda>_. Inr ''s'') ?p [] = Inr r"
    using compact_answered by blast
  have "range_messages call_decoders write_turns 0 1
      = [(Msg (MAssistant (calling ''write'' ''path'' ''f'')), ''a'')]"
    by (simp add: range_messages_def write_turns_def get_message_from_entry_def call_decoders_def
        List.map_filter_def)
  then have m: "(Msg (MAssistant (calling ''write'' ''path'' ''f'')), ''a'')
      \<in> set (zip (pr_messages ?p) (pr_ids ?p))"
    by (simp add: preparation_def Let_def bs)
  have tc: "\<lparr>tc_id = ''1'', tc_name = ''write'', tc_args = [(''path'', JStr ''f'')], tc_sig = []\<rparr>
      \<in> set (tool_calls_of (am_content (calling ''write'' ''path'' ''f'')))"
    by (simp add: calling_def)
  have "''f'' \<in> set (cd_modified (cr_details r))"
    using summarised_calls_recorded [OF p r UnI1 [OF m] tc, of "''f''"] by (simp add: get_str_def lookup_def)
  with p r show ?thesis by blast
qed

subsection \<open>Commands and error lines\<close>

text \<open>
  the facts of a summary are verbatim: each command is the trimmed text of a bash call of one of
  the messages, no fact is listed twice, at most 20 of each kind are kept, and with at most 20
  different commands none is missing.
\<close>

theorem facts_verbatim:
  "set (fa_commands (extract_facts re ms 20)) \<subseteq> \<Union> (message_commands ` set ms)
   \<and> distinct (fa_commands (extract_facts re ms 20)) \<and> distinct (fa_errors (extract_facts re ms 20))
   \<and> length (fa_commands (extract_facts re ms 20)) \<le> 20 \<and> length (fa_errors (extract_facts re ms 20)) \<le> 20
   \<and> (card (\<Union> (message_commands ` set ms)) \<le> 20
       \<longrightarrow> set (fa_commands (extract_facts re ms 20)) = \<Union> (message_commands ` set ms))"
proof -
  let ?f = "fold (message_facts re) ms \<lparr>fa_commands = [], fa_errors = []\<rparr>"
  have cs: "set (fa_commands ?f) = \<Union> (message_commands ` set ms)" by (simp add: fold_message_facts)
  have d: "distinct (fa_commands ?f)" "distinct (fa_errors ?f)" by (simp_all add: fold_message_facts)
  have x: "fa_commands (extract_facts re ms 20) = keep_newest 20 (fa_commands ?f)"
    "fa_errors (extract_facts re ms 20) = keep_newest 20 (fa_errors ?f)"
    by (simp_all add: extract_facts_def Let_def)
  have "set (keep_newest 20 (fa_commands ?f)) = \<Union> (message_commands ` set ms)"
    if "card (\<Union> (message_commands ` set ms)) \<le> 20"
  proof -
    have "length (fa_commands ?f) \<le> 20" using that distinct_card [OF d(1)] cs by simp
    then show ?thesis using cs keep_newest_facts(4) by metis
  qed
  then show ?thesis
    unfolding x using keep_newest_facts(2) [of 20 "fa_commands ?f"] cs d
    by (simp add: keep_newest_facts(1,3))
qed

theorem facts_verbatim_witness:
  "set (fa_commands (extract_facts no_regexes [Msg (MAssistant (calling ''bash'' ''command'' '' ls''))] 20))
     = {''ls''}"
proof -
  let ?tc = "\<lparr>tc_id = ''1'', tc_name = ''bash'', tc_args = [(''command'', JStr '' ls'')], tc_sig = []\<rparr>"
  have "call_command ?tc = ''ls''"
    by code_simp
  then have c: "message_commands (Msg (MAssistant (calling ''bash'' ''command'' '' ls''))) = {''ls''}"
    by (auto simp: calling_def)
  from facts_verbatim [of no_regexes "[Msg (MAssistant (calling ''bash'' ''command'' '' ls''))]"]
  show ?thesis by (simp add: c del: message_commands.simps)
qed

end
