(* ===== verification/CompactionProps.thy ===== *)
theory CompactionProps
  imports FactProps ForkProps
begin

text \<open>
  Properties of compaction: where it cuts, what it summarises and keeps, what the context is
  afterwards, and what it loses.
\<close>

subsection \<open>Cutting\<close>

text \<open>
  C14: compaction never cuts between a tool call and its result: the first kept entry that says
  something to the LLM is not a tool result, and the cut lies inside the range it was asked to cut.
\<close>

theorem cut_not_before_tool_result:
  assumes "find_valid_cut_points es start stop \<noteq> []"
    and "k = cut_first_kept (find_cut_point args_len dc es start stop keep)"
    and "k \<le> j" "j < stop" and "e_type (es ! j) \<in> {''message'', ''branch_summary'', ''custom_message''}"
    and "\<forall>i. k \<le> i \<and> i < j \<longrightarrow> e_type (es ! i) \<notin> {''message'', ''branch_summary'', ''custom_message''}"
  shows "start \<le> k \<and> k < stop \<and> get_message_role (es ! j) \<noteq> ''toolResult''"
proof -
  from find_cut_point_cut [OF assms(1), of args_len dc keep] obtain c where c: "valid_cut (es ! c)" "k \<le> c"
    "start \<le> k" "c < stop"
    "\<forall>j. k \<le> j \<and> j < c \<longrightarrow> e_type (es ! j) \<noteq> ''message'' \<and> e_type (es ! j) \<noteq> ''compaction''"
    unfolding assms(2) [symmetric] by blast
  have "e_type (es ! c) \<in> {''message'', ''branch_summary'', ''custom_message''}"
    using c(1) by (auto simp: valid_cut_def split: if_splits)
  with assms(6) c(2) have "j \<le> c" by (meson not_le)
  have "get_message_role (es ! j) \<noteq> ''toolResult''"
  proof (cases "j = c")
    case True
    with c(1) show ?thesis by (auto simp: valid_cut_def cut_roles_def get_message_role_def split: if_splits)
  next
    case False
    with \<open>j \<le> c\<close> assms(3) c(5) have "e_type (es ! j) \<noteq> ''message''" by simp
    then show ?thesis by (simp add: get_message_role_def)
  qed
  with c show ?thesis by simp
qed

text \<open>A conversation of two turns with a model change between them.\<close>

definition said :: "string \<Rightarrow> string \<Rightarrow> string \<Rightarrow> session_entry" where
  "said i role text = zero_entry\<lparr>e_type := ''message'', e_id := i,
     e_message := Some (JObj [(''role'', JStr role), (''content'', JStr text)])\<rparr>"

definition two_turns :: "session_entry list" where
  "two_turns = [said ''a'' ''user'' ''hi'', said ''b'' ''assistant'' ''hello'',
     zero_entry\<lparr>e_type := ''model_change'', e_id := ''m''\<rparr>,
     said ''c'' ''user'' ''long question'', said ''d'' ''assistant'' ''answer'']"

lemma said_fields [simp]:
  "e_type (said i role text) = ''message''" "e_id (said i role text) = i"
  "e_message (said i role text) = Some (JObj [(''role'', JStr role), (''content'', JStr text)])"
  by (simp_all add: said_def zero_entry_def)

lemma said_role [simp]: "get_message_role (said i role text) = role"
  by (simp add: get_message_role_def field_vals_def same_key_def to_lower_def lower_char_def byte_of_def
      lenient_str_def)

lemma said_tokens [simp]:
  "counted sample_decoders (said i role text)"
  "entry_tokens args_len sample_decoders (said i role text) = quarter_up (length text)"
  by (simp_all add: counted_def entry_tokens_def sample_decoders_def user_text_def user_chars_def)

lemma two_turns_entries:
  "two_turns ! 0 = said ''a'' ''user'' ''hi''" "two_turns ! Suc 0 = said ''b'' ''assistant'' ''hello''"
  "two_turns ! 2 = zero_entry\<lparr>e_type := ''model_change'', e_id := ''m''\<rparr>"
  "two_turns ! 3 = said ''c'' ''user'' ''long question''" "two_turns ! 4 = said ''d'' ''assistant'' ''answer''"
  by (simp_all add: two_turns_def numeral_eq_Suc)

lemma zero_entry_uncounted [simp]:
  "e_type (zero_entry\<lparr>e_type := t, e_id := i\<rparr>) = t"
  by (simp add: zero_entry_def)

lemma upt_0_5: "[0..<5] = [0, Suc 0, 2, 3, 4 :: nat]"
  by (simp add: upt_rec)

lemma two_turns_cuts: "find_valid_cut_points two_turns 0 5 = [0, 1, 3, 4]"
  unfolding find_valid_cut_points_def upt_0_5
  by (simp add: two_turns_entries valid_cut_def cut_roles_def)

lemma two_turns_budget: "budget_index args_len sample_decoders two_turns 0 5 0 5 = Some 3"
proof -
  have "budget_index args_len sample_decoders two_turns 0 5 0 (Suc 4)
      = budget_index args_len sample_decoders two_turns 0 5 2 4"
    by (subst budget_index.simps(2)) (simp add: two_turns_entries quarter_up_def)
  moreover have "budget_index args_len sample_decoders two_turns 0 5 2 (Suc 3) = Some 3"
    by (subst budget_index.simps(2)) (simp add: two_turns_entries quarter_up_def)
  ultimately show ?thesis by simp
qed

lemma two_turns_cut:
  "find_cut_point args_len sample_decoders two_turns 0 5 5
     = \<lparr>cut_first_kept = 2, cut_turn_start = Some 0, cut_split = True\<rparr>"
proof -
  have s: "(2::nat) = Suc (Suc 0)" by simp
  have "cut_index args_len sample_decoders two_turns 0 5 5 [0, 1, 3, 4] = 3"
    by (simp add: cut_index_def two_turns_budget)
  moreover have "back_over two_turns 0 3 = 2"
  proof -
    have "back_over two_turns 0 (Suc 2) = back_over two_turns 0 2"
      by (subst back_over.simps(2)) (simp add: two_turns_entries)
    moreover have "back_over two_turns 0 2 = 2" unfolding s by (simp add: two_turns_entries)
    ultimately show ?thesis by simp
  qed
  moreover have "find_turn_start_index two_turns 2 0 = Some 0"
    using two_turns_entries(3) unfolding s by (simp add: two_turns_entries starts_turn_def)
  moreover have "get_message_role (two_turns ! 2) \<noteq> ''user''"
    by (simp add: two_turns_entries get_message_role_def)
  ultimately show ?thesis by (simp add: find_cut_point_def two_turns_cuts)
qed

theorem cut_not_before_tool_result_witness:
  "get_message_role (two_turns ! 3) \<noteq> ''toolResult''"
proof -
  have "find_valid_cut_points two_turns 0 5 \<noteq> []" by (simp add: two_turns_cuts)
  moreover have "(2::nat) = cut_first_kept (find_cut_point (\<lambda>_. 0) sample_decoders two_turns 0 5 5)"
    by (simp add: two_turns_cut)
  moreover have "\<forall>i. 2 \<le> i \<and> i < (3::nat) \<longrightarrow>
      e_type (two_turns ! i) \<notin> {''message'', ''branch_summary'', ''custom_message''}"
  proof (intro allI impI)
    fix i :: nat assume "2 \<le> i \<and> i < 3"
    then have "i = 2" by simp
    then show "e_type (two_turns ! i) \<notin> {''message'', ''branch_summary'', ''custom_message''}"
      by (simp add: two_turns_entries zero_entry_def)
  qed
  ultimately show ?thesis
    using cut_not_before_tool_result [of two_turns 0 5 2 "\<lambda>_. 0" sample_decoders 5 3]
    by (simp add: two_turns_entries)
qed

text \<open>
  what is kept stays near the budget: when the recent tokens reach the budget at some entry and
  a cut is valid there or later, the kept entries hold fewer tokens than the budget plus that one
  entry.
\<close>

theorem kept_tokens_bounded:
  assumes "budget_index args_len dc es start keep 0 stop = Some i" and "0 < keep"
    and "i \<le> c" "c < stop" "valid_cut (es ! c)"
  shows "tokens_between args_len dc es (cut_first_kept (find_cut_point args_len dc es start stop keep)) stop
           < keep + entry_tokens args_len dc (es ! i)"
proof -
  let ?cuts = "find_valid_cut_points es start stop"
  let ?k = "cut_first_kept (find_cut_point args_len dc es start stop keep)"
  have i: "start \<le> i" "i < stop" using budget_index_bounds [OF assms(1)] by auto
  have mem: "c \<in> set ?cuts" using assms(3-5) i by (simp add: valid_cut_points)
  then have ne: "?cuts \<noteq> []" by auto
  obtain c' where f: "find (\<lambda>c. i \<le> c) ?cuts = Some c'"
    using mem assms(3) by (metis find_None_iff option.exhaust)
  then have c': "i \<le> c'" by (auto simp: find_Some_iff)
  from find_cut_point_cut [OF ne, of args_len dc keep] obtain b where b: "?k \<le> b" "b < stop"
    "\<forall>j. ?k \<le> j \<and> j < b \<longrightarrow> e_type (es ! j) \<noteq> ''message'' \<and> e_type (es ! j) \<noteq> ''compaction''"
    "b = cut_index args_len dc es start stop keep ?cuts" by blast
  have "b = c'" using b(4) assms(1) f by (simp add: cut_index_def)
  have zero: "tokens_between args_len dc es ?k b = 0"
  proof -
    have "map (\<lambda>j. entry_tokens args_len dc (es ! j)) [?k..<b] = map (\<lambda>_. 0) [?k..<b]"
      by (intro map_cong) (use b(3) in \<open>simp_all add: entry_tokens_def\<close>)
    then show ?thesis by (simp add: tokens_between_def sum_list_triv del: map_eq_conv)
  qed
  have "tokens_between args_len dc es ?k stop = tokens_between args_len dc es b stop"
    using tokens_between_split [of ?k b stop args_len dc es] b(1,2) zero by simp
  also have "\<dots> \<le> tokens_between args_len dc es i stop"
    using tokens_between_split [of i b stop args_len dc es] b(2) c' \<open>b = c'\<close>
      tokens_between_nonneg [of args_len dc es i b] by simp
  also have "\<dots> = tokens_between args_len dc es i (Suc i) + tokens_between args_len dc es (Suc i) stop"
    using tokens_between_split [of i "Suc i" stop args_len dc es] i by simp
  also have "tokens_between args_len dc es i (Suc i) = entry_tokens args_len dc (es ! i)"
    by (simp add: tokens_between_def)
  finally show ?thesis
    using budget_index_spec [of 0 keep args_len dc es start stop i] assms(1,2) by simp
qed

theorem kept_tokens_bounded_witness:
  "tokens_between (\<lambda>_. 0) sample_decoders two_turns
     (cut_first_kept (find_cut_point (\<lambda>_. 0) sample_decoders two_turns 0 5 5)) 5 < 5 + 4"
proof -
  from kept_tokens_bounded [OF two_turns_budget, of 3] show ?thesis
    by (simp add: two_turns_entries valid_cut_def cut_roles_def quarter_up_def)
qed

text \<open>
  When the last entry is a tool result that alone fills the budget, no cut is valid behind it
  and the cut falls back to the very first one: nothing at which the conversation could be cut is
  summarised, however long it is.
\<close>

theorem large_last_result_keeps_all:
  assumes "es ! (stop - 1) = e" and "start < stop" and "counted dc e"
    and "get_message_role e = ''toolResult''" and "0 < keep" and "keep \<le> entry_tokens args_len dc e"
    and "j < cut_first_kept (find_cut_point args_len dc es start stop keep)" and "start \<le> j"
  shows "\<not> valid_cut (es ! j)"
proof
  assume v: "valid_cut (es ! j)"
  let ?cuts = "find_valid_cut_points es start stop"
  obtain n where n: "stop = Suc n" using assms(2) by (cases stop) auto
  have "start \<le> n" "es ! n = e" using assms(1,2) n by simp_all
  with assms(3,5,6) have bi: "budget_index args_len dc es start keep 0 stop = Some n"
    by (simp add: n Let_def)
  have ne: "\<not> valid_cut e"
    using assms(3,4) by (auto simp: valid_cut_def counted_def cut_roles_def split: if_splits)
  have lt: "j < stop"
    using find_cut_point_bounds(2) [OF assms(2), of args_len dc es keep] assms(7) by simp
  then have mem: "j \<in> set ?cuts" using v assms(8) by (simp add: valid_cut_points)
  then have cuts: "?cuts \<noteq> []" by auto
  have "find (\<lambda>c. n \<le> c) ?cuts = None"
  proof (rule ccontr)
    assume "find (\<lambda>c. n \<le> c) ?cuts \<noteq> None"
    then obtain c where "find (\<lambda>c. n \<le> c) ?cuts = Some c" by auto
    then have "n \<le> c \<and> c \<in> set ?cuts" by (auto simp: find_Some_iff in_set_conv_nth)
    then have "c = n" "valid_cut (es ! c)" by (auto simp: valid_cut_points n)
    with \<open>es ! n = e\<close> have "valid_cut e" by simp
    with ne show False by contradiction
  qed
  then have "cut_index args_len dc es start stop keep ?cuts = hd ?cuts"
    by (simp add: cut_index_def bi)
  moreover from find_cut_point_cut [OF cuts, of args_len dc keep]
  have "cut_first_kept (find_cut_point args_len dc es start stop keep)
      \<le> cut_index args_len dc es start stop keep ?cuts" by blast
  moreover have "hd ?cuts \<le> j"
  proof -
    have "sorted ?cuts" unfolding find_valid_cut_points_def by (intro sorted_wrt_filter) simp
    with mem cuts show ?thesis by (cases ?cuts) auto
  qed
  ultimately show False using assms(7) by simp
qed

definition long_tail :: "session_entry list" where
  "long_tail = [said ''a'' ''user'' ''hi'', said ''b'' ''assistant'' ''hello'',
     said ''c'' ''toolResult'' ''0123456789'']"

theorem large_last_result_keeps_all_witness:
  "cut_first_kept (find_cut_point (\<lambda>_. 0) sample_decoders long_tail 0 3 2) = 0"
proof (rule ccontr)
  assume "cut_first_kept (find_cut_point (\<lambda>_. 0) sample_decoders long_tail 0 3 2) \<noteq> 0"
  then have "0 < cut_first_kept (find_cut_point (\<lambda>_. 0) sample_decoders long_tail 0 3 2)" by simp
  from large_last_result_keeps_all [OF refl _ _ _ _ _ this] have "\<not> valid_cut (long_tail ! 0)"
    by (simp add: long_tail_def quarter_up_def)
  then show False by (simp add: long_tail_def valid_cut_def cut_roles_def)
qed

text \<open>
  With a settings entry in front of the user message at which the cut falls, the cut moves back
  onto that entry, is no longer recognised as the start of a turn, and the complete turn before it
  is reported as a split one.
\<close>

theorem settings_entry_splits_turn:
  "find_cut_point args_len sample_decoders two_turns 0 5 5
     = \<lparr>cut_first_kept = 2, cut_turn_start = Some 0, cut_split = True\<rparr>
   \<and> get_message_role (two_turns ! 3) = ''user''"
  using two_turns_cut by (simp add: two_turns_entries)

subsection \<open>What is summarised and what is kept\<close>

text \<open>
  C13: of the messages since the previous compaction none is dropped and none is taken twice: those
  handed to the summary, those of the split turn's prefix and those kept are together, in order,
  all of them, each with the id of its entry.
\<close>

theorem prepared_partition:
  assumes "prepare_compaction args_len re dc es s = Some p"
  shows "\<exists>k. boundary_start es \<le> k \<and> k < length es \<and> pr_first_kept p = e_id (es ! k)
    \<and> range_messages dc es (boundary_start es) (length es)
        = zip (pr_messages p) (pr_ids p) @ zip (pr_prefix_messages p) (pr_prefix_ids p)
          @ range_messages dc es k (length es)"
proof -
  from prepare_parts [OF assms] obtain k where k: "boundary_start es \<le> k" "k < length es"
    "pr_first_kept p = e_id (es ! k)"
    "zip (pr_messages p) (pr_ids p) @ zip (pr_prefix_messages p) (pr_prefix_ids p)
        = range_messages dc es (boundary_start es) k" by blast
  moreover have "range_messages dc es (boundary_start es) (length es)
      = range_messages dc es (boundary_start es) k @ range_messages dc es k (length es)"
    by (rule range_messages_split) (use k(1,2) in simp_all)
  ultimately show ?thesis by (metis append.assoc)
qed

definition sample_settings :: compaction_settings where
  "sample_settings = default_compaction_settings\<lparr>cp_keep_recent := 5\<rparr>"

lemma two_turns_boundary: "boundary_start two_turns = 0"
  by (simp add: boundary_start_def find_last_def two_turns_def numeral_eq_Suc zero_entry_def)

lemma two_turns_prepared:
  "\<exists>p. prepare_compaction (\<lambda>_. 0) no_regexes sample_decoders two_turns sample_settings = Some p"
proof -
  have "length two_turns = 5" "two_turns \<noteq> []" "e_type (last two_turns) = ''message''"
    by (simp_all add: two_turns_def)
  then show ?thesis
    by (simp add: prepare_compaction_def Let_def two_turns_boundary sample_settings_def two_turns_cut
        two_turns_entries zero_entry_def default_compaction_settings_def)
qed

theorem prepared_partition_witness:
  "\<exists>p k. prepare_compaction (\<lambda>_. 0) no_regexes sample_decoders two_turns sample_settings = Some p
    \<and> range_messages sample_decoders two_turns 0 (length two_turns)
        = zip (pr_messages p) (pr_ids p) @ zip (pr_prefix_messages p) (pr_prefix_ids p)
          @ range_messages sample_decoders two_turns k (length two_turns)"
proof -
  obtain p where p: "prepare_compaction (\<lambda>_. 0) no_regexes sample_decoders two_turns sample_settings = Some p"
    using two_turns_prepared by blast
  from prepared_partition [OF p] p show ?thesis by (auto simp: two_turns_boundary)
qed

text \<open>
  C7: after preparing, summarising and applying a compaction of the current branch, the LLM is shown
  exactly the summary followed by the messages of the kept entries, repaired, and the kept entries are
  those the preparation chose.
\<close>

theorem compaction_context:
  assumes inv: "store_inv (fst sd)" and fresh: "fresh_world w (fst sd)"
    and leaf: "ss_leaf (fst sd) \<noteq> []" and b: "get_branch (fst sd) [] = Some es"
    and p: "prepare_compaction args_len re dc es s = Some p"
    and r: "compact q re ask p custom = Inr r"
  shows "\<exists>k ctx. k < length es \<and> pr_first_kept p = e_id (es ! k)
    \<and> snd (apply_compaction w dc r sd) = Some ctx
    \<and> sc_messages ctx = synthesize_interrupted_tool_results
        (create_compaction_summary_message (cr_summary r) (pr_tokens_before p) (dc_time dc (w_now w))
         # concat (map (entry_messages dc) (drop k es)))"
proof -
  obtain k where k: "k < length es" "pr_first_kept p = e_id (es ! k)"
    using prepare_parts [OF p] by blast
  have "cr_first_kept r = pr_first_kept p" "cr_tokens_before r = pr_tokens_before p"
    using r by (auto simp: compact_def Let_def split: sum.splits prod.splits)
  with apply_compaction_context [OF inv fresh leaf b k(1), of r dc] k show ?thesis by auto
qed

definition chained_turns :: "session_entry list" where
  "chained_turns = [said ''a'' ''user'' ''hi'', (said ''b'' ''user'' ''again'')\<lparr>e_parent := ''a''\<rparr>]"

lemma chained_turns_inv: "store_inv (store_of_log chained_turns)"
  by (rule store_of_log_inv) (simp add: chained_turns_def said_def zero_entry_def)

lemma chained_turns_branch: "get_branch (store_of_log chained_turns) [] = Some chained_turns"
  by (simp add: get_branch_def store_of_log_fields index_of_def chained_turns_def ascend.simps
      said_def zero_entry_def)

lemma chained_turns_prepared:
  "\<exists>p. prepare_compaction (\<lambda>_. 0) no_regexes sample_decoders chained_turns sample_settings = Some p"
proof -
  have e: "chained_turns \<noteq> []" "e_type (last chained_turns) \<noteq> ''compaction''"
    by (simp_all add: chained_turns_def said_def zero_entry_def)
  have "boundary_start chained_turns < length chained_turns" by (rule boundary_start_less [OF e])
  from find_cut_point_bounds(2) [OF this, of "\<lambda>_. 0" sample_decoders chained_turns "cp_keep_recent sample_settings"]
  have "\<forall>k < length chained_turns. e_id (chained_turns ! k) \<noteq> []"
    by (auto simp: chained_turns_def said_def zero_entry_def less_Suc_eq)
  with e show ?thesis
    using find_cut_point_bounds(2) [OF boundary_start_less [OF e], of "\<lambda>_. 0" sample_decoders chained_turns
        "cp_keep_recent sample_settings"]
    by (simp add: prepare_compaction_def Let_def)
qed

theorem compaction_context_witness:
  "\<exists>p r ctx. prepare_compaction (\<lambda>_. 0) no_regexes sample_decoders chained_turns sample_settings = Some p
    \<and> compact sample_texts no_regexes (\<lambda>_. Inr ''sum'') p [] = Inr r
    \<and> snd (apply_compaction (sample_world CHR ''z'') sample_decoders r
            (store_of_log chained_turns, empty_disk)) = Some ctx"
proof -
  obtain p where p: "prepare_compaction (\<lambda>_. 0) no_regexes sample_decoders chained_turns sample_settings = Some p"
    using chained_turns_prepared by blast
  obtain r where r: "compact sample_texts no_regexes (\<lambda>_. Inr ''sum'') p [] = Inr r"
    using compact_answered by blast
  have "fresh_world (sample_world CHR ''z'') (fst (store_of_log chained_turns, empty_disk))"
    by (rule sample_fresh) (simp add: store_of_log_fields index_of_def chained_turns_def said_def zero_entry_def)
  moreover have "ss_leaf (fst (store_of_log chained_turns, empty_disk)) \<noteq> []"
    by (simp add: store_of_log_fields chained_turns_def said_def zero_entry_def)
  ultimately show ?thesis
    using compaction_context [of "(store_of_log chained_turns, empty_disk)", OF _ _ _ _ p r]
      chained_turns_inv chained_turns_branch p r by fastforce
qed

text \<open>
  A second compaction starts behind the first one: the messages the first one kept, which lie in
  front of it, are neither summarised nor kept by the second, though until then the LLM was shown
  them.
\<close>

theorem second_compaction_drops_kept:
  assumes p: "prepare_compaction args_len re dc es s = Some p" and d: "distinct (map e_id es)"
    and prev: "e_type (es ! i) = ''compaction''" "i < length es" and j: "j < i"
  shows "e_id (es ! j) \<notin> set (pr_ids p) \<union> set (pr_prefix_ids p)
    \<and> (\<exists>k. j < k \<and> k < length es \<and> pr_first_kept p = e_id (es ! k))"
proof -
  obtain k where k: "boundary_start es \<le> k" "k < length es" "pr_first_kept p = e_id (es ! k)"
    "zip (pr_messages p) (pr_ids p) @ zip (pr_prefix_messages p) (pr_prefix_ids p)
        = range_messages dc es (boundary_start es) k"
    "length (pr_ids p) = length (pr_messages p)"
    "length (pr_prefix_ids p) = length (pr_prefix_messages p)"
    using prepare_parts [OF p] by blast
  have bs: "i < boundary_start es"
  proof (cases "find_last (\<lambda>e. e_type e = ''compaction'') es")
    case None
    with prev show ?thesis by (auto simp: find_last_None)
  next
    case (Some n)
    with prev find_last_SomeD [OF Some] have "i \<le> n" by (meson not_le)
    with Some show ?thesis by (simp add: boundary_start_def)
  qed
  have ids: "set (pr_ids p) \<union> set (pr_prefix_ids p) \<subseteq> e_id ` set (drop (boundary_start es) (take k es))"
  proof -
    have "set (pr_ids p) = snd ` set (zip (pr_messages p) (pr_ids p))"
      "set (pr_prefix_ids p) = snd ` set (zip (pr_prefix_messages p) (pr_prefix_ids p))"
      using k(5,6) by (metis map_snd_zip set_map)+
    then have "set (pr_ids p) \<union> set (pr_prefix_ids p) = snd ` set (range_messages dc es (boundary_start es) k)"
      unfolding k(4) [symmetric] by (simp only: set_append image_Un)
    then show ?thesis by (auto simp: range_messages_def set_map_filter)
  qed
  have "e_id (es ! j) \<notin> e_id ` set (drop (boundary_start es) (take k es))"
  proof
    assume "e_id (es ! j) \<in> e_id ` set (drop (boundary_start es) (take k es))"
    then obtain x where x: "x \<in> set (drop (boundary_start es) (take k es))" "e_id x = e_id (es ! j)" by auto
    then have "\<exists>n. boundary_start es + n < k \<and> x = es ! (boundary_start es + n)"
      using k(2) unfolding in_set_conv_nth by (auto simp: less_diff_conv add.commute)
    then obtain n where n: "boundary_start es + n < k" "x = es ! (boundary_start es + n)" by blast
    have "boundary_start es + n < length es" "j < length es" "boundary_start es + n \<noteq> j"
      using n(1) k(2) j bs prev(2) by simp_all
    then have "e_id (es ! (boundary_start es + n)) \<noteq> e_id (es ! j)"
      using d by (metis distinct_conv_nth length_map nth_map)
    with x(2) n(2) show False by simp
  qed
  with ids k bs j show ?thesis by (intro conjI exI [of _ k]) auto
qed

definition recompacted :: "session_entry list" where
  "recompacted = [said ''a'' ''user'' ''kept by the first compaction'',
     zero_entry\<lparr>e_type := ''compaction'', e_id := ''c'', e_parent := ''a'', e_summary := ''sum'',
       e_first_kept := ''a''\<rparr>,
     (said ''b'' ''user'' ''again'')\<lparr>e_parent := ''c''\<rparr>]"

lemma recompacted_prepared:
  "\<exists>p. prepare_compaction (\<lambda>_. 0) no_regexes sample_decoders recompacted sample_settings = Some p"
proof -
  have e: "recompacted \<noteq> []" "e_type (last recompacted) \<noteq> ''compaction''"
    by (simp_all add: recompacted_def said_def zero_entry_def)
  have "\<forall>k < length recompacted. e_id (recompacted ! k) \<noteq> []"
    by (auto simp: recompacted_def said_def zero_entry_def less_Suc_eq)
  with e show ?thesis
    using find_cut_point_bounds(2) [OF boundary_start_less [OF e], of "\<lambda>_. 0" sample_decoders recompacted
        "cp_keep_recent sample_settings"]
    by (simp add: prepare_compaction_def Let_def)
qed

theorem second_compaction_drops_kept_witness:
  "\<exists>p. prepare_compaction (\<lambda>_. 0) no_regexes sample_decoders recompacted sample_settings = Some p
    \<and> ''a'' \<notin> set (pr_ids p) \<union> set (pr_prefix_ids p) \<and> pr_first_kept p \<noteq> ''a''"
proof -
  obtain p where p: "prepare_compaction (\<lambda>_. 0) no_regexes sample_decoders recompacted sample_settings = Some p"
    using recompacted_prepared by blast
  have d: "distinct (map e_id recompacted)" by (simp add: recompacted_def said_def zero_entry_def)
  have "e_type (recompacted ! 1) = ''compaction''" "1 < length recompacted"
    by (simp_all add: recompacted_def zero_entry_def)
  from second_compaction_drops_kept [OF p d this, of 0]
  have r: "''a'' \<notin> set (pr_ids p) \<union> set (pr_prefix_ids p)"
    "\<exists>k. 0 < k \<and> k < length recompacted \<and> pr_first_kept p = e_id (recompacted ! k)"
    by (simp_all add: recompacted_def)
  then obtain k where "0 < k" "k < 3" "pr_first_kept p = e_id (recompacted ! k)"
    by (auto simp: recompacted_def)
  then have "pr_first_kept p \<noteq> ''a''"
    by (cases k) (auto simp: recompacted_def said_def zero_entry_def less_Suc_eq numeral_eq_Suc)
  with p r(1) show ?thesis by blast
qed

end
