(* ===== verification/Transform.thy ===== *)
theory Transform
  imports ToolRepair
begin

text \<open>
  Preparing a conversation for one provider (\<^verbatim>\<open>pkg/ai/providers/transform.go\<close>): images a model
  cannot see become placeholders, blocks of another provider are rewritten or dropped, tool call ids
  are normalised, empty results get a marker, failed turns are left out and every remaining call is
  answered.

  \<open>render\<close> is \<^verbatim>\<open>ai.RenderToolResultMeta\<close> of the module outside the repository, and \<open>norm\<close> the
  normaliser of ids the provider passes, \<open>None\<close> for Go's \<^verbatim>\<open>nil\<close>.
\<close>

record llm_model =
  md_id :: string
  md_provider :: string
  md_api :: string
  md_images :: bool

type_synonym normaliser = "string \<Rightarrow> llm_model \<Rightarrow> assistant_msg \<Rightarrow> string"

subsection \<open>Images\<close>

definition user_image_placeholder :: string where
  "user_image_placeholder = ''(image omitted: model does not support images)''"

definition tool_image_placeholder :: string where
  "tool_image_placeholder = ''(tool image omitted: model does not support images)''"

definition is_image_block :: "json \<Rightarrow> bool" where
  "is_image_block j = (case j of JObj ms \<Rightarrow> get_str ms ''type'' = Some ''image'' | _ \<Rightarrow> False)"

text \<open>The loop both replacements share: a run of images becomes one placeholder.\<close>

fun replace_images :: "('b \<Rightarrow> bool) \<Rightarrow> 'b \<Rightarrow> bool \<Rightarrow> 'b list \<Rightarrow> 'b list" where
  "replace_images img placeholder prev [] = []"
| "replace_images img placeholder prev (b # bs) =
     (if img b
      then (if prev then [] else [placeholder]) @ replace_images img placeholder True bs
      else b # replace_images img placeholder False bs)"

definition text_block :: "string \<Rightarrow> json" where
  "text_block s = JObj [(''type'', JStr ''text''), (''text'', JStr s)]"

definition replace_images_with_placeholder :: "json list \<Rightarrow> string \<Rightarrow> json list option" where
  "replace_images_with_placeholder blocks placeholder =
     (if \<not> list_ex is_image_block blocks then None
      else Some (replace_images is_image_block (text_block placeholder) False blocks))"

definition replace_images_in_tool_result :: "result_content list \<Rightarrow> string \<Rightarrow> result_content list" where
  "replace_images_in_tool_result content placeholder =
     replace_images rc_is_image (text_result placeholder) False content"

fun downgrade_message :: "message \<Rightarrow> message" where
  "downgrade_message (MUser u) =
     (case um_content u of
        JArr blocks \<Rightarrow>
          (case replace_images_with_placeholder blocks user_image_placeholder of
             None \<Rightarrow> MUser u
           | Some bs \<Rightarrow> MUser \<lparr>um_content = JArr bs, um_timestamp = um_timestamp u\<rparr>)
      | _ \<Rightarrow> MUser u)"
| "downgrade_message (MToolResult tr) =
     (let content = replace_images_in_tool_result (tr_content tr) tool_image_placeholder
      in if length content \<noteq> length (tr_content tr) then MToolResult (tr\<lparr>tr_content := content\<rparr>)
         else MToolResult tr)"
| "downgrade_message m = m"

definition downgrade_unsupported_images :: "message list \<Rightarrow> llm_model \<Rightarrow> message list" where
  "downgrade_unsupported_images ms md = (if md_images md then ms else map downgrade_message ms)"

subsection \<open>Rewriting messages\<close>

definition is_blank_tool_result :: "result_content list \<Rightarrow> bool" where
  "is_blank_tool_result content =
     list_all (\<lambda>c. (rc_is_text c \<or> (rc_type c = [] \<and> rc_text c \<noteq> [])) \<and> trim_space (rc_text c) = []) content"

definition empty_tool_result_marker :: "bool \<Rightarrow> string" where
  "empty_tool_result_marker is_error =
     (if is_error then ''<system>Tool failed and produced no output.</system>''
      else ''<system>Tool executed successfully and produced no output.</system>'')"

definition transform_result ::
  "(json option \<Rightarrow> string) \<Rightarrow> (string \<rightharpoonup> string) \<Rightarrow> tool_result_msg \<Rightarrow> tool_result_msg" where
  "transform_result render ids tr =
     (let rendered = render (tr_meta tr);
          tr1 = (case ids (tr_call_id tr) of None \<Rightarrow> tr | Some i \<Rightarrow> tr\<lparr>tr_call_id := i\<rparr>);
          tr2 = (if rendered = [] \<and> is_blank_tool_result (tr_content tr)
                 then tr1\<lparr>tr_content := [text_result (empty_tool_result_marker (tr_is_error tr))]\<rparr>
                 else tr1)
      in if rendered \<noteq> [] then tr2\<lparr>tr_content := tr_content tr @ [text_result rendered], tr_meta := None\<rparr>
         else tr2)"

definition same_provider :: "llm_model \<Rightarrow> assistant_msg \<Rightarrow> bool" where
  "same_provider md a \<longleftrightarrow> am_provider a = md_provider md \<and> am_api a = md_api md"

definition same_model :: "llm_model \<Rightarrow> assistant_msg \<Rightarrow> bool" where
  "same_model md a \<longleftrightarrow> same_provider md a \<and> am_model a = md_id md"

definition plain_text :: "string \<Rightarrow> assistant_content" where
  "plain_text s = CText \<lparr>txt_text = s, txt_sig = []\<rparr>"

definition new_call_id :: "normaliser option \<Rightarrow> llm_model \<Rightarrow> assistant_msg \<Rightarrow> string \<Rightarrow> string" where
  "new_call_id norm md a i =
     (case norm of None \<Rightarrow> i | Some f \<Rightarrow> if same_model md a then i else f i md a)"

definition transform_call :: "normaliser option \<Rightarrow> llm_model \<Rightarrow> assistant_msg \<Rightarrow> tool_call \<Rightarrow> tool_call" where
  "transform_call norm md a tc =
     (if same_model md a then tc else tc\<lparr>tc_sig := []\<rparr>)\<lparr>tc_id := new_call_id norm md a (tc_id tc)\<rparr>"

fun transform_block ::
  "normaliser option \<Rightarrow> llm_model \<Rightarrow> assistant_msg \<Rightarrow> assistant_content \<Rightarrow> assistant_content list" where
  "transform_block norm md a (CThinking b) =
     (if same_provider md a \<and> th_sig b \<noteq> [] then [CThinking b]
      else if th_text b = [] \<or> trim_space (th_text b) = [] then []
      else if same_model md a then [CThinking b]
      else [plain_text (th_text b)])"
| "transform_block norm md a (CText t) = (if same_model md a then [CText t] else [plain_text (txt_text t)])"
| "transform_block norm md a (CToolCall tc) = [CToolCall (transform_call norm md a tc)]"
| "transform_block norm md a (CServer b) =
     (if same_provider md a then [CServer b]
      else if srv_display b \<noteq> [] then [plain_text (srv_display b)] else [])"
| "transform_block norm md a (COther j) = [COther j]"

definition transform_assistant :: "normaliser option \<Rightarrow> llm_model \<Rightarrow> assistant_msg \<Rightarrow> assistant_msg" where
  "transform_assistant norm md a = a\<lparr>am_content := concat (map (transform_block norm md a) (am_content a))\<rparr>"

text \<open>The ids a message's calls give a new name, the last one winning.\<close>

definition renamed_ids ::
  "normaliser option \<Rightarrow> llm_model \<Rightarrow> assistant_msg \<Rightarrow> (string \<rightharpoonup> string) \<Rightarrow> (string \<rightharpoonup> string)" where
  "renamed_ids norm md a ids =
     fold (\<lambda>tc m. let i = new_call_id norm md a (tc_id tc) in if i \<noteq> tc_id tc then m(tc_id tc \<mapsto> i) else m)
       (tool_calls_of (am_content a)) ids"

fun rewrite_pass ::
  "(json option \<Rightarrow> string) \<Rightarrow> normaliser option \<Rightarrow> llm_model \<Rightarrow> (string \<rightharpoonup> string) \<Rightarrow> message list \<Rightarrow> message list" where
  "rewrite_pass render norm md ids [] = []"
| "rewrite_pass render norm md ids (MToolResult tr # ms) =
     MToolResult (transform_result render ids tr) # rewrite_pass render norm md ids ms"
| "rewrite_pass render norm md ids (MAssistant a # ms) =
     MAssistant (transform_assistant norm md a) # rewrite_pass render norm md (renamed_ids norm md a ids) ms"
| "rewrite_pass render norm md ids (m # ms) = m # rewrite_pass render norm md ids ms"

subsection \<open>Answering calls\<close>

definition no_result :: "int \<Rightarrow> tool_call \<Rightarrow> message" where
  "no_result ts tc = MToolResult
     \<lparr>tr_call_id = tc_id tc, tr_tool_name = tc_name tc, tr_content = [text_result ''No result provided''],
      tr_details = None, tr_is_error = True, tr_timestamp = ts, tr_meta = None\<rparr>"

definition synthetic_results :: "tool_call list \<Rightarrow> int \<Rightarrow> string list \<Rightarrow> message list" where
  "synthetic_results pending ts existing =
     map (no_result ts) (filter (\<lambda>tc. tc_id tc \<notin> set existing) pending)"

text \<open>
  The second pass: the calls of the last assistant message still without a result, that message's
  time stamp, and the ids answered since.
\<close>

fun answer_pass :: "tool_call list \<Rightarrow> int \<Rightarrow> string list \<Rightarrow> message list \<Rightarrow> message list" where
  "answer_pass pending ts existing [] = synthetic_results pending ts existing"
| "answer_pass pending ts existing (MAssistant a # ms) =
     synthetic_results pending ts existing
     @ (if failed_stop a then answer_pass [] ts (if pending \<noteq> [] then [] else existing) ms
        else let calls = tool_calls_of (am_content a)
             in MAssistant a # answer_pass calls (if calls \<noteq> [] then am_timestamp a else ts)
                  (if calls \<noteq> [] \<or> pending \<noteq> [] then [] else existing) ms)"
| "answer_pass pending ts existing (MToolResult tr # ms) =
     MToolResult tr # answer_pass pending ts (tr_call_id tr # existing) ms"
| "answer_pass pending ts existing (MUser u # ms) =
     synthetic_results pending ts existing
     @ MUser u # answer_pass [] ts (if pending \<noteq> [] then [] else existing) ms"
| "answer_pass pending ts existing (MOther r # ms) = MOther r # answer_pass pending ts existing ms"

definition answer_results :: "message list \<Rightarrow> message list" where
  "answer_results ms = answer_pass [] 0 [] ms"

definition transform_messages ::
  "(json option \<Rightarrow> string) \<Rightarrow> message list \<Rightarrow> llm_model \<Rightarrow> normaliser option \<Rightarrow> message list" where
  "transform_messages render ms md norm =
     answer_results (rewrite_pass render norm md Map.empty (downgrade_unsupported_images ms md))"

subsection \<open>The pass is a repair\<close>

text \<open>The ids answered before the next user or assistant message.\<close>

fun results_ahead :: "message list \<Rightarrow> string list" where
  "results_ahead (MToolResult tr # ms) = tr_call_id tr # results_ahead ms"
| "results_ahead (MOther r # ms) = results_ahead ms"
| "results_ahead _ = []"

fun turns_answered :: "message list \<Rightarrow> bool" where
  "turns_answered [] \<longleftrightarrow> True"
| "turns_answered (MAssistant a # ms) \<longleftrightarrow>
     \<not> failed_stop a \<and> tc_id ` set (tool_calls_of (am_content a)) \<subseteq> set (results_ahead ms) \<and> turns_answered ms"
| "turns_answered (m # ms) \<longleftrightarrow> turns_answered ms"

fun sent :: "message \<Rightarrow> bool" where
  "sent (MAssistant a) \<longleftrightarrow> \<not> failed_stop a"
| "sent _ \<longleftrightarrow> True"

lemma results_ahead_synthetic [simp]:
  "results_ahead (synthetic_results p ts ex @ ms)
     = map tc_id (filter (\<lambda>tc. tc_id tc \<notin> set ex) p) @ results_ahead ms"
  unfolding synthetic_results_def by (induction p) (simp_all add: no_result_def)

lemma turns_answered_synthetic [simp]:
  "turns_answered (synthetic_results p ts ex @ ms) \<longleftrightarrow> turns_answered ms"
  unfolding synthetic_results_def by (induction p) (simp_all add: no_result_def)

lemma synthetic_results_last [simp]:
  "results_ahead (synthetic_results p ts ex) = map tc_id (filter (\<lambda>tc. tc_id tc \<notin> set ex) p)"
  "turns_answered (synthetic_results p ts ex)"
  using results_ahead_synthetic [of p ts ex "[]"] turns_answered_synthetic [of p ts ex "[]"] by simp_all

lemma synthetic_none: "tc_id ` set p \<subseteq> set ex \<Longrightarrow> synthetic_results p ts ex = []"
  by (auto simp: synthetic_results_def filter_empty_conv)

lemma answer_pass_answers:
  "turns_answered (answer_pass p ts ex ms)
   \<and> tc_id ` set p \<subseteq> set ex \<union> set (results_ahead (answer_pass p ts ex ms))"
  by (induction p ts ex ms rule: answer_pass.induct) (auto simp: Let_def image_subset_iff split: if_splits)

lemma answer_pass_fixed:
  "turns_answered ms \<Longrightarrow> tc_id ` set p \<subseteq> set ex \<union> set (results_ahead ms) \<Longrightarrow> answer_pass p ts ex ms = ms"
proof (induction p ts ex ms rule: answer_pass.induct)
  case (2 p ts ex a ms)
  then show ?case by (simp add: synthetic_none Let_def)
next
  case (4 p ts ex u ms)
  then show ?case by (simp add: synthetic_none)
qed (auto simp: synthetic_none)

lemma answer_pass_keeps: "subseq (filter sent ms) (answer_pass p ts ex ms)"
  by (induction p ts ex ms rule: answer_pass.induct)
    (auto simp: Let_def intro: list_emb_append2)

interpretation provider_repair: tool_repair answer_results turns_answered sent
proof unfold_locales
  fix ms
  show "turns_answered (answer_results ms)" using answer_pass_answers by (simp add: answer_results_def)
  show "answer_results ms = ms" if "turns_answered ms"
    using that answer_pass_fixed [of ms "[]" "[]" 0] by (simp add: answer_results_def)
  show "subseq (filter sent ms) (answer_results ms)"
    by (simp add: answer_results_def answer_pass_keeps)
qed

end
