(* ===== verification/TransformProps.thy ===== *)
theory TransformProps
  imports Transform
begin

text \<open>
  Properties of the conversation a provider is sent: its calls are answered, transforming it again
  changes nothing, thinking reaches only the provider that signed it, and what happens to images.
\<close>

subsection \<open>Transforming twice\<close>

text \<open>What the rewriting pass leaves alone.\<close>

fun settled :: "(json option \<Rightarrow> string) \<Rightarrow> normaliser option \<Rightarrow> llm_model \<Rightarrow> message \<Rightarrow> bool" where
  "settled render norm md (MToolResult tr) \<longleftrightarrow>
     render (tr_meta tr) = [] \<and> \<not> is_blank_tool_result (tr_content tr)"
| "settled render norm md (MAssistant a) \<longleftrightarrow>
     transform_assistant norm md a = a
     \<and> (\<forall>tc \<in> set (tool_calls_of (am_content a)). new_call_id norm md a (tc_id tc) = tc_id tc)"
| "settled render norm md _ \<longleftrightarrow> True"

lemma renamed_ids_none:
  "\<forall>tc \<in> set (tool_calls_of (am_content a)). new_call_id norm md a (tc_id tc) = tc_id tc
     \<Longrightarrow> renamed_ids norm md a ids = ids"
proof -
  have "fold (\<lambda>tc m. let i = new_call_id norm md a (tc_id tc) in if i \<noteq> tc_id tc then m(tc_id tc \<mapsto> i) else m) tcs ids = ids"
    if "\<forall>tc \<in> set tcs. new_call_id norm md a (tc_id tc) = tc_id tc" for tcs
    using that by (induction tcs) (simp_all add: Let_def)
  then show "\<forall>tc \<in> set (tool_calls_of (am_content a)). new_call_id norm md a (tc_id tc) = tc_id tc
     \<Longrightarrow> renamed_ids norm md a ids = ids"
    by (simp add: renamed_ids_def)
qed

lemma transform_result_settled:
  "settled render norm md (MToolResult tr) \<Longrightarrow> transform_result render Map.empty tr = tr"
  by (simp add: transform_result_def)

lemma rewrite_pass_settled:
  "\<forall>m \<in> set ms. settled render norm md m \<Longrightarrow> rewrite_pass render norm md Map.empty ms = ms"
proof (induction ms)
  case (Cons m ms)
  then show ?case
    by (cases m) (auto simp: transform_result_settled renamed_ids_none)
qed simp

text \<open>What the passes outside the repository must do for that: the hypotheses of idempotence.\<close>

definition normaliser_stable :: "normaliser option \<Rightarrow> llm_model \<Rightarrow> bool" where
  "normaliser_stable norm md \<longleftrightarrow>
     (case norm of None \<Rightarrow> True
      | Some f \<Rightarrow> \<forall>i a cs. f (f i md a) md (a\<lparr>am_content := cs\<rparr>) = f i md a)"

definition render_visible :: "(json option \<Rightarrow> string) \<Rightarrow> bool" where
  "render_visible render \<longleftrightarrow> render None = [] \<and> (\<forall>m. render m = [] \<or> trim_space (render m) \<noteq> [])"

lemma new_call_id_stable:
  "normaliser_stable norm md \<Longrightarrow>
     new_call_id norm md (a\<lparr>am_content := cs\<rparr>) (new_call_id norm md a i) = new_call_id norm md a i"
  by (auto simp: new_call_id_def normaliser_stable_def same_model_def same_provider_def split: option.splits)

lemma transform_block_stable:
  assumes "normaliser_stable norm md" and "b' \<in> set (transform_block norm md a b)"
  shows "transform_block norm md (a\<lparr>am_content := cs\<rparr>) b' = [b']"
  using assms
  by (cases b) (auto simp: plain_text_def transform_call_def new_call_id_stable same_model_def
      same_provider_def split: if_splits)

lemma concat_map_single: "\<forall>x \<in> set xs. f x = [x] \<Longrightarrow> concat (map f xs) = xs"
  by (induction xs) simp_all

lemma transform_assistant_settled:
  assumes "normaliser_stable norm md"
  shows "settled render norm md (MAssistant (transform_assistant norm md a))"
proof -
  let ?cs = "concat (map (transform_block norm md a) (am_content a))"
  have "concat (map (transform_block norm md (a\<lparr>am_content := ?cs\<rparr>)) ?cs) = ?cs"
    by (rule concat_map_single) (use transform_block_stable [OF assms] in auto)
  moreover have "new_call_id norm md (a\<lparr>am_content := ?cs\<rparr>) (tc_id tc) = tc_id tc"
    if "tc \<in> set (tool_calls_of ?cs)" for tc
  proof -
    have "\<exists>b. CToolCall tc \<in> set (transform_block norm md a b)"
      using that by (auto simp: set_tool_calls_of)
    then obtain b where "CToolCall tc \<in> set (transform_block norm md a b)" by blast
    then have "transform_block norm md (a\<lparr>am_content := ?cs\<rparr>) (CToolCall tc) = [CToolCall tc]"
      by (rule transform_block_stable [OF assms])
    then have "transform_call norm md (a\<lparr>am_content := ?cs\<rparr>) tc = tc" by simp
    then have "tc_id (transform_call norm md (a\<lparr>am_content := ?cs\<rparr>) tc) = tc_id tc" by (rule arg_cong)
    then show ?thesis by (simp add: transform_call_def)
  qed
  ultimately show ?thesis by (simp add: transform_assistant_def)
qed

lemma marker_visible: "trim_space (empty_tool_result_marker b) \<noteq> []"
  by (cases b) (simp_all only: empty_tool_result_marker_def if_True if_False, code_simp+)

lemma transform_result_visible:
  assumes "render_visible render"
  shows "settled render norm md (MToolResult (transform_result render ids tr))"
proof -
  have r: "render None = []" "render (tr_meta tr) \<noteq> [] \<Longrightarrow> trim_space (render (tr_meta tr)) \<noteq> []"
    using assms by (auto simp: render_visible_def)
  then show ?thesis
    by (auto simp: transform_result_def Let_def is_blank_tool_result_def text_result_def marker_visible
        split: option.split)
qed

lemma rewrite_pass_settles:
  assumes "normaliser_stable norm md" and "render_visible render"
  shows "\<forall>m \<in> set (rewrite_pass render norm md ids ms). settled render norm md m"
proof (induction ms arbitrary: ids)
  case (Cons m ms)
  then show ?case
    using transform_assistant_settled [OF assms(1)] transform_result_visible [OF assms(2)]
    by (cases m) (simp_all del: settled.simps(1,2))
qed simp

lemma answer_pass_members:
  "m \<in> set (answer_pass p ts ex ms) \<Longrightarrow> m \<in> set ms \<or> (\<exists>t tc. m = no_result t tc)"
proof (induction p ts ex ms rule: answer_pass.induct)
  case (2 p ts ex a ms)
  then show ?case
    by (cases "failed_stop a") (auto simp: Let_def synthetic_results_def)
qed (auto simp: synthetic_results_def)

subsection \<open>Images\<close>

text \<open>A run of images is one that is followed by another.\<close>

lemma replace_images_none:
  "\<not> list_ex img bs \<Longrightarrow> replace_images img p prev bs = bs"
  by (induction bs arbitrary: prev) simp_all

lemma replace_images_length: "length (replace_images img p prev bs) \<le> length bs"
  by (induction bs arbitrary: prev) (auto intro: le_SucI)

lemma replace_images_clean: "\<not> img p \<Longrightarrow> \<not> list_ex img (replace_images img p prev bs)"
  by (induction bs arbitrary: prev) auto

lemma text_result_not_image [simp]: "\<not> rc_is_image (text_result s)"
  by (simp add: rc_is_image_def text_result_def)

lemma text_block_not_image [simp]: "\<not> is_image_block (text_block s)"
  by (simp add: is_image_block_def text_block_def get_str_def lookup_def)

lemma replace_images_append_clean:
  "\<not> list_ex img cs \<Longrightarrow>
     replace_images img p prev (bs @ cs) = replace_images img p prev bs @ cs"
  by (induction bs arbitrary: prev) (simp_all add: replace_images_none)

text \<open>What the image pass leaves alone.\<close>

definition image_settled :: "message \<Rightarrow> bool" where
  "image_settled m \<longleftrightarrow> downgrade_message m = m"

lemma result_image_settled:
  "image_settled (MToolResult tr) \<longleftrightarrow>
     length (replace_images_in_tool_result (tr_content tr) tool_image_placeholder) = length (tr_content tr)
     \<or> replace_images_in_tool_result (tr_content tr) tool_image_placeholder = tr_content tr"
  by (auto simp: image_settled_def Let_def) (metis tool_result_msg.select_convs(3) tool_result_msg.surjective tool_result_msg.update_convs(3))

lemma clean_result_settled:
  "\<not> list_ex rc_is_image (tr_content tr) \<Longrightarrow> image_settled (MToolResult tr)"
  by (simp add: result_image_settled replace_images_in_tool_result_def replace_images_none)

lemma downgrade_settles: "image_settled (downgrade_message m)"
proof (cases m)
  case (MUser u)
  show ?thesis
  proof (cases "\<exists>bs. um_content u = JArr bs \<and> list_ex is_image_block bs")
    case True
    then obtain bs where "um_content u = JArr bs" "list_ex is_image_block bs" by blast
    with MUser show ?thesis
      by (simp add: image_settled_def replace_images_with_placeholder_def replace_images_clean)
  next
    case False
    with MUser show ?thesis
      by (auto simp: image_settled_def replace_images_with_placeholder_def split: json.splits)
  qed
next
  case (MToolResult tr)
  let ?c = "replace_images_in_tool_result (tr_content tr) tool_image_placeholder"
  show ?thesis
  proof (cases "length ?c = length (tr_content tr)")
    case True
    with MToolResult show ?thesis by (simp add: image_settled_def Let_def)
  next
    case False
    have "\<not> list_ex rc_is_image ?c"
      unfolding replace_images_in_tool_result_def by (rule replace_images_clean) simp
    with MToolResult False show ?thesis by (simp add: clean_result_settled)
  qed
qed (simp_all add: image_settled_def)

lemma transform_result_image_settled:
  assumes "image_settled (MToolResult tr)"
  shows "image_settled (MToolResult (transform_result render ids tr))"
proof -
  have "\<not> list_ex rc_is_image [text_result s]" for s by simp
  then show ?thesis
    using assms
    by (auto simp: result_image_settled transform_result_def Let_def replace_images_in_tool_result_def
        replace_images_append_clean replace_images_none split: option.split)
qed

lemma rewrite_pass_image_settled:
  "\<forall>m \<in> set ms. image_settled m \<Longrightarrow> \<forall>m \<in> set (rewrite_pass render norm md ids ms). image_settled m"
proof (induction ms arbitrary: ids)
  case (Cons m ms)
  then show ?case
    by (cases m) (simp_all add: transform_result_image_settled, simp_all add: image_settled_def)
qed simp

text \<open>
  preparing a conversation is idempotent: a provider that transforms what was already
  transformed for the same model sends the same messages, nothing is rendered, renamed or answered
  twice. This needs the id normaliser to leave its own results alone and a rendered annotation to be
  visible text.
\<close>

theorem transform_idempotent:
  assumes "normaliser_stable norm md" and "render_visible render"
  shows "transform_messages render (transform_messages render ms md norm) md norm
    = transform_messages render ms md norm"
proof -
  let ?out = "transform_messages render ms md norm"
  let ?pre = "rewrite_pass render norm md Map.empty (downgrade_unsupported_images ms md)"
  have mem: "m \<in> set ?pre \<or> (\<exists>t tc. m = no_result t tc)" if "m \<in> set ?out" for m
    using answer_pass_members that by (simp add: transform_messages_def answer_results_def)
  have "trim_space ''No result provided'' \<noteq> []" by code_simp
  then have new: "settled render norm md (no_result t tc)" "image_settled (no_result t tc)" for t tc
    using assms(2)
    by (simp_all add: no_result_def render_visible_def is_blank_tool_result_def text_result_def
        clean_result_settled rc_is_image_def)
  have "downgrade_unsupported_images ?out md = ?out"
  proof (cases "md_images md")
    case False
    have "\<forall>m \<in> set ?pre. image_settled m"
      by (rule rewrite_pass_image_settled)
        (use False in \<open>auto simp: downgrade_unsupported_images_def downgrade_settles\<close>)
    then have "\<forall>m \<in> set ?out. downgrade_message m = m"
      using mem new(2) unfolding image_settled_def by blast
    then show ?thesis using False by (simp add: downgrade_unsupported_images_def map_idI)
  qed (simp add: downgrade_unsupported_images_def)
  moreover have "rewrite_pass render norm md Map.empty ?out = ?out"
    by (rule rewrite_pass_settled) (use mem new(1) rewrite_pass_settles [OF assms] in blast)
  moreover have "answer_results ?out = ?out"
    unfolding transform_messages_def by (rule provider_repair.repair_idem)
  ultimately show ?thesis by (simp only: transform_messages_def [of render ?out])
qed

definition short_ids :: normaliser where
  "short_ids i md a = take 2 i"

definition plain_render :: "json option \<Rightarrow> string" where
  "plain_render m = (case m of Some (JStr s) \<Rightarrow> ''# '' @ s | _ \<Rightarrow> [])"

lemma short_ids_stable: "normaliser_stable (Some short_ids) md"
  by (simp add: normaliser_stable_def short_ids_def)

definition target_model :: llm_model where
  "target_model = \<lparr>md_id = ''m2'', md_provider = ''p'', md_api = ''x'', md_images = False\<rparr>"

definition foreign_turn :: assistant_msg where
  "foreign_turn =
     \<lparr>am_content = [CThinking \<lparr>th_text = ''hm'', th_sig = ''s'', th_redacted = False\<rparr>,
        CToolCall \<lparr>tc_id = ''long'', tc_name = ''bash'', tc_args = [], tc_sig = []\<rparr>],
      am_api = ''x'', am_provider = ''p'', am_model = ''m1'',
      am_usage = \<lparr>u_total = 0, u_input = 0, u_output = 0, u_cache_read = 0, u_cache_write = 0\<rparr>,
      am_stop = StopToolUse, am_timestamp = 7\<rparr>"

theorem transform_idempotent_witness:
  "transform_messages (\<lambda>_. []) (transform_messages (\<lambda>_. []) [MAssistant foreign_turn] target_model (Some short_ids))
     target_model (Some short_ids)
   = transform_messages (\<lambda>_. []) [MAssistant foreign_turn] target_model (Some short_ids)"
  by (rule transform_idempotent [OF short_ids_stable]) (simp add: render_visible_def)

subsection \<open>Calls and results\<close>

text \<open>
  C22: in what a provider is sent every tool call of an assistant message is answered before the next
  user or assistant message, no failed or aborted turn is left, and every other message is there, in
  order, as rewritten.
\<close>

theorem transformed_calls_answered:
  "turns_answered (transform_messages render ms md norm)
   \<and> subseq (filter sent (rewrite_pass render norm md Map.empty (downgrade_unsupported_images ms md)))
        (transform_messages render ms md norm)"
  by (simp add: transform_messages_def provider_repair.repair_complete provider_repair.repair_keeps)

lemma renamed_ids_spec:
  "renamed_ids norm md a ids i
     = (if i \<in> tc_id ` set (tool_calls_of (am_content a)) \<and> new_call_id norm md a i \<noteq> i
        then Some (new_call_id norm md a i) else ids i)"
proof -
  have "fold (\<lambda>tc m. let j = new_call_id norm md a (tc_id tc) in if j \<noteq> tc_id tc then m(tc_id tc \<mapsto> j) else m) tcs ids i
      = (if i \<in> tc_id ` set tcs \<and> new_call_id norm md a i \<noteq> i then Some (new_call_id norm md a i) else ids i)" for tcs
    by (induction tcs arbitrary: ids) (auto simp: Let_def)
  then show ?thesis by (simp only: renamed_ids_def)
qed

fun call_ids :: "message \<Rightarrow> string set" where
  "call_ids (MAssistant a) = tc_id ` set (tool_calls_of (am_content a))"
| "call_ids _ = {}"

lemma rewrite_pass_result:
  assumes "\<forall>m \<in> set xs. tr_call_id tr \<notin> call_ids m"
  shows "\<exists>ids'. ids' (tr_call_id tr) = ids (tr_call_id tr)
    \<and> MToolResult (transform_result render ids' tr) \<in> set (rewrite_pass render norm md ids (xs @ MToolResult tr # ys))"
  using assms
proof (induction xs arbitrary: ids)
  case Nil
  then show ?case by auto
next
  case (Cons x xs)
  show ?case
  proof (cases x)
    case (MAssistant a)
    with Cons.prems have "renamed_ids norm md a ids (tr_call_id tr) = ids (tr_call_id tr)"
      by (auto simp: renamed_ids_spec)
    with MAssistant Cons.IH [of "renamed_ids norm md a ids"] Cons.prems show ?thesis by auto
  qed (use Cons in auto)
qed

lemma rewrite_pass_unrenamed:
  assumes "\<forall>m \<in> set xs. i \<notin> call_ids m"
  shows "\<exists>ids'. ids' i = ids i
    \<and> rewrite_pass render norm md ids (xs @ ys)
        = rewrite_pass render norm md ids xs @ rewrite_pass render norm md ids' ys"
  using assms
proof (induction xs arbitrary: ids)
  case Nil
  then show ?case by auto
next
  case (Cons x xs)
  show ?case
  proof (cases x)
    case (MAssistant a)
    with Cons.prems have "renamed_ids norm md a ids i = ids i" by (auto simp: renamed_ids_spec)
    with MAssistant Cons.IH [of "renamed_ids norm md a ids"] Cons.prems show ?thesis by auto
  qed (use Cons in auto)
qed

text \<open>
  a result follows its call through the renaming of ids: when a call's id occurs in no other
  assistant message up to its result, call and result carry the same, new, id afterwards.
\<close>

theorem renamed_results_follow:
  assumes "tc \<in> set (tool_calls_of (am_content a))" and "tr_call_id tr = tc_id tc"
    and "\<forall>m \<in> set xs \<union> set ys. tc_id tc \<notin> call_ids m"
  shows "\<exists>tc' tr'. tc_id tc' = new_call_id norm md a (tc_id tc) \<and> tr_call_id tr' = tc_id tc'
    \<and> tc' \<in> set (tool_calls_of (am_content (transform_assistant norm md a)))
    \<and> MAssistant (transform_assistant norm md a)
        \<in> set (rewrite_pass render norm md Map.empty (xs @ MAssistant a # ys @ MToolResult tr # zs))
    \<and> MToolResult tr'
        \<in> set (rewrite_pass render norm md Map.empty (xs @ MAssistant a # ys @ MToolResult tr # zs))"
proof -
  let ?i = "tc_id tc"
  obtain ids' where ids': "ids' ?i = None" and split:
    "rewrite_pass render norm md Map.empty (xs @ MAssistant a # ys @ MToolResult tr # zs)
       = rewrite_pass render norm md Map.empty xs
         @ rewrite_pass render norm md ids' (MAssistant a # ys @ MToolResult tr # zs)"
    using rewrite_pass_unrenamed [of xs ?i Map.empty render norm md "MAssistant a # ys @ MToolResult tr # zs"]
      assms(3) by auto
  obtain ids'' where ids'': "ids'' ?i = renamed_ids norm md a ids' ?i"
    and mem: "MToolResult (transform_result render ids'' tr)
      \<in> set (rewrite_pass render norm md (renamed_ids norm md a ids') (ys @ MToolResult tr # zs))"
    using rewrite_pass_result [of ys tr "renamed_ids norm md a ids'" render norm md zs] assms(2,3) by auto
  have "ids'' ?i = (if new_call_id norm md a ?i \<noteq> ?i then Some (new_call_id norm md a ?i) else None)"
    using ids' ids'' assms(1) by (auto simp: renamed_ids_spec)
  then have "tr_call_id (transform_result render ids'' tr) = new_call_id norm md a ?i"
    using assms(2) by (auto simp: transform_result_def Let_def)
  moreover have "transform_call norm md a tc
      \<in> set (tool_calls_of (am_content (transform_assistant norm md a)))"
    using assms(1) by (force simp: set_tool_calls_of transform_assistant_def)
  moreover have "tc_id (transform_call norm md a tc) = new_call_id norm md a ?i"
    by (simp add: transform_call_def)
  ultimately show ?thesis unfolding split using mem by fastforce
qed

definition long_result :: tool_result_msg where
  "long_result = \<lparr>tr_call_id = ''long'', tr_tool_name = ''bash'', tr_content = [text_result ''ok''],
     tr_details = None, tr_is_error = False, tr_timestamp = 8, tr_meta = None\<rparr>"

theorem renamed_results_follow_witness:
  "\<exists>tr'. tr_call_id tr' = ''lo'' \<and> MToolResult tr'
     \<in> set (rewrite_pass (\<lambda>_. []) (Some short_ids) target_model Map.empty
              [MAssistant foreign_turn, MToolResult long_result])"
proof -
  let ?tc = "\<lparr>tc_id = ''long'', tc_name = ''bash'', tc_args = [], tc_sig = []\<rparr>"
  have "?tc \<in> set (tool_calls_of (am_content foreign_turn))" "tr_call_id long_result = tc_id ?tc"
    "new_call_id (Some short_ids) target_model foreign_turn (tc_id ?tc) = ''lo''"
    by (simp_all add: foreign_turn_def long_result_def new_call_id_def same_model_def target_model_def
        short_ids_def)
  with renamed_results_follow [of ?tc foreign_turn long_result "[]" "[]" "Some short_ids" target_model "\<lambda>_. []" "[]"]
  show ?thesis by auto
qed

subsection \<open>Thinking\<close>

lemma rewrite_pass_assistants:
  "MAssistant a' \<in> set (rewrite_pass render norm md ids ms)
     \<longleftrightarrow> (\<exists>a. MAssistant a \<in> set ms \<and> a' = transform_assistant norm md a)"
  by (induction render norm md ids ms rule: rewrite_pass.induct) auto

lemma rewrite_pass_users:
  "MUser u \<in> set (rewrite_pass render norm md ids ms) \<longleftrightarrow> MUser u \<in> set ms"
  by (induction render norm md ids ms rule: rewrite_pass.induct) auto

lemma downgrade_message_assistant: "downgrade_message m = MAssistant a \<longleftrightarrow> m = MAssistant a"
proof (cases m)
  case (MUser u)
  then show ?thesis by (cases "um_content u") (auto split: option.split)
qed (simp_all add: Let_def)

lemma downgrade_assistants:
  "MAssistant a \<in> set (downgrade_unsupported_images ms md) \<longleftrightarrow> MAssistant a \<in> set ms"
proof -
  have "MAssistant a = downgrade_message m \<longleftrightarrow> m = MAssistant a" for m
    using downgrade_message_assistant [of m a] by metis
  then have "MAssistant a \<in> set (map downgrade_message ms) \<longleftrightarrow> MAssistant a \<in> set ms"
    by (simp only: set_map image_iff) blast
  then show ?thesis by (simp add: downgrade_unsupported_images_def)
qed

lemma downgraded_user:
  assumes "downgrade_message m = MUser u" and "um_content u = JArr bs"
  shows "\<not> list_ex is_image_block bs"
proof (cases m)
  case (MUser v)
  show ?thesis
  proof (cases "\<exists>cs. um_content v = JArr cs \<and> list_ex is_image_block cs")
    case True
    then obtain cs where "um_content v = JArr cs" "list_ex is_image_block cs" by blast
    with MUser assms show ?thesis
      by (auto simp: replace_images_with_placeholder_def replace_images_clean)
  next
    case False
    with MUser assms show ?thesis
      by (auto simp: replace_images_with_placeholder_def split: json.splits)
  qed
qed (use assms in \<open>auto simp: Let_def split: if_splits\<close>)

lemma transformed_assistants:
  "MAssistant a' \<in> set (transform_messages render ms md norm)
     \<longleftrightarrow> (\<exists>a. MAssistant a \<in> set ms \<and> \<not> failed_stop a \<and> a' = transform_assistant norm md a)"
proof
  assume a': "MAssistant a' \<in> set (transform_messages render ms md norm)"
  then have "\<not> failed_stop a'"
  proof -
    have "\<not> failed_stop x" if "turns_answered xs" "MAssistant x \<in> set xs" for x xs
      using that by (induction xs rule: turns_answered.induct) auto
    moreover have "turns_answered (transform_messages render ms md norm)"
      by (simp add: transform_messages_def provider_repair.repair_complete)
    ultimately show ?thesis using a' by blast
  qed
  moreover have "MAssistant a' \<in> set (rewrite_pass render norm md Map.empty (downgrade_unsupported_images ms md))"
    using answer_pass_members a' by (fastforce simp: transform_messages_def answer_results_def no_result_def)
  ultimately show "\<exists>a. MAssistant a \<in> set ms \<and> \<not> failed_stop a \<and> a' = transform_assistant norm md a"
    by (auto simp: rewrite_pass_assistants downgrade_assistants transform_assistant_def failed_stop_def)
next
  assume "\<exists>a. MAssistant a \<in> set ms \<and> \<not> failed_stop a \<and> a' = transform_assistant norm md a"
  then have "MAssistant a' \<in> set (rewrite_pass render norm md Map.empty (downgrade_unsupported_images ms md))"
    "sent (MAssistant a')"
    by (auto simp: rewrite_pass_assistants downgrade_assistants transform_assistant_def failed_stop_def)
  then show "MAssistant a' \<in> set (transform_messages render ms md norm)"
    unfolding transform_messages_def by (rule provider_repair.repair_keeps_mem)
qed

text \<open>
  Thinking reaches only the provider and protocol that produced it: a block that is sent is
  either signed, and then by the same provider and protocol, or of the very same model; and a signed
  block of the same provider and protocol is sent unchanged.
\<close>

theorem thinking_stays:
  "(\<forall>a b. MAssistant a \<in> set (transform_messages render ms md norm) \<and> CThinking b \<in> set (am_content a)
      \<longrightarrow> same_provider md a \<and> (th_sig b \<noteq> [] \<or> same_model md a))
   \<and> (\<forall>a b. MAssistant a \<in> set ms \<and> \<not> failed_stop a \<and> same_provider md a
        \<and> CThinking b \<in> set (am_content a) \<and> th_sig b \<noteq> []
      \<longrightarrow> (\<exists>a'. MAssistant a' \<in> set (transform_messages render ms md norm)
             \<and> CThinking b \<in> set (am_content a')))"
proof (intro conjI allI impI)
  fix a b assume m: "MAssistant a \<in> set (transform_messages render ms md norm) \<and> CThinking b \<in> set (am_content a)"
  then obtain a0 where a0: "a = transform_assistant norm md a0" by (auto simp: transformed_assistants)
  with m obtain b0 where "CThinking b \<in> set (transform_block norm md a0 b0)"
    by (auto simp: transform_assistant_def)
  then have "same_provider md a0 \<and> (th_sig b \<noteq> [] \<or> same_model md a0)"
    by (cases b0) (auto simp: plain_text_def same_model_def split: if_splits)
  with a0 show "same_provider md a" "th_sig b \<noteq> [] \<or> same_model md a"
    by (simp_all add: transform_assistant_def same_provider_def same_model_def)
next
  fix a b
  assume m: "MAssistant a \<in> set ms \<and> \<not> failed_stop a \<and> same_provider md a
      \<and> CThinking b \<in> set (am_content a) \<and> th_sig b \<noteq> []"
  then have "MAssistant (transform_assistant norm md a) \<in> set (transform_messages render ms md norm)"
    by (auto simp: transformed_assistants)
  moreover have "CThinking b \<in> set (am_content (transform_assistant norm md a))"
    using m by (force simp: transform_assistant_def)
  ultimately show "\<exists>a'. MAssistant a' \<in> set (transform_messages render ms md norm)
      \<and> CThinking b \<in> set (am_content a')" by blast
qed

theorem thinking_stays_witness:
  "\<exists>a'. MAssistant a' \<in> set (transform_messages (\<lambda>_. []) [MAssistant foreign_turn] target_model None)
     \<and> CThinking \<lparr>th_text = ''hm'', th_sig = ''s'', th_redacted = False\<rparr> \<in> set (am_content a')"
  by (rule thinking_stays [THEN conjunct2, rule_format, of foreign_turn])
    (simp add: foreign_turn_def failed_stop_def same_provider_def target_model_def)

text \<open>
  For a model that cannot see images no user message that is sent holds an image block. A tool
  result however is compared with its replacement by length alone, so one that holds a single image
  is sent with the image in it.
\<close>

theorem images_for_blind_model:
  assumes "\<not> md_images md"
  shows "(\<forall>u bs. MUser u \<in> set (transform_messages render ms md norm) \<and> um_content u = JArr bs
           \<longrightarrow> \<not> list_ex is_image_block bs)
    \<and> (rc_is_image img \<and> render (tr_meta tr) = []
        \<longrightarrow> transform_messages render [MToolResult (tr\<lparr>tr_content := [img]\<rparr>)] md norm
              = [MToolResult (tr\<lparr>tr_content := [img]\<rparr>)])"
proof (intro conjI allI impI)
  fix u bs assume u: "MUser u \<in> set (transform_messages render ms md norm) \<and> um_content u = JArr bs"
  then have "MUser u \<in> set (rewrite_pass render norm md Map.empty (map downgrade_message ms))"
    using answer_pass_members assms
    by (fastforce simp: transform_messages_def answer_results_def no_result_def downgrade_unsupported_images_def)
  then obtain m where "downgrade_message m = MUser u" by (auto simp: rewrite_pass_users)
  then show "\<not> list_ex is_image_block bs" using u by (blast intro: downgraded_user [THEN notE])
next
  assume "rc_is_image img \<and> render (tr_meta tr) = []"
  then show "transform_messages render [MToolResult (tr\<lparr>tr_content := [img]\<rparr>)] md norm
      = [MToolResult (tr\<lparr>tr_content := [img]\<rparr>)]"
    using assms
    by (simp add: transform_messages_def answer_results_def downgrade_unsupported_images_def
        replace_images_in_tool_result_def transform_result_def is_blank_tool_result_def
        rc_is_image_def rc_is_text_def synthetic_results_def)
qed

theorem images_for_blind_model_witness:
  "transform_messages (\<lambda>_. []) [MToolResult (long_result
       \<lparr>tr_content := [\<lparr>rc_type = ''image'', rc_text = [], rc_data = ''png'', rc_mime = ''image/png''\<rparr>]\<rparr>)] target_model None
   = [MToolResult (long_result\<lparr>tr_content := [\<lparr>rc_type = ''image'', rc_text = [], rc_data = ''png'', rc_mime = ''image/png''\<rparr>]\<rparr>)]"
  by (rule images_for_blind_model [THEN conjunct2, rule_format])
    (simp_all add: target_model_def rc_is_image_def)

end
