(* ===== verification/Assoc.thy ===== *)
theory Assoc
  imports Prelude "HOL-Library.Multiset" "HOL-Library.List_Lexorder" "HOL-Library.Char_ord"
begin

text \<open>
  Association lists as Go maps whose iteration order is unspecified, and sorting that makes up for it.
\<close>

lemma set_put:
  "distinct (map fst m) \<Longrightarrow> set (put k v m) = insert (k, v) {p \<in> set m. fst p \<noteq> k}"
  by (induction k v m rule: put.induct) force+

lemma mset_put:
  "distinct (map fst m) \<Longrightarrow> mset (put k v m) = mset ((k, v) # filter (\<lambda>p. fst p \<noteq> k) m)"
proof (induction k v m rule: put.induct)
  case (2 k v k' v' m)
  show ?case
  proof (cases "k = k'")
    case True
    with 2(2) have "\<forall>p \<in> set m. fst p \<noteq> k" by auto
    then have "filter (\<lambda>p. fst p \<noteq> k) m = m" by (rule filter_True)
    with True show ?thesis by simp
  qed (use 2 in simp)
qed simp

lemma remove_key_subset: "set (remove_key k m) \<subseteq> set m"
  by (auto simp: remove_key_def)

lemma sort_key_perm:
  fixes f :: "'a \<Rightarrow> 'b::linorder"
  assumes "inj_on f (set xs)" and "distinct xs" and "mset ys = mset xs"
  shows "sort_key f ys = sort_key f xs"
proof -
  have s: "set ys = set xs" using assms(3) by (metis set_mset_mset)
  have "distinct ys" using assms(2,3) by (metis mset_eq_imp_distinct_iff)
  then have "distinct (map f (sort_key f ys))" "distinct (map f (sort_key f xs))"
    using assms(1,2) s by (simp_all add: distinct_map)
  then have "map f (sort_key f ys) = map f (sort_key f xs)"
    using sorted_distinct_set_unique [of "map f (sort_key f ys)" "map f (sort_key f xs)"] s by simp
  then show ?thesis by (rule map_inj_on) (use assms(1) s in simp)
qed

end
