(* ===== verification/Observables.thy ===== *)
theory Observables
  imports Disk Assoc "HOL-Library.Product_Lexorder" Samples
begin

text \<open>
  Observable cards (\<^verbatim>\<open>pkg/session/store/observables.go\<close>): one card per source and key, stamped with
  strictly increasing times, written to a file next to the transcript at every change and listed by
  source, newest first.

  A time is its count of nanoseconds, which the JSON form keeps. A Go map is an association list; the
  order in which Go iterates over it is unspecified, so what is written to the file is any
  permutation of the entries. A file is the list of cards it holds, \<open>None\<close> when it is missing or not
  a list of cards.

  Properties of observable cards: the listing does not depend on the order a map is iterated in, it
  survives a restart, and the newest card of a source comes first.
\<close>

record card =
  card_source :: string
  card_key :: string
  card_slug :: string
  card_detail :: string
  card_ts :: int
  card_entry_id :: string

type_synonym cards = "((string \<times> string) \<times> card) list"

record observable_store =
  ob_cards :: cards
  ob_path :: path
  ob_last_ts :: int

definition slug_max_len :: nat where
  "slug_max_len = 24"

definition cards_path :: "path \<Rightarrow> path" where
  "cards_path session_file = (if session_file = [] then [] else session_file @ ''.cards'')"

definition truncate_runes :: "string \<Rightarrow> int \<Rightarrow> string" where
  "truncate_runes s n = (if n \<le> 0 then [] else take_runes (nat n) s)"

text \<open>\<open>load_card\<close> is one turn of the loop of \<^verbatim>\<open>loadFromFile\<close>, on the map and the newest time so far.\<close>

definition load_card :: "card \<Rightarrow> cards \<times> int \<Rightarrow> cards \<times> int" where
  "load_card c acc =
     (if card_source c = [] \<or> card_key c = [] then acc
      else (put (card_source c, card_key c) c (fst acc),
            if card_ts c > snd acc then card_ts c else snd acc))"

definition load_from_file :: "card list option \<Rightarrow> observable_store \<Rightarrow> observable_store" where
  "load_from_file file s =
     (case file of
        None \<Rightarrow> s
      | Some cs \<Rightarrow> (case fold load_card cs ([], ob_last_ts s) of (m, t) \<Rightarrow> s\<lparr>ob_cards := m, ob_last_ts := t\<rparr>))"

text \<open>The zero \<^verbatim>\<open>time.Time\<close> lies before every time a clock shows; it is 0 here.\<close>

definition new_observable_store :: "path \<Rightarrow> card list option \<Rightarrow> observable_store" where
  "new_observable_store p file =
     (let s = \<lparr>ob_cards = [], ob_path = p, ob_last_ts = 0\<rparr>
      in if p \<noteq> [] then load_from_file file s else s)"

text \<open>
  \<open>flush\<close> relates the file before and after: the cards in some order, or the file unchanged when the
  store is in memory, read-only or the write fails.
\<close>

definition flushed :: "world \<Rightarrow> observable_store \<Rightarrow> card list option \<Rightarrow> card list option \<Rightarrow> bool" where
  "flushed w s file file' \<longleftrightarrow>
     (if ob_path s = [] \<or> \<not> check_writable w (ob_path s) \<or> \<not> w_io_ok w (ob_path s) then file' = file
      else \<exists>cs. file' = Some cs \<and> mset cs = mset (map snd (ob_cards s)))"

definition stamp_after :: "int \<Rightarrow> int \<Rightarrow> int" where
  "stamp_after now last_ts = (if now > last_ts then now else last_ts + 1)"

definition put_card ::
  "int \<Rightarrow> string \<Rightarrow> string \<Rightarrow> string \<Rightarrow> string \<Rightarrow> string \<Rightarrow> observable_store \<Rightarrow> observable_store" where
  "put_card now source key slug detail entry_id s =
     (if source = [] \<or> key = [] then s
      else
        let short = (if length slug > slug_max_len then truncate_runes slug (int slug_max_len) else slug);
            ts = stamp_after now (ob_last_ts s);
            c = \<lparr>card_source = source, card_key = key, card_slug = short, card_detail = detail,
                 card_ts = ts, card_entry_id = entry_id\<rparr>
        in s\<lparr>ob_last_ts := ts, ob_cards := put (source, key) c (ob_cards s)\<rparr>)"

definition clear_card :: "string \<Rightarrow> string \<Rightarrow> observable_store \<Rightarrow> observable_store" where
  "clear_card source key s =
     (if source = [] \<or> key = [] then s
      else s\<lparr>ob_cards := remove_key (source, key) (ob_cards s)\<rparr>)"

definition card_order :: "card \<Rightarrow> string \<times> int" where
  "card_order c = (card_source c, - card_ts c)"

definition list_cards :: "observable_store \<Rightarrow> card list" where
  "list_cards s = sort_key card_order (map snd (ob_cards s))"

subsection \<open>Invariant\<close>

definition cards_ok :: "observable_store \<Rightarrow> bool" where
  "cards_ok s \<longleftrightarrow>
     distinct (map fst (ob_cards s))
     \<and> (\<forall>(k, c) \<in> set (ob_cards s). k = (card_source c, card_key c) \<and> card_source c \<noteq> [] \<and> card_key c \<noteq> []
          \<and> card_ts c \<le> ob_last_ts s)
     \<and> inj_on card_ts (snd ` set (ob_cards s))"

lemma put_card_ok:
  assumes "cards_ok s"
  shows "cards_ok (put_card now source key slug detail entry_id s)"
proof (cases "source = [] \<or> key = []")
  case True
  with assms show ?thesis by (auto simp: put_card_def)
next
  case False
  have d: "distinct (map fst (ob_cards s))" using assms by (simp add: cards_ok_def)
  have lt: "ob_last_ts s < stamp_after now (ob_last_ts s)" by (simp add: stamp_after_def)
  have bound: "\<forall>(k, c) \<in> set (ob_cards s). card_ts c \<le> ob_last_ts s" using assms by (auto simp: cards_ok_def)
  have "inj_on card_ts (snd ` {p \<in> set (ob_cards s). fst p \<noteq> (source, key)})"
    using assms unfolding cards_ok_def by (auto elim: inj_on_subset)
  with False assms lt bound show ?thesis
    unfolding cards_ok_def put_card_def Let_def
    by (auto simp: set_put [OF d] d inj_on_insert)
qed

lemma clear_card_ok:
  assumes "cards_ok s"
  shows "cards_ok (clear_card source key s)"
proof -
  have "inj_on card_ts (snd ` set (remove_key (source, key) (ob_cards s)))"
    using assms unfolding cards_ok_def by (auto elim!: inj_on_subset simp: remove_key_def)
  with assms show ?thesis
    using remove_key_subset [of "(source, key)" "ob_cards s"]
    by (fastforce simp: cards_ok_def clear_card_def)
qed

text \<open>Loading a file that holds the cards of a store, in any order.\<close>

lemma fold_load_last:
  "\<forall>c \<in> set cs. card_source c \<noteq> [] \<and> card_key c \<noteq> [] \<Longrightarrow>
     snd (fold load_card cs (m, t)) = fold (\<lambda>c t. max t (card_ts c)) cs t"
  by (induction cs arbitrary: m t) (auto simp: load_card_def max_def)

lemma fold_load_cards:
  "\<forall>c \<in> set cs. card_source c \<noteq> [] \<and> card_key c \<noteq> [] \<Longrightarrow>
   distinct (map (\<lambda>c. (card_source c, card_key c)) cs) \<Longrightarrow>
   \<forall>c \<in> set cs. (card_source c, card_key c) \<notin> fst ` set m \<Longrightarrow>
     fst (fold load_card cs (m, t)) = m @ map (\<lambda>c. ((card_source c, card_key c), c)) cs"
proof (induction cs arbitrary: m t)
  case (Cons c cs)
  have new: "put k v m = m @ [(k, v)]" if "k \<notin> fst ` set m" for k :: "string \<times> string" and v :: card and m
    using that by (induction k v m rule: put.induct) auto
  let ?m = "m @ [((card_source c, card_key c), c)]"
  from Cons.prems have "put (card_source c, card_key c) c m = ?m" by (simp add: new)
  with Cons.prems(1) have "\<exists>t'. load_card c (m, t) = (?m, t')" by (simp add: load_card_def)
  then obtain t' where l: "load_card c (m, t) = (?m, t')" by blast
  have "fst (fold load_card cs (?m, t')) = ?m @ map (\<lambda>c. ((card_source c, card_key c), c)) cs"
    by (rule Cons.IH) (use Cons.prems in \<open>auto simp: image_iff\<close>)
  with l show ?case by simp
qed simp

lemma fold_max_bound: "(\<forall>c \<in> set cs. card_ts c \<le> fold (\<lambda>c t. max t (card_ts c)) cs t) \<and> t \<le> fold (\<lambda>c t. max t (card_ts c)) cs t"
proof (induction cs arbitrary: t)
  case (Cons c cs)
  from Cons.IH [of "max t (card_ts c)"] show ?case by auto
qed simp

lemma reload_cards:
  assumes ok: "cards_ok s" and m: "mset cs = mset (map snd (ob_cards s))" and p: "p \<noteq> []"
  shows "mset (ob_cards (new_observable_store p (Some cs))) = mset (ob_cards s)"
    and "cards_ok (new_observable_store p (Some cs))"
proof -
  let ?key = "\<lambda>c. (card_source c, card_key c)"
  let ?r = "new_observable_store p (Some cs)"
  have set_cs: "set cs = snd ` set (ob_cards s)" using m by (metis set_map set_mset_mset)
  have fields: "\<forall>c \<in> set cs. card_source c \<noteq> [] \<and> card_key c \<noteq> []"
    using ok unfolding set_cs cards_ok_def by auto
  have tagged: "map (\<lambda>c. (?key c, c)) (map snd (ob_cards s)) = ob_cards s"
    unfolding map_map comp_def by (rule map_idI) (use ok in \<open>auto simp: cards_ok_def\<close>)
  have "map ?key (map snd (ob_cards s)) = map fst (ob_cards s)"
    using ok by (auto simp: cards_ok_def)
  then have "distinct (map ?key (map snd (ob_cards s)))" using ok by (simp only: cards_ok_def)
  moreover have "mset (map ?key cs) = mset (map ?key (map snd (ob_cards s)))" using m by (simp only: mset_map)
  ultimately have d: "distinct (map ?key cs)" by (metis mset_eq_imp_distinct_iff)
  have cards: "ob_cards ?r = map (\<lambda>c. (?key c, c)) cs"
    using fold_load_cards [OF fields d, of "[]" 0] p
    by (simp add: new_observable_store_def load_from_file_def case_prod_beta)
  have "mset (map (\<lambda>c. (?key c, c)) cs) = mset (map (\<lambda>c. (?key c, c)) (map snd (ob_cards s)))"
    using m by (simp only: mset_map)
  with cards tagged show eq: "mset (ob_cards ?r) = mset (ob_cards s)" by simp
  have last_ts: "ob_last_ts ?r = fold (\<lambda>c t. max t (card_ts c)) cs 0"
    using fold_load_last [OF fields, of "[]" 0] p
    by (simp add: new_observable_store_def load_from_file_def case_prod_beta)
  have "set (ob_cards ?r) = set (ob_cards s)" using eq by (metis set_mset_mset)
  moreover have "map fst (ob_cards ?r) = map ?key cs" using cards by (simp add: comp_def)
  moreover have "\<forall>c \<in> set cs. card_ts c \<le> ob_last_ts ?r"
    using fold_max_bound [of cs 0] last_ts by simp
  ultimately show "cards_ok ?r" using ok d unfolding cards_ok_def by (auto simp: set_cs)
qed

subsection \<open>Runs\<close>

text \<open>
  A store bound to a writable file and that file: changes, each followed by a flush, and restarts. A
  call that changes nothing writes nothing and is no step.
\<close>

inductive cards_step :: "world \<Rightarrow> observable_store \<times> card list option \<Rightarrow> observable_store \<times> card list option \<Rightarrow> bool"
  for w where
  put_card: "source \<noteq> [] \<Longrightarrow> key \<noteq> [] \<Longrightarrow>
     flushed w (put_card now source key slug detail entry_id s) f f' \<Longrightarrow>
     cards_step w (s, f) (put_card now source key slug detail entry_id s, f')"
| clear_card: "source \<noteq> [] \<Longrightarrow> key \<noteq> [] \<Longrightarrow> (source, key) \<in> fst ` set (ob_cards s) \<Longrightarrow>
     flushed w (clear_card source key s) f f' \<Longrightarrow>
     cards_step w (s, f) (clear_card source key s, f')"
| reopen: "cards_step w (s, f) (new_observable_store (ob_path s) f, f)"

inductive cards_run :: "world \<Rightarrow> path \<Rightarrow> observable_store \<times> card list option \<Rightarrow> bool" for w p where
  run_start: "cards_run w p (new_observable_store p None, None)"
| run_step: "cards_run w p x \<Longrightarrow> cards_step w x y \<Longrightarrow> cards_run w p y"

text \<open>The file holds the cards of the store; before the first change it may be missing.\<close>

definition file_mirrors :: "observable_store \<Rightarrow> card list option \<Rightarrow> bool" where
  "file_mirrors s f \<longleftrightarrow>
     (case f of None \<Rightarrow> ob_cards s = [] | Some cs \<Rightarrow> mset cs = mset (map snd (ob_cards s)))"

lemma op_paths [simp]:
  "ob_path (put_card now source key slug detail entry_id s) = ob_path s"
  "ob_path (clear_card source key s) = ob_path s"
  "ob_path (new_observable_store p f) = p"
  by (auto simp: put_card_def clear_card_def new_observable_store_def load_from_file_def Let_def
      split: option.split prod.split)

lemma cards_step_ok:
  assumes w: "check_writable w p" "w_io_ok w p" "p \<noteq> []"
    and ok: "cards_ok s" "file_mirrors s f" "ob_path s = p"
    and step: "cards_step w (s, f) (s', f')"
  shows "cards_ok s' \<and> file_mirrors s' f' \<and> ob_path s' = p"
  using step
proof (cases rule: cards_step.cases)
  case (put_card source key now slug detail entry_id)
  with w ok show ?thesis by (auto simp: put_card_ok flushed_def file_mirrors_def)
next
  case (clear_card source key)
  with w ok show ?thesis by (auto simp: clear_card_ok flushed_def file_mirrors_def)
next
  case reopen
  show ?thesis
  proof (cases f)
    case None
    with reopen w ok show ?thesis
      by (simp add: new_observable_store_def load_from_file_def cards_ok_def file_mirrors_def)
  next
    case (Some cs)
    then have m: "mset cs = mset (map snd (ob_cards s))" using ok(2) by (simp add: file_mirrors_def)
    note r = reload_cards [OF ok(1) m w(3)]
    have "mset (map snd (ob_cards (new_observable_store p (Some cs)))) = mset (map snd (ob_cards s))"
      using r(1) by (simp only: mset_map)
    with r(2) m Some reopen ok(3) show ?thesis by (simp add: file_mirrors_def)
  qed
qed

lemma cards_run_ok:
  assumes "check_writable w p" "w_io_ok w p" "p \<noteq> []" and "cards_run w p (s, f)"
  shows "cards_ok s \<and> file_mirrors s f \<and> ob_path s = p"
  using assms(4)
proof (induction "(s, f)" arbitrary: s f rule: cards_run.induct)
  case run_start
  then show ?case
    using assms(3) by (simp add: new_observable_store_def load_from_file_def cards_ok_def file_mirrors_def)
next
  case (run_step x)
  obtain s0 f0 where x: "x = (s0, f0)" by (cases x)
  with run_step show ?case using cards_step_ok [OF assms(1-3)] by blast
qed


lemma card_order_inj: "cards_ok s \<Longrightarrow> inj_on card_order (snd ` set (ob_cards s))"
  by (auto simp: cards_ok_def card_order_def inj_on_def)

lemma cards_distinct: "cards_ok s \<Longrightarrow> distinct (map snd (ob_cards s))"
proof -
  assume ok: "cards_ok s"
  have "map fst (ob_cards s) = map (\<lambda>c. (card_source c, card_key c)) (map snd (ob_cards s))"
    using ok by (auto simp: cards_ok_def)
  moreover have "distinct (map fst (ob_cards s))" using ok by (simp add: cards_ok_def)
  ultimately have "distinct (map (\<lambda>c. (card_source c, card_key c)) (map snd (ob_cards s)))" by metis
  then show ?thesis unfolding distinct_map by (rule conjunct1)
qed

text \<open>
  C23: however the store was changed and reopened, the listing is determined by the cards alone: the
  order in which the map is iterated does not show, every card is listed once, sorted by source and
  newest first, and a process that opens the cards file lists the same.
\<close>

theorem listing_determined:
  assumes "check_writable w p" and "w_io_ok w p" and "p \<noteq> []" and run: "cards_run w p (s, f)"
  shows "(\<forall>m. mset m = mset (ob_cards s) \<longrightarrow> sort_key card_order (map snd m) = list_cards s)
    \<and> mset (list_cards s) = mset (map snd (ob_cards s))
    \<and> sorted (map card_order (list_cards s))
    \<and> list_cards (new_observable_store p f) = list_cards s"
proof -
  note ok = cards_run_ok [OF assms]
  have perm: "sort_key card_order (map snd m) = list_cards s" if "mset m = mset (ob_cards s)" for m
    unfolding list_cards_def
    by (rule sort_key_perm) (use ok that in \<open>simp_all add: card_order_inj cards_distinct mset_map\<close>)
  moreover have "list_cards (new_observable_store p f) = list_cards s"
  proof (cases f)
    case None
    with ok show ?thesis
      by (simp add: file_mirrors_def new_observable_store_def load_from_file_def list_cards_def Let_def)
  next
    case (Some cs)
    with ok have m: "cards_ok s" "mset cs = mset (map snd (ob_cards s))"
      by (simp_all add: file_mirrors_def)
    from perm [OF reload_cards(1) [OF m assms(3)]] show ?thesis
      unfolding Some by (simp only: list_cards_def [of "new_observable_store p (Some cs)"])
  qed
  moreover have "mset (list_cards s) = mset (map snd (ob_cards s))" "sorted (map card_order (list_cards s))"
    by (simp_all add: list_cards_def)
  ultimately show ?thesis by (intro conjI allI impI)
qed

definition one_card :: "observable_store" where
  "one_card = put_card 5 ''plan'' ''active'' ''1/2'' ''d'' [] (new_observable_store ''c'' None)"

lemma one_card_run:
  assumes "check_writable w ''c''" and "w_io_ok w ''c''"
  shows "cards_run w ''c'' (one_card, Some (map snd (ob_cards one_card)))"
  unfolding one_card_def
proof (rule run_step [OF run_start])
  let ?s = "put_card 5 ''plan'' ''active'' ''1/2'' ''d'' [] (new_observable_store ''c'' None)"
  have "flushed w ?s None (Some (map snd (ob_cards ?s)))" using assms by (simp add: flushed_def)
  then show "cards_step w (new_observable_store ''c'' None, None) (?s, Some (map snd (ob_cards ?s)))"
    by (intro cards_step.put_card) simp_all
qed

theorem listing_determined_witness:
  "list_cards (new_observable_store ''c'' (Some (map snd (ob_cards one_card)))) = list_cards one_card"
proof -
  have w: "check_writable (sample_world CHR ''z'') ''c''" "w_io_ok (sample_world CHR ''z'') ''c''"
    by (simp_all add: check_writable_def sample_world_def)
  show ?thesis
    by (rule listing_determined [OF w _ one_card_run [OF w], THEN conjunct2, THEN conjunct2, THEN conjunct2])
      simp
qed

text \<open>
  A card that is put is listed first among the cards of its source, with a time later than
  every earlier one even when the clock stands still or runs back, and replaces only the card of its
  key.
\<close>

theorem put_listed_first:
  assumes ok: "cards_ok s" and "source \<noteq> []" and "key \<noteq> []"
  shows "\<exists>c. filter (\<lambda>c. card_source c = source) (list_cards (put_card now source key slug detail entry_id s))
        = c # filter (\<lambda>c. card_source c = source \<and> card_key c \<noteq> key) (list_cards s)
    \<and> card_key c = key \<and> card_detail c = detail
    \<and> (\<forall>x \<in> set (list_cards s). card_ts x < card_ts c)"
proof -
  let ?s = "put_card now source key slug detail entry_id s"
  let ?old = "filter (\<lambda>p. fst p \<noteq> (source, key)) (ob_cards s)"
  define c where "c = \<lparr>card_source = source, card_key = key,
      card_slug = (if length slug > slug_max_len then truncate_runes slug (int slug_max_len) else slug),
      card_detail = detail, card_ts = stamp_after now (ob_last_ts s), card_entry_id = entry_id\<rparr>"
  have d: "distinct (map fst (ob_cards s))" using ok by (simp add: cards_ok_def)
  have ok': "cards_ok ?s" using ok by (rule put_card_ok)
  have cards: "ob_cards ?s = put (source, key) c (ob_cards s)"
    using assms(2,3) by (simp add: put_card_def c_def Let_def)
  have tagged: "\<forall>(k, x) \<in> set (ob_cards s). k = (card_source x, card_key x)" using ok by (auto simp: cards_ok_def)
  have later: "\<forall>x \<in> snd ` set (ob_cards s). card_ts x < card_ts c"
    using ok by (auto simp: cards_ok_def c_def stamp_after_def)
  let ?P = "\<lambda>x. card_source x = source \<and> card_key x \<noteq> key"
  have rest: "filter (\<lambda>x. card_source x = source) (map snd ?old) = filter ?P (map snd (ob_cards s))"
  proof -
    have "filter (\<lambda>x. card_source x = source) (map snd (filter (\<lambda>p. fst p \<noteq> (source, key)) m)) = filter ?P (map snd m)"
      if "\<forall>(k, x) \<in> set m. k = (card_source x, card_key x)" for m
      using that by (induction m) auto
    with tagged show ?thesis by blast
  qed
  let ?new = "c # sort_key card_order (filter ?P (map snd (ob_cards s)))"
  have "mset (map snd (ob_cards ?s)) = mset (c # map snd ?old)"
    using mset_put [OF d, of "(source, key)" c] unfolding cards by (simp add: mset_map)
  then have "mset (filter (\<lambda>x. card_source x = source) (map snd (ob_cards ?s)))
      = mset (filter (\<lambda>x. card_source x = source) (c # map snd ?old))"
    by (metis mset_filter)
  also have "\<dots> = mset ?new" using rest by (simp add: c_def)
  finally have m: "mset ?new = mset (filter (\<lambda>x. card_source x = source) (map snd (ob_cards ?s)))" by simp
  have "sort_key card_order (filter (\<lambda>x. card_source x = source) (map snd (ob_cards ?s))) = sort_key card_order ?new"
    by (rule sort_key_perm [symmetric])
      (use card_order_inj [OF ok'] cards_distinct [OF ok'] m in \<open>auto elim!: inj_on_subset\<close>)
  also have "\<dots> = ?new"
  proof (rule sort_key_id_if_sorted)
    show "sorted (map card_order ?new)"
      using later by (force simp: card_order_def c_def less_eq_prod_def)
  qed
  finally have "filter (\<lambda>x. card_source x = source) (list_cards ?s) = c # filter ?P (list_cards s)"
    by (simp add: list_cards_def filter_sort)
  moreover have "\<forall>x \<in> set (list_cards s). card_ts x < card_ts c" using later by (auto simp: list_cards_def)
  ultimately show ?thesis by (intro exI [of _ c]) (simp add: c_def)
qed

theorem put_listed_first_witness:
  "\<exists>c. filter (\<lambda>c. card_source c = ''plan'') (list_cards (put_card 0 ''plan'' ''b'' ''s'' ''new'' [] one_card))
     = c # filter (\<lambda>c. card_source c = ''plan'' \<and> card_key c \<noteq> ''b'') (list_cards one_card)
   \<and> card_detail c = ''new''"
proof -
  have "cards_ok one_card"
    unfolding one_card_def
    by (rule put_card_ok) (simp add: cards_ok_def new_observable_store_def load_from_file_def)
  from put_listed_first [OF this, of "''plan''" "''b''" 0 "''s''" "''new''" "[]"] show ?thesis by auto
qed

end
