(* ===== verification/Sections.thy ===== *)
theory Sections
  imports SessionContext Assoc
begin

text \<open>
  Persistent context sections of extensions: the directory they live in, one file each, sanitised and
  capped (\<^verbatim>\<open>pkg/sections/sections.go\<close>), and what a session injects of them
  (\<^verbatim>\<open>pkg/session/sections.go\<close>): a start-up block that stays the same for the session, and
  replacement messages, with version numbers, for what changes later.

  The directory is the list of its regular files. \<open>hash\<close> is the truncated SHA-256 of a text.
\<close>

subsection \<open>Markers\<close>

text \<open>
  \<^verbatim>\<open>markerRe\<close>, written out: an opening bracket, perhaps a slash, one of the two words in any case,
  a word boundary, and everything up to the next closing bracket. Under case folding \<^verbatim>\<open>s\<close> also
  matches the long s, U+017F. The result is what follows the marker.
\<close>

definition fold_letter :: "char \<Rightarrow> string \<Rightarrow> string option" where
  "fold_letter l s =
     (case s of [] \<Rightarrow> None
      | c # cs \<Rightarrow>
          if lower_char c = l then Some cs
          else if l = CHR ''s'' \<and> has_prefix s [CHR 0xC5, CHR 0xBF] then Some (drop 2 s)
          else None)"

fun match_word :: "string \<Rightarrow> string \<Rightarrow> string option" where
  "match_word [] s = Some s"
| "match_word (l # ls) s = Option.bind (fold_letter l s) (match_word ls)"

definition word_char :: "char \<Rightarrow> bool" where
  "word_char c \<longleftrightarrow> in_range 48 57 c \<or> in_range 65 90 c \<or> in_range 97 122 c \<or> c = CHR ''_''"

definition marker_word :: "string \<Rightarrow> string option" where
  "marker_word s = (case match_word ''sys_ext'' s of Some r \<Rightarrow> Some r | None \<Rightarrow> match_word ''section'' s)"

definition match_marker :: "string \<Rightarrow> string option" where
  "match_marker s =
     (case s of
        [] \<Rightarrow> None
      | c # r \<Rightarrow>
          if c \<noteq> CHR ''['' then None
          else case marker_word (if has_prefix r ''/'' then drop 1 r else r) of
              None \<Rightarrow> None
            | Some r' \<Rightarrow>
                if r' \<noteq> [] \<and> word_char (hd r') then None
                else (case dropWhile (\<lambda>x. x \<noteq> CHR '']'') r' of [] \<Rightarrow> None | _ # rest \<Rightarrow> Some rest))"

lemma fold_letter_length: "fold_letter l s = Some r \<Longrightarrow> length r \<le> length s"
  by (auto simp: fold_letter_def split: list.splits if_splits)

lemma match_word_length: "match_word w s = Some r \<Longrightarrow> length r \<le> length s"
  by (induction w arbitrary: s) (auto simp: bind_eq_Some_conv dest!: fold_letter_length intro: order_trans)

lemma marker_word_length: "marker_word s = Some r \<Longrightarrow> length r \<le> length s"
  by (auto simp: marker_word_def simp del: match_word.simps dest: match_word_length split: option.splits)

lemma match_marker_length: "match_marker s = Some r \<Longrightarrow> length r < length s"
proof -
  assume m: "match_marker s = Some r"
  then obtain c cs where s: "s = c # cs" by (auto simp: match_marker_def split: list.splits)
  let ?b = "if has_prefix cs ''/'' then drop 1 cs else cs"
  obtain r' where r': "marker_word ?b = Some r'" "\<exists>x. dropWhile (\<lambda>x. x \<noteq> CHR '']'') r' = x # r"
    using m unfolding s by (auto simp: match_marker_def split: if_splits option.splits list.splits)
  have "length r' \<le> length ?b"
    using r'(1) by (rule marker_word_length)
  moreover have "length ?b \<le> length cs" by simp
  moreover have "length r < length r'"
    using r'(2) length_dropWhile_le [of "\<lambda>x. x \<noteq> CHR '']''" r'] by auto
  ultimately show ?thesis by (simp add: s)
qed

function strip_markers :: "string \<Rightarrow> string" where
  "strip_markers s =
     (case s of
        [] \<Rightarrow> []
      | c # cs \<Rightarrow> (case match_marker s of None \<Rightarrow> c # strip_markers cs | Some r \<Rightarrow> strip_markers r))"
  by pat_completeness auto

termination
  by (relation "measure length") (auto dest: match_marker_length)

declare strip_markers.simps [simp del]

lemma strip_markers_simps [simp]:
  "strip_markers [] = []"
  "strip_markers (c # cs) = (case match_marker (c # cs) of None \<Rightarrow> c # strip_markers cs | Some r \<Rightarrow> strip_markers r)"
  by (simp_all add: strip_markers.simps)

lemma strip_markers_length: "length (strip_markers s) \<le> length s"
proof (induction s rule: strip_markers.induct)
  case (1 s)
  show ?case
  proof (cases s)
    case (Cons c cs)
    show ?thesis
    proof (cases "match_marker (c # cs)")
      case None
      with Cons 1(1) [of c cs] show ?thesis by simp
    next
      case (Some r)
      with Cons 1(2) [of c cs r] match_marker_length [OF Some] show ?thesis by simp
    qed
  qed simp
qed

lemma strip_markers_shorter: "strip_markers s = s \<or> length (strip_markers s) < length s"
proof (induction s)
  case (Cons c cs)
  show ?case
  proof (cases "match_marker (c # cs)")
    case (Some r)
    then show ?thesis
      using match_marker_length [OF Some] strip_markers_length [of r] by simp
  qed (use Cons in auto)
qed simp

text \<open>Stripping until nothing changes.\<close>

function sanitize :: "string \<Rightarrow> string" where
  "sanitize t =
     (let out = strip_markers t in if out = t then trim_space out else sanitize out)"
  by pat_completeness auto

termination
proof (relation "measure length")
  fix t out
  assume "out = strip_markers t" "out \<noteq> t"
  then show "(out, t) \<in> measure length" using strip_markers_shorter [of t] by auto
qed simp

declare sanitize.simps [simp del]

subsection \<open>The directory\<close>

record ext_section =
  sec_name :: string
  sec_text :: string

definition max_section_tokens :: nat where "max_section_tokens = 500"
definition max_total_tokens :: nat where "max_total_tokens = 2000"

definition section_tokens :: "string \<Rightarrow> nat" where
  "section_tokens s = (length s + 4 - 1) div 4"

definition valid_section_name :: "string \<Rightarrow> bool" where
  "valid_section_name n \<longleftrightarrow> n \<noteq> [] \<and> list_all (\<lambda>c. word_char c \<or> c = CHR ''-'') n"

type_synonym section_dir = "(string \<times> string) list"

definition section_file :: "string \<Rightarrow> string" where
  "section_file name = name @ ''.md''"

definition read_section :: "string \<times> string \<Rightarrow> ext_section option" where
  "read_section f =
     (let n = fst f; name = take (length n - 3) n; text = sanitize (snd f)
      in if has_prefix n ''.'' \<or> \<not> has_suffix n ''.md'' then None
         else if \<not> valid_section_name name then None
         else if text \<noteq> [] \<and> section_tokens text \<le> max_section_tokens
         then Some \<lparr>sec_name = name, sec_text = text\<rparr> else None)"

definition read_all :: "section_dir \<Rightarrow> ext_section list" where
  "read_all d = sort_key sec_name (List.map_filter read_section (sort_key fst d))"

datatype section_error = InvalidOwner | SectionTooLarge | TotalTooLarge

definition total_tokens :: "ext_section list \<Rightarrow> nat" where
  "total_tokens ss = sum_list (map (\<lambda>s. section_tokens (sec_text s)) ss)"

definition clear_section :: "string \<Rightarrow> section_dir \<Rightarrow> section_error + section_dir" where
  "clear_section name d =
     (if \<not> valid_section_name name then Inl InvalidOwner else Inr (remove_key (section_file name) d))"

definition set_section :: "string \<Rightarrow> string \<Rightarrow> section_dir \<Rightarrow> section_error + section_dir" where
  "set_section name text d =
     (if \<not> valid_section_name name then Inl InvalidOwner
      else let text' = sanitize text
           in if text' = [] then clear_section name d
              else if section_tokens text' > max_section_tokens then Inl SectionTooLarge
              else if section_tokens text' + total_tokens (filter (\<lambda>s. sec_name s \<noteq> name) (read_all d))
                        > max_total_tokens then Inl TotalTooLarge
              else Inr (put (section_file name) text' d))"

fun filter_sections_from :: "(string \<Rightarrow> bool) \<Rightarrow> nat \<Rightarrow> ext_section list \<Rightarrow> ext_section list" where
  "filter_sections_from allowed acc [] = []"
| "filter_sections_from allowed acc (s # ss) =
     (if \<not> allowed (sec_name s) then filter_sections_from allowed acc ss
      else if acc + section_tokens (sec_text s) \<le> max_total_tokens
      then s # filter_sections_from allowed (acc + section_tokens (sec_text s)) ss
      else filter_sections_from allowed acc ss)"

definition filter_sections :: "ext_section list \<Rightarrow> (string \<Rightarrow> bool) \<Rightarrow> ext_section list" where
  "filter_sections ss allowed = filter_sections_from allowed 0 ss"

subsection \<open>Rendering\<close>

definition block_header :: string where
  "block_header = ''[SYS_EXT sections]''"

definition update_prefix :: string where
  "update_prefix = ''[SYS_EXT section=''"

definition render_section :: "ext_section \<Rightarrow> string" where
  "render_section s =
     nl @ ''[section='' @ sec_name s @ '']'' @ nl @ sec_text s @ nl @ ''[/section]'' @ nl"

definition render_block :: "ext_section list \<Rightarrow> string" where
  "render_block ss =
     (if ss = [] then []
      else block_header
           @ nl @ ''Persistent extension sections. Each is owned and maintained by the named extension.'' @ nl
           @ concat (map render_section ss) @ ''[/SYS_EXT]'')"

definition render_update :: "string \<Rightarrow> string \<Rightarrow> nat \<Rightarrow> nat \<Rightarrow> string" where
  "render_update name text ver prev =
     update_prefix @ name @ '' v'' @ itoa (int ver)
     @ (if prev > 0 then '' replaces v'' @ itoa (int prev) else []) @ '']'' @ nl
     @ (if text = [] then ''(section cleared '' @ [CHR 0xE2, CHR 0x80, CHR 0x94] @ '' disregard earlier versions)''
        else text)
     @ nl @ ''[/SYS_EXT]''"

subsection \<open>What a session has injected\<close>

record section_tracker =
  tk_allowed :: "(string \<Rightarrow> bool) option"
  tk_dynamic :: "(ext_section list) option"
  tk_started :: bool
  tk_block :: string
  tk_base :: nat
  tk_emitted :: "(string \<times> (string \<times> nat)) list"

definition new_section_tracker :: section_tracker where
  "new_section_tracker = \<lparr>tk_allowed = None, tk_dynamic = None, tk_started = False, tk_block = [],
     tk_base = 0, tk_emitted = []\<rparr>"

text \<open>
  The directory and the core-owned sections as they are at this moment; the latter win over a file of
  the same name.
\<close>

definition current_sections :: "section_dir \<Rightarrow> section_tracker \<Rightarrow> ext_section list" where
  "current_sections d t =
     (let out = (case tk_allowed t of None \<Rightarrow> [] | Some f \<Rightarrow> filter_sections (read_all d) f)
      in case tk_dynamic t of
          None \<Rightarrow> out
        | Some dyn \<Rightarrow> filter (\<lambda>s. sec_name s \<notin> sec_name ` set dyn) out @ dyn)"

definition ensure_started :: "(string \<Rightarrow> string) \<Rightarrow> ext_section list \<Rightarrow> section_tracker \<Rightarrow> section_tracker" where
  "ensure_started hash secs t =
     (if tk_started t then t
      else t\<lparr>tk_started := True, tk_block := render_block secs,
             tk_emitted := fold (\<lambda>s. put (sec_name s) (hash (sec_text s), 1)) secs (tk_emitted t)\<rparr>)"

definition reset_sections :: "section_tracker \<Rightarrow> section_tracker" where
  "reset_sections t = t\<lparr>tk_started := False, tk_block := [], tk_base := 0, tk_emitted := []\<rparr>"

record section_update =
  up_name :: string
  up_text :: string
  up_ver :: nat
  up_prev :: nat

text \<open>The two loops of \<^verbatim>\<open>updates\<close>: the sections there are, then those that are gone.\<close>

fun changed_updates ::
  "(string \<Rightarrow> string) \<Rightarrow> ext_section list \<Rightarrow> (string \<times> (string \<times> nat)) list
     \<Rightarrow> section_update list \<times> (string \<times> (string \<times> nat)) list" where
  "changed_updates hash [] em = ([], em)"
| "changed_updates hash (s # ss) em =
     (let h = hash (sec_text s); prev = the_default ([], 0) (map_of em (sec_name s))
      in if map_of em (sec_name s) \<noteq> None \<and> fst prev = h then changed_updates hash ss em
         else case changed_updates hash ss (put (sec_name s) (h, snd prev + 1) em) of
             (ups, em') \<Rightarrow>
               (\<lparr>up_name = sec_name s, up_text = sec_text s, up_ver = snd prev + 1, up_prev = snd prev\<rparr> # ups, em'))"

fun cleared_updates ::
  "string set \<Rightarrow> string list \<Rightarrow> (string \<times> (string \<times> nat)) list
     \<Rightarrow> section_update list \<times> (string \<times> (string \<times> nat)) list" where
  "cleared_updates seen [] em = ([], em)"
| "cleared_updates seen (n # ns) em =
     (let prev = the_default ([], 0) (map_of em n)
      in if n \<in> seen \<or> fst prev = [] then cleared_updates seen ns em
         else case cleared_updates seen ns (put n ([], snd prev + 1) em) of
             (ups, em') \<Rightarrow>
               (\<lparr>up_name = n, up_text = [], up_ver = snd prev + 1, up_prev = snd prev\<rparr> # ups, em'))"

definition section_updates ::
  "(string \<Rightarrow> string) \<Rightarrow> ext_section list \<Rightarrow> section_tracker \<Rightarrow> section_update list \<times> section_tracker" where
  "section_updates hash secs t =
     (if \<not> tk_started t then ([], t)
      else case changed_updates hash secs (tk_emitted t) of
          (ups, em) \<Rightarrow>
            (case cleared_updates (sec_name ` set secs) (sort (map fst em)) em of
               (gone, em') \<Rightarrow> (ups @ gone, t\<lparr>tk_emitted := em'\<rparr>)))"

definition update_message :: "int \<Rightarrow> section_update \<Rightarrow> agent_message" where
  "update_message ts u =
     Msg (user_text (render_update (up_name u) (up_text u) (up_ver u) (up_prev u)) ts)"

definition update_messages ::
  "(string \<Rightarrow> string) \<Rightarrow> ext_section list \<Rightarrow> int \<Rightarrow> section_tracker \<Rightarrow> agent_message list \<times> section_tracker" where
  "update_messages hash secs ts t =
     (case section_updates hash secs t of (ups, t') \<Rightarrow> (map (update_message ts) ups, t'))"

definition is_section_update :: "agent_message \<Rightarrow> bool" where
  "is_section_update m =
     (case m of
        Msg (MUser u) \<Rightarrow> (case um_content u of JStr s \<Rightarrow> has_prefix s update_prefix | _ \<Rightarrow> False)
      | _ \<Rightarrow> False)"

text \<open>\<^verbatim>\<open>convert\<close>: the messages of a request and the tracker, started if it was not.\<close>

definition start_tracker ::
  "(string \<Rightarrow> string) \<Rightarrow> ext_section list \<Rightarrow> nat \<Rightarrow> section_tracker \<Rightarrow> section_tracker" where
  "start_tracker hash secs n t =
     (if tk_started t then t else (ensure_started hash secs t)\<lparr>tk_base := n\<rparr>)"

definition convert_request ::
  "(string \<Rightarrow> string) \<Rightarrow> ext_section list \<Rightarrow> agent_message list \<Rightarrow> section_tracker
     \<Rightarrow> message list \<times> section_tracker" where
  "convert_request hash secs ms t =
     (let t' = start_tracker hash secs (length ms) t;
          base = min (tk_base t') (length ms);
          kept = filter (\<lambda>m. \<not> is_section_update m) (take base ms) @ drop base ms;
          msgs = convert_to_llm kept
      in (if tk_block t' = [] then msgs else user_text (tk_block t') 0 # msgs, t'))"

subsection \<open>Sending a prompt\<close>

text \<open>
  The end of \<^verbatim>\<open>Prompt\<close> in \<^verbatim>\<open>pkg/session/agentsession.go\<close>, from \<^verbatim>\<open>IsStreaming\<close> on. Whether a run is
  active before and after, and whether the agent accepts the messages, is up to the agent.
\<close>

datatype prompt_outcome = Delivered "agent_message list" | QueuedFollowUp agent_message | Refused

definition prompt_turn ::
  "(string \<Rightarrow> string) \<Rightarrow> ext_section list \<Rightarrow> int \<Rightarrow> bool \<Rightarrow> bool \<Rightarrow> bool \<Rightarrow> agent_message \<Rightarrow> section_tracker
     \<Rightarrow> prompt_outcome \<times> section_tracker" where
  "prompt_turn hash secs ts streaming accepted streaming_after user t =
     (if streaming then (QueuedFollowUp user, t)
      else case update_messages hash secs ts t of
          (ups, t') \<Rightarrow>
            (if accepted then (Delivered (ups @ [user]), t')
             else if streaming_after then (QueuedFollowUp user, t')
             else (Refused, t')))"

end
