(* ===== verification/SectionProps.thy ===== *)
theory SectionProps
  imports Sections
begin

text \<open>
  Properties of extension sections: no section forges a marker by itself, the directory stays within
  its caps, the model is kept up to date by replacement messages, and a request only ever extends the
  one before it.
\<close>

subsection \<open>Sanitised text\<close>

fun has_marker :: "string \<Rightarrow> bool" where
  "has_marker [] = False"
| "has_marker (c # cs) = (match_marker (c # cs) \<noteq> None \<or> has_marker cs)"

lemma strip_fixed_iff: "strip_markers s = s \<longleftrightarrow> \<not> has_marker s"
proof (induction s)
  case (Cons c cs)
  show ?case
  proof (cases "match_marker (c # cs)")
    case (Some r)
    have "length (strip_markers r) < length (c # cs)"
      using match_marker_length [OF Some] strip_markers_length [of r] by simp
    with Some show ?thesis by auto
  qed (use Cons in simp)
qed simp

lemma fold_letter_append: "fold_letter l s = Some r \<Longrightarrow> fold_letter l (s @ b) = Some (r @ b)"
  by (cases s) (auto simp: fold_letter_def has_prefix_iff prefix_def split: if_splits)

lemma match_word_append: "match_word w s = Some r \<Longrightarrow> match_word w (s @ b) = Some (r @ b)"
proof (induction w arbitrary: s)
  case (Cons l w)
  then obtain s1 where "fold_letter l s = Some s1" "match_word w s1 = Some r" by (auto simp: bind_eq_Some_conv)
  with Cons.IH show ?case by (simp add: fold_letter_append)
qed simp

lemma marker_word_append: "marker_word s = Some r \<Longrightarrow> marker_word (s @ b) = Some (r @ b)"
proof (cases "match_word ''sys_ext'' s")
  case (Some x)
  moreover assume "marker_word s = Some r"
  ultimately show ?thesis using match_word_append [OF Some, of b] by (simp add: marker_word_def del: match_word.simps)
next
  case None
  moreover assume "marker_word s = Some r"
  ultimately have m: "match_word ''section'' s = Some r" by (simp add: marker_word_def del: match_word.simps)
  then obtain s1 s2 where s: "fold_letter CHR ''s'' s = Some s1" "fold_letter CHR ''e'' s1 = Some s2"
    by (auto simp: bind_eq_Some_conv)
  from s(2) have "fold_letter CHR ''y'' (s1 @ b) = None"
    by (cases s1) (auto simp: fold_letter_def split: if_splits)
  then have "match_word ''sys_ext'' (s @ b) = None" using fold_letter_append [OF s(1), of b] by simp
  with match_word_append [OF m, of b] show ?thesis by (simp add: marker_word_def del: match_word.simps)
qed

lemma marker_word_Nil [simp]: "marker_word [] = None"
  by (simp add: marker_word_def fold_letter_def)

lemma match_marker_append:
  assumes "match_marker s = Some r"
  shows "match_marker (s @ b) = Some (r @ b)"
proof -
  obtain cs r' x where s: "s = CHR ''['' # cs"
    and w: "marker_word (if has_prefix cs ''/'' then drop 1 cs else cs) = Some r'"
    and nb: "\<not> (r' \<noteq> [] \<and> word_char (hd r'))" and d: "dropWhile (\<lambda>x. x \<noteq> CHR '']'') r' = x # r"
    using assms by (auto simp: match_marker_def split: list.splits if_splits option.splits)
  have cs: "cs \<noteq> []" using w by (auto simp: has_prefix_def)
  have "has_prefix (cs @ b) ''/'' = has_prefix cs ''/''" using cs by (cases cs) (simp_all add: has_prefix_def)
  moreover have "marker_word ((if has_prefix cs ''/'' then drop 1 cs else cs) @ b) = Some (r' @ b)"
    by (rule marker_word_append [OF w])
  ultimately have w': "marker_word (if has_prefix (cs @ b) ''/'' then drop 1 (cs @ b) else cs @ b) = Some (r' @ b)"
    using cs by (cases cs) (simp_all split: if_splits)
  have "r' \<noteq> []" using d by auto
  have "dropWhile (\<lambda>x. x \<noteq> CHR '']'') (r' @ b) = x # r @ b"
  proof -
    have "set (dropWhile (\<lambda>x. x \<noteq> CHR '']'') r') \<subseteq> set r'" using set_dropWhileD by fast
    moreover have "x = CHR '']''" using hd_dropWhile [of "\<lambda>x. x \<noteq> CHR '']''" r'] d by simp
    ultimately have "CHR '']'' \<in> set r'" using d by auto
    then show ?thesis using d dropWhile_append1 [of "CHR '']''" r' "\<lambda>x. x \<noteq> CHR '']''" b] by simp
  qed
  with s w' nb \<open>r' \<noteq> []\<close> show ?thesis by (simp add: match_marker_def)
qed

lemma has_marker_append1: "has_marker x \<Longrightarrow> has_marker (x @ b)"
proof (induction x)
  case (Cons c x)
  show ?case
  proof (cases "match_marker (c # x)")
    case (Some r)
    then show ?thesis using match_marker_append [OF Some, of b] by simp
  qed (use Cons in auto)
qed simp

lemma has_marker_append2: "has_marker x \<Longrightarrow> has_marker (a @ x)"
  by (induction a) auto

lemma trim_start_done: "find (\<lambda>p. p \<noteq> [] \<and> has_prefix (trim_start ps s) p) ps = None"
proof (induction ps s rule: trim_start.induct)
  case (1 ps s)
  show ?case
  proof (cases "find (\<lambda>p. p \<noteq> [] \<and> has_prefix s p) ps")
    case None
    then show ?thesis by (simp add: trim_start.simps [of ps s])
  next
    case (Some p)
    with 1 [OF Some] show ?thesis by (simp add: trim_start.simps [of ps s])
  qed
qed

lemma trim_start_fixed: "find (\<lambda>p. p \<noteq> [] \<and> has_prefix s p) ps = None \<Longrightarrow> trim_start ps s = s"
  by (simp add: trim_start.simps [of ps s])

lemma trim_space_parts: "\<exists>a b. s = a @ trim_space s @ b"
proof -
  obtain a where a: "s = a @ trim_start space_runes s" using trim_start_suffix [of space_runes s] by (auto simp: suffix_def)
  obtain b where "rev (trim_start space_runes s) = b @ trim_start (map rev space_runes) (rev (trim_start space_runes s))"
    using trim_start_suffix by (metis suffix_def)
  then have "trim_start space_runes s = trim_space s @ rev b"
    unfolding trim_space_def by (metis rev_append rev_rev_ident)
  with a show ?thesis by metis
qed

lemma trim_space_idem [simp]: "trim_space (trim_space s) = trim_space s"
proof -
  let ?x = "trim_start space_runes s" and ?R = "map rev space_runes"
  have pre: "prefix (trim_space s) ?x"
    using trim_start_suffix [of ?R "rev ?x"] by (simp add: trim_space_def suffix_to_prefix)
  have "find (\<lambda>p. p \<noteq> [] \<and> has_prefix (trim_space s) p) space_runes = None"
    using trim_start_done [of space_runes s] pre
    by (auto simp: find_None_iff has_prefix_iff dest: prefix_order.trans)
  then have "trim_start space_runes (trim_space s) = trim_space s" by (rule trim_start_fixed)
  moreover have "trim_start ?R (rev (trim_space s)) = rev (trim_space s)"
    unfolding trim_space_def rev_rev_ident by (rule trim_start_fixed) (rule trim_start_done)
  ultimately show ?thesis by (simp add: trim_space_def [of "trim_space s"])
qed

lemma sanitize_trims: "\<exists>u. \<not> has_marker u \<and> sanitize t = trim_space u"
proof (induction t rule: sanitize.induct)
  case (1 t)
  show ?case
  proof (cases "strip_markers t = t")
    case True
    then have "sanitize t = trim_space t" by (subst sanitize.simps) simp
    moreover have "\<not> has_marker t" using True strip_fixed_iff by blast
    ultimately show ?thesis by blast
  next
    case False
    with 1 show ?thesis by (simp add: sanitize.simps [of t] Let_def)
  qed
qed

lemma sanitize_clean: "\<not> has_marker (sanitize t)"
proof -
  obtain u where u: "\<not> has_marker u" "sanitize t = trim_space u" using sanitize_trims by blast
  obtain a b where "u = a @ trim_space u @ b" using trim_space_parts by blast
  with u show ?thesis by (metis has_marker_append1 has_marker_append2)
qed

lemma sanitize_idem [simp]: "sanitize (sanitize t) = sanitize t"
proof -
  have "strip_markers (sanitize t) = sanitize t" using sanitize_clean by (simp add: strip_fixed_iff)
  then have "sanitize (sanitize t) = trim_space (sanitize t)" by (subst sanitize.simps) simp
  moreover obtain u where "sanitize t = trim_space u" using sanitize_trims by blast
  ultimately show ?thesis by simp
qed

text \<open>
  sanitising ends, its result holds no marker anywhere, however markers were nested in the text,
  and sanitising it again changes nothing. A marker left open at the end of the text however is not
  one by itself and stays; rendered, it runs on into the closing marker of the section's frame.
\<close>

theorem sanitized_text:
  "\<not> has_marker (sanitize t) \<and> sanitize (sanitize t) = sanitize t
   \<and> sanitize ''[/section'' = ''[/section''
   \<and> match_marker (''[/section'' @ nl @ ''[/section]'' @ nl) = Some nl"
proof -
  have "sanitize ''[/section'' = ''[/section''" by code_simp
  moreover have "match_marker (''[/section'' @ nl @ ''[/section]'' @ nl) = Some nl" by code_simp
  ultimately show ?thesis by (simp add: sanitize_clean)
qed

subsection \<open>The caps\<close>

lemma read_section_name:
  assumes "read_section f = Some x"
  shows "fst f = section_file (sec_name x)" and "section_tokens (sec_text x) \<le> max_section_tokens"
proof -
  have suf: "has_suffix (fst f) ''.md''" and x: "x = \<lparr>sec_name = take (length (fst f) - 3) (fst f), sec_text = sanitize (snd f)\<rparr>"
    and tk: "section_tokens (sec_text x) \<le> max_section_tokens"
    using assms by (auto simp: read_section_def Let_def split: if_splits)
  from suf have "drop (length (fst f) - 3) (fst f) = ''.md''" by (simp add: has_suffix_def numeral_3_eq_3)
  then show "fst f = section_file (sec_name x)"
    unfolding section_file_def x by (metis append_take_drop_id ext_section.select_convs(1))
  show "section_tokens (sec_text x) \<le> max_section_tokens" by (rule tk)
qed

lemma mset_map_filter: "mset xs = mset ys \<Longrightarrow> mset (List.map_filter f xs) = mset (List.map_filter f ys)"
  unfolding List.map_filter_def by (metis mset_filter mset_map)

lemma mset_read_all: "mset (read_all d) = mset (List.map_filter read_section d)"
  by (simp add: read_all_def mset_map_filter [of "sort_key fst d" d])

lemma total_tokens_mset: "mset xs = mset ys \<Longrightarrow> total_tokens xs = total_tokens ys"
  unfolding total_tokens_def by (metis mset_map sum_mset_sum_list)

lemma total_tokens_Cons [simp]: "total_tokens (x # xs) = section_tokens (sec_text x) + total_tokens xs"
  by (simp add: total_tokens_def)

lemma total_tokens_filter: "total_tokens (filter P xs) \<le> total_tokens xs"
  by (induction xs) (auto simp: total_tokens_def)

text \<open>The sections of the files of other names.\<close>

lemma others_read:
  "List.map_filter read_section (filter (\<lambda>p. fst p \<noteq> section_file name) d)
     = filter (\<lambda>x. sec_name x \<noteq> name) (List.map_filter read_section d)"
proof (induction d)
  case (Cons f d)
  show ?case
  proof (cases "read_section f")
    case (Some x)
    then have "fst f = section_file name \<longleftrightarrow> sec_name x = name"
      using read_section_name(1) [OF Some] by (simp add: section_file_def)
    with Cons Some show ?thesis by (simp add: List.map_filter_simps)
  qed (use Cons in \<open>simp add: List.map_filter_simps\<close>)
qed (simp add: List.map_filter_simps)

lemma valid_name_read:
  assumes "valid_section_name name" and "sanitize t \<noteq> []" and "section_tokens (sanitize t) \<le> max_section_tokens"
  shows "read_section (section_file name, t) = Some \<lparr>sec_name = name, sec_text = sanitize t\<rparr>"
proof -
  obtain c cs where n: "name = c # cs" using assms(1) by (cases name) (auto simp: valid_section_name_def)
  have "word_char c \<or> c = CHR ''-''" using assms(1) n by (simp add: valid_section_name_def)
  then have "c \<noteq> CHR ''.''" by (auto simp: word_char_def in_range_def byte_of_def)
  then have "\<not> has_prefix (section_file name) ''.''" by (simp add: n section_file_def has_prefix_def)
  moreover have "has_suffix (section_file name) ''.md''" by (simp add: section_file_def has_suffix_def)
  moreover have "take (length (section_file name) - 3) (section_file name) = name" by (simp add: section_file_def)
  ultimately show ?thesis using assms by (simp add: read_section_def)
qed

text \<open>
  what is accepted stays within the caps and is read back: after a successful write the section
  holds exactly the sanitised text, the other sections are as before, no section has more than 500
  tokens and all together at most 2000.
\<close>

theorem written_section_kept:
  assumes set: "set_section name t d = Inr d'" and d: "distinct (map fst d)"
    and fits: "total_tokens (read_all d) \<le> max_total_tokens"
  shows "total_tokens (read_all d') \<le> max_total_tokens
    \<and> (\<forall>x \<in> set (read_all d'). section_tokens (sec_text x) \<le> max_section_tokens)
    \<and> {x \<in> set (read_all d'). sec_name x = name}
        = (if sanitize t = [] then {} else {\<lparr>sec_name = name, sec_text = sanitize t\<rparr>})
    \<and> {x \<in> set (read_all d'). sec_name x \<noteq> name} = {x \<in> set (read_all d). sec_name x \<noteq> name}"
proof -
  have v: "valid_section_name name" using set by (auto simp: set_section_def split: if_splits)
  let ?rest = "filter (\<lambda>x. sec_name x \<noteq> name) (List.map_filter read_section d)"
  let ?new = "if sanitize t = [] then [] else [\<lparr>sec_name = name, sec_text = sanitize t\<rparr>]"
  have small: "section_tokens (sanitize t) \<le> max_section_tokens" if "sanitize t \<noteq> []"
    using set v that by (auto simp: set_section_def Let_def split: if_splits)
  have rest_tokens: "total_tokens ?rest = total_tokens (filter (\<lambda>x. sec_name x \<noteq> name) (read_all d))"
    by (rule total_tokens_mset) (simp add: mset_read_all)
  have m: "mset (read_all d') = mset (?new @ ?rest)"
  proof (cases "sanitize t = []")
    case True
    then have "d' = filter (\<lambda>p. fst p \<noteq> section_file name) d"
      using set v by (simp add: set_section_def clear_section_def remove_key_def)
    with True show ?thesis by (simp add: mset_read_all others_read)
  next
    case False
    then have "d' = put (section_file name) (sanitize t) d"
      using set v by (auto simp: set_section_def Let_def split: if_splits)
    then have "mset d' = mset ((section_file name, sanitize t) # filter (\<lambda>p. fst p \<noteq> section_file name) d)"
      using mset_put [OF d] by simp
    then have "mset (read_all d') = mset (List.map_filter read_section
        ((section_file name, sanitize t) # filter (\<lambda>p. fst p \<noteq> section_file name) d))"
      unfolding mset_read_all by (rule mset_map_filter)
    with False show ?thesis
      using valid_name_read [OF v, of "sanitize t"] small by (simp add: List.map_filter_simps others_read)
  qed
  have total: "total_tokens (read_all d') = total_tokens (?new @ ?rest)" by (rule total_tokens_mset [OF m])
  have "total_tokens (read_all d') \<le> max_total_tokens"
  proof (cases "sanitize t = []")
    case True
    with total rest_tokens fits show ?thesis
      using total_tokens_filter [of "\<lambda>x. sec_name x \<noteq> name" "read_all d"] by simp
  next
    case False
    with set v total rest_tokens show ?thesis by (auto simp: set_section_def Let_def split: if_splits)
  qed
  moreover have "set (read_all d') = set ?new \<union> set ?rest" using m by (metis set_append set_mset_mset)
  moreover have "set (read_all d) = set (List.map_filter read_section d)" using mset_read_all by (metis set_mset_mset)
  moreover have "\<forall>x \<in> set (List.map_filter read_section d'). section_tokens (sec_text x) \<le> max_section_tokens"
    by (auto simp: set_map_filter read_section_name(2))
  moreover have "set (read_all d') = set (List.map_filter read_section d')" using mset_read_all by (metis set_mset_mset)
  ultimately show ?thesis by auto
qed

theorem written_section_kept_witness:
  "\<exists>d'. set_section ''mood'' ''calm'' [(''plan.md'', ''do it'')] = Inr d'
     \<and> {x \<in> set (read_all d'). sec_name x = ''mood''} = {\<lparr>sec_name = ''mood'', sec_text = ''calm''\<rparr>}"
proof -
  let ?d = "[(''plan.md'', ''do it'')]"
  have s: "sanitize ''calm'' = ''calm''" by code_simp
  have "set_section ''mood'' ''calm'' ?d = Inr (put (section_file ''mood'') ''calm'' ?d)" by code_simp
  moreover have "total_tokens (read_all ?d) \<le> max_total_tokens" by code_simp
  ultimately show ?thesis
    using written_section_kept [of "''mood''" "''calm''" ?d "put (section_file ''mood'') ''calm'' ?d"] s by simp
qed

subsection \<open>What the model knows\<close>

text \<open>
  The abstract view: the text of each section as the last message about it says. A replacement
  message overwrites one entry of it.
\<close>

type_synonym view = "string \<rightharpoonup> string"

definition apply_update :: "section_update \<Rightarrow> view \<Rightarrow> view" where
  "apply_update u v = v(up_name u := (if up_text u = [] then None else Some (up_text u)))"

definition view_of :: "ext_section list \<Rightarrow> view" where
  "view_of ss = map_of (map (\<lambda>s. (sec_name s, sec_text s)) ss)"

text \<open>The tracker's record of what was emitted agrees with the view.\<close>

definition tracks :: "(string \<Rightarrow> string) \<Rightarrow> view \<Rightarrow> (string \<times> (string \<times> nat)) list \<Rightarrow> bool" where
  "tracks hash v em \<longleftrightarrow>
     (\<forall>n. (map_of em n = None \<longrightarrow> v n = None)
        \<and> (\<forall>h k. map_of em n = Some (h, k) \<longrightarrow>
             (h = [] \<longrightarrow> v n = None) \<and> (h \<noteq> [] \<longrightarrow> (\<exists>x. v n = Some x \<and> hash x = h))))"

definition sections_named :: "ext_section list \<Rightarrow> bool" where
  "sections_named ss \<longleftrightarrow> distinct (map sec_name ss) \<and> (\<forall>s \<in> set ss. sec_text s \<noteq> [])"

lemma view_of_in: "sections_named ss \<Longrightarrow> s \<in> set ss \<Longrightarrow> view_of ss (sec_name s) = Some (sec_text s)"
  unfolding view_of_def sections_named_def
  by (rule map_of_is_SomeI) (auto simp: distinct_map comp_def)

lemma tracks_None: "tracks hash v em \<Longrightarrow> map_of em n = None \<Longrightarrow> v n = None"
  by (simp add: tracks_def)

lemma tracks_Some:
  "tracks hash v em \<Longrightarrow> map_of em n = Some (h, k) \<Longrightarrow>
     (h = [] \<longrightarrow> v n = None) \<and> (h \<noteq> [] \<longrightarrow> (\<exists>x. v n = Some x \<and> hash x = h))"
  by (simp add: tracks_def)

lemma view_of_None: "n \<notin> sec_name ` set ss \<Longrightarrow> view_of ss n = None"
  by (force simp: view_of_def map_of_eq_None_iff)

lemma start_tracks:
  assumes "\<forall>x. hash x \<noteq> []" and "sections_named ss" and "\<not> tk_started t" and "tk_emitted t = []"
  shows "tracks hash (view_of ss) (tk_emitted (ensure_started hash ss t))"
proof -
  have "map_of (fold (\<lambda>s. put (sec_name s) (hash (sec_text s), 1)) xs em) n
      = (if n \<in> sec_name ` set xs then Some (hash (the (view_of xs n)), 1) else map_of em n)"
    if "sections_named xs" for xs n and em :: "(string \<times> (string \<times> nat)) list"
    using that
  proof (induction xs arbitrary: em)
    case (Cons x xs)
    then have "sections_named xs" by (simp add: sections_named_def)
    moreover have "sec_name x \<notin> sec_name ` set xs" using Cons.prems by (simp add: sections_named_def)
    ultimately show ?case using Cons.IH [of "put (sec_name x) (hash (sec_text x), 1) em"]
      by (auto simp: view_of_def)
  qed simp
  from this [OF assms(2)] assms show ?thesis
    by (auto simp: ensure_started_def tracks_def view_of_None view_of_in split: option.split)
qed

lemma changed_updates_spec:
  assumes "sections_named ss" and "tracks hash v em" and "\<forall>x. hash x \<noteq> []"
    and "inj_on hash (ran v \<union> sec_text ` set ss)" and "changed_updates hash ss em = (ups, em')"
  shows "tracks hash (fold apply_update ups v) em'
    \<and> fold apply_update ups v = (\<lambda>n. if n \<in> sec_name ` set ss then view_of ss n else v n)
    \<and> (\<forall>s \<in> set ss. \<exists>k. map_of em' (sec_name s) = Some (hash (sec_text s), k))
    \<and> (\<forall>n. n \<notin> sec_name ` set ss \<longrightarrow> map_of em' n = map_of em n)"
  using assms
proof (induction ss arbitrary: em v ups)
  case Nil
  then show ?case by simp
next
  case (Cons s ss)
  have ss: "sections_named ss" "sec_name s \<notin> sec_name ` set ss" "sec_text s \<noteq> []"
    using Cons.prems(1) by (auto simp: sections_named_def)
  let ?n = "sec_name s" and ?h = "hash (sec_text s)"
  have vs: "view_of (s # ss) n = (if n = ?n then Some (sec_text s) else view_of ss n)" for n
    by (simp add: view_of_def)
  have vn: "view_of ss ?n = None" using ss(2) by (rule view_of_None)
  show ?case
  proof (cases "map_of em ?n \<noteq> None \<and> fst (the (map_of em ?n)) = ?h")
    case True
    then obtain k where k: "map_of em ?n = Some (?h, k)" by auto
    then have "\<exists>x. v ?n = Some x \<and> hash x = ?h"
      using tracks_Some [OF Cons.prems(2) k] Cons.prems(3) by blast
    then obtain x where x: "v ?n = Some x" "hash x = ?h" by blast
    then have "x = sec_text s" using Cons.prems(4) by (auto simp: inj_on_def ran_def)
    have "changed_updates hash ss em = (ups, em')" using Cons.prems(5) k by (simp add: Let_def)
    moreover have "inj_on hash (ran v \<union> sec_text ` set ss)" using Cons.prems(4) by (rule inj_on_subset) auto
    ultimately have IH: "tracks hash (fold apply_update ups v) em'"
      "fold apply_update ups v = (\<lambda>n. if n \<in> sec_name ` set ss then view_of ss n else v n)"
      "\<forall>s \<in> set ss. \<exists>k. map_of em' (sec_name s) = Some (hash (sec_text s), k)"
      "\<forall>n. n \<notin> sec_name ` set ss \<longrightarrow> map_of em' n = map_of em n"
      using Cons.IH [OF ss(1) Cons.prems(2,3)] by blast+
    have "fold apply_update ups v = (\<lambda>n. if n \<in> sec_name ` set (s # ss) then view_of (s # ss) n else v n)"
      unfolding IH(2) using x(1) \<open>x = sec_text s\<close> ss(2) by (auto simp: vs fun_eq_iff)
    with IH ss(2) k show ?thesis by auto
  next
    case False
    define k where "k = snd (the_default ([], 0) (map_of em ?n)) + 1"
    define u where "u = \<lparr>up_name = ?n, up_text = sec_text s, up_ver = k, up_prev = k - 1\<rparr>"
    have nf: "\<not> (map_of em ?n \<noteq> None \<and> fst (the_default ([], 0) (map_of em ?n)) = ?h)" using False by auto
    obtain ups' where rec: "changed_updates hash ss (put ?n (?h, k) em) = (ups', em')" "ups = u # ups'"
      using Cons.prems(5) nf by (auto simp: Let_def k_def u_def split: prod.splits)
    have v1: "apply_update u v = v(?n \<mapsto> sec_text s)" using ss(3) by (simp add: apply_update_def u_def)
    have t1: "tracks hash (v(?n \<mapsto> sec_text s)) (put ?n (?h, k) em)"
      using Cons.prems(2,3) by (auto simp: tracks_def)
    have "ran (v(?n \<mapsto> sec_text s)) \<union> sec_text ` set ss \<subseteq> ran v \<union> sec_text ` set (s # ss)"
      by (auto simp: ran_def)
    with Cons.prems(4) have i1: "inj_on hash (ran (v(?n \<mapsto> sec_text s)) \<union> sec_text ` set ss)"
      by (rule inj_on_subset)
    let ?v1 = "v(?n \<mapsto> sec_text s)"
    have IH: "tracks hash (fold apply_update ups' ?v1) em'"
      "fold apply_update ups' ?v1 = (\<lambda>n. if n \<in> sec_name ` set ss then view_of ss n else ?v1 n)"
      "\<forall>s \<in> set ss. \<exists>k. map_of em' (sec_name s) = Some (hash (sec_text s), k)"
      "\<forall>n. n \<notin> sec_name ` set ss \<longrightarrow> map_of em' n = map_of (put ?n (?h, k) em) n"
      using Cons.IH [OF ss(1) t1 Cons.prems(3) i1 rec(1)] by blast+
    have eq: "fold apply_update ups v = fold apply_update ups' ?v1" by (simp add: rec(2) v1)
    have "fold apply_update ups v = (\<lambda>n. if n \<in> sec_name ` set (s # ss) then view_of (s # ss) n else v n)"
      unfolding eq IH(2) by (rule ext) (use ss(2) in \<open>auto simp: vs\<close>)
    moreover have "map_of em' ?n = Some (?h, k)" using IH(4) ss(2) by simp
    ultimately show ?thesis using IH(1,3,4) eq by auto
  qed
qed

lemma cleared_updates_spec:
  assumes "tracks hash v em" and "cleared_updates seen ns em = (ups, em')"
  shows "tracks hash (fold apply_update ups v) em'
    \<and> fold apply_update ups v = (\<lambda>n. if n \<in> set ns \<and> n \<notin> seen then None else v n)
    \<and> (\<forall>n \<in> seen. map_of em' n = map_of em n)
    \<and> (\<forall>n \<in> set ns - seen. fst (the_default ([], 0) (map_of em' n)) = [])
    \<and> fst ` set em \<subseteq> fst ` set em' \<and> (\<forall>n. fst (the_default ([], 0) (map_of em n)) = [] \<longrightarrow> map_of em' n = map_of em n)"
  using assms
proof (induction ns arbitrary: em v ups)
  case Nil
  then show ?case by simp
next
  case (Cons n ns)
  show ?case
  proof (cases "n \<in> seen \<or> fst (the_default ([], 0) (map_of em n)) = []")
    case True
    then have rec: "cleared_updates seen ns em = (ups, em')" using Cons.prems(2) by (simp add: Let_def)
    note IH = Cons.IH [OF Cons.prems(1) rec]
    have "v n = None" if "n \<notin> seen"
    proof (cases "map_of em n")
      case None
      then show ?thesis by (rule tracks_None [OF Cons.prems(1)])
    next
      case (Some hk)
      with True that have "map_of em n = Some ([], snd hk)" by (cases hk) simp
      then show ?thesis using tracks_Some [OF Cons.prems(1)] by blast
    qed
    then have "(\<lambda>m. if m \<in> set ns \<and> m \<notin> seen then None else v m)
        = (\<lambda>m. if m \<in> set (n # ns) \<and> m \<notin> seen then None else v m)" by (intro ext) auto
    with IH True show ?thesis by auto
  next
    case False
    define k where "k = snd (the_default ([], 0) (map_of em n)) + 1"
    define u where "u = \<lparr>up_name = n, up_text = [], up_ver = k, up_prev = k - 1\<rparr>"
    obtain ups' where rec: "cleared_updates seen ns (put n ([], k) em) = (ups', em')" "ups = u # ups'"
      using Cons.prems(2) False by (auto simp: Let_def k_def u_def split: prod.splits)
    have v1: "apply_update u v = v(n := None)" by (simp add: apply_update_def u_def)
    have t1: "tracks hash (v(n := None)) (put n ([], k) em)" using Cons.prems(1) by (auto simp: tracks_def)
    have IH: "tracks hash (fold apply_update ups' (v(n := None))) em'"
      "fold apply_update ups' (v(n := None)) = (\<lambda>m. if m \<in> set ns \<and> m \<notin> seen then None else (v(n := None)) m)"
      "\<forall>m \<in> seen. map_of em' m = map_of (put n ([], k) em) m"
      "\<forall>m \<in> set ns - seen. fst (the_default ([], 0) (map_of em' m)) = []"
      "fst ` set (put n ([], k) em) \<subseteq> fst ` set em'"
      "\<forall>m. fst (the_default ([], 0) (map_of (put n ([], k) em) m)) = []
          \<longrightarrow> map_of em' m = map_of (put n ([], k) em) m"
      using Cons.IH [OF t1 rec(1)] by blast+
    have eq: "fold apply_update ups v = fold apply_update ups' (v(n := None))" by (simp add: rec(2) v1)
    have nn: "map_of em' n = Some ([], k)" using IH(6) by simp
    have "fold apply_update ups v = (\<lambda>m. if m \<in> set (n # ns) \<and> m \<notin> seen then None else v m)"
      unfolding eq IH(2) by (rule ext) (use False in auto)
    moreover have "\<forall>m. fst (the_default ([], 0) (map_of em m)) = [] \<longrightarrow> map_of em' m = map_of em m"
      using IH(6) False by auto
    moreover have "\<forall>m \<in> seen. map_of em' m = map_of em m" using IH(3) False by auto
    moreover have "fst ` set em \<subseteq> fst ` set em'" using IH(5) by (auto simp: set_keys_put)
    ultimately show ?thesis using IH(1,4) nn eq by auto
  qed
qed

lemma changed_updates_none:
  "\<forall>s \<in> set ss. \<exists>k. map_of em (sec_name s) = Some (hash (sec_text s), k) \<Longrightarrow> changed_updates hash ss em = ([], em)"
proof (induction ss)
  case (Cons s ss)
  then obtain k where "map_of em (sec_name s) = Some (hash (sec_text s), k)" by auto
  with Cons show ?case by (simp add: Let_def)
qed simp

lemma cleared_updates_none:
  "\<forall>n \<in> set ns. n \<in> seen \<or> fst (the_default ([], 0) (map_of em n)) = [] \<Longrightarrow> cleared_updates seen ns em = ([], em)"
  by (induction ns) (auto simp: Let_def)

text \<open>
  C25: replacement messages keep the model up to date: if what was emitted agrees with what the model
  knows, then after the messages of a turn the model knows exactly the sections as they are, the
  record agrees again, and asking once more yields no message. This holds as long as the texts in
  play have different hashes; a session that has just taken its start-up block is in that state.
\<close>

theorem updates_keep_model_current:
  assumes "tk_started t" and track: "tracks hash v (tk_emitted t)" and "sections_named ss"
    and "\<forall>x. hash x \<noteq> []" and "inj_on hash (ran v \<union> sec_text ` set ss)"
    and ups: "section_updates hash ss t = (ups, t')"
  shows "fold apply_update ups v = view_of ss
    \<and> tracks hash (view_of ss) (tk_emitted t')
    \<and> section_updates hash ss t' = ([], t')"
proof -
  obtain us em where c: "changed_updates hash ss (tk_emitted t) = (us, em)"
    by (cases "changed_updates hash ss (tk_emitted t)")
  obtain gone em' where g: "cleared_updates (sec_name ` set ss) (sort (map fst em)) em = (gone, em')"
    by (cases "cleared_updates (sec_name ` set ss) (sort (map fst em)) em")
  have u: "ups = us @ gone" "t' = t\<lparr>tk_emitted := em'\<rparr>"
    using ups assms(1) by (simp_all add: section_updates_def c g)
  let ?v = "fold apply_update us v"
  have C: "tracks hash ?v em" "?v = (\<lambda>n. if n \<in> sec_name ` set ss then view_of ss n else v n)"
    "\<forall>s \<in> set ss. \<exists>k. map_of em (sec_name s) = Some (hash (sec_text s), k)"
    using changed_updates_spec [OF assms(3) track assms(4,5) c] by blast+
  have G: "tracks hash (fold apply_update gone ?v) em'"
    "fold apply_update gone ?v = (\<lambda>n. if n \<in> set (sort (map fst em)) \<and> n \<notin> sec_name ` set ss then None else ?v n)"
    "\<forall>n \<in> sec_name ` set ss. map_of em' n = map_of em n"
    "\<forall>n \<in> set (sort (map fst em)) - sec_name ` set ss. fst (the_default ([], 0) (map_of em' n)) = []"
    "\<forall>n. fst (the_default ([], 0) (map_of em n)) = [] \<longrightarrow> map_of em' n = map_of em n"
    using cleared_updates_spec [OF C(1) g] by blast+
  have "fold apply_update gone ?v = view_of ss"
  proof
    fix n
    show "fold apply_update gone ?v n = view_of ss n"
    proof (cases "n \<in> sec_name ` set ss")
      case True
      then show ?thesis using fun_cong [OF G(2), of n] fun_cong [OF C(2), of n] by simp
    next
      case False
      have "?v n = None" if "n \<notin> fst ` set em"
        using that tracks_None [OF C(1)] by (simp add: map_of_eq_None_iff)
      with False show ?thesis unfolding G(2) by (auto simp: view_of_None)
    qed
  qed
  then have V: "fold apply_update ups v = view_of ss" by (simp add: u(1))
  have "changed_updates hash ss em' = ([], em')"
    by (rule changed_updates_none) (use C(3) G(3) in auto)
  moreover have "cleared_updates (sec_name ` set ss) (sort (map fst em')) em' = ([], em')"
  proof (rule cleared_updates_none)
    have "fst (the_default ([], 0) (map_of em' n)) = []" if "n \<notin> sec_name ` set ss" for n
    proof (cases "n \<in> fst ` set em")
      case True
      with that G(4) show ?thesis by auto
    next
      case False
      then have "map_of em n = None" by (simp add: map_of_eq_None_iff)
      with G(5) show ?thesis by simp
    qed
    then show "\<forall>n \<in> set (sort (map fst em')). n \<in> sec_name ` set ss \<or> fst (the_default ([], 0) (map_of em' n)) = []"
      by blast
  qed
  ultimately have "section_updates hash ss t' = ([], t')"
    using assms(1) by (simp add: section_updates_def u(2))
  with V G(1) show ?thesis using \<open>fold apply_update gone ?v = view_of ss\<close> u(2) by simp
qed

definition tagged_hash :: "string \<Rightarrow> string" where
  "tagged_hash s = CHR ''h'' # s"

definition mood_section :: "string \<Rightarrow> ext_section" where
  "mood_section s = \<lparr>sec_name = ''mood'', sec_text = s\<rparr>"

lemma tagged_hash_ok: "\<forall>x. tagged_hash x \<noteq> []" "inj_on tagged_hash A"
  by (simp_all add: tagged_hash_def inj_on_def)

lemma mood_named: "s \<noteq> [] \<Longrightarrow> sections_named [mood_section s]"
  by (simp add: sections_named_def mood_section_def)

theorem updates_keep_model_current_witness:
  "fold apply_update (fst (section_updates tagged_hash [mood_section ''glad'']
       (ensure_started tagged_hash [mood_section ''calm''] new_section_tracker))) (view_of [mood_section ''calm''])
   = view_of [mood_section ''glad'']"
proof -
  let ?t = "ensure_started tagged_hash [mood_section ''calm''] new_section_tracker"
  have tr: "tracks tagged_hash (view_of [mood_section ''calm'']) (tk_emitted ?t)"
    by (rule start_tracks) (simp_all add: tagged_hash_ok mood_named new_section_tracker_def)
  have st: "tk_started ?t" by (simp add: ensure_started_def)
  show ?thesis
    by (rule updates_keep_model_current [OF st tr _ tagged_hash_ok(1) tagged_hash_ok(2) prod.collapse [symmetric],
          THEN conjunct1]) (simp add: mood_named)
qed

text \<open>
  a request only ever extends the one before it: while the history grows and is not replaced, the
  converted messages of a later request begin with those of the earlier one, byte for byte, whatever
  happened to the sections in between; so a provider's prompt cache stays valid.
\<close>

theorem request_prefix_stable:
  assumes "tk_started t \<longrightarrow> tk_base t \<le> length ms"
    and "convert_request hash ss ms t = (out, t')"
    and "convert_request hash ss' (ms @ new) (t'\<lparr>tk_emitted := em\<rparr>) = (out', t'')"
  shows "out' = out @ convert_to_llm new"
proof -
  let ?t = "start_tracker hash ss (length ms) t"
  have t': "t' = ?t" using assms(2) by (simp add: convert_request_def Let_def)
  have started: "tk_started t'" by (simp add: t' start_tracker_def ensure_started_def)
  have base: "tk_base t' \<le> length ms" using assms(1) by (auto simp: t' start_tracker_def)
  have "start_tracker hash ss' n (t'\<lparr>tk_emitted := em\<rparr>) = t'\<lparr>tk_emitted := em\<rparr>" for n
    using started by (simp add: start_tracker_def)
  with assms(2,3) base show ?thesis
    unfolding convert_request_def t' [symmetric] by (auto simp: Let_def min_def split: if_splits)
qed

theorem request_prefix_stable_witness:
  "fst (convert_request tagged_hash [] ([Msg (user_text ''hi'' 1)] @ [Msg (user_text ''yo'' 2)])
      ((snd (convert_request tagged_hash [mood_section ''calm''] [Msg (user_text ''hi'' 1)] new_section_tracker))
         \<lparr>tk_emitted := []\<rparr>))
   = fst (convert_request tagged_hash [mood_section ''calm''] [Msg (user_text ''hi'' 1)] new_section_tracker)
     @ convert_to_llm [Msg (user_text ''yo'' 2)]"
  by (rule request_prefix_stable [OF _ prod.collapse [symmetric] prod.collapse [symmetric]])
    (simp add: new_section_tracker_def)

text \<open>
  The messages of a prompt the agent does not accept are lost: they are recorded as emitted before
  the agent is asked, the refused or queued prompt carries none of them, and the next prompt, accepted,
  carries none either, though the model still knows the old text.
\<close>

theorem refused_prompt_loses_update:
  assumes "tk_started t" and track: "tracks hash v (tk_emitted t)" and "sections_named ss"
    and "\<forall>x. hash x \<noteq> []" and "inj_on hash (ran v \<union> sec_text ` set ss)" and "v \<noteq> view_of ss"
    and refused: "prompt_turn hash ss ts False False again user t = (out, t')"
  shows "out \<in> {QueuedFollowUp user, Refused}
    \<and> fst (section_updates hash ss t) \<noteq> []
    \<and> prompt_turn hash ss ts2 False True again2 user2 t' = (Delivered [user2], t')"
proof -
  obtain ups t1 where u: "section_updates hash ss t = (ups, t1)" by (cases "section_updates hash ss t")
  note K = updates_keep_model_current [OF assms(1-5) u]
  have "ups \<noteq> []" using K assms(6) by auto
  moreover have "t' = t1" "out \<in> {QueuedFollowUp user, Refused}"
    using refused u by (auto simp: prompt_turn_def update_messages_def split: if_splits)
  ultimately show ?thesis using K u by (simp add: prompt_turn_def update_messages_def)
qed

theorem refused_prompt_loses_update_witness:
  "\<exists>t'. prompt_turn tagged_hash [mood_section ''glad''] 1 False False True (Msg (user_text ''hi'' 1))
       (ensure_started tagged_hash [mood_section ''calm''] new_section_tracker)
     = (QueuedFollowUp (Msg (user_text ''hi'' 1)), t')
   \<and> prompt_turn tagged_hash [mood_section ''glad''] 2 False True True (Msg (user_text ''yo'' 2)) t'
     = (Delivered [Msg (user_text ''yo'' 2)], t')"
proof -
  let ?t = "ensure_started tagged_hash [mood_section ''calm''] new_section_tracker"
  let ?r = "prompt_turn tagged_hash [mood_section ''glad''] 1 False False True (Msg (user_text ''hi'' 1)) ?t"
  have "tracks tagged_hash (view_of [mood_section ''calm'']) (tk_emitted ?t)"
    by (rule start_tracks) (simp_all add: tagged_hash_ok mood_named new_section_tracker_def)
  moreover have "tk_started ?t" by (simp add: ensure_started_def)
  moreover have "view_of [mood_section ''calm''] \<noteq> view_of [mood_section ''glad'']"
    by (simp add: view_of_def mood_section_def fun_eq_iff exI [of _ "''mood''"])
  moreover have "?r = (fst ?r, snd ?r)" by simp
  ultimately have "prompt_turn tagged_hash [mood_section ''glad''] 2 False True True (Msg (user_text ''yo'' 2)) (snd ?r)
      = (Delivered [Msg (user_text ''yo'' 2)], snd ?r)"
    using refused_prompt_loses_update [of ?t tagged_hash "view_of [mood_section ''calm'']" "[mood_section ''glad'']"
        1 True "Msg (user_text ''hi'' 1)" "fst ?r" "snd ?r"] mood_named [of "''glad''"] tagged_hash_ok by blast
  moreover have "fst ?r = QueuedFollowUp (Msg (user_text ''hi'' 1))"
    by (simp add: prompt_turn_def split: prod.split)
  ultimately show ?thesis by (metis prod.collapse)
qed

end
