(* ===== verification/StatusCard.thy ===== *)
theory StatusCard
  imports Observables Messages
begin

text \<open>
  The session/status card (\<^verbatim>\<open>pkg/session/statuscard.go\<close>): a small state machine driven by the events
  of the agent loop and the calls around it, whose state is mirrored into the observable cards.

  The cards store in use is an index into the stores of the process, standing for the pointer the
  code compares, so that a switch of the session file is a switch of the index. An event carries just
  the fields the machine reads.

  Properties of the status card: how a run of the agent ends in the status, and that the card shows
  the status after every event.
\<close>

definition status_idle :: string where "status_idle = ''idle''"
definition status_running :: string where "status_running = ''running''"
definition status_error :: string where "status_error = ''error''"
definition status_no_model :: string where "status_no_model = ''no-model''"

definition status_card_source :: string where "status_card_source = ''session''"
definition status_card_key :: string where "status_card_key = ''status''"
definition status_err_max :: nat where "status_err_max = 2000"

record session_status =
  st_status :: string
  st_tool :: string
  st_runs :: int
  st_err :: string
  st_notice :: string
  st_aborted :: bool
  st_last :: "(nat \<times> string \<times> string) option"

datatype agent_event =
    AgentStart
  | ToolStart string
  | ToolEnd
  | AssistantEnd stop_reason string
  | OtherMessageEnd
  | Retrying string
  | AgentEnd
  | OtherEvent

definition is_cancellation :: "string \<Rightarrow> bool" where
  "is_cancellation msg = contains msg ''context canceled''"

text \<open>\<^verbatim>\<open>[]rune(s)\<close> and back: a byte that starts no rune becomes U+FFFD.\<close>

definition rune_text :: "string \<Rightarrow> string" where
  "rune_text r = (if length r = 1 \<and> byte_of (hd r) \<ge> 128 then [CHR 0xEF, CHR 0xBF, CHR 0xBD] else r)"

definition truncate_status_text :: "string \<Rightarrow> string" where
  "truncate_status_text s =
     (let t = trim_space s; rs = runes t
      in if length rs > status_err_max
         then concat (map rune_text (take (status_err_max - 1) rs)) @ [CHR 0xE2, CHR 0x80, CHR 0xA6]
         else t)"

text \<open>\<^verbatim>\<open>strings.Fields\<close>.\<close>

fun fields_from :: "string \<Rightarrow> string list \<Rightarrow> string list" where
  "fields_from cur [] = (if cur = [] then [] else [cur])"
| "fields_from cur (r # rs) =
     (if r \<in> set space_runes then (if cur = [] then [] else [cur]) @ fields_from [] rs
      else fields_from (cur @ r) rs)"

definition one_line :: "string \<Rightarrow> string" where
  "one_line s = join '' '' (fields_from [] (runes s))"

definition trim_newlines :: "string \<Rightarrow> string" where
  "trim_newlines s = trim_right_bytes [newline] s"

definition status_slug :: "session_status \<Rightarrow> string" where
  "status_slug st =
     (if st_status st = status_running \<and> st_tool st \<noteq> [] then ''running: '' @ st_tool st else st_status st)"

definition status_detail :: "(string \<times> string) option \<Rightarrow> session_status \<Rightarrow> string" where
  "status_detail model st =
     trim_newlines
       (''status: '' @ st_status st @ [newline]
        @ (case model of None \<Rightarrow> [] | Some (p, i) \<Rightarrow> ''model: '' @ p @ ''/'' @ i @ [newline])
        @ (if st_tool st = [] then [] else ''tool: '' @ st_tool st @ [newline])
        @ ''runs: '' @ itoa (st_runs st) @ [newline]
        @ (if st_err st = [] then [] else ''error: '' @ one_line (st_err st) @ [newline])
        @ (if st_notice st = [] then [] else ''notice: '' @ one_line (st_notice st) @ [newline]))"

text \<open>\<open>publish\<close>: on the status and the cards stores, of which number \<open>i\<close> is in use.\<close>

type_synonym status_world = "session_status \<times> (nat \<Rightarrow> observable_store)"

definition publish :: "int \<Rightarrow> (string \<times> string) option \<Rightarrow> nat \<Rightarrow> status_world \<Rightarrow> status_world" where
  "publish now model i x =
     (case x of (st, obs) \<Rightarrow>
        if st_status st = [] then (st, obs)
        else if st_last st = Some (i, status_slug st, status_detail model st) then (st, obs)
        else (st\<lparr>st_last := Some (i, status_slug st, status_detail model st)\<rparr>,
              obs(i := put_card now status_card_source status_card_key (status_slug st)
                         (status_detail model st) [] (obs i))))"

definition init_status :: "(string \<times> string) option \<Rightarrow> session_status \<Rightarrow> session_status" where
  "init_status model st = st\<lparr>st_status := (if model = None then status_no_model else status_idle)\<rparr>"

definition abort_requested :: "session_status \<Rightarrow> session_status" where
  "abort_requested st = st\<lparr>st_aborted := True\<rparr>"

definition set_status_notice :: "string \<Rightarrow> session_status \<Rightarrow> session_status" where
  "set_status_notice notice st = st\<lparr>st_notice := truncate_status_text notice\<rparr>"

definition status_prompt_refused :: "string \<Rightarrow> string \<Rightarrow> session_status \<Rightarrow> session_status" where
  "status_prompt_refused status err st =
     st\<lparr>st_status := status, st_err := truncate_status_text err, st_last := None\<rparr>"

definition status_prompt_accepted :: "session_status \<Rightarrow> session_status" where
  "status_prompt_accepted st =
     (if st_status st = status_running then st
      else st\<lparr>st_status := status_running, st_tool := [], st_err := []\<rparr>)"

definition status_model_changed :: "(string \<times> string) option \<Rightarrow> session_status \<Rightarrow> session_status" where
  "status_model_changed model st =
     (let st1 = (if st_status st = status_no_model \<and> model \<noteq> None
                 then st\<lparr>st_status := status_idle, st_err := []\<rparr> else st)
      in if model \<noteq> None then st1\<lparr>st_notice := []\<rparr> else st1)"

text \<open>The event handler; the flag tells whether the card is published afterwards.\<close>

fun status_on_event :: "agent_event \<Rightarrow> session_status \<Rightarrow> session_status \<times> bool" where
  "status_on_event AgentStart st =
     (st\<lparr>st_status := status_running, st_tool := [], st_err := [], st_aborted := False\<rparr>, True)"
| "status_on_event (ToolStart t) st = (st\<lparr>st_tool := t\<rparr>, True)"
| "status_on_event ToolEnd st = (st\<lparr>st_tool := []\<rparr>, True)"
| "status_on_event (AssistantEnd stop msg) st =
     (if stop = StopAborted \<or> (stop = StopError \<and> st_aborted st \<and> is_cancellation msg)
      then (st\<lparr>st_err := ''aborted''\<rparr>, True)
      else if stop = StopError
      then (st\<lparr>st_err := truncate_status_text (if msg = [] then ''provider error'' else msg)\<rparr>, True)
      else (st\<lparr>st_err := []\<rparr>, True))"
| "status_on_event OtherMessageEnd st = (st, False)"
| "status_on_event (Retrying msg) st =
     (if msg \<noteq> [] then st\<lparr>st_err := truncate_status_text (''retrying: '' @ msg)\<rparr> else st, True)"
| "status_on_event AgentEnd st =
     ((let st1 = st\<lparr>st_runs := st_runs st + 1, st_tool := []\<rparr>
       in if st_err st1 = ''aborted'' then st1\<lparr>st_status := status_idle, st_err := []\<rparr>
          else if st_err st1 \<noteq> [] then st1\<lparr>st_status := status_error\<rparr>
          else st1\<lparr>st_status := status_idle\<rparr>), True)"
| "status_on_event OtherEvent st = (st, False)"

definition handle_status_event ::
  "int \<Rightarrow> (string \<times> string) option \<Rightarrow> nat \<Rightarrow> agent_event \<Rightarrow> status_world \<Rightarrow> status_world" where
  "handle_status_event now model i ev x =
     (case status_on_event ev (fst x) of
        (st, pub) \<Rightarrow> if pub then publish now model i (st, snd x) else (st, snd x))"

subsection \<open>Runs of the agent\<close>

fun in_run :: "agent_event \<Rightarrow> bool" where
  "in_run AgentStart = False"
| "in_run AgentEnd = False"
| "in_run _ = True"

abbreviation run_events :: "agent_event list \<Rightarrow> session_status \<Rightarrow> session_status" where
  "run_events evs st \<equiv> fold (\<lambda>ev s. fst (status_on_event ev s)) evs st"

lemma in_run_keeps:
  "in_run ev \<Longrightarrow> st_status (fst (status_on_event ev st)) = st_status st
     \<and> st_runs (fst (status_on_event ev st)) = st_runs st \<and> st_aborted (fst (status_on_event ev st)) = st_aborted st"
  by (cases ev) auto

lemma run_keeps:
  "list_all in_run evs \<Longrightarrow> st_status (run_events evs st) = st_status st
     \<and> st_runs (run_events evs st) = st_runs st \<and> st_aborted (run_events evs st) = st_aborted st"
  by (induction evs arbitrary: st) (simp_all add: in_run_keeps)

text \<open>The events that set the error text.\<close>

fun sets_error :: "agent_event \<Rightarrow> bool" where
  "sets_error (AssistantEnd stop msg) = True"
| "sets_error (Retrying msg) = (msg \<noteq> [])"
| "sets_error _ = False"

lemma quiet_keeps_error:
  "list_all (\<lambda>ev. in_run ev \<and> \<not> sets_error ev) evs \<Longrightarrow> st_err (run_events evs st) = st_err st"
proof (induction evs arbitrary: st)
  case (Cons ev evs)
  then show ?case by (cases ev) auto
qed simp

subsection \<open>The card mirrors the status\<close>

text \<open>What was last written is still on the card of the store it was written to.\<close>

definition card_current :: "status_world \<Rightarrow> bool" where
  "card_current x \<longleftrightarrow>
     (case st_last (fst x) of
        None \<Rightarrow> True
      | Some (i, slug, detail) \<Rightarrow>
          \<exists>c. map_of (ob_cards (snd x i)) (status_card_source, status_card_key) = Some c \<and> card_detail c = detail
            \<and> card_slug c = (if length slug > slug_max_len then truncate_runes slug (int slug_max_len) else slug))"

lemma publish_shows:
  assumes "card_current (st, obs)" and "st_status st \<noteq> []" and "publish now model i (st, obs) = (st', obs')"
  shows "card_current (st', obs')
    \<and> (\<exists>c. map_of (ob_cards (obs' i)) (status_card_source, status_card_key) = Some c
        \<and> card_detail c = status_detail model st)
    \<and> st_status st' = st_status st"
proof (cases "st_last st = Some (i, status_slug st, status_detail model st)")
  case True
  with assms show ?thesis by (auto simp: publish_def card_current_def)
next
  case False
  with assms show ?thesis
    by (auto simp: publish_def card_current_def put_card_def status_card_source_def status_card_key_def Let_def)
qed


text \<open>A run with abort requests: \<open>None\<close> is a call of \<^verbatim>\<open>Abort\<close> between two events.\<close>

definition run_item :: "agent_event option \<Rightarrow> session_status \<Rightarrow> session_status" where
  "run_item it st = (case it of None \<Rightarrow> abort_requested st | Some ev \<Rightarrow> fst (status_on_event ev st))"

fun item_in_run :: "agent_event option \<Rightarrow> bool" where
  "item_in_run None = True"
| "item_in_run (Some ev) = in_run ev"

fun item_quiet :: "agent_event option \<Rightarrow> bool" where
  "item_quiet None = True"
| "item_quiet (Some ev) = (in_run ev \<and> \<not> sets_error ev)"

lemma items_keep:
  "list_all item_in_run its \<Longrightarrow> st_status (fold run_item its st) = st_status st
     \<and> st_runs (fold run_item its st) = st_runs st
     \<and> st_aborted (fold run_item its st) = (st_aborted st \<or> None \<in> set its)"
proof (induction its arbitrary: st)
  case (Cons it its)
  then show ?case by (cases it) (auto simp: run_item_def abort_requested_def in_run_keeps)
qed simp

lemma quiet_items:
  "list_all item_quiet its \<Longrightarrow> st_err (fold run_item its st) = st_err st
     \<and> st_runs (fold run_item its st) = st_runs st"
proof (induction its arbitrary: st)
  case (Cons it its)
  show ?case
  proof (cases it)
    case (Some ev)
    with Cons show ?thesis by (cases ev) (auto simp: run_item_def)
  qed (use Cons in \<open>simp add: run_item_def abort_requested_def\<close>)
qed simp

text \<open>
  C26: what a run leaves behind: one more run, no tool, and a status decided by the last response that
  ended: idle after a success or an abort, including an error that only says the context was canceled
  after an abort was requested; otherwise error, with the message. The one exception is a provider
  error whose text is just "aborted": it is taken for an abort and reported as idle.
\<close>

theorem run_outcome:
  assumes "list_all item_in_run pre" and "list_all item_quiet post"
    and st': "st' = fst (status_on_event AgentEnd (fold run_item post (fst (status_on_event (AssistantEnd stop msg)
                  (fold run_item pre (fst (status_on_event AgentStart st)))))))"
    and err: "err = truncate_status_text (if msg = [] then ''provider error'' else msg)"
  shows "st_runs st' = st_runs st + 1 \<and> st_tool st' = []
    \<and> (stop \<noteq> StopError \<or> None \<in> set pre \<and> is_cancellation msg \<longrightarrow> st_status st' = status_idle \<and> st_err st' = [])
    \<and> (stop = StopError \<and> \<not> (None \<in> set pre \<and> is_cancellation msg) \<and> err \<notin> {[], ''aborted''}
        \<longrightarrow> st_status st' = status_error \<and> st_err st' = err)
    \<and> (stop = StopError \<and> err = ''aborted'' \<longrightarrow> st_status st' = status_idle \<and> st_err st' = [])"
proof -
  define s1 where "s1 = fold run_item pre (fst (status_on_event AgentStart st))"
  define s2 where "s2 = fst (status_on_event (AssistantEnd stop msg) s1)"
  define s3 where "s3 = fold run_item post s2"
  have a: "st_aborted s1 = (None \<in> set pre)" "st_runs s1 = st_runs st"
    using items_keep [OF assms(1), of "fst (status_on_event AgentStart st)"] by (simp_all add: s1_def)
  have e: "st_err s2 = (if stop = StopAborted \<or> (stop = StopError \<and> None \<in> set pre \<and> is_cancellation msg)
      then ''aborted'' else if stop = StopError then err else [])" "st_runs s2 = st_runs st"
    using a by (simp_all add: s2_def err)
  have q: "st_err s3 = st_err s2" "st_runs s3 = st_runs st"
    using quiet_items [OF assms(2), of s2] e(2) by (simp_all add: s3_def)
  have "st' = fst (status_on_event AgentEnd s3)" unfolding st' by (simp only: s1_def s2_def s3_def)
  then have st3: "st_runs st' = st_runs s3 + 1" "st_tool st' = []"
    "st_status st' = (if st_err s3 = ''aborted'' \<or> st_err s3 = [] then status_idle else status_error)"
    "st_err st' = (if st_err s3 = ''aborted'' then [] else st_err s3)"
    by (simp_all add: Let_def)
  show ?thesis unfolding st3 q e(1) by auto
qed

definition fresh_status :: session_status where
  "fresh_status = init_status None
     \<lparr>st_status = [], st_tool = [], st_runs = 0, st_err = [], st_notice = [], st_aborted = False, st_last = None\<rparr>"

theorem run_outcome_witness:
  "st_status (fst (status_on_event AgentEnd (fold run_item [] (fst (status_on_event (AssistantEnd StopError ''overloaded'')
     (fold run_item [Some (ToolStart ''bash''), Some ToolEnd] (fst (status_on_event AgentStart fresh_status))))))))
   = status_error"
proof -
  have "truncate_status_text ''overloaded'' = ''overloaded''" by code_simp
  with run_outcome [OF _ _ refl refl, of "[Some (ToolStart ''bash''), Some ToolEnd]" "[]" StopError "''overloaded''" fresh_status]
  show ?thesis by simp
qed

text \<open>
  after every event that is published the card of the store in use shows the present status,
  model, tool, run count, error and notice, whether or not a write was needed, and also right after
  a switch to another store.
\<close>

theorem card_shows_status:
  assumes "card_current x" and "handle_status_event now model i ev x = (st', obs')"
    and "snd (status_on_event ev (fst x))" and "st_status st' \<noteq> []"
  shows "card_current (st', obs')
    \<and> (\<exists>c. map_of (ob_cards (obs' i)) (status_card_source, status_card_key) = Some c
        \<and> card_detail c = status_detail model st')"
proof -
  obtain st obs where x: "x = (st, obs)" by (cases x)
  let ?st = "fst (status_on_event ev st)"
  have p: "publish now model i (?st, obs) = (st', obs')"
    using assms(2,3) by (simp add: handle_status_event_def x case_prod_beta)
  have "st_last ?st = st_last st" by (cases ev) (auto simp: Let_def)
  then have cur: "card_current (?st, obs)" using assms(1) by (auto simp: card_current_def x split: option.splits)
  have last_only: "\<exists>l. st' = ?st\<lparr>st_last := l\<rparr>"
  proof -
    have "\<exists>l. ?st = ?st\<lparr>st_last := l\<rparr>" by (intro exI [of _ "st_last ?st"]) simp
    then show ?thesis using p by (cases "obs' = obs") (auto simp: publish_def split: if_splits)
  qed
  then have "st_status ?st \<noteq> []" "status_detail model st' = status_detail model ?st"
    using assms(4) by (auto simp: status_detail_def)
  with publish_shows [OF cur _ p] show ?thesis by simp
qed

theorem card_shows_status_witness:
  "\<exists>c. map_of (ob_cards (snd (handle_status_event 9 (Some (''p'', ''m'')) 0 AgentStart
            (fresh_status, \<lambda>_. new_observable_store [] None)) 0)) (status_card_source, status_card_key) = Some c
     \<and> card_detail c = status_detail (Some (''p'', ''m''))
         (fst (handle_status_event 9 (Some (''p'', ''m'')) 0 AgentStart (fresh_status, \<lambda>_. new_observable_store [] None)))"
proof -
  let ?x = "(fresh_status, \<lambda>_ :: nat. new_observable_store [] None)"
  let ?r = "handle_status_event 9 (Some (''p'', ''m'')) 0 AgentStart ?x"
  have "card_current ?x" by (simp add: card_current_def fresh_status_def init_status_def)
  moreover have "st_status (fst ?r) \<noteq> []"
    by (simp add: handle_status_event_def publish_def status_running_def)
  ultimately show ?thesis
    using card_shows_status [of ?x 9 "Some (''p'', ''m'')" 0 AgentStart "fst ?r" "snd ?r"] by simp
qed

end
