(* ===== verification/AgentState.thy ===== *)
theory AgentState
  imports Compaction Sections Transform
begin

text \<open>
  The state of a running agent session (\<^verbatim>\<open>AgentSession\<close> of \<^verbatim>\<open>pkg/session/agentsession.go\<close> and
  \<^verbatim>\<open>SessionState\<close> of \<^verbatim>\<open>pkg/session/state.go\<close>).

  The agent loop itself is the module \<^verbatim>\<open>github.com/kfet/agent\<close> outside the repository. What the
  session reads of it (\<^verbatim>\<open>Agent.State()\<close>, the queue of held context messages) and sets in it
  (\<^verbatim>\<open>ReplaceMessages\<close>, \<^verbatim>\<open>AppendMessage\<close>, \<^verbatim>\<open>SetModel\<close>, \<^verbatim>\<open>SetThinkingLevel\<close>) is the record
  \<open>agent_state\<close>; what else the session asks of code outside it is the record \<open>session_env\<close>.
\<close>

subsection \<open>Models and the agent\<close>

record session_model = llm_model +
  sm_window :: int
  sm_base_url :: string

record agent_state =
  ag_messages :: "agent_message list"
  ag_pending :: "string list"
  ag_model :: "session_model option"
  ag_thinking :: string
  ag_held :: "agent_message list"

text \<open>\<^verbatim>\<open>Role()\<close> of an agent message.\<close>

fun custom_role :: "custom \<Rightarrow> string" where
  "custom_role (Bash m) = ''bashExecution''"
| "custom_role (CustomMsg m) = ''custom''"
| "custom_role (BranchSummary m) = ''branchSummary''"
| "custom_role (CompactionSummary m) = ''compactionSummary''"
| "custom_role UnknownCustom = []"

fun agent_role :: "agent_message \<Rightarrow> string" where
  "agent_role (Msg m) = role_of m"
| "agent_role (Custom c) = custom_role c"

subsection \<open>Settings and plan\<close>

record runtime_state =
  rt_cwd :: string
  rt_servers :: members
  rt_tools :: members
  rt_meta :: members
  rt_mode :: string
  rt_handle :: string

record conversation_state =
  cv_model :: string
  cv_thinking :: string
  cv_name :: string

record session_state =
  se_runtime :: runtime_state
  se_conversation :: conversation_state

definition no_conversation :: conversation_state where
  "no_conversation = \<lparr>cv_model = [], cv_thinking = [], cv_name = []\<rparr>"

definition no_runtime :: runtime_state where
  "no_runtime = \<lparr>rt_cwd = [], rt_servers = [], rt_tools = [], rt_meta = [], rt_mode = [], rt_handle = []\<rparr>"

record plan_state =
  pl_title :: string
  pl_entries :: "json list"
  pl_metadata :: "(string \<times> string) list"
  pl_version :: nat

subsection \<open>The session\<close>

record agent_session =
  as_sd :: store_disk
  as_agent :: agent_state
  as_sections :: section_tracker
  as_plan :: plan_state
  as_last :: "assistant_msg option"
  as_in_flight :: "string list"
  as_state :: session_state
  as_closed :: bool
  as_handles :: "string \<rightharpoonup> (path \<times> int)"

text \<open>
  What lies outside the session: the codecs of the message module, the summarising LLM, the
  compaction settings (\<open>None\<close> without a compaction runner), the test for an overflow error, the
  keys and models of the registry, the reading of time stamps, which may fail, and the hash that names
  the file of a handle. The files of handles are kept apart from the others, as a map from the
  file's name to the path in it and its time.
\<close>

record session_env =
  sv_dc :: decoders
  sv_encode :: "message \<Rightarrow> json"
  sv_encode_bash :: "bash_execution \<Rightarrow> json"
  sv_args_len :: "members \<Rightarrow> nat"
  sv_regexes :: regexes
  sv_texts :: texts
  sv_ask :: "summary_request \<Rightarrow> string + string"
  sv_compaction :: "compaction_settings option"
  sv_overflow :: "assistant_msg \<Rightarrow> int \<Rightarrow> bool"
  sv_api_key :: "session_model \<Rightarrow> string"
  sv_keyless :: "string \<Rightarrow> bool"
  sv_key_error :: "string \<Rightarrow> string"
  sv_find_model :: "string \<Rightarrow> string \<Rightarrow> session_model option"
  sv_parse_time :: "string \<Rightarrow> int option"
  sv_agent_dir :: path
  sv_hash :: "string \<Rightarrow> string"

definition set_messages :: "agent_message list \<Rightarrow> agent_session \<Rightarrow> agent_session" where
  "set_messages ms s = s\<lparr>as_agent := (as_agent s)\<lparr>ag_messages := ms\<rparr>\<rparr>"

definition with_store :: "store_disk \<Rightarrow> agent_session \<Rightarrow> agent_session" where
  "with_store sd s = s\<lparr>as_sd := sd\<rparr>"

abbreviation memory :: "agent_session \<Rightarrow> agent_message list" where
  "memory s \<equiv> ag_messages (as_agent s)"

lemma set_messages_fields [simp]:
  "memory (set_messages ms s) = ms" "as_sd (set_messages ms s) = as_sd s"
  "as_plan (set_messages ms s) = as_plan s" "as_sections (set_messages ms s) = as_sections s"
  "as_state (set_messages ms s) = as_state s" "as_last (set_messages ms s) = as_last s"
  "as_in_flight (set_messages ms s) = as_in_flight s"
  "ag_model (as_agent (set_messages ms s)) = ag_model (as_agent s)"
  "ag_thinking (as_agent (set_messages ms s)) = ag_thinking (as_agent s)"
  "ag_pending (as_agent (set_messages ms s)) = ag_pending (as_agent s)"
  by (simp_all add: set_messages_def)

lemma with_store_fields [simp]:
  "as_sd (with_store sd s) = sd" "as_agent (with_store sd s) = as_agent s"
  "as_plan (with_store sd s) = as_plan s" "as_sections (with_store sd s) = as_sections s"
  "as_state (with_store sd s) = as_state s" "as_last (with_store sd s) = as_last s"
  "as_in_flight (with_store sd s) = as_in_flight s"
  by (simp_all add: with_store_def)

end
