(* ===== verification/SessionSettings.thy ===== *)
theory SessionSettings
  imports AgentState Stores StateHistory
begin

text \<open>
  The settings of a session (\<^verbatim>\<open>pkg/session/state.go\<close>) and the handles that name it
  (\<^verbatim>\<open>pkg/session/store/state.go\<close>): how they are written beside the transcript, read back, applied
  to the agent when a transcript is opened or switched to, and kept in step with it.

  The entries of the maps of MCP servers, tools and client metadata are kept as the JSON they are
  written as.
\<close>

subsection \<open>The settings as JSON\<close>

definition omit_members :: "members \<Rightarrow> json option" where
  "omit_members ms = (if ms = [] then None else Some (JObj ms))"

fun fill_members :: "members \<Rightarrow> json list \<Rightarrow> members option" where
  "fill_members cur [] = Some cur"
| "fill_members cur (JObj ms # vs) = fill_members (fold (\<lambda>(k, v). put k v) ms cur) vs"
| "fill_members cur (JNull # vs) = fill_members [] vs"
| "fill_members cur (_ # vs) = None"

definition runtime_table :: "runtime_state \<Rightarrow> field_table" where
  "runtime_table r =
     [(''cwd'', omit_str (rt_cwd r)), (''mcpServers'', omit_members (rt_servers r)),
      (''mcpTools'', omit_members (rt_tools r)), (''meta'', omit_members (rt_meta r)),
      (''mode'', omit_str (rt_mode r)), (''handle'', omit_str (rt_handle r))]"

definition conversation_table :: "conversation_state \<Rightarrow> field_table" where
  "conversation_table c =
     [(''model'', omit_str (cv_model c)), (''thinking'', omit_str (cv_thinking c)),
      (''name'', omit_str (cv_name c))]"

definition json_of_state :: "session_state \<Rightarrow> json" where
  "json_of_state st =
     JObj [(''runtime'', JObj (emit (runtime_table (se_runtime st)))),
           (''conversation'', JObj (emit (conversation_table (se_conversation st))))]"

definition fill_runtime :: "json \<Rightarrow> runtime_state \<Rightarrow> runtime_state option" where
  "fill_runtime j r = do {
     ms \<leftarrow> object_members j;
     cwd \<leftarrow> fill_str (rt_cwd r) (field_vals ''cwd'' ms);
     servers \<leftarrow> fill_members (rt_servers r) (field_vals ''mcpServers'' ms);
     tools \<leftarrow> fill_members (rt_tools r) (field_vals ''mcpTools'' ms);
     meta \<leftarrow> fill_members (rt_meta r) (field_vals ''meta'' ms);
     mode \<leftarrow> fill_str (rt_mode r) (field_vals ''mode'' ms);
     handle \<leftarrow> fill_str (rt_handle r) (field_vals ''handle'' ms);
     Some \<lparr>rt_cwd = cwd, rt_servers = servers, rt_tools = tools, rt_meta = meta, rt_mode = mode,
           rt_handle = handle\<rparr>
   }"

definition fill_conversation :: "json \<Rightarrow> conversation_state \<Rightarrow> conversation_state option" where
  "fill_conversation j c = do {
     ms \<leftarrow> object_members j;
     model \<leftarrow> fill_str (cv_model c) (field_vals ''model'' ms);
     thinking \<leftarrow> fill_str (cv_thinking c) (field_vals ''thinking'' ms);
     name \<leftarrow> fill_str (cv_name c) (field_vals ''name'' ms);
     Some \<lparr>cv_model = model, cv_thinking = thinking, cv_name = name\<rparr>
   }"

fun fill_each :: "(json \<Rightarrow> 'a \<Rightarrow> 'a option) \<Rightarrow> 'a \<Rightarrow> json list \<Rightarrow> 'a option" where
  "fill_each fill cur [] = Some cur"
| "fill_each fill cur (j # js) = Option.bind (fill j cur) (\<lambda>x. fill_each fill x js)"

definition state_of_json :: "json \<Rightarrow> session_state option" where
  "state_of_json j = do {
     ms \<leftarrow> object_members j;
     r \<leftarrow> fill_each fill_runtime no_runtime (field_vals ''runtime'' ms);
     c \<leftarrow> fill_each fill_conversation no_conversation (field_vals ''conversation'' ms);
     Some \<lparr>se_runtime = r, se_conversation = c\<rparr>
   }"

subsection \<open>Handles\<close>

definition handles_dir :: "path \<Rightarrow> path" where
  "handles_dir agent_dir = join_path agent_dir ''session-handles''"

definition handle_path :: "(string \<Rightarrow> string) \<Rightarrow> path \<Rightarrow> string \<Rightarrow> path" where
  "handle_path hash agent_dir handle =
     (if agent_dir = [] \<or> handle = [] then [] else join_path (handles_dir agent_dir) (hash handle))"

text \<open>Binding again to the same transcript only refreshes the file's time.\<close>

definition bind_handle ::
  "world \<Rightarrow> (string \<Rightarrow> string) \<Rightarrow> path \<Rightarrow> string \<Rightarrow> path \<Rightarrow> (path \<rightharpoonup> (path \<times> int)) \<Rightarrow> (path \<rightharpoonup> (path \<times> int))" where
  "bind_handle w hash agent_dir handle file hs =
     (let p = handle_path hash agent_dir handle
      in if p = [] \<or> file = [] then hs
         else if map_option fst (hs p) = Some file then hs(p \<mapsto> (file, w_clock w))
         else if check_writable w p \<and> w_io_ok w p then hs(p \<mapsto> (file, w_clock w))
         else hs)"

definition resolve_handle ::
  "(string \<Rightarrow> string) \<Rightarrow> path \<Rightarrow> string \<Rightarrow> disk \<Rightarrow> (path \<rightharpoonup> (path \<times> int)) \<Rightarrow> path" where
  "resolve_handle hash agent_dir handle d hs =
     (let p = handle_path hash agent_dir handle
      in if p = [] then []
         else case hs p of
             None \<Rightarrow> []
           | Some (content, t) \<Rightarrow>
               let file = trim_space content in if d_files d file = None then [] else file)"

definition forget_handle ::
  "(string \<Rightarrow> string) \<Rightarrow> path \<Rightarrow> string \<Rightarrow> (path \<rightharpoonup> (path \<times> int)) \<Rightarrow> bool \<times> (path \<rightharpoonup> (path \<times> int))" where
  "forget_handle hash agent_dir handle hs =
     (let p = handle_path hash agent_dir handle in (p \<noteq> [] \<and> hs p \<noteq> None, hs(p := None)))"

definition prune_handles :: "int \<Rightarrow> (path \<rightharpoonup> (path \<times> int)) \<Rightarrow> (path \<rightharpoonup> (path \<times> int))" where
  "prune_handles cutoff hs =
     (\<lambda>p. case hs p of None \<Rightarrow> None | Some (f, t) \<Rightarrow> if t < cutoff then None else Some (f, t))"

subsection \<open>Saving and loading\<close>

definition load_state :: "world \<Rightarrow> path \<Rightarrow> disk \<Rightarrow> disk \<times> session_state option" where
  "load_state w file d =
     (case read_state w file d of
        (d1, None) \<Rightarrow> (d1, None)
      | (d1, Some j) \<Rightarrow> (d1, state_of_json j))"

definition save_state :: "session_env \<Rightarrow> world \<Rightarrow> agent_session \<Rightarrow> agent_session" where
  "save_state env w s =
     (let ss = fst (as_sd s); file = ss_file ss
      in if as_closed s \<or> \<not> ss_persist ss \<or> file = [] then s
         else case write_state w file (json_of_state (as_state s)) (snd (as_sd s)) of
             (d, Some e) \<Rightarrow> s\<lparr>as_sd := (ss, d)\<rparr>
           | (d, None) \<Rightarrow>
               let h = rt_handle (se_runtime (as_state s))
               in s\<lparr>as_sd := (ss, d),
                    as_handles := (if h \<noteq> [] \<and> sv_agent_dir env \<noteq> []
                      then bind_handle w (sv_hash env) (sv_agent_dir env) h file (as_handles s)
                      else as_handles s)\<rparr>)"

definition close_state :: "agent_session \<Rightarrow> agent_session" where
  "close_state s = s\<lparr>as_closed := True\<rparr>"

definition update_state :: "(session_state \<Rightarrow> session_state) \<Rightarrow> agent_session \<Rightarrow> agent_session" where
  "update_state f s = s\<lparr>as_state := f (as_state s)\<rparr>"

definition update_session_state ::
  "session_env \<Rightarrow> world \<Rightarrow> (session_state \<Rightarrow> session_state) \<Rightarrow> agent_session \<Rightarrow> agent_session" where
  "update_session_state env w f s = save_state env w (update_state f s)"

definition set_conversation ::
  "(conversation_state \<Rightarrow> conversation_state) \<Rightarrow> session_state \<Rightarrow> session_state" where
  "set_conversation f st = st\<lparr>se_conversation := f (se_conversation st)\<rparr>"

definition model_ref :: "session_model \<Rightarrow> string" where
  "model_ref md = md_provider md @ ''/'' @ md_id md"

definition sync_conversation :: "agent_session \<Rightarrow> agent_session" where
  "sync_conversation s =
     (let a = as_agent s; name = get_session_name (fst (as_sd s))
      in update_state (set_conversation (\<lambda>c. c
           \<lparr>cv_model := (case ag_model a of Some md \<Rightarrow> model_ref md | None \<Rightarrow> cv_model c),
            cv_thinking := (if ag_thinking a \<noteq> [] then ag_thinking a else cv_thinking c),
            cv_name := (if name \<noteq> [] then name else cv_name c)\<rparr>)) s)"

subsection \<open>Restoring\<close>

text \<open>The three conditional steps of \<^verbatim>\<open>restoreState\<close> that bring agent and transcript to the saved settings.\<close>

definition restore_model :: "session_env \<Rightarrow> world \<Rightarrow> string \<Rightarrow> agent_session \<Rightarrow> agent_session" where
  "restore_model env w saved s =
     (let cur = ag_model (as_agent s)
      in if saved = [] \<or> map_option model_ref cur = Some saved then s
         else case cut_at CHR ''/'' saved of
             None \<Rightarrow> s
           | Some (provider, i) \<Rightarrow>
               (case sv_find_model env provider i of
                  None \<Rightarrow> s
                | Some md \<Rightarrow>
                    s\<lparr>as_agent := (as_agent s)\<lparr>ag_model := Some md\<rparr>,
                      as_sd := append_model_change w (md_provider md) (md_id md) (as_sd s)\<rparr>))"

definition restore_thinking :: "world \<Rightarrow> string \<Rightarrow> agent_session \<Rightarrow> agent_session" where
  "restore_thinking w level s =
     (if level = [] \<or> ag_thinking (as_agent s) = level then s
      else s\<lparr>as_agent := (as_agent s)\<lparr>ag_thinking := level\<rparr>,
             as_sd := append_thinking_level_change w level (as_sd s)\<rparr>)"

definition restore_name :: "world \<Rightarrow> string \<Rightarrow> agent_session \<Rightarrow> agent_session" where
  "restore_name w name s =
     (if name = [] \<or> get_session_name (fst (as_sd s)) \<noteq> [] then s
      else s\<lparr>as_sd := append_session_info w name (as_sd s)\<rparr>)"

definition adopt_saved :: "bool \<Rightarrow> session_state option \<Rightarrow> session_state \<Rightarrow> session_state" where
  "adopt_saved keep_runtime saved cur =
     (case saved of
        None \<Rightarrow> cur
      | Some st \<Rightarrow>
          if keep_runtime then st\<lparr>se_runtime := se_runtime cur\<rparr>
          else st\<lparr>se_runtime := (se_runtime st)\<lparr>rt_handle := []\<rparr>\<rparr>)"

text \<open>Each entry is appended in a world of its own; \<open>cwd\<close> is the session's working directory.\<close>

definition restore_state ::
  "session_env \<Rightarrow> (nat \<Rightarrow> world) \<Rightarrow> string \<Rightarrow> bool \<Rightarrow> (session_state \<Rightarrow> session_state) \<Rightarrow> bool \<Rightarrow> bool
     \<Rightarrow> agent_session \<Rightarrow> agent_session" where
  "restore_state env ws cwd keep_runtime override pin_model pin_thinking s0 =
     (case load_state (ws 0) (ss_file (fst (as_sd s0))) (snd (as_sd s0)) of
        (d, saved) \<Rightarrow>
          let s = update_state (\<lambda>cur. override (adopt_saved keep_runtime saved cur))
                    (s0\<lparr>as_sd := (fst (as_sd s0), d)\<rparr>);
              conv = se_conversation (as_state s);
              s1 = (if pin_model then s else restore_model env (ws 0) (cv_model conv) s);
              s2 = (if pin_thinking then s1 else restore_thinking (ws 1) (cv_thinking conv) s1);
              s3 = restore_name (ws 2) (cv_name conv) s2;
              s4 = (if saved = None \<or> pin_model \<or> pin_thinking then sync_conversation s3 else s3);
              s5 = update_state (\<lambda>st. if rt_cwd (se_runtime st) = []
                     then st\<lparr>se_runtime := (se_runtime st)\<lparr>rt_cwd := cwd\<rparr>\<rparr> else st) s4
          in save_state env (ws 3) s5)"

subsection \<open>The codec\<close>

definition state_ok :: "session_state \<Rightarrow> bool" where
  "state_ok st \<longleftrightarrow> distinct (map fst (rt_servers (se_runtime st)))
     \<and> distinct (map fst (rt_tools (se_runtime st))) \<and> distinct (map fst (rt_meta (se_runtime st)))"

end
