(* ===== verification/AutoCompaction.thy ===== *)
theory AutoCompaction
  imports AgentState
begin

text \<open>
  Compacting a running session: the runner (\<^verbatim>\<open>pkg/session/compaction/runner.go\<close>), the write path
  \<^verbatim>\<open>ApplyCompaction\<close> of \<^verbatim>\<open>pkg/session/artifact.go\<close>, and from \<^verbatim>\<open>pkg/session/agentsession.go\<close> the
  decision to compact by itself after a run and what follows it. \<open>None\<close> stands for a branch walk that does
  not return, which no well-formed store has.
\<close>

subsection \<open>The runner\<close>

datatype compaction_error =
    NotConfigured
  | NoModelSelected
  | NoApiKey string
  | AlreadyCompacted
  | NothingToCompact
  | SummaryFailed string

definition get_latest_compaction_entry :: "session_entry list \<Rightarrow> session_entry option" where
  "get_latest_compaction_entry es = find (\<lambda>e. e_type e = ''compaction'') (rev es)"

definition apply_to_session :: "session_env \<Rightarrow> world \<Rightarrow> compaction_result \<Rightarrow> agent_session \<Rightarrow> agent_session option" where
  "apply_to_session env w r s =
     (case apply_compaction w (sv_dc env) r (as_sd s) of
        (sd, None) \<Rightarrow> None
      | (sd, Some ctx) \<Rightarrow>
          Some (set_messages (sc_messages ctx)
                  (with_store sd (s\<lparr>as_sections := reset_sections (as_sections s)\<rparr>))))"

definition compaction_stats :: "session_env \<Rightarrow> compaction_settings \<Rightarrow> agent_session \<Rightarrow> (nat \<times> go_int) option option" where
  "compaction_stats env cfg s =
     map_option (\<lambda>path. map_option (\<lambda>p. (length (pr_messages p), pr_tokens_before p))
         (prepare_compaction (sv_args_len env) (sv_regexes env) (sv_dc env) path cfg))
       (get_branch (fst (as_sd s)) [])"

definition runner_compaction ::
  "session_env \<Rightarrow> compaction_settings \<Rightarrow> world \<Rightarrow> string \<Rightarrow> agent_session
     \<Rightarrow> ((compaction_error + compaction_result) \<times> agent_session) option" where
  "runner_compaction env cfg w custom s =
     (case ag_model (as_agent s) of
        None \<Rightarrow> Some (Inl NoModelSelected, s)
      | Some md \<Rightarrow>
          if sv_api_key env md = [] \<and> \<not> sv_keyless env (md_provider md)
          then Some (Inl (NoApiKey (sv_key_error env (md_provider md))), s)
          else (case get_branch (fst (as_sd s)) [] of
              None \<Rightarrow> None
            | Some path \<Rightarrow>
                (case prepare_compaction (sv_args_len env) (sv_regexes env) (sv_dc env) path cfg of
                   None \<Rightarrow>
                     Some (Inl (if path \<noteq> [] \<and> e_type (last path) = ''compaction''
                                then AlreadyCompacted else NothingToCompact), s)
                 | Some p \<Rightarrow>
                     (case compact (sv_texts env) (sv_regexes env) (sv_ask env) p custom of
                        Inl e \<Rightarrow> Some (Inl (SummaryFailed e), s)
                      | Inr r \<Rightarrow> map_option (\<lambda>s'. (Inr r, s')) (apply_to_session env w r s)))))"

definition run_compaction ::
  "session_env \<Rightarrow> world \<Rightarrow> string \<Rightarrow> agent_session
     \<Rightarrow> ((compaction_error + compaction_result) \<times> agent_session) option" where
  "run_compaction env w custom s =
     (case sv_compaction env of
        None \<Rightarrow> Some (Inl NotConfigured, s)
      | Some cfg \<Rightarrow> runner_compaction env cfg w custom s)"

subsection \<open>Pending work\<close>

definition has_pending_work :: "agent_state \<Rightarrow> bool" where
  "has_pending_work a \<longleftrightarrow>
     ag_pending a \<noteq> []
     \<or> (ag_messages a \<noteq> [] \<and> agent_role (last (ag_messages a)) \<in> {''user'', ''toolResult''})"

text \<open>The trailing error responses that an overflow retry strips.\<close>

fun is_error_response :: "agent_message \<Rightarrow> bool" where
  "is_error_response (Msg (MAssistant a)) = (am_stop a = StopError)"
| "is_error_response _ = False"

definition strip_errors :: "agent_message list \<Rightarrow> agent_message list" where
  "strip_errors ms = rev (dropWhile is_error_response (rev ms))"

subsection \<open>Automatic compaction\<close>

datatype auto_outcome =
    NotNeeded
  | AutoFailed compaction_error
  | AutoDone compaction_result bool

text \<open>
  \<^verbatim>\<open>runAutoCompaction\<close>; the flag of \<open>AutoDone\<close> tells whether the agent is told to go on, with the
  messages the state then holds.
\<close>

definition run_auto_compaction ::
  "session_env \<Rightarrow> compaction_settings \<Rightarrow> world \<Rightarrow> bool \<Rightarrow> agent_session
     \<Rightarrow> (auto_outcome \<times> agent_session) option" where
  "run_auto_compaction env cfg w will_retry s =
     (case runner_compaction env cfg w [] s of
        None \<Rightarrow> None
      | Some (Inl e, s') \<Rightarrow> Some (AutoFailed e, s')
      | Some (Inr r, s') \<Rightarrow>
          let ms = (if will_retry then strip_errors (memory s') else memory s')
          in if has_pending_work ((as_agent s')\<lparr>ag_messages := ms\<rparr>)
             then Some (AutoDone r True, set_messages ms s')
             else Some (AutoDone r False, s'))"

definition error_before_compaction :: "session_env \<Rightarrow> session_entry list \<Rightarrow> assistant_msg \<Rightarrow> bool" where
  "error_before_compaction env path a =
     (case get_latest_compaction_entry path of
        None \<Rightarrow> False
      | Some c \<Rightarrow>
          (case sv_parse_time env (e_timestamp c) of
             None \<Rightarrow> False
           | Some t \<Rightarrow> am_timestamp a < t))"

definition drop_last_response :: "agent_message list \<Rightarrow> agent_message list" where
  "drop_last_response ms = (if ms \<noteq> [] \<and> agent_role (last ms) = ''assistant'' then butlast ms else ms)"

definition check_auto_compaction ::
  "session_env \<Rightarrow> world \<Rightarrow> assistant_msg \<Rightarrow> agent_session \<Rightarrow> (auto_outcome \<times> agent_session) option" where
  "check_auto_compaction env w a s =
     (case (sv_compaction env, ag_model (as_agent s)) of
        (Some cfg, Some md) \<Rightarrow>
          if am_stop a = StopAborted then Some (NotNeeded, s)
          else (case get_branch (fst (as_sd s)) [] of
              None \<Rightarrow> None
            | Some path \<Rightarrow>
                if am_provider a = md_provider md \<and> am_model a = md_id md
                   \<and> \<not> error_before_compaction env path a \<and> sv_overflow env a (sm_window md)
                then (if \<not> cp_enabled cfg then Some (NotNeeded, s)
                      else run_auto_compaction env cfg w True
                             (set_messages (drop_last_response (memory s)) s))
                else if am_stop a = StopError then Some (NotNeeded, s)
                else if should_compact (calculate_context_tokens (am_usage a)) (sm_window md) cfg
                then run_auto_compaction env cfg w False s
                else Some (NotNeeded, s))
      | _ \<Rightarrow> Some (NotNeeded, s))"

end
