(* ===== verification/AgentSession.thy ===== *)
theory AgentSession
  imports SessionSettings AutoCompaction SessionOpen
begin

text \<open>
  The operations of an agent session (\<^verbatim>\<open>pkg/session/agentsession.go\<close>) that tie its parts
  together: the transcript, the messages the agent holds in memory, the plan, the sections and the
  settings. Where an operation appends several entries, each is appended in a world of its own.

  Moving an agent session to another place (\<^verbatim>\<open>pkg/session/agentsession.go\<close>): another entry of the
  tree, a new transcript, another transcript. Each rebuilds the agent's messages from the transcript.
\<close>

subsection \<open>Plan\<close>

definition plan_json :: "json list \<Rightarrow> json" where
  "plan_json es = (if es = [] then JNull else JArr es)"

definition update_plan ::
  "world \<Rightarrow> string \<Rightarrow> json list \<Rightarrow> (string \<times> string) list \<Rightarrow> agent_session \<Rightarrow> agent_session" where
  "update_plan w title entries metadata s =
     with_store (append_plan_update w title (Some (plan_json entries)) metadata (as_sd s))
       (s\<lparr>as_plan := \<lparr>pl_title = title, pl_entries = entries, pl_metadata = metadata,
                      pl_version = pl_version (as_plan s) + 1\<rparr>\<rparr>)"

definition restore_plan :: "session_context \<Rightarrow> agent_session \<Rightarrow> agent_session" where
  "restore_plan ctx s =
     (if sc_plan ctx = [] \<and> sc_plan_title ctx = [] then s
      else s\<lparr>as_plan := (as_plan s)\<lparr>pl_title := sc_plan_title ctx, pl_entries := sc_plan ctx,
                                       pl_metadata := sc_plan_metadata ctx\<rparr>\<rparr>)"

definition entry_completed :: "json \<Rightarrow> bool" where
  "entry_completed j = (case j of JObj ms \<Rightarrow> get_str ms ''status'' = Some ''completed'' | _ \<Rightarrow> False)"

definition all_plan_entries_completed :: "json list \<Rightarrow> bool" where
  "all_plan_entries_completed es \<longleftrightarrow> es \<noteq> [] \<and> list_all entry_completed es"

text \<open>
  What \<^verbatim>\<open>Prompt\<close> does to the plan before the turn, with whether a plan was there and its version, and
  after it.
\<close>

definition plan_before_turn :: "world \<Rightarrow> agent_session \<Rightarrow> agent_session \<times> bool \<times> nat" where
  "plan_before_turn w s =
     (let es = pl_entries (as_plan s)
      in if es \<noteq> [] \<and> all_plan_entries_completed es
         then (let s' = update_plan w [] [] [] s in (s', False, pl_version (as_plan s')))
         else (s, es \<noteq> [], pl_version (as_plan s)))"

definition plan_after_turn :: "world \<Rightarrow> bool \<Rightarrow> nat \<Rightarrow> agent_session \<Rightarrow> agent_session" where
  "plan_after_turn w had version s =
     (if had \<and> pl_version (as_plan s) = version then update_plan w [] [] [] s else s)"

subsection \<open>Messages\<close>

definition persist_message :: "session_env \<Rightarrow> world \<Rightarrow> agent_message \<Rightarrow> store_disk \<Rightarrow> store_disk" where
  "persist_message env w m sd =
     (case m of
        Msg msg \<Rightarrow>
          if role_of msg \<in> {''user'', ''assistant'', ''toolResult''}
          then append_message w (Some (sv_encode env msg)) sd else sd
      | Custom (CustomMsg cm) \<Rightarrow> append_custom_entry w (cm_custom_type cm) (Some (cm_content cm)) sd
      | Custom c \<Rightarrow> sd)"

fun user_string :: "agent_message \<Rightarrow> string option" where
  "user_string (Msg (MUser u)) = (case um_content u of JStr t \<Rightarrow> Some t | _ \<Rightarrow> None)"
| "user_string m = None"

definition prepend_delivered :: "agent_message \<Rightarrow> string list \<Rightarrow> string list" where
  "prepend_delivered m texts =
     (case m of Msg (MUser u) \<Rightarrow> removeAll (the_default [] (user_string m)) texts | _ \<Rightarrow> texts)"

fun assistant_of :: "agent_message \<Rightarrow> assistant_msg option" where
  "assistant_of (Msg (MAssistant a)) = Some a"
| "assistant_of m = None"

text \<open>\<^verbatim>\<open>handleAgentEvent\<close> on \<^verbatim>\<open>message_end\<close> and on \<^verbatim>\<open>agent_end\<close>.\<close>

definition on_message_end :: "session_env \<Rightarrow> world \<Rightarrow> agent_message \<Rightarrow> agent_session \<Rightarrow> agent_session" where
  "on_message_end env w m s =
     (with_store (persist_message env w m (as_sd s)) s)
       \<lparr>as_in_flight := prepend_delivered m (as_in_flight s),
        as_last := (if agent_role m = ''assistant'' then assistant_of m else as_last s)\<rparr>"

definition on_agent_end ::
  "session_env \<Rightarrow> world \<Rightarrow> agent_session \<Rightarrow> (auto_outcome \<times> agent_session) option" where
  "on_agent_end env w s =
     (let s1 = s\<lparr>as_in_flight := [], as_last := None\<rparr>
      in map_option (\<lambda>(out, s2). (out, save_state env w s2))
           (case as_last s of
              None \<Rightarrow> Some (NotNeeded, s1)
            | Some a \<Rightarrow> check_auto_compaction env w a s1))"

text \<open>
  \<^verbatim>\<open>PrependContext\<close>. During a run the agent holds the message; otherwise it is in the agent's
  messages at once, and persisted.
\<close>

definition sys_ext_text :: "string \<Rightarrow> string" where
  "sys_ext_text content = ''[SYS_EXT]'' @ nl @ content @ nl @ ''[/SYS_EXT]''"

definition prepend_context ::
  "session_env \<Rightarrow> world \<Rightarrow> int \<Rightarrow> bool \<Rightarrow> string \<Rightarrow> agent_session \<Rightarrow> agent_session" where
  "prepend_context env w now running content s =
     (let t = sys_ext_text content;
          a = as_agent s;
          dup = (\<lambda>m. user_string m = Some t);
          msg = user_text t now
      in if content = [] \<or> t \<in> set (as_in_flight s) \<or> list_ex dup (ag_messages a) \<or> list_ex dup (ag_held a)
         then s
         else if running
         then s\<lparr>as_agent := a\<lparr>ag_held := ag_held a @ [Msg msg]\<rparr>, as_in_flight := t # as_in_flight s\<rparr>
         else with_store (append_message w (Some (sv_encode env msg)) (as_sd s))
                (set_messages (ag_messages a @ [Msg msg]) s))"

definition record_bash :: "session_env \<Rightarrow> world \<Rightarrow> bash_execution \<Rightarrow> agent_session \<Rightarrow> agent_session" where
  "record_bash env w b s =
     with_store (append_message w (Some (sv_encode_bash env b)) (as_sd s))
       (set_messages (memory s @ [Custom (Bash b)]) s)"

text \<open>The follow-up queue: the texts shown, and taking one message out.\<close>

definition queued_texts :: "agent_message list \<Rightarrow> string list" where
  "queued_texts q = filter (\<lambda>t. t \<noteq> []) (List.map_filter user_string q)"

definition clear_follow_up_queue :: "agent_message list \<Rightarrow> string list \<times> agent_message list" where
  "clear_follow_up_queue q = (queued_texts q, [])"

definition remove_follow_up :: "nat \<Rightarrow> agent_message list \<Rightarrow> string option \<times> agent_message list" where
  "remove_follow_up one_based q =
     (if one_based = 0 \<or> one_based > length q then (None, q)
      else (user_string (q ! (one_based - 1)), take (one_based - 1) q @ drop one_based q))"

subsection \<open>Settings\<close>

record endpoint_correction =
  ec_callable :: "bool option"
  ec_base_url :: string
  ec_api :: string

definition adjust_model_endpoint ::
  "(session_model \<Rightarrow> endpoint_correction option) option \<Rightarrow> session_model \<Rightarrow> session_model \<times> bool" where
  "adjust_model_endpoint hook md =
     (case Option.bind hook (\<lambda>h. h md) of
        None \<Rightarrow> (md, True)
      | Some c \<Rightarrow>
          if ec_callable c = Some False then (md, False)
          else (md\<lparr>sm_base_url := (if ec_base_url c \<noteq> [] then ec_base_url c else sm_base_url md),
                   md_api := (if ec_api c \<noteq> [] then ec_api c else md_api md)\<rparr>, True))"

definition set_model ::
  "session_env \<Rightarrow> world \<Rightarrow> (session_model \<Rightarrow> endpoint_correction option) option \<Rightarrow> session_model
     \<Rightarrow> agent_session \<Rightarrow> agent_session \<times> bool" where
  "set_model env w hook md s =
     (case adjust_model_endpoint hook md of
        (md', False) \<Rightarrow> (s, False)
      | (md', True) \<Rightarrow>
          (update_session_state env w (set_conversation (\<lambda>c. c\<lparr>cv_model := model_ref md'\<rparr>))
             (with_store (append_model_change w (md_provider md') (md_id md') (as_sd s))
                (s\<lparr>as_agent := (as_agent s)\<lparr>ag_model := Some md'\<rparr>\<rparr>)), True))"

definition set_thinking_level :: "session_env \<Rightarrow> world \<Rightarrow> string \<Rightarrow> agent_session \<Rightarrow> agent_session" where
  "set_thinking_level env w level s =
     update_session_state env w (set_conversation (\<lambda>c. c\<lparr>cv_thinking := level\<rparr>))
       (with_store (append_thinking_level_change w level (as_sd s))
          (s\<lparr>as_agent := (as_agent s)\<lparr>ag_thinking := level\<rparr>\<rparr>))"

definition set_session_name :: "session_env \<Rightarrow> world \<Rightarrow> string \<Rightarrow> agent_session \<Rightarrow> agent_session" where
  "set_session_name env w name s =
     update_session_state env w (set_conversation (\<lambda>c. c\<lparr>cv_name := name\<rparr>))
       (with_store (append_session_info w name (as_sd s)) s)"

definition record_command :: "world \<Rightarrow> string \<Rightarrow> string \<Rightarrow> agent_session \<Rightarrow> agent_session" where
  "record_command w command args s = with_store (append_command_entry w command args (as_sd s)) s"


subsection \<open>Text for the editor\<close>

definition text_block_of :: "json \<Rightarrow> string option" where
  "text_block_of j = do {
     ms \<leftarrow> object_members j;
     ty \<leftarrow> fill_str [] (field_vals ''type'' ms);
     t \<leftarrow> fill_str [] (field_vals ''text'' ms);
     Some (if ty = ''text'' then t else [])
   }"

fun all_some :: "'a option list \<Rightarrow> 'a list option" where
  "all_some [] = Some []"
| "all_some (None # xs) = None"
| "all_some (Some x # xs) = map_option (\<lambda>ys. x # ys) (all_some xs)"

definition extract_user_message_text :: "json option \<Rightarrow> string" where
  "extract_user_message_text raw =
     (case Option.bind raw object_members of
        None \<Rightarrow> []
      | Some ms \<Rightarrow>
          (case fill_str [] (field_vals ''content'' ms) of
             Some (c # cs) \<Rightarrow> c # cs
           | _ \<Rightarrow>
               (case fill_raw (field_vals ''content'' ms) of
                  Some (JStr t) \<Rightarrow> t
                | Some (JArr js) \<Rightarrow>
                    (case all_some (map text_block_of js) of None \<Rightarrow> [] | Some ts \<Rightarrow> concat ts)
                | _ \<Rightarrow> [])))"

subsection \<open>Another entry\<close>

text \<open>\<open>w\<close> is the world the summary entry is appended in; \<open>None\<close> is a context that is never built.\<close>

definition navigate_tree ::
  "session_env \<Rightarrow> world \<Rightarrow> entry_id \<Rightarrow> bool \<Rightarrow> agent_session \<Rightarrow> (string \<times> agent_session) option" where
  "navigate_tree env w target with_summary s =
     (let leaf = ss_leaf (fst (as_sd s))
      in if target = leaf then Some ([], s)
         else
           let sd1 = (if with_summary then branch_with_summary w leaf [] None False (as_sd s) else as_sd s);
               sd2 = branch target sd1
           in case build_session_context (sv_dc env) (fst sd2) of
                None \<Rightarrow> None
              | Some ctx \<Rightarrow>
                  let s1 = with_store sd2 (s\<lparr>as_sections := reset_sections (as_sections s)\<rparr>);
                      s2 = restore_plan ctx (set_messages (sc_messages ctx) s1)
                  in Some (case get_entry (fst sd2) target of
                         None \<Rightarrow> []
                       | Some e \<Rightarrow> if e_type e = ''message'' then extract_user_message_text (e_message e) else [],
                       s2))"

subsection \<open>A new transcript\<close>

definition new_session_cmd :: "session_env \<Rightarrow> (nat \<Rightarrow> world) \<Rightarrow> agent_session \<Rightarrow> agent_session" where
  "new_session_cmd env ws s =
     (let s1 = with_store (new_session (ws 0) None (as_sd s))
                 (s\<lparr>as_sections := reset_sections (as_sections s)\<rparr>);
          s2 = update_plan (ws 1) [] [] [] (set_messages [] s1);
          s3 = sync_conversation (update_state (set_conversation (\<lambda>_. no_conversation)) s2)
      in save_state env (ws 2) s3)"

subsection \<open>Another transcript\<close>

text \<open>
  A transcript that another owner holds by a handle is forked first. The lists of worlds are those of
  the fork and of the opening, and bound how often these call each other.
\<close>

definition owned_elsewhere ::
  "session_env \<Rightarrow> path \<Rightarrow> session_state option \<Rightarrow> agent_session \<Rightarrow> disk \<Rightarrow> bool" where
  "owned_elsewhere env p saved s d \<longleftrightarrow>
     (case saved of
        None \<Rightarrow> False
      | Some st \<Rightarrow>
          let h = rt_handle (se_runtime st)
          in h \<noteq> [] \<and> h \<noteq> rt_handle (se_runtime (as_state s))
             \<and> resolve_handle (sv_hash env) (sv_agent_dir env) h d (as_handles s) = p)"

definition switch_target ::
  "session_env \<Rightarrow> world list \<Rightarrow> path \<Rightarrow> agent_session \<Rightarrow> (disk \<times> (store_error + path \<times> bool)) option" where
  "switch_target env wl p s =
     (case (wl, as_sd s) of
        ([], _) \<Rightarrow> None
      | (w # _, (ss, d)) \<Rightarrow>
       (case load_state w p d of (d1, saved) \<Rightarrow>
         if owned_elsewhere env p saved s d1 \<and> ss_dir ss \<noteq> [] then
           (case fork_from wl p (ss_cwd ss) (ss_dir ss) d1 of
              None \<Rightarrow> None
            | Some (d2, Inl e) \<Rightarrow> Some (d2, Inl e)
            | Some (d2, Inr fs) \<Rightarrow> Some (snd (close_store (fs, d2)), Inr (ss_file fs, True)))
         else Some (d1, Inr (p, False))))"

definition adopt_context :: "session_env \<Rightarrow> session_context \<Rightarrow> agent_session \<Rightarrow> agent_session" where
  "adopt_context env ctx s =
     (let a = as_agent s;
          md = Option.bind (sc_model ctx) (\<lambda>(provider, i). sv_find_model env provider i);
          a' = a\<lparr>ag_messages := sc_messages ctx,
                 ag_model := (if md \<noteq> None then md else ag_model a),
                 ag_thinking := (if sc_thinking ctx \<noteq> [] then sc_thinking ctx else ag_thinking a)\<rparr>
      in restore_plan ctx (s\<lparr>as_agent := a', as_sections := reset_sections (as_sections s)\<rparr>))"

definition switch_session ::
  "session_env \<Rightarrow> world list \<Rightarrow> world list \<Rightarrow> (nat \<Rightarrow> world) \<Rightarrow> string \<Rightarrow> path \<Rightarrow> agent_session
     \<Rightarrow> ((store_error + bool) \<times> agent_session) option" where
  "switch_session env wl wo wr cwd p s =
     (case switch_target env wl p s of
        None \<Rightarrow> None
      | Some (d, Inl e) \<Rightarrow> Some (Inl e, s\<lparr>as_sd := (fst (as_sd s), d)\<rparr>)
      | Some (d, Inr (q, owned)) \<Rightarrow>
          (case set_session_file wo q (fst (as_sd s), d) of
             None \<Rightarrow> None
           | Some (sd, forked) \<Rightarrow>
               (case build_session_context (sv_dc env) (fst sd) of
                  None \<Rightarrow> None
                | Some ctx \<Rightarrow>
                    let s1 = adopt_context env ctx (s\<lparr>as_sd := sd\<rparr>);
                        s2 = update_state (set_conversation (\<lambda>_. no_conversation)) s1
                    in Some (Inr (forked \<or> owned),
                         restore_state env wr cwd True (\<lambda>st. st) False False s2))))"

end
