(* ===== verification/MemoryRun.thy ===== *)
theory MemoryRun
  imports AgentSession ContextFacts
begin

text \<open>
  What relates the messages an agent holds in memory to the transcript: where a store stands on a
  branch, how appends and moves change the messages of that branch, and that the repair of tool calls
  may be done in parts.

  Runs of an agent session over a persisted transcript, as an inductive predicate, and the invariant
  that ties what the agent holds in memory to the branch the transcript stands on.
\<close>

subsection \<open>Repairing in parts\<close>

fun live_turn :: "agent_message \<Rightarrow> bool" where
  "live_turn (Msg (MAssistant a)) = (\<not> failed_stop a)"
| "live_turn m = True"

abbreviation live_view :: "agent_message list \<Rightarrow> agent_message list" where
  "live_view ms \<equiv> filter live_turn (synthesize_interrupted_tool_results ms)"

definition open_ids :: "agent_message list \<Rightarrow> string set" where
  "open_ids ms = (\<Union>m \<in> set ms. set (live_calls m))"

lemma open_ids_simps [simp]:
  "open_ids [] = {}" "open_ids (m # ms) = set (live_calls m) \<union> open_ids ms"
  "open_ids (xs @ ys) = open_ids xs \<union> open_ids ys"
  by (auto simp: open_ids_def)

text \<open>The pass asks of the answered ids only whether the calls of live turns are among them.\<close>

lemma synthesize_calls_cong:
  "\<forall>i \<in> tc_id ` set tcs. i \<in> set x \<longleftrightarrow> i \<in> set y \<Longrightarrow>
     fst (synthesize_calls x ts tcs) = fst (synthesize_calls y ts tcs)"
proof (induction tcs arbitrary: x y)
  case (Cons tc tcs)
  have "\<forall>i \<in> tc_id ` set tcs. i \<in> set (tc_id tc # x) \<longleftrightarrow> i \<in> set (tc_id tc # y)"
    using Cons.prems by auto
  from Cons.IH [OF this] Cons.IH [of x y] Cons.prems show ?case
    by (auto simp: case_prod_beta)
qed simp

lemma synthesize_pass_cong:
  "\<forall>i \<in> open_ids ms. i \<in> set x \<longleftrightarrow> i \<in> set y \<Longrightarrow> synthesize_pass x ms = synthesize_pass y ms"
proof (induction x ms arbitrary: y rule: synthesize_pass.induct)
  case (2 x a ms)
  show ?case
  proof (cases "failed_stop a")
    case True
    with 2 show ?thesis by simp
  next
    case False
    let ?c = "\<lambda>z. synthesize_calls z (am_timestamp a) (tool_calls_of (am_content a))"
    have c: "fst (?c x) = fst (?c y)"
      using "2.prems" False by (intro synthesize_calls_cong) auto
    have "\<forall>i \<in> open_ids ms. i \<in> set (snd (?c x)) \<longleftrightarrow> i \<in> set (snd (?c y))"
      using "2.prems" by (auto simp: synthesize_calls_ids)
    then have "synthesize_pass (snd (?c x)) ms = synthesize_pass (snd (?c y)) ms"
      by (rule "2.IH"(2) [OF False prod.collapse])
    with False c show ?thesis by (simp add: case_prod_beta)
  qed
qed auto

lemma synthesize_pass_append:
  "set z = set x \<union> open_ids xs \<Longrightarrow> synthesize_pass x (xs @ ys) = synthesize_pass x xs @ synthesize_pass z ys"
proof (induction x xs arbitrary: z rule: synthesize_pass.induct)
  case (1 x)
  then show ?case using synthesize_pass_cong [of ys x z] by simp
next
  case (2 x a ms)
  show ?case
  proof (cases "failed_stop a")
    case True
    with 2 show ?thesis by simp
  next
    case False
    let ?c = "synthesize_calls x (am_timestamp a) (tool_calls_of (am_content a))"
    have "set z = set (snd ?c) \<union> open_ids ms"
      using "2.prems" False synthesize_calls_ids [of x "am_timestamp a" "tool_calls_of (am_content a)"] by auto
    from "2.IH"(2) [OF False prod.collapse this] False show ?thesis
      by (simp add: case_prod_beta)
  qed
qed auto

lemma synthesize_is_pass: "synthesize_interrupted_tool_results ms = synthesize_pass (answered_ids ms) ms"
  by (simp add: synthesize_interrupted_tool_results_def)

lemma synthesized_live: "m \<in> set (fst (synthesize_calls x ts tcs)) \<Longrightarrow> live_turn m"
  by (induction x ts tcs rule: synthesize_calls.induct)
    (auto simp: case_prod_beta new_interrupted_tool_result_def split: if_splits)

lemma open_ids_none: "(\<And>m. m \<in> set ms \<Longrightarrow> live_calls m = []) \<Longrightarrow> open_ids ms = {}"
  by (auto simp: open_ids_def)

lemma open_synthesized: "synthesize_calls x ts tcs = (out, z) \<Longrightarrow> open_ids out = {}"
  using synthesize_calls_live [of _ x ts tcs] by (intro open_ids_none) simp

lemma open_pass [simp]: "open_ids (synthesize_pass x ms) = open_ids ms"
  by (induction x ms rule: synthesize_pass.induct) (auto split: prod.split simp: open_synthesized)

lemma answered_pass:
  "set x \<union> set (answered_ids (synthesize_pass x ms)) = set x \<union> set (answered_ids ms) \<union> open_ids ms"
proof (induction x ms rule: synthesize_pass.induct)
  case (2 x a ms)
  show ?case
  proof (cases "failed_stop a")
    case True
    with 2 show ?thesis by auto
  next
    case False
    let ?c = "synthesize_calls x (am_timestamp a) (tool_calls_of (am_content a))"
    have "set (snd ?c) \<union> set (answered_ids (synthesize_pass (snd ?c) ms))
        = set (snd ?c) \<union> set (answered_ids ms) \<union> open_ids ms"
      by (rule "2.IH"(2) [OF False prod.collapse])
    with False show ?thesis
      by (auto simp: case_prod_beta synthesize_calls_ids synthesize_calls_answers)
  qed
qed auto

lemma answered_synthesized:
  "set (answered_ids (synthesize_interrupted_tool_results ms)) = set (answered_ids ms) \<union> open_ids ms"
  using answered_pass [of "answered_ids ms" ms] answered_ids_mono [of ms "answered_ids ms"]
  by (auto simp: synthesize_is_pass)

lemma synthesize_in_parts:
  assumes "set (answered_ids b) \<inter> set (answered_ids (synthesize_interrupted_tool_results a)) = {}"
  shows "synthesize_interrupted_tool_results (synthesize_interrupted_tool_results a @ b)
    = synthesize_interrupted_tool_results (a @ b)"
proof -
  let ?s = "synthesize_interrupted_tool_results a"
  let ?z = "answered_ids ?s @ answered_ids b"
  have o: "open_ids ?s = open_ids a" by (simp add: synthesize_is_pass)
  have "synthesize_pass (answered_ids ?s @ answered_ids b) (?s @ b)
      = synthesize_pass (answered_ids ?s @ answered_ids b) ?s @ synthesize_pass ?z b"
    by (rule synthesize_pass_append) (auto simp: o answered_synthesized)
  moreover have "synthesize_pass (answered_ids ?s @ answered_ids b) ?s = ?s"
    using synthesize_all_answered [of a] by (intro synthesize_pass_id) (auto simp: all_answered_def)
  moreover have "synthesize_pass (answered_ids a @ answered_ids b) (a @ b)
      = synthesize_pass (answered_ids a @ answered_ids b) a @ synthesize_pass ?z b"
    by (rule synthesize_pass_append) (auto simp: answered_synthesized)
  moreover have "synthesize_pass (answered_ids a @ answered_ids b) a = ?s"
    unfolding synthesize_is_pass by (rule synthesize_pass_cong)
      (use assms in \<open>auto simp: answered_synthesized\<close>)
  ultimately show ?thesis by (simp add: synthesize_is_pass [of "?s @ b"] synthesize_is_pass [of "a @ b"])
qed

text \<open>Failed turns take no part in the repair, and a provider drops them anyway.\<close>

lemma answered_live [simp]: "answered_ids (filter live_turn ms) = answered_ids ms"
  by (induction ms rule: answered_ids.induct) (auto split: agent_message.split)

lemma filter_synthesized: "synthesize_calls x ts tcs = (out, z) \<Longrightarrow> filter live_turn out = out"
  using synthesized_live [of _ x ts tcs] by (intro filter_True) simp

lemma filter_pass: "filter live_turn (synthesize_pass x ms) = synthesize_pass x (filter live_turn ms)"
  by (induction x ms rule: synthesize_pass.induct) (auto split: prod.split simp: filter_synthesized)

lemma live_view_filter: "live_view ms = synthesize_interrupted_tool_results (filter live_turn ms)"
  by (simp add: synthesize_is_pass filter_pass)

lemma live_view_in_parts:
  assumes "filter live_turn ms = filter live_turn (synthesize_interrupted_tool_results a @ b)"
    and "set (answered_ids b) \<inter> set (answered_ids (synthesize_interrupted_tool_results a)) = {}"
  shows "live_view ms = live_view (a @ b)"
proof -
  have "live_view ms = live_view (synthesize_interrupted_tool_results a @ b)"
    using assms(1) by (simp only: live_view_filter)
  with synthesize_in_parts [OF assms(2)] show ?thesis by simp
qed


subsection \<open>Where a store stands\<close>

definition stands :: "session_store \<Rightarrow> session_entry list \<Rightarrow> bool" where
  "stands ss path \<longleftrightarrow>
     store_inv ss \<and> get_branch ss [] = Some path \<and> (ss_leaf ss = [] \<longrightarrow> ss_entries ss = [] \<and> path = [])"

definition transcript_messages :: "decoders \<Rightarrow> session_entry list \<Rightarrow> agent_message list" where
  "transcript_messages dc path = path_messages dc path (sn_compaction (scan_path path))"

lemma context_transcript:
  "sc_messages (context_of_path dc path) = synthesize_interrupted_tool_results (transcript_messages dc path)"
  by (simp add: context_of_path_def Let_def transcript_messages_def)

lemma stands_context:
  assumes "stands ss path"
  shows "\<exists>ctx. build_session_context dc ss = Some ctx
    \<and> sc_messages ctx = synthesize_interrupted_tool_results (transcript_messages dc path)"
proof (cases "ss_leaf ss = []")
  case True
  with assms have "ss_entries ss = []" "path = []" by (simp_all add: stands_def)
  then show ?thesis
    using True by (simp add: build_session_context_def build_session_context_from_entries_def off_context_def
        transcript_messages_def scan_path_def start_scan_def path_messages_def
        synthesize_interrupted_tool_results_def)
next
  case False
  with assms obtain l where l: "ss_by_id ss (ss_leaf ss) = Some l"
    using store_inv_leaf by (auto simp: stands_def)
  with build_context_leaf [of ss "ss_leaf ss" l dc] assms False
  have "build_session_context dc ss = Some (context_of_path dc path)"
    by (auto simp: stands_def get_branch_def build_session_context_def)
  then show ?thesis by (simp add: context_transcript)
qed

lemma stands_append:
  assumes st: "stands (fst sd) path" and fresh: "fresh_world w (fst sd)"
    and e: "e_id e = generate_id w (fst sd)" "e_parent e = ss_leaf (fst sd)" "e_type e \<noteq> ''label''"
  shows "stands (fst (append_entry w e sd)) (path @ [e])"
proof -
  let ?ss = "fst sd" let ?ss' = "fst (append_entry w e sd)"
  have inv: "store_inv ?ss" using st by (simp add: stands_def)
  have id: "e_id e \<noteq> []" "ss_by_id ?ss (e_id e) = None"
    using generate_id_fresh [OF fresh] by (simp_all add: e(1))
  have get: "ss_by_id ?ss' = (ss_by_id ?ss)(e_id e \<mapsto> e)" "ss_leaf ?ss' = e_id e"
    by (simp_all add: frame_simps)
  have "ascend (ss_by_id ?ss') e_parent [] e [] = Some (path @ [e])"
  proof (cases "ss_leaf ?ss = []")
    case True
    with st have "path = []" by (simp add: stands_def)
    with True e(2) show ?thesis by (simp add: ascend.simps [of _ e_parent "[]" e "[]"])
  next
    case False
    with branch_of_append [OF inv False _ e(2) id get(1)] st show ?thesis by (simp add: stands_def)
  qed
  then have "get_branch ?ss' [] = Some (path @ [e])" by (simp add: get_branch_def get)
  moreover have "store_inv ?ss'" by (rule append_entry_inv [OF inv fresh e])
  ultimately show ?thesis using id(1) by (simp add: stands_def get)
qed

lemma stands_branch:
  assumes "store_inv ss" and "ss_by_id ss target = Some e" and "target \<noteq> []"
  shows "\<exists>path. stands (ss\<lparr>ss_leaf := target\<rparr>) path"
proof -
  let ?ss = "ss\<lparr>ss_leaf := target\<rparr>"
  have inv: "store_inv ?ss"
    using branch_inv [of "(ss, undefined)" target] assms by (simp add: branch_def)
  have "ss_by_id ?ss target = Some e" using assms(2) by simp
  from get_branch_some [OF inv this assms(3)] obtain path where "get_branch ?ss target = Some path" by blast
  with inv assms(3) show ?thesis by (auto simp: stands_def get_branch_def)
qed

subsection \<open>Appending to the messages\<close>

lemma compaction_index_append:
  "compaction_index (xs @ ys) i n
     = (case compaction_index xs i n of Some k \<Rightarrow> Some k | None \<Rightarrow> compaction_index ys i (n + length xs))"
  by (induction xs arbitrary: n) (auto split: option.split)

lemma compaction_index_range: "compaction_index xs i n = Some k \<Longrightarrow> n \<le> k \<and> k < n + length xs"
  by (induction xs arbitrary: n) (auto split: if_splits dest!: Suc_leD, fastforce+)

lemma compaction_index_mem:
  "c \<in> set xs \<Longrightarrow> e_type c = ''compaction'' \<Longrightarrow> compaction_index xs (e_id c) n \<noteq> None"
  by (induction xs arbitrary: n) auto

lemma scan_compaction_mem:
  "sn_compaction (fold scan_entry path s) = Some c \<Longrightarrow>
     c \<in> set path \<and> e_type c = ''compaction'' \<or> sn_compaction s = Some c"
  by (induction path arbitrary: s) (fastforce simp: scan_entry_compaction split: if_splits)+

lemma transcript_snoc:
  assumes "e_type e \<noteq> ''compaction''"
  shows "transcript_messages dc (path @ [e]) = transcript_messages dc path @ entry_messages dc e"
proof (cases "sn_compaction (scan_path path)")
  case None
  then show ?thesis
    using assms by (simp add: transcript_messages_def scan_path_def scan_entry_compaction path_messages_def)
next
  case (Some c)
  then have c: "c \<in> set path" "e_type c = ''compaction''"
    using scan_compaction_mem [of path start_scan c] by (auto simp: scan_path_def start_scan_def)
  then obtain k where k: "compaction_index path (e_id c) 0 = Some k"
    using compaction_index_mem [OF c] by blast
  with compaction_index_range [OF k] Some assms show ?thesis
    by (simp add: transcript_messages_def scan_path_def scan_entry_compaction path_messages_def
        compaction_index_append)
qed

subsection \<open>The invariant\<close>

text \<open>
  The messages of the branch are those the memory was last built from, \<open>a\<close>, and those that came
  since, \<open>b\<close>, which answer no call of \<open>a\<close>; failed turns apart, the memory holds \<open>a\<close> repaired and \<open>b\<close>.
\<close>

definition recalls :: "agent_message list \<Rightarrow> agent_message list \<Rightarrow> bool" where
  "recalls mem ts \<longleftrightarrow>
     (\<exists>a b. ts = a @ b
        \<and> filter live_turn mem = filter live_turn (synthesize_interrupted_tool_results a @ b)
        \<and> set (answered_ids b) \<inter> set (answered_ids (synthesize_interrupted_tool_results a)) = {})"

definition in_step :: "session_env \<Rightarrow> agent_session \<Rightarrow> bool" where
  "in_step env s \<longleftrightarrow>
     session_ok (as_sd s)
     \<and> (\<exists>path. stands (fst (as_sd s)) path \<and> recalls (memory s) (transcript_messages (sv_dc env) path))"

lemma recalls_view: "recalls mem ts \<Longrightarrow> live_view mem = live_view ts"
  unfolding recalls_def using live_view_in_parts by blast

lemma recalls_rebuilt:
  "filter live_turn mem = filter live_turn (synthesize_interrupted_tool_results ts) \<Longrightarrow> recalls mem ts"
  unfolding recalls_def by (intro exI [of _ ts] exI [of _ "[]"]) simp

lemma recalls_snoc:
  assumes "recalls mem ts" and "\<forall>i \<in> set (answered_ids [m]). i \<notin> set (answered_ids mem)"
  shows "recalls (mem @ [m]) (ts @ [m])"
proof -
  from assms(1) obtain a b where ab: "ts = a @ b"
      "filter live_turn mem = filter live_turn (synthesize_interrupted_tool_results a @ b)"
      "set (answered_ids b) \<inter> set (answered_ids (synthesize_interrupted_tool_results a)) = {}"
    unfolding recalls_def by blast
  have "answered_ids mem = answered_ids (filter live_turn mem)" by simp
  then have "answered_ids mem = answered_ids (synthesize_interrupted_tool_results a) @ answered_ids b"
    by (simp only: ab(2) answered_live answered_ids_append)
  with assms(2) ab show ?thesis
    unfolding recalls_def by (intro exI [of _ a] exI [of _ "b @ [m]"]) auto
qed

lemma recalls_filter: "filter live_turn mem = filter live_turn mem' \<Longrightarrow> recalls mem ts = recalls mem' ts"
  by (simp add: recalls_def)

definition quiet_types :: "string set" where
  "quiet_types = {''thinking_level_change'', ''model_change'', ''custom'', ''session_info'',
     ''plan_update'', ''command''}"

text \<open>One entry appended: none that is a message, or a message the memory has too.\<close>

lemma in_step_append:
  assumes s: "in_step env s" and w: "ready w (as_sd s)"
    and e: "e_id e = generate_id w (fst (as_sd s))" "e_parent e = ss_leaf (fst (as_sd s))" "storable_entry e"
    and t: "e_type e \<in> insert ''message'' quiet_types"
    and sd: "as_sd s' = append_entry w e (as_sd s)"
    and mem: "memory s' = memory s @ entry_messages (sv_dc env) e"
    and new: "\<forall>i \<in> set (answered_ids (entry_messages (sv_dc env) e)). i \<notin> set (answered_ids (memory s))"
  shows "in_step env s'"
proof -
  obtain path where p: "stands (fst (as_sd s)) path"
      "recalls (memory s) (transcript_messages (sv_dc env) path)"
    using s by (auto simp: in_step_def)
  have ty: "e_type e \<noteq> ''label''" "e_type e \<noteq> ''compaction''" using t by (auto simp: quiet_types_def)
  have "entry_messages (sv_dc env) e = [] \<or> (\<exists>m. entry_messages (sv_dc env) e = [m])"
    by (auto simp: entry_messages_def split: option.split)
  then have "recalls (memory s') (transcript_messages (sv_dc env) (path @ [e]))"
    using p(2) new recalls_snoc [OF p(2)] by (auto simp: transcript_snoc [OF ty(2)] mem)
  moreover have "stands (fst (as_sd s')) (path @ [e])"
    unfolding sd by (rule stands_append [OF p(1) _ e(1,2) ty(1)]) (use w in \<open>simp add: ready_def\<close>)
  moreover have "session_ok (as_sd s')"
    unfolding sd by (rule append_next) (use s w e ty in \<open>auto simp: in_step_def\<close>)
  ultimately show ?thesis unfolding in_step_def by blast
qed

lemma quiet_entry: "e_type e \<in> quiet_types \<Longrightarrow> entry_messages dc e = []"
  by (auto simp: entry_messages_def quiet_types_def)

text \<open>Saving the settings touches neither the transcript nor the memory.\<close>

lemma write_state_files:
  "d_files (fst (write_state w file v d)) p = d_files d p"
  if "p \<noteq> state_path file" and "p \<noteq> legacy_state_path file"
proof -
  have m: "d_files (migrate_legacy_state w file d) p = d_files d p"
    using that by (auto simp: migrate_legacy_state_def append_record_def remove_file_def set_file_def Let_def
        split: option.split list.split disk_line.split)
  show ?thesis
    using that m
    by (auto simp: write_state_def append_state_def read_history_def append_record_def compact_history_def
        set_file_def Let_def split: option.split)
qed

lemma save_state_frame:
  "fst (as_sd (save_state env w s)) = fst (as_sd s)" "as_agent (save_state env w s) = as_agent s"
  "as_plan (save_state env w s) = as_plan s" "as_sections (save_state env w s) = as_sections s"
  "as_state (save_state env w s) = as_state s"
  by (auto simp: save_state_def Let_def split: prod.split option.split)

lemma save_state_file:
  "d_files (snd (as_sd (save_state env w s))) (ss_file (fst (as_sd s)))
     = d_files (snd (as_sd s)) (ss_file (fst (as_sd s)))"
proof -
  let ?f = "ss_file (fst (as_sd s))"
  have "d_files (fst (write_state w ?f (json_of_state (as_state s)) (snd (as_sd s)))) ?f
      = d_files (snd (as_sd s)) ?f" if "?f \<noteq> []"
    by (rule write_state_files) (use that in \<open>auto simp: state_path_def legacy_state_path_def\<close>)
  then show ?thesis
    by (auto simp: save_state_def Let_def split: prod.split option.split dest!: arg_cong [of _ _ fst])
qed

lemma save_state_session_ok: "session_ok (as_sd s) \<Longrightarrow> session_ok (as_sd (save_state env w s))"
  using save_state_file [of env w s] save_state_frame(1) [of env w s]
  by (auto simp: session_ok_def persisted_def mirrored_def)

lemma in_step_save: "in_step env s \<Longrightarrow> in_step env (save_state env w s)"
  using save_state_session_ok [of s env w] save_state_frame [of env w s] by (auto simp: in_step_def)

end
