(* ===== verification/AgentSamples.thy ===== *)
theory AgentSamples
  imports AgentSession FactProps
begin

text \<open>
  A concrete environment and fresh session: the inputs at which the properties of agent sessions are applied.
\<close>

definition hello :: message where
  "hello = user_text ''hello'' 1"

definition sample_call :: tool_call where
  "sample_call = \<lparr>tc_id = ''t1'', tc_name = ''bash'', tc_args = [], tc_sig = []\<rparr>"

definition calling :: assistant_msg where
  "calling = \<lparr>am_content = [CToolCall sample_call], am_api = ''api'', am_provider = ''p'', am_model = ''m'',
     am_usage = \<lparr>u_total = 900, u_input = 0, u_output = 0, u_cache_read = 0, u_cache_write = 0\<rparr>,
     am_stop = StopToolUse, am_timestamp = 2\<rparr>"

definition sample_env :: session_env where
  "sample_env =
     \<lparr>sv_dc = \<lparr>dc_message = (\<lambda>j. if j = JStr ''u'' then Some hello
                 else if j = JStr ''a'' then Some (MAssistant calling) else None),
               dc_plan = (\<lambda>_. []), dc_time = (\<lambda>_. 0)\<rparr>,
      sv_encode = (\<lambda>m. if m = hello then JStr ''u'' else JStr ''a''),
      sv_encode_bash = (\<lambda>_. JStr ''b''), sv_args_len = (\<lambda>_. 2), sv_regexes = no_regexes,
      sv_texts = sample_texts, sv_ask = (\<lambda>_. Inr ''sum''), sv_compaction = Some default_compaction_settings,
      sv_overflow = (\<lambda>_ _. False), sv_api_key = (\<lambda>_. ''k''), sv_keyless = (\<lambda>_. False),
      sv_key_error = (\<lambda>_. []), sv_find_model = (\<lambda>_ _. None), sv_parse_time = (\<lambda>_. None),
      sv_agent_dir = [], sv_hash = (\<lambda>x. x)\<rparr>"

definition fresh_session :: "store_disk \<Rightarrow> agent_session" where
  "fresh_session sd =
     \<lparr>as_sd = sd,
      as_agent = \<lparr>ag_messages = [], ag_pending = [], ag_model = None, ag_thinking = [], ag_held = []\<rparr>,
      as_sections = new_section_tracker,
      as_plan = \<lparr>pl_title = [], pl_entries = [], pl_metadata = [], pl_version = 0\<rparr>, as_last = None,
      as_in_flight = [], as_state = \<lparr>se_runtime = no_runtime, se_conversation = no_conversation\<rparr>,
      as_closed = False, as_handles = Map.empty\<rparr>"

lemma fresh_session_fields [simp]:
  "as_sd (fresh_session sd) = sd" "memory (fresh_session sd) = []"
  by (simp_all add: fresh_session_def)

end
