(* ===== verification/MemoryProps.thy ===== *)
theory MemoryProps
  imports MemoryRun AgentSamples
begin

text \<open>
  The running session and its transcript agree: whatever an agent session does, the conversation it
  holds in memory is the one a process that opens its transcript is shown. And where they come apart:
  what is not persisted in a form that is read back, and an answer dropped for a compaction that fails.
\<close>

subsection \<open>Runs\<close>

definition reads_back :: "session_env \<Rightarrow> message \<Rightarrow> bool" where
  "reads_back env m \<longleftrightarrow> dc_message (sv_dc env) (sv_encode env m) = Some m"

text \<open>What the agent emits: user and assistant messages, and one result per call.\<close>

fun emitted :: "agent_message list \<Rightarrow> message \<Rightarrow> bool" where
  "emitted mem (MToolResult tr) = (tr_call_id tr \<notin> set (answered_ids mem))"
| "emitted mem (MOther r) = False"
| "emitted mem m = True"

definition ends_failed :: "agent_message list \<Rightarrow> bool" where
  "ends_failed ms \<longleftrightarrow>
     (ms \<noteq> [] \<and> agent_role (last ms) = ''assistant'' \<longrightarrow> \<not> live_turn (last ms))"

inductive agent_run :: "session_env \<Rightarrow> agent_session \<Rightarrow> bool" for env where
  start: "startable w dir d \<Longrightarrow> as_sd s = new_session_store w cwd dir d \<Longrightarrow> memory s = [] \<Longrightarrow> agent_run env s"
| message: "agent_run env s \<Longrightarrow> ready w (as_sd s) \<Longrightarrow> reads_back env m \<Longrightarrow> emitted (memory s) m \<Longrightarrow>
     agent_run env (on_message_end env w (Msg m) (set_messages (memory s @ [Msg m]) s))"
| injected: "agent_run env s \<Longrightarrow> ready w (as_sd s) \<Longrightarrow>
     reads_back env (user_text (sys_ext_text content) now) \<Longrightarrow>
     agent_run env (prepend_context env w now running content s)"
| plan: "agent_run env s \<Longrightarrow> ready w (as_sd s) \<Longrightarrow> distinct (map fst metadata) \<Longrightarrow>
     agent_run env (update_plan w title entries metadata s)"
| model: "agent_run env s \<Longrightarrow> ready w (as_sd s) \<Longrightarrow> agent_run env (fst (set_model env w hook md s))"
| thinking: "agent_run env s \<Longrightarrow> ready w (as_sd s) \<Longrightarrow> agent_run env (set_thinking_level env w level s)"
| name: "agent_run env s \<Longrightarrow> ready w (as_sd s) \<Longrightarrow> agent_run env (set_session_name env w nm s)"
| command: "agent_run env s \<Longrightarrow> ready w (as_sd s) \<Longrightarrow> agent_run env (record_command w cmd args s)"
| compact: "agent_run env s \<Longrightarrow> ready w (as_sd s) \<Longrightarrow> run_compaction env w custom s = Some (out, s') \<Longrightarrow>
     (\<forall>r. out = Inr r \<longrightarrow> int_in_range (cr_tokens_before r)) \<Longrightarrow> agent_run env s'"
| finish: "agent_run env s \<Longrightarrow> ready w (as_sd s) \<Longrightarrow> on_agent_end env w s = Some (out, s') \<Longrightarrow>
     (\<forall>r b. out = AutoDone r b \<longrightarrow> int_in_range (cr_tokens_before r)) \<Longrightarrow>
     (\<forall>e. out = AutoFailed e \<longrightarrow> memory s' = memory s \<or> ends_failed (memory s)) \<Longrightarrow> agent_run env s'"
| navigate: "agent_run env s \<Longrightarrow> ready w (as_sd s) \<Longrightarrow> target \<noteq> [] \<Longrightarrow>
     ss_by_id (fst (as_sd s)) target \<noteq> None \<Longrightarrow>
     navigate_tree env w target with_summary s = Some (t, s') \<Longrightarrow> agent_run env s'"

subsection \<open>Each operation keeps memory and transcript in step\<close>

lemma in_step_quiet:
  assumes "in_step env s" and "ready w (as_sd s)"
    and "e_id e = generate_id w (fst (as_sd s))" "e_parent e = ss_leaf (fst (as_sd s))" "storable_entry e"
    and "e_type e \<in> quiet_types" and "as_sd s' = append_entry w e (as_sd s)" and "memory s' = memory s"
  shows "in_step env s'"
  by (rule in_step_append [OF assms(1-5) _ assms(7)]) (use assms in \<open>simp_all add: quiet_entry\<close>)

lemma append_message_in_step:
  assumes "in_step env s" and "ready w (as_sd s)" and "reads_back env m" and "emitted (memory s) m"
    and "as_sd s' = append_message w (Some (sv_encode env m)) (as_sd s)" and "memory s' = memory s @ [Msg m]"
  shows "in_step env s'"
proof -
  let ?e = "(next_entry w ''message'' (fst (as_sd s)))\<lparr>e_message := Some (sv_encode env m)\<rparr>"
  have "entry_messages (sv_dc env) ?e = [Msg m]"
    using assms(3) by (simp add: entry_messages_def reads_back_def)
  moreover have "\<forall>i \<in> set (answered_ids [Msg m]). i \<notin> set (answered_ids (memory s))"
    using assms(4) by (cases m) auto
  ultimately show ?thesis
    using assms by (intro in_step_append [OF assms(1,2), of ?e])
      (auto simp: append_message_def storable_defs)
qed

lemma in_step_frame:
  "in_step env s \<Longrightarrow> as_sd s' = as_sd s \<Longrightarrow> memory s' = memory s \<Longrightarrow> in_step env s'"
  by (simp add: in_step_def)

lemma start_in_step:
  assumes "startable w dir d" and "as_sd s = new_session_store w cwd dir d" and "memory s = []"
  shows "in_step env s"
proof -
  have ok: "session_ok (as_sd s)" unfolding assms(2) by (rule new_session_store_keeps [OF assms(1)])
  have "ss_entries (fst (as_sd s)) = [] \<and> ss_leaf (fst (as_sd s)) = [] \<and> ss_by_id (fst (as_sd s)) = Map.empty"
    unfolding assms(2) using assms(1)
    by (simp add: startable_def new_session_store_def new_session_def Let_def write_header_only_def
        frame_simps blank_store_def close_store_def split: prod.split)
  then have "stands (fst (as_sd s)) []" using ok by (simp add: stands_def session_ok_def get_branch_def)
  moreover have "recalls (memory s) (transcript_messages (sv_dc env) [])"
    by (rule recalls_rebuilt) (simp add: assms(3) transcript_messages_def scan_path_def start_scan_def
        path_messages_def synthesize_interrupted_tool_results_def)
  ultimately show ?thesis using ok unfolding in_step_def by blast
qed

lemma apply_in_step:
  assumes ok: "session_ok (as_sd s)" and st: "stands (fst (as_sd s)) path" and w: "ready w (as_sd s)"
    and r: "int_in_range (cr_tokens_before r)" and a: "apply_to_session env w r s = Some s'"
  shows "in_step env s'"
proof -
  define c where "c = (next_entry w ''compaction'' (fst (as_sd s)))
      \<lparr>e_summary := cr_summary r, e_first_kept := cr_first_kept r, e_tokens_before := cr_tokens_before r,
       e_details := Some (json_of_details (cr_details r)), e_from_hook := False\<rparr>"
  define sd where "sd = append_compaction w (cr_summary r) (cr_first_kept r) (cr_tokens_before r)
      (Some (json_of_details (cr_details r))) False (as_sd s)"
  have sd: "sd = append_entry w c (as_sd s)" by (simp add: sd_def append_compaction_def c_def)
  have "session_ok sd"
    unfolding sd_def by (rule session_step_keeps [OF session_step.compaction [OF w r] ok])
  moreover have st': "stands (fst sd) (path @ [c])"
    unfolding sd by (rule stands_append [OF st]) (use w in \<open>simp_all add: ready_def c_def\<close>)
  moreover from stands_context [OF st', of "sv_dc env"] obtain ctx where
    "build_session_context (sv_dc env) (fst sd) = Some ctx"
    "sc_messages ctx = synthesize_interrupted_tool_results (transcript_messages (sv_dc env) (path @ [c]))" by blast
  ultimately show ?thesis
    using a by (auto simp: apply_to_session_def apply_compaction_def Let_def sd_def [symmetric] in_step_def
        intro!: exI [of _ "path @ [c]"] recalls_rebuilt)
qed

lemma runner_in_step:
  assumes "session_ok (as_sd s)" and "stands (fst (as_sd s)) path" and "ready w (as_sd s)"
    and "int_in_range (cr_tokens_before r)" and "runner_compaction env cfg w custom s = Some (Inr r, s')"
  shows "in_step env s'"
  using assms(5) apply_in_step [OF assms(1-4)]
  by (auto simp: runner_compaction_def split: option.splits if_splits sum.splits)

lemma runner_failed: "runner_compaction env cfg w custom s = Some (Inl e, s') \<Longrightarrow> s' = s"
  by (auto simp: runner_compaction_def split: option.splits if_splits sum.splits)

lemma filter_strip_errors: "filter live_turn (strip_errors ms) = filter live_turn ms"
proof -
  have e: "is_error_response m \<Longrightarrow> \<not> live_turn m" for m
    by (cases m rule: is_error_response.cases) (auto simp: failed_stop_def)
  have "filter live_turn (dropWhile is_error_response xs) = filter live_turn xs" for xs
    by (induction xs) (auto dest: e)
  from this [of "rev ms"] show ?thesis unfolding strip_errors_def by (metis rev_filter rev_rev_ident)
qed

lemma in_step_filter:
  assumes "in_step env s" and "as_sd s' = as_sd s" and "filter live_turn (memory s') = filter live_turn (memory s)"
  shows "in_step env s'"
  using assms recalls_filter [OF assms(3)] by (auto simp: in_step_def)

lemma auto_in_step:
  assumes "session_ok (as_sd s)" and "stands (fst (as_sd s)) path" and "ready w (as_sd s)"
    and r: "\<forall>r b. out = AutoDone r b \<longrightarrow> int_in_range (cr_tokens_before r)"
    and a: "run_auto_compaction env cfg w retry s = Some (out, s')"
  shows "(\<exists>e. out = AutoFailed e \<and> s' = s) \<or> in_step env s'"
proof (cases "runner_compaction env cfg w [] s")
  case None
  with a show ?thesis by (simp add: run_auto_compaction_def)
next
  case (Some x)
  obtain res s1 where x: "x = (res, s1)" by (cases x)
  show ?thesis
  proof (cases res)
    case (Inl e)
    then show ?thesis using a Some x runner_failed [of env cfg w "[]" s e s1] by (auto simp: run_auto_compaction_def)
  next
    case (Inr c)
    have "\<exists>b. out = AutoDone c b" using a Some x Inr
      by (auto simp: run_auto_compaction_def Let_def split: if_splits)
    with r have "int_in_range (cr_tokens_before c)" by blast
    from runner_in_step [OF assms(1-3) this] Some x Inr have s1: "in_step env s1" by blast
    have "in_step env (set_messages (strip_errors (memory s1)) s1)"
      by (rule in_step_filter [OF s1]) (simp_all add: filter_strip_errors)
    moreover have "in_step env (set_messages (memory s1) s1)" by (rule in_step_frame [OF s1]) simp_all
    ultimately show ?thesis
      using a Some x Inr s1 by (auto simp: run_auto_compaction_def Let_def split: if_splits)
  qed
qed

lemma check_in_step:
  assumes s: "in_step env s" and w: "ready w (as_sd s)"
    and r: "\<forall>r b. out = AutoDone r b \<longrightarrow> int_in_range (cr_tokens_before r)"
    and f: "\<forall>e. out = AutoFailed e \<longrightarrow> memory s' = memory s \<or> ends_failed (memory s)"
    and c: "check_auto_compaction env w a s = Some (out, s')"
  shows "in_step env s'"
proof -
  obtain path where st: "session_ok (as_sd s)" "stands (fst (as_sd s)) path" using s by (auto simp: in_step_def)
  let ?d = "set_messages (drop_last_response (memory s)) s"
  have d: "session_ok (as_sd ?d)" "stands (fst (as_sd ?d)) path" "ready w (as_sd ?d)" using st w by simp_all
  have drop: "ends_failed ms \<Longrightarrow> filter live_turn (drop_last_response ms) = filter live_turn ms" for ms
    by (induction ms rule: rev_induct) (auto simp: ends_failed_def drop_last_response_def)
  have "s' = s \<or> (\<exists>cfg. run_auto_compaction env cfg w True ?d = Some (out, s'))
      \<or> (\<exists>cfg. run_auto_compaction env cfg w False s = Some (out, s'))"
    using c by (auto simp: check_auto_compaction_def split: option.splits if_splits)
  then consider "s' = s" | cfg where "run_auto_compaction env cfg w True ?d = Some (out, s')"
    | cfg where "run_auto_compaction env cfg w False s = Some (out, s')" by blast
  then show ?thesis
  proof cases
    case 1
    with s show ?thesis by simp
  next
    case 2
    from auto_in_step [OF d r 2] show ?thesis
    proof
      assume "\<exists>e. out = AutoFailed e \<and> s' = ?d"
      with f have "s' = ?d" "memory s' = memory s \<or> ends_failed (memory s)" by auto
      then show ?thesis using drop by (intro in_step_filter [OF s]) auto
    qed
  next
    case 3
    from auto_in_step [OF st w r 3] s show ?thesis by auto
  qed
qed

lemma navigate_in_step:
  assumes s: "in_step env s" and w: "ready w (as_sd s)" and t: "target \<noteq> []"
    and e: "ss_by_id (fst (as_sd s)) target \<noteq> None"
    and n: "navigate_tree env w target with_summary s = Some (txt, s')"
  shows "in_step env s'"
proof (cases "target = ss_leaf (fst (as_sd s))")
  case True
  with n s show ?thesis by (simp add: navigate_tree_def)
next
  case False
  let ?leaf = "ss_leaf (fst (as_sd s))"
  define sd1 where "sd1 = (if with_summary then branch_with_summary w ?leaf [] None False (as_sd s) else as_sd s)"
  have ok: "session_ok (as_sd s)" using s by (simp add: in_step_def)
  have leaf: "?leaf = [] \<or> ss_by_id (fst (as_sd s)) ?leaf \<noteq> None"
    using ok store_inv_leaf [of "fst (as_sd s)"] by (auto simp: session_ok_def)
  have ok1: "session_ok sd1"
    unfolding sd1_def using ok session_step_keeps [OF session_step.branch_summary [OF w leaf] ok] by simp
  have known: "ss_by_id (fst sd1) target \<noteq> None"
    using e by (simp add: sd1_def branch_with_summary_def case_prod_beta frame_simps)
  have ok2: "session_ok (branch target sd1)"
    by (rule session_step_keeps [OF session_step.branch ok1]) (use known in simp)
  obtain path where st: "stands (fst (branch target sd1)) path"
    using stands_branch [of "fst sd1" target] known t ok1 by (auto simp: branch_def session_ok_def)
  from stands_context [OF st, of "sv_dc env"] obtain ctx where ctx:
    "build_session_context (sv_dc env) (fst (branch target sd1)) = Some ctx"
    "sc_messages ctx = synthesize_interrupted_tool_results (transcript_messages (sv_dc env) path)" by blast
  have "as_sd s' = branch target sd1 \<and> memory s' = sc_messages ctx"
    using n False ctx(1) by (auto simp: navigate_tree_def Let_def sd1_def [symmetric] restore_plan_def)
  then show ?thesis
    using ok2 st ctx(2) unfolding in_step_def by (auto intro!: exI [of _ path] recalls_rebuilt)
qed

lemma run_in_step: "agent_run env s \<Longrightarrow> in_step env s"
proof (induction rule: agent_run.induct)
  case (start w dir d s cwd)
  then show ?case by (intro start_in_step)
next
  case (message s w m)
  show ?case
    by (rule append_message_in_step [OF message.IH message.hyps(2-4)])
      (use message.hyps(4) in \<open>cases m; simp add: on_message_end_def persist_message_def\<close>)+
next
  case (injected s w content now running)
  show ?case
  proof (cases "as_sd (prepend_context env w now running content s) = as_sd s
      \<and> memory (prepend_context env w now running content s) = memory s")
    case True
    with injected.IH show ?thesis by (intro in_step_frame [OF injected.IH]) simp_all
  next
    case False
    then show ?thesis
      by (intro append_message_in_step [OF injected.IH injected.hyps(2,3)])
        (auto simp: prepend_context_def Let_def user_text_def split: if_splits)
  qed
next
  case (compact s w custom out s')
  obtain path where st: "session_ok (as_sd s)" "stands (fst (as_sd s)) path"
    using compact.IH by (auto simp: in_step_def)
  show ?case
  proof (cases out)
    case (Inl e)
    with compact show ?thesis by (auto simp: run_compaction_def split: option.splits dest!: runner_failed)
  next
    case (Inr r)
    with compact runner_in_step [OF st compact.hyps(2)] show ?thesis
      by (auto simp: run_compaction_def split: option.splits)
  qed
next
  case (finish s w out s')
  let ?s = "s\<lparr>as_in_flight := [], as_last := None\<rparr>"
  have s: "in_step env ?s" by (rule in_step_frame [OF finish.IH]) simp_all
  obtain s2 where s2: "s' = save_state env w s2"
      "(out = NotNeeded \<and> s2 = ?s) \<or> (\<exists>a. check_auto_compaction env w a ?s = Some (out, s2))"
    using finish.hyps(3) by (auto simp: on_agent_end_def Let_def split: option.splits)
  have "in_step env s2"
    using s2(2) s finish.hyps(2,4,5) save_state_frame(2) [of env w s2] check_in_step [OF s]
    by (auto simp: s2(1))
  then show ?case unfolding s2(1) by (rule in_step_save)
next
  case (navigate s w target with_summary t s')
  then show ?case by (intro navigate_in_step [OF navigate.IH navigate.hyps(2-5)])
next
  case (model s w hook md)
  show ?case
  proof (cases "snd (adjust_model_endpoint hook md)")
    case True
    obtain md' where md: "adjust_model_endpoint hook md = (md', True)" using True by (metis prod.collapse)
    show ?thesis
      by (simp add: set_model_def md update_session_state_def, rule in_step_save,
          rule in_step_quiet [OF model.IH model.hyps(2)])
        (simp_all add: update_state_def append_model_change_def storable_defs quiet_types_def)
  next
    case False
    then show ?thesis using model.IH by (simp add: set_model_def case_prod_beta)
  qed
next
  case (thinking s w level)
  show ?case
    unfolding set_thinking_level_def update_session_state_def
    by (rule in_step_save, rule in_step_quiet [OF thinking.IH thinking.hyps(2)])
      (simp_all add: update_state_def append_thinking_level_change_def storable_defs quiet_types_def)
next
  case (name s w nm)
  show ?case
    unfolding set_session_name_def update_session_state_def
    by (rule in_step_save, rule in_step_quiet [OF name.IH name.hyps(2)])
      (simp_all add: update_state_def append_session_info_def storable_defs quiet_types_def)
next
  case (plan s w metadata title entries)
  show ?case
    by (rule in_step_quiet [OF plan.IH plan.hyps(2)])
      (use plan.hyps(3) in \<open>simp_all add: update_plan_def append_plan_update_def storable_defs quiet_types_def\<close>)
next
  case (command s w cmd args)
  show ?case
    by (rule in_step_quiet [OF command.IH command.hyps(2)])
      (simp_all add: record_command_def append_command_entry_def storable_defs quiet_types_def)
qed


subsection \<open>A run\<close>

definition heard :: "session_env \<Rightarrow> agent_session \<Rightarrow> agent_session" where
  "heard env s = on_message_end env (sample_world CHR ''a'') (Msg hello) (set_messages (memory s @ [Msg hello]) s)"

definition asked :: "session_env \<Rightarrow> agent_session \<Rightarrow> agent_session" where
  "asked env s = on_message_end env (sample_world CHR ''b'') (Msg (MAssistant calling))
     (set_messages (memory (heard env s) @ [Msg (MAssistant calling)]) (heard env s))"

definition sampled :: "session_env \<Rightarrow> agent_session \<Rightarrow> bool" where
  "sampled env s \<longleftrightarrow> sv_dc env = sv_dc sample_env \<and> sv_encode env = sv_encode sample_env
     \<and> as_sd s = sample_start \<and> memory s = []"

lemma heard_fields:
  assumes "sampled env s"
  shows "memory (heard env s) = [Msg hello]"
    and "as_sd (heard env s) = append_message (sample_world CHR ''a'') (Some (JStr ''u'')) sample_start"
  using assms
  by (simp_all add: sampled_def heard_def on_message_end_def persist_message_def hello_def user_text_def sample_env_def)

lemma asked_memory: "sampled env s \<Longrightarrow> memory (asked env s) = [Msg hello, Msg (MAssistant calling)]"
  by (simp add: asked_def on_message_end_def heard_fields)

lemma sampled_run:
  assumes "sampled env s"
  shows "agent_run env s"
  by (rule agent_run.start [OF sample_startable, where cwd = "''/repo''"])
    (use assms in \<open>simp_all add: sampled_def sample_start_def\<close>)

lemma hello_reads_back: "sampled env s \<Longrightarrow> reads_back env hello"
  by (simp add: reads_back_def sampled_def sample_env_def hello_def user_text_def)

lemma heard_run:
  assumes "sampled env s"
  shows "agent_run env (heard env s)"
  unfolding heard_def
  by (rule agent_run.message [OF sampled_run [OF assms] _ hello_reads_back [OF assms]])
    (use assms in \<open>simp_all add: ready_def sample_fresh sample_start_store sampled_def hello_def user_text_def\<close>)

lemma heard_ready:
  "sampled env s \<Longrightarrow> c \<noteq> CHR ''a'' \<Longrightarrow> ready (sample_world c) (as_sd (heard env s))"
  by (simp add: ready_def heard_fields append_message_def frame_simps sample_start_store sample_fresh
      next_entry_def zero_entry_def sample_generate_id)

lemma asked_run:
  assumes "sampled env s"
  shows "agent_run env (asked env s)"
  unfolding asked_def
  by (rule agent_run.message [OF heard_run [OF assms] heard_ready [OF assms]])
    (use assms in \<open>simp_all add: reads_back_def sampled_def sample_env_def hello_def user_text_def\<close>)

lemma sampled_fresh: "sampled sample_env (fresh_session sample_start)"
  by (simp add: sampled_def)


subsection \<open>What is injected is injected once\<close>

lemma view_has: "m \<in> set ms \<Longrightarrow> live_turn m \<Longrightarrow> m \<in> set (live_view ms)"
  using orphan_repair.repair_keeps_mem [of m ms] by simp

lemma injected_present:
  "list_ex (\<lambda>m. user_string m = Some (sys_ext_text content)) (memory s) \<Longrightarrow> prepend_context env w now running content s = s"
  by (simp add: prepend_context_def Let_def)

text \<open>
  context that an extension injects enters a conversation once: injecting the same text again, in
  this process or in one that opened the transcript later, changes nothing.
\<close>

theorem injected_once:
  assumes run: "agent_run env s" and w: "ready w (as_sd s)" and content: "content \<noteq> []"
    and rb: "reads_back env (user_text (sys_ext_text content) now)"
    and idle: "sys_ext_text content \<notin> set (as_in_flight s)"
      "\<not> list_ex (\<lambda>m. user_string m = Some (sys_ext_text content)) (ag_held (as_agent s))"
    and s': "s' = prepend_context env w now False content s"
  shows "prepend_context env w2 now2 running content s' = s'
    \<and> (\<exists>ctx. build_session_context (sv_dc env) (fst (as_sd s')) = Some ctx
        \<and> (\<forall>s2. memory s2 = sc_messages ctx \<longrightarrow> prepend_context env w2 now2 running content s2 = s2))"
proof -
  let ?dup = "\<lambda>m. user_string m = Some (sys_ext_text content)"
  have "list_ex ?dup (memory s')"
    using content idle by (auto simp: s' prepend_context_def Let_def user_text_def)
  then obtain m where m: "m \<in> set (memory s')" "?dup m" by (auto simp: list_ex_iff)
  have live: "live_turn m" using m(2) by (cases m rule: live_turn.cases) auto
  have "agent_run env s'" unfolding s' by (rule agent_run.injected [OF run w rb])
  from run_in_step [OF this] obtain path where p: "stands (fst (as_sd s')) path"
    "recalls (memory s') (transcript_messages (sv_dc env) path)" by (auto simp: in_step_def)
  from stands_context [OF p(1), of "sv_dc env"] obtain ctx where ctx:
    "build_session_context (sv_dc env) (fst (as_sd s')) = Some ctx"
    "sc_messages ctx = synthesize_interrupted_tool_results (transcript_messages (sv_dc env) path)" by blast
  have "m \<in> set (sc_messages ctx)"
    using view_has [OF m(1) live] recalls_view [OF p(2)] ctx(2) by auto
  then have "prepend_context env w2 now2 running content s2 = s2" if "memory s2 = sc_messages ctx" for s2
    using that m(2) by (intro injected_present) (auto simp: list_ex_iff)
  moreover have "prepend_context env w2 now2 running content s' = s'"
    using m by (intro injected_present) (auto simp: list_ex_iff)
  ultimately show ?thesis using ctx(1) by blast
qed

definition note_env :: session_env where
  "note_env = sample_env
     \<lparr>sv_dc := (sv_dc sample_env)\<lparr>dc_message := (\<lambda>_. Some (user_text (sys_ext_text ''note'') 5))\<rparr>\<rparr>"

theorem injected_once_witness:
  "\<exists>ctx. build_session_context (sv_dc note_env) (fst (as_sd (prepend_context note_env (sample_world CHR ''c'') 5 False ''note''
        (fresh_session sample_start)))) = Some ctx
     \<and> (\<forall>s2. memory s2 = sc_messages ctx \<longrightarrow> prepend_context note_env (sample_world CHR ''d'') 9 True ''note'' s2 = s2)"
proof -
  let ?s = "fresh_session sample_start"
  have run: "agent_run note_env ?s"
    by (rule agent_run.start [OF sample_startable, where cwd = "''/repo''"]) (simp_all add: sample_start_def)
  have w: "ready (sample_world CHR ''c'') (as_sd ?s)" by (simp add: ready_def sample_fresh sample_start_store)
  have rb: "reads_back note_env (user_text (sys_ext_text ''note'') 5)" by (simp add: reads_back_def note_env_def)
  show ?thesis
    by (rule injected_once [OF run w _ rb _ _ refl, THEN conjunct2]) (simp_all add: fresh_session_def)
qed

subsection \<open>Where memory and transcript part\<close>

text \<open>
  a custom message that an extension delivers into a run is shown to the model, but recorded only
  as an entry no context is built from: the transcript still gives the conversation without it, so
  the next compaction, move in the tree or restart takes it from the model.
\<close>

theorem custom_message_forgotten:
  assumes run: "agent_run env s" and w: "ready w (as_sd s)"
    and s': "s' = on_message_end env w (Custom (CustomMsg cm)) (set_messages (memory s @ [Custom (CustomMsg cm)]) s)"
  shows "convert_to_llm (live_view (memory s'))
      = convert_to_llm (live_view (memory s)) @ [MUser \<lparr>um_content = cm_content cm, um_timestamp = cm_timestamp cm\<rparr>]
    \<and> (\<exists>ctx. build_session_context (sv_dc env) (fst (as_sd s')) = Some ctx
         \<and> convert_to_llm (filter live_turn (sc_messages ctx)) = convert_to_llm (live_view (memory s)))"
proof -
  let ?c = "Custom (CustomMsg cm)"
  have "live_view (memory s @ [?c]) = live_view (memory s) @ [?c]"
  proof -
    have "synthesize_pass (answered_ids (memory s)) (memory s @ [?c])
        = synthesize_pass (answered_ids (memory s)) (memory s)
          @ synthesize_pass (answered_ids (synthesize_interrupted_tool_results (memory s))) [?c]"
      by (rule synthesize_pass_append) (simp add: answered_synthesized)
    then show ?thesis by (simp add: synthesize_is_pass)
  qed
  moreover have "memory s' = memory s @ [?c]" by (simp add: s' on_message_end_def)
  ultimately have view: "live_view (memory s') = live_view (memory s) @ [?c]" by simp
  let ?e = "(next_entry w ''custom'' (fst (as_sd s)))\<lparr>e_custom_type := cm_custom_type cm, e_data := Some (cm_content cm)\<rparr>"
  have "as_sd s' = append_entry w ?e (as_sd s)"
    by (simp add: s' on_message_end_def persist_message_def append_custom_entry_def)
  then have "in_step env (set_messages (memory s) s')"
    by (intro in_step_quiet [OF run_in_step [OF run] w, of ?e]) (simp_all add: storable_defs quiet_types_def)
  then obtain path where p: "stands (fst (as_sd s')) path"
    "recalls (memory s) (transcript_messages (sv_dc env) path)" by (auto simp: in_step_def)
  from stands_context [OF p(1), of "sv_dc env"] recalls_view [OF p(2)] view show ?thesis by auto
qed

theorem custom_message_forgotten_witness:
  "\<exists>s. convert_to_llm (live_view (memory s)) = [hello, user_text ''Stop now'' 3]
     \<and> (\<exists>ctx. build_session_context (sv_dc sample_env) (fst (as_sd s)) = Some ctx
          \<and> convert_to_llm (filter live_turn (sc_messages ctx)) = [hello])"
proof -
  let ?s = "heard sample_env (fresh_session sample_start)"
  let ?cm = "\<lparr>cm_custom_type = ''steer'', cm_content = JStr ''Stop now'', cm_display = True, cm_details = None, cm_timestamp = 3\<rparr>"
  have v: "convert_to_llm (live_view (memory ?s)) = [hello]"
    by (simp add: heard_fields [OF sampled_fresh] synthesize_interrupted_tool_results_def hello_def user_text_def)
  have w: "ready (sample_world CHR ''c'') (as_sd ?s)" by (rule heard_ready [OF sampled_fresh]) simp
  from custom_message_forgotten [OF heard_run [OF sampled_fresh] w refl, of ?cm] v show ?thesis
    by (auto simp: user_text_def)
qed

text \<open>
  A response whose usage tells that the context overflowed is taken out of the memory before
  the compaction is tried; when the compaction then fails, say for want of a key, it is not put
  back: the transcript has the answer, the running conversation goes on without it.
\<close>

theorem failed_overflow_drops_answer:
  assumes run: "agent_run env s" and mem: "memory s = ms @ [Msg (MAssistant a)]" and stop: "\<not> failed_stop a"
    and cfg: "sv_compaction env = Some cfg" "cp_enabled cfg" and md: "ag_model (as_agent s) = Some md"
    and same: "am_provider a = md_provider md" "am_model a = md_id md"
    and over: "sv_overflow env a (sm_window md)"
    and path: "get_branch (fst (as_sd s)) [] = Some path" "\<not> error_before_compaction env path a"
    and fails: "runner_compaction env cfg w [] (set_messages ms s) = Some (Inl e, s1)"
  shows "\<exists>s'. check_auto_compaction env w a s = Some (AutoFailed e, s') \<and> memory s' = ms
    \<and> as_sd s' = as_sd s
    \<and> (\<exists>ctx. build_session_context (sv_dc env) (fst (as_sd s')) = Some ctx
         \<and> Msg (MAssistant a) \<in> set (sc_messages ctx))"
proof -
  have s1: "s1 = set_messages ms s" using runner_failed [OF fails] .
  have "drop_last_response (memory s) = ms" by (simp add: mem drop_last_response_def)
  then have "check_auto_compaction env w a s = Some (AutoFailed e, set_messages ms s)"
    using cfg md same over path fails s1 stop
    by (simp add: check_auto_compaction_def failed_stop_def run_auto_compaction_def)
  moreover from run_in_step [OF run] obtain p where p: "stands (fst (as_sd s)) p"
    "recalls (memory s) (transcript_messages (sv_dc env) p)" by (auto simp: in_step_def)
  from stands_context [OF p(1), of "sv_dc env"] obtain ctx where ctx:
    "build_session_context (sv_dc env) (fst (as_sd s)) = Some ctx"
    "sc_messages ctx = synthesize_interrupted_tool_results (transcript_messages (sv_dc env) p)" by blast
  have "Msg (MAssistant a) \<in> set (live_view (memory s))" by (rule view_has) (simp_all add: mem stop)
  then have "Msg (MAssistant a) \<in> set (sc_messages ctx)" unfolding recalls_view [OF p(2)] ctx(2) by simp
  ultimately show ?thesis using ctx(1) by (intro exI [of _ "set_messages ms s"]) auto
qed

definition overflow_env :: session_env where
  "overflow_env = sample_env\<lparr>sv_overflow := (\<lambda>_ _. True), sv_api_key := (\<lambda>_. [])\<rparr>"

lemma overflow_env_fields:
  "sv_api_key overflow_env md = []" "sv_keyless overflow_env p = False" "sv_key_error overflow_env p = []"
  "sv_compaction overflow_env = Some default_compaction_settings" "sv_overflow overflow_env a n"
  "sv_parse_time overflow_env t = None"
  by (simp_all add: overflow_env_def sample_env_def)

definition with_model :: "session_model \<Rightarrow> agent_session \<Rightarrow> agent_session" where
  "with_model md s = s\<lparr>as_agent := (as_agent s)\<lparr>ag_model := Some md\<rparr>\<rparr>"

definition model_p_m :: session_model where
  "model_p_m = \<lparr>md_id = ''m'', md_provider = ''p'', md_api = ''api'', md_images = False, sm_window = 1000, sm_base_url = []\<rparr>"

theorem failed_overflow_drops_answer_witness:
  "\<exists>s'. check_auto_compaction overflow_env (sample_world CHR ''c'') calling
        (asked overflow_env (with_model model_p_m (fresh_session sample_start))) = Some (AutoFailed (NoApiKey []), s')
     \<and> memory s' = [Msg hello]"
proof -
  let ?base = "with_model model_p_m (fresh_session sample_start)"
  let ?s = "asked overflow_env ?base"
  have sampled: "sampled overflow_env ?base" by (simp add: sampled_def overflow_env_def with_model_def)
  have mem: "memory ?s = [Msg hello] @ [Msg (MAssistant calling)]" by (simp add: asked_memory [OF sampled])
  have md: "ag_model (as_agent ?s) = Some model_p_m"
    by (simp add: asked_def heard_def on_message_end_def with_model_def)
  from run_in_step [OF asked_run [OF sampled]] obtain path where
    path: "get_branch (fst (as_sd ?s)) [] = Some path" by (auto simp: in_step_def stands_def)
  have before: "\<not> error_before_compaction overflow_env path calling"
    by (simp add: error_before_compaction_def overflow_env_fields split: option.split)
  have fails: "runner_compaction overflow_env default_compaction_settings w [] (set_messages ms ?s)
      = Some (Inl (NoApiKey []), set_messages ms ?s)" for w ms
    by (simp add: runner_compaction_def md overflow_env_fields)
  show ?thesis
    using failed_overflow_drops_answer [OF asked_run [OF sampled] mem _ _ _ md _ _ _ path before fails]
    by (auto simp: calling_def failed_stop_def overflow_env_fields default_compaction_settings_def model_p_m_def)
qed

end
