(* ===== verification/AgentProps.thy ===== *)
theory AgentProps
  imports MemoryProps
begin

text \<open>
  The plan of a session, and moving in the tree of its entries.
\<close>

subsection \<open>The plan of a turn\<close>

text \<open>
  A plan outlives the turn it was made in by one turn at most. One that is complete is cleared
  before the next prompt's turn, any other after it, unless that turn updated it; a plan made or
  updated in the turn stays, and every change is recorded in the transcript.
\<close>

theorem plan_of_turn:
  assumes "plan_before_turn w s = (s1, had, version)"
  shows "(as_plan s2 = as_plan s1 \<longrightarrow> pl_entries (as_plan (plan_after_turn w2 had version s2)) = [])
    \<and> (s3 = update_plan w3 title es metadata (s2\<lparr>as_plan := as_plan s1\<rparr>) \<longrightarrow> plan_after_turn w2 had version s3 = s3)
    \<and> (all_plan_entries_completed (pl_entries (as_plan s)) \<longrightarrow>
         pl_entries (as_plan s1) = [] \<and> as_sd s1 = append_plan_update w [] (Some JNull) [] (as_sd s))"
  using assms
  by (auto simp: plan_before_turn_def plan_after_turn_def update_plan_def plan_json_def Let_def
      all_plan_entries_completed_def split: if_splits)

theorem plan_of_turn_witness:
  "pl_entries (as_plan (plan_after_turn (sample_world CHR ''a'') True 3
     ((fresh_session sample_start)\<lparr>as_plan := \<lparr>pl_title = ''Trip'', pl_entries = [JObj [(''status'', JStr ''pending'')]],
        pl_metadata = [], pl_version = 3\<rparr>\<rparr>))) = []"
proof -
  let ?s = "(fresh_session sample_start)\<lparr>as_plan := \<lparr>pl_title = ''Trip'', pl_entries = [JObj [(''status'', JStr ''pending'')]],
        pl_metadata = [], pl_version = 3\<rparr>\<rparr>"
  have "plan_before_turn (sample_world CHR ''a'') ?s = (?s, True, 3)"
    by (simp add: plan_before_turn_def all_plan_entries_completed_def entry_completed_def get_str_def lookup_def)
  from plan_of_turn [OF this, THEN conjunct1] show ?thesis by blast
qed

subsection \<open>Moving in the tree\<close>

text \<open>
  after a move the agent's memory is the context of the entry moved to, and the transcript is
  left as it was. Asked to summarise the branch it leaves, the session appends a summary entry
  without text to it, from which no context takes a message. And a plan that the entry moved to does
  not have stays in memory.
\<close>

theorem navigation_leaves_behind:
  assumes "target \<noteq> ss_leaf (fst (as_sd s))" and n: "navigate_tree env w target with_summary s = Some (t, s')"
  shows "\<exists>ctx. build_session_context (sv_dc env) (fst (as_sd s')) = Some ctx
    \<and> ss_leaf (fst (as_sd s')) = target \<and> memory s' = sc_messages ctx
    \<and> (if with_summary
       then \<exists>e. ss_entries (fst (as_sd s')) = ss_entries (fst (as_sd s)) @ [e] \<and> e_type e = ''branch_summary''
              \<and> e_summary e = [] \<and> entry_messages (sv_dc env) e = []
       else as_sd s' = branch target (as_sd s))
    \<and> (if sc_plan ctx = [] \<and> sc_plan_title ctx = [] then as_plan s' = as_plan s
       else pl_entries (as_plan s') = sc_plan ctx \<and> pl_title (as_plan s') = sc_plan_title ctx)"
proof -
  define sd1 where "sd1 = (if with_summary then branch_with_summary w (ss_leaf (fst (as_sd s))) [] None False (as_sd s) else as_sd s)"
  obtain ctx where ctx: "build_session_context (sv_dc env) (fst (branch target sd1)) = Some ctx"
    "as_sd s' = branch target sd1" "memory s' = sc_messages ctx"
    "as_plan s' = as_plan (restore_plan ctx s)"
    using n assms(1)
    by (auto simp: navigate_tree_def Let_def sd1_def [symmetric] restore_plan_def split: option.splits)
  define e where "e = (next_entry w ''branch_summary'' (fst (as_sd s)))
    \<lparr>e_from_id := ss_leaf (fst (as_sd s)), e_summary := [], e_details := None, e_from_hook := False\<rparr>"
  have e: "e_type e = ''branch_summary''" "e_summary e = []" "entry_messages (sv_dc env) e = []"
    by (simp_all add: e_def entry_messages_def)
  have "ss_entries (fst sd1) = ss_entries (fst (as_sd s)) @ (if with_summary then [e] else [])"
    by (simp add: sd1_def branch_with_summary_def branch_def case_prod_beta frame_simps e_def)
  moreover have "\<not> with_summary \<Longrightarrow> sd1 = as_sd s" by (simp add: sd1_def)
  moreover have "as_plan (restore_plan ctx s) = (if sc_plan ctx = [] \<and> sc_plan_title ctx = [] then as_plan s
      else (as_plan s)\<lparr>pl_title := sc_plan_title ctx, pl_entries := sc_plan ctx, pl_metadata := sc_plan_metadata ctx\<rparr>)"
    by (simp add: restore_plan_def)
  ultimately show ?thesis
    using ctx e by (cases with_summary; intro exI [of _ ctx]) (simp_all add: branch_def)
qed

lemma asked_store:
  assumes "sampled env s"
  shows "ss_leaf (fst (as_sd (asked env s))) = [CHR ''b'', char_of (0::nat)]"
    and "\<exists>e. ss_by_id (fst (as_sd (asked env s))) [CHR ''a'', char_of (0::nat)] = Some e
       \<and> e_id e = [CHR ''a'', char_of (0::nat)] \<and> e_parent e = [] \<and> e_type e = ''message'' \<and> e_message e = Some (JStr ''u'')"
    and "length (ss_entries (fst (as_sd (asked env s)))) = 2"
    and "\<And>i. ss_by_id (fst (as_sd (asked env s))) [CHR ''c'', i] = None"
proof -
  let ?a = "(next_entry (sample_world CHR ''a'') ''message'' (fst sample_start))\<lparr>e_message := Some (JStr ''u'')\<rparr>"
  let ?h = "fst (as_sd (heard env s))"
  have a: "e_id ?a = [CHR ''a'', char_of (0::nat)]" "e_parent ?a = []"
    by (simp_all add: sample_generate_id sample_start_store)
  have h: "ss_by_id ?h = [e_id ?a \<mapsto> ?a]" "ss_entries ?h = [?a]"
    by (simp_all add: heard_fields [OF assms] append_message_def frame_simps sample_start_store)
  have "as_sd (asked env s) = append_message (sample_world CHR ''b'') (Some (sv_encode env (MAssistant calling))) (as_sd (heard env s))"
    by (simp add: asked_def on_message_end_def persist_message_def)
  moreover have "generate_id (sample_world CHR ''b'') ?h = [CHR ''b'', char_of (0::nat)]"
    by (rule sample_generate_id) (simp add: h a)
  ultimately show "ss_leaf (fst (as_sd (asked env s))) = [CHR ''b'', char_of (0::nat)]"
    "\<exists>e. ss_by_id (fst (as_sd (asked env s))) [CHR ''a'', char_of (0::nat)] = Some e
       \<and> e_id e = [CHR ''a'', char_of (0::nat)] \<and> e_parent e = [] \<and> e_type e = ''message'' \<and> e_message e = Some (JStr ''u'')"
    "length (ss_entries (fst (as_sd (asked env s)))) = 2"
    "\<And>i. ss_by_id (fst (as_sd (asked env s))) [CHR ''c'', i] = None"
    using a by (simp_all add: append_message_def frame_simps h)
qed

theorem navigation_leaves_behind_witness:
  "\<exists>t s'. navigate_tree sample_env (sample_world CHR ''c'') [CHR ''a'', char_of (0::nat)] True
        (asked sample_env (fresh_session sample_start)) = Some (t, s')
     \<and> memory s' = [Msg hello] \<and> length (ss_entries (fst (as_sd s'))) = 3"
proof -
  let ?s = "asked sample_env (fresh_session sample_start)" and ?t = "[CHR ''a'', char_of (0::nat)]"
  let ?w = "sample_world CHR ''c''"
  note st = asked_store [OF sampled_fresh]
  from st(2) obtain e where e: "ss_by_id (fst (as_sd ?s)) ?t = Some e" "e_id e = ?t" "e_parent e = []"
    "e_type e = ''message''" "e_message e = Some (JStr ''u'')" by blast
  define sd where "sd = branch ?t (branch_with_summary ?w (ss_leaf (fst (as_sd ?s))) [] None False (as_sd ?s))"
  have "generate_id ?w ((fst (as_sd ?s))\<lparr>ss_leaf := ss_leaf (fst (as_sd ?s))\<rparr>) = [CHR ''c'', char_of (0::nat)]"
    by (rule sample_generate_id) (simp add: st(4))
  then have "ss_by_id (fst sd) ?t = Some e" "ss_leaf (fst sd) = ?t"
    using e(1) by (simp_all add: sd_def branch_with_summary_def branch_def case_prod_beta frame_simps)
  then have "build_session_context (sv_dc sample_env) (fst sd) = Some (context_of_path (sv_dc sample_env) [e])"
    using e(3) by (simp add: build_session_context_def build_session_context_from_entries_def context_leaf_def
        ascend.simps [of _ e_parent "[]" e "[]"])
  moreover have "sc_messages (context_of_path (sv_dc sample_env) [e]) = [Msg hello]"
    using e by (simp add: context_of_plain_path entry_messages_def sample_env_def
        synthesize_interrupted_tool_results_def hello_def user_text_def)
  moreover have leaf: "?t \<noteq> ss_leaf (fst (as_sd ?s))" by (simp add: st(1))
  ultimately obtain t s' where n: "navigate_tree sample_env ?w ?t True ?s = Some (t, s')"
    by (simp add: navigate_tree_def Let_def sd_def [symmetric])
  from navigation_leaves_behind [OF leaf n] obtain ctx x where
    "build_session_context (sv_dc sample_env) (fst (as_sd s')) = Some ctx" "memory s' = sc_messages ctx"
    "ss_entries (fst (as_sd s')) = ss_entries (fst (as_sd ?s)) @ [x]" by auto
  moreover have "as_sd s' = sd"
    using n leaf by (auto simp: navigate_tree_def Let_def sd_def [symmetric] restore_plan_def split: option.splits)
  ultimately show ?thesis
    using n st(3) \<open>build_session_context _ (fst sd) = _\<close> \<open>sc_messages (context_of_path _ [e]) = _\<close> by auto
qed

end
