(* ===== verification/SettingsProps.thy ===== *)
theory SettingsProps
  imports AgentSamples MemoryRun
begin

text \<open>
  The settings of a session: what is saved is what is loaded, and after a transcript is opened or
  switched to, the settings saved with it are in force in the agent.
\<close>

subsection \<open>The codec\<close>











subsection \<open>Saved and loaded\<close>



lemma write_state_ok:
  assumes "check_writable w (state_path p)" and "w_io_ok w (state_path p)" and "p \<noteq> []"
  shows "snd (write_state w p v d) = None"
proof -
  obtain d1 recs n where r: "read_history w p d = (d1, recs, n)" by (cases "read_history w p d") auto
  obtain d2 where a: "append_record w (state_path p) v (w_clock w) [] d1 = (d2, None)"
    using assms by (simp add: append_record_def Let_def)
  from append_record_ok [OF a] obtain f where "d_files d2 (state_path p) = Some f" by blast
  then have "snd (compact_history w (state_path p) max_state_history d2) = None"
    using assms by (simp add: compact_history_def)
  then show ?thesis using a r assms(3) by (simp add: write_state_def append_state_def state_path_def)
qed

subsection \<open>Restoring\<close>










lemma save_state_keeps:
  "as_state (save_state env w s) = as_state s" "as_agent (save_state env w s) = as_agent s"
  "fst (as_sd (save_state env w s)) = fst (as_sd s)"
  by (auto simp: save_state_def Let_def split: prod.split option.split)









subsection \<open>Handles\<close>

text \<open>
  the handle of a session follows it: every save of an open session leaves the handle resolving to
  the transcript in use, wherever it pointed before, and other handles alone; and once the
  session is closed and its handle forgotten, no late save brings the handle back.
\<close>

theorem handle_follows_session:
  assumes ok: "session_ok (as_sd s)" and open_: "\<not> as_closed s"
    and h: "h = rt_handle (se_runtime (as_state s))" "h \<noteq> []" "sv_agent_dir env \<noteq> []"
    and w: "check_writable w (state_path (ss_file (fst (as_sd s))))" "w_io_ok w (state_path (ss_file (fst (as_sd s))))"
      "check_writable w (handle_path (sv_hash env) (sv_agent_dir env) h)" "w_io_ok w (handle_path (sv_hash env) (sv_agent_dir env) h)"
    and name: "trim_space (ss_file (fst (as_sd s))) = ss_file (fst (as_sd s))"
    and s': "s' = save_state env w s"
    and s2: "s2 = (close_state s')\<lparr>as_handles := snd (forget_handle (sv_hash env) (sv_agent_dir env) h (as_handles s'))\<rparr>"
  shows "resolve_handle (sv_hash env) (sv_agent_dir env) h (snd (as_sd s')) (as_handles s') = ss_file (fst (as_sd s'))
    \<and> (\<forall>h'. sv_hash env h' \<noteq> sv_hash env h \<longrightarrow>
          as_handles s' (handle_path (sv_hash env) (sv_agent_dir env) h')
            = as_handles s (handle_path (sv_hash env) (sv_agent_dir env) h'))
    \<and> resolve_handle (sv_hash env) (sv_agent_dir env) h (snd (as_sd s2)) (as_handles (save_state env w2 s2)) = []"
proof -
  let ?f = "ss_file (fst (as_sd s))"
  let ?p = "\<lambda>h. handle_path (sv_hash env) (sv_agent_dir env) h"
  have f: "?f \<noteq> []" "ss_persist (fst (as_sd s))" "d_files (snd (as_sd s)) ?f \<noteq> None"
    using ok by (auto simp: session_ok_def persisted_def on_disk_def mirrored_def)
  obtain d where d: "write_state w ?f (json_of_state (as_state s)) (snd (as_sd s)) = (d, None)"
    using write_state_ok [OF w(1,2) f(1)] by (metis prod.collapse)
  have p: "?p h \<noteq> []" using h by (simp add: handle_path_def handles_dir_def join_path_def)
  have s'_fields: "as_sd s' = (fst (as_sd s), d)" "as_handles s' = (as_handles s)(?p h \<mapsto> (?f, w_clock w))"
    using d f(1,2) open_ h w(3,4) p by (simp_all add: s' save_state_def Let_def bind_handle_def)
  have "d_files d ?f \<noteq> None"
    using write_state_files [of ?f ?f w "json_of_state (as_state s)" "snd (as_sd s)"] f d
    by (simp add: state_path_def legacy_state_path_def)
  then have "resolve_handle (sv_hash env) (sv_agent_dir env) h (snd (as_sd s')) (as_handles s') = ss_file (fst (as_sd s'))"
    using p name by (auto simp: resolve_handle_def Let_def s'_fields)
  moreover have "?p h' \<noteq> ?p h" if "sv_hash env h' \<noteq> sv_hash env h" for h'
    using that h p by (auto simp: handle_path_def join_path_def)
  moreover have "save_state env w2 s2 = s2" by (simp add: save_state_def s2 close_state_def)
  ultimately show ?thesis
    using p by (simp add: s'_fields(2)) (simp add: s2 resolve_handle_def forget_handle_def Let_def)
qed

lemma sample_start_name: "ss_file (fst sample_start) = ''/sessions/2025-01-01T00-00-00-000Z_0198-session.jsonl''"
proof -
  have "ss_file (fst sample_start) = join_path ''/sessions'' (session_file_name (sample_world CHR ''0''))"
    by (simp add: sample_start_def new_session_store_def new_session_def blank_store_def close_store_def
        write_header_only_def update_sidecar_store Let_def split: prod.split)
  also have "\<dots> = ''/sessions/2025-01-01T00-00-00-000Z_0198-session.jsonl''"
    by (simp add: join_path_def session_file_name_def file_timestamp_def sample_world_def)
  finally show ?thesis .
qed

theorem handle_follows_session_witness:
  "\<exists>s' :: agent_session. resolve_handle (\<lambda>x. x) ''/agent'' ''acp'' (snd (as_sd s')) (as_handles s')
     = ''/sessions/2025-01-01T00-00-00-000Z_0198-session.jsonl''"
proof -
  let ?s = "(fresh_session sample_start)\<lparr>as_state := \<lparr>se_runtime = no_runtime\<lparr>rt_handle := ''acp''\<rparr>, se_conversation = no_conversation\<rparr>\<rparr>"
  let ?env = "sample_env\<lparr>sv_agent_dir := ''/agent''\<rparr>"
  have ok: "session_ok (as_sd ?s)"
    using new_session_store_keeps [OF sample_startable, where cwd = "''/repo''"] by (simp add: sample_start_def)
  have name: "trim_space (ss_file (fst sample_start)) = ss_file (fst sample_start)"
    unfolding sample_start_name by code_simp
  have hash: "sv_hash ?env = (\<lambda>x. x)" by (simp add: sample_env_def)
  have "resolve_handle (sv_hash ?env) (sv_agent_dir ?env) ''acp'' (snd (as_sd s')) (as_handles s') = ss_file (fst (as_sd s'))"
    if "s' = save_state ?env (sample_world CHR ''a'') ?s" for s'
    by (rule handle_follows_session [OF ok _ _ _ _ _ _ _ _ _ that refl, THEN conjunct1])
      (use name in \<open>simp_all add: fresh_session_def\<close>)
  from this [OF refl] show ?thesis by (auto simp: hash save_state_keeps sample_start_name intro!: exI)
qed

end
