(* ===== verification/ContextUsage.thy ===== *)
theory ContextUsage
  imports Complex_Main AutoCompaction
begin

text \<open>
  What a session reports about itself (\<^verbatim>\<open>pkg/session/agentsession.go\<close>): how full the context is, the
  counts of its messages and tokens, and the last text of the assistant.

  The lenient reading of a stored message's role, stop reason and usage is the parameter \<open>probe\<close>.
\<close>

subsection \<open>Estimating the memory\<close>

definition string_chars :: "json \<Rightarrow> nat" where
  "string_chars j = (case j of JStr t \<Rightarrow> length t | _ \<Rightarrow> 0)"

fun memory_chars :: "(members \<Rightarrow> nat) \<Rightarrow> agent_message \<Rightarrow> nat" where
  "memory_chars args_len (Msg (MUser u)) = string_chars (um_content u)"
| "memory_chars args_len (Msg (MAssistant a)) = sum_list (map (block_chars args_len) (am_content a))"
| "memory_chars args_len (Msg (MToolResult tr)) = sum_list (map (\<lambda>c. length (rc_text c)) (tr_content tr))"
| "memory_chars args_len m = 0"

definition estimate_message_tokens :: "(members \<Rightarrow> nat) \<Rightarrow> agent_message \<Rightarrow> go_int" where
  "estimate_message_tokens args_len m = quarter_up (memory_chars args_len m)"

text \<open>The last response that neither failed nor was aborted, seen from the end, and what came after it.\<close>

fun last_response_usage :: "agent_message list \<Rightarrow> (usage \<times> agent_message list) option" where
  "last_response_usage [] = None"
| "last_response_usage (m # ms) =
     (case last_response_usage ms of
        Some r \<Rightarrow> Some r
      | None \<Rightarrow>
          (case m of
             Msg (MAssistant a) \<Rightarrow> if failed_stop a then None else Some (am_usage a, ms)
           | _ \<Rightarrow> None))"

definition estimate_context_tokens_from_messages :: "(members \<Rightarrow> nat) \<Rightarrow> agent_message list \<Rightarrow> go_int" where
  "estimate_context_tokens_from_messages args_len ms =
     (case last_response_usage ms of
        None \<Rightarrow> sum_list (map (estimate_message_tokens args_len) ms)
      | Some (u, trailing) \<Rightarrow>
          calculate_context_tokens u + sum_list (map (estimate_message_tokens args_len) trailing))"

subsection \<open>Context usage\<close>

record context_usage =
  us_tokens :: go_int
  us_window :: int
  us_percent :: rat

definition response_after_compaction ::
  "(json \<Rightarrow> (string \<times> string \<times> usage) option) \<Rightarrow> session_entry list \<Rightarrow> (string \<times> usage) option" where
  "response_after_compaction probe es =
     (let after = rev (takeWhile (\<lambda>e. e_type e \<noteq> ''compaction'') (rev es));
          responses = List.map_filter (\<lambda>e.
            if e_type e = ''message'' then
              (case Option.bind (e_message e) probe of
                 Some (role, stop, u) \<Rightarrow> if role = ''assistant'' then Some (stop, u) else None
               | None \<Rightarrow> None)
            else None) after
      in if responses = [] then None else Some (last responses))"

definition usage_known :: "(json \<Rightarrow> (string \<times> string \<times> usage) option) \<Rightarrow> session_entry list \<Rightarrow> bool" where
  "usage_known probe es \<longleftrightarrow>
     (get_latest_compaction_entry es = None
      \<or> (case response_after_compaction probe es of
           None \<Rightarrow> False
         | Some (stop, u) \<Rightarrow> stop \<noteq> ''aborted'' \<and> stop \<noteq> ''error'' \<and> calculate_context_tokens u > 0))"

definition get_context_usage ::
  "session_env \<Rightarrow> (json \<Rightarrow> (string \<times> string \<times> usage) option) \<Rightarrow> agent_session \<Rightarrow> context_usage option option" where
  "get_context_usage env probe s =
     (case ag_model (as_agent s) of
        None \<Rightarrow> Some None
      | Some md \<Rightarrow>
          if sm_window md \<le> 0 then Some None
          else (case get_branch (fst (as_sd s)) [] of
              None \<Rightarrow> None
            | Some path \<Rightarrow>
                if \<not> usage_known probe path
                then Some (Some \<lparr>us_tokens = -1, us_window = sm_window md, us_percent = -1\<rparr>)
                else
                  let tokens = estimate_context_tokens_from_messages (sv_args_len env) (memory s)
                  in Some (Some \<lparr>us_tokens = tokens, us_window = sm_window md,
                       us_percent = of_int tokens / of_int (sm_window md) * 100\<rparr>)))"

subsection \<open>Statistics\<close>

record session_stats =
  ns_user :: nat
  ns_assistant :: nat
  ns_tool_calls :: nat
  ns_tool_results :: nat
  ns_total :: nat
  ns_input :: int
  ns_output :: int
  ns_cache_read :: int
  ns_cache_write :: int
  ns_tokens :: int

fun count_message :: "agent_message \<Rightarrow> session_stats \<Rightarrow> session_stats" where
  "count_message (Msg (MUser u)) st = st\<lparr>ns_user := ns_user st + 1\<rparr>"
| "count_message (Msg (MAssistant a)) st = st
     \<lparr>ns_assistant := ns_assistant st + 1,
      ns_tool_calls := ns_tool_calls st + length (tool_calls_of (am_content a)),
      ns_input := ns_input st + u_input (am_usage a), ns_output := ns_output st + u_output (am_usage a),
      ns_cache_read := ns_cache_read st + u_cache_read (am_usage a),
      ns_cache_write := ns_cache_write st + u_cache_write (am_usage a)\<rparr>"
| "count_message (Msg (MToolResult tr)) st = st\<lparr>ns_tool_results := ns_tool_results st + 1\<rparr>"
| "count_message m st = st"

definition get_session_stats :: "agent_message list \<Rightarrow> session_stats" where
  "get_session_stats ms =
     (let st = fold count_message ms
        \<lparr>ns_user = 0, ns_assistant = 0, ns_tool_calls = 0, ns_tool_results = 0, ns_total = length ms,
         ns_input = 0, ns_output = 0, ns_cache_read = 0, ns_cache_write = 0, ns_tokens = 0\<rparr>
      in st\<lparr>ns_tokens := ns_input st + ns_output st + ns_cache_read st + ns_cache_write st\<rparr>)"

fun first_text :: "assistant_content list \<Rightarrow> string" where
  "first_text [] = []"
| "first_text (CText t # cs) = txt_text t"
| "first_text (c # cs) = first_text cs"

fun last_text_from_end :: "agent_message list \<Rightarrow> string" where
  "last_text_from_end [] = []"
| "last_text_from_end (Msg (MAssistant a) # ms) = first_text (am_content a)"
| "last_text_from_end (m # ms) = last_text_from_end ms"

definition get_last_assistant_text :: "agent_message list \<Rightarrow> string" where
  "get_last_assistant_text ms = last_text_from_end (rev ms)"

end
