(* ===== verification/UsageProps.thy ===== *)
theory UsageProps
  imports ContextUsage MemoryProps
begin

text \<open>
  The estimate a session reports against the one compaction works with, what is reported right after a
  compaction, and that a compaction is not repeated.
\<close>

subsection \<open>Two estimates of one context\<close>

lemma last_response_snoc:
  "last_response_usage (ms @ [m]) =
     (case m of
        Msg (MAssistant a) \<Rightarrow> if failed_stop a then map_option (\<lambda>(u, t). (u, t @ [m])) (last_response_usage ms)
          else Some (am_usage a, [])
      | _ \<Rightarrow> map_option (\<lambda>(u, t). (u, t @ [m])) (last_response_usage ms))"
  by (induction ms) (auto split: option.split agent_message.split message.split)

lemma estimate_memory_snoc:
  "estimate_context_tokens_from_messages args_len (ms @ [m]) =
     (case m of
        Msg (MAssistant a) \<Rightarrow>
          if failed_stop a then estimate_context_tokens_from_messages args_len ms + estimate_message_tokens args_len m
          else calculate_context_tokens (am_usage a)
      | _ \<Rightarrow> estimate_context_tokens_from_messages args_len ms + estimate_message_tokens args_len m)"
  by (auto simp: estimate_context_tokens_from_messages_def last_response_snoc
      split: option.split agent_message.split message.split)

lemma estimate_context_snoc:
  "cu_tokens (estimate_context_tokens args_len (ms @ [m])) =
     (case get_assistant_usage m of
        Some u \<Rightarrow> calculate_context_tokens u
      | None \<Rightarrow> cu_tokens (estimate_context_tokens args_len ms) + estimate_tokens args_len m)"
proof (cases "get_assistant_usage m")
  case None
  show ?thesis
  proof (cases "find_last (\<lambda>m. get_assistant_usage m \<noteq> None) ms")
    case (Some i)
    then have "i < length ms" using find_last_SomeD by blast
    with None Some show ?thesis
      by (simp add: estimate_context_tokens_def find_last_snoc Let_def sum_estimates_def nth_append)
  qed (simp add: None estimate_context_tokens_def find_last_snoc sum_estimates_def)
qed (simp add: estimate_context_tokens_def find_last_snoc sum_estimates_def Let_def)

text \<open>Messages both estimates read alike: plain text, and responses that report their usage.\<close>

fun plain_message :: "agent_message \<Rightarrow> bool" where
  "plain_message (Msg (MUser u)) = (\<exists>t. um_content u = JStr t)"
| "plain_message (Msg (MAssistant a)) = (failed_stop a \<or> get_assistant_usage (Msg (MAssistant a)) \<noteq> None)"
| "plain_message (Msg (MToolResult tr)) = list_all (\<lambda>c. rc_is_text c) (tr_content tr)"
| "plain_message (Msg (MOther r)) = True"
| "plain_message (Custom c) = False"

lemma plain_estimate: "plain_message m \<Longrightarrow> estimate_message_tokens args_len m = estimate_tokens args_len m"
proof (cases m rule: plain_message.cases)
  case (3 tr)
  assume "plain_message m"
  then have "list_all rc_is_text (tr_content tr)" by (simp add: 3)
  then have "map (\<lambda>c. length (rc_text c)) (tr_content tr) = map result_chars (tr_content tr)"
    by (auto simp: list_all_iff result_chars_def rc_is_text_def rc_is_image_def)
  then show ?thesis by (simp only: 3 estimate_message_tokens_def memory_chars.simps message_chars.simps estimate_tokens.simps)
qed (auto simp: estimate_message_tokens_def string_chars_def user_chars_def)

definition silent_response :: assistant_msg where
  "silent_response = \<lparr>am_content = [], am_api = [], am_provider = [], am_model = [],
     am_usage = \<lparr>u_total = 0, u_input = 0, u_output = 0, u_cache_read = 0, u_cache_write = 0\<rparr>,
     am_stop = StopStop, am_timestamp = 0\<rparr>"

text \<open>
  for conversations of plain text whose responses report their usage the context size shown to the
  user is the one compaction decides with. In others they part: a response without usage makes
  the one shown forget everything before it, and custom messages, like the output of a shell
  command, count for nothing in it.
\<close>

theorem usage_estimates_agree:
  assumes "list_all plain_message ms"
  shows "estimate_context_tokens_from_messages args_len ms = cu_tokens (estimate_context_tokens args_len ms)
    \<and> estimate_context_tokens_from_messages args_len (ms @ [Msg (MAssistant silent_response)]) = 0
    \<and> cu_tokens (estimate_context_tokens args_len (ms @ [Msg (MAssistant silent_response)]))
        = cu_tokens (estimate_context_tokens args_len ms)
    \<and> estimate_context_tokens_from_messages args_len (ms @ [Custom (Bash b)])
        = cu_tokens (estimate_context_tokens args_len (ms @ [Custom (Bash b)]))
          - quarter_up (length (be_command b) + length (be_output b))"
proof -
  have eq: "estimate_context_tokens_from_messages args_len ms = cu_tokens (estimate_context_tokens args_len ms)"
    using assms
  proof (induction ms rule: rev_induct)
    case Nil
    show ?case
      by (simp add: estimate_context_tokens_from_messages_def estimate_context_tokens_def find_last_def sum_estimates_def)
  next
    case (snoc m ms)
    then show ?case
      using plain_estimate [of m args_len]
      by (cases m rule: plain_message.cases)
        (auto simp: estimate_memory_snoc estimate_context_snoc failed_stop_def Let_def split: if_splits)
  qed
  then show ?thesis
    by (simp add: estimate_memory_snoc estimate_context_snoc silent_response_def failed_stop_def
        calculate_context_tokens_def estimate_message_tokens_def quarter_up_def)
qed

theorem usage_estimates_agree_witness:
  "estimate_context_tokens_from_messages length [Msg hello, Msg (MAssistant calling), Msg hello]
     = cu_tokens (estimate_context_tokens length [Msg hello, Msg (MAssistant calling), Msg hello])
   \<and> estimate_context_tokens_from_messages length [Msg hello, Msg (MAssistant calling), Msg hello] = 902"
proof -
  have "list_all plain_message [Msg hello, Msg (MAssistant calling), Msg hello]"
    by (simp add: hello_def user_text_def calling_def Let_def)
  from usage_estimates_agree [OF this] show ?thesis
    by (simp add: estimate_context_tokens_from_messages_def calling_def failed_stop_def hello_def user_text_def
        estimate_message_tokens_def quarter_up_def string_chars_def calculate_context_tokens_def)
qed

subsection \<open>Right after a compaction\<close>

lemma runner_branch:
  assumes st: "stands (fst (as_sd s)) path" and w: "ready w (as_sd s)"
    and c: "runner_compaction env cfg w custom s = Some (Inr r, s')"
  shows "\<exists>c. get_branch (fst (as_sd s')) [] = Some (path @ [c]) \<and> e_type c = ''compaction''
    \<and> ag_model (as_agent s') = ag_model (as_agent s)"
proof -
  let ?c = "(next_entry w ''compaction'' (fst (as_sd s)))
      \<lparr>e_summary := cr_summary r, e_first_kept := cr_first_kept r, e_tokens_before := cr_tokens_before r,
       e_details := Some (json_of_details (cr_details r)), e_from_hook := False\<rparr>"
  have "stands (fst (append_entry w ?c (as_sd s))) (path @ [?c])"
    by (rule stands_append [OF st]) (use w in \<open>simp_all add: ready_def\<close>)
  moreover have "as_sd s' = append_entry w ?c (as_sd s) \<and> ag_model (as_agent s') = ag_model (as_agent s)"
    using c by (auto simp: runner_compaction_def apply_to_session_def apply_compaction_def append_compaction_def
        Let_def split: option.splits if_splits sum.splits)
  ultimately show ?thesis by (auto simp: stands_def)
qed

text \<open>
  a compaction leaves nothing to compact: asked for another right away the session refuses and
  changes nothing, and until the next response the context usage is reported as unknown, not as the
  usage from before.
\<close>

theorem compaction_not_repeated:
  assumes run: "agent_run env s" and w: "ready w (as_sd s)"
    and c: "run_compaction env w custom s = Some (Inr r, s')"
    and md: "ag_model (as_agent s) = Some md" "0 < sm_window md"
  shows "run_compaction env w2 custom2 s' = Some (Inl AlreadyCompacted, s')
    \<and> get_context_usage env probe s' = Some (Some \<lparr>us_tokens = -1, us_window = sm_window md, us_percent = -1\<rparr>)"
proof -
  from run_in_step [OF run] obtain path where st: "stands (fst (as_sd s)) path" by (auto simp: in_step_def)
  obtain cfg where cfg: "sv_compaction env = Some cfg" "runner_compaction env cfg w custom s = Some (Inr r, s')"
    using c by (auto simp: run_compaction_def split: option.splits)
  from runner_branch [OF st w cfg(2)] obtain x where x: "get_branch (fst (as_sd s')) [] = Some (path @ [x])"
    "e_type x = ''compaction''" "ag_model (as_agent s') = Some md" using md by auto
  have key: "\<not> (sv_api_key env md = [] \<and> \<not> sv_keyless env (md_provider md))"
    using cfg(2) md by (auto simp: runner_compaction_def split: if_splits)
  have "\<not> usage_known probe (path @ [x])"
    by (simp add: usage_known_def get_latest_compaction_entry_def response_after_compaction_def x(2)
        List.map_filter_def)
  with x key md(2) show ?thesis
    by (simp add: run_compaction_def cfg(1) runner_compaction_def prepare_compaction_def get_context_usage_def)
qed

lemma tree_log_ids: "tree_log es ids \<Longrightarrow> e \<in> set es \<Longrightarrow> e_id e \<noteq> []"
  by (induction es arbitrary: ids) auto

lemma runner_succeeds:
  assumes st: "stands (fst (as_sd s)) path" and w: "ready w (as_sd s)"
    and path: "path \<noteq> []" "e_type (last path) \<noteq> ''compaction''"
    and md: "ag_model (as_agent s) = Some md" "sv_api_key env md \<noteq> []"
    and ask: "\<And>q. sv_ask env q = Inr txt"
  shows "\<exists>r s'. runner_compaction env cfg w custom s = Some (Inr r, s')"
proof -
  let ?cp = "find_cut_point (sv_args_len env) (sv_dc env) path (boundary_start path) (length path) (cp_keep_recent cfg)"
  have inv: "store_inv (fst (as_sd s))" and b: "get_branch (fst (as_sd s)) [] = Some path"
    using st by (simp_all add: stands_def)
  have "cut_first_kept ?cp < length path"
    by (rule find_cut_point_bounds(2) [OF boundary_start_less [OF path]])
  then have "path ! cut_first_kept ?cp \<in> set (ss_entries (fst (as_sd s)))"
    using branch_is_chain'(2) [OF inv b] nth_mem by blast
  then have "e_id (path ! cut_first_kept ?cp) \<noteq> []" using tree_log_ids [OF store_inv_tree [OF inv]] by blast
  then obtain p where p: "prepare_compaction (sv_args_len env) (sv_regexes env) (sv_dc env) path cfg = Some p"
    using path by (simp add: prepare_compaction_def Let_def)
  have "\<exists>summary. summary_text (sv_texts env) (sv_ask env) p custom = Inr summary"
    by (auto simp: summary_text_def generate_summary_def generate_turn_prefix_summary_def Let_def ask)
  then obtain r where r: "compact (sv_texts env) (sv_regexes env) (sv_ask env) p custom = Inr r"
    by (cases "compute_file_lists (pr_file_ops p)") (auto simp: compact_def Let_def)
  define c where "c = (next_entry w ''compaction'' (fst (as_sd s)))
      \<lparr>e_summary := cr_summary r, e_first_kept := cr_first_kept r, e_tokens_before := cr_tokens_before r,
       e_details := Some (json_of_details (cr_details r)), e_from_hook := False\<rparr>"
  have "stands (fst (append_entry w c (as_sd s))) (path @ [c])"
    by (rule stands_append [OF st]) (use w in \<open>simp_all add: ready_def c_def\<close>)
  from stands_context [OF this, of "sv_dc env"] obtain s' where "apply_to_session env w r s = Some s'"
    by (auto simp: apply_to_session_def apply_compaction_def append_compaction_def c_def [symmetric] Let_def)
  with md p b r show ?thesis by (auto simp: runner_compaction_def)
qed

theorem compaction_not_repeated_witness:
  "\<exists>s' :: agent_session. \<exists>r. run_compaction sample_env (sample_world CHR ''c'') []
        (heard sample_env (with_model model_p_m (fresh_session sample_start))) = Some (Inr r, s')
     \<and> run_compaction sample_env (sample_world CHR ''d'') [] s' = Some (Inl AlreadyCompacted, s')"
proof -
  let ?base = "with_model model_p_m (fresh_session sample_start)"
  let ?s = "heard sample_env ?base" and ?w = "sample_world CHR ''c''"
  have sampled: "sampled sample_env ?base" by (simp add: sampled_def with_model_def)
  have md: "ag_model (as_agent ?s) = Some model_p_m"
    by (simp add: heard_def on_message_end_def with_model_def)
  have w: "ready ?w (as_sd ?s)" by (rule heard_ready [OF sampled]) simp
  let ?e = "(next_entry (sample_world CHR ''a'') ''message'' (fst sample_start))\<lparr>e_message := Some (JStr ''u'')\<rparr>"
  have inv: "store_inv (fst sample_start)"
    using new_session_store_keeps [OF sample_startable, where cwd = "''/repo''"] by (simp add: sample_start_def session_ok_def)
  have "stands (fst sample_start) []" by (simp add: stands_def inv get_branch_def sample_start_store)
  from stands_append [OF this, of "sample_world CHR ''a''" ?e]
  have st: "stands (fst (as_sd ?s)) [?e]"
    by (simp add: heard_fields [OF sampled] append_message_def sample_fresh sample_start_store)
  have key: "sv_api_key sample_env model_p_m \<noteq> []" and ask: "sv_ask sample_env q = Inr ''sum''" for q
    by (simp_all add: sample_env_def)
  obtain r s' where "runner_compaction sample_env default_compaction_settings ?w [] ?s = Some (Inr r, s')"
    using runner_succeeds [OF st w _ _ md key ask, of default_compaction_settings "[]"] by auto
  then have c: "run_compaction sample_env ?w [] ?s = Some (Inr r, s')"
    by (simp add: run_compaction_def sample_env_def)
  from compaction_not_repeated [OF heard_run [OF sampled] w c md] c show ?thesis by (auto simp: model_p_m_def)
qed

end
