(* ===== verification/EventStream.thy ===== *)
theory EventStream
  imports Json
begin

text \<open>
  The server-sent events client of the providers (\<^verbatim>\<open>pkg/ai/providers/sse.go\<close>): the bytes of a
  response are cut into lines by a \<^verbatim>\<open>bufio.Scanner\<close>, the lines fill an event, a blank line
  dispatches it, and what is pending when the body ends is dispatched too.

  A body is the bytes that could be read and the error that ended the reading, \<open>None\<close> for the end
  of the file. The scanner hands out the bytes before a read error as a last line, as it does at
  the end of the file. The decoder of JSON text is an argument, \<open>decode\<close>.
\<close>

subsection \<open>Lines\<close>

definition max_token_size :: nat where
  "max_token_size = 10 * 1024 * 1024"

definition carriage_return :: char where
  "carriage_return = CHR 0x0D"

definition drop_cr :: "string \<Rightarrow> string" where
  "drop_cr w = (if w \<noteq> [] \<and> last w = carriage_return then butlast w else w)"

text \<open>
  The scanner over the pieces between line feeds: the last piece is a line only when it is not
  empty, and a line the buffer cannot hold ends the scan with \<^verbatim>\<open>bufio.ErrTooLong\<close>.
\<close>

fun scan_pieces :: "string list \<Rightarrow> string list \<times> bool" where
  "scan_pieces [] = ([], False)"
| "scan_pieces (w # ws) =
     (if ws = [] \<and> w = [] then ([], False)
      else if max_token_size \<le> length w then ([], True)
      else (let (ls, long) = scan_pieces ws in (drop_cr w # ls, long)))"

definition scan_lines :: "string \<Rightarrow> string list \<times> bool" where
  "scan_lines body = scan_pieces (split_on newline body)"

subsection \<open>Events\<close>

record sse_event =
  ev_event :: string
  ev_data :: string
  ev_id :: string
  ev_retry :: go_int

definition no_event :: sse_event where
  "no_event = \<lparr>ev_event = [], ev_data = [], ev_id = [], ev_retry = 0\<rparr>"

text \<open>\<^verbatim>\<open>strings.Cut(line, ":")\<close>, and the one space a value may start with.\<close>

fun cut_colon :: "string \<Rightarrow> string \<times> string" where
  "cut_colon [] = ([], [])"
| "cut_colon (c # s) = (if c = CHR '':'' then ([], s) else (let (f, v) = cut_colon s in (c # f, v)))"

fun skip_space :: "string \<Rightarrow> string" where
  "skip_space (c # s) = (if c = CHR '' '' then s else c # s)"
| "skip_space [] = []"

type_synonym sse_state = "sse_event \<times> string list"

definition flush_event :: "sse_state \<Rightarrow> sse_event list" where
  "flush_event = (\<lambda>(cur, data). if data = [] then [] else [cur\<lparr>ev_data := join [newline] data\<rparr>])"

definition sse_line :: "sse_state \<Rightarrow> string \<Rightarrow> sse_event list \<times> sse_state" where
  "sse_line st line =
     (let (cur, data) = st in
      if line = [] then (flush_event st, if data = [] then st else (no_event, []))
      else if has_prefix line '':'' then ([], st)
      else let (field, v) = cut_colon line; val = skip_space v in
           if field = ''event'' then ([], (cur\<lparr>ev_event := val\<rparr>, data))
           else if field = ''data'' then ([], (cur, data @ [val]))
           else if field = ''id'' then ([], (cur\<lparr>ev_id := val\<rparr>, data))
           else ([], st))"

fun sse_lines :: "sse_state \<Rightarrow> string list \<Rightarrow> sse_event list \<times> sse_state" where
  "sse_lines st [] = ([], st)"
| "sse_lines st (l # ls) =
     (let (es, st') = sse_line st l; (es', st'') = sse_lines st' ls in (es @ es', st''))"

datatype read_error = ErrTooLong | ErrRead string

text \<open>\<^verbatim>\<open>parseSSE\<close>: the events sent and the error \<^verbatim>\<open>scanner.Err()\<close> returns.\<close>

definition parse_sse :: "string \<Rightarrow> string option \<Rightarrow> sse_event list \<times> read_error option" where
  "parse_sse body err =
     (let (ls, long) = scan_lines body; (es, st) = sse_lines (no_event, []) ls
      in (es @ flush_event st, if long then Some ErrTooLong else map_option ErrRead err))"

subsection \<open>Errors of the HTTP layer\<close>

record sse_error =
  se_status :: go_int
  se_message :: string
  se_request_id :: string
  se_raw_body :: string

definition sse_error_text :: "sse_error \<Rightarrow> string" where
  "sse_error_text e =
     itoa (se_status e) @ '' '' @ se_message e
     @ (if se_request_id e \<noteq> [] then '' (request-id: '' @ se_request_id e @ '')'' else [])
     @ (if se_raw_body e \<noteq> [] \<and> se_raw_body e \<noteq> se_message e \<and> length (se_message e) < 20
        then newline # se_raw_body e else [])"

text \<open>
  A struct with one string field \<^verbatim>\<open>message\<close>, and one whose field \<^verbatim>\<open>error\<close> is such a struct, each
  object merging into what was read before it.
\<close>

definition message_field :: "string \<Rightarrow> json \<Rightarrow> string option" where
  "message_field cur j =
     (case object_members j of None \<Rightarrow> None | Some ms \<Rightarrow> fill_str cur (field_vals ''message'' ms))"

fun message_fields :: "string \<Rightarrow> json list \<Rightarrow> string option" where
  "message_fields cur [] = Some cur"
| "message_fields cur (j # js) =
     (case message_field cur j of None \<Rightarrow> None | Some m \<Rightarrow> message_fields m js)"

definition error_message_field :: "json \<Rightarrow> string option" where
  "error_message_field j =
     (case object_members j of None \<Rightarrow> None | Some ms \<Rightarrow> message_fields [] (field_vals ''error'' ms))"

definition non_empty :: "string option \<Rightarrow> bool" where
  "non_empty s \<longleftrightarrow> (case s of None \<Rightarrow> False | Some t \<Rightarrow> t \<noteq> [])"

definition extract_http_error_message :: "(string \<Rightarrow> json option) \<Rightarrow> string \<Rightarrow> string" where
  "extract_http_error_message decode body =
     (case decode body of
        None \<Rightarrow> body
      | Some j \<Rightarrow>
          if non_empty (error_message_field j) then the (error_message_field j)
          else if non_empty (message_field [] j) then the (message_field [] j)
          else body)"

text \<open>What a request ends in, before any event is read: no response, an error status, a stream.\<close>

datatype http_response =
    BadRequest string
  | RequestFailed string
  | ErrorStatus go_int string string string
  | Streaming string "string option"

datatype stream_error = SseFailed sse_error | ReadFailed read_error | OtherFailed string

fun read_error_text :: "read_error \<Rightarrow> string" where
  "read_error_text ErrTooLong = ''bufio.Scanner: token too long''"
| "read_error_text (ErrRead e) = e"

fun stream_error_text :: "stream_error \<Rightarrow> string" where
  "stream_error_text (SseFailed e) = sse_error_text e"
| "stream_error_text (ReadFailed e) = read_error_text e"
| "stream_error_text (OtherFailed e) = e"

definition extract_request_id :: "string \<Rightarrow> string \<Rightarrow> string" where
  "extract_request_id x_request_id request_id = (if x_request_id \<noteq> [] then x_request_id else request_id)"

text \<open>
  \<^verbatim>\<open>Stream\<close>: an \<open>ErrorStatus\<close> carries the status, the body and the two request id headers; of the
  body at most 4096 bytes are read.
\<close>

fun sse_stream :: "(string \<Rightarrow> json option) \<Rightarrow> http_response \<Rightarrow> sse_event list \<times> stream_error option" where
  "sse_stream decode (BadRequest e) = ([], Some (OtherFailed (''create request: '' @ e)))"
| "sse_stream decode (RequestFailed e) = ([], Some (OtherFailed (''http request: '' @ e)))"
| "sse_stream decode (ErrorStatus code body x_id r_id) =
     (let trimmed = trim_space (take 4096 body);
          body_str = (if trimmed = [] then ''(no body)'' else trimmed)
      in ([], Some (SseFailed
           \<lparr>se_status = code, se_message = extract_http_error_message decode body_str,
            se_request_id = extract_request_id x_id r_id, se_raw_body = body_str\<rparr>)))"
| "sse_stream decode (Streaming body err) =
     (let (es, e) = parse_sse body err in (es, map_option ReadFailed e))"

subsection \<open>Reading lines in sequence\<close>

lemma sse_lines_append:
  "sse_lines st (xs @ ys) =
     (let (es, st') = sse_lines st xs; (es', st'') = sse_lines st' ys in (es @ es', st''))"
  by (induction xs arbitrary: st) (auto simp: Let_def split: prod.splits)

lemma fst_sse_lines_append:
  "fst (sse_lines st (xs @ ys)) = fst (sse_lines st xs) @ fst (sse_lines (snd (sse_lines st xs)) ys)"
  by (simp add: sse_lines_append Let_def split: prod.split)

lemma split_on_lines:
  "(\<And>l. l \<in> set ls \<Longrightarrow> newline \<notin> set l) \<Longrightarrow>
     split_on newline (concat (map (\<lambda>l. l @ [newline]) ls)) = ls @ [[]]"
  by (induction ls) (simp_all add: split_on_append)

lemma scan_pieces_terminated:
  "(\<And>l. l \<in> set ls \<Longrightarrow> length l < max_token_size) \<Longrightarrow>
     scan_pieces (ls @ [[]]) = (map drop_cr ls, False)"
  by (induction ls) (auto simp: Let_def dest: leD)

lemma scan_lines_terminated:
  assumes "\<And>l. l \<in> set ls \<Longrightarrow> newline \<notin> set l \<and> length l < max_token_size"
  shows "scan_lines (concat (map (\<lambda>l. l @ [newline]) ls)) = (map drop_cr ls, False)"
  using assms by (simp add: scan_lines_def split_on_lines scan_pieces_terminated)

lemma drop_cr_id: "carriage_return \<notin> set w \<Longrightarrow> drop_cr w = w"
  by (auto simp: drop_cr_def dest: last_in_set)

lemma drop_cr_eol: "drop_cr (w @ [carriage_return]) = w"
  by (simp add: drop_cr_def)

end
