(* ===== verification/EventProps.thy ===== *)
theory EventProps
  imports EventStream
begin

text \<open>
  The event stream client reads back what a server writes, whatever the line ending and however many
  comments keep the connection alive, and a connection cut anywhere yields a prefix of the events but
  for the last one.
\<close>

subsection \<open>The server's side\<close>

text \<open>
  How a server writes an event: the name and the id when there are any, one \<^verbatim>\<open>data:\<close> line per line of
  the data, a blank line. \<open>event_body\<close> writes events each preceded by comment lines.
\<close>

definition field_line :: "string \<Rightarrow> string \<Rightarrow> string" where
  "field_line f v = f @ '': '' @ v"

definition event_lines :: "sse_event \<Rightarrow> string list" where
  "event_lines e =
     (if ev_event e = [] then [] else [field_line ''event'' (ev_event e)])
     @ (if ev_id e = [] then [] else [field_line ''id'' (ev_id e)])
     @ map (field_line ''data'') (split_on newline (ev_data e)) @ [[]]"

definition comment_line :: "string \<Rightarrow> string" where
  "comment_line c = CHR '':'' # c"

definition stream_lines :: "(string list \<times> sse_event) list \<Rightarrow> string list" where
  "stream_lines xs = concat (map (\<lambda>(cs, e). map comment_line cs @ event_lines e) xs)"

definition event_body :: "string \<Rightarrow> (string list \<times> sse_event) list \<Rightarrow> string" where
  "event_body eol xs = concat (map (\<lambda>l. l @ eol) (stream_lines xs))"

definition line_text :: "string \<Rightarrow> bool" where
  "line_text s \<longleftrightarrow> newline \<notin> set s \<and> carriage_return \<notin> set s \<and> length s + 10 < max_token_size"

definition sendable :: "sse_event \<Rightarrow> bool" where
  "sendable e \<longleftrightarrow> line_text (ev_event e) \<and> line_text (ev_id e) \<and> ev_retry e = 0
     \<and> carriage_return \<notin> set (ev_data e) \<and> length (ev_data e) + 10 < max_token_size"

subsection \<open>Reading it\<close>

lemma cut_colon_field: "CHR '':'' \<notin> set f \<Longrightarrow> cut_colon (f @ '':'' @ v) = (f, v)"
  by (induction f) auto

lemma read_field:
  assumes "CHR '':'' \<notin> set f" and "f \<noteq> []"
  shows "cut_colon (field_line f v) = (f, CHR '' '' # v)" and "field_line f v \<noteq> []"
    and "\<not> has_prefix (field_line f v) '':''"
proof -
  show "cut_colon (field_line f v) = (f, CHR '' '' # v)"
    using cut_colon_field [OF assms(1), of "CHR '' '' # v"] by (simp add: field_line_def)
  show "field_line f v \<noteq> []" using assms by (simp add: field_line_def)
  show "\<not> has_prefix (field_line f v) '':''" using assms
    by (cases f) (auto simp: field_line_def has_prefix_def)
qed

lemma sse_line_event: "sse_line (cur, data) (field_line ''event'' v) = ([], (cur\<lparr>ev_event := v\<rparr>, data))"
  using read_field [of "''event''" v] by (simp add: sse_line_def)

lemma sse_line_id: "sse_line (cur, data) (field_line ''id'' v) = ([], (cur\<lparr>ev_id := v\<rparr>, data))"
  using read_field [of "''id''" v] by (simp add: sse_line_def)

lemma sse_line_data: "sse_line (cur, data) (field_line ''data'' v) = ([], (cur, data @ [v]))"
  using read_field [of "''data''" v] by (simp add: sse_line_def)

lemma sse_line_comment: "sse_line st (comment_line c) = ([], st)"
  by (cases st) (simp add: sse_line_def comment_line_def has_prefix_def)

lemma sse_line_blank: "data \<noteq> [] \<Longrightarrow>
    sse_line (cur, data) [] = ([cur\<lparr>ev_data := join [newline] data\<rparr>], (no_event, []))"
  by (simp add: sse_line_def flush_event_def)

lemma sse_lines_comments: "sse_lines st (map comment_line cs) = ([], st)"
  by (induction cs) (simp_all add: sse_line_comment)

lemma sse_lines_data: "sse_lines (cur, data) (map (field_line ''data'') ds) = ([], (cur, data @ ds))"
  by (induction ds arbitrary: data) (simp_all add: sse_line_data)

lemma sse_lines_event:
  assumes "ev_retry e = 0"
  shows "sse_lines (no_event, []) (event_lines e) = ([e], (no_event, []))"
proof -
  have "join [newline] (split_on newline (ev_data e)) = ev_data e" by (rule split_on_join)
  then show ?thesis using assms
    by (cases e) (simp add: event_lines_def sse_lines_append sse_lines_data sse_line_event sse_line_id
        sse_line_blank no_event_def)
qed

lemma sse_lines_stream:
  "(\<And>cs e. (cs, e) \<in> set xs \<Longrightarrow> ev_retry e = 0) \<Longrightarrow>
     sse_lines (no_event, []) (stream_lines xs) = (map snd xs, (no_event, []))"
proof (induction xs)
  case Nil
  then show ?case by (simp add: stream_lines_def)
next
  case (Cons x xs)
  obtain cs e where [simp]: "x = (cs, e)" by (cases x)
  have "sse_lines (no_event, []) (stream_lines xs) = (map snd xs, (no_event, []))"
    using Cons by auto
  moreover have "ev_retry e = 0" using Cons.prems by auto
  moreover have "stream_lines (x # xs) = map comment_line cs @ event_lines e @ stream_lines xs"
    by (simp add: stream_lines_def)
  ultimately show ?case by (simp add: sse_lines_append sse_lines_comments sse_lines_event)
qed

lemma length_piece: "w \<in> set (split_on d s) \<Longrightarrow> length w \<le> length s"
proof (induction d s arbitrary: w rule: split_on.induct)
  case (1 d)
  then show ?case by simp
next
  case (2 d c s)
  obtain v vs where v: "split_on d s = v # vs"
    using split_on_nonempty [of d s] by (cases "split_on d s") auto
  from 2 v show ?case by (auto split: if_splits intro: le_SucI)
qed

lemma piece_subset: "w \<in> set (split_on d s) \<Longrightarrow> set w \<subseteq> set s"
proof (induction d s arbitrary: w rule: split_on.induct)
  case (1 d)
  then show ?case by simp
next
  case (2 d c s)
  obtain v vs where v: "split_on d s = v # vs"
    using split_on_nonempty [of d s] by (cases "split_on d s") auto
  from 2 v show ?case by (fastforce split: if_splits)
qed

definition plain_line :: "string \<Rightarrow> bool" where
  "plain_line l \<longleftrightarrow> newline \<notin> set l \<and> carriage_return \<notin> set l \<and> length l + 1 < max_token_size"

lemma plain_field:
  "length f \<le> 5 \<Longrightarrow> newline \<notin> set f \<Longrightarrow> carriage_return \<notin> set f \<Longrightarrow> line_text v \<Longrightarrow>
     plain_line (field_line f v)"
  by (auto simp: plain_line_def field_line_def line_text_def carriage_return_def)

lemma plain_data:
  assumes "sendable e" and "d \<in> set (split_on newline (ev_data e))"
  shows "line_text d"
  using assms length_piece [OF assms(2)] piece_subset [OF assms(2)] split_on_no_sep [OF assms(2)]
  by (auto simp: line_text_def sendable_def)

lemma plain_event: "sendable e \<Longrightarrow> l \<in> set (event_lines e) \<Longrightarrow> plain_line l"
proof -
  assume e: "sendable e" and l: "l \<in> set (event_lines e)"
  have texts: "line_text (ev_event e)" "line_text (ev_id e)" using e by (simp_all add: sendable_def)
  from l consider "l = field_line ''event'' (ev_event e)" | "l = field_line ''id'' (ev_id e)"
    | d where "d \<in> set (split_on newline (ev_data e))" "l = field_line ''data'' d" | "l = []"
    by (auto simp: event_lines_def split: if_splits)
  then show "plain_line l"
  proof cases
    case 1
    with texts show ?thesis by (simp add: plain_field carriage_return_def)
  next
    case 2
    with texts show ?thesis by (simp add: plain_field carriage_return_def)
  next
    case 3
    with plain_data [OF e] show ?thesis by (simp add: plain_field carriage_return_def)
  next
    case 4
    then show ?thesis by (simp add: plain_line_def max_token_size_def)
  qed
qed

lemma plain_comment: "line_text c \<Longrightarrow> plain_line (comment_line c)"
  by (simp add: plain_line_def comment_line_def line_text_def carriage_return_def)

lemma plain_stream:
  assumes "\<And>cs e. (cs, e) \<in> set xs \<Longrightarrow> sendable e \<and> (\<forall>c \<in> set cs. line_text c)"
    and "l \<in> set (stream_lines xs)"
  shows "plain_line l"
  using assms by (fastforce simp: stream_lines_def dest: plain_event plain_comment)

lemma scan_plain:
  assumes "\<And>l. l \<in> set ls \<Longrightarrow> plain_line l" and "eol = [newline] \<or> eol = [carriage_return, newline]"
  shows "scan_lines (concat (map (\<lambda>l. l @ eol) ls)) = (ls, False)"
  using assms(2)
proof
  assume "eol = [newline]"
  moreover have "map drop_cr ls = ls"
    using assms(1) by (auto simp: plain_line_def drop_cr_id intro: map_idI)
  moreover have "scan_lines (concat (map (\<lambda>l. l @ [newline]) ls)) = (map drop_cr ls, False)"
    using assms(1) by (intro scan_lines_terminated) (auto simp: plain_line_def dest: Suc_lessD)
  ultimately show ?thesis by simp
next
  assume "eol = [carriage_return, newline]"
  moreover have "scan_lines (concat (map (\<lambda>l. l @ [newline]) (map (\<lambda>l. l @ [carriage_return]) ls)))
      = (map drop_cr (map (\<lambda>l. l @ [carriage_return]) ls), False)"
    using assms(1) by (intro scan_lines_terminated) (auto simp: plain_line_def carriage_return_def)
  ultimately show ?thesis by (simp add: comp_def drop_cr_eol)
qed

text \<open>
  The events a server writes, with either line ending and any comments in between, are the events
  read, in order, each with its name, id and data, the line feeds of the data included.
\<close>

theorem event_stream_roundtrip:
  assumes "\<And>cs e. (cs, e) \<in> set xs \<Longrightarrow> sendable e \<and> (\<forall>c \<in> set cs. line_text c)"
    and "eol = [newline] \<or> eol = [carriage_return, newline]"
  shows "parse_sse (event_body eol xs) None = (map snd xs, None)"
proof -
  have "scan_lines (event_body eol xs) = (stream_lines xs, False)"
    unfolding event_body_def using plain_stream [of xs] assms by (blast intro: scan_plain)
  moreover have "sse_lines (no_event, []) (stream_lines xs) = (map snd xs, (no_event, []))"
    using assms(1) by (intro sse_lines_stream) (auto simp: sendable_def)
  ultimately show ?thesis by (simp add: parse_sse_def flush_event_def)
qed

definition two_events :: "(string list \<times> sse_event) list" where
  "two_events =
     [([''keepalive''], \<lparr>ev_event = ''delta'', ev_data = ''a'' @ [newline] @ '' b'', ev_id = ''7'', ev_retry = 0\<rparr>),
      ([], \<lparr>ev_event = [], ev_data = [], ev_id = [], ev_retry = 0\<rparr>)]"

theorem event_stream_roundtrip_witness:
  "parse_sse (event_body [carriage_return, newline] two_events) None = (map snd two_events, None)"
  by (rule event_stream_roundtrip)
    (auto simp: two_events_def sendable_def line_text_def max_token_size_def carriage_return_def)

subsection \<open>A connection that breaks\<close>

definition short :: "string \<Rightarrow> bool" where
  "short w \<longleftrightarrow> length w < max_token_size"

lemma scan_pieces_append:
  "xs \<noteq> [] \<Longrightarrow> scan_pieces (ws @ xs) =
     (if list_all short ws
      then (map drop_cr ws @ fst (scan_pieces xs), snd (scan_pieces xs))
      else (map drop_cr (takeWhile short ws), True))"
  by (induction ws) (auto simp: Let_def short_def split: prod.splits)

lemma split_on_append_pieces:
  "\<exists>ws w v vs. split_on d a = ws @ [w] \<and> split_on d (a @ b) = ws @ (w @ v) # vs"
proof (induction d a rule: split_on.induct)
  case (1 d)
  obtain v vs where "split_on d b = v # vs"
    using split_on_nonempty [of d b] by (cases "split_on d b") auto
  then have "split_on d [] = [] @ [[]]" and "split_on d ([] @ b) = [] @ ([] @ v) # vs" by simp_all
  then show ?case by blast
next
  case (2 d c s)
  show ?case
  proof (cases "c = d")
    case True
    with 2 obtain ws w v vs where "split_on d s = ws @ [w]" and "split_on d (s @ b) = ws @ (w @ v) # vs"
      by blast
    with True have "split_on d (c # s) = ([] # ws) @ [w] \<and> split_on d ((c # s) @ b) = ([] # ws) @ (w @ v) # vs"
      by simp
    then show ?thesis by blast
  next
    case False
    with 2 obtain ws w v vs where *: "split_on d s = ws @ [w]" "split_on d (s @ b) = ws @ (w @ v) # vs"
      by blast
    show ?thesis
    proof (cases ws)
      case Nil
      with * False have "split_on d (c # s) = [] @ [c # w] \<and> split_on d ((c # s) @ b) = [] @ ((c # w) @ v) # vs"
        by simp
      then show ?thesis by blast
    next
      case (Cons u us)
      with * False have "split_on d (c # s) = ((c # u) # us) @ [w]
          \<and> split_on d ((c # s) @ b) = ((c # u) # us) @ (w @ v) # vs"
        by simp
      then show ?thesis by blast
    qed
  qed
qed

lemma flush_event_length: "length (flush_event st) \<le> 1"
  by (simp add: flush_event_def split: prod.split)

lemma sse_line_then_flush: "length (fst (sse_line st l) @ flush_event (snd (sse_line st l))) \<le> 1"
  by (cases st) (auto simp: sse_line_def flush_event_def Let_def split: prod.split)

lemma last_line_flush:
  assumes "scan_pieces [w] = (ls, long)"
  shows "length (fst (sse_lines st ls) @ flush_event (snd (sse_lines st ls))) \<le> 1"
proof -
  from assms have "ls = [] \<or> ls = [drop_cr w]" by (auto split: if_splits)
  then show ?thesis
    using sse_line_then_flush [of st "drop_cr w"] flush_event_length [of st]
    by (auto simp: Let_def split: prod.splits)
qed

lemma prefix_butlast: "length ys \<le> 1 \<Longrightarrow> prefix (butlast (xs @ ys)) xs"
  by (cases ys) (auto simp: prefixeq_butlast)

text \<open>
  Wherever the connection breaks, the events read from the bytes that did arrive are those of the
  whole response, but possibly for the last one, which may be cut short.
\<close>

theorem broken_stream_prefix:
  "prefix (butlast (fst (parse_sse a err))) (fst (parse_sse (a @ b) err'))"
proof -
  obtain ws w v vs where p: "split_on newline a = ws @ [w]" "split_on newline (a @ b) = ws @ (w @ v) # vs"
    using split_on_append_pieces by blast
  let ?st = "snd (sse_lines (no_event, []) (map drop_cr ws))"
  let ?es = "fst (sse_lines (no_event, []) (map drop_cr ws))"
  have body: "fst (parse_sse s e) = fst (sse_lines (no_event, []) ls) @ flush_event (snd (sse_lines (no_event, []) ls))"
    if "fst (scan_pieces (split_on newline s)) = ls" for s e ls
    using that by (auto simp: parse_sse_def scan_lines_def Let_def split: prod.split)
  show ?thesis
  proof (cases "list_all short ws")
    case True
    obtain ls long where ls: "scan_pieces [w] = (ls, long)" by (cases "scan_pieces [w]")
    obtain ls' long' where ls': "scan_pieces ((w @ v) # vs) = (ls', long')"
      by (cases "scan_pieces ((w @ v) # vs)")
    have "fst (parse_sse a err) = ?es @ fst (sse_lines ?st ls) @ flush_event (snd (sse_lines ?st ls))"
      using True ls p(1) by (subst body [OF refl])
        (simp add: scan_pieces_append sse_lines_append Let_def split: prod.split)
    then have "prefix (butlast (fst (parse_sse a err))) ?es"
      using prefix_butlast last_line_flush [OF ls] by metis
    moreover have "fst (parse_sse (a @ b) err') = ?es @ fst (sse_lines ?st ls') @ flush_event (snd (sse_lines ?st ls'))"
      using True ls' p(2) by (subst body [OF refl])
        (simp add: scan_pieces_append sse_lines_append Let_def split: prod.split)
    ultimately show ?thesis by (simp add: prefix_order.trans)
  next
    case False
    then have "fst (parse_sse a err) = fst (parse_sse (a @ b) err')"
      using p by (simp add: parse_sse_def scan_lines_def scan_pieces_append)
    then show ?thesis by (simp add: prefixeq_butlast)
  qed
qed

text \<open>
  An event without data is not dispatched, but its name is kept and given to the next event that has
  data.
\<close>

lemma name_outlives_event:
  "fst (parse_sse (''event: ping'' @ [newline, newline] @ ''data: x'' @ [newline, newline]) None)
   = [no_event\<lparr>ev_event := ''ping'', ev_data := ''x''\<rparr>]"
  by (simp add: parse_sse_def scan_lines_def max_token_size_def drop_cr_def carriage_return_def
      sse_line_def has_prefix_def flush_event_def no_event_def Let_def)

end
