(* ===== verification/Wire.thy ===== *)
theory Wire
  imports Transform
begin

text \<open>
  Converting a conversation to Anthropic's wire format (\<^verbatim>\<open>pkg/ai/providers/anthropic.go\<close>): the blocks
  of each role, the clean-ups the API's validator needs, the names of tools.

  A content block is a \<^verbatim>\<open>map[string]any\<close>, here the list of its members. The alias tables extensions
  register are a list of maps in the order Go's \<^verbatim>\<open>range\<close> happens to visit them. \<open>render\<close> is
  \<^verbatim>\<open>ai.RenderToolResultMeta\<close> as in \<^verbatim>\<open>Transform\<close>.
\<close>

record wire_model = llm_model +
  wm_base_url :: string
  wm_max_tokens :: go_int
  wm_headers :: "(string \<times> string) list"
  wm_eager_input :: "bool option"
  wm_long_cache :: "bool option"
  wm_adaptive :: bool
  wm_reasoning :: bool
  wm_efforts :: "string list"
  wm_server_tools :: "string list"
  wm_compaction :: bool

type_synonym block = members

record wire_msg =
  wr_role :: string
  wr_content :: "block list"

definition str_of :: "block \<Rightarrow> string \<Rightarrow> string" where
  "str_of b k = (case get_str b k of None \<Rightarrow> [] | Some s \<Rightarrow> s)"

definition block_type :: "block \<Rightarrow> string" where
  "block_type b = str_of b ''type''"

definition wire_text :: "string \<Rightarrow> block" where
  "wire_text s = [(''type'', JStr ''text''), (''text'', JStr s)]"

definition wire_image :: "string \<Rightarrow> string \<Rightarrow> block" where
  "wire_image mime dat =
     [(''type'', JStr ''image''),
      (''source'', JObj [(''type'', JStr ''base64''), (''media_type'', JStr mime), (''data'', JStr dat)])]"

definition blank :: "string \<Rightarrow> bool" where
  "blank s \<longleftrightarrow> trim_space s = []"

lemma lookup_cons: "lookup ((k, v) # ms) k' = (case lookup ms k' of None \<Rightarrow> if k' = k then Some v else None | x \<Rightarrow> x)"
  by (auto simp: lookup_def map_add_def split: option.split)

lemma lookup_Nil [simp]: "lookup [] k = None"
  by (simp add: lookup_def)

lemma lookup_remove_key: "k \<noteq> k' \<Longrightarrow> lookup (remove_key k b) k' = lookup b k'"
  using map_of_filter [of "\<lambda>x. x \<noteq> k" "rev b"] by (simp add: lookup_def remove_key_def rev_filter)

subsection \<open>Tool names and ids\<close>

type_synonym alias_tables = "(string \<times> (string \<times> string) list) list"

definition equal_fold :: "string \<Rightarrow> string \<Rightarrow> bool" where
  "equal_fold a b \<longleftrightarrow> to_lower a = to_lower b"

text \<open>
  \<^verbatim>\<open>RegisterToolNameAliases\<close>: entries with an empty key or value are skipped, keys lower-cased; an
  empty map removes the extension's table. The copy is filled in \<^verbatim>\<open>range\<close> order.
\<close>

definition lowered_aliases :: "(string \<times> string) list \<Rightarrow> (string \<times> string) list" where
  "lowered_aliases al =
     fold (\<lambda>(k, v) m. if k = [] \<or> v = [] then m else put (to_lower k) v m) al []"

definition register_tool_name_aliases ::
  "string \<Rightarrow> (string \<times> string) list \<Rightarrow> alias_tables \<Rightarrow> alias_tables" where
  "register_tool_name_aliases ext al tables =
     (if al = [] then remove_key ext tables else put ext (lowered_aliases al) tables)"

definition unregister_tool_name_aliases :: "string \<Rightarrow> alias_tables \<Rightarrow> alias_tables" where
  "unregister_tool_name_aliases ext tables = remove_key ext tables"

fun lookup_tool_alias :: "alias_tables \<Rightarrow> string \<Rightarrow> string" where
  "lookup_tool_alias [] our = []"
| "lookup_tool_alias ((ext, m) # ts) our =
     (case map_of m (to_lower our) of Some cc \<Rightarrow> cc | None \<Rightarrow> lookup_tool_alias ts our)"

fun lookup_tool_alias_reverse :: "alias_tables \<Rightarrow> string \<Rightarrow> string" where
  "lookup_tool_alias_reverse [] cc = []"
| "lookup_tool_alias_reverse ((ext, m) # ts) cc =
     (case find (\<lambda>p. equal_fold (snd p) cc) m of
        Some p \<Rightarrow> fst p
      | None \<Rightarrow> lookup_tool_alias_reverse ts cc)"

text \<open>The table \<^verbatim>\<open>ccToolLookup\<close> is empty.\<close>

definition cc_tool_lookup :: "string \<rightharpoonup> string" where
  "cc_tool_lookup = Map.empty"

definition to_claude_code_name :: "alias_tables \<Rightarrow> string \<Rightarrow> string" where
  "to_claude_code_name tables name =
     (case cc_tool_lookup (to_lower name) of
        Some cc \<Rightarrow> cc
      | None \<Rightarrow> (let cc = lookup_tool_alias tables name in if cc \<noteq> [] then cc else name))"

definition from_claude_code_name :: "alias_tables \<Rightarrow> string \<Rightarrow> string list \<Rightarrow> string" where
  "from_claude_code_name tables name tools =
     (case find (\<lambda>t. to_lower t = to_lower name) tools of
        Some t \<Rightarrow> t
      | None \<Rightarrow>
          (let ours = lookup_tool_alias_reverse tables name
           in if ours = [] then name
              else case find (\<lambda>t. equal_fold t ours) tools of Some t \<Rightarrow> t | None \<Rightarrow> name))"

definition id_char :: "char \<Rightarrow> bool" where
  "id_char c \<longleftrightarrow> in_range 97 122 c \<or> in_range 65 90 c \<or> in_range 48 57 c \<or> c = CHR ''_'' \<or> c = CHR ''-''"

definition id_rune :: "string \<Rightarrow> char" where
  "id_rune r = (case r of [c] \<Rightarrow> if id_char c then c else CHR ''_'' | _ \<Rightarrow> CHR ''_'')"

definition normalize_anthropic_tool_call_id :: "string \<Rightarrow> string" where
  "normalize_anthropic_tool_call_id i = take 64 (map id_rune (runes i))"

subsection \<open>User and assistant messages\<close>

definition user_block :: "wire_model \<Rightarrow> json \<Rightarrow> block list" where
  "user_block md item =
     (case item of
        JObj m \<Rightarrow>
          if block_type m = ''text'' then (if blank (str_of m ''text'') then [] else [wire_text (str_of m ''text'')])
          else if block_type m = ''image'' then
            (if md_images md then [wire_image (str_of m ''mimeType'') (str_of m ''data'')] else [])
          else []
      | _ \<Rightarrow> [])"

definition message_with :: "string \<Rightarrow> block list \<Rightarrow> wire_msg list" where
  "message_with role blocks = (if blocks = [] then [] else [\<lparr>wr_role = role, wr_content = blocks\<rparr>])"

definition user_blocks :: "wire_model \<Rightarrow> json \<Rightarrow> block list" where
  "user_blocks md content =
     (case content of
        JStr s \<Rightarrow> if blank s then [] else [wire_text s]
      | JArr items \<Rightarrow> concat (map (user_block md) items)
      | _ \<Rightarrow> [])"

fun assistant_block :: "(string \<Rightarrow> string) \<Rightarrow> assistant_content \<Rightarrow> block list" where
  "assistant_block naming (CText t) = (if blank (txt_text t) then [] else [wire_text (txt_text t)])"
| "assistant_block naming (CThinking b) =
     (if th_redacted b then [[(''type'', JStr ''redacted_thinking''), (''data'', JStr (th_sig b))]]
      else if th_sig b \<noteq> [] then
        [[(''type'', JStr ''thinking''), (''thinking'', JStr (th_text b)), (''signature'', JStr (th_sig b))]]
      else if blank (th_text b) then []
      else [wire_text (th_text b)])"
| "assistant_block naming (CToolCall tc) =
     [[(''type'', JStr ''tool_use''), (''id'', JStr (tc_id tc)), (''name'', JStr (naming (tc_name tc))),
       (''input'', JObj (tc_args tc))]]"
| "assistant_block naming (CServer b) =
     (case object_members (srv_raw b) of None \<Rightarrow> [] | Some ms \<Rightarrow> [ms])"
| "assistant_block naming (COther j) = []"

subsection \<open>What the validator rejects\<close>

text \<open>\<^verbatim>\<open>dropOrphanedServerToolUse\<close>.\<close>

definition resolved_ids :: "block list \<Rightarrow> string list" where
  "resolved_ids blocks = filter (\<lambda>i. i \<noteq> []) (map (\<lambda>b. str_of b ''tool_use_id'') blocks)"

definition orphan_use :: "string list \<Rightarrow> block \<Rightarrow> bool" where
  "orphan_use resolved b \<longleftrightarrow>
     block_type b = ''server_tool_use'' \<and> (str_of b ''id'' = [] \<or> str_of b ''id'' \<notin> set resolved)"

definition drop_orphaned_server_tool_use :: "block list \<Rightarrow> block list" where
  "drop_orphaned_server_tool_use blocks = filter (\<lambda>b. \<not> orphan_use (resolved_ids blocks) b) blocks"

text \<open>\<^verbatim>\<open>stripTrailingEmptyThinking\<close>.\<close>

definition empty_thinking :: "block \<Rightarrow> bool" where
  "empty_thinking b \<longleftrightarrow> block_type b = ''thinking'' \<and> blank (str_of b ''thinking'')"

definition strip_trailing_empty_thinking :: "block list \<Rightarrow> block list" where
  "strip_trailing_empty_thinking blocks = rev (dropWhile empty_thinking (rev blocks))"

text \<open>\<^verbatim>\<open>separateAdjacentThinkingBlocks\<close>.\<close>

definition is_thinking_type :: "string \<Rightarrow> bool" where
  "is_thinking_type t \<longleftrightarrow> t = ''thinking'' \<or> t = ''redacted_thinking''"

definition is_thinking_block :: "block \<Rightarrow> bool" where
  "is_thinking_block b \<longleftrightarrow> is_thinking_type (block_type b)"

definition thinking_separator :: block where
  "thinking_separator = wire_text ''(thinking-block separator inserted by fir)''"

fun separate_adjacent_thinking_blocks :: "block list \<Rightarrow> block list" where
  "separate_adjacent_thinking_blocks (a # b # bs) =
     (if is_thinking_block a \<and> is_thinking_block b
      then a # thinking_separator # separate_adjacent_thinking_blocks (b # bs)
      else a # separate_adjacent_thinking_blocks (b # bs))"
| "separate_adjacent_thinking_blocks bs = bs"

definition assistant_blocks :: "(string \<Rightarrow> string) \<Rightarrow> assistant_content list \<Rightarrow> block list" where
  "assistant_blocks naming content =
     separate_adjacent_thinking_blocks
       (strip_trailing_empty_thinking
          (drop_orphaned_server_tool_use (concat (map (assistant_block naming) content))))"

text \<open>\<^verbatim>\<open>pruneEmptyAssistantTextBlocks\<close>, which the end of a stream applies to what is stored.\<close>

definition empty_text :: "assistant_content \<Rightarrow> bool" where
  "empty_text c \<longleftrightarrow> (case c of CText t \<Rightarrow> blank (txt_text t) | _ \<Rightarrow> False)"

definition prune_empty_assistant_text_blocks :: "assistant_content list \<Rightarrow> assistant_content list" where
  "prune_empty_assistant_text_blocks content = filter (\<lambda>c. \<not> empty_text c) content"

subsection \<open>Tool results\<close>

definition result_text :: "result_content \<Rightarrow> string list" where
  "result_text c = (if rc_is_text c \<or> (rc_type c = [] \<and> rc_text c \<noteq> []) then [rc_text c] else [])"

definition result_block :: "result_content \<Rightarrow> block list" where
  "result_block c =
     (if rc_is_text c then [wire_text (rc_text c)]
      else if rc_is_image c then [wire_image (rc_mime c) (rc_data c)] else [])"

definition convert_tool_result_content :: "wire_model \<Rightarrow> result_content list \<Rightarrow> json" where
  "convert_tool_result_content md content =
     (if md_images md \<and> list_ex rc_is_image content
      then JArr (map JObj (concat (map result_block content)))
      else JStr (join [newline] (concat (map result_text content))))"

definition tool_result_block :: "wire_model \<Rightarrow> tool_result_msg \<Rightarrow> block" where
  "tool_result_block md tr =
     [(''type'', JStr ''tool_result''), (''tool_use_id'', JStr (tr_call_id tr)),
      (''content'', convert_tool_result_content md (tr_content tr)), (''is_error'', JBool (tr_is_error tr))]"

fun results_first :: "message list \<Rightarrow> tool_result_msg list" where
  "results_first (MToolResult tr # ms) = tr # results_first ms"
| "results_first _ = []"

fun after_results :: "message list \<Rightarrow> message list" where
  "after_results (MToolResult tr # ms) = after_results ms"
| "after_results ms = ms"

lemma after_results_length: "length (after_results ms) \<le> length ms"
  by (induction ms rule: after_results.induct) auto

subsection \<open>The message array\<close>

text \<open>The loop of \<^verbatim>\<open>convertAnthropicMessages\<close>: a run of tool results is one user message.\<close>

function convert_loop :: "(string \<Rightarrow> string) \<Rightarrow> wire_model \<Rightarrow> message list \<Rightarrow> wire_msg list" where
  "convert_loop naming md [] = []"
| "convert_loop naming md (MUser u # ms) =
     message_with ''user'' (user_blocks md (um_content u)) @ convert_loop naming md ms"
| "convert_loop naming md (MAssistant a # ms) =
     message_with ''assistant'' (assistant_blocks naming (am_content a)) @ convert_loop naming md ms"
| "convert_loop naming md (MToolResult tr # ms) =
     \<lparr>wr_role = ''user'', wr_content = map (tool_result_block md) (tr # results_first ms)\<rparr>
     # convert_loop naming md (after_results ms)"
| "convert_loop naming md (MOther r # ms) = convert_loop naming md ms"
  by pat_completeness auto

termination
proof (relation "measure (\<lambda>(naming, md, ms). length ms)")
  fix naming md tr ms
  show "((naming, md, after_results ms), naming, md, MToolResult tr # ms)
      \<in> measure (\<lambda>(naming, md, ms). length ms)"
    using after_results_length [of ms] by simp
qed auto

definition tool_naming :: "alias_tables \<Rightarrow> bool \<Rightarrow> string \<Rightarrow> string" where
  "tool_naming tables oauth = (if oauth then to_claude_code_name tables else (\<lambda>n. n))"

definition transformed_for ::
  "(json option \<Rightarrow> string) \<Rightarrow> wire_model \<Rightarrow> message list \<Rightarrow> message list" where
  "transformed_for render md ms =
     transform_messages render ms (llm_model.truncate md)
       (Some (\<lambda>i _ _. normalize_anthropic_tool_call_id i))"

subsection \<open>Cache breakpoints\<close>

datatype retention = CacheNone | CacheShort | CacheLong

definition supports_long_cache :: "wire_model \<Rightarrow> bool" where
  "supports_long_cache md = (case wm_long_cache md of None \<Rightarrow> True | Some b \<Rightarrow> b)"

definition cache_control_block :: "wire_model \<Rightarrow> retention \<Rightarrow> json" where
  "cache_control_block md r =
     JObj ((''type'', JStr ''ephemeral'')
           # (if r = CacheLong \<and> supports_long_cache md then [(''ttl'', JStr ''1h'')] else []))"

definition cc_key :: string where
  "cc_key = ''cache_control''"

text \<open>\<^verbatim>\<open>m[k] = v\<close> on the members of a block, and the breakpoint on the last block of a list.\<close>

definition set_member :: "string \<Rightarrow> json \<Rightarrow> block \<Rightarrow> block" where
  "set_member k v b = remove_key k b @ [(k, v)]"

definition mark_last :: "json \<Rightarrow> block list \<Rightarrow> block list" where
  "mark_last cc bs = (if bs = [] then [] else butlast bs @ [set_member cc_key cc (last bs)])"

definition marked :: "block \<Rightarrow> bool" where
  "marked b \<longleftrightarrow> cc_key \<in> fst ` set b"

definition mark_message :: "json \<Rightarrow> wire_msg \<Rightarrow> wire_msg" where
  "mark_message cc m = m\<lparr>wr_content := mark_last cc (wr_content m)\<rparr>"

definition mark_tail :: "wire_model \<Rightarrow> retention \<Rightarrow> wire_msg list \<Rightarrow> wire_msg list" where
  "mark_tail md r params =
     (if r \<noteq> CacheNone \<and> params \<noteq> [] \<and> wr_role (last params) = ''user''
      then butlast params @ [mark_message (cache_control_block md r) (last params)]
      else params)"

definition convert_anthropic_messages ::
  "(json option \<Rightarrow> string) \<Rightarrow> alias_tables \<Rightarrow> wire_model \<Rightarrow> bool \<Rightarrow> retention \<Rightarrow> message list \<Rightarrow> wire_msg list" where
  "convert_anthropic_messages render tables md oauth r ms =
     mark_tail md r (convert_loop (tool_naming tables oauth) md (transformed_for render md ms))"

end
