(* ===== verification/CacheLayout.thy ===== *)
theory CacheLayout
  imports Wire Sections
begin

text \<open>
  Where the cache breakpoints of an Anthropic request go (\<^verbatim>\<open>anthropic.go\<close>, \<^verbatim>\<open>turncache.go\<close>,
  \<^verbatim>\<open>sidequery.go\<close>) and the guard that watches the prefix of successive requests (\<^verbatim>\<open>cacheguard.go\<close>).

  The code marks blocks in place. The system blocks that carry a breakpoint share their maps with the
  request's system blocks, and are a suffix of them: \<open>build_system\<close> returns the two parts, and the
  request's blocks are their concatenation.
\<close>

subsection \<open>The system prompt\<close>

text \<open>\<^verbatim>\<open>SplitSystemPrompt\<close> of \<^verbatim>\<open>pkg/ai/sysprompt.go\<close>.\<close>

definition cache_boundary :: string where
  "cache_boundary = CHR 0x00 # ''fir:system-cache-boundary'' @ [CHR 0x00]"

lemma cache_boundary_length: "length cache_boundary = 27"
  by (simp add: cache_boundary_def)

function flatten_system_prompt :: "string \<Rightarrow> string" where
  "flatten_system_prompt [] = []"
| "flatten_system_prompt (c # s) =
     (if has_prefix (c # s) cache_boundary
      then flatten_system_prompt (drop (length cache_boundary) (c # s))
      else c # flatten_system_prompt s)"
  by pat_completeness auto

termination
  by (relation "measure length") (auto simp: cache_boundary_length)

fun split_at_boundary :: "string \<Rightarrow> (string \<times> string) option" where
  "split_at_boundary [] = None"
| "split_at_boundary (c # s) =
     (if has_prefix (c # s) cache_boundary then Some ([], drop (length cache_boundary) (c # s))
      else map_option (\<lambda>(a, b). (c # a, b)) (split_at_boundary s))"

definition split_system_prompt :: "string \<Rightarrow> string \<times> string" where
  "split_system_prompt s =
     (case split_at_boundary s of
        None \<Rightarrow> ([], s)
      | Some (a, b) \<Rightarrow> (a, flatten_system_prompt b))"

definition oauth_system_header :: string where
  "oauth_system_header = ''x-anthropic-oauth-system-prefix''"

definition oauth_beta_header :: string where
  "oauth_beta_header = ''x-anthropic-oauth-beta-prefix''"

definition build_system :: "wire_model \<Rightarrow> retention \<Rightarrow> string \<Rightarrow> block list \<times> block list" where
  "build_system md r prompt =
     (let prefix = (case map_of (wm_headers md) oauth_system_header of
                      Some p \<Rightarrow> if p \<noteq> [] then [wire_text p] else [] | None \<Rightarrow> []);
          (core, rest) = split_system_prompt prompt;
          halves = map wire_text (filter (\<lambda>t. \<not> blank t) [core, rest])
      in if r \<noteq> CacheNone
         then (prefix, map (set_member cc_key (cache_control_block md r)) halves)
         else (prefix @ halves, []))"

subsection \<open>Breakpoints on messages\<close>

definition mark_sections_breakpoint :: "wire_model \<Rightarrow> retention \<Rightarrow> wire_msg list \<Rightarrow> wire_msg list" where
  "mark_sections_breakpoint md r msgs =
     (case msgs of
        [] \<Rightarrow> []
      | m # ms \<Rightarrow>
          if r = CacheNone \<or> wr_role m \<noteq> ''user'' \<or> wr_content m = []
             \<or> \<not> has_prefix (str_of (hd (wr_content m)) ''text'') block_header then msgs
          else mark_message (cache_control_block md r) m # ms)"

definition max_cache_breakpoints :: nat where
  "max_cache_breakpoints = 4"

definition count_message_breakpoints :: "wire_msg list \<Rightarrow> nat" where
  "count_message_breakpoints msgs = length (filter marked (concat (map wr_content msgs)))"

text \<open>The system breakpoints are dropped from the last one back; the list is walked reversed.\<close>

fun trim_rev :: "nat \<Rightarrow> block list \<Rightarrow> block list" where
  "trim_rev n [] = []"
| "trim_rev n (b # bs) =
     (if max_cache_breakpoints < length (b # bs) + n then remove_key cc_key b # trim_rev n bs else b # bs)"

definition trim_system_breakpoints :: "block list \<Rightarrow> nat \<Rightarrow> block list" where
  "trim_system_breakpoints system n = rev (trim_rev n (rev system))"

definition set_cache_control :: "wire_model \<Rightarrow> retention \<Rightarrow> nat \<Rightarrow> wire_msg list \<Rightarrow> wire_msg list" where
  "set_cache_control md r i msgs = msgs[i := mark_message (cache_control_block md r) (msgs ! i)]"

subsection \<open>The anchors of a turn\<close>

definition is_tool_result_blocks :: "block list \<Rightarrow> bool" where
  "is_tool_result_blocks bs = list_ex (\<lambda>b. block_type b = ''tool_result'') bs"

definition user_turn :: "wire_msg \<Rightarrow> bool" where
  "user_turn m \<longleftrightarrow> wr_role m = ''user'' \<and> wr_content m \<noteq> [] \<and> \<not> is_tool_result_blocks (wr_content m)"

definition last_user_turn_index :: "wire_msg list \<Rightarrow> nat \<Rightarrow> nat option" where
  "last_user_turn_index msgs end = find_last_from user_turn msgs end"

definition relabel :: "json \<Rightarrow> block \<Rightarrow> block" where
  "relabel cc b = (if marked b then set_member cc_key cc b else b)"

definition relabel_message :: "json \<Rightarrow> wire_msg \<Rightarrow> wire_msg" where
  "relabel_message cc m = m\<lparr>wr_content := map (relabel cc) (wr_content m)\<rparr>"

definition apply_turn_long_cache ::
  "wire_model \<Rightarrow> retention \<Rightarrow> block list \<Rightarrow> wire_msg list \<Rightarrow> block list \<times> wire_msg list" where
  "apply_turn_long_cache md r system msgs =
     (if r \<noteq> CacheShort \<or> \<not> supports_long_cache md then (system, msgs)
      else case last_user_turn_index msgs (length msgs) of
             None \<Rightarrow> (system, msgs)
           | Some anchor \<Rightarrow>
               (let long = cache_control_block md CacheLong;
                    msgs1 = set_cache_control md CacheLong anchor msgs;
                    msgs2 = (case last_user_turn_index msgs1 anchor of
                               None \<Rightarrow> msgs1 | Some prev \<Rightarrow> set_cache_control md CacheLong prev msgs1)
                in (map (relabel long) system,
                    map (relabel_message long) (take anchor msgs2) @ drop anchor msgs2)))"

text \<open>The environment variable overrides the process-wide switch.\<close>

definition turn_long_cache_enabled :: "string \<Rightarrow> bool \<Rightarrow> bool" where
  "turn_long_cache_enabled env_value switch =
     (if env_value \<in> {''0'', ''false'', ''off''} then False
      else if env_value \<in> {''1'', ''true'', ''on''} then True
      else switch)"

subsection \<open>Side queries\<close>

record side_anchor =
  an_index :: go_int
  an_hash :: string

record anchor_store =
  as_map :: "string \<rightharpoonup> side_anchor"
  as_order :: "string list"

definition max_side_query_anchors :: nat where
  "max_side_query_anchors = 64"

definition empty_anchors :: anchor_store where
  "empty_anchors = \<lparr>as_map = Map.empty, as_order = []\<rparr>"

definition put_anchor :: "string \<Rightarrow> side_anchor \<Rightarrow> anchor_store \<Rightarrow> anchor_store" where
  "put_anchor key a s =
     (if as_map s key \<noteq> None then s\<lparr>as_map := (as_map s)(key \<mapsto> a)\<rparr>
      else let s1 = (if max_side_query_anchors \<le> length (as_order s)
                     then s\<lparr>as_map := (as_map s)(hd (as_order s) := None), as_order := tl (as_order s)\<rparr>
                     else s)
           in s1\<lparr>as_map := (as_map s1)(key \<mapsto> a), as_order := as_order s1 @ [key]\<rparr>)"

definition side_query_session_id :: "string \<Rightarrow> string \<Rightarrow> string" where
  "side_query_session_id session_id model_id =
     (if session_id = [] then [] else session_id @ '':sidequery:'' @ model_id)"

text \<open>What the guard and the anchors hash: a message without its breakpoints.\<close>

definition strip_cache_control_blocks :: "block list \<Rightarrow> block list" where
  "strip_cache_control_blocks bs = map (remove_key cc_key) bs"

definition message_json :: "wire_msg \<Rightarrow> json" where
  "message_json m = JObj [(''role'', JStr (wr_role m)), (''content'', JArr (map JObj (wr_content m)))]"

definition strip_cache_control :: "wire_msg \<Rightarrow> wire_msg" where
  "strip_cache_control m = m\<lparr>wr_content := strip_cache_control_blocks (wr_content m)\<rparr>"

definition message_hash :: "(json \<Rightarrow> string) \<Rightarrow> wire_msg \<Rightarrow> string" where
  "message_hash hash m = hash (message_json (strip_cache_control m))"

definition last_stable_history_index :: "wire_msg list \<Rightarrow> nat option" where
  "last_stable_history_index params =
     find_last_from (\<lambda>m. wr_role m = ''user'') params (length params - 1)"

definition usable_anchor :: "(json \<Rightarrow> string) \<Rightarrow> wire_msg list \<Rightarrow> nat \<Rightarrow> side_anchor \<Rightarrow> bool" where
  "usable_anchor hash params wr a \<longleftrightarrow>
     0 \<le> an_index a \<and> an_index a < int wr \<and> message_hash hash (params ! nat (an_index a)) = an_hash a"

definition apply_side_query_cache_control ::
  "(json \<Rightarrow> string) \<Rightarrow> wire_model \<Rightarrow> retention \<Rightarrow> string \<Rightarrow> wire_msg list \<Rightarrow> anchor_store
     \<Rightarrow> wire_msg list \<times> anchor_store" where
  "apply_side_query_cache_control hash md r key params s =
     (if r = CacheNone then (params, s)
      else case last_stable_history_index params of
             None \<Rightarrow> (params, s)
           | Some wr \<Rightarrow>
               (let wr_hash = message_hash hash (params ! wr);
                    params1 = (case as_map s key of
                                 Some a \<Rightarrow> if key \<noteq> [] \<and> usable_anchor hash params wr a
                                           then set_cache_control md r (nat (an_index a)) params else params
                               | None \<Rightarrow> params);
                    placed = (wr_content (params1 ! wr) \<noteq> [])
                in (set_cache_control md r wr params1,
                    if key \<noteq> [] \<and> placed
                    then put_anchor key \<lparr>an_index = int wr, an_hash = wr_hash\<rparr> s else s)))"

subsection \<open>The guard of the prefix\<close>

record prefix_guard =
  pg_hashes :: "string list"
  pg_system_hash :: string

definition new_prefix_guard :: prefix_guard where
  "new_prefix_guard = \<lparr>pg_hashes = [], pg_system_hash = []\<rparr>"

definition guard_check ::
  "(json \<Rightarrow> string) \<Rightarrow> block list \<Rightarrow> wire_msg list \<Rightarrow> prefix_guard \<Rightarrow> nat \<times> prefix_guard" where
  "guard_check hash system msgs pg =
     (let sys = hash (JArr (map JObj (strip_cache_control_blocks system)));
          hashes = map (message_hash hash) msgs;
          moved = length (filter (\<lambda>(old, new). new \<noteq> old) (zip (pg_hashes pg) hashes))
      in ((if pg_system_hash pg \<noteq> [] \<and> sys \<noteq> pg_system_hash pg then 1 else 0) + moved,
          \<lparr>pg_hashes = hashes, pg_system_hash = sys\<rparr>))"

definition guard_reset :: "prefix_guard \<Rightarrow> prefix_guard" where
  "guard_reset pg = new_prefix_guard"

end
