(* ===== verification/ProviderOptions.thy ===== *)
theory ProviderOptions
  imports Wire
begin

text \<open>
  The options of a provider call (\<^verbatim>\<open>pkg/ai/providers/options.go\<close>): the options derived from the
  simple ones, the clamping of reasoning levels, the split of the output budget between thinking and
  answer. \<open>supports_xhigh\<close> and \<open>supports_max\<close> are \<^verbatim>\<open>ai.SupportsXhigh\<close> and \<^verbatim>\<open>ai.SupportsMax\<close> of the module
  outside the repository.
\<close>

subsection \<open>Options\<close>

record server_tool =
  st_type :: string
  st_name :: string
  st_max_uses :: go_int
  st_allowed :: "string list"
  st_blocked :: "string list"
  st_location :: "json option"

record server_compaction =
  sc_enabled :: bool
  sc_trigger :: go_int
  sc_instructions :: string

record stream_options =
  so_temperature :: "string option"
  so_max_tokens :: "go_int option"
  so_api_key :: string
  so_api_key_error :: string
  so_retention :: "retention option"
  so_session_id :: string
  so_headers :: "(string \<times> string) list option"
  so_max_retry_delay :: "go_int option"
  so_server_tools :: "server_tool list"
  so_compaction :: "server_compaction option"
  so_reasoning_effort :: string
  so_tool_choice :: string
  so_metadata :: members

datatype thinking_level =
    LevelUnset | LevelOff | LevelMinimal | LevelLow | LevelMedium | LevelHigh | LevelXHigh | LevelMax
  | LevelOther string

record thinking_budgets =
  tb_minimal :: "go_int option"
  tb_low :: "go_int option"
  tb_medium :: "go_int option"
  tb_high :: "go_int option"

record simple_options = stream_options +
  so_reasoning :: thinking_level
  so_budgets :: "thinking_budgets option"

text \<open>\<^verbatim>\<open>%q\<close> writes a text in double quotes; the provider names it is used on have nothing to escape.\<close>

definition quoted :: "string \<Rightarrow> string" where
  "quoted s = [CHR 0x22] @ s @ [CHR 0x22]"

definition no_api_key_error :: "string \<Rightarrow> string \<Rightarrow> string" where
  "no_api_key_error provider detail =
     (if detail \<noteq> [] then ''no API key for provider '' @ quoted provider @ '': '' @ detail
      else ''no API key for provider '' @ quoted provider @ ''. Set an API key or run '' @ [CHR 0x27]
           @ ''fir login '' @ provider @ [CHR 0x27])"

definition default_max_tokens :: "wire_model \<Rightarrow> go_int option" where
  "default_max_tokens md = (if 0 < wm_max_tokens md then Some (min (wm_max_tokens md) 32000) else None)"

definition no_options :: stream_options where
  "no_options = \<lparr>so_temperature = None, so_max_tokens = None, so_api_key = [], so_api_key_error = [],
     so_retention = None, so_session_id = [], so_headers = None, so_max_retry_delay = None,
     so_server_tools = [], so_compaction = None, so_reasoning_effort = [], so_tool_choice = [],
     so_metadata = []\<rparr>"

definition build_base_options ::
  "wire_model \<Rightarrow> simple_options option \<Rightarrow> string \<Rightarrow> stream_options" where
  "build_base_options md opts api_key =
     (case opts of
        None \<Rightarrow> no_options\<lparr>so_max_tokens := default_max_tokens md, so_api_key := api_key\<rparr>
      | Some so \<Rightarrow>
          (stream_options.truncate so)
            \<lparr>so_max_tokens := (case so_max_tokens so of None \<Rightarrow> default_max_tokens md | Some n \<Rightarrow> Some n),
             so_api_key := (if api_key = [] then so_api_key so else api_key)\<rparr>)"

subsection \<open>Reasoning levels\<close>

definition clamp_reasoning :: "thinking_level \<Rightarrow> thinking_level" where
  "clamp_reasoning l = (if l = LevelXHigh \<or> l = LevelMax then LevelHigh else l)"

definition clamp_reasoning_for_model ::
  "(wire_model \<Rightarrow> bool) \<Rightarrow> (wire_model \<Rightarrow> bool) \<Rightarrow> thinking_level \<Rightarrow> wire_model \<Rightarrow> thinking_level" where
  "clamp_reasoning_for_model supports_xhigh supports_max l md =
     (case l of
        LevelMax \<Rightarrow> if supports_max md then LevelMax else if supports_xhigh md then LevelXHigh else LevelHigh
      | LevelXHigh \<Rightarrow> if supports_xhigh md then LevelXHigh else LevelHigh
      | _ \<Rightarrow> l)"

definition effort_ladder :: "string list" where
  "effort_ladder = [''none'', ''minimal'', ''low'', ''medium'', ''high'', ''xhigh'', ''max'']"

fun index_in :: "string \<Rightarrow> string list \<Rightarrow> int \<Rightarrow> int" where
  "index_in s [] i = -1"
| "index_in s (v # vs) i = (if v = s then i else index_in s vs (i + 1))"

definition effort_rank :: "string \<Rightarrow> int" where
  "effort_rank s = index_in (if s = ''extra-high'' then ''xhigh'' else s) effort_ladder 0"

fun nearest_effort :: "int \<Rightarrow> string \<times> int \<times> int \<Rightarrow> string list \<Rightarrow> string \<times> int \<times> int" where
  "nearest_effort want acc [] = acc"
| "nearest_effort want (best, dist, rank) (v # vs) =
     (let r = effort_rank v; d = \<bar>r - want\<bar>
      in if r < 0 then nearest_effort want (best, dist, rank) vs
         else if best = [] \<or> d < dist \<or> (d = dist \<and> rank < r) then nearest_effort want (v, d, r) vs
         else nearest_effort want (best, dist, rank) vs)"

definition clamp_effort_to_enum :: "string \<Rightarrow> string list \<Rightarrow> string" where
  "clamp_effort_to_enum effort allowed =
     (if allowed = [] \<or> effort = [] then effort
      else if effort \<in> set allowed then effort
      else if effort_rank effort < 0 then hd allowed
      else let (best, d, r) = nearest_effort (effort_rank effort) ([], 0, -1) allowed
           in if best = [] then hd allowed else best)"

definition map_thinking_level_to_effort :: "thinking_level \<Rightarrow> wire_model \<Rightarrow> string" where
  "map_thinking_level_to_effort l md =
     (case l of
        LevelOff \<Rightarrow> ''low'' | LevelMinimal \<Rightarrow> ''low'' | LevelLow \<Rightarrow> ''low''
      | LevelMedium \<Rightarrow> ''medium'' | LevelHigh \<Rightarrow> ''high''
      | LevelXHigh \<Rightarrow> if ''xhigh'' \<in> set (wm_efforts md) then ''xhigh'' else ''high''
      | LevelMax \<Rightarrow> ''max''
      | _ \<Rightarrow> ''high'')"

subsection \<open>The thinking budget\<close>

definition custom_or :: "(thinking_budgets \<Rightarrow> go_int option) \<Rightarrow> thinking_budgets option \<Rightarrow> go_int \<Rightarrow> go_int" where
  "custom_or field budgets n =
     (case budgets of None \<Rightarrow> n | Some b \<Rightarrow> (case field b of None \<Rightarrow> n | Some m \<Rightarrow> m))"

fun level_budget :: "thinking_budgets option \<Rightarrow> thinking_level \<Rightarrow> go_int" where
  "level_budget b LevelMinimal = custom_or tb_minimal b 1024"
| "level_budget b LevelLow = custom_or tb_low b 2048"
| "level_budget b LevelMedium = custom_or tb_medium b 8192"
| "level_budget b LevelHigh = custom_or tb_high b 16384"
| "level_budget b _ = 0"

definition min_output_tokens :: go_int where
  "min_output_tokens = 1024"

text \<open>\<^verbatim>\<open>AdjustMaxTokensForThinking\<close>: the maximum of the request and the part of it that is thinking.\<close>

definition adjust_max_tokens_for_thinking ::
  "go_int \<Rightarrow> go_int \<Rightarrow> thinking_level \<Rightarrow> thinking_budgets option \<Rightarrow> go_int \<times> go_int" where
  "adjust_max_tokens_for_thinking base_max model_max l budgets =
     (let budget = level_budget budgets (clamp_reasoning l);
          max_tokens = (if model_max < base_max + budget then model_max else base_max + budget)
      in (max_tokens,
          if max_tokens \<le> budget
          then (if max_tokens - min_output_tokens < 0 then 0 else max_tokens - min_output_tokens)
          else budget))"

lemma thinking_budget_fits:
  "0 < base_max \<Longrightarrow> 0 < model_max \<Longrightarrow> 0 \<le> level_budget budgets (clamp_reasoning l) \<Longrightarrow>
     adjust_max_tokens_for_thinking base_max model_max l budgets = (m, b) \<Longrightarrow>
     0 \<le> b \<and> b < m \<and> m \<le> model_max"
  by (auto simp: adjust_max_tokens_for_thinking_def min_output_tokens_def Let_def split: if_splits)

text \<open>The effort sent is one the model advertises.\<close>

lemma nearest_effort_advertised:
  "fst (nearest_effort want (best, d, r) vs) \<in> insert best (set vs)"
proof (induction vs arbitrary: best d r)
  case Nil
  then show ?case by simp
next
  case (Cons v vs)
  have "fst (nearest_effort want (v, \<bar>effort_rank v - want\<bar>, effort_rank v) vs) \<in> insert v (set vs)"
    and "fst (nearest_effort want (best, d, r) vs) \<in> insert best (set vs)"
    using Cons by blast+
  then show ?case by (auto simp: Let_def)
qed

lemma clamped_effort_advertised:
  "allowed \<noteq> [] \<Longrightarrow> effort \<noteq> [] \<Longrightarrow> clamp_effort_to_enum effort allowed \<in> set allowed"
  using nearest_effort_advertised [of "effort_rank effort" "[]" 0 "-1" allowed]
  by (auto simp: clamp_effort_to_enum_def Let_def split: prod.split)

end
