(* ===== verification/AnthropicRequest.thy ===== *)
theory AnthropicRequest
  imports CacheLayout ProviderOptions Assoc
begin

text \<open>
  An Anthropic request (\<^verbatim>\<open>pkg/ai/providers/anthropic.go\<close>, \<^verbatim>\<open>headers.go\<close>): its headers, the body
  \<^verbatim>\<open>buildAnthropicParams\<close> makes with the breakpoints of \<^verbatim>\<open>CacheLayout\<close>, and the options
  \<^verbatim>\<open>StreamSimpleAnthropic\<close> derives from a reasoning level.

  What the code reads outside its arguments is in \<open>request_env\<close>: two environment variables, the
  alias tables, \<^verbatim>\<open>ai.RenderToolResultMeta\<close> and \<^verbatim>\<open>Model.SupportsServerTool\<close> of the module outside the
  repository, and SHA-256 of a value's JSON. What it keeps between calls is in \<open>provider_state\<close>.
\<close>

record request_env =
  re_cache_retention :: string
  re_turn_cache :: string
  re_aliases :: alias_tables
  re_render :: "json option \<Rightarrow> string"
  re_supports_tool :: "wire_model \<Rightarrow> string \<Rightarrow> bool"
  re_hash :: "json \<Rightarrow> string"

record provider_state =
  ps_anchors :: anchor_store
  ps_guards :: "string \<rightharpoonup> prefix_guard"
  ps_turn_cache :: bool

definition resolve_cache_retention :: "request_env \<Rightarrow> retention option \<Rightarrow> retention" where
  "resolve_cache_retention env r =
     (case r of Some c \<Rightarrow> c | None \<Rightarrow> if re_cache_retention env = ''long'' then CacheLong else CacheShort)"

definition is_oauth_model :: "wire_model \<Rightarrow> bool" where
  "is_oauth_model md \<longleftrightarrow> the_default [] (map_of (wm_headers md) oauth_beta_header) \<noteq> []"

subsection \<open>Capabilities\<close>

text \<open>\<^verbatim>\<open>strings.LastIndex(toolType, "_")\<close> when it is positive cuts the version off.\<close>

definition base_tool_type :: "string \<Rightarrow> string" where
  "base_tool_type t =
     (case find_last (\<lambda>c. c = CHR ''_'') t of
        Some i \<Rightarrow> if 0 < i then take i t else t | None \<Rightarrow> t)"

definition matches_server_tool_capability :: "request_env \<Rightarrow> wire_model \<Rightarrow> string \<Rightarrow> bool" where
  "matches_server_tool_capability env md t =
     (wm_server_tools md = [] \<or> re_supports_tool env md t \<or> re_supports_tool env md (base_tool_type t))"

definition compacting_ids :: "string list" where
  "compacting_ids = [''opus-4-8'', ''opus-4.8'', ''opus-4-6'', ''opus-4.6'', ''sonnet-4-6'', ''sonnet-4.6'',
     ''sonnet-5'', ''haiku-5'', ''fable-5'', ''mythos-5'']"

definition supports_model_compaction :: "wire_model \<Rightarrow> bool" where
  "supports_model_compaction md \<longleftrightarrow>
     wm_compaction md \<or> (wm_server_tools md = [] \<and> list_ex (contains (md_id md)) compacting_ids)"

definition supports_eager_input :: "wire_model \<Rightarrow> bool" where
  "supports_eager_input md = (case wm_eager_input md of None \<Rightarrow> True | Some b \<Rightarrow> b)"

subsection \<open>Headers\<close>

type_synonym headers = "(string \<times> string) list"

definition has_any_prefix :: "string \<Rightarrow> string list \<Rightarrow> bool" where
  "has_any_prefix k ps = list_ex (has_prefix k) ps"

definition put_all :: "headers \<Rightarrow> headers \<Rightarrow> headers" where
  "put_all new old = fold (\<lambda>(k, v) m. put k v m) new old"

definition option_headers :: "stream_options option \<Rightarrow> headers" where
  "option_headers opts =
     (case opts of None \<Rightarrow> [] | Some so \<Rightarrow> the_default [] (so_headers so))"

definition build_request_headers ::
  "headers \<Rightarrow> headers \<Rightarrow> stream_options option \<Rightarrow> string list \<Rightarrow> headers" where
  "build_request_headers auth model_headers opts skip =
     put_all (filter (\<lambda>p. \<not> has_any_prefix (fst p) skip) (option_headers opts))
       (put_all model_headers (put_all auth []))"

definition join_beta_parts :: "string list \<Rightarrow> string" where
  "join_beta_parts parts =
     join '','' (filter (\<lambda>s. s \<noteq> []) (map trim_space (concat (map (split_on CHR '','') parts))))"

definition is_poe_anthropic :: "wire_model \<Rightarrow> bool" where
  "is_poe_anthropic md \<longleftrightarrow> md_provider md = ''poe'' \<or> contains (wm_base_url md) ''poe.com''"

definition marker_header :: "string \<Rightarrow> bool" where
  "marker_header k \<longleftrightarrow> k = oauth_beta_header \<or> k = oauth_system_header"

definition thinking_header :: "string \<Rightarrow> string" where
  "thinking_header s = ''x-anthropic-thinking-'' @ s"

definition header_of :: "stream_options option \<Rightarrow> string \<Rightarrow> string" where
  "header_of opts k = the_default [] (map_of (option_headers opts) k)"

definition poe_headers :: "wire_model \<Rightarrow> string \<Rightarrow> stream_options option \<Rightarrow> headers" where
  "poe_headers md api_key opts =
     build_request_headers
       [(''accept'', ''application/json''), (''content-type'', ''application/json''),
        (''anthropic-version'', ''2023-06-01''), (''authorization'', ''Bearer '' @ api_key)]
       (filter (\<lambda>p. \<not> marker_header (fst p) \<and> \<not> equal_fold (fst p) ''authorization''
             \<and> \<not> equal_fold (fst p) ''x-api-key'' \<and> \<not> equal_fold (fst p) ''anthropic-beta'') (wm_headers md))
       opts [thinking_header []]"

definition server_tool_beta :: "string \<Rightarrow> string" where
  "server_tool_beta t =
     (if has_prefix t ''web_search'' then ''web-search-2025-03-05''
      else if has_prefix t ''web_fetch'' then ''web-fetch-2025-09-10''
      else if has_prefix t ''code_execution'' then ''code-execution-2025-08-25''
      else [])"

fun server_tool_betas :: "request_env \<Rightarrow> wire_model \<Rightarrow> string list \<Rightarrow> server_tool list \<Rightarrow> string list" where
  "server_tool_betas env md seen [] = []"
| "server_tool_betas env md seen (t # ts) =
     (let beta = server_tool_beta (st_type t)
      in if \<not> matches_server_tool_capability env md (st_type t) then server_tool_betas env md seen ts
         else if beta \<noteq> [] \<and> beta \<notin> set seen then beta # server_tool_betas env md (beta # seen) ts
         else server_tool_betas env md seen ts)"

definition compaction_enabled :: "stream_options option \<Rightarrow> server_compaction option" where
  "compaction_enabled opts =
     (case opts of None \<Rightarrow> None
      | Some so \<Rightarrow> (case so_compaction so of Some c \<Rightarrow> if sc_enabled c then Some c else None | None \<Rightarrow> None))"

definition beta_features ::
  "request_env \<Rightarrow> wire_model \<Rightarrow> stream_options option \<Rightarrow> bool \<Rightarrow> string list" where
  "beta_features env md opts has_tools =
     (if has_tools \<and> \<not> supports_eager_input md then [''fine-grained-tool-streaming-2025-05-14''] else [])
     @ (if (header_of opts (thinking_header ''disabled'') = ''true''
            \<or> header_of opts (thinking_header ''enabled'') = ''true''
            \<or> header_of opts (thinking_header ''effort'') \<noteq> []) \<and> \<not> wm_adaptive md
        then [''interleaved-thinking-2025-05-14''] else [])
     @ (case opts of None \<Rightarrow> [] | Some so \<Rightarrow> server_tool_betas env md [] (so_server_tools so))
     @ (if compaction_enabled opts \<noteq> None \<and> supports_model_compaction md then [''compact-2026-01-12''] else [])"

definition auth_headers :: "wire_model \<Rightarrow> string \<Rightarrow> bool \<Rightarrow> string \<Rightarrow> headers" where
  "auth_headers md api_key oauth betas =
     (let base = [(''accept'', ''application/json''), (''anthropic-version'', ''2023-06-01''),
                  (''anthropic-dangerous-direct-browser-access'', ''true'')]
      in if oauth
         then (let combined = join_beta_parts [the_default [] (map_of (wm_headers md) oauth_beta_header), betas]
               in put ''authorization'' (''Bearer '' @ api_key)
                    (if combined \<noteq> [] then put ''anthropic-beta'' combined base else base))
         else (let h = (if betas \<noteq> [] then put ''anthropic-beta'' betas base else base)
               in if api_key \<noteq> [] then put ''x-api-key'' api_key h else h))"

text \<open>The provider id of Cloudflare's gateway is a constant of the module outside the repository.\<close>

definition gateway_headers :: "string \<Rightarrow> headers \<Rightarrow> headers" where
  "gateway_headers api_key h =
     put ''anthropic-dangerous-direct-browser-access'' ''true''
       (put ''cf-aig-authorization'' (''Bearer '' @ api_key)
          (remove_key ''Authorization'' (remove_key ''authorization'' (remove_key ''x-api-key'' h))))"

definition build_anthropic_headers ::
  "request_env \<Rightarrow> string \<Rightarrow> wire_model \<Rightarrow> string \<Rightarrow> bool \<Rightarrow> stream_options option \<Rightarrow> bool \<Rightarrow> headers" where
  "build_anthropic_headers env gateway md api_key oauth opts has_tools =
     (if is_poe_anthropic md then poe_headers md api_key opts
      else let auth = auth_headers md api_key oauth (join '','' (beta_features env md opts has_tools));
               auth' = (if md_provider md = gateway then gateway_headers api_key auth else auth)
           in build_request_headers auth'
                (filter (\<lambda>p. \<not> marker_header (fst p) \<and> \<not> (oauth \<and> equal_fold (fst p) ''authorization''))
                   (wm_headers md))
                opts [thinking_header []])"

subsection \<open>Tools\<close>

record tool_decl =
  tl_name :: string
  tl_description :: string
  tl_parameters :: json

definition members_of :: "json option \<Rightarrow> members" where
  "members_of j = (case j of Some (JObj ms) \<Rightarrow> ms | _ \<Rightarrow> [])"

fun strings_of :: "json list \<Rightarrow> string list" where
  "strings_of [] = []"
| "strings_of (JStr s # js) = s # strings_of js"
| "strings_of (_ # js) = strings_of js"

definition tool_schema :: "tool_decl \<Rightarrow> json" where
  "tool_schema t =
     (let schema = members_of (Some (tl_parameters t));
          required = (case lookup schema ''required'' of Some (JArr js) \<Rightarrow> strings_of js | _ \<Rightarrow> [])
      in JObj [(''type'', JStr ''object''),
               (''properties'', case lookup schema ''properties'' of Some (JObj ps) \<Rightarrow> JObj ps | _ \<Rightarrow> JNull),
               (''required'', if required = [] then JNull else JArr (map JStr required))])"

definition convert_tool :: "(string \<Rightarrow> string) \<Rightarrow> tool_decl \<Rightarrow> block" where
  "convert_tool naming t =
     [(''name'', JStr (naming (tl_name t))), (''description'', JStr (tl_description t)),
      (''input_schema'', tool_schema t)]"

definition convert_anthropic_tools :: "(string \<Rightarrow> string) \<Rightarrow> tool_decl list \<Rightarrow> block list" where
  "convert_anthropic_tools naming tools = map (convert_tool naming) (sort_key tl_name tools)"

definition all_digits :: "string \<Rightarrow> bool" where
  "all_digits s \<longleftrightarrow> s \<noteq> [] \<and> list_all (\<lambda>c. in_range 48 57 c) s"

definition server_tool_default_name :: "string \<Rightarrow> string" where
  "server_tool_default_name t =
     (case find_last (\<lambda>c. c = CHR ''_'') t of
        Some i \<Rightarrow> if all_digits (drop (i + 1) t) then take i t else t
      | None \<Rightarrow> t)"

definition convert_anthropic_server_tool :: "server_tool \<Rightarrow> block" where
  "convert_anthropic_server_tool t =
     [(''type'', JStr (st_type t)),
      (''name'', JStr (if st_name t = [] then server_tool_default_name (st_type t) else st_name t))]
     @ (if 0 < st_max_uses t then [(''max_uses'', JInt (st_max_uses t))] else [])
     @ (if st_allowed t \<noteq> [] then [(''allowed_domains'', JArr (map JStr (take 10 (st_allowed t))))] else [])
     @ (if st_blocked t \<noteq> [] then [(''blocked_domains'', JArr (map JStr (take 25 (st_blocked t))))] else [])
     @ (case st_location t of None \<Rightarrow> [] | Some l \<Rightarrow> [(''user_location'', l)])"

subsection \<open>The body\<close>

record llm_context =
  cx_system :: string
  cx_messages :: "message list"
  cx_tools :: "tool_decl list"

record wire_request =
  rq_model :: string
  rq_max_tokens :: go_int
  rq_stream :: bool
  rq_system :: "block list"
  rq_messages :: "wire_msg list"
  rq_temperature :: "string option"
  rq_tools :: "block list"
  rq_thinking :: "json option"
  rq_output_config :: "json option"
  rq_tool_choice :: "json option"
  rq_context_management :: "json option"

definition is_side_query :: "stream_options option \<Rightarrow> bool" where
  "is_side_query opts =
     (case opts of None \<Rightarrow> False | Some so \<Rightarrow> get_bool (so_metadata so) ''fir.sidequery'' = Some True)"

definition session_of :: "stream_options option \<Rightarrow> string" where
  "session_of opts = (case opts of None \<Rightarrow> [] | Some so \<Rightarrow> so_session_id so)"

definition retention_of :: "request_env \<Rightarrow> stream_options option \<Rightarrow> retention" where
  "retention_of env opts =
     resolve_cache_retention env (case opts of None \<Rightarrow> None | Some so \<Rightarrow> so_retention so)"

text \<open>
  The system blocks and messages with their breakpoints: converted, the side query's or the tail's
  breakpoint placed, the sections' one, the turn's, and the system's dropped where there are too many.
\<close>

definition place_breakpoints ::
  "request_env \<Rightarrow> wire_model \<Rightarrow> bool \<Rightarrow> stream_options option \<Rightarrow> provider_state \<Rightarrow> block list
     \<Rightarrow> message list \<Rightarrow> block list \<times> wire_msg list \<times> anchor_store" where
  "place_breakpoints env md oauth opts ps cached ms =
     (let r = retention_of env opts;
          side = is_side_query opts;
          msgs0 = convert_anthropic_messages (re_render env) (re_aliases env) md oauth
                    (if side then CacheNone else r) ms;
          (msgs1, anchors) = (if side
             then apply_side_query_cache_control (re_hash env) md r (session_of opts) msgs0 (ps_anchors ps)
             else (msgs0, ps_anchors ps));
          msgs2 = mark_sections_breakpoint md r msgs1;
          (cached', msgs3) = (if \<not> side \<and> session_of opts \<noteq> []
               \<and> turn_long_cache_enabled (re_turn_cache env) (ps_turn_cache ps)
             then apply_turn_long_cache md r cached msgs2 else (cached, msgs2))
      in (trim_system_breakpoints cached' (count_message_breakpoints msgs3), msgs3, anchors))"

definition check_guard ::
  "request_env \<Rightarrow> stream_options option \<Rightarrow> block list \<Rightarrow> wire_msg list \<Rightarrow> (string \<rightharpoonup> prefix_guard)
     \<Rightarrow> (string \<rightharpoonup> prefix_guard)" where
  "check_guard env opts system msgs guards =
     (if session_of opts = [] then guards
      else let g = the_default new_prefix_guard (guards (session_of opts));
               seen = (if is_side_query opts then butlast msgs else msgs)
           in guards(session_of opts \<mapsto> snd (guard_check (re_hash env) system seen g)))"

text \<open>
  \<^verbatim>\<open>fmt.Sscanf(s, "%d", &budget)\<close> on a text without underscores: white space, a sign, digits; the
  value is kept only when it fits an \<^verbatim>\<open>int\<close>.
\<close>

definition scan_int :: "string \<Rightarrow> int option" where
  "scan_int s =
     (let t = dropWhile (\<lambda>c. c = CHR '' '' \<or> c = CHR 0x09) s;
          neg = (t \<noteq> [] \<and> hd t = CHR ''-'');
          u = (if t \<noteq> [] \<and> (hd t = CHR ''-'' \<or> hd t = CHR ''+'') then tl t else t);
          ds = takeWhile (in_range 48 57) u;
          n = foldl (\<lambda>a c. 10 * a + int (byte_of c - 48)) 0 ds;
          v = (if neg then - n else n)
      in if ds = [] \<or> \<not> int_in_range v then None else Some v)"

definition thinking_param :: "stream_options option \<Rightarrow> json option" where
  "thinking_param opts =
     (if header_of opts (thinking_header ''effort'') \<noteq> [] then Some (JObj [(''type'', JStr ''adaptive'')])
      else if header_of opts (thinking_header ''disabled'') = ''true''
      then Some (JObj [(''type'', JStr ''disabled'')])
      else if header_of opts (thinking_header ''enabled'') = ''true''
      then Some (JObj [(''type'', JStr ''enabled''),
             (''budget_tokens'', JInt (the_default 1024 (scan_int (header_of opts (thinking_header ''budget'')))))])
      else None)"

definition output_config_param :: "stream_options option \<Rightarrow> json option" where
  "output_config_param opts =
     (let effort = header_of opts (thinking_header ''effort'')
      in if effort \<noteq> [] then Some (JObj [(''effort'', JStr effort)]) else None)"

definition tool_choice_param :: "stream_options option \<Rightarrow> json option" where
  "tool_choice_param opts =
     (let choice = (case opts of None \<Rightarrow> [] | Some so \<Rightarrow> so_tool_choice so)
      in if choice = [] then None
         else if choice \<in> {''auto'', ''any'', ''none''} then Some (JObj [(''type'', JStr choice)])
         else Some (JObj [(''type'', JStr ''tool''), (''name'', JStr choice)]))"

definition compaction_param :: "wire_model \<Rightarrow> stream_options option \<Rightarrow> json option" where
  "compaction_param md opts =
     (case compaction_enabled opts of
        None \<Rightarrow> None
      | Some c \<Rightarrow>
          if \<not> supports_model_compaction md then None
          else Some (JObj [(''edits'', JArr [JObj ([(''type'', JStr ''compact_20260112'')]
             @ (if 0 < sc_trigger c
                then [(''trigger'', JObj [(''type'', JStr ''input_tokens''), (''value'', JInt (sc_trigger c))])]
                else [])
             @ (if sc_instructions c \<noteq> [] then [(''instructions'', JStr (sc_instructions c))] else []))])]))"

definition request_tools ::
  "request_env \<Rightarrow> wire_model \<Rightarrow> bool \<Rightarrow> stream_options option \<Rightarrow> tool_decl list \<Rightarrow> block list" where
  "request_tools env md oauth opts tools =
     convert_anthropic_tools (tool_naming (re_aliases env) oauth) tools
     @ (case opts of None \<Rightarrow> []
        | Some so \<Rightarrow> map convert_anthropic_server_tool
            (filter (\<lambda>t. matches_server_tool_capability env md (st_type t)) (so_server_tools so)))"

definition build_anthropic_params ::
  "request_env \<Rightarrow> wire_model \<Rightarrow> llm_context \<Rightarrow> bool \<Rightarrow> stream_options option \<Rightarrow> provider_state
     \<Rightarrow> wire_request \<times> provider_state" where
  "build_anthropic_params env md cx oauth opts ps =
     (let (prefix, cached) = build_system md (retention_of env opts) (cx_system cx);
          (cached', msgs, anchors) = place_breakpoints env md oauth opts ps cached (cx_messages cx);
          system = prefix @ cached'
      in (\<lparr>rq_model = md_id md,
           rq_max_tokens = (case opts of
              None \<Rightarrow> wm_max_tokens md div 3
            | Some so \<Rightarrow> (case so_max_tokens so of None \<Rightarrow> wm_max_tokens md div 3 | Some n \<Rightarrow> n)),
           rq_stream = True, rq_system = system, rq_messages = msgs,
           rq_temperature = (case opts of None \<Rightarrow> None | Some so \<Rightarrow> so_temperature so),
           rq_tools = request_tools env md oauth opts (cx_tools cx),
           rq_thinking = thinking_param opts, rq_output_config = output_config_param opts,
           rq_tool_choice = tool_choice_param opts, rq_context_management = compaction_param md opts\<rparr>,
          ps\<lparr>ps_anchors := anchors,
             ps_guards := check_guard env opts system msgs (ps_guards ps)\<rparr>))"

subsection \<open>Reasoning levels\<close>

definition with_header :: "string \<Rightarrow> string \<Rightarrow> stream_options \<Rightarrow> stream_options" where
  "with_header k v so = so\<lparr>so_headers := Some (put k v (the_default [] (so_headers so)))\<rparr>"

text \<open>
  \<^verbatim>\<open>StreamSimpleAnthropic\<close>, up to the call of \<^verbatim>\<open>StreamAnthropic\<close>: the options that call gets.
  \<open>env_key\<close> is the provider's API key in the environment.
\<close>

definition simple_anthropic_options ::
  "string \<Rightarrow> wire_model \<Rightarrow> simple_options option \<Rightarrow> stream_options" where
  "simple_anthropic_options env_key md opts =
     (let given = (case opts of None \<Rightarrow> [] | Some so \<Rightarrow> so_api_key so);
          base = build_base_options md opts (if given = [] then env_key else given)
      in case opts of
           None \<Rightarrow> base
         | Some so \<Rightarrow>
             if so_reasoning so = LevelUnset then base
             else if so_reasoning so = LevelOff \<and> wm_reasoning md
             then with_header (thinking_header ''disabled'') ''true'' base
             else if wm_adaptive md
             then with_header (thinking_header ''effort'') (map_thinking_level_to_effort (so_reasoning so) md) base
             else let (m, b) = adjust_max_tokens_for_thinking (the_default 0 (so_max_tokens base))
                                 (wm_max_tokens md) (so_reasoning so) (so_budgets so)
                  in with_header (thinking_header ''budget'') (itoa b)
                       (with_header (thinking_header ''enabled'') ''true''
                          (base\<lparr>so_max_tokens := Some m\<rparr>)))"

subsection \<open>Switches\<close>

definition set_turn_long_cache :: "bool \<Rightarrow> provider_state \<Rightarrow> provider_state" where
  "set_turn_long_cache b ps = ps\<lparr>ps_turn_cache := b\<rparr>"

text \<open>\<^verbatim>\<open>ApplySideQueryOptions\<close>: the caller's options are copied, the header map is not.\<close>

definition apply_side_query_options :: "wire_model option \<Rightarrow> simple_options option \<Rightarrow> simple_options" where
  "apply_side_query_options md opts =
     (let out = (case opts of
            None \<Rightarrow> stream_options.extend no_options \<lparr>so_reasoning = LevelUnset, so_budgets = None\<rparr>
          | Some so \<Rightarrow> so);
          model_id = (case md of None \<Rightarrow> [] | Some m \<Rightarrow> md_id m)
      in out\<lparr>so_session_id := side_query_session_id (so_session_id out) model_id,
             so_retention := Some CacheLong,
             so_metadata := set_member ''fir.sidequery'' (JBool True) (so_metadata out)\<rparr>)"

lemma side_query_marked:
  "is_side_query (Some (build_base_options md (Some (apply_side_query_options m opts)) key))"
  by (simp add: is_side_query_def build_base_options_def apply_side_query_options_def Let_def get_bool_def
      set_member_def lookup_def stream_options.defs)

text \<open>
  The header map of the options is the caller's: the entries written to it stay in the caller's
  options. \<open>caller_options_after\<close> is what the caller's options are after the call; a caller whose map
  was \<^verbatim>\<open>nil\<close> is not affected.
\<close>

definition caller_options_after ::
  "string \<Rightarrow> wire_model \<Rightarrow> simple_options \<Rightarrow> simple_options" where
  "caller_options_after env_key md so =
     (if so_headers so = None then so
      else so\<lparr>so_headers := so_headers (simple_anthropic_options env_key md (Some so))\<rparr>)"

end
