(* ===== verification/AnthropicStream.thy ===== *)
theory AnthropicStream
  imports EventStream AnthropicRequest
begin

text \<open>
  Reading an Anthropic response (\<^verbatim>\<open>StreamAnthropic\<close> of \<^verbatim>\<open>pkg/ai/providers/anthropic.go\<close>): the message
  built from the events of the stream, what is pushed to the caller, the retries.

  The \<^verbatim>\<open>Partial\<close> of a pushed event is a pointer to the message being built and is left out; the final
  events carry the message. Costs, which are floating point, are left out. In \<open>stream_env\<close> are the
  server's response to each attempt, \<^verbatim>\<open>json.Unmarshal\<close> and the integer part of a number that is not
  an integer, and, of the module outside the repository, \<^verbatim>\<open>jsonparse.ParseStreamingJSON\<close>,
  \<^verbatim>\<open>ratelimit.IsRetryableError\<close>, \<^verbatim>\<open>ratelimit.ExtractRetryDelayFromText\<close> (in nanoseconds) and
  \<^verbatim>\<open>ai.IsUnixURL\<close>.
\<close>

subsection \<open>Server content shown to the user\<close>

definition nl1 :: string where
  "nl1 = [newline]"

definition line_unless_empty :: "string \<Rightarrow> string \<Rightarrow> string" where
  "line_unless_empty before s = (if s = [] then [] else before @ s @ nl1)"

definition array_of :: "block \<Rightarrow> string \<Rightarrow> json list" where
  "array_of b k = (case lookup b k of Some (JArr js) \<Rightarrow> js | _ \<Rightarrow> [])"

definition items_of_type :: "string \<Rightarrow> json list \<Rightarrow> block list" where
  "items_of_type t js =
     concat (map (\<lambda>j. case j of JObj m \<Rightarrow> if block_type m = t then [m] else [] | _ \<Rightarrow> []) js)"

definition web_search_item :: "block \<Rightarrow> string" where
  "web_search_item m =
     (let url = str_of m ''url'' in
      (if str_of m ''title'' = [] then []
       else str_of m ''title'' @ (if url = [] then [] else '' ('' @ url @ '')'') @ nl1)
      @ line_unless_empty [] (str_of m ''page_snippet'') @ nl1)"

definition format_web_search_result :: "block \<Rightarrow> string" where
  "format_web_search_result cb =
     concat (map web_search_item (items_of_type ''web_search_result'' (array_of cb ''content'')))"

definition format_web_fetch_result :: "block \<Rightarrow> string" where
  "format_web_fetch_result cb =
     concat (map (\<lambda>m. line_unless_empty ''Fetched: '' (str_of m ''url'')
                      @ line_unless_empty [] (str_of m ''content'') @ nl1)
       (items_of_type ''web_fetch_result'' (array_of cb ''content'')))"

definition code_execution_item :: "json \<Rightarrow> string" where
  "code_execution_item j =
     (case j of
        JObj m \<Rightarrow>
          if block_type m = ''code_execution_output'' then line_unless_empty [] (str_of m ''output'')
          else if block_type m = ''code_execution_error'' then
            ''Error'' @ (if str_of m ''error_name'' = [] then [] else '' ('' @ str_of m ''error_name'' @ '')'')
            @ (if str_of m ''error_message'' = [] then [] else '': '' @ str_of m ''error_message'') @ nl1
          else if block_type m = ''image'' then ''[generated image]'' @ nl1
          else []
      | _ \<Rightarrow> [])"

definition format_code_execution_result :: "block \<Rightarrow> string" where
  "format_code_execution_result cb =
     (if array_of cb ''content'' = []
      then line_unless_empty [] (str_of cb ''stdout'') @ line_unless_empty ''stderr: '' (str_of cb ''stderr'')
      else concat (map code_execution_item (array_of cb ''content'')))"

definition format_tool_output :: "block \<Rightarrow> string" where
  "format_tool_output cb =
     (if str_of cb ''output'' \<noteq> [] then str_of cb ''output'' @ nl1
      else concat (map (\<lambda>j. case j of JObj m \<Rightarrow> line_unless_empty [] (str_of m ''text'') | _ \<Rightarrow> [])
             (array_of cb ''content'')))"

definition format_server_content_for_display :: "string \<Rightarrow> block \<Rightarrow> string" where
  "format_server_content_for_display t cb =
     (if t = ''server_tool_use'' then
        ''[server tool: '' @ (if str_of cb ''name'' = [] then ''server_tool_use'' else str_of cb ''name'') @ '']''
      else if t = ''web_search_tool_result'' then format_web_search_result cb
      else if t \<in> {''code_execution_tool_result'', ''bash_code_execution_tool_result'',
                    ''text_editor_code_execution_tool_result''} then format_code_execution_result cb
      else if t = ''web_fetch_tool_result'' then format_web_fetch_result cb
      else if t = ''tool_invocation'' then ''[calling '' @ str_of cb ''tool_name'' @ '']'' @ nl1
      else if t = ''tool_output'' then format_tool_output cb
      else [])"

subsection \<open>The message being built\<close>

record stream_output =
  os_content :: "assistant_content list"
  os_usage :: usage
  os_stop :: stop_reason
  os_error :: string
  os_response_id :: string

record block_info =
  bi_content :: nat
  bi_json :: string

record stream_run =
  sr_out :: stream_output
  sr_blocks :: "int \<rightharpoonup> block_info"
  sr_started :: bool
  sr_saw_start :: bool
  sr_saw_stop :: bool
  sr_write_1h :: int

datatype push =
    PushStart
  | PushTextStart nat | PushTextDelta nat string | PushTextEnd nat string
  | PushThinkingStart nat | PushThinkingDelta nat string | PushThinkingEnd nat string
  | PushCallStart nat | PushCallDelta nat string | PushCallEnd nat tool_call
  | PushDone stop_reason stream_output
  | PushError stream_output

record stream_env =
  xe_respond :: "nat \<Rightarrow> headers \<Rightarrow> http_response"
  xe_decode :: "string \<Rightarrow> json option"
  xe_trunc :: "string \<Rightarrow> int"
  xe_parse_args :: "string \<Rightarrow> members"
  xe_retryable :: "string \<Rightarrow> bool"
  xe_extract_delay :: "string \<Rightarrow> int"
  xe_refresh :: "nat \<Rightarrow> string"
  xe_env_key :: string
  xe_cancelled :: "nat \<Rightarrow> bool"
  xe_is_unix :: "string \<Rightarrow> bool"
  xe_gateway :: string

definition zero_usage :: usage where
  "zero_usage = \<lparr>u_total = 0, u_input = 0, u_output = 0, u_cache_read = 0, u_cache_write = 0\<rparr>"

definition new_output :: stream_output where
  "new_output = \<lparr>os_content = [], os_usage = zero_usage, os_stop = StopStop, os_error = [], os_response_id = []\<rparr>"

definition new_run :: stream_run where
  "new_run = \<lparr>sr_out = new_output, sr_blocks = Map.empty, sr_started = False, sr_saw_start = False,
     sr_saw_stop = False, sr_write_1h = 0\<rparr>"

definition failed_output :: "string \<Rightarrow> stream_output \<Rightarrow> stream_output" where
  "failed_output msg out = out\<lparr>os_stop := StopError, os_error := msg\<rparr>"

definition map_anthropic_stop_reason :: "string \<Rightarrow> stop_reason" where
  "map_anthropic_stop_reason r =
     (if r \<in> {''end_turn'', ''pause_turn'', ''stop_sequence'', ''compaction''} then StopStop
      else if r = ''max_tokens'' then StopLength
      else if r = ''tool_use'' then StopToolUse
      else StopError)"

definition anthropic_stop_reason_error_message :: "string \<Rightarrow> string" where
  "anthropic_stop_reason_error_message r =
     (if map_anthropic_stop_reason r \<noteq> StopError then []
      else if r = ''refusal'' then
        ''Anthropic ended the turn with stop_reason '' @ quoted ''refusal''
        @ '': the model declined to continue this response. Any content generated before the refusal may be incomplete.''
      else if r = ''sensitive'' then
        ''Anthropic ended the turn with stop_reason '' @ quoted ''sensitive''
        @ '': the response was blocked by the provider'' @ [CHR 0x27]
        @ ''s content filters. Any content generated before the block may be incomplete.''
      else ''Anthropic reported an unrecognised stop_reason '' @ quoted r
           @ ''; treating the turn as failed. Any content generated may be incomplete.'')"

definition is_auth_error :: "string \<Rightarrow> string \<Rightarrow> bool" where
  "is_auth_error err_type msg \<longleftrightarrow>
     err_type = ''authentication_error'' \<or> err_type = ''permission_error''
     \<or> contains (to_lower msg) ''401'' \<or> contains (to_lower msg) ''invalid authentication''
     \<or> contains (to_lower msg) ''invalid x-api-key'' \<or> contains (to_lower msg) ''invalid api key''"

subsection \<open>Usage\<close>

definition number_of :: "stream_env \<Rightarrow> members \<Rightarrow> string \<Rightarrow> int option" where
  "number_of env ms k =
     (case lookup ms k of Some (JInt n) \<Rightarrow> Some n | Some (JNum s) \<Rightarrow> Some (xe_trunc env s) | _ \<Rightarrow> None)"

definition json_int :: "stream_env \<Rightarrow> members \<Rightarrow> string \<Rightarrow> int" where
  "json_int env ms k = the_default 0 (number_of env ms k)"

definition object_of :: "members \<Rightarrow> string \<Rightarrow> members option" where
  "object_of ms k = (case lookup ms k of Some (JObj o') \<Rightarrow> Some o' | _ \<Rightarrow> None)"

definition sum_usage :: "usage \<Rightarrow> usage" where
  "sum_usage u = u\<lparr>u_total := u_input u + u_output u + u_cache_read u + u_cache_write u\<rparr>"

definition update_anthropic_usage :: "stream_env \<Rightarrow> members \<Rightarrow> usage \<Rightarrow> usage" where
  "update_anthropic_usage env ms u =
     sum_usage \<lparr>u_total = u_total u,
       u_input = the_default (u_input u) (number_of env ms ''input_tokens''),
       u_output = the_default (u_output u) (number_of env ms ''output_tokens''),
       u_cache_read = the_default (u_cache_read u) (number_of env ms ''cache_read_input_tokens''),
       u_cache_write = the_default (u_cache_write u) (number_of env ms ''cache_creation_input_tokens'')\<rparr>"

text \<open>The part of the cache writes with the long lifetime, kept when an update does not mention it.\<close>

definition update_write_1h :: "stream_env \<Rightarrow> members \<Rightarrow> int \<Rightarrow> int" where
  "update_write_1h env ms n =
     (case object_of ms ''cache_creation'' of
        None \<Rightarrow> n | Some cc \<Rightarrow> the_default n (number_of env cc ''ephemeral_1h_input_tokens''))"

definition take_usage :: "stream_env \<Rightarrow> members option \<Rightarrow> stream_run \<Rightarrow> stream_run" where
  "take_usage env ms r =
     (case ms of
        None \<Rightarrow> r
      | Some u \<Rightarrow> r\<lparr>sr_out := (sr_out r)\<lparr>os_usage := update_anthropic_usage env u (os_usage (sr_out r))\<rparr>,
                    sr_write_1h := update_write_1h env u (sr_write_1h r)\<rparr>)"

subsection \<open>Blocks\<close>

definition append_content :: "assistant_content \<Rightarrow> stream_run \<Rightarrow> stream_run" where
  "append_content c r = r\<lparr>sr_out := (sr_out r)\<lparr>os_content := os_content (sr_out r) @ [c]\<rparr>\<rparr>"

definition text_content_of :: "string \<Rightarrow> assistant_content" where
  "text_content_of s = CText \<lparr>txt_text = s, txt_sig = []\<rparr>"

definition started_block :: "(string \<Rightarrow> string) \<Rightarrow> members \<Rightarrow> nat \<Rightarrow> assistant_content \<times> push list" where
  "started_block tool_name cb i =
     (let t = block_type cb in
      if t = ''text'' then (text_content_of [], [PushTextStart i])
      else if t = ''thinking'' then
        (CThinking \<lparr>th_text = [], th_sig = [], th_redacted = False\<rparr>, [PushThinkingStart i])
      else if t = ''redacted_thinking'' then
        (CThinking \<lparr>th_text = [], th_sig = str_of cb ''data'', th_redacted = True\<rparr>, [PushThinkingStart i])
      else if t = ''tool_use'' then
        (CToolCall \<lparr>tc_id = str_of cb ''id'', tc_name = tool_name (str_of cb ''name''), tc_args = [], tc_sig = []\<rparr>,
         [PushCallStart i])
      else let display = format_server_content_for_display t cb
           in (CServer \<lparr>srv_display = display, srv_raw = JObj cb\<rparr>,
               if display = [] then [] else [PushTextStart i, PushTextDelta i display]))"

definition on_block_start ::
  "stream_env \<Rightarrow> (string \<Rightarrow> string) \<Rightarrow> members \<Rightarrow> stream_run \<Rightarrow> stream_run \<times> push list" where
  "on_block_start env tool_name raw r =
     (case object_of raw ''content_block'' of
        None \<Rightarrow> (r, [])
      | Some cb \<Rightarrow>
          (let i = length (os_content (sr_out r));
               (c, ps) = started_block tool_name cb i
           in ((append_content c r)
                 \<lparr>sr_blocks := (sr_blocks r)(json_int env raw ''index'' \<mapsto> \<lparr>bi_content = i, bi_json = []\<rparr>)\<rparr>, ps)))"

definition update_content :: "nat \<Rightarrow> (assistant_content \<Rightarrow> assistant_content) \<Rightarrow> stream_run \<Rightarrow> stream_run" where
  "update_content i f r =
     (let cs = os_content (sr_out r)
      in if i < length cs then r\<lparr>sr_out := (sr_out r)\<lparr>os_content := cs[i := f (cs ! i)]\<rparr>\<rparr> else r)"

fun add_text :: "string \<Rightarrow> assistant_content \<Rightarrow> assistant_content" where
  "add_text s (CText t) = CText (t\<lparr>txt_text := txt_text t @ s\<rparr>)"
| "add_text s c = c"

fun add_thinking :: "string \<Rightarrow> assistant_content \<Rightarrow> assistant_content" where
  "add_thinking s (CThinking b) = CThinking (b\<lparr>th_text := th_text b @ s\<rparr>)"
| "add_thinking s c = c"

fun add_signature :: "string \<Rightarrow> assistant_content \<Rightarrow> assistant_content" where
  "add_signature s (CThinking b) = CThinking (b\<lparr>th_sig := th_sig b @ s\<rparr>)"
| "add_signature s c = c"

fun set_arguments :: "members \<Rightarrow> assistant_content \<Rightarrow> assistant_content" where
  "set_arguments m (CToolCall tc) = CToolCall (tc\<lparr>tc_args := m\<rparr>)"
| "set_arguments m c = c"

definition apply_delta ::
  "stream_env \<Rightarrow> int \<Rightarrow> block_info \<Rightarrow> members \<Rightarrow> stream_run \<Rightarrow> stream_run \<times> push list" where
  "apply_delta env idx bi delta r =
     (let t = block_type delta; i = bi_content bi in
      if t = ''text_delta'' then
        (update_content i (add_text (str_of delta ''text'')) r, [PushTextDelta i (str_of delta ''text'')])
      else if t = ''thinking_delta'' then
        (update_content i (add_thinking (str_of delta ''thinking'')) r,
         [PushThinkingDelta i (str_of delta ''thinking'')])
      else if t = ''input_json_delta'' then
        (let js = bi_json bi @ str_of delta ''partial_json''
         in (update_content i (set_arguments (xe_parse_args env js))
               (r\<lparr>sr_blocks := (sr_blocks r)(idx \<mapsto> bi\<lparr>bi_json := js\<rparr>)\<rparr>),
             [PushCallDelta i (str_of delta ''partial_json'')]))
      else if t = ''signature_delta'' then
        (update_content i (add_signature (str_of delta ''signature'')) r, [])
      else (r, []))"

definition on_block_delta :: "stream_env \<Rightarrow> members \<Rightarrow> stream_run \<Rightarrow> stream_run \<times> push list" where
  "on_block_delta env raw r =
     (let idx = json_int env raw ''index'' in
      case sr_blocks r idx of
        None \<Rightarrow> (r, [])
      | Some bi \<Rightarrow>
          (case object_of raw ''delta'' of None \<Rightarrow> (r, []) | Some d \<Rightarrow> apply_delta env idx bi d r))"

definition on_block_stop :: "stream_env \<Rightarrow> members \<Rightarrow> stream_run \<Rightarrow> stream_run \<times> push list" where
  "on_block_stop env raw r =
     (case sr_blocks r (json_int env raw ''index'') of
        None \<Rightarrow> (r, [])
      | Some bi \<Rightarrow>
          (let i = bi_content bi; cs = os_content (sr_out r) in
           if length cs \<le> i then (r, [])
           else case cs ! i of
                  CText t \<Rightarrow> (r, [PushTextEnd i (txt_text t)])
                | CThinking b \<Rightarrow> (r, [PushThinkingEnd i (th_text b)])
                | CToolCall tc \<Rightarrow>
                    (let m = xe_parse_args env (bi_json bi)
                     in (update_content i (set_arguments m) r, [PushCallEnd i (tc\<lparr>tc_args := m\<rparr>)]))
                | _ \<Rightarrow> (r, [])))"

subsection \<open>One event\<close>

definition on_message_start :: "stream_env \<Rightarrow> members \<Rightarrow> stream_run \<Rightarrow> stream_run" where
  "on_message_start env raw r =
     (let r1 = r\<lparr>sr_saw_start := True\<rparr> in
      case object_of raw ''message'' of
        None \<Rightarrow> r1
      | Some m \<Rightarrow>
          (let out = sr_out r1;
               out' = (case get_str m ''id'' of
                         Some i \<Rightarrow> if os_response_id out = [] then out\<lparr>os_response_id := i\<rparr> else out
                       | None \<Rightarrow> out)
           in take_usage env (object_of m ''usage'') (r1\<lparr>sr_out := out'\<rparr>)))"

definition set_stop_reason :: "string \<Rightarrow> stream_output \<Rightarrow> stream_output" where
  "set_stop_reason sr out =
     (let st = map_anthropic_stop_reason sr; out1 = out\<lparr>os_stop := st\<rparr>
      in if st = StopError \<and> os_error out1 = []
         then out1\<lparr>os_error := anthropic_stop_reason_error_message sr\<rparr> else out1)"

definition on_message_delta :: "stream_env \<Rightarrow> members \<Rightarrow> stream_run \<Rightarrow> stream_run" where
  "on_message_delta env raw r =
     (let r1 = (case object_of raw ''delta'' of
                  None \<Rightarrow> r
                | Some d \<Rightarrow> (case get_str d ''stop_reason'' of
                     None \<Rightarrow> r | Some sr \<Rightarrow> r\<lparr>sr_out := set_stop_reason sr (sr_out r)\<rparr>))
      in take_usage env (object_of raw ''usage'') r1)"

definition api_error_text :: "members \<Rightarrow> string \<times> string" where
  "api_error_text raw =
     (let e = the_default [] (object_of raw ''error'');
          msg = (if str_of e ''message'' = [] then ''unknown Anthropic API error'' else str_of e ''message'');
          t = str_of e ''type''
      in (t, if t = [] then msg else msg @ '' ('' @ t @ '')''))"

text \<open>The events other than \<^verbatim>\<open>error\<close>.\<close>

definition on_stream_event ::
  "stream_env \<Rightarrow> (string \<Rightarrow> string) \<Rightarrow> string \<Rightarrow> members \<Rightarrow> stream_run \<Rightarrow> stream_run \<times> push list" where
  "on_stream_event env tool_name t raw r =
     (if t = ''message_start'' then (on_message_start env raw r, [])
      else if t = ''content_block_start'' then on_block_start env tool_name raw r
      else if t = ''content_block_delta'' then on_block_delta env raw r
      else if t = ''content_block_stop'' then on_block_stop env raw r
      else if t = ''message_delta'' then (on_message_delta env raw r, [])
      else if t = ''message_stop'' then (r\<lparr>sr_saw_stop := True\<rparr>, [])
      else (r, []))"

subsection \<open>One attempt\<close>

definition max_anthropic_retries :: nat where
  "max_anthropic_retries = 5"

definition refreshed_key :: "stream_env \<Rightarrow> nat \<Rightarrow> string" where
  "refreshed_key env attempt =
     (if xe_refresh env attempt = [] then xe_env_key env else xe_refresh env attempt)"

definition may_retry :: "nat \<Rightarrow> stream_run \<Rightarrow> bool" where
  "may_retry attempt r \<longleftrightarrow> \<not> sr_started r \<and> attempt < max_anthropic_retries - 1"

text \<open>What an error leads to: a new key, the same key again, or \<open>None\<close> when it is reported.\<close>

definition retry_key :: "stream_env \<Rightarrow> nat \<Rightarrow> stream_run \<Rightarrow> string \<Rightarrow> bool \<Rightarrow> string \<Rightarrow> string option" where
  "retry_key env attempt r key auth msg =
     (let fresh = refreshed_key env attempt in
      if may_retry attempt r \<and> auth \<and> fresh \<noteq> [] \<and> fresh \<noteq> key then Some fresh
      else if may_retry attempt r \<and> xe_retryable env msg then Some key
      else None)"

datatype outcome = Again string string | Over

definition surface :: "stream_run \<Rightarrow> string \<Rightarrow> push list" where
  "surface r msg =
     (if sr_started r then [] else [PushStart]) @ [PushError (failed_output msg (sr_out r))]"

definition start_push :: "stream_run \<Rightarrow> push list" where
  "start_push r = (if sr_started r then [] else [PushStart])"

text \<open>
  The loop over the events: the run so far, or how the attempt ended, with what was pushed.
\<close>

fun read_events ::
  "stream_env \<Rightarrow> (string \<Rightarrow> string) \<Rightarrow> nat \<Rightarrow> string \<Rightarrow> stream_run \<Rightarrow> sse_event list
     \<Rightarrow> (stream_run + outcome) \<times> push list" where
  "read_events env tool_name attempt key r [] = (Inl r, [])"
| "read_events env tool_name attempt key r (e # es) =
     (case (if ev_data e = [] \<or> ev_data e = ''[DONE]'' then None
            else Option.bind (xe_decode env (ev_data e)) object_members) of
        None \<Rightarrow> read_events env tool_name attempt key r es
      | Some raw \<Rightarrow>
          if block_type raw = ''error'' then
            (let (t, msg) = api_error_text raw in
             case retry_key env attempt r key (is_auth_error t msg) msg of
               Some key' \<Rightarrow> (Inr (Again msg key'), [])
             | None \<Rightarrow> (Inr Over, surface r msg))
          else
            (let (r', ps) = on_stream_event env tool_name (block_type raw) raw (r\<lparr>sr_started := True\<rparr>);
                 (res, ps') = read_events env tool_name attempt key r' es
             in (res, start_push r @ ps @ ps')))"

fun error_status :: "stream_error \<Rightarrow> go_int" where
  "error_status (SseFailed e) = se_status e"
| "error_status _ = 0"

definition finish_attempt ::
  "stream_env \<Rightarrow> nat \<Rightarrow> string \<Rightarrow> stream_run \<Rightarrow> stream_error option \<Rightarrow> outcome \<times> push list" where
  "finish_attempt env attempt key r err =
     (case err of
        Some e \<Rightarrow>
          (case retry_key env attempt r key (error_status e = 401 \<or> error_status e = 403) (stream_error_text e) of
             Some key' \<Rightarrow> (Again (stream_error_text e) key', [])
           | None \<Rightarrow> (Over, surface r (stream_error_text e)))
      | None \<Rightarrow>
          if sr_saw_start r \<and> \<not> sr_saw_stop r
          then (Over, surface r ''Anthropic stream ended before message_stop'')
          else (let out = (sr_out r)
                  \<lparr>os_content := prune_empty_assistant_text_blocks (os_content (sr_out r))\<rparr>
                in (Over, [PushDone (os_stop out) out])))"

definition attempt_once ::
  "stream_env \<Rightarrow> (string \<Rightarrow> string) \<Rightarrow> (string \<Rightarrow> headers) \<Rightarrow> nat \<Rightarrow> string \<Rightarrow> outcome \<times> push list" where
  "attempt_once env tool_name headers attempt key =
     (let (events, err) = sse_stream (xe_decode env) (xe_respond env attempt (headers key));
          (res, ps) = read_events env tool_name attempt key new_run events
      in case res of
           Inr o' \<Rightarrow> (o', ps)
         | Inl r \<Rightarrow> (let (o', ps') = finish_attempt env attempt key r err in (o', ps @ ps')))"

subsection \<open>All attempts\<close>

definition anthropic_retry_delay :: "stream_env \<Rightarrow> string \<Rightarrow> nat \<Rightarrow> go_int option \<Rightarrow> int" where
  "anthropic_retry_delay env msg attempt max_ms =
     (let extracted = xe_extract_delay env msg;
          delay = (if extracted = 0 then 5 * 2 ^ attempt * 1000000000 else extracted);
          top = (case max_ms of
                   Some ms \<Rightarrow> if 0 < ms then ms * 1000000 else 2 * 60 * 1000000000
                 | None \<Rightarrow> 2 * 60 * 1000000000)
      in if top < delay then top else delay)"

definition give_up :: "string \<Rightarrow> push list" where
  "give_up last_err = [PushStart, PushError (failed_output last_err new_output)]"

type_synonym retry_notice = "nat \<times> int \<times> string"

text \<open>
  The loop over the attempts, from the given one: what is pushed, and the retries announced to the
  caller with their delays.
\<close>

function attempts ::
  "stream_env \<Rightarrow> (string \<Rightarrow> string) \<Rightarrow> (string \<Rightarrow> headers) \<Rightarrow> go_int option \<Rightarrow> nat \<Rightarrow> string \<Rightarrow> string
     \<Rightarrow> push list \<times> retry_notice list" where
  "attempts env tool_name headers max_ms attempt key last_err =
     (if max_anthropic_retries \<le> attempt then (give_up last_err, [])
      else
        (let notice = (if attempt = 0 then []
                       else [(attempt, anthropic_retry_delay env last_err (attempt - 1) max_ms, last_err)])
         in if 0 < attempt \<and> xe_cancelled env attempt then (give_up last_err, notice)
            else (case attempt_once env tool_name headers attempt key of
                    (Over, ps) \<Rightarrow> (ps, notice)
                  | (Again msg key', ps) \<Rightarrow>
                      (let (ps', ns) = attempts env tool_name headers max_ms (attempt + 1) key' msg
                       in (ps @ ps', notice @ ns)))))"
  by pat_completeness auto

termination
  by (relation "measure (\<lambda>(env, tool_name, headers, max_ms, attempt, key, last_err). max_anthropic_retries - attempt)")
    (auto simp: max_anthropic_retries_def)

declare attempts.simps [simp del]

definition inbound_tool_name :: "request_env \<Rightarrow> bool \<Rightarrow> tool_decl list \<Rightarrow> string \<Rightarrow> string" where
  "inbound_tool_name env oauth tools n =
     (if oauth then from_claude_code_name (re_aliases env) n (map tl_name tools) else n)"

text \<open>\<^verbatim>\<open>StreamAnthropic\<close>, without the \<^verbatim>\<open>OnPayload\<close> callback.\<close>

definition stream_anthropic ::
  "request_env \<Rightarrow> stream_env \<Rightarrow> wire_model \<Rightarrow> llm_context \<Rightarrow> stream_options option \<Rightarrow> provider_state
     \<Rightarrow> (push list \<times> retry_notice list) \<times> provider_state" where
  "stream_anthropic renv env md cx opts ps =
     (let given = (case opts of None \<Rightarrow> [] | Some so \<Rightarrow> so_api_key so);
          key = (if given = [] then xe_env_key env else given);
          detail = (case opts of None \<Rightarrow> [] | Some so \<Rightarrow> so_api_key_error so)
      in if key = [] \<and> \<not> xe_is_unix env (wm_base_url md)
         then (([PushError (failed_output (no_api_key_error (md_provider md) detail) new_output)], []), ps)
         else
           (let oauth = is_oauth_model md;
                (req, ps') = build_anthropic_params renv md cx oauth opts ps
            in (attempts env (inbound_tool_name renv oauth (cx_tools cx))
                  (\<lambda>k. build_anthropic_headers renv (xe_gateway env) md k oauth opts (cx_tools cx \<noteq> []))
                  (case opts of None \<Rightarrow> None | Some so \<Rightarrow> so_max_retry_delay so) 0 key [], ps')))"

end
