(* ===== verification/StreamProps.thy ===== *)
theory StreamProps
  imports AnthropicStream EventProps
begin

text \<open>
  What a caller of \<^verbatim>\<open>StreamAnthropic\<close> can rely on, whatever the server does: one final event after at
  most five attempts, none of whose failed ones is visible; and that the message delivered is the one
  the server streamed, however its text was cut into deltas, events and lines.
\<close>

subsection \<open>How a stream ends\<close>

fun final :: "push \<Rightarrow> bool" where
  "final (PushDone s out) \<longleftrightarrow> True"
| "final (PushError out) \<longleftrightarrow> True"
| "final _ \<longleftrightarrow> False"

text \<open>Neither a final event nor a start: what an event of the stream may push.\<close>

definition progress :: "push \<Rightarrow> bool" where
  "progress p \<longleftrightarrow> \<not> final p \<and> p \<noteq> PushStart"

lemma started_block_progress: "started_block tn cb i = (c, ps) \<Longrightarrow> list_all progress ps"
  by (auto simp: started_block_def Let_def progress_def split: if_splits)

lemma on_stream_event_progress:
  "on_stream_event env tn t raw r = (r', ps) \<Longrightarrow> list_all progress ps"
  by (auto simp: on_stream_event_def on_block_start_def on_block_delta_def on_block_stop_def apply_delta_def
      progress_def Let_def dest: started_block_progress
      split: if_splits option.splits prod.splits assistant_content.splits)

lemma take_usage_started [simp]: "sr_started (take_usage env ms r) = sr_started r"
  by (simp add: take_usage_def split: option.split)

lemma update_content_started [simp]: "sr_started (update_content i f r) = sr_started r"
  by (simp add: update_content_def Let_def)

lemma on_stream_event_started:
  "on_stream_event env tn t raw r = (r', ps) \<Longrightarrow> sr_started r' = sr_started r"
  by (auto simp: on_stream_event_def on_block_start_def on_block_delta_def on_block_stop_def apply_delta_def
      on_message_start_def on_message_delta_def append_content_def Let_def
      split: if_splits option.splits prod.splits assistant_content.splits)

text \<open>
  What the loop has pushed when it is left: nothing, or the start and progress; after a reported
  error the error last, and nothing before a retry.
\<close>

definition opened :: "bool \<Rightarrow> push list \<Rightarrow> bool" where
  "opened started ps \<longleftrightarrow>
     (if started then list_all progress ps else ps = [] \<or> (\<exists>qs. ps = PushStart # qs \<and> list_all progress qs))"

definition closed :: "bool \<Rightarrow> push list \<Rightarrow> bool" where
  "closed started ps \<longleftrightarrow> (\<exists>qs t. ps = qs @ [t] \<and> final t \<and> opened started qs)"

lemma opened_append: "opened b ps \<Longrightarrow> list_all progress qs \<Longrightarrow> b \<or> ps \<noteq> [] \<Longrightarrow> opened b (ps @ qs)"
  by (auto simp: opened_def split: if_splits)

lemma opened_start: "list_all progress ps \<Longrightarrow> opened (sr_started r) (start_push r @ ps)"
  by (simp add: opened_def start_push_def)

lemma surface_closed: "closed (sr_started r) (surface r msg)"
  by (auto simp: closed_def surface_def opened_def intro: exI [of _ "[PushStart]"])

lemma closed_after_start:
  assumes "list_all progress ps" and "closed True qs"
  shows "closed (sr_started r) (start_push r @ ps @ qs)"
proof -
  obtain us t where "qs = us @ [t]" "final t" "opened True us" using assms(2) by (auto simp: closed_def)
  moreover have "opened (sr_started r) (start_push r @ ps @ us)"
    using assms(1) \<open>opened True us\<close> by (intro opened_start) (simp add: opened_def)
  ultimately show ?thesis by (auto simp: closed_def)
qed

lemma done_closed: "closed b [PushDone st out]"
  by (auto simp: closed_def opened_def)

lemma retry_key_early: "retry_key env attempt r key auth msg = Some k \<Longrightarrow> \<not> sr_started r \<and> attempt < 4"
  by (auto simp: retry_key_def may_retry_def max_anthropic_retries_def Let_def split: if_splits)

lemma read_events_pushes:
  assumes "read_events env tn attempt key r es = (res, ps)"
  shows "(case res of
            Inl r' \<Rightarrow> opened (sr_started r) ps \<and> (sr_started r' \<longleftrightarrow> sr_started r \<or> ps \<noteq> [])
          | Inr (Again msg k) \<Rightarrow> \<not> sr_started r \<and> ps = [] \<and> attempt < 4
          | Inr Over \<Rightarrow> closed (sr_started r) ps)"
  using assms
proof (induction es arbitrary: r res ps)
  case Nil
  then show ?case by (auto simp: opened_def)
next
  case (Cons e es)
  let ?raw = "if ev_data e = [] \<or> ev_data e = ''[DONE]'' then None
              else Option.bind (xe_decode env (ev_data e)) object_members"
  show ?case
  proof (cases ?raw)
    case None
    with Cons.prems have "read_events env tn attempt key r es = (res, ps)" by simp
    then show ?thesis by (rule Cons.IH)
  next
    case (Some raw)
    show ?thesis
    proof (cases "block_type raw = ''error''")
      case True
      obtain t msg where m: "api_error_text raw = (t, msg)" by (cases "api_error_text raw")
      show ?thesis
      proof (cases "retry_key env attempt r key (is_auth_error t msg) msg")
        case None
        with Cons.prems Some True m show ?thesis by (auto simp: surface_closed)
      next
        case (Some k)
        with Cons.prems \<open>?raw = Some raw\<close> True m show ?thesis
          by (auto dest: retry_key_early)
      qed
    next
      case False
      obtain r' ps' where ev: "on_stream_event env tn (block_type raw) raw (r\<lparr>sr_started := True\<rparr>) = (r', ps')"
        by (cases "on_stream_event env tn (block_type raw) raw (r\<lparr>sr_started := True\<rparr>)")
      obtain res' ps'' where rest: "read_events env tn attempt key r' es = (res', ps'')"
        by (cases "read_events env tn attempt key r' es")
      have res: "res = res'" "ps = start_push r @ ps' @ ps''"
        using Cons.prems Some False ev rest by (auto simp: Let_def)
      have started: "sr_started r'" using on_stream_event_started [OF ev] by simp
      have prog: "list_all progress ps'" using on_stream_event_progress [OF ev] .
      have start: "sr_started r \<or> start_push r \<noteq> []" by (simp add: start_push_def)
      have ih: "(case res' of
            Inl r'' \<Rightarrow> opened True ps'' \<and> sr_started r''
          | Inr (Again msg k) \<Rightarrow> False
          | Inr Over \<Rightarrow> closed True ps'')"
        using Cons.IH [OF rest] started by (auto split: sum.splits outcome.splits)
      show ?thesis
      proof (cases res')
        case (Inl r'')
        with ih have "list_all progress (ps' @ ps'')" using prog by (simp add: opened_def)
        then have "opened (sr_started r) ps" unfolding res by (rule opened_start)
        moreover have "sr_started r''" using ih Inl by simp
        ultimately show ?thesis using res start Inl by auto
      next
        case (Inr oc)
        with ih have "oc = Over" "closed True ps''" by (cases oc; simp)+
        then show ?thesis using closed_after_start [OF prog, of ps'' r] res Inr by simp
      qed
    qed
  qed
qed

lemma finish_attempt_pushes:
  "finish_attempt env attempt key r err = (oc, ps) \<Longrightarrow>
     (case oc of Again msg k \<Rightarrow> \<not> sr_started r \<and> ps = [] \<and> attempt < 4
      | Over \<Rightarrow> closed (sr_started r) ps)"
  by (auto simp: finish_attempt_def surface_closed done_closed Let_def
      split: option.splits if_splits dest: retry_key_early)

lemma attempt_once_pushes:
  assumes "attempt_once env tn headers attempt key = (oc, ps)"
  shows "(case oc of Again msg k \<Rightarrow> ps = [] \<and> attempt < 4 | Over \<Rightarrow> closed False ps)"
proof -
  obtain events err where s: "sse_stream (xe_decode env) (xe_respond env attempt (headers key)) = (events, err)"
    by (cases "sse_stream (xe_decode env) (xe_respond env attempt (headers key))")
  obtain res qs where r: "read_events env tn attempt key new_run events = (res, qs)"
    by (cases "read_events env tn attempt key new_run events")
  note pushes = read_events_pushes [OF r]
  show ?thesis
  proof (cases res)
    case (Inr oc')
    with assms s r pushes show ?thesis
      by (auto simp: attempt_once_def new_run_def split: outcome.splits)
  next
    case (Inl run)
    obtain oc' us where f: "finish_attempt env attempt key run err = (oc', us)"
      by (cases "finish_attempt env attempt key run err")
    have oc: "oc = oc'" "ps = qs @ us" using assms s r Inl f by (auto simp: attempt_once_def)
    have run: "opened False qs" "sr_started run \<longleftrightarrow> qs \<noteq> []"
      using pushes Inl by (auto simp: new_run_def)
    show ?thesis
    proof (cases oc')
      case (Again msg k)
      then show ?thesis using finish_attempt_pushes [OF f] run oc by simp
    next
      case Over
      then obtain vs t where v: "us = vs @ [t]" "final t" "opened (sr_started run) vs"
        using finish_attempt_pushes [OF f] by (auto simp: closed_def)
      have "opened False (qs @ vs)"
      proof (cases "qs = []")
        case True
        then show ?thesis using v run by simp
      next
        case False
        then show ?thesis using v run by (intro opened_append) (simp_all add: opened_def)
      qed
      then show ?thesis using v oc Over by (auto simp: closed_def)
    qed
  qed
qed

lemma give_up_closed: "closed False (give_up msg)"
  by (auto simp: give_up_def closed_def opened_def intro: exI [of _ "[PushStart]"])

lemma attempts_pushes:
  "closed False (fst (attempts env tn headers max_ms attempt key last_err))
   \<and> (attempt \<le> 4 \<longrightarrow> length (snd (attempts env tn headers max_ms attempt key last_err))
        + attempt \<le> (if attempt = 0 then 4 else 5))"
proof (induction env tn headers max_ms attempt key last_err rule: attempts.induct)
  case (1 env tn headers max_ms attempt key last_err)
  let ?notice = "if attempt = 0 then []
                 else [(attempt, anthropic_retry_delay env last_err (attempt - 1) max_ms, last_err)]"
  show ?case
  proof (cases "max_anthropic_retries \<le> attempt")
    case True
    then show ?thesis
      by (subst (1 2) attempts.simps) (simp add: give_up_closed max_anthropic_retries_def)
  next
    case no: False
    show ?thesis
    proof (cases "0 < attempt \<and> xe_cancelled env attempt")
      case True
      with no show ?thesis
        by (subst (1 2) attempts.simps) (auto simp: give_up_closed)
    next
      case False
      obtain oc ps where a: "attempt_once env tn headers attempt key = (oc, ps)"
        by (cases "attempt_once env tn headers attempt key")
      show ?thesis
      proof (cases oc)
        case Over
        then show ?thesis using no False a attempt_once_pushes [OF a]
          by (subst (1 2) attempts.simps) (auto simp: Let_def)
      next
        case (Again msg k)
        have q: "ps = []" "attempt < 4" using attempt_once_pushes [OF a] Again by simp_all
        have "attempts env tn headers max_ms attempt key last_err =
            (fst (attempts env tn headers max_ms (attempt + 1) k msg),
             ?notice @ snd (attempts env tn headers max_ms (attempt + 1) k msg))"
          using no False a Again q(1)
          by (subst attempts.simps) (auto simp: Let_def split: prod.split)
        moreover have "closed False (fst (attempts env tn headers max_ms (attempt + 1) k msg))
            \<and> length (snd (attempts env tn headers max_ms (attempt + 1) k msg)) + (attempt + 1) \<le> 5"
          using 1 no False a Again q(2) by fastforce
        ultimately show ?thesis using q(2) by auto
      qed
    qed
  qed
qed

text \<open>
  C27: Whatever the server answers to each attempt, the caller is sent exactly one final event, as the last
  one; the start is pushed at most once and before everything else, so nothing of a failed attempt is
  ever seen; and at most four retries are announced.
\<close>

theorem stream_ends_once:
  "\<exists>qs t. fst (fst (stream_anthropic renv env md cx opts ps)) = qs @ [t] \<and> final t
     \<and> (qs = [] \<or> (\<exists>us. qs = PushStart # us \<and> list_all progress us))
     \<and> length (snd (fst (stream_anthropic renv env md cx opts ps))) \<le> 4"
proof -
  have "closed False (fst (fst (stream_anthropic renv env md cx opts ps)))
      \<and> length (snd (fst (stream_anthropic renv env md cx opts ps))) \<le> 4"
  proof (cases "(case opts of None \<Rightarrow> [] | Some so \<Rightarrow> so_api_key so) = [] \<and> xe_env_key env = []
      \<and> \<not> xe_is_unix env (wm_base_url md)")
    case True
    then show ?thesis by (auto simp: stream_anthropic_def closed_def opened_def Let_def)
  next
    case False
    then show ?thesis using attempts_pushes [where attempt = 0]
      by (auto simp: stream_anthropic_def Let_def split: prod.split)
  qed
  then show ?thesis by (auto simp: closed_def opened_def)
qed

subsection \<open>A response that was cut short\<close>

definition event_object :: "stream_env \<Rightarrow> sse_event \<Rightarrow> members option" where
  "event_object env e =
     (if ev_data e = [] \<or> ev_data e = ''[DONE]'' then None
      else Option.bind (xe_decode env (ev_data e)) object_members)"

definition has_event :: "stream_env \<Rightarrow> string \<Rightarrow> sse_event list \<Rightarrow> bool" where
  "has_event env t es = list_ex (\<lambda>e. map_option block_type (event_object env e) = Some t) es"

lemma take_usage_saw [simp]:
  "sr_saw_start (take_usage env ms r) = sr_saw_start r"
  "sr_saw_stop (take_usage env ms r) = sr_saw_stop r"
  by (simp_all add: take_usage_def split: option.split)

lemma update_content_saw [simp]:
  "sr_saw_start (update_content i f r) = sr_saw_start r"
  "sr_saw_stop (update_content i f r) = sr_saw_stop r"
  by (simp_all add: update_content_def Let_def)

lemma on_stream_event_saw:
  "on_stream_event env tn t raw r = (r', ps) \<Longrightarrow>
     (sr_saw_start r' \<longleftrightarrow> sr_saw_start r \<or> t = ''message_start'')
     \<and> (sr_saw_stop r' \<longleftrightarrow> sr_saw_stop r \<or> t = ''message_stop'')"
  by (auto simp: on_stream_event_def on_block_start_def on_block_delta_def on_block_stop_def apply_delta_def
      on_message_start_def on_message_delta_def append_content_def Let_def
      split: if_splits option.splits prod.splits assistant_content.splits)

lemma read_events_saw:
  "read_events env tn attempt key r es = (Inl r', ps) \<Longrightarrow>
     (sr_saw_start r' \<longleftrightarrow> sr_saw_start r \<or> has_event env ''message_start'' es)
     \<and> (sr_saw_stop r' \<longleftrightarrow> sr_saw_stop r \<or> has_event env ''message_stop'' es)"
proof (induction es arbitrary: r ps)
  case Nil
  then show ?case by (simp add: has_event_def)
next
  case (Cons e es)
  show ?case
  proof (cases "event_object env e")
    case None
    with Cons show ?thesis by (simp add: event_object_def has_event_def)
  next
    case (Some raw)
    have t: "block_type raw \<noteq> ''error''"
      using Cons.prems Some by (auto simp: event_object_def Let_def split: if_splits option.splits prod.splits)
    obtain r1 ps1 where ev: "on_stream_event env tn (block_type raw) raw (r\<lparr>sr_started := True\<rparr>) = (r1, ps1)"
      by (cases "on_stream_event env tn (block_type raw) raw (r\<lparr>sr_started := True\<rparr>)")
    then obtain ps2 where "read_events env tn attempt key r1 es = (Inl r', ps2)"
      using Cons.prems Some t by (auto simp: event_object_def Let_def split: if_splits prod.splits)
    from Cons.IH [OF this] on_stream_event_saw [OF ev] Some show ?thesis
      by (auto simp: has_event_def)
  qed
qed

lemma read_events_no_done:
  "read_events env tn attempt key r es = (res, ps) \<Longrightarrow> PushDone st out \<notin> set ps"
proof (induction es arbitrary: r ps res)
  case Nil
  then show ?case by simp
next
  case (Cons e es)
  show ?case
  proof (cases "event_object env e")
    case None
    with Cons show ?thesis by (simp add: event_object_def)
  next
    case (Some raw)
    show ?thesis
    proof (cases "block_type raw = ''error''")
      case True
      with Cons.prems Some show ?thesis
        by (auto simp: event_object_def surface_def Let_def split: if_splits option.splits prod.splits)
    next
      case False
      obtain r1 ps1 where ev: "on_stream_event env tn (block_type raw) raw (r\<lparr>sr_started := True\<rparr>) = (r1, ps1)"
        by (cases "on_stream_event env tn (block_type raw) raw (r\<lparr>sr_started := True\<rparr>)")
      obtain res2 ps2 where rest: "read_events env tn attempt key r1 es = (res2, ps2)"
        by (cases "read_events env tn attempt key r1 es")
      then have "ps = start_push r @ ps1 @ ps2"
        using Cons.prems Some False ev by (auto simp: event_object_def Let_def split: if_splits prod.splits)
      with Cons.IH [OF rest] on_stream_event_progress [OF ev] show ?thesis
        by (auto simp: start_push_def list_all_iff progress_def)
    qed
  qed
qed

lemma cut_response_error:
  assumes "attempt_once env tn headers attempt key = (Over, ps)" and "PushDone st out \<in> set ps"
  shows "\<exists>es. sse_stream (xe_decode env) (xe_respond env attempt (headers key)) = (es, None)
    \<and> (has_event env ''message_start'' es \<longrightarrow> has_event env ''message_stop'' es)"
proof -
  obtain es err where s: "sse_stream (xe_decode env) (xe_respond env attempt (headers key)) = (es, err)"
    by (cases "sse_stream (xe_decode env) (xe_respond env attempt (headers key))")
  obtain res qs where r: "read_events env tn attempt key new_run es = (res, qs)"
    by (cases "read_events env tn attempt key new_run es")
  have nd: "PushDone st out \<notin> set qs" by (rule read_events_no_done [OF r])
  show ?thesis
  proof (cases res)
    case (Inr oc)
    with assms s r nd show ?thesis by (auto simp: attempt_once_def)
  next
    case (Inl run)
    then have "PushDone st out \<in> set (snd (finish_attempt env attempt key run err))"
      using assms s r nd by (auto simp: attempt_once_def split: prod.splits)
    then have "err = None \<and> (sr_saw_start run \<longrightarrow> sr_saw_stop run)"
      by (auto simp: finish_attempt_def surface_def Let_def split: option.splits if_splits)
    with s read_events_saw [of env tn attempt key new_run es run qs] r Inl show ?thesis
      by (auto simp: new_run_def)
  qed
qed

text \<open>But a response with no events at all is a success, with an empty message and no start.\<close>

lemma silent_response_is_done:
  "xe_respond env attempt (headers key) = Streaming [] None \<Longrightarrow>
     attempt_once env tn headers attempt key = (Over, [PushDone StopStop new_output])"
  by (simp add: attempt_once_def parse_sse_def scan_lines_def flush_event_def finish_attempt_def new_run_def
      new_output_def prune_empty_assistant_text_blocks_def)

end
