(* ===== verification/StreamReplay.thy ===== *)
theory StreamReplay
  imports StreamProps
begin

text \<open>
  A message as the server streams it, and that the stream reader builds exactly this message: every
  block is announced, sent in pieces and closed, pings and comments may come at any point, and the
  result is the list of blocks with their pieces joined.
\<close>

subsection \<open>The server's side\<close>

text \<open>
  A block with the pieces it is sent in: text; thinking with its signature; redacted thinking; a tool
  call with the pieces of its JSON arguments; any other block, sent whole.
\<close>

datatype said =
    SaidText "string list"
  | SaidThinking "string list" "string list"
  | SaidRedacted string
  | SaidCall string string "string list"
  | SaidServer members

definition typed :: "string \<Rightarrow> members \<Rightarrow> members" where
  "typed t ms = (''type'', JStr t) # ms"

fun said_block :: "said \<Rightarrow> members" where
  "said_block (SaidText ts) = typed ''text'' [(''text'', JStr [])]"
| "said_block (SaidThinking ts ss) = typed ''thinking'' [(''thinking'', JStr []), (''signature'', JStr [])]"
| "said_block (SaidRedacted d) = typed ''redacted_thinking'' [(''data'', JStr d)]"
| "said_block (SaidCall i n js) =
     typed ''tool_use'' [(''id'', JStr i), (''name'', JStr n), (''input'', JObj [])]"
| "said_block (SaidServer ms) = ms"

definition delta_of :: "string \<Rightarrow> string \<Rightarrow> string \<Rightarrow> members" where
  "delta_of t k s = typed t [(k, JStr s)]"

fun said_deltas :: "said \<Rightarrow> members list" where
  "said_deltas (SaidText ts) = map (delta_of ''text_delta'' ''text'') ts"
| "said_deltas (SaidThinking ts ss) =
     map (delta_of ''thinking_delta'' ''thinking'') ts @ map (delta_of ''signature_delta'' ''signature'') ss"
| "said_deltas (SaidCall i n js) = map (delta_of ''input_json_delta'' ''partial_json'') js"
| "said_deltas _ = []"

definition raw_start :: "int \<Rightarrow> members \<Rightarrow> members" where
  "raw_start i cb = typed ''content_block_start'' [(''index'', JInt i), (''content_block'', JObj cb)]"

definition raw_delta :: "int \<Rightarrow> members \<Rightarrow> members" where
  "raw_delta i d = typed ''content_block_delta'' [(''index'', JInt i), (''delta'', JObj d)]"

definition raw_stop :: "int \<Rightarrow> members" where
  "raw_stop i = typed ''content_block_stop'' [(''index'', JInt i)]"

definition said_events :: "int \<Rightarrow> said \<Rightarrow> members list" where
  "said_events i s = raw_start i (said_block s) # map (raw_delta i) (said_deltas s) @ [raw_stop i]"

fun blocks_events :: "int \<Rightarrow> said list \<Rightarrow> members list" where
  "blocks_events i [] = []"
| "blocks_events i (s # ss) = said_events i s @ blocks_events (i + 1) ss"

definition turn_events :: "string \<Rightarrow> members \<Rightarrow> said list \<Rightarrow> string \<Rightarrow> members \<Rightarrow> members list" where
  "turn_events mid u ss sr u' =
     typed ''message_start'' [(''message'', JObj [(''id'', JStr mid), (''usage'', JObj u)])]
     # blocks_events 0 ss
     @ [typed ''message_delta'' [(''delta'', JObj [(''stop_reason'', JStr sr)]), (''usage'', JObj u')],
        typed ''message_stop'' []]"

definition server_block :: "members \<Rightarrow> bool" where
  "server_block ms \<longleftrightarrow> block_type ms \<notin> {''text'', ''thinking'', ''redacted_thinking'', ''tool_use''}"

fun well_said :: "said \<Rightarrow> bool" where
  "well_said (SaidServer ms) \<longleftrightarrow> server_block ms"
| "well_said _ \<longleftrightarrow> True"

subsection \<open>The message it stands for\<close>

fun said_content :: "stream_env \<Rightarrow> (string \<Rightarrow> string) \<Rightarrow> said \<Rightarrow> assistant_content" where
  "said_content env tn (SaidText ts) = text_content_of (concat ts)"
| "said_content env tn (SaidThinking ts ss) =
     CThinking \<lparr>th_text = concat ts, th_sig = concat ss, th_redacted = False\<rparr>"
| "said_content env tn (SaidRedacted d) = CThinking \<lparr>th_text = [], th_sig = d, th_redacted = True\<rparr>"
| "said_content env tn (SaidCall i n js) =
     CToolCall \<lparr>tc_id = i, tc_name = tn n, tc_args = xe_parse_args env (concat js), tc_sig = []\<rparr>"
| "said_content env tn (SaidServer ms) =
     CServer \<lparr>srv_display = format_server_content_for_display (block_type ms) ms, srv_raw = JObj ms\<rparr>"

subsection \<open>Reading objects in sequence\<close>

fun run_raws :: "stream_env \<Rightarrow> (string \<Rightarrow> string) \<Rightarrow> stream_run \<Rightarrow> members list \<Rightarrow> stream_run" where
  "run_raws env tn r [] = r"
| "run_raws env tn r (raw # raws) =
     run_raws env tn (fst (on_stream_event env tn (block_type raw) raw (r\<lparr>sr_started := True\<rparr>))) raws"

lemma run_raws_append [simp]: "run_raws env tn r (xs @ ys) = run_raws env tn (run_raws env tn r xs) ys"
  by (induction xs arbitrary: r) simp_all

lemma read_events_raws:
  "list_all2 (\<lambda>e raw. event_object env e = Some raw \<and> block_type raw \<noteq> ''error'') es raws \<Longrightarrow>
     fst (read_events env tn attempt key r es) = Inl (run_raws env tn r raws)"
proof (induction es arbitrary: r raws)
  case Nil
  then show ?case by simp
next
  case (Cons e es)
  then obtain raw raws' where r: "raws = raw # raws'" "event_object env e = Some raw" "block_type raw \<noteq> ''error''"
    "list_all2 (\<lambda>e raw. event_object env e = Some raw \<and> block_type raw \<noteq> ''error'') es raws'"
    by (cases raws) auto
  show ?case using Cons.IH [OF r(4)] r(1-3)
    by (auto simp: event_object_def Let_def split: if_splits prod.split) (metis fst_conv)
qed

lemma run_raws_started: "sr_started r \<Longrightarrow> sr_started (run_raws env tn r raws)"
proof (induction raws arbitrary: r)
  case (Cons raw raws)
  have "sr_started (fst (on_stream_event env tn (block_type raw) raw (r\<lparr>sr_started := True\<rparr>)))"
    using on_stream_event_started [OF prod.collapse [symmetric]] by simp
  then show ?case using Cons.IH by simp
qed simp

lemma set_started: "sr_started r \<Longrightarrow> r\<lparr>sr_started := True\<rparr> = r"
  by (cases r) simp

text \<open>Pings are skipped.\<close>

lemma run_raws_pings:
  "sr_started r \<Longrightarrow> run_raws env tn r raws = run_raws env tn r (filter (\<lambda>raw. block_type raw \<noteq> ''ping'') raws)"
proof (induction raws arbitrary: r)
  case (Cons raw raws)
  let ?r = "fst (on_stream_event env tn (block_type raw) raw (r\<lparr>sr_started := True\<rparr>))"
  have "sr_started ?r" using on_stream_event_started [OF prod.collapse [symmetric]] by simp
  moreover have "?r = r" if "block_type raw = ''ping''"
    using that Cons.prems by (simp add: on_stream_event_def set_started)
  ultimately show ?case using Cons by auto
qed simp

lemma run_raws_start: "raws \<noteq> [] \<Longrightarrow> run_raws env tn r raws = run_raws env tn (r\<lparr>sr_started := True\<rparr>) raws"
  by (cases raws) simp_all

subsection \<open>One block\<close>

lemma lookup_typed: "lookup (typed t ms) k = (case lookup ms k of None \<Rightarrow> if k = ''type'' then Some (JStr t) else None | v \<Rightarrow> v)"
  by (auto simp: lookup_def typed_def map_add_def split: option.split)

lemmas member_simps = lookup_typed lookup_cons block_type_def str_of_def get_str_def json_int_def
  number_of_def object_of_def the_default_def

lemma raw_types [simp]:
  "block_type (raw_start i cb) = ''content_block_start''"
  "block_type (raw_delta i d) = ''content_block_delta''"
  "block_type (raw_stop i) = ''content_block_stop''"
  by (simp_all add: raw_start_def raw_delta_def raw_stop_def member_simps)

lemma raw_members [simp]:
  "json_int env (raw_start i cb) ''index'' = i"
  "json_int env (raw_delta i d) ''index'' = i"
  "json_int env (raw_stop i) ''index'' = i"
  "object_of (raw_start i cb) ''content_block'' = Some cb"
  "object_of (raw_delta i d) ''delta'' = Some d"
  by (simp_all add: raw_start_def raw_delta_def raw_stop_def member_simps)

lemma delta_members [simp]:
  "block_type (delta_of t k s) = (if k = ''type'' then s else t)"
  "str_of (delta_of t k s) k = s"
  by (simp_all add: delta_of_def member_simps)

definition at_block ::
  "stream_run \<Rightarrow> stream_output \<Rightarrow> assistant_content list \<Rightarrow> assistant_content \<Rightarrow> int \<Rightarrow> string \<Rightarrow> bool" where
  "at_block r out cs c i js \<longleftrightarrow>
     sr_out r = out\<lparr>os_content := cs @ [c]\<rparr> \<and> sr_blocks r i = Some \<lparr>bi_content = length cs, bi_json = js\<rparr>"

definition event_step :: "stream_env \<Rightarrow> (string \<Rightarrow> string) \<Rightarrow> members \<Rightarrow> stream_run \<Rightarrow> stream_run" where
  "event_step env tn raw r = fst (on_stream_event env tn (block_type raw) raw (r\<lparr>sr_started := True\<rparr>))"

lemma run_raws_Cons: "run_raws env tn r (raw # raws) = run_raws env tn (event_step env tn raw r) raws"
  by (simp add: event_step_def)

declare run_raws.simps(2) [simp del]

lemma step_start:
  "os_content (sr_out r) = cs \<Longrightarrow>
     at_block (event_step env tn (raw_start i cb) r) (sr_out r) cs (fst (started_block tn cb (length cs))) i []"
  by (auto simp: event_step_def on_stream_event_def on_block_start_def append_content_def at_block_def Let_def
      split: prod.split)

lemma step_text:
  "at_block r out cs (CText t) i js \<Longrightarrow>
     at_block (event_step env tn (raw_delta i (delta_of ''text_delta'' ''text'' s)) r) out cs
       (CText (t\<lparr>txt_text := txt_text t @ s\<rparr>)) i js"
  by (auto simp: event_step_def on_stream_event_def on_block_delta_def apply_delta_def update_content_def
      at_block_def Let_def)

lemma step_thinking:
  "at_block r out cs (CThinking b) i js \<Longrightarrow>
     at_block (event_step env tn (raw_delta i (delta_of ''thinking_delta'' ''thinking'' s)) r) out cs
       (CThinking (b\<lparr>th_text := th_text b @ s\<rparr>)) i js"
  by (auto simp: event_step_def on_stream_event_def on_block_delta_def apply_delta_def update_content_def
      at_block_def Let_def)

lemma step_signature:
  "at_block r out cs (CThinking b) i js \<Longrightarrow>
     at_block (event_step env tn (raw_delta i (delta_of ''signature_delta'' ''signature'' s)) r) out cs
       (CThinking (b\<lparr>th_sig := th_sig b @ s\<rparr>)) i js"
  by (auto simp: event_step_def on_stream_event_def on_block_delta_def apply_delta_def update_content_def
      at_block_def Let_def)

lemma step_arguments:
  "at_block r out cs (CToolCall tc) i js \<Longrightarrow>
     at_block (event_step env tn (raw_delta i (delta_of ''input_json_delta'' ''partial_json'' s)) r) out cs
       (CToolCall (tc\<lparr>tc_args := xe_parse_args env (js @ s)\<rparr>)) i (js @ s)"
  by (auto simp: event_step_def on_stream_event_def on_block_delta_def apply_delta_def update_content_def
      at_block_def Let_def)

lemma step_stop:
  "at_block r out cs c i js \<Longrightarrow>
     sr_out (event_step env tn (raw_stop i) r) = out\<lparr>os_content := cs @ [set_arguments (xe_parse_args env js) c]\<rparr>"
  by (cases c) (auto simp: event_step_def on_stream_event_def on_block_stop_def update_content_def
      at_block_def Let_def)

lemma run_text:
  "at_block r out cs (CText t) i js \<Longrightarrow>
     at_block (run_raws env tn r (map (raw_delta i) (map (delta_of ''text_delta'' ''text'') ts))) out cs
       (CText (t\<lparr>txt_text := txt_text t @ concat ts\<rparr>)) i js"
proof (induction ts arbitrary: r t)
  case (Cons s ts)
  from Cons.IH [OF step_text [OF Cons.prems]] show ?case by (simp add: run_raws_Cons)
qed simp

lemma run_thinking:
  "at_block r out cs (CThinking b) i js \<Longrightarrow>
     at_block (run_raws env tn r (map (raw_delta i) (map (delta_of ''thinking_delta'' ''thinking'') ts))) out cs
       (CThinking (b\<lparr>th_text := th_text b @ concat ts\<rparr>)) i js"
proof (induction ts arbitrary: r b)
  case (Cons s ts)
  from Cons.IH [OF step_thinking [OF Cons.prems]] show ?case by (simp add: run_raws_Cons)
qed simp

lemma run_signature:
  "at_block r out cs (CThinking b) i js \<Longrightarrow>
     at_block (run_raws env tn r (map (raw_delta i) (map (delta_of ''signature_delta'' ''signature'') ss))) out cs
       (CThinking (b\<lparr>th_sig := th_sig b @ concat ss\<rparr>)) i js"
proof (induction ss arbitrary: r b)
  case (Cons s ss)
  from Cons.IH [OF step_signature [OF Cons.prems]] show ?case by (simp add: run_raws_Cons)
qed simp

lemma run_arguments:
  "at_block r out cs (CToolCall tc) i js \<Longrightarrow>
     \<exists>m. at_block (run_raws env tn r (map (raw_delta i) (map (delta_of ''input_json_delta'' ''partial_json'') ps)))
       out cs (CToolCall (tc\<lparr>tc_args := m\<rparr>)) i (js @ concat ps)"
proof (induction ps arbitrary: r tc js)
  case Nil
  then show ?case by (intro exI [of _ "tc_args tc"]) simp
next
  case (Cons s ps)
  from Cons.IH [OF step_arguments [OF Cons.prems]] show ?case by (simp add: run_raws_Cons)
qed

lemma run_said:
  assumes "well_said s" and "os_content (sr_out r) = cs"
  shows "sr_out (run_raws env tn r (said_events i s)) = (sr_out r)\<lparr>os_content := cs @ [said_content env tn s]\<rparr>"
proof -
  let ?r1 = "event_step env tn (raw_start i (said_block s)) r"
  let ?r2 = "run_raws env tn ?r1 (map (raw_delta i) (said_deltas s))"
  have whole: "run_raws env tn r (said_events i s) = event_step env tn (raw_stop i) ?r2"
    by (simp add: said_events_def run_raws_Cons)
  have start: "at_block ?r1 (sr_out r) cs (fst (started_block tn (said_block s) (length cs))) i []"
    by (rule step_start [OF assms(2)])
  have found: "\<exists>c js. at_block ?r2 (sr_out r) cs c i js \<and> set_arguments (xe_parse_args env js) c = said_content env tn s"
    if "at_block ?r2 (sr_out r) cs c i js" "set_arguments (xe_parse_args env js) c = said_content env tn s" for c js
    using that by blast
  have "\<exists>c js. at_block ?r2 (sr_out r) cs c i js \<and> set_arguments (xe_parse_args env js) c = said_content env tn s"
  proof (cases s)
    case (SaidText ts)
    with start have "at_block ?r1 (sr_out r) cs (CText \<lparr>txt_text = [], txt_sig = []\<rparr>) i []"
      by (simp add: started_block_def text_content_of_def member_simps Let_def)
    from run_text [OF this, of env tn ts] SaidText show ?thesis
      by (intro found [of "text_content_of (concat ts)"]) (simp_all add: text_content_of_def)
  next
    case (SaidThinking ts ss)
    with start have "at_block ?r1 (sr_out r) cs (CThinking \<lparr>th_text = [], th_sig = [], th_redacted = False\<rparr>) i []"
      by (simp add: started_block_def member_simps Let_def)
    from run_signature [OF run_thinking [OF this, of env tn ts], of env tn ss] SaidThinking show ?thesis
      by (intro found [of "said_content env tn s"]) simp_all
  next
    case (SaidRedacted d)
    with start show ?thesis
      by (intro found [of "said_content env tn s"]) (simp_all add: started_block_def member_simps Let_def)
  next
    case (SaidCall n t ps)
    with start have "at_block ?r1 (sr_out r) cs
        (CToolCall \<lparr>tc_id = n, tc_name = tn t, tc_args = [], tc_sig = []\<rparr>) i []"
      by (simp add: started_block_def member_simps Let_def)
    from run_arguments [OF this, of env tn ps] obtain m where
      "at_block ?r2 (sr_out r) cs (CToolCall \<lparr>tc_id = n, tc_name = tn t, tc_args = m, tc_sig = []\<rparr>) i (concat ps)"
      using SaidCall by auto
    moreover have "set_arguments (xe_parse_args env (concat ps))
        (CToolCall \<lparr>tc_id = n, tc_name = tn t, tc_args = m, tc_sig = []\<rparr>) = said_content env tn s"
      by (simp add: SaidCall)
    ultimately show ?thesis by (rule found)
  next
    case (SaidServer ms)
    with assms(1) have "server_block ms" by simp
    with start SaidServer show ?thesis
      by (intro found [of "said_content env tn s"]) (simp_all add: started_block_def server_block_def Let_def)
  qed
  then show ?thesis using step_stop whole by metis
qed

lemma run_blocks:
  "list_all well_said ss \<Longrightarrow>
     sr_out (run_raws env tn r (blocks_events i ss)) =
       (sr_out r)\<lparr>os_content := os_content (sr_out r) @ map (said_content env tn) ss\<rparr>"
proof (induction ss arbitrary: i r)
  case (Cons s ss)
  then show ?case using run_said [of s r "os_content (sr_out r)" env tn i] by simp
qed simp

subsection \<open>A whole message\<close>

lemma run_raws_saw:
  "sr_saw_stop (run_raws env tn r raws) \<longleftrightarrow> sr_saw_stop r \<or> ''message_stop'' \<in> block_type ` set raws"
proof (induction raws arbitrary: r)
  case (Cons raw raws)
  have "sr_saw_stop (event_step env tn raw r) \<longleftrightarrow> sr_saw_stop r \<or> block_type raw = ''message_stop''"
    using on_stream_event_saw [OF prod.collapse [symmetric]] by (simp add: event_step_def)
  with Cons.IH show ?case by (auto simp: run_raws_Cons)
qed simp

lemma take_usage_out [simp]:
  "os_content (sr_out (take_usage env ms r)) = os_content (sr_out r)"
  "os_stop (sr_out (take_usage env ms r)) = os_stop (sr_out r)"
  "os_response_id (sr_out (take_usage env ms r)) = os_response_id (sr_out r)"
  by (simp_all add: take_usage_def split: option.split)

lemma set_stop_reason_out [simp]:
  "os_content (set_stop_reason sr out) = os_content out"
  "os_stop (set_stop_reason sr out) = map_anthropic_stop_reason sr"
  "os_response_id (set_stop_reason sr out) = os_response_id out"
  by (simp_all add: set_stop_reason_def Let_def)

lemma run_turn:
  assumes "list_all well_said ss"
  shows "os_content (sr_out (run_raws env tn new_run (turn_events mid u ss sr u'))) = map (said_content env tn) ss
    \<and> os_stop (sr_out (run_raws env tn new_run (turn_events mid u ss sr u'))) = map_anthropic_stop_reason sr
    \<and> os_response_id (sr_out (run_raws env tn new_run (turn_events mid u ss sr u'))) = mid"
proof -
  let ?start = "typed ''message_start'' [(''message'', JObj [(''id'', JStr mid), (''usage'', JObj u)])]"
  let ?delta = "typed ''message_delta'' [(''delta'', JObj [(''stop_reason'', JStr sr)]), (''usage'', JObj u')]"
  let ?r1 = "event_step env tn ?start new_run"
  have r1: "os_content (sr_out ?r1) = [] \<and> os_response_id (sr_out ?r1) = mid"
    by (simp add: event_step_def on_stream_event_def on_message_start_def new_run_def new_output_def member_simps Let_def)
  have delta: "os_content (sr_out (event_step env tn ?delta r)) = os_content (sr_out r)
      \<and> os_stop (sr_out (event_step env tn ?delta r)) = map_anthropic_stop_reason sr
      \<and> os_response_id (sr_out (event_step env tn ?delta r)) = os_response_id (sr_out r)" for r
    by (simp add: event_step_def on_stream_event_def on_message_delta_def member_simps Let_def)
  have stop: "sr_out (event_step env tn (typed ''message_stop'' []) r) = sr_out r" for r
    by (simp add: event_step_def on_stream_event_def member_simps)
  show ?thesis
    using r1 delta stop run_blocks [OF assms, of env tn ?r1 0]
    by (simp add: turn_events_def run_raws_Cons)
qed

text \<open>The events as they travel: a named event whose data is the text of the object.\<close>

definition sent_event :: "(members \<Rightarrow> string) \<Rightarrow> members \<Rightarrow> sse_event" where
  "sent_event text_of raw = \<lparr>ev_event = block_type raw, ev_data = text_of raw, ev_id = [], ev_retry = 0\<rparr>"

definition sent_body :: "(members \<Rightarrow> string) \<Rightarrow> string \<Rightarrow> (string list \<times> members) list \<Rightarrow> string" where
  "sent_body text_of eol xs = event_body eol (map (\<lambda>(cs, raw). (cs, sent_event text_of raw)) xs)"

text \<open>What is asked of the text of an object: it is decoded as that object, and fits a line.\<close>

definition readable :: "stream_env \<Rightarrow> (members \<Rightarrow> string) \<Rightarrow> members \<Rightarrow> bool" where
  "readable env text_of raw \<longleftrightarrow>
     xe_decode env (text_of raw) = Some (JObj raw) \<and> text_of raw \<noteq> [] \<and> text_of raw \<noteq> ''[DONE]''
     \<and> block_type raw \<noteq> ''error'' \<and> sendable (sent_event text_of raw)"

lemma sent_body_events:
  assumes "\<And>cs raw. (cs, raw) \<in> set xs \<Longrightarrow> readable env text_of raw \<and> (\<forall>c \<in> set cs. line_text c)"
    and "eol = [newline] \<or> eol = [carriage_return, newline]"
  shows "sse_stream (xe_decode env) (Streaming (sent_body text_of eol xs) None)
      = (map (\<lambda>x. sent_event text_of (snd x)) xs, None)"
proof -
  let ?ys = "map (\<lambda>(cs, raw). (cs, sent_event text_of raw)) xs"
  have "\<And>cs e. (cs, e) \<in> set ?ys \<Longrightarrow> sendable e \<and> (\<forall>c \<in> set cs. line_text c)"
    using assms(1) by (fastforce simp: readable_def)
  then have plain: "\<And>l. l \<in> set (stream_lines ?ys) \<Longrightarrow> plain_line l" by (rule plain_stream)
  have lines: "scan_lines (event_body eol ?ys) = (stream_lines ?ys, False)"
    unfolding event_body_def using plain assms(2) by (rule scan_plain)
  have "sse_lines (no_event, []) (stream_lines ?ys) = (map snd ?ys, (no_event, []))"
    using assms(1) by (intro sse_lines_stream) (auto simp: sent_event_def)
  with lines show ?thesis
    by (simp add: sent_body_def parse_sse_def flush_event_def comp_def case_prod_unfold)
qed

lemma delivered_run:
  assumes "xe_respond env attempt (headers key) = Streaming (sent_body text_of eol xs) None"
    and "\<And>cs raw. (cs, raw) \<in> set xs \<Longrightarrow> readable env text_of raw \<and> (\<forall>c \<in> set cs. line_text c)"
    and "eol = [newline] \<or> eol = [carriage_return, newline]"
    and "filter (\<lambda>raw. block_type raw \<noteq> ''ping'') (map snd xs) = turn_events mid u ss sr u'"
    and "list_all well_said ss"
  shows "\<exists>ps out. attempt_once env tn headers attempt key = (Over, ps @ [PushDone (map_anthropic_stop_reason sr) out])
    \<and> os_content out = prune_empty_assistant_text_blocks (map (said_content env tn) ss)
    \<and> os_stop out = map_anthropic_stop_reason sr \<and> os_response_id out = mid"
proof -
  let ?es = "map (\<lambda>x. sent_event text_of (snd x)) xs"
  let ?run = "run_raws env tn new_run (map snd xs)"
  let ?turn = "run_raws env tn new_run (turn_events mid u ss sr u')"
  have s: "sse_stream (xe_decode env) (xe_respond env attempt (headers key)) = (?es, None)"
    unfolding assms(1) using assms(2,3) by (rule sent_body_events)
  have "list_all2 (\<lambda>e raw. event_object env e = Some raw \<and> block_type raw \<noteq> ''error'') ?es (map snd xs)"
    using assms(2) by (fastforce simp: list_all2_map1 list_all2_map2 list_all2_same event_object_def readable_def
        sent_event_def)
  then have "fst (read_events env tn attempt key new_run ?es) = Inl ?run" by (rule read_events_raws)
  then obtain ps where r: "read_events env tn attempt key new_run ?es = (Inl ?run, ps)"
    by (metis prod.collapse)
  have "turn_events mid u ss sr u' \<noteq> []" by (simp add: turn_events_def)
  then have "map snd xs \<noteq> []" using assms(4) by fastforce
  then have "?run = run_raws env tn (new_run\<lparr>sr_started := True\<rparr>) (map snd xs)" by (rule run_raws_start)
  also have "\<dots> = run_raws env tn (new_run\<lparr>sr_started := True\<rparr>) (turn_events mid u ss sr u')"
    using run_raws_pings [of "new_run\<lparr>sr_started := True\<rparr>" env tn "map snd xs"] assms(4) by simp
  also have "\<dots> = ?turn" using \<open>turn_events mid u ss sr u' \<noteq> []\<close> run_raws_start by metis
  finally have run: "?run = ?turn" .
  have "block_type (typed ''message_stop'' []) = ''message_stop''" by (simp add: member_simps)
  then have "sr_saw_stop ?run" unfolding run run_raws_saw by (auto simp: turn_events_def)
  let ?out = "(sr_out ?run)\<lparr>os_content := prune_empty_assistant_text_blocks (os_content (sr_out ?run))\<rparr>"
  have "attempt_once env tn headers attempt key = (Over, ps @ [PushDone (os_stop ?out) ?out])"
    using s r \<open>sr_saw_stop ?run\<close> by (simp add: attempt_once_def finish_attempt_def Let_def)
  moreover have "os_content ?out = prune_empty_assistant_text_blocks (map (said_content env tn) ss)
      \<and> os_stop ?out = map_anthropic_stop_reason sr \<and> os_response_id ?out = mid"
    using run_turn [OF assms(5), of env tn mid u sr u'] run by simp
  ultimately show ?thesis by metis
qed

text \<open>
  C6: A message streamed without an error is delivered: with either line ending, comments between the
  events, pings between the objects, and every text, thinking, signature and argument cut into pieces
  at any points, the message done has the blocks of the server's message in order, without those
  texts that are blank, with the stop reason and the id the server gave.
\<close>

theorem streamed_message_delivered:
  assumes "xe_respond env attempt (headers key) = Streaming (sent_body text_of eol xs) None"
    and "\<And>cs raw. (cs, raw) \<in> set xs \<Longrightarrow> readable env text_of raw \<and> (\<forall>c \<in> set cs. line_text c)"
    and "eol = [newline] \<or> eol = [carriage_return, newline]"
    and "filter (\<lambda>raw. block_type raw \<noteq> ''ping'') (map snd xs) = turn_events mid u ss sr u'"
    and "list_all well_said ss"
  shows "\<exists>ps out. attempt_once env tn headers attempt key = (Over, ps @ [PushDone (map_anthropic_stop_reason sr) out])
    \<and> os_content out = prune_empty_assistant_text_blocks (map (said_content env tn) ss)
    \<and> os_stop out = map_anthropic_stop_reason sr \<and> os_response_id out = mid"
  using assms by (rule delivered_run)

subsection \<open>An example\<close>

text \<open>A printer for the values of the example, and a server that sends it.\<close>

fun print_json :: "json \<Rightarrow> string" where
  "print_json (JStr s) = quoted s"
| "print_json (JInt n) = itoa n"
| "print_json (JArr js) = ''['' @ concat (map (\<lambda>j. print_json j @ '','') js) @ '']''"
| "print_json (JObj ms) = ''{'' @ concat (map (\<lambda>(k, j). quoted k @ '':'' @ print_json j @ '','') ms) @ ''}''"
| "print_json _ = ''null''"

definition print_object :: "members \<Rightarrow> string" where
  "print_object ms = print_json (JObj ms)"

definition sample_said :: "said list" where
  "sample_said = [SaidThinking [''h'', ''m''] [''sig''], SaidText [], SaidText [''Hel'', ''lo''],
     SaidCall ''t1'' ''read'' [''{'', ''}'']]"

definition sample_turn :: "members list" where
  "sample_turn = turn_events ''msg'' [(''input_tokens'', JInt 3)] sample_said ''tool_use'' [(''output_tokens'', JInt 7)]"

definition sample_sent :: "(string list \<times> members) list" where
  "sample_sent = ([''hello''], hd sample_turn) # ([], typed ''ping'' []) # map (\<lambda>r. ([], r)) (tl sample_turn)"

definition sample_stream :: stream_env where
  "sample_stream =
     \<lparr>xe_respond = (\<lambda>n h. Streaming (sent_body print_object [newline] sample_sent) None),
      xe_decode = (\<lambda>t. map_option JObj (map_of (map (\<lambda>x. (print_object (snd x), snd x)) sample_sent) t)),
      xe_trunc = (\<lambda>s. 0), xe_parse_args = (\<lambda>s. if s = ''{}'' then [(''done'', JBool True)] else []),
      xe_retryable = (\<lambda>s. False), xe_extract_delay = (\<lambda>s. 0), xe_refresh = (\<lambda>n. []), xe_env_key = ''k'',
      xe_cancelled = (\<lambda>n. False), xe_is_unix = (\<lambda>s. False), xe_gateway = ''gateway''\<rparr>"

definition short_line :: "string \<Rightarrow> bool" where
  "short_line s \<longleftrightarrow> newline \<notin> set s \<and> carriage_return \<notin> set s \<and> length s \<le> 300"

lemma short_line_text: "short_line s \<Longrightarrow> line_text s"
  by (simp add: short_line_def line_text_def max_token_size_def)

lemma sample_decoded:
  "list_all (\<lambda>x. xe_decode sample_stream (print_object (snd x)) = Some (JObj (snd x))
     \<and> print_object (snd x) \<noteq> [] \<and> print_object (snd x) \<noteq> ''[DONE]'' \<and> block_type (snd x) \<noteq> ''error''
     \<and> short_line (print_object (snd x)) \<and> short_line (block_type (snd x)) \<and> list_all short_line (fst x))
     sample_sent"
  by code_simp

lemma sample_readable:
  assumes "(cs, raw) \<in> set sample_sent"
  shows "readable sample_stream print_object raw \<and> (\<forall>c \<in> set cs. line_text c)"
proof -
  have "xe_decode sample_stream (print_object raw) = Some (JObj raw)
      \<and> print_object raw \<noteq> [] \<and> print_object raw \<noteq> ''[DONE]'' \<and> block_type raw \<noteq> ''error''
      \<and> short_line (print_object raw) \<and> short_line (block_type raw) \<and> list_all short_line cs"
    using sample_decoded assms by (auto simp: list_all_iff)
  then show ?thesis
    using short_line_text by (auto simp: readable_def sendable_def sent_event_def list_all_iff short_line_def
        line_text_def max_token_size_def)
qed


theorem streamed_message_delivered_witness:
  "\<exists>ps out. attempt_once sample_stream (\<lambda>n. n) (\<lambda>k. []) 0 ''k''
       = (Over, ps @ [PushDone (map_anthropic_stop_reason ''tool_use'') out])
    \<and> os_content out = prune_empty_assistant_text_blocks (map (said_content sample_stream (\<lambda>n. n)) sample_said)
    \<and> os_stop out = map_anthropic_stop_reason ''tool_use'' \<and> os_response_id out = ''msg''"
proof (rule streamed_message_delivered [where xs = sample_sent and text_of = print_object and eol = "[newline]"
      and u = "[(''input_tokens'', JInt 3)]" and u' = "[(''output_tokens'', JInt 7)]"])
  show "xe_respond sample_stream 0 [] = Streaming (sent_body print_object [newline] sample_sent) None"
    by (simp add: sample_stream_def)
  show "filter (\<lambda>raw. block_type raw \<noteq> ''ping'') (map snd sample_sent)
      = turn_events ''msg'' [(''input_tokens'', JInt 3)] sample_said ''tool_use'' [(''output_tokens'', JInt 7)]"
    by code_simp
  show "list_all well_said sample_said" by (simp add: sample_said_def)
qed (simp_all add: sample_readable)

text \<open>The message of the example: the thinking with its signature, the text, the call.\<close>

lemma sample_message:
  "prune_empty_assistant_text_blocks (map (said_content sample_stream (\<lambda>n. n)) sample_said)
   = [CThinking \<lparr>th_text = ''hm'', th_sig = ''sig'', th_redacted = False\<rparr>, text_content_of ''Hello'',
      CToolCall \<lparr>tc_id = ''t1'', tc_name = ''read'', tc_args = [(''done'', JBool True)], tc_sig = []\<rparr>]"
  by code_simp



end
