(* ===== verification/WireProps.thy ===== *)
theory WireProps
  imports StreamReplay TransformProps
begin

text \<open>
  What Anthropic's validator demands of the message array and the conversion guarantees: texts are not
  blank, thinking blocks are never adjacent nor cut short at the end, a server's tool use has its
  result, every tool call is answered by the next message, thinking is sent back as it was received.
\<close>

subsection \<open>Blocks\<close>

lemma wire_text_members [simp]:
  "block_type (wire_text s) = ''text''" "str_of (wire_text s) ''text'' = s"
  "str_of (wire_text s) ''tool_use_id'' = []" "str_of (wire_text s) ''thinking'' = []"
  by (simp_all add: wire_text_def member_simps)

lemma wire_image_members [simp]:
  "block_type (wire_image m d) = ''image''"
  by (simp add: wire_image_def member_simps)

lemma set_member_type: "k \<noteq> ''type'' \<Longrightarrow> block_type (set_member k v b) = block_type b"
  by (simp add: set_member_def block_type_def str_of_def get_str_def lookup_remove_key)

lemma set_member_other: "k \<noteq> k' \<Longrightarrow> str_of (set_member k v b) k' = str_of b k'"
  by (simp add: set_member_def str_of_def get_str_def lookup_remove_key)

text \<open>
  What the stored blocks of the server are expected to be: not of a type the client makes, a tool use
  refers to no other, and no breakpoint is in them.
\<close>

definition well_server :: "members \<Rightarrow> bool" where
  "well_server ms \<longleftrightarrow> server_block ms \<and> \<not> marked ms
     \<and> (block_type ms = ''server_tool_use'' \<longrightarrow> str_of ms ''tool_use_id'' = [])"

definition well_stored :: "assistant_content list \<Rightarrow> bool" where
  "well_stored cs \<longleftrightarrow>
     (\<forall>b ms. CServer b \<in> set cs \<longrightarrow> object_members (srv_raw b) = Some ms \<longrightarrow> well_server ms)"

text \<open>Where the wire blocks of an assistant message come from.\<close>

lemma assistant_block_cases:
  assumes "b \<in> set (assistant_block naming c)" and "well_stored [c]"
  obtains s where "b = wire_text s" "\<not> blank s"
  | d where "b = [(''type'', JStr ''redacted_thinking''), (''data'', JStr d)]"
      "\<exists>t. c = CThinking t \<and> th_redacted t"
  | t where "c = CThinking t" "\<not> th_redacted t" "th_sig t \<noteq> []"
      "b = [(''type'', JStr ''thinking''), (''thinking'', JStr (th_text t)), (''signature'', JStr (th_sig t))]"
  | tc where "c = CToolCall tc"
      "b = [(''type'', JStr ''tool_use''), (''id'', JStr (tc_id tc)), (''name'', JStr (naming (tc_name tc))),
            (''input'', JObj (tc_args tc))]"
  | "well_server b"
  using assms by (cases c) (auto simp: well_stored_def split: if_splits option.splits)

lemma thinking_no_reference:
  assumes "b \<in> set (assistant_block naming c)" and "well_stored [c]"
  shows "str_of b ''tool_use_id'' \<noteq> [] \<Longrightarrow> block_type b \<noteq> ''thinking'' \<and> block_type b \<noteq> ''server_tool_use''"
  using assms by (cases rule: assistant_block_cases) (auto simp: member_simps wire_text_def well_server_def server_block_def)

lemma well_stored_mem: "well_stored cs \<Longrightarrow> c \<in> set cs \<Longrightarrow> well_stored [c]"
  by (auto simp: well_stored_def)

subsection \<open>The clean-ups\<close>

abbreviation no_adjacent_thinking :: "block list \<Rightarrow> bool" where
  "no_adjacent_thinking \<equiv> successively (\<lambda>a b. \<not> (is_thinking_block a \<and> is_thinking_block b))"

lemma separator_not_thinking [simp]: "\<not> is_thinking_block thinking_separator"
  by (simp add: is_thinking_block_def is_thinking_type_def thinking_separator_def)

lemma separate_hd [simp]: "bs \<noteq> [] \<Longrightarrow> hd (separate_adjacent_thinking_blocks bs) = hd bs"
  by (cases bs rule: separate_adjacent_thinking_blocks.cases) auto

lemma separate_Nil [simp]: "separate_adjacent_thinking_blocks bs = [] \<longleftrightarrow> bs = []"
  by (cases bs rule: separate_adjacent_thinking_blocks.cases) auto

lemma separate_last: "bs \<noteq> [] \<Longrightarrow> last (separate_adjacent_thinking_blocks bs) = last bs"
  by (induction bs rule: separate_adjacent_thinking_blocks.induct) auto

lemma separate_no_adjacent: "no_adjacent_thinking (separate_adjacent_thinking_blocks bs)"
  by (induction bs rule: separate_adjacent_thinking_blocks.induct) (auto simp: successively_Cons)

lemma separate_filter:
  "\<not> P thinking_separator \<Longrightarrow> filter P (separate_adjacent_thinking_blocks bs) = filter P bs"
  by (induction bs rule: separate_adjacent_thinking_blocks.induct) auto

lemma separate_mem:
  "b \<in> set (separate_adjacent_thinking_blocks bs) \<Longrightarrow> b \<in> set bs \<or> b = thinking_separator"
  by (induction bs rule: separate_adjacent_thinking_blocks.induct) (auto split: if_splits)

lemma strip_trailing_decomp:
  "\<exists>rest. bs = strip_trailing_empty_thinking bs @ rest \<and> list_all empty_thinking rest"
proof -
  have "rev bs = takeWhile empty_thinking (rev bs) @ dropWhile empty_thinking (rev bs)" by simp
  then have "bs = strip_trailing_empty_thinking bs @ rev (takeWhile empty_thinking (rev bs))"
    unfolding strip_trailing_empty_thinking_def by (metis rev_append rev_rev_ident)
  moreover have "list_all empty_thinking (rev (takeWhile empty_thinking (rev bs)))"
    by (auto simp: list_all_iff dest: set_takeWhileD)
  ultimately show ?thesis by blast
qed

lemma strip_trailing_last:
  "strip_trailing_empty_thinking bs \<noteq> [] \<Longrightarrow> \<not> empty_thinking (last (strip_trailing_empty_thinking bs))"
  unfolding strip_trailing_empty_thinking_def last_rev rev_is_Nil_conv by (rule hd_dropWhile)

text \<open>A block that refers to another survives both clean-ups, so no tool use loses its result.\<close>

lemma kept_references:
  assumes "well_stored cs"
  shows "resolved_ids (assistant_blocks naming cs) = resolved_ids (concat (map (assistant_block naming) cs))"
proof -
  let ?bs = "concat (map (assistant_block naming) cs)"
  let ?ref = "\<lambda>b. str_of b ''tool_use_id'' \<noteq> []"
  have ids: "resolved_ids bs = map (\<lambda>b. str_of b ''tool_use_id'') (filter ?ref bs)" for bs
    by (simp add: resolved_ids_def filter_map comp_def)
  have types: "block_type b \<noteq> ''thinking'' \<and> block_type b \<noteq> ''server_tool_use''" if "b \<in> set ?bs" "?ref b" for b
  proof -
    from that(1) have "\<exists>c \<in> set cs. b \<in> set (assistant_block naming c)" by auto
    then obtain c where "c \<in> set cs" "b \<in> set (assistant_block naming c)" by blast
    then show ?thesis using thinking_no_reference [OF _ well_stored_mem [OF assms]] that(2) by blast
  qed
  let ?ds = "drop_orphaned_server_tool_use ?bs"
  have drop: "filter ?ref ?ds = filter ?ref ?bs"
    unfolding drop_orphaned_server_tool_use_def filter_filter
    by (rule filter_cong) (use types in \<open>auto simp: orphan_use_def\<close>)
  obtain rest where r: "?ds = strip_trailing_empty_thinking ?ds @ rest" "list_all empty_thinking rest"
    using strip_trailing_decomp by blast
  have "filter ?ref rest = []"
  proof -
    have "set rest \<subseteq> set ?ds" by (subst r(1)) simp
    also have "set ?ds \<subseteq> set ?bs" by (auto simp: drop_orphaned_server_tool_use_def)
    finally have "set rest \<subseteq> set ?bs" .
    then show ?thesis using types r(2) by (auto simp: filter_empty_conv list_all_iff empty_thinking_def)
  qed
  then have "filter ?ref (strip_trailing_empty_thinking ?ds) = filter ?ref ?ds"
    using r(1) by (metis append_Nil2 filter_append)
  then have "filter ?ref (assistant_blocks naming cs) = filter ?ref ?bs"
    unfolding assistant_blocks_def by (subst separate_filter) (simp_all add: thinking_separator_def drop)
  then show ?thesis unfolding ids by (rule arg_cong)
qed

lemma strip_mem: "b \<in> set (strip_trailing_empty_thinking bs) \<Longrightarrow> b \<in> set bs"
  using strip_trailing_decomp [of bs] by (metis Un_iff set_append)

lemma assistant_blocks_mem:
  "b \<in> set (assistant_blocks naming cs) \<Longrightarrow>
     b = thinking_separator \<or> (\<exists>c \<in> set cs. b \<in> set (assistant_block naming c))
       \<and> \<not> orphan_use (resolved_ids (concat (map (assistant_block naming) cs))) b"
  unfolding assistant_blocks_def
  by (drule separate_mem) (auto dest!: strip_mem simp: drop_orphaned_server_tool_use_def)

text \<open>An assistant message as the validator accepts it.\<close>

definition valid_assistant :: "block list \<Rightarrow> bool" where
  "valid_assistant bs \<longleftrightarrow>
     bs \<noteq> [] \<and> no_adjacent_thinking bs \<and> \<not> empty_thinking (last bs)
     \<and> list_all (\<lambda>b. \<not> orphan_use (resolved_ids bs) b) bs
     \<and> list_all (\<lambda>b. block_type b = ''text'' \<longrightarrow> \<not> blank (str_of b ''text'')) bs"

lemma assistant_block_text:
  assumes "b \<in> set (assistant_block naming c)" and "well_stored [c]" and "block_type b = ''text''"
  shows "\<not> blank (str_of b ''text'')"
  using assms by (cases rule: assistant_block_cases)
    (auto simp: member_simps wire_text_def well_server_def server_block_def)

lemma separator_text: "\<not> blank (str_of thinking_separator ''text'')"
proof -
  have "trim_space ''(thinking-block separator inserted by fir)'' \<noteq> []" by code_simp
  then show ?thesis by (simp add: thinking_separator_def blank_def)
qed

lemma separator_not_orphan: "\<not> orphan_use ids thinking_separator"
  by (simp add: orphan_use_def thinking_separator_def)

lemma assistant_blocks_valid:
  assumes "well_stored cs" and "assistant_blocks naming cs \<noteq> []"
  shows "valid_assistant (assistant_blocks naming cs)"
proof -
  let ?bs = "assistant_blocks naming cs"
  let ?strip = "strip_trailing_empty_thinking
      (drop_orphaned_server_tool_use (concat (map (assistant_block naming) cs)))"
  have strip: "?strip \<noteq> []" "?bs = separate_adjacent_thinking_blocks ?strip"
    using assms(2) by (simp_all add: assistant_blocks_def)
  have "\<not> empty_thinking (last ?bs)" using strip by (simp add: separate_last strip_trailing_last)
  moreover have "no_adjacent_thinking ?bs" unfolding strip(2) by (rule separate_no_adjacent)
  moreover have "\<not> orphan_use (resolved_ids ?bs) b" if "b \<in> set ?bs" for b
    using assistant_blocks_mem [OF that] separator_not_orphan unfolding kept_references [OF assms(1)] by blast
  moreover have "\<not> blank (str_of b ''text'')" if "b \<in> set ?bs" "block_type b = ''text''" for b
    using assistant_blocks_mem [OF that(1)] assistant_block_text [OF _ well_stored_mem [OF assms(1)] that(2)]
      separator_text by blast
  ultimately show ?thesis using assms(2) by (simp add: valid_assistant_def list_all_iff)
qed

subsection \<open>The array\<close>

definition wire_valid :: "wire_msg \<Rightarrow> bool" where
  "wire_valid m \<longleftrightarrow>
     (if wr_role m = ''assistant'' then valid_assistant (wr_content m)
      else wr_role m = ''user'' \<and> wr_content m \<noteq> []
        \<and> list_all (\<lambda>b. block_type b = ''text'' \<longrightarrow> \<not> blank (str_of b ''text'')) (wr_content m))"

lemma user_blocks_text:
  "b \<in> set (user_blocks md j) \<Longrightarrow> block_type b = ''text'' \<Longrightarrow> \<not> blank (str_of b ''text'')"
  by (auto simp: user_blocks_def user_block_def wire_image_def wire_text_def member_simps
      split: json.splits if_splits)

lemma tool_result_type [simp]: "block_type (tool_result_block md tr) = ''tool_result''"
  by (simp add: tool_result_block_def member_simps)

definition stored_well :: "message list \<Rightarrow> bool" where
  "stored_well ms \<longleftrightarrow> (\<forall>a. MAssistant a \<in> set ms \<longrightarrow> well_stored (am_content a))"

lemma convert_loop_valid: "stored_well ms \<Longrightarrow> list_all wire_valid (convert_loop naming md ms)"
proof (induction naming md ms rule: convert_loop.induct)
  case (2 naming md u ms)
  then show ?case
    by (auto simp: stored_well_def message_with_def wire_valid_def list_all_iff dest: user_blocks_text)
next
  case (3 naming md a ms)
  then show ?case
    by (auto simp: stored_well_def message_with_def wire_valid_def assistant_blocks_valid)
next
  case (4 naming md tr ms)
  have "set (after_results ms) \<subseteq> set ms" by (induction ms rule: after_results.induct) auto
  with "4.prems" have "stored_well (after_results ms)" by (auto simp: stored_well_def)
  then have "list_all wire_valid (convert_loop naming md (after_results ms))" by (rule "4.IH")
  moreover have "wire_valid \<lparr>wr_role = ''user'', wr_content = map (tool_result_block md) (tr # results_first ms)\<rparr>"
    by (simp add: wire_valid_def list_all_iff)
  ultimately show ?case by simp
qed (auto simp: stored_well_def)

lemma transformed_stored_well:
  assumes "stored_well ms"
  shows "stored_well (transformed_for render md ms)"
proof -
  have "well_stored (am_content (transform_assistant norm m a))" if "well_stored (am_content a)" for norm m a
  proof -
    have "CServer b \<in> set (am_content a)" if "CServer b \<in> set (transform_block norm m a c)" "c \<in> set (am_content a)" for b c
      using that by (cases c) (auto simp: plain_text_def split: if_splits)
    with that show ?thesis by (auto simp: well_stored_def transform_assistant_def)
  qed
  with assms show ?thesis by (auto simp: stored_well_def transformed_for_def transformed_assistants)
qed




subsection \<open>Calls and results\<close>

definition tool_use_ids :: "wire_msg \<Rightarrow> string set" where
  "tool_use_ids m = (\<lambda>b. str_of b ''id'') ` {b \<in> set (wr_content m). block_type b = ''tool_use''}"

definition tool_result_ids :: "wire_msg \<Rightarrow> string set" where
  "tool_result_ids m = (\<lambda>b. str_of b ''tool_use_id'') ` {b \<in> set (wr_content m). block_type b = ''tool_result''}"

fun wire_answered :: "wire_msg list \<Rightarrow> bool" where
  "wire_answered [] \<longleftrightarrow> True"
| "wire_answered (m # ms) \<longleftrightarrow>
     (wr_role m = ''assistant'' \<longrightarrow>
        tool_use_ids m \<subseteq> (case ms of [] \<Rightarrow> {} | n # _ \<Rightarrow> tool_result_ids n))
     \<and> wire_answered ms"

definition only_turns :: "message list \<Rightarrow> bool" where
  "only_turns ms \<longleftrightarrow> (\<forall>r. MOther r \<notin> set ms)"

lemma tool_use_ids_assistant:
  assumes "well_stored cs"
  shows "tool_use_ids \<lparr>wr_role = r, wr_content = assistant_blocks naming cs\<rparr> \<subseteq> tc_id ` set (tool_calls_of cs)"
proof
  fix i assume "i \<in> tool_use_ids \<lparr>wr_role = r, wr_content = assistant_blocks naming cs\<rparr>"
  then obtain b where b: "b \<in> set (assistant_blocks naming cs)" "block_type b = ''tool_use''" "i = str_of b ''id''"
    by (auto simp: tool_use_ids_def)
  have "b \<noteq> thinking_separator" using b(2) by (auto simp: thinking_separator_def)
  with assistant_blocks_mem [OF b(1)] obtain c where c: "c \<in> set cs" "b \<in> set (assistant_block naming c)" by blast
  from c(2) well_stored_mem [OF assms c(1)] show "i \<in> tc_id ` set (tool_calls_of cs)"
  proof (cases rule: assistant_block_cases)
    case (4 tc)
    then have "i = tc_id tc" using b(3) by (simp add: member_simps)
    moreover have "tc \<in> set (tool_calls_of cs)" using 4 c(1) by (simp add: set_tool_calls_of)
    ultimately show ?thesis by blast
  qed (use b(2) in \<open>auto simp: member_simps wire_text_def well_server_def server_block_def\<close>)
qed

lemma results_ahead_first: "only_turns ms \<Longrightarrow> results_ahead ms = map tr_call_id (results_first ms)"
  by (induction ms rule: results_first.induct) (auto simp: only_turns_def)

lemma tool_result_ids_results:
  "tool_result_ids \<lparr>wr_role = r, wr_content = map (tool_result_block md) trs\<rparr> = tr_call_id ` set trs"
proof -
  have "str_of (tool_result_block md tr) ''tool_use_id'' = tr_call_id tr" for tr
    by (simp add: tool_result_block_def member_simps)
  moreover have "{b \<in> set (map (tool_result_block md) trs). block_type b = ''tool_result''}
      = tool_result_block md ` set trs" by auto
  ultimately show ?thesis by (simp add: tool_result_ids_def image_image)
qed

lemma turns_answered_after: "turns_answered ms \<Longrightarrow> turns_answered (after_results ms)"
  by (induction ms rule: after_results.induct) auto

lemma convert_loop_answered:
  "stored_well ms \<Longrightarrow> only_turns ms \<Longrightarrow> turns_answered ms \<Longrightarrow> wire_answered (convert_loop naming md ms)"
proof (induction naming md ms rule: convert_loop.induct)
  case (2 naming md u ms)
  then show ?case by (auto simp: stored_well_def only_turns_def message_with_def)
next
  case (3 naming md a ms)
  have rest: "stored_well ms" "only_turns ms" "turns_answered ms" and a: "well_stored (am_content a)"
    using "3.prems" by (auto simp: stored_well_def only_turns_def)
  let ?m = "\<lparr>wr_role = ''assistant'', wr_content = assistant_blocks naming (am_content a)\<rparr>"
  have "tool_use_ids ?m \<subseteq> (case convert_loop naming md ms of [] \<Rightarrow> {} | n # _ \<Rightarrow> tool_result_ids n)"
  proof (cases "tool_calls_of (am_content a) = []")
    case True
    then show ?thesis using tool_use_ids_assistant [OF a] by fastforce
  next
    case False
    have ids: "tc_id ` set (tool_calls_of (am_content a)) \<subseteq> tr_call_id ` set (results_first ms)"
      using "3.prems"(3) results_ahead_first [OF rest(2)] by simp
    with False obtain tr ms' where "ms = MToolResult tr # ms'"
      by (cases ms rule: results_first.cases) auto
    with ids tool_use_ids_assistant [OF a, of "''assistant''" naming] show ?thesis
      by (auto simp: tool_result_ids_results simp del: list.map)
  qed
  with "3.IH" [OF rest] show ?case by (simp add: message_with_def)
next
  case (4 naming md tr ms)
  have "set (after_results ms) \<subseteq> set ms" by (induction ms rule: after_results.induct) auto
  with "4.prems" have "stored_well (after_results ms)" "only_turns (after_results ms)"
    by (auto simp: stored_well_def only_turns_def)
  moreover have "turns_answered (after_results ms)" using "4.prems"(3) turns_answered_after by simp
  ultimately show ?case using "4.IH" by simp
qed (auto simp: only_turns_def)

lemma mark_message_ids [simp]:
  assumes "wr_content m \<noteq> []"
  shows "tool_result_ids (mark_message cc m) = tool_result_ids m"
proof -
  let ?b = "last (wr_content m)"
  have img: "f ` {b \<in> insert x B. P b} = (if P x then insert (f x) (f ` {b \<in> B. P b}) else f ` {b \<in> B. P b})"
    for f :: "block \<Rightarrow> string" and x B P by auto
  have "wr_content m = butlast (wr_content m) @ [?b]" using assms by simp
  then have "set (wr_content m) = insert ?b (set (butlast (wr_content m)))"
    by (metis Un_insert_right append_Nil2 list.simps(15) set_append list.set(1) sup_bot_right)
  moreover have "set (wr_content (mark_message cc m)) = insert (set_member cc_key cc ?b) (set (butlast (wr_content m)))"
    using assms by (simp add: mark_message_def mark_last_def)
  ultimately show ?thesis
    by (simp only: tool_result_ids_def img) (simp add: set_member_type set_member_other cc_key_def)
qed

lemma wire_answered_mark_last:
  "wire_answered (ms @ [m]) \<Longrightarrow> wr_role m = ''user'' \<Longrightarrow> wr_content m \<noteq> [] \<Longrightarrow>
     wire_answered (ms @ [mark_message cc m])"
proof (induction ms)
  case Nil
  then show ?case by (simp add: mark_message_def)
next
  case (Cons n ms)
  then show ?case by (cases ms) simp_all
qed

lemma transformed_only_turns:
  assumes "only_turns ms"
  shows "only_turns (transformed_for render md ms)"
proof -
  have rw: "MOther r \<in> set (rewrite_pass render norm m ids xs) \<Longrightarrow> MOther r \<in> set xs" for r norm m ids xs
    by (induction render norm m ids xs rule: rewrite_pass.induct) auto
  have dg: "MOther r = downgrade_message x \<Longrightarrow> x = MOther r" for r x
    by (cases x) (auto simp: Let_def split: json.splits option.splits if_splits)
  have ap: "MOther r \<in> set (answer_results xs) \<Longrightarrow> MOther r \<in> set xs" for r xs
    unfolding answer_results_def using answer_pass_members [of "MOther r"] by (fastforce simp: no_result_def)
  have "MOther r \<in> set ms" if r: "MOther r \<in> set (downgrade_unsupported_images ms m)" for r m
  proof (cases "md_images m")
    case False
    with r obtain x where "x \<in> set ms" "MOther r = downgrade_message x"
      unfolding downgrade_unsupported_images_def if_not_P [OF False] by (auto simp del: downgrade_message.simps)
    with dg show ?thesis by metis
  qed (use r in \<open>simp add: downgrade_unsupported_images_def\<close>)
  then show ?thesis using assms rw ap unfolding only_turns_def transformed_for_def transform_messages_def by blast
qed

text \<open>
  C30: Every call of a tool in an assistant message that is sent is answered by a result in the very next
  message.
\<close>

theorem sent_calls_answered:
  assumes "stored_well ms" and "only_turns ms"
  shows "wire_answered (convert_anthropic_messages render tables md oauth r ms)"
proof -
  let ?ms = "convert_loop (tool_naming tables oauth) md (transformed_for render md ms)"
  have answered: "wire_answered ?ms"
    using assms by (intro convert_loop_answered transformed_stored_well transformed_only_turns)
      (simp_all add: transformed_for_def transform_messages_def provider_repair.repair_complete)
  have "list_all wire_valid ?ms" by (intro convert_loop_valid transformed_stored_well assms)
  then have content: "wr_content (last ?ms) \<noteq> []" if "?ms \<noteq> []"
    using that last_in_set [OF that] by (auto simp: list_all_iff wire_valid_def valid_assistant_def split: if_splits)
  have "wire_answered (butlast ?ms @ [mark_message cc (last ?ms)])"
    if "?ms \<noteq> []" "wr_role (last ?ms) = ''user''" for cc
    using answered wire_answered_mark_last [of "butlast ?ms" "last ?ms" cc] that content by simp
  with answered show ?thesis by (auto simp: convert_anthropic_messages_def mark_tail_def)
qed

subsection \<open>Thinking comes back as it was\<close>

definition is_thinking :: "assistant_content \<Rightarrow> bool" where
  "is_thinking c \<longleftrightarrow> (case c of CThinking b \<Rightarrow> True | _ \<Rightarrow> False)"

lemma thinking_wire:
  assumes "well_stored [c]" and "\<And>b. c = CThinking b \<Longrightarrow> th_sig b \<noteq> []"
  shows "filter is_thinking_block (assistant_block naming c) = (if is_thinking c then assistant_block naming c else [])"
  using assms
  by (cases c) (auto simp: is_thinking_def is_thinking_block_def is_thinking_type_def member_simps wire_text_def
      well_stored_def well_server_def server_block_def split: option.split)

lemma thinking_wire_all:
  assumes "well_stored cs" and "\<And>b. CThinking b \<in> set cs \<Longrightarrow> th_sig b \<noteq> []"
  shows "filter is_thinking_block (concat (map (assistant_block naming) cs))
    = concat (map (assistant_block naming) (filter is_thinking cs))"
  using assms
proof (induction cs)
  case (Cons c cs)
  have "well_stored [c]" "well_stored cs" using Cons.prems(1) by (auto simp: well_stored_def)
  with Cons thinking_wire [of c naming] show ?case by simp
qed simp

lemma transform_keeps_thinking:
  assumes "same_provider md a" and "\<And>b. CThinking b \<in> set cs \<Longrightarrow> th_sig b \<noteq> []"
  shows "filter is_thinking (concat (map (transform_block norm md a) cs)) = filter is_thinking cs"
  using assms(2)
proof (induction cs)
  case (Cons c cs)
  have "filter is_thinking (transform_block norm md a c) = (if is_thinking c then [c] else [])"
    using assms(1) Cons.prems by (cases c) (auto simp: is_thinking_def plain_text_def)
  with Cons show ?case by auto
qed simp

lemma transform_server_mem:
  "CServer b \<in> set (am_content (transform_assistant norm md a)) \<Longrightarrow> CServer b \<in> set (am_content a)"
proof -
  assume "CServer b \<in> set (am_content (transform_assistant norm md a))"
  then obtain c where "c \<in> set (am_content a)" "CServer b \<in> set (transform_block norm md a c)"
    by (auto simp: transform_assistant_def)
  moreover from this(2) have "c = CServer b" by (cases c) (auto simp: plain_text_def split: if_splits)
  ultimately show "CServer b \<in> set (am_content a)" by simp
qed

text \<open>
  The signed and redacted thinking of a turn, sent back to the provider it came from: the blocks are
  those received, unchanged and in order, except that the ones the turn broke off in, empty and last,
  are left out.
\<close>

theorem thinking_replayed:
  assumes "same_provider md a" and "\<And>b. CThinking b \<in> set (am_content a) \<Longrightarrow> th_sig b \<noteq> []"
    and "well_stored (am_content a)"
  shows "\<exists>rest. concat (map (assistant_block naming) (filter is_thinking (am_content a)))
      = filter is_thinking_block (assistant_blocks naming (am_content (transform_assistant norm md a))) @ rest
    \<and> list_all empty_thinking rest"
proof -
  let ?cs = "am_content (transform_assistant norm md a)"
  let ?bs = "concat (map (assistant_block naming) ?cs)"
  let ?ds = "drop_orphaned_server_tool_use ?bs"
  have keep: "filter is_thinking ?cs = filter is_thinking (am_content a)"
    using transform_keeps_thinking [OF assms(1,2)] by (simp add: transform_assistant_def)
  then have "CThinking b \<in> set ?cs \<Longrightarrow> CThinking b \<in> set (am_content a)" for b
  proof -
    assume "CThinking b \<in> set ?cs"
    then have "CThinking b \<in> set (filter is_thinking ?cs)" by (simp add: is_thinking_def)
    then show ?thesis unfolding keep by simp
  qed
  moreover have "well_stored ?cs"
    using assms(3) transform_server_mem unfolding well_stored_def by blast
  ultimately have all: "filter is_thinking_block ?bs
      = concat (map (assistant_block naming) (filter is_thinking (am_content a)))"
    using assms(2) thinking_wire_all [of ?cs naming] keep by simp
  have drop: "filter is_thinking_block ?ds = filter is_thinking_block ?bs"
    unfolding drop_orphaned_server_tool_use_def filter_filter
    by (rule filter_cong) (auto simp: is_thinking_block_def is_thinking_type_def orphan_use_def)
  obtain rest where r: "?ds = strip_trailing_empty_thinking ?ds @ rest" "list_all empty_thinking rest"
    using strip_trailing_decomp by blast
  have "filter is_thinking_block (assistant_blocks naming ?cs)
      = filter is_thinking_block (strip_trailing_empty_thinking ?ds)"
    unfolding assistant_blocks_def by (rule separate_filter) simp
  moreover have "filter is_thinking_block rest = rest"
    using r(2) by (auto simp: filter_id_conv list_all_iff empty_thinking_def is_thinking_block_def is_thinking_type_def)
  ultimately have "filter is_thinking_block ?ds = filter is_thinking_block (assistant_blocks naming ?cs) @ rest"
    by (subst r(1)) simp
  with drop all r(2) show ?thesis by metis
qed

subsection \<open>Names and ids of tools\<close>

lemma lower_char_idem: "lower_char (lower_char c) = lower_char c"
proof (cases "65 \<le> byte_of c \<and> byte_of c \<le> 90")
  case True
  then have "byte_of (lower_char c) = byte_of c + 32" by (simp add: lower_char_def byte_of_def of_char_of)
  with True show ?thesis by (simp add: lower_char_def [of "lower_char c"])
next
  case False
  then have "lower_char c = c" by (auto simp: lower_char_def)
  then show ?thesis by simp
qed

lemma to_lower_idem [simp]: "to_lower (to_lower s) = to_lower s"
  by (simp add: to_lower_def lower_char_idem)

lemma lookup_tool_alias_mem:
  "lookup_tool_alias ts n \<noteq> [] \<Longrightarrow>
     \<exists>ext m. (ext, m) \<in> set ts \<and> (to_lower n, lookup_tool_alias ts n) \<in> set m"
proof (induction ts)
  case Nil
  then show ?case by simp
next
  case (Cons t ts)
  obtain e m where t: "t = (e, m)" by (cases t)
  show ?case
  proof (cases "map_of m (to_lower n)")
    case None
    with Cons t show ?thesis by auto
  next
    case (Some v)
    then have "(to_lower n, v) \<in> set m" by (rule map_of_SomeD)
    with t Some show ?thesis by auto
  qed
qed

lemma lookup_reverse_unique:
  assumes "(ext, m) \<in> set ts" and "(k, cc) \<in> set m"
    and "\<And>e m' k' v. (e, m') \<in> set ts \<Longrightarrow> (k', v) \<in> set m' \<Longrightarrow> equal_fold v cc \<Longrightarrow> k' = k"
  shows "lookup_tool_alias_reverse ts cc = k"
  using assms
proof (induction ts)
  case Nil
  then show ?case by simp
next
  case (Cons t ts)
  obtain e m1 where t: "t = (e, m1)" by (cases t)
  show ?case
  proof (cases "find (\<lambda>p. equal_fold (snd p) cc) m1")
    case None
    then have "(k, cc) \<notin> set m1" by (auto simp: find_None_iff equal_fold_def)
    with Cons.prems t have "(ext, m) \<in> set ts" by auto
    with Cons t None show ?thesis by auto
  next
    case (Some p)
    then have "p \<in> set m1" "equal_fold (snd p) cc" by (auto simp: find_Some_iff)
    with Cons.prems(3) [of e m1 "fst p" "snd p"] t Some show ?thesis by simp
  qed
qed

text \<open>
  A tool's name survives the translation to the provider's name and back, provided the session's tools
  differ by more than case, no other tool has the provider's name, and no other alias maps to it.
\<close>

theorem tool_names_roundtrip:
  assumes "n \<in> set tools" and "n \<noteq> []"
    and "\<And>t. t \<in> set tools \<Longrightarrow> to_lower t = to_lower n \<or> to_lower t = to_lower (to_claude_code_name tables n) \<Longrightarrow> t = n"
    and "\<And>e m k v. (e, m) \<in> set tables \<Longrightarrow> (k, v) \<in> set m \<Longrightarrow> equal_fold v (to_claude_code_name tables n)
          \<Longrightarrow> k = to_lower n"
  shows "from_claude_code_name tables (to_claude_code_name tables n) tools = n"
proof (cases "find (\<lambda>t. to_lower t = to_lower (to_claude_code_name tables n)) tools")
  case (Some t)
  then have "t \<in> set tools" "to_lower t = to_lower (to_claude_code_name tables n)" by (auto simp: find_Some_iff)
  with assms(3) Some show ?thesis by (simp add: from_claude_code_name_def)
next
  case None
  let ?cc = "to_claude_code_name tables n"
  have "?cc \<noteq> n" using None assms(1) by (auto simp: find_None_iff)
  then have cc: "?cc = lookup_tool_alias tables n" "lookup_tool_alias tables n \<noteq> []"
    by (auto simp: to_claude_code_name_def cc_tool_lookup_def Let_def split: if_splits)
  then obtain ext m where "(ext, m) \<in> set tables" "(to_lower n, ?cc) \<in> set m"
    using lookup_tool_alias_mem by metis
  then have ours: "lookup_tool_alias_reverse tables ?cc = to_lower n"
    by (rule lookup_reverse_unique) (rule assms(4))
  obtain t where t: "find (\<lambda>t. equal_fold t (to_lower n)) tools = Some t"
    using assms(1) by (cases "find (\<lambda>t. equal_fold t (to_lower n)) tools") (auto simp: find_None_iff equal_fold_def)
  then have "t = n" using assms(3) by (auto simp: find_Some_iff equal_fold_def)
  moreover have "to_lower n \<noteq> []" using assms(2) by (simp add: to_lower_def)
  ultimately show ?thesis using None ours t by (simp add: from_claude_code_name_def)
qed

definition sample_aliases :: alias_tables where
  "sample_aliases = register_tool_name_aliases ''auth'' [(''bash_kill'', ''KillShell''), (''read'', ''Read'')] []"

theorem tool_names_roundtrip_witness:
  "from_claude_code_name sample_aliases (to_claude_code_name sample_aliases ''bash_kill'') [''read'', ''bash_kill'']
   = ''bash_kill''"
proof (rule tool_names_roundtrip)
  have cc: "to_claude_code_name sample_aliases ''bash_kill'' = ''KillShell''" by code_simp
  have tables: "sample_aliases = [(''auth'', [(''bash_kill'', ''KillShell''), (''read'', ''Read'')])]" by code_simp
  have lower: "to_lower ''read'' = ''read''" "to_lower ''bash_kill'' = ''bash_kill''"
    "to_lower ''KillShell'' = ''killshell''" "to_lower ''Read'' = ''read''" by code_simp+
  show "t = ''bash_kill''" if "t \<in> set [''read'', ''bash_kill'']"
    "to_lower t = to_lower ''bash_kill'' \<or> to_lower t = to_lower (to_claude_code_name sample_aliases ''bash_kill'')" for t
    using that unfolding cc by (auto simp: lower)
  show "k = to_lower ''bash_kill''" if "(e, m) \<in> set sample_aliases" "(k, v) \<in> set m"
    "equal_fold v (to_claude_code_name sample_aliases ''bash_kill'')" for e m k v
  proof -
    have "v = ''KillShell'' \<and> k = ''bash_kill'' \<or> v = ''Read''" using that(1,2) unfolding tables by auto
    with that(3) show ?thesis unfolding cc by (auto simp: lower equal_fold_def)
  qed
qed simp_all



subsection \<open>An example\<close>

text \<open>
  A turn as it is stored: signed thinking, the use of a server tool with its result, two thinking blocks
  in a row, a call, and thinking that was broken off.
\<close>

definition claude :: wire_model where
  "claude = \<lparr>md_id = ''claude'', md_provider = ''anthropic'', md_api = ''anthropic-messages'', md_images = True,
     wm_base_url = ''https://api.anthropic.com'', wm_max_tokens = 8192, wm_headers = [], wm_eager_input = None,
     wm_long_cache = None, wm_adaptive = False, wm_reasoning = True, wm_efforts = [], wm_server_tools = [],
     wm_compaction = False\<rparr>"

definition signed :: "string \<Rightarrow> string \<Rightarrow> assistant_content" where
  "signed t s = CThinking \<lparr>th_text = t, th_sig = s, th_redacted = False\<rparr>"

definition tool_turn :: "string \<Rightarrow> assistant_msg" where
  "tool_turn model =
     \<lparr>am_content =
        [signed ''hm'' ''s1'',
         CServer \<lparr>srv_display = [], srv_raw = JObj [(''type'', JStr ''server_tool_use''), (''id'', JStr ''w1'')]\<rparr>,
         CServer \<lparr>srv_display = [], srv_raw = JObj [(''type'', JStr ''web_search_tool_result''), (''tool_use_id'', JStr ''w1'')]\<rparr>,
         signed ''so'' ''s2'', signed ''and'' ''s3'',
         CToolCall \<lparr>tc_id = ''call|1'', tc_name = ''read'', tc_args = [], tc_sig = []\<rparr>,
         signed [] ''s4''],
      am_api = ''anthropic-messages'', am_provider = ''anthropic'', am_model = model, am_usage = zero_usage,
      am_stop = StopToolUse, am_timestamp = 1\<rparr>"

definition tool_answer :: tool_result_msg where
  "tool_answer = \<lparr>tr_call_id = ''call|1'', tr_tool_name = ''read'', tr_content = [text_result ''ok''],
     tr_details = None, tr_is_error = False, tr_timestamp = 2, tr_meta = None\<rparr>"

definition tool_talk :: "message list" where
  "tool_talk = [MUser \<lparr>um_content = JStr ''hi'', um_timestamp = 0\<rparr>, MAssistant (tool_turn ''claude''), MToolResult tool_answer]"

lemma tool_turn_stored: "well_stored (am_content (tool_turn m))"
  by (auto simp: tool_turn_def well_stored_def well_server_def server_block_def signed_def member_simps marked_def
      cc_key_def)

lemma tool_talk_stored: "stored_well tool_talk" "only_turns tool_talk"
  using tool_turn_stored by (auto simp: stored_well_def tool_talk_def only_turns_def)


theorem sent_calls_answered_witness:
  "wire_answered (convert_anthropic_messages (\<lambda>_. []) [] claude False CacheShort tool_talk)"
  by (rule sent_calls_answered [OF tool_talk_stored])

theorem thinking_replayed_witness:
  "\<exists>rest. concat (map (assistant_block (\<lambda>n. n)) (filter is_thinking (am_content (tool_turn ''claude''))))
      = filter is_thinking_block (assistant_blocks (\<lambda>n. n)
          (am_content (transform_assistant None (llm_model.truncate claude) (tool_turn ''claude'')))) @ rest
    \<and> list_all empty_thinking rest"
  by (rule thinking_replayed [OF _ _ tool_turn_stored])
    (auto simp: same_provider_def claude_def llm_model.defs tool_turn_def signed_def)


end
