(* ===== verification/LayoutProps.thy ===== *)
theory LayoutProps
  imports WireProps AnthropicRequest
begin

text \<open>
  The breakpoints of a request: never more than four, those with the long lifetime before the others,
  and placed without touching what the cache is keyed on, so that the messages of one request are a
  prefix of those of the next.
\<close>

subsection \<open>Marks\<close>

lemma marked_set_member [simp]: "marked (set_member cc_key cc b)"
  by (simp add: marked_def set_member_def)

lemma marked_remove [simp]: "\<not> marked (remove_key cc_key b)"
  by (auto simp: marked_def remove_key_def)

lemma remove_set_member [simp]: "remove_key cc_key (set_member cc_key cc b) = remove_key cc_key b"
  by (simp add: remove_key_def set_member_def)

lemma lookup_set_member [simp]: "lookup (set_member k v b) k = Some v"
  by (simp add: set_member_def)

lemma unmarked_text [simp]: "\<not> marked (wire_text s)"
  by (simp add: marked_def wire_text_def cc_key_def)

lemma unmarked_image [simp]: "\<not> marked (wire_image m d)"
  by (simp add: marked_def wire_image_def cc_key_def)

lemma unmarked_separator [simp]: "\<not> marked thinking_separator"
  by (simp add: thinking_separator_def)

lemma unmarked_result [simp]: "\<not> marked (tool_result_block md tr)"
  by (simp add: marked_def tool_result_block_def cc_key_def)

lemma unmarked_assistant:
  "b \<in> set (assistant_block naming c) \<Longrightarrow> well_stored [c] \<Longrightarrow> \<not> marked b"
  by (cases rule: assistant_block_cases) (auto simp: marked_def cc_key_def wire_text_def well_server_def)

lemma unmarked_assistant_blocks:
  "b \<in> set (assistant_blocks naming cs) \<Longrightarrow> well_stored cs \<Longrightarrow> \<not> marked b"
  by (drule assistant_blocks_mem) (auto intro: unmarked_assistant [OF _ well_stored_mem, THEN notE])

lemma unmarked_user: "b \<in> set (user_blocks md j) \<Longrightarrow> \<not> marked b"
  by (auto simp: user_blocks_def user_block_def split: json.splits if_splits)

definition unmarked_msg :: "wire_msg \<Rightarrow> bool" where
  "unmarked_msg m \<longleftrightarrow> list_all (\<lambda>b. \<not> marked b) (wr_content m)"

lemma convert_loop_unmarked: "stored_well ms \<Longrightarrow> list_all unmarked_msg (convert_loop naming md ms)"
proof (induction naming md ms rule: convert_loop.induct)
  case (2 naming md u ms)
  then show ?case
    by (auto simp: stored_well_def message_with_def unmarked_msg_def list_all_iff dest: unmarked_user)
next
  case (3 naming md a ms)
  then show ?case
    by (auto simp: stored_well_def message_with_def unmarked_msg_def list_all_iff dest: unmarked_assistant_blocks)
next
  case (4 naming md tr ms)
  have "set (after_results ms) \<subseteq> set ms" by (induction ms rule: after_results.induct) auto
  with "4.prems" have "stored_well (after_results ms)" by (auto simp: stored_well_def)
  with "4.IH" show ?case by (simp add: unmarked_msg_def list_all_iff)
qed (auto simp: stored_well_def)

text \<open>
  A message is neat when only its last block may carry a breakpoint, and then one of the given values.
\<close>

definition neat :: "json set \<Rightarrow> wire_msg \<Rightarrow> bool" where
  "neat V m \<longleftrightarrow> list_all (\<lambda>b. \<not> marked b) (butlast (wr_content m))
     \<and> (wr_content m \<noteq> [] \<and> marked (last (wr_content m)) \<longrightarrow> (\<exists>v \<in> V. lookup (last (wr_content m)) cc_key = Some v))"

lemma unmarked_neat: "unmarked_msg m \<Longrightarrow> neat V m"
  by (auto simp: unmarked_msg_def neat_def list_all_iff dest: in_set_butlastD)

lemma mark_neat: "neat W m \<Longrightarrow> cc \<in> V \<Longrightarrow> neat V (mark_message cc m)"
  by (auto simp: neat_def mark_message_def mark_last_def)

lemma neat_mono: "neat V m \<Longrightarrow> V \<subseteq> W \<Longrightarrow> neat W m"
  by (auto simp: neat_def)

lemma relabel_neat: "neat V m \<Longrightarrow> neat {cc} (relabel_message cc m)"
  by (cases "wr_content m" rule: rev_cases) (auto simp: neat_def relabel_message_def relabel_def list_all_iff)

lemma neat_marked: "neat V m \<Longrightarrow> b \<in> set (wr_content m) \<Longrightarrow> marked b \<Longrightarrow> \<exists>v \<in> V. lookup b cc_key = Some v"
  by (cases "wr_content m" rule: rev_cases) (auto simp: neat_def list_all_iff)

subsection \<open>How many\<close>

definition marks :: "wire_msg \<Rightarrow> nat" where
  "marks m = length (filter marked (wr_content m))"

lemma count_marks: "count_message_breakpoints msgs = sum_list (map marks msgs)"
  by (induction msgs) (simp_all add: count_message_breakpoints_def marks_def)

lemma marks_mark: "marks (mark_message cc m) \<le> Suc (marks m)"
  by (cases "wr_content m" rule: rev_cases) (auto simp: marks_def mark_message_def mark_last_def)

lemma marks_relabel [simp]: "marks (relabel_message cc m) = marks m"
proof -
  have "marked (relabel cc b) = marked b" for b by (simp add: relabel_def)
  then have "marked \<circ> relabel cc = marked" by auto
  then show ?thesis by (simp add: marks_def relabel_message_def filter_map comp_def)
qed

lemma unmarked_count: "list_all unmarked_msg msgs \<Longrightarrow> count_message_breakpoints msgs = 0"
  by (induction msgs) (auto simp: count_marks marks_def unmarked_msg_def list_all_iff filter_empty_conv)

lemma sum_list_update_Suc:
  "i < length xs \<Longrightarrow> f y \<le> Suc (f (xs ! i)) \<Longrightarrow> sum_list (map f (xs[i := y])) \<le> Suc (sum_list (map f xs))"
  for f :: "'a \<Rightarrow> nat"
proof (induction xs arbitrary: i)
  case (Cons x xs)
  then show ?case by (cases i) fastforce+
qed simp

lemma count_set: "i < length msgs \<Longrightarrow>
    count_message_breakpoints (set_cache_control md r i msgs) \<le> Suc (count_message_breakpoints msgs)"
  unfolding count_marks set_cache_control_def by (rule sum_list_update_Suc) (simp_all add: marks_mark)

lemma count_tail: "count_message_breakpoints (mark_tail md r msgs) \<le> Suc (count_message_breakpoints msgs)"
proof (cases msgs rule: rev_cases)
  case (snoc ms m)
  then show ?thesis using marks_mark [of "cache_control_block md r" m]
    by (auto simp: mark_tail_def count_marks)
qed (simp add: mark_tail_def)

lemma count_sections:
  "count_message_breakpoints (mark_sections_breakpoint md r msgs) \<le> Suc (count_message_breakpoints msgs)"
  using marks_mark by (cases msgs) (auto simp: mark_sections_breakpoint_def count_marks)

lemma last_user_turn_less: "last_user_turn_index msgs n = Some i \<Longrightarrow> i < n"
  unfolding last_user_turn_index_def by (auto dest: find_last_from_SomeD)

lemma length_set_cache [simp]: "length (set_cache_control md r i msgs) = length msgs"
  by (simp add: set_cache_control_def)

lemma count_turn:
  "apply_turn_long_cache md r sys msgs = (sys', msgs') \<Longrightarrow>
     count_message_breakpoints msgs' \<le> count_message_breakpoints msgs + 2"
proof -
  assume a: "apply_turn_long_cache md r sys msgs = (sys', msgs')"
  show ?thesis
  proof (cases "r \<noteq> CacheShort \<or> \<not> supports_long_cache md \<or> last_user_turn_index msgs (length msgs) = None")
    case True
    with a have "msgs' = msgs" by (auto simp: apply_turn_long_cache_def split: if_splits option.splits)
    then show ?thesis by simp
  next
    case False
    then obtain i where i: "last_user_turn_index msgs (length msgs) = Some i" by auto
    let ?m1 = "set_cache_control md CacheLong i msgs"
    let ?m2 = "case last_user_turn_index ?m1 i of None \<Rightarrow> ?m1 | Some p \<Rightarrow> set_cache_control md CacheLong p ?m1"
    have "count_message_breakpoints ?m1 \<le> Suc (count_message_breakpoints msgs)"
      using last_user_turn_less [OF i] by (rule count_set)
    moreover have "count_message_breakpoints ?m2 \<le> Suc (count_message_breakpoints ?m1)"
      using last_user_turn_less [of ?m1 i] last_user_turn_less [OF i]
      by (fastforce split: option.split intro!: count_set)
    moreover have "count_message_breakpoints msgs' = count_message_breakpoints ?m2"
    proof -
      have "msgs' = map (relabel_message (cache_control_block md CacheLong)) (take i ?m2) @ drop i ?m2"
        using a False i by (simp add: apply_turn_long_cache_def Let_def)
      then have "sum_list (map marks msgs') = sum_list (map marks (take i ?m2)) + sum_list (map marks (drop i ?m2))"
        by (simp add: comp_def)
      also have "\<dots> = sum_list (map marks ?m2)" by (metis append_take_drop_id map_append sum_list.append)
      finally show ?thesis by (simp add: count_marks)
    qed
    ultimately show ?thesis by simp
  qed
qed

lemma last_stable_less: "last_stable_history_index params = Some i \<Longrightarrow> i < length params"
  unfolding last_stable_history_index_def by (auto dest!: find_last_from_SomeD)

lemma count_side:
  "apply_side_query_cache_control hash md r key params s = (params', s') \<Longrightarrow>
     count_message_breakpoints params' \<le> count_message_breakpoints params + 2"
proof -
  assume a: "apply_side_query_cache_control hash md r key params s = (params', s')"
  show ?thesis
  proof (cases "r = CacheNone \<or> last_stable_history_index params = None")
    case True
    with a have "params' = params" by (auto simp: apply_side_query_cache_control_def split: if_splits option.splits)
    then show ?thesis by simp
  next
    case False
    then obtain wr where wr: "last_stable_history_index params = Some wr" by auto
    have "wr < length params" by (rule last_stable_less [OF wr])
    let ?p1 = "case as_map s key of
        Some a \<Rightarrow> if key \<noteq> [] \<and> usable_anchor hash params wr a then set_cache_control md r (nat (an_index a)) params else params
      | None \<Rightarrow> params"
    have "params' = set_cache_control md r wr ?p1"
      using a False wr by (simp add: apply_side_query_cache_control_def Let_def)
    moreover have "?p1 = params \<or> (\<exists>i < wr. ?p1 = set_cache_control md r i params)"
    proof -
      have "nat (an_index x) < wr" if "usable_anchor hash params wr x" for x
        using that by (auto simp: usable_anchor_def)
      then show ?thesis by (auto split: option.split)
    qed
    ultimately obtain p1 where p1: "params' = set_cache_control md r wr p1"
      "p1 = params \<or> (\<exists>i < wr. p1 = set_cache_control md r i params)" by blast
    then have "count_message_breakpoints p1 \<le> Suc (count_message_breakpoints params)" "length p1 = length params"
      using \<open>wr < length params\<close> by (auto intro: count_set)
    with p1(1) count_set [of wr p1 md r] \<open>wr < length params\<close> show ?thesis by simp
  qed
qed

lemma trim_rev_marked: "n \<le> 4 \<Longrightarrow> length (filter marked (trim_rev n bs)) + n \<le> 4"
proof (induction bs)
  case (Cons b bs)
  then show ?case using length_filter_le [of marked "b # bs"] by (auto simp: max_cache_breakpoints_def)
qed simp

lemma trim_system_marked:
  "n \<le> 4 \<Longrightarrow> length (filter marked (trim_system_breakpoints bs n)) + n \<le> 4"
  using trim_rev_marked [of n "rev bs"] by (simp add: trim_system_breakpoints_def rev_filter [symmetric])

definition request_breakpoints :: "wire_request \<Rightarrow> block list" where
  "request_breakpoints rq = filter marked (rq_system rq @ concat (map wr_content (rq_messages rq)))"

lemma placed_count:
  assumes "stored_well ms" and "place_breakpoints env md oauth opts ps cached ms = (sys, msgs, anchors)"
  shows "length (filter marked sys) + count_message_breakpoints msgs \<le> 4"
proof -
  let ?r = "retention_of env opts" and ?side = "is_side_query opts"
  let ?loop = "convert_loop (tool_naming (re_aliases env) oauth) md (transformed_for (re_render env) md ms)"
  let ?msgs0 = "convert_anthropic_messages (re_render env) (re_aliases env) md oauth (if ?side then CacheNone else ?r) ms"
  have loop: "count_message_breakpoints ?loop = 0"
    by (intro unmarked_count convert_loop_unmarked transformed_stored_well assms(1))
  obtain msgs1 a1 where m1: "(if ?side
        then apply_side_query_cache_control (re_hash env) md ?r (session_of opts) ?msgs0 (ps_anchors ps)
        else (?msgs0, ps_anchors ps)) = (msgs1, a1)" by fastforce
  let ?msgs2 = "mark_sections_breakpoint md ?r msgs1"
  obtain c3 msgs3 where m3: "(if \<not> ?side \<and> session_of opts \<noteq> []
        \<and> turn_long_cache_enabled (re_turn_cache env) (ps_turn_cache ps)
      then apply_turn_long_cache md ?r cached ?msgs2 else (cached, ?msgs2)) = (c3, msgs3)" by fastforce
  have res: "sys = trim_system_breakpoints c3 (count_message_breakpoints msgs3)" "msgs = msgs3"
    using assms(2) m1 m3 by (auto simp: place_breakpoints_def Let_def split: prod.splits)
  have "count_message_breakpoints msgs3 \<le> 4"
  proof (cases ?side)
    case True
    then have "?msgs0 = ?loop" by (simp add: convert_anthropic_messages_def mark_tail_def)
    then have "count_message_breakpoints msgs1 \<le> 2" using m1 True loop by (auto dest: count_side)
    then show ?thesis using m3 True count_sections [of md ?r msgs1] by auto
  next
    case False
    have "count_message_breakpoints ?msgs0 \<le> 1"
      using count_tail [of md _ ?loop] loop by (simp add: convert_anthropic_messages_def)
    then have "count_message_breakpoints msgs1 \<le> 1" using m1 False by auto
    then have "count_message_breakpoints ?msgs2 \<le> 2" using count_sections [of md ?r msgs1] by simp
    then show ?thesis using m3 count_turn by (fastforce split: if_splits)
  qed
  then show ?thesis using trim_system_marked res by simp
qed

lemma build_system_unmarked: "build_system md r prompt = (pre, cached) \<Longrightarrow> filter marked pre = []"
  by (auto simp: build_system_def Let_def filter_empty_conv split: option.splits if_splits prod.splits)

text \<open>
  C32: A request never carries more than the four breakpoints the API allows, whatever the mode, the
  retention, the sections and the anchors remembered.
\<close>

theorem at_most_four_breakpoints:
  assumes "stored_well (cx_messages cx)"
  shows "length (request_breakpoints (fst (build_anthropic_params env md cx oauth opts ps))) \<le> 4"
proof -
  obtain pre cached where b: "build_system md (retention_of env opts) (cx_system cx) = (pre, cached)" by fastforce
  obtain sys msgs anchors where p: "place_breakpoints env md oauth opts ps cached (cx_messages cx) = (sys, msgs, anchors)"
    by (cases "place_breakpoints env md oauth opts ps cached (cx_messages cx)")
  from placed_count [OF assms p] build_system_unmarked [OF b] show ?thesis
    by (simp add: build_anthropic_params_def b p request_breakpoints_def count_message_breakpoints_def Let_def)
qed

subsection \<open>In which order\<close>

definition long_lived :: "block \<Rightarrow> bool" where
  "long_lived b \<longleftrightarrow>
     (case lookup b cc_key of Some (JObj m) \<Rightarrow> get_str m ''ttl'' = Some ''1h'' | _ \<Rightarrow> False)"

definition carries :: "json \<Rightarrow> block \<Rightarrow> bool" where
  "carries v b \<longleftrightarrow> lookup b cc_key = Some v"

lemma carries_long:
  "carries (cache_control_block md r) b \<Longrightarrow> long_lived b \<longleftrightarrow> r = CacheLong \<and> supports_long_cache md"
  by (auto simp: carries_def long_lived_def cache_control_block_def get_str_def lookup_cons)

definition long_first :: "block list \<Rightarrow> bool" where
  "long_first bs \<longleftrightarrow> sorted_wrt (\<lambda>a b. long_lived b \<longrightarrow> long_lived a) bs"

lemma long_first_append:
  "list_all long_lived xs \<Longrightarrow> list_all (\<lambda>b. \<not> long_lived b) ys \<Longrightarrow> long_first (xs @ ys)"
  by (induction xs; induction ys) (auto simp: long_first_def list_all_iff)

lemma long_first_uniform: "list_all (carries (cache_control_block md r)) bs \<Longrightarrow> long_first bs"
  by (induction bs) (auto simp: long_first_def list_all_iff carries_long)

lemma set_cache_neat:
  assumes "list_all (neat V) msgs" and "i < length msgs" and "insert (cache_control_block md r) V \<subseteq> W"
  shows "list_all (neat W) (set_cache_control md r i msgs)"
proof -
  let ?new = "mark_message (cache_control_block md r) (msgs ! i)"
  have "neat W ?new" using assms by (auto simp: list_all_iff intro: mark_neat)
  moreover have "neat W m" if "m \<in> set msgs" for m
    using assms that by (auto simp: list_all_iff intro: neat_mono)
  moreover have "set (set_cache_control md r i msgs) \<subseteq> insert ?new (set msgs)"
    unfolding set_cache_control_def by (rule set_update_subset_insert)
  ultimately show ?thesis by (auto simp: list_all_iff)
qed

lemma mark_all_neat: "list_all (neat {v}) msgs \<Longrightarrow> cache_control_block md r = v \<Longrightarrow> i < length msgs \<Longrightarrow>
    list_all (neat {v}) (set_cache_control md r i msgs)"
  by (rule set_cache_neat) auto

lemma neat_blocks: "list_all (neat {v}) msgs \<Longrightarrow> list_all (carries v) (filter marked (concat (map wr_content msgs)))"
  by (auto simp: list_all_iff carries_def dest: neat_marked)

lemma trim_rev_mem: "b \<in> set (trim_rev n bs) \<Longrightarrow> marked b \<Longrightarrow> b \<in> set bs"
  by (induction bs) (auto split: if_splits)

lemma trim_mem: "b \<in> set (trim_system_breakpoints bs n) \<Longrightarrow> marked b \<Longrightarrow> b \<in> set bs"
  by (auto simp: trim_system_breakpoints_def dest: trim_rev_mem)

lemma side_neat:
  assumes "apply_side_query_cache_control hash md r key params s = (params', s')"
    and "list_all (neat {cache_control_block md r}) params"
  shows "list_all (neat {cache_control_block md r}) params'"
proof (cases "r = CacheNone \<or> last_stable_history_index params = None")
  case True
  with assms show ?thesis by (auto simp: apply_side_query_cache_control_def split: if_splits option.splits)
next
  case False
  then obtain wr where wr: "last_stable_history_index params = Some wr" by auto
  let ?p1 = "case as_map s key of
        Some a \<Rightarrow> if key \<noteq> [] \<and> usable_anchor hash params wr a then set_cache_control md r (nat (an_index a)) params else params
      | None \<Rightarrow> params"
  have "params' = set_cache_control md r wr ?p1"
    using assms(1) False wr by (simp add: apply_side_query_cache_control_def Let_def)
  moreover have "list_all (neat {cache_control_block md r}) ?p1" and "length ?p1 = length params"
    using assms(2) last_stable_less [OF wr]
    by (auto simp: usable_anchor_def intro!: mark_all_neat split: option.split)
  ultimately show ?thesis using last_stable_less [OF wr] by (auto intro: mark_all_neat)
qed

lemma tail_neat:
  assumes "list_all unmarked_msg msgs"
  shows "list_all (neat {cache_control_block md r}) (mark_tail md r msgs)"
  using assms unmarked_neat
  by (cases msgs rule: rev_cases) (auto simp: mark_tail_def list_all_iff intro: mark_neat)

lemma sections_neat:
  "list_all (neat {cache_control_block md r}) msgs \<Longrightarrow>
     list_all (neat {cache_control_block md r}) (mark_sections_breakpoint md r msgs)"
  by (cases msgs) (auto simp: mark_sections_breakpoint_def intro: mark_neat)

lemma turn_order:
  assumes "apply_turn_long_cache md r sys msgs = (sys', msgs')"
    and "list_all (neat {cache_control_block md r}) msgs" and "list_all (carries (cache_control_block md r)) sys"
  shows "long_first (filter marked (sys' @ concat (map wr_content msgs')))"
proof (cases "r \<noteq> CacheShort \<or> \<not> supports_long_cache md \<or> last_user_turn_index msgs (length msgs) = None")
  case True
  with assms(1) have "sys' = sys" "msgs' = msgs"
    by (auto simp: apply_turn_long_cache_def split: if_splits option.splits)
  then have "list_all (carries (cache_control_block md r)) (filter marked (sys' @ concat (map wr_content msgs')))"
    using assms(3) neat_blocks [OF assms(2)] by (auto simp: list_all_iff)
  then show ?thesis by (rule long_first_uniform)
next
  case False
  then obtain i where i: "last_user_turn_index msgs (length msgs) = Some i" and r: "r = CacheShort"
    and long: "supports_long_cache md" by auto
  have less: "i < length msgs" using last_user_turn_less [OF i] .
  let ?cc = "cache_control_block md CacheLong"
  let ?m1 = "set_cache_control md CacheLong i msgs"
  let ?m2 = "case last_user_turn_index ?m1 i of None \<Rightarrow> ?m1 | Some p \<Rightarrow> set_cache_control md CacheLong p ?m1"
  have res: "sys' = map (relabel ?cc) sys" "msgs' = map (relabel_message ?cc) (take i ?m2) @ drop i ?m2"
    using assms(1) False i by (simp_all add: apply_turn_long_cache_def Let_def)
  have m2: "drop i ?m2 = mark_message ?cc (msgs ! i) # drop (Suc i) msgs"
  proof -
    have "drop i ?m1 = mark_message ?cc (msgs ! i) # drop (Suc i) msgs"
      using less by (simp add: set_cache_control_def drop_update_swap Cons_nth_drop_Suc [symmetric])
    moreover have "drop i ?m2 = drop i ?m1"
      using last_user_turn_less [of ?m1 i] by (auto simp: set_cache_control_def split: option.split)
    ultimately show ?thesis by simp
  qed
  have "list_all (neat {?cc}) (map (relabel_message ?cc) (take i ?m2))"
  proof -
    have m1: "list_all (neat {cache_control_block md r, ?cc}) ?m1"
      using assms(2) less by (rule set_cache_neat) auto
    have "list_all (neat {cache_control_block md r, ?cc}) (set_cache_control md CacheLong p ?m1)"
      if "last_user_turn_index ?m1 i = Some p" for p
      using m1 last_user_turn_less [OF that] less by (intro set_cache_neat [OF m1]) auto
    with m1 have "list_all (neat {cache_control_block md r, ?cc}) ?m2" by (simp split: option.split)
    then show ?thesis by (auto simp: list_all_iff intro: relabel_neat dest: in_set_takeD)
  qed
  moreover have "neat {?cc} (mark_message ?cc (msgs ! i))"
    using assms(2) less by (auto simp: list_all_iff intro: mark_neat)
  ultimately have before: "list_all (carries ?cc)
      (filter marked (sys' @ concat (map wr_content (map (relabel_message ?cc) (take i ?m2) @ [mark_message ?cc (msgs ! i)]))))"
    using neat_blocks [of ?cc "map (relabel_message ?cc) (take i ?m2) @ [mark_message ?cc (msgs ! i)]"]
    by (auto simp: res(1) relabel_def carries_def list_all_iff)
  have "list_all (neat {cache_control_block md r}) (drop (Suc i) msgs)"
    using assms(2) by (auto simp: list_all_iff dest: in_set_dropD)
  then have after: "list_all (carries (cache_control_block md r)) (filter marked (concat (map wr_content (drop (Suc i) msgs))))"
    by (rule neat_blocks)
  have "filter marked (sys' @ concat (map wr_content msgs'))
      = filter marked (sys' @ concat (map wr_content (map (relabel_message ?cc) (take i ?m2) @ [mark_message ?cc (msgs ! i)])))
        @ filter marked (concat (map wr_content (drop (Suc i) msgs)))"
    by (simp add: res(2) m2)
  moreover have "long_first \<dots>"
  proof (rule long_first_append)
    show "list_all long_lived (filter marked (sys' @ concat (map wr_content
        (map (relabel_message ?cc) (take i ?m2) @ [mark_message ?cc (msgs ! i)]))))"
      using before by (rule list.pred_mono_strong) (simp add: carries_long long)
    show "list_all (\<lambda>b. \<not> long_lived b) (filter marked (concat (map wr_content (drop (Suc i) msgs))))"
      using after by (rule list.pred_mono_strong) (simp add: carries_long r)
  qed
  ultimately show ?thesis by simp
qed

lemma long_first_trim:
  assumes "long_first (filter marked (sys @ rest))"
  shows "long_first (filter marked (trim_system_breakpoints sys n @ rest))"
proof -
  have sys: "subseq (filter marked (trim_system_breakpoints sys n)) (filter marked sys)"
    by (induction sys rule: rev_induct) (auto simp: trim_system_breakpoints_def intro: subseq_order.trans)
  have sub: "subseq xs ys \<Longrightarrow> long_first ys \<Longrightarrow> long_first xs" for xs ys
  proof (induction xs ys rule: list_emb.induct)
    case (list_emb_Cons2 x y xs ys)
    then show ?case using list_emb_set [of "(=)" xs ys] by (fastforce simp: long_first_def)
  qed (auto simp: long_first_def)
  from sys have "subseq (filter marked (trim_system_breakpoints sys n @ rest)) (filter marked (sys @ rest))" by simp
  then show ?thesis using assms by (rule sub)
qed

lemma placed_order:
  assumes "stored_well ms" and "list_all (carries (cache_control_block md (retention_of env opts))) cached"
    and "place_breakpoints env md oauth opts ps cached ms = (sys, msgs, anchors)"
  shows "long_first (filter marked (sys @ concat (map wr_content msgs)))"
proof -
  let ?r = "retention_of env opts" and ?side = "is_side_query opts"
  let ?cc = "cache_control_block md ?r"
  let ?loop = "convert_loop (tool_naming (re_aliases env) oauth) md (transformed_for (re_render env) md ms)"
  let ?msgs0 = "convert_anthropic_messages (re_render env) (re_aliases env) md oauth (if ?side then CacheNone else ?r) ms"
  have loop: "list_all unmarked_msg ?loop"
    by (intro convert_loop_unmarked transformed_stored_well assms(1))
  obtain msgs1 a1 where m1: "(if ?side
        then apply_side_query_cache_control (re_hash env) md ?r (session_of opts) ?msgs0 (ps_anchors ps)
        else (?msgs0, ps_anchors ps)) = (msgs1, a1)" by fastforce
  let ?msgs2 = "mark_sections_breakpoint md ?r msgs1"
  obtain c3 msgs3 where m3: "(if \<not> ?side \<and> session_of opts \<noteq> []
        \<and> turn_long_cache_enabled (re_turn_cache env) (ps_turn_cache ps)
      then apply_turn_long_cache md ?r cached ?msgs2 else (cached, ?msgs2)) = (c3, msgs3)" by fastforce
  have res: "sys = trim_system_breakpoints c3 (count_message_breakpoints msgs3)" "msgs = msgs3"
    using assms(3) m1 m3 by (auto simp: place_breakpoints_def Let_def split: prod.splits)
  have "list_all (neat {?cc}) msgs1"
  proof (cases ?side)
    case True
    then have "?msgs0 = ?loop" by (simp add: convert_anthropic_messages_def mark_tail_def)
    moreover have "list_all (neat {?cc}) ?loop"
      using loop by (rule list.pred_mono_strong) (rule unmarked_neat)
    ultimately show ?thesis using m1 True by (auto intro: side_neat)
  next
    case False
    then show ?thesis using m1 tail_neat [OF loop, of md ?r] by (simp add: convert_anthropic_messages_def)
  qed
  then have neat: "list_all (neat {?cc}) ?msgs2" by (rule sections_neat)
  have "long_first (filter marked (c3 @ concat (map wr_content msgs3)))"
  proof (cases "\<not> ?side \<and> session_of opts \<noteq> [] \<and> turn_long_cache_enabled (re_turn_cache env) (ps_turn_cache ps)")
    case True
    then show ?thesis using m3 turn_order [OF _ neat assms(2)] by simp
  next
    case False
    then have "c3 = cached" "msgs3 = ?msgs2" using m3 by auto
    then have "list_all (carries ?cc) (filter marked (c3 @ concat (map wr_content msgs3)))"
      using assms(2) neat_blocks [OF neat] by (auto simp: list_all_iff)
    then show ?thesis by (rule long_first_uniform)
  qed
  then show ?thesis unfolding res by (rule long_first_trim)
qed

text \<open>
  In the order of the request, the breakpoints with the long lifetime come before those with the
  short one, as the API demands.
\<close>

theorem long_breakpoints_first:
  assumes "stored_well (cx_messages cx)"
  shows "long_first (request_breakpoints (fst (build_anthropic_params env md cx oauth opts ps)))"
proof -
  obtain pre cached where b: "build_system md (retention_of env opts) (cx_system cx) = (pre, cached)" by fastforce
  obtain sys msgs anchors where p: "place_breakpoints env md oauth opts ps cached (cx_messages cx) = (sys, msgs, anchors)"
    by (cases "place_breakpoints env md oauth opts ps cached (cx_messages cx)")
  have "list_all (carries (cache_control_block md (retention_of env opts))) cached"
    using b by (auto simp: build_system_def Let_def list_all_iff carries_def split: if_splits prod.splits)
  from placed_order [OF assms this p] build_system_unmarked [OF b] show ?thesis
    by (simp add: build_anthropic_params_def b p request_breakpoints_def Let_def)
qed

subsection \<open>What the cache is keyed on\<close>

lemma strip_mark [simp]: "strip_cache_control (mark_message cc m) = strip_cache_control m"
  by (cases "wr_content m" rule: rev_cases)
    (simp_all add: strip_cache_control_def mark_message_def mark_last_def strip_cache_control_blocks_def)

lemma strip_relabel [simp]: "strip_cache_control (relabel_message cc m) = strip_cache_control m"
  by (simp add: strip_cache_control_def relabel_message_def strip_cache_control_blocks_def relabel_def)

abbreviation bare :: "wire_msg list \<Rightarrow> wire_msg list" where
  "bare msgs \<equiv> map strip_cache_control msgs"

lemma bare_set [simp]: "bare (set_cache_control md r i msgs) = bare msgs"
proof (cases "i < length msgs")
  case True
  then show ?thesis by (simp add: set_cache_control_def map_update list_update_same_conv)
qed (simp add: set_cache_control_def list_update_beyond)

lemma bare_tail [simp]: "bare (mark_tail md r msgs) = bare msgs"
  by (cases msgs rule: rev_cases) (auto simp: mark_tail_def)

lemma bare_sections [simp]: "bare (mark_sections_breakpoint md r msgs) = bare msgs"
  by (cases msgs) (auto simp: mark_sections_breakpoint_def)

lemma bare_side: "bare (fst (apply_side_query_cache_control hash md r key params s)) = bare params"
  by (auto simp: apply_side_query_cache_control_def Let_def split: option.split)

lemma bare_turn: "bare (snd (apply_turn_long_cache md r sys msgs)) = bare msgs"
proof -
  have comp: "strip_cache_control \<circ> relabel_message cc = strip_cache_control" for cc by auto
  have parts: "bare (take i ms) @ bare (drop i ms) = bare ms" for i ms
    by (simp flip: map_append)
  show ?thesis
    by (auto simp: apply_turn_long_cache_def Let_def comp parts split: option.split)
qed

lemma strip_relabel_blocks: "strip_cache_control_blocks (map (relabel cc) bs) = strip_cache_control_blocks bs"
  by (simp add: strip_cache_control_blocks_def relabel_def)

lemma remove_key_idem [simp]: "remove_key k (remove_key k b) = remove_key k b"
  by (simp add: remove_key_def)

lemma strip_trim: "strip_cache_control_blocks (trim_system_breakpoints bs n) = strip_cache_control_blocks bs"
proof -
  have "map (remove_key cc_key) (trim_rev n xs) = map (remove_key cc_key) xs" for xs
    by (induction xs) auto
  from this [of "rev bs"] show ?thesis
    by (simp add: strip_cache_control_blocks_def trim_system_breakpoints_def rev_map [symmetric])
qed

lemma strip_turn: "strip_cache_control_blocks (fst (apply_turn_long_cache md r sys msgs)) = strip_cache_control_blocks sys"
  by (auto simp: apply_turn_long_cache_def Let_def strip_relabel_blocks split: option.split)

lemma placed_bare:
  assumes "place_breakpoints env md oauth opts ps cached ms = (sys, msgs, anchors)"
  shows "bare msgs = bare (convert_loop (tool_naming (re_aliases env) oauth) md (transformed_for (re_render env) md ms))"
    and "strip_cache_control_blocks sys = strip_cache_control_blocks cached"
  using assms
  by (auto simp: place_breakpoints_def Let_def convert_anthropic_messages_def strip_trim
      simp flip: bare_side bare_turn split: prod.splits if_splits)
    (metis fst_conv snd_conv bare_side bare_turn strip_turn bare_sections bare_tail)+

subsection \<open>A conversation that grows\<close>

text \<open>What the agent appends between two requests begins with a user turn or a turn that did not fail.\<close>

fun new_turn :: "message list \<Rightarrow> bool" where
  "new_turn (MUser u # ms) \<longleftrightarrow> True"
| "new_turn (MAssistant a # ms) \<longleftrightarrow> \<not> failed_stop a"
| "new_turn _ \<longleftrightarrow> False"

lemma answer_pass_append:
  "new_turn new \<Longrightarrow>
     \<exists>rest. answer_pass p ts ex (ms @ new) = answer_pass p ts ex ms @ rest \<and> new_turn rest"
proof (induction p ts ex ms rule: answer_pass.induct)
  case (1 p ts ex)
  then show ?case by (cases new rule: new_turn.cases) (auto simp: Let_def)
qed (auto simp: Let_def)

lemma rewrite_pass_append:
  "new_turn new \<Longrightarrow>
     \<exists>new'. rewrite_pass render norm md ids (ms @ new) = rewrite_pass render norm md ids ms @ new' \<and> new_turn new'"
proof (induction render norm md ids ms rule: rewrite_pass.induct)
  case (1 render norm md ids)
  then show ?case by (cases new rule: new_turn.cases) (auto simp: transform_assistant_def failed_stop_def)
qed auto

lemma downgrade_new_turn: "new_turn new \<Longrightarrow> new_turn (map downgrade_message new)"
  by (cases new rule: new_turn.cases) (auto split: json.split option.split)

lemma transformed_append:
  assumes "new_turn new"
  shows "\<exists>rest. transformed_for render md (ms @ new) = transformed_for render md ms @ rest \<and> new_turn rest"
proof -
  have "\<exists>new'. downgrade_unsupported_images (ms @ new) m = downgrade_unsupported_images ms m @ new' \<and> new_turn new'" for m
    using assms downgrade_new_turn by (auto simp: downgrade_unsupported_images_def)
  then show ?thesis
    unfolding transformed_for_def transform_messages_def answer_results_def
    by (metis answer_pass_append rewrite_pass_append)
qed

lemma results_first_new: "new_turn new \<Longrightarrow> results_first (ms @ new) = results_first ms"
proof (induction ms)
  case Nil
  then show ?case by (cases new rule: new_turn.cases) auto
next
  case (Cons m ms)
  then show ?case by (cases m) auto
qed

lemma after_results_new: "new_turn new \<Longrightarrow> after_results (ms @ new) = after_results ms @ new"
proof (induction ms)
  case Nil
  then show ?case by (cases new rule: new_turn.cases) auto
next
  case (Cons m ms)
  then show ?case by (cases m) auto
qed

lemma convert_loop_append:
  "new_turn new \<Longrightarrow> convert_loop naming md (ms @ new) = convert_loop naming md ms @ convert_loop naming md new"
  by (induction naming md ms rule: convert_loop.induct) (auto simp: results_first_new after_results_new)

lemma converted_prefix:
  assumes "new_turn new"
  shows "prefix (convert_loop naming md (transformed_for render md ms))
    (convert_loop naming md (transformed_for render md (ms @ new)))"
proof -
  obtain rest where "transformed_for render md (ms @ new) = transformed_for render md ms @ rest" "new_turn rest"
    using transformed_append [OF assms] by metis
  then show ?thesis by (simp add: convert_loop_append)
qed

lemma message_hashes: "map (message_hash hash) msgs = map (\<lambda>m. hash (message_json m)) (bare msgs)"
  by (simp add: message_hash_def)

lemma guard_quiet:
  assumes "prefix (bare msgs0) (bare msgs)" and "strip_cache_control_blocks sys0 = strip_cache_control_blocks sys"
  shows "fst (guard_check hash sys msgs (snd (guard_check hash sys0 msgs0 pg))) = 0"
proof -
  obtain more' where "bare msgs = bare msgs0 @ more'" using assms(1) by (auto simp: prefix_def)
  then have hashes: "map (message_hash hash) msgs = map (message_hash hash) msgs0 @ map (\<lambda>m. hash (message_json m)) more'"
    by (simp only: message_hashes map_append)
  have "zip xs (xs @ ys) = map (\<lambda>x. (x, x)) xs" for xs ys :: "string list"
    by (induction xs) auto
  then have "filter (\<lambda>(old, new). new \<noteq> old) (zip (map (message_hash hash) msgs0) (map (message_hash hash) msgs)) = []"
    unfolding hashes by (auto simp: filter_empty_conv)
  then show ?thesis using assms(2) by (simp add: guard_check_def Let_def)
qed

text \<open>
  C31: When the conversation grows by a new turn, the messages of the next request extend those of this one
  and the system prompt is the same, breakpoints aside; and the guard reports nothing.
\<close>

theorem request_prefix_kept:
  assumes "new_turn new" and "build_anthropic_params env md cx oauth opts ps = (rq, ps1)"
    and "build_anthropic_params env md (cx\<lparr>cx_messages := cx_messages cx @ new\<rparr>) oauth opts ps1 = (rq', ps2)"
    and "session_of opts \<noteq> []" and "\<not> is_side_query opts"
  shows "prefix (bare (rq_messages rq)) (bare (rq_messages rq'))
    \<and> strip_cache_control_blocks (rq_system rq) = strip_cache_control_blocks (rq_system rq')
    \<and> (\<exists>g. ps_guards ps1 (session_of opts) = Some g
         \<and> fst (guard_check (re_hash env) (rq_system rq') (rq_messages rq') g) = 0)"
proof -
  obtain pre cached where b: "build_system md (retention_of env opts) (cx_system cx) = (pre, cached)" by fastforce
  obtain sys msgs a where p: "place_breakpoints env md oauth opts ps cached (cx_messages cx) = (sys, msgs, a)"
    by (cases "place_breakpoints env md oauth opts ps cached (cx_messages cx)")
  obtain sys' msgs' a' where p': "place_breakpoints env md oauth opts ps1 cached (cx_messages cx @ new) = (sys', msgs', a')"
    by (cases "place_breakpoints env md oauth opts ps1 cached (cx_messages cx @ new)")
  have rq: "rq_system rq = pre @ sys" "rq_messages rq = msgs"
    "ps1 = ps\<lparr>ps_anchors := a, ps_guards := check_guard env opts (pre @ sys) msgs (ps_guards ps)\<rparr>"
    using assms(2) by (auto simp: build_anthropic_params_def b p Let_def)
  have rq': "rq_system rq' = pre @ sys'" "rq_messages rq' = msgs'"
    using assms(3) by (auto simp: build_anthropic_params_def b p' Let_def)
  have pre: "prefix (bare msgs) (bare msgs')"
    unfolding placed_bare(1) [OF p] placed_bare(1) [OF p'] using converted_prefix [OF assms(1)] by (rule map_mono_prefix)
  have sys: "strip_cache_control_blocks (pre @ sys) = strip_cache_control_blocks (pre @ sys')"
    using placed_bare(2) [OF p] placed_bare(2) [OF p'] by (simp add: strip_cache_control_blocks_def)
  have "ps_guards ps1 (session_of opts)
      = Some (snd (guard_check (re_hash env) (pre @ sys) msgs (the_default new_prefix_guard (ps_guards ps (session_of opts)))))"
    using assms(4,5) by (simp add: rq(3) check_guard_def Let_def)
  with pre sys guard_quiet [OF pre sys] show ?thesis by (simp add: rq rq')
qed

subsection \<open>Anchors of side queries\<close>

definition anchors_ok :: "anchor_store \<Rightarrow> bool" where
  "anchors_ok s \<longleftrightarrow> distinct (as_order s) \<and> set (as_order s) = dom (as_map s)
     \<and> length (as_order s) \<le> max_side_query_anchors"

lemma empty_anchors_ok: "anchors_ok empty_anchors"
  by (simp add: anchors_ok_def empty_anchors_def)

lemma put_anchor_ok: "anchors_ok s \<Longrightarrow> anchors_ok (put_anchor k a s)"
proof -
  assume s: "anchors_ok s"
  show ?thesis
  proof (cases "as_map s k = None \<and> max_side_query_anchors \<le> length (as_order s)")
    case False
    with s show ?thesis by (auto simp: anchors_ok_def put_anchor_def Let_def)
  next
    case True
    then have "as_order s \<noteq> []" by (auto simp: max_side_query_anchors_def)
    then obtain x xs where x: "as_order s = x # xs" by (cases "as_order s") auto
    have "k \<noteq> x" "k \<notin> set xs" using s True x by (auto simp: anchors_ok_def)
    with s True x show ?thesis by (auto simp: anchors_ok_def put_anchor_def Let_def)
  qed
qed

lemma apply_side_anchors_ok:
  "anchors_ok s \<Longrightarrow> anchors_ok (snd (apply_side_query_cache_control hash md r key params s))"
  by (auto simp: apply_side_query_cache_control_def Let_def put_anchor_ok split: option.split)

text \<open>
  A side query reads back what the previous one wrote: where that one put its breakpoint, this one
  puts one too, provided the message there is still the same and a later one is the last that is
  stable. The store of anchors stays within its bound throughout.
\<close>

theorem side_query_reads_anchor:
  assumes "anchors_ok s" and "key \<noteq> []" and "r \<noteq> CacheNone"
    and "last_stable_history_index params = Some w" and "wr_content (params ! w) \<noteq> []"
    and "last_stable_history_index params' = Some w'" and "w < w'"
    and "strip_cache_control (params' ! w) = strip_cache_control (params ! w)"
  shows "marked (last (wr_content (fst (apply_side_query_cache_control hash md r key params'
      (snd (apply_side_query_cache_control hash md r key params s))) ! w)))
    \<and> anchors_ok (snd (apply_side_query_cache_control hash md r key params s))"
proof -
  have less: "w < length params" "w' < length params'"
    using last_stable_less assms(4,6) by auto
  let ?s' = "snd (apply_side_query_cache_control hash md r key params s)"
  let ?p1 = "case as_map s key of
        Some a \<Rightarrow> if key \<noteq> [] \<and> usable_anchor hash params w a then set_cache_control md r (nat (an_index a)) params else params
      | None \<Rightarrow> params"
  have same: "wr_content (?p1 ! w) = wr_content (params ! w)"
    by (auto simp: set_cache_control_def usable_anchor_def nth_list_update split: option.split)
  then have s': "?s' = put_anchor key \<lparr>an_index = int w, an_hash = message_hash hash (params ! w)\<rparr> s"
    using assms(2-5) by (simp add: apply_side_query_cache_control_def Let_def)
  then have found: "as_map ?s' key = Some \<lparr>an_index = int w, an_hash = message_hash hash (params ! w)\<rparr>"
    by (simp add: put_anchor_def Let_def)
  have "wr_content (params' ! w) \<noteq> []"
    using arg_cong [OF assms(8), of "\<lambda>m. length (wr_content m)"] assms(5)
    by (auto simp: strip_cache_control_def strip_cache_control_blocks_def)
  moreover have "usable_anchor hash params' w' \<lparr>an_index = int w, an_hash = message_hash hash (params ! w)\<rparr>"
    using assms(7,8) by (simp add: usable_anchor_def message_hash_def)
  ultimately have "marked (last (wr_content (fst (apply_side_query_cache_control hash md r key params' ?s') ! w)))"
    using assms(2,3,6,7) less found
    by (simp add: apply_side_query_cache_control_def set_cache_control_def mark_message_def mark_last_def Let_def)
  then show ?thesis using apply_side_anchors_ok assms(1) by blast
qed

subsection \<open>An example\<close>

definition sample_env :: request_env where
  "sample_env = \<lparr>re_cache_retention = [], re_turn_cache = ''on'', re_aliases = [], re_render = (\<lambda>_. []),
     re_supports_tool = (\<lambda>_ _. False), re_hash = print_json\<rparr>"

definition fresh_state :: provider_state where
  "fresh_state = \<lparr>ps_anchors = empty_anchors, ps_guards = Map.empty, ps_turn_cache = False\<rparr>"

definition tool_context :: llm_context where
  "tool_context = \<lparr>cx_system = ''core'' @ cache_boundary @ ''today'', cx_messages = tool_talk, cx_tools = []\<rparr>"

definition in_session :: "stream_options option" where
  "in_session = Some (no_options\<lparr>so_session_id := ''s''\<rparr>)"

theorem at_most_four_breakpoints_witness:
  "length (request_breakpoints (fst (build_anthropic_params sample_env claude tool_context False in_session fresh_state))) \<le> 4"
  by (rule at_most_four_breakpoints) (simp add: tool_context_def tool_talk_stored)

theorem long_breakpoints_first_witness:
  "long_first (request_breakpoints (fst (build_anthropic_params sample_env claude tool_context False in_session fresh_state)))"
  by (rule long_breakpoints_first) (simp add: tool_context_def tool_talk_stored)

text \<open>In the example the breakpoints are the two of the system prompt, the prompt's and the tail's.\<close>

lemma sample_breakpoints:
  "map long_lived (request_breakpoints (fst (build_anthropic_params sample_env claude tool_context False in_session fresh_state)))
   = [True, True, True, False]"
  by code_simp

definition follow_up :: "message list" where
  "follow_up = [MUser \<lparr>um_content = JStr ''more'', um_timestamp = 9\<rparr>]"

theorem request_prefix_kept_witness:
  "prefix (bare (rq_messages (fst (build_anthropic_params sample_env claude tool_context False in_session fresh_state))))
     (bare (rq_messages (fst (build_anthropic_params sample_env claude
        (tool_context\<lparr>cx_messages := cx_messages tool_context @ follow_up\<rparr>) False in_session
        (snd (build_anthropic_params sample_env claude tool_context False in_session fresh_state))))))"
  by (rule request_prefix_kept [OF _ prod.collapse [symmetric] prod.collapse [symmetric], THEN conjunct1])
    (simp_all add: follow_up_def in_session_def no_options_def session_of_def is_side_query_def get_bool_def)

definition side_params :: "wire_msg list" where
  "side_params = [\<lparr>wr_role = ''user'', wr_content = [wire_text ''task'']\<rparr>,
     \<lparr>wr_role = ''assistant'', wr_content = [wire_text ''work'']\<rparr>,
     \<lparr>wr_role = ''user'', wr_content = [wire_text ''why?'']\<rparr>]"

definition later_params :: "wire_msg list" where
  "later_params = butlast side_params @ [\<lparr>wr_role = ''user'', wr_content = [wire_text ''next'']\<rparr>,
     \<lparr>wr_role = ''user'', wr_content = [wire_text ''and now?'']\<rparr>]"

theorem side_query_reads_anchor_witness:
  "marked (last (wr_content (fst (apply_side_query_cache_control print_json claude CacheLong ''k'' later_params
      (snd (apply_side_query_cache_control print_json claude CacheLong ''k'' side_params empty_anchors))) ! 0)))
    \<and> anchors_ok (snd (apply_side_query_cache_control print_json claude CacheLong ''k'' side_params empty_anchors))"
proof (rule side_query_reads_anchor)
  show "last_stable_history_index side_params = Some 0" by code_simp
  show "last_stable_history_index later_params = Some 2" by code_simp
qed (simp_all add: empty_anchors_ok side_params_def later_params_def)

end
