(* ===== verification/RequestProps.thy ===== *)
theory RequestProps
  imports LayoutProps
begin

text \<open>
  The thinking a request asks for: what \<^verbatim>\<open>StreamSimpleAnthropic\<close> puts in its internal headers is what
  \<^verbatim>\<open>buildAnthropicParams\<close> reads from them; and what happens when the caller's header map is used again.
\<close>

subsection \<open>Numerals\<close>

lemma nat_digits_digits: "list_all (in_range 48 57) (nat_digits n)"
proof (induction n rule: nat_digits.induct)
  case (1 n)
  have digit: "in_range 48 57 (char_of (48 + k))" if "k < 10" for k :: nat
    using that by (auto simp: in_range_def byte_of_def of_char_of)
  show ?case
  proof (cases "n < 10")
    case True
    then show ?thesis by (subst nat_digits.simps) (simp add: digit)
  next
    case False
    with 1 show ?thesis by (subst nat_digits.simps) (simp add: digit)
  qed
qed

lemma nat_digits_value:
  "foldl (\<lambda>a c. 10 * a + int (byte_of c - 48)) 0 (nat_digits n) = int n"
proof (induction n rule: nat_digits.induct)
  case (1 n)
  have digit: "int (byte_of (char_of (48 + k)) - 48) = int k" if "k < 10" for k :: nat
    using that by (simp add: byte_of_def of_char_of)
  show ?case
  proof (cases "n < 10")
    case True
    then show ?thesis by (subst nat_digits.simps) (simp add: digit)
  next
    case False
    have "foldl (\<lambda>a c. 10 * a + int (byte_of c - 48)) 0 (nat_digits n)
        = 10 * int (n div 10) + int (n mod 10)"
      using 1 False by (subst nat_digits.simps) (simp add: digit del: of_nat_mod)
    also have "\<dots> = int n" by (metis mult_div_mod_eq of_nat_add of_nat_mult of_nat_numeral)
    finally show ?thesis .
  qed
qed

lemma nat_digits_nonempty [simp]: "nat_digits n \<noteq> []"
  by (subst nat_digits.simps) simp

lemma scan_itoa:
  assumes "0 \<le> n" and "int_in_range n"
  shows "scan_int (itoa n) = Some n"
proof -
  let ?ds = "nat_digits (nat n)"
  obtain d ds where d: "?ds = d # ds" by (cases ?ds) auto
  have all: "list_all (in_range 48 57) ?ds" by (rule nat_digits_digits)
  then have "in_range 48 57 d" unfolding d by simp
  then have hd: "d \<noteq> CHR '' ''" "d \<noteq> CHR 0x09" "d \<noteq> CHR ''-''" "d \<noteq> CHR ''+''"
    by (auto simp: in_range_def byte_of_def)
  have "takeWhile (in_range 48 57) ?ds = ?ds" using all by (simp add: takeWhile_eq_all_conv list_all_iff)
  moreover have "itoa n = ?ds" using assms(1) by (simp add: itoa_def)
  moreover have "foldl (\<lambda>a c. 10 * a + int (byte_of c - 48)) 0 ?ds = n" using assms(1) by (simp add: nat_digits_value)
  ultimately show ?thesis using hd assms(2) by (simp add: scan_int_def d Let_def)
qed

subsection \<open>Headers\<close>

lemma header_of_with [simp]:
  "header_of (Some (with_header k v so)) k' = (if k' = k then v else header_of (Some so) k')"
  by (simp add: header_of_def option_headers_def with_header_def the_default_def)

lemma thinking_header_eq [simp]: "thinking_header a = thinking_header b \<longleftrightarrow> a = b"
  by (simp add: thinking_header_def)

definition no_thinking_headers :: "simple_options \<Rightarrow> bool" where
  "no_thinking_headers so \<longleftrightarrow>
     (\<forall>s \<in> {''disabled'', ''enabled'', ''budget'', ''effort''}.
        the_default [] (map_of (the_default [] (so_headers so)) (thinking_header s)) = [])"

lemma base_headers:
  "no_thinking_headers so \<Longrightarrow> s \<in> {''disabled'', ''enabled'', ''budget'', ''effort''} \<Longrightarrow>
     header_of (Some (build_base_options md (Some so) key)) (thinking_header s) = []"
  by (auto simp: header_of_def option_headers_def build_base_options_def no_thinking_headers_def
      stream_options.defs)

lemma header_of_max [simp]: "header_of (Some (so\<lparr>so_max_tokens := m\<rparr>)) k = header_of (Some so) k"
  by (simp add: header_of_def option_headers_def)

text \<open>
  A call whose options carry no thinking headers yet sends what its reasoning level asks for: thinking
  disabled when it is off; for a model that adapts its thinking, the effort of the level; otherwise a
  budget, which leaves room for the answer within the model's maximum.
\<close>

theorem thinking_as_requested:
  assumes "no_thinking_headers so" and "so_reasoning so \<noteq> LevelUnset"
    and "base = simple_anthropic_options env_key md (Some so)"
    and "so_reasoning so = LevelOff \<and> wm_reasoning md \<or> wm_adaptive md
      \<or> (0 < wm_max_tokens md \<and> wm_max_tokens md < 2 ^ 63 \<and> so_max_tokens so = None \<and> so_budgets so = None)"
  shows "if so_reasoning so = LevelOff \<and> wm_reasoning md
      then thinking_param (Some base) = Some (JObj [(''type'', JStr ''disabled'')])
        \<and> output_config_param (Some base) = None
    else if wm_adaptive md
      then thinking_param (Some base) = Some (JObj [(''type'', JStr ''adaptive'')])
        \<and> output_config_param (Some base)
            = Some (JObj [(''effort'', JStr (map_thinking_level_to_effort (so_reasoning so) md))])
    else (\<exists>m b. so_max_tokens base = Some m \<and> 0 \<le> b \<and> b < m \<and> m \<le> wm_max_tokens md
        \<and> thinking_param (Some base) = Some (JObj [(''type'', JStr ''enabled''), (''budget_tokens'', JInt b)])
        \<and> output_config_param (Some base) = None)"
proof -
  let ?key = "if so_api_key so = [] then env_key else so_api_key so"
  let ?base = "build_base_options md (Some so) ?key"
  note empty = base_headers [OF assms(1), where md = md and key = ?key]
  have effort: "map_thinking_level_to_effort l md \<noteq> []" for l
    by (simp add: map_thinking_level_to_effort_def split: thinking_level.split)
  consider "so_reasoning so = LevelOff \<and> wm_reasoning md"
    | "\<not> (so_reasoning so = LevelOff \<and> wm_reasoning md)" "wm_adaptive md"
    | "\<not> (so_reasoning so = LevelOff \<and> wm_reasoning md)" "\<not> wm_adaptive md" by blast
  then show ?thesis
  proof cases
    case 1
    then have "base = with_header (thinking_header ''disabled'') ''true'' ?base"
      by (simp add: assms(3) simple_anthropic_options_def Let_def)
    with 1 show ?thesis by (simp add: thinking_param_def output_config_param_def empty)
  next
    case 2
    then have "base = with_header (thinking_header ''effort'') (map_thinking_level_to_effort (so_reasoning so) md) ?base"
      using assms(2) by (auto simp: assms(3) simple_anthropic_options_def Let_def)
    with 2 show ?thesis by (auto simp: thinking_param_def output_config_param_def effort)
  next
    case 3
    obtain m b where mb: "adjust_max_tokens_for_thinking (the_default 0 (so_max_tokens ?base)) (wm_max_tokens md)
        (so_reasoning so) (so_budgets so) = (m, b)" by fastforce
    have lim: "0 < wm_max_tokens md" "wm_max_tokens md < 2 ^ 63" "so_max_tokens so = None" "so_budgets so = None"
      using assms(4) 3 by auto
    have "0 \<le> level_budget (so_budgets so) (clamp_reasoning (so_reasoning so))"
      unfolding lim by (cases "clamp_reasoning (so_reasoning so)") (simp_all add: custom_or_def)
    moreover have "0 < the_default 0 (so_max_tokens ?base)"
      using lim by (simp add: build_base_options_def default_max_tokens_def the_default_def)
    ultimately have bounds: "0 \<le> b" "b < m" "m \<le> wm_max_tokens md"
      using thinking_budget_fits [OF _ lim(1) _ mb] by auto
    have "base = with_header (thinking_header ''budget'') (itoa b)
        (with_header (thinking_header ''enabled'') ''true'' (?base\<lparr>so_max_tokens := Some m\<rparr>))"
      using 3 assms(2) by (auto simp: assms(3) simple_anthropic_options_def Let_def mb)
    moreover have "scan_int (itoa b) = Some b"
      using bounds lim(2) by (intro scan_itoa) (simp_all add: int_in_range_def)
    ultimately show ?thesis using 3 bounds
      by (simp add: thinking_param_def output_config_param_def empty the_default_def) (simp add: with_header_def)
  qed
qed

definition thinking_options :: simple_options where
  "thinking_options = stream_options.extend no_options \<lparr>so_reasoning = LevelHigh, so_budgets = None\<rparr>"

theorem thinking_as_requested_witness:
  "\<exists>m b. so_max_tokens (simple_anthropic_options ''k'' claude (Some thinking_options)) = Some m \<and> 0 \<le> b \<and> b < m
     \<and> thinking_param (Some (simple_anthropic_options ''k'' claude (Some thinking_options)))
       = Some (JObj [(''type'', JStr ''enabled''), (''budget_tokens'', JInt b)])"
proof -
  have "so_reasoning thinking_options = LevelHigh" "so_headers thinking_options = None"
    "so_max_tokens thinking_options = None" "so_budgets thinking_options = None"
    by (simp_all add: thinking_options_def stream_options.defs no_options_def)
  moreover have "\<not> wm_adaptive claude" "wm_max_tokens claude = 8192" by (simp_all add: claude_def)
  ultimately show ?thesis
    using thinking_as_requested [of thinking_options _ "''k''" claude, OF _ _ refl]
    by (auto simp: no_thinking_headers_def the_default_def)
qed

subsection \<open>A header map used again\<close>

text \<open>
  The headers are written into the caller's map. Options with a map of their own, used for a model
  that adapts its thinking and then with the thinking turned off, still ask for thinking.
\<close>

lemma effort_outlives_call:
  assumes "so_headers so = Some []" and "so_reasoning so = LevelHigh" and "wm_adaptive md" and "wm_reasoning md"
  shows "thinking_param (Some (simple_anthropic_options env_key md
      (Some ((caller_options_after env_key md so)\<lparr>so_reasoning := LevelOff\<rparr>))))
    = Some (JObj [(''type'', JStr ''adaptive'')])"
  using assms
  by (simp add: caller_options_after_def simple_anthropic_options_def Let_def thinking_param_def
      build_base_options_def with_header_def header_of_def option_headers_def the_default_def
      stream_options.defs map_thinking_level_to_effort_def)

end
