(* ===== verification/EditorText.thy ===== *)
theory EditorText
  imports GoStrings "HOL-Library.Monad_Syntax"
begin

text \<open>
  The text functions of the terminal editor (\<^verbatim>\<open>pkg/tui/components/editor.go\<close>): runes around the cursor,
  line endings, word wrapping, the decoding of key codes and of paste markers. Positions are byte
  offsets, as in the code.

  What the code takes from the terminal library outside the repository is in \<open>editor_env\<close>: the width
  of a text, the matching of keys, the class of punctuation, the height of the terminal; and so are
  the class of letters and digits of the non-ASCII runes and the completion provider, an interface.
\<close>

subsection \<open>Runes\<close>

definition is_space :: "string \<Rightarrow> bool" where
  "is_space r \<longleftrightarrow> r \<in> set space_runes"

definition first_rune :: "string \<Rightarrow> string" where
  "first_rune s = take (rune_len s) s"

text \<open>\<^verbatim>\<open>utf8.DecodeLastRuneInString\<close>: the width of the last rune, one for an invalid byte.\<close>

definition last_rune_start :: "string \<Rightarrow> nat option" where
  "last_rune_start s = find (\<lambda>k. k \<le> length s \<and> rune_start (s ! (length s - k))) [2, 3, 4]"

definition last_rune_len :: "string \<Rightarrow> nat" where
  "last_rune_len s =
     (if s = [] then 0
      else if byte_of (last s) < 128 then 1
      else case last_rune_start s of
             None \<Rightarrow> 1
           | Some k \<Rightarrow> if rune_len (drop (length s - k) s) = k then k else 1)"

definition last_rune :: "string \<Rightarrow> string" where
  "last_rune s = drop (length s - last_rune_len s) s"

lemma last_rune_start_bounds: "last_rune_start s = Some k \<Longrightarrow> 1 \<le> k \<and> k \<le> length s"
  by (auto simp: last_rune_start_def split: if_splits)

lemma last_rune_len_bounds: "s \<noteq> [] \<Longrightarrow> 1 \<le> last_rune_len s \<and> last_rune_len s \<le> length s"
  using last_rune_start_bounds [of s]
  by (cases s) (auto simp: last_rune_len_def split: option.split)

lemma rune_len_le: "rune_len s \<le> length s"
  using rune_len_bounds [of s] by (cases "s = []") auto

lemma last_rune_len_le: "last_rune_len s \<le> length s"
  using last_rune_len_bounds [of s] by (cases "s = []") (auto simp: last_rune_len_def)

lemma runes_Cons: "s \<noteq> [] \<Longrightarrow> runes s = first_rune s # runes (drop (rune_len s) s)"
  by (simp add: runes.simps [of s] first_rune_def)

text \<open>The runes with their offsets, from the given one on (\<^verbatim>\<open>segmentGraphemes\<close>).\<close>

fun offsets :: "nat \<Rightarrow> string list \<Rightarrow> (string \<times> nat) list" where
  "offsets n [] = []"
| "offsets n (g # gs) = (g, n) # offsets (n + length g) gs"

definition segment_graphemes :: "string \<Rightarrow> (string \<times> nat) list" where
  "segment_graphemes s = offsets 0 (runes s)"

subsection \<open>The environment\<close>

record select_item =
  it_value :: string
  it_label :: string
  it_description :: string

record text_state =
  ts_lines :: "string list"
  ts_line :: nat
  ts_col :: nat

text \<open>
  A completion provider: its suggestions for a text, with the prefix they replace; the text once one of
  them is put in place of a prefix, nothing if that is out of range; and whether it completes files on
  demand (\<^verbatim>\<open>ForceFileSuggestionsProvider\<close>), and how.
\<close>

record provider =
  pv_suggest :: "text_state \<Rightarrow> (string \<times> select_item list) option"
  pv_apply :: "text_state \<Rightarrow> select_item \<Rightarrow> string \<Rightarrow> text_state option"
  pv_forces :: bool
  pv_force :: "text_state \<Rightarrow> (string \<times> select_item list) option"
  pv_should :: "text_state \<Rightarrow> bool"

record editor_env =
  ee_matches :: "string \<Rightarrow> string \<Rightarrow> bool"
  ee_width :: "string \<Rightarrow> int"
  ee_punct :: "string \<Rightarrow> bool"
  ee_word_rune :: "string \<Rightarrow> bool"
  ee_rows :: int
  ee_provider :: "provider option"
  ee_order :: "(int \<times> string) list \<Rightarrow> (int \<times> string) list"

subsection \<open>Word wrapping\<close>

record text_chunk =
  ck_text :: string
  ck_start :: nat
  ck_end :: nat

definition chunk_of :: "string \<Rightarrow> nat \<Rightarrow> nat \<Rightarrow> text_chunk" where
  "chunk_of line a b = \<lparr>ck_text = drop a (take b line), ck_start = a, ck_end = b\<rparr>"

text \<open>
  The loop over the runes: the width so far, the start of the chunk, and the last place to break with
  the width up to it.
\<close>

fun wrap_loop ::
  "editor_env \<Rightarrow> int \<Rightarrow> string \<Rightarrow> (string \<times> nat) list \<Rightarrow> int \<Rightarrow> nat \<Rightarrow> (nat \<times> int) option
     \<Rightarrow> text_chunk list" where
  "wrap_loop env max_width line [] w start opp = [chunk_of line start (length line)]"
| "wrap_loop env max_width line ((g, off) # gs) w start opp =
     (let gw = ee_width env g;
          (chunks, start1, w1, opp1) =
            (if max_width < w + gw
             then (case opp of
                     Some (i, ow) \<Rightarrow> ([chunk_of line start i], i, w - ow, None)
                   | None \<Rightarrow> if start < off then ([chunk_of line start off], off, 0, None)
                             else ([], start, w, None))
             else ([], start, w, opp));
          w2 = w1 + gw;
          opp2 = (case gs of
                    (g', off') # _ \<Rightarrow> if is_space g \<and> \<not> is_space g' then Some (off', w2) else opp1
                  | [] \<Rightarrow> opp1)
      in chunks @ wrap_loop env max_width line gs w2 start1 opp2)"

definition word_wrap_line :: "editor_env \<Rightarrow> string \<Rightarrow> int \<Rightarrow> text_chunk list" where
  "word_wrap_line env line max_width =
     (if line = [] \<or> max_width \<le> 0 then [chunk_of [] 0 0]
      else if ee_width env line \<le> max_width then [chunk_of line 0 (length line)]
      else wrap_loop env max_width line (segment_graphemes line) 0 0 None)"

subsection \<open>Line endings and pasted text\<close>

abbreviation line_return :: char where "line_return \<equiv> CHR 0x0D"
abbreviation escape_char :: char where "escape_char \<equiv> CHR 0x1B"
abbreviation tab_char :: char where "tab_char \<equiv> CHR 0x09"

fun join_crlf :: "string \<Rightarrow> string" where
  "join_crlf (a # b # s) =
     (if a = line_return \<and> b = newline then newline # join_crlf s else a # join_crlf (b # s))"
| "join_crlf s = s"

definition unify_newlines :: "string \<Rightarrow> string" where
  "unify_newlines s = map (\<lambda>c. if c = line_return then newline else c) (join_crlf s)"

definition expand_tabs :: "string \<Rightarrow> string" where
  "expand_tabs s = concat (map (\<lambda>c. if c = tab_char then ''    '' else [c]) s)"

text \<open>A rune written back: an invalid byte becomes the replacement rune.\<close>

definition replacement_rune :: string where
  "replacement_rune = [CHR 0xEF, CHR 0xBF, CHR 0xBD]"

definition write_rune :: "string \<Rightarrow> string" where
  "write_rune r = (case r of [c] \<Rightarrow> if 128 \<le> byte_of c then replacement_rune else r | _ \<Rightarrow> r)"

definition printable_rune :: "string \<Rightarrow> bool" where
  "printable_rune r \<longleftrightarrow> (case r of [c] \<Rightarrow> c = newline \<or> 32 \<le> byte_of c | _ \<Rightarrow> True)"

definition clean_paste :: "string \<Rightarrow> string" where
  "clean_paste s =
     concat (map write_rune (filter printable_rune (runes (expand_tabs (unify_newlines s)))))"

text \<open>\<^verbatim>\<open>isWordChar\<close> on a byte read as a rune: letters and digits of Latin-1, and the underscore.\<close>

definition is_word_byte :: "char \<Rightarrow> bool" where
  "is_word_byte c \<longleftrightarrow>
     in_range 97 122 c \<or> in_range 65 90 c \<or> in_range 48 57 c \<or> c = CHR ''_'' \<or> byte_of c = 170
     \<or> byte_of c = 181 \<or> byte_of c = 186 \<or> in_range 192 214 c \<or> in_range 216 246 c \<or> in_range 248 255 c"

subsection \<open>Searching\<close>

fun find_sub :: "string \<Rightarrow> string \<Rightarrow> nat option" where
  "find_sub [] p = (if p = [] then Some 0 else None)"
| "find_sub (c # s) p = (if has_prefix (c # s) p then Some 0 else map_option Suc (find_sub s p))"

fun find_sub_last :: "string \<Rightarrow> string \<Rightarrow> nat option" where
  "find_sub_last [] p = (if p = [] then Some 0 else None)"
| "find_sub_last (c # s) p =
     (case find_sub_last s p of
        Some i \<Rightarrow> Some (Suc i)
      | None \<Rightarrow> if has_prefix (c # s) p then Some 0 else None)"

lemma find_sub_bound: "find_sub s p = Some i \<Longrightarrow> i + length p \<le> length s"
proof (induction s p arbitrary: i rule: find_sub.induct)
  case (2 c s p)
  then show ?case by (fastforce split: if_splits simp: has_prefix_iff dest: prefix_length_le)
qed (auto split: if_splits)

lemma find_sub_last_bound: "find_sub_last s p = Some i \<Longrightarrow> i + length p \<le> length s"
proof (induction s p arbitrary: i rule: find_sub_last.induct)
  case (2 c s p)
  then show ?case by (fastforce split: if_splits option.splits simp: has_prefix_iff dest: prefix_length_le)
qed (auto split: if_splits)

text \<open>\<^verbatim>\<open>strings.Replace(s, old, "", 1)\<close>.\<close>

definition remove_first :: "string \<Rightarrow> string \<Rightarrow> string" where
  "remove_first p s = (case find_sub s p of None \<Rightarrow> s | Some i \<Rightarrow> take i s @ drop (i + length p) s)"

subsection \<open>Key codes\<close>

text \<open>Go's wrap-around at 64 and 32 bits.\<close>

definition wrap_signed :: "nat \<Rightarrow> int \<Rightarrow> int" where
  "wrap_signed w i = (i + 2 ^ (w - 1)) mod 2 ^ w - 2 ^ (w - 1)"

definition is_digit :: "char \<Rightarrow> bool" where
  "is_digit c \<longleftrightarrow> in_range 48 57 c"

definition parse_int :: "string \<Rightarrow> int \<Rightarrow> int" where
  "parse_int s def =
     (if s = [] \<or> \<not> list_all is_digit s then def
      else foldl (\<lambda>n c. wrap_signed 64 (n * 10 + int (byte_of c) - 48)) 0 s)"

text \<open>
  The matches of \<^verbatim>\<open>kittyCsiURe\<close>, taken from the left; the digits, colons, semicolons and the final
  letter differ, so no choice is ever revised. An absent group is an empty string.
\<close>

definition take_digits :: "string \<Rightarrow> string \<times> string" where
  "take_digits s = (takeWhile is_digit s, dropWhile is_digit s)"

definition marked_group :: "char \<Rightarrow> bool \<Rightarrow> string \<Rightarrow> string \<times> string" where
  "marked_group c needs_digits s =
     (case s of
        [] \<Rightarrow> ([], s)
      | d # t \<Rightarrow>
          if d = c \<and> (\<not> needs_digits \<or> fst (take_digits t) \<noteq> []) then take_digits t else ([], s))"

definition kitty_groups :: "string \<Rightarrow> (string \<times> string \<times> string) option" where
  "kitty_groups s =
     (if \<not> has_prefix s [escape_char, CHR ''['' ] then None
      else let (code, s1) = take_digits (drop 2 s);
               (shifted, s2) = marked_group CHR '':'' False s1;
               (base, s3) = marked_group CHR '':'' True s2;
               (modifier, s4) = marked_group CHR '';'' True s3;
               (event, s5) = marked_group CHR '':'' True s4
           in if code \<noteq> [] \<and> s5 = ''u'' then Some (code, shifted, modifier) else None)"

text \<open>\<^verbatim>\<open>string(rune(n))\<close>.\<close>

definition encode_rune :: "int \<Rightarrow> string" where
  "encode_rune n =
     (let r = wrap_signed 32 n; b = (\<lambda>i. char_of (nat i))
      in if r < 0 \<or> 1114111 < r \<or> 55296 \<le> r \<and> r \<le> 57343 then replacement_rune
         else if r < 128 then [b r]
         else if r < 2048 then [b (192 + r div 64), b (128 + r mod 64)]
         else if r < 65536 then [b (224 + r div 4096), b (128 + r div 64 mod 64), b (128 + r mod 64)]
         else [b (240 + r div 262144), b (128 + r div 4096 mod 64), b (128 + r div 64 mod 64), b (128 + r mod 64)])"

definition decode_kitty_printable :: "string \<Rightarrow> string option" where
  "decode_kitty_printable s =
     (case kitty_groups s of
        None \<Rightarrow> None
      | Some (code, shifted, modifier) \<Rightarrow>
          (let codepoint = parse_int code (- 1);
               shifted_key = (if shifted \<noteq> [] then parse_int shifted (- 1) else - 1);
               m = (if modifier \<noteq> [] then parse_int modifier 1 else 1) - 1;
               effective = (if bit m 0 \<and> 0 \<le> shifted_key then shifted_key else codepoint)
           in if codepoint < 0 \<or> bit m 1 \<or> bit m 2 \<or> effective < 32 then None
              else Some (encode_rune effective)))"

subsection \<open>Paste markers\<close>

text \<open>
  The matches of the marker of one paste at the start of a string: how long it is, and its two groups.
\<close>

definition marker_suffix :: "string \<Rightarrow> (string \<times> string) option" where
  "marker_suffix s =
     (let try = (\<lambda>lead unit.
            if has_prefix s lead
            then let (ds, t) = take_digits (drop (length lead) s)
                 in if ds \<noteq> [] \<and> has_prefix t (unit @ '']'') then Some (drop 1 lead @ ds @ unit) else None
            else None)
      in case try '' +'' '' lines'' of
           Some g \<Rightarrow> Some (CHR '' '' # g, g)
         | None \<Rightarrow> map_option (\<lambda>g. (CHR '' '' # g, g)) (try '' '' '' chars''))"

definition paste_marker_match :: "int \<Rightarrow> string \<Rightarrow> (nat \<times> string option \<times> string option) option" where
  "paste_marker_match i s =
     (let head = ''[paste #'' @ itoa i in
      if \<not> has_prefix s head then None
      else let t = drop (length head) s in
           case marker_suffix t of
             Some (g1, g2) \<Rightarrow> Some (length head + length g1 + 1, Some g1, Some g2)
           | None \<Rightarrow> if has_prefix t '']'' then Some (length head + 1, None, None) else None)"

text \<open>
  \<^verbatim>\<open>Regexp.ReplaceAllString\<close> reads its replacement as a template: a dollar sign with a number stands
  for a group, with any other name for nothing, and a doubled one for itself.
\<close>

definition word_rune :: "editor_env \<Rightarrow> string \<Rightarrow> bool" where
  "word_rune env r \<longleftrightarrow>
     (case r of [c] \<Rightarrow> in_range 97 122 c \<or> in_range 65 90 c \<or> is_digit c \<or> c = CHR ''_''
      | _ \<Rightarrow> ee_word_rune env r)"

definition template_name :: "editor_env \<Rightarrow> string \<Rightarrow> string" where
  "template_name env s = concat (takeWhile (word_rune env) (runes s))"

text \<open>The name after a dollar sign, and what is left behind it.\<close>

definition extract_name :: "editor_env \<Rightarrow> string \<Rightarrow> (string \<times> string) option" where
  "extract_name env s =
     (case s of
        [] \<Rightarrow> None
      | c # t \<Rightarrow>
          if c = CHR ''{''
          then let n = template_name env t; rest = drop (length n) t
               in if n = [] \<or> rest = [] \<or> hd rest \<noteq> CHR ''}'' then None else Some (n, drop 1 rest)
          else let n = template_name env s
               in if n = [] then None else Some (n, drop (length n) s))"

definition group_value :: "string \<Rightarrow> string option \<Rightarrow> string option \<Rightarrow> string \<Rightarrow> string" where
  "group_value whole g1 g2 n =
     (if n = ''0'' then whole else if n = ''1'' then the_default [] g1 else if n = ''2'' then the_default [] g2
      else [])"

lemma extract_name_shorter: "extract_name env s = Some (n, rest) \<Longrightarrow> length rest < length s"
  by (auto simp: extract_name_def Let_def split: list.splits if_splits)

function expand_template ::
  "editor_env \<Rightarrow> string \<Rightarrow> string option \<Rightarrow> string option \<Rightarrow> string \<Rightarrow> string" where
  "expand_template env whole g1 g2 [] = []"
| "expand_template env whole g1 g2 (c # s) =
     (if c \<noteq> CHR ''$'' then c # expand_template env whole g1 g2 s
      else if has_prefix s ''$'' then CHR ''$'' # expand_template env whole g1 g2 (drop 1 s)
      else case extract_name env s of
             None \<Rightarrow> CHR ''$'' # expand_template env whole g1 g2 s
           | Some (n, rest) \<Rightarrow> group_value whole g1 g2 n @ expand_template env whole g1 g2 rest)"
  by pat_completeness auto

termination
  by (relation "measure (\<lambda>(env, whole, g1, g2, s). length s)")
    (auto dest: extract_name_shorter)

lemma paste_marker_match_pos: "paste_marker_match i s = Some (n, g1, g2) \<Longrightarrow> 0 < n"
  by (auto simp: paste_marker_match_def Let_def split: if_splits option.splits)

function replace_markers :: "editor_env \<Rightarrow> int \<Rightarrow> string \<Rightarrow> string \<Rightarrow> string" where
  "replace_markers env i content s =
     (if s = [] then []
      else case paste_marker_match i s of
        None \<Rightarrow> hd s # replace_markers env i content (tl s)
      | Some (n, g1, g2) \<Rightarrow>
          expand_template env (take n s) g1 g2 content @ replace_markers env i content (drop n s))"
  by pat_completeness auto

termination
  by (relation "measure (\<lambda>(env, i, content, s). length s)") (auto dest: paste_marker_match_pos)

declare replace_markers.simps [simp del]

definition expand_pastes :: "editor_env \<Rightarrow> (int \<times> string) list \<Rightarrow> string \<Rightarrow> string" where
  "expand_pastes env pastes s = fold (\<lambda>(i, content) t. replace_markers env i content t) (ee_order env pastes) s"

subsection \<open>Completion\<close>

text \<open>\<^verbatim>\<open>atFileRefRe\<close>: an at sign at the start or after white space, then a quoted span left open, or no white space.\<close>

definition regex_space :: "char \<Rightarrow> bool" where
  "regex_space c \<longleftrightarrow> byte_of c \<in> {9, 10, 12, 13, 32}"

definition match_at_file_ref :: "string \<Rightarrow> bool" where
  "match_at_file_ref s \<longleftrightarrow>
     list_ex (\<lambda>i. s ! i = CHR ''@'' \<and> (i = 0 \<or> regex_space (s ! (i - 1)))
        \<and> (let rest = drop (Suc i) s
           in (rest \<noteq> [] \<and> hd rest = CHR 0x22 \<and> CHR 0x22 \<notin> set (tl rest))
              \<or> \<not> list_ex regex_space rest)) [0..<length s]"

definition is_alnum_dot_dash_underscore :: "string \<Rightarrow> bool" where
  "is_alnum_dot_dash_underscore s \<longleftrightarrow>
     s \<noteq> [] \<and> list_all (\<lambda>c. in_range 97 122 c \<or> in_range 65 90 c \<or> is_digit c
        \<or> c \<in> {CHR ''.'', CHR ''-'', CHR ''_''}) s"

fun common_prefix :: "string \<Rightarrow> string \<Rightarrow> string" where
  "common_prefix (a # s) (b # t) = (if a = b then a # common_prefix s t else [])"
| "common_prefix _ _ = []"

definition longest_common_prefix :: "select_item list \<Rightarrow> string" where
  "longest_common_prefix items =
     (case items of [] \<Rightarrow> [] | x # xs \<Rightarrow> foldl (\<lambda>p y. common_prefix p (it_value y)) (it_value x) xs)"

end
