(* ===== verification/KillRing.thy ===== *)
theory KillRing
  imports EditorText
begin

text \<open>
  The stores an editor works with: the kill ring and the undo stack (\<^verbatim>\<open>pkg/tui/components/input.go\<close>)
  and the list of completions (\<^verbatim>\<open>selectlist.go\<close>). The top of a ring or a stack is its last element, as
  in the code.
\<close>

subsection \<open>The kill ring\<close>

type_synonym kill_ring = "string list"

definition kill_ring_size :: nat where
  "kill_ring_size = 10"

definition kill_push :: "string \<Rightarrow> bool \<Rightarrow> bool \<Rightarrow> kill_ring \<Rightarrow> kill_ring" where
  "kill_push t prepend accumulate ks =
     (if t = [] then ks
      else if accumulate \<and> ks \<noteq> []
      then butlast ks @ [if prepend then t @ last ks else last ks @ t]
      else let ks' = ks @ [t] in if kill_ring_size < length ks' then tl ks' else ks')"

definition kill_peek :: "kill_ring \<Rightarrow> string" where
  "kill_peek ks = (if ks = [] then [] else last ks)"

definition kill_rotate :: "kill_ring \<Rightarrow> kill_ring" where
  "kill_rotate ks = (if length ks \<le> 1 then ks else last ks # butlast ks)"

definition ring_ok :: "kill_ring \<Rightarrow> bool" where
  "ring_ok ks \<longleftrightarrow> length ks \<le> kill_ring_size \<and> [] \<notin> set ks"

lemma ring_ok_push [invar_intros]: "ring_ok ks \<Longrightarrow> ring_ok (kill_push t p a ks)"
proof (cases "a \<and> ks \<noteq> []")
  case True
  assume "ring_ok ks"
  with True show ?thesis
    by (cases ks rule: rev_cases) (auto simp: ring_ok_def kill_push_def)
next
  case False
  assume "ring_ok ks"
  with False show ?thesis
    by (cases ks) (auto simp: ring_ok_def kill_push_def kill_ring_size_def Let_def)
qed

lemma ring_ok_rotate [invar_intros]: "ring_ok ks \<Longrightarrow> ring_ok (kill_rotate ks)"
  by (cases ks rule: rev_cases) (auto simp: ring_ok_def kill_rotate_def)

lemma kill_peek_nonempty: "ring_ok ks \<Longrightarrow> ks \<noteq> [] \<Longrightarrow> kill_peek ks \<noteq> []"
  by (metis kill_peek_def last_in_set ring_ok_def)

lemma kill_push_nonempty: "t \<noteq> [] \<Longrightarrow> kill_push t p a ks \<noteq> []"
  by (cases ks) (auto simp: kill_push_def kill_ring_size_def Let_def)

lemma kill_peek_push:
  "t \<noteq> [] \<Longrightarrow> kill_peek (kill_push t p a ks)
     = (if a \<and> ks \<noteq> [] then (if p then t @ kill_peek ks else kill_peek ks @ t) else t)"
  by (cases ks) (auto simp: kill_peek_def kill_push_def kill_ring_size_def Let_def)

lemma length_kill_rotate [simp]: "length (kill_rotate ks) = length ks"
  by (cases ks rule: rev_cases) (auto simp: kill_rotate_def)

subsection \<open>The undo stack\<close>

text \<open>
  What the editors rely on: a stack whose contents, newest first, are a list with a bound on its
  length. Anything pushed is there to be popped, until the bound is exceeded.
\<close>

locale bounded_stack =
  fixes ok :: "'st \<Rightarrow> bool" and contents :: "'st \<Rightarrow> 's list" and push :: "'s \<Rightarrow> 'st \<Rightarrow> 'st"
    and pop :: "'st \<Rightarrow> ('s \<times> 'st) option" and bound :: nat
  assumes bound_pos: "0 < bound"
    and ok_push: "ok st \<Longrightarrow> ok (push s st)"
    and contents_push: "ok st \<Longrightarrow> contents (push s st) = take bound (s # contents st)"
    and contents_bound: "ok st \<Longrightarrow> length (contents st) \<le> bound"
    and pop_empty: "ok st \<Longrightarrow> contents st = [] \<Longrightarrow> pop st = None"
    and pop_top: "ok st \<Longrightarrow> contents st = s # ss \<Longrightarrow> \<exists>st'. pop st = Some (s, st') \<and> ok st' \<and> contents st' = ss"
begin

lemma pop_push:
  assumes "ok st"
  shows "\<exists>st'. pop (push s st) = Some (s, st') \<and> ok st' \<and> contents st' = take (bound - 1) (contents st)"
proof (rule pop_top)
  show "ok (push s st)" using assms by (rule ok_push)
  obtain k where "bound = Suc k" using bound_pos by (cases bound) auto
  then show "contents (push s st) = s # take (bound - 1) (contents st)" using contents_push [OF assms] by simp
qed

lemma push_all:
  assumes "ok st"
  shows "ok (fold push ss st) \<and> contents (fold push ss st) = take bound (rev ss @ contents st)"
  using assms
proof (induction ss rule: rev_induct)
  case Nil
  then show ?case using contents_bound by simp
next
  case (snoc s ss)
  then show ?case by (simp add: ok_push contents_push take_Cons' min_def)
qed

end

definition undo_limit :: nat where
  "undo_limit = 100"

definition undo_push :: "'s \<Rightarrow> 's list \<Rightarrow> 's list" where
  "undo_push s us = (let us' = us @ [s] in if undo_limit < length us' then tl us' else us')"

definition undo_pop :: "'s list \<Rightarrow> ('s \<times> 's list) option" where
  "undo_pop us = (if us = [] then None else Some (last us, butlast us))"

definition undo_ok :: "'s list \<Rightarrow> bool" where
  "undo_ok us \<longleftrightarrow> length us \<le> undo_limit"

interpretation undo: bounded_stack undo_ok rev undo_push undo_pop undo_limit
proof
  show "0 < undo_limit" by (simp add: undo_limit_def)
next
  fix s and us :: "'s list"
  assume ok: "undo_ok us"
  show "undo_ok (undo_push s us)"
    using ok by (auto simp: undo_ok_def undo_push_def undo_limit_def Let_def)
  show "rev (undo_push s us) = take undo_limit (s # rev us)"
  proof (cases us)
    case (Cons u us')
    with ok show ?thesis
      by (cases "Suc (length us') = undo_limit") (auto simp: undo_push_def undo_ok_def Let_def take_Cons')
  qed (simp add: undo_push_def undo_limit_def)
next
  fix us :: "'s list"
  assume ok: "undo_ok us"
  then show "length (rev us) \<le> undo_limit" by (simp add: undo_ok_def)
  show "undo_pop us = None" if "rev us = []" using that by (simp add: undo_pop_def)
  show "\<exists>us'. undo_pop us = Some (s, us') \<and> undo_ok us' \<and> rev us' = ss" if "rev us = s # ss" for s ss
  proof -
    from that have "us = rev ss @ [s]" by (metis rev.simps(2) rev_rev_ident)
    with ok show ?thesis by (simp add: undo_pop_def undo_ok_def)
  qed
qed

lemma undo_push_mem: "u \<in> set (undo_push s us) \<Longrightarrow> u = s \<or> u \<in> set us"
  by (cases us) (auto simp: undo_push_def Let_def split: if_splits)

lemma undo_pop_mem: "undo_pop us = Some (u, us') \<Longrightarrow> us = us' @ [u]"
  by (cases us rule: rev_cases) (auto simp: undo_pop_def split: if_splits)

subsection \<open>The list of completions\<close>

record select_list =
  sl_items :: "select_item list"
  sl_filtered :: "select_item list"
  sl_index :: go_int
  sl_max_visible :: go_int

definition new_select_list :: "select_item list \<Rightarrow> go_int \<Rightarrow> select_list" where
  "new_select_list items n = \<lparr>sl_items = items, sl_filtered = items, sl_index = 0, sl_max_visible = n\<rparr>"

definition set_filter_list :: "string \<Rightarrow> select_list \<Rightarrow> select_list" where
  "set_filter_list f sl =
     sl\<lparr>sl_filtered := filter (\<lambda>it. has_prefix (to_lower (it_value it)) (to_lower f)) (sl_items sl), sl_index := 0\<rparr>"

definition set_selected_index :: "go_int \<Rightarrow> select_list \<Rightarrow> select_list" where
  "set_selected_index i sl = sl\<lparr>sl_index := max 0 (min (max i 0) (int (length (sl_filtered sl)) - 1))\<rparr>"

definition select_up :: "select_list \<Rightarrow> select_list" where
  "select_up sl = sl\<lparr>sl_index := (if sl_index sl = 0 then int (length (sl_filtered sl)) - 1 else sl_index sl - 1)\<rparr>"

definition select_down :: "select_list \<Rightarrow> select_list" where
  "select_down sl =
     sl\<lparr>sl_index := (if sl_index sl = int (length (sl_filtered sl)) - 1 then 0 else sl_index sl + 1)\<rparr>"

definition select_list_input :: "editor_env \<Rightarrow> string \<Rightarrow> select_list \<Rightarrow> select_list" where
  "select_list_input env key sl =
     (if ee_matches env key ''up'' then select_up sl
      else if ee_matches env key ''down'' then select_down sl
      else sl)"

definition get_selected_item :: "select_list \<Rightarrow> select_item option" where
  "get_selected_item sl =
     (if 0 \<le> sl_index sl \<and> sl_index sl < int (length (sl_filtered sl))
      then Some (sl_filtered sl ! nat (sl_index sl)) else None)"

definition select_ok :: "select_list \<Rightarrow> bool" where
  "select_ok sl \<longleftrightarrow> 0 \<le> sl_index sl \<and> sl_index sl < int (length (sl_filtered sl))"

lemma select_ok_input [invar_intros]: "select_ok sl \<Longrightarrow> select_ok (select_list_input env key sl)"
  by (auto simp: select_ok_def select_list_input_def select_up_def select_down_def)

lemma select_ok_new [invar_intros]: "items \<noteq> [] \<Longrightarrow> select_ok (new_select_list items n)"
  by (simp add: select_ok_def new_select_list_def)

lemma select_down_up: "select_ok sl \<Longrightarrow> select_up (select_down sl) = sl"
  by (auto simp: select_ok_def select_up_def select_down_def)

end
