(* ===== verification/Editor.thy ===== *)
theory Editor
  imports KillRing
begin

text \<open>
  The multi-line editor (\<^verbatim>\<open>pkg/tui/components/editor.go\<close>): its state and its operations, up to the
  dispatch of keys. An operation is \<open>None\<close> when the code panics or leaves an index negative, \<open>Some\<close>
  the new state otherwise. What the callbacks \<^verbatim>\<open>OnChange\<close> and \<^verbatim>\<open>OnSubmit\<close> are given is the log;
  they are taken not to change the editor while they run.
\<close>

datatype last_action = NoAction | KillAction | YankAction | TypeWord
datatype direction = Forward | Backward
datatype popup = NoPopup | RegularPopup | ForcePopup
datatype callback = Changed string | Submitted string

record editor =
  ed_text :: text_state
  ed_width :: go_int
  ed_scroll :: go_int
  ed_popup :: popup
  ed_choices :: "select_list option"
  ed_prefix :: string
  ed_max_visible :: go_int
  ed_pastes :: "(int \<times> string) list"
  ed_paste_counter :: int
  ed_paste_buffer :: string
  ed_in_paste :: bool
  ed_history :: "string list"
  ed_history_index :: int
  ed_kills :: kill_ring
  ed_last :: last_action
  ed_jump :: "direction option"
  ed_preferred :: "nat option"
  ed_undo :: "text_state list"
  ed_no_submit :: bool
  ed_log :: "callback list"

definition empty_text :: text_state where
  "empty_text = \<lparr>ts_lines = [[]], ts_line = 0, ts_col = 0\<rparr>"

definition clamp_visible :: "go_int \<Rightarrow> go_int" where
  "clamp_visible n = (if n < 3 then 3 else if 20 < n then 20 else n)"

definition new_editor :: "go_int \<Rightarrow> editor" where
  "new_editor max_visible =
     \<lparr>ed_text = empty_text, ed_width = 80, ed_scroll = 0, ed_popup = NoPopup, ed_choices = None, ed_prefix = [],
      ed_max_visible = clamp_visible (if max_visible = 0 then 5 else max_visible),
      ed_pastes = [], ed_paste_counter = 0, ed_paste_buffer = [], ed_in_paste = False,
      ed_history = [], ed_history_index = - 1, ed_kills = [], ed_last = NoAction, ed_jump = None,
      ed_preferred = None, ed_undo = [], ed_no_submit = False, ed_log = []\<rparr>"

definition set_autocomplete_max_visible :: "go_int \<Rightarrow> editor \<Rightarrow> editor" where
  "set_autocomplete_max_visible n e = e\<lparr>ed_max_visible := clamp_visible n\<rparr>"

subsection \<open>The text and the cursor\<close>

definition text_of_lines :: "text_state \<Rightarrow> string" where
  "text_of_lines t = join [newline] (ts_lines t)"

definition get_text :: "editor \<Rightarrow> string" where
  "get_text e = text_of_lines (ed_text e)"

definition line_at :: "text_state \<Rightarrow> nat \<Rightarrow> string option" where
  "line_at t i = (if i < length (ts_lines t) then Some (ts_lines t ! i) else None)"

definition current_line :: "text_state \<Rightarrow> string option" where
  "current_line t = line_at t (ts_line t)"

text \<open>The current line cut at the cursor.\<close>

definition split_here :: "text_state \<Rightarrow> (string \<times> string) option" where
  "split_here t =
     do {
       l \<leftarrow> current_line t;
       if ts_col t \<le> length l then Some (take (ts_col t) l, drop (ts_col t) l) else None
     }"

definition text_before :: "text_state \<Rightarrow> string option" where
  "text_before t = map_option fst (split_here t)"

definition set_line :: "string \<Rightarrow> text_state \<Rightarrow> text_state" where
  "set_line l t = t\<lparr>ts_lines := (ts_lines t)[ts_line t := l]\<rparr>"

text \<open>The line after, or before, the given one is joined to it.\<close>

definition join_next :: "nat \<Rightarrow> text_state \<Rightarrow> text_state" where
  "join_next i t = t\<lparr>ts_lines := take i (ts_lines t) @ (ts_lines t ! i @ ts_lines t ! Suc i)
     # drop (i + 2) (ts_lines t)\<rparr>"

definition set_cursor_col :: "nat \<Rightarrow> editor \<Rightarrow> editor" where
  "set_cursor_col c e = e\<lparr>ed_text := (ed_text e)\<lparr>ts_col := c\<rparr>, ed_preferred := None\<rparr>"

definition map_text :: "(text_state \<Rightarrow> text_state) \<Rightarrow> editor \<Rightarrow> editor" where
  "map_text f e = e\<lparr>ed_text := f (ed_text e)\<rparr>"

definition move_line :: "nat \<Rightarrow> editor \<Rightarrow> editor" where
  "move_line i e = map_text (\<lambda>t. t\<lparr>ts_line := i\<rparr>) e"

definition fire_on_change_text :: "string \<Rightarrow> editor \<Rightarrow> editor" where
  "fire_on_change_text s e = e\<lparr>ed_log := ed_log e @ [Changed s]\<rparr>"

definition fire_on_change :: "editor \<Rightarrow> editor" where
  "fire_on_change e = fire_on_change_text (get_text e) e"

definition fire_on_submit :: "string \<Rightarrow> editor \<Rightarrow> editor" where
  "fire_on_submit s e = e\<lparr>ed_log := ed_log e @ [Submitted s]\<rparr>"

definition push_undo_snapshot :: "editor \<Rightarrow> editor" where
  "push_undo_snapshot e = e\<lparr>ed_undo := undo_push (ed_text e) (ed_undo e)\<rparr>"

definition undo_edit :: "editor \<Rightarrow> editor" where
  "undo_edit e =
     (let e = e\<lparr>ed_history_index := - 1\<rparr> in
      case undo_pop (ed_undo e) of
        None \<Rightarrow> e
      | Some (s, us) \<Rightarrow>
          fire_on_change (e\<lparr>ed_text := s, ed_undo := us, ed_last := NoAction, ed_preferred := None\<rparr>))"

definition begin_edit :: "editor \<Rightarrow> editor" where
  "begin_edit e = push_undo_snapshot (e\<lparr>ed_history_index := - 1, ed_last := NoAction\<rparr>)"

subsection \<open>The whole text\<close>

definition set_text_internal :: "string \<Rightarrow> editor \<Rightarrow> editor" where
  "set_text_internal s e =
     (let ls = split_on newline (unify_newlines s);
          e1 = map_text (\<lambda>t. \<lparr>ts_lines = ls, ts_line = length ls - 1, ts_col = ts_col t\<rparr>) e
      in fire_on_change ((set_cursor_col (length (last ls)) e1)\<lparr>ed_scroll := 0\<rparr>))"

definition set_text :: "string \<Rightarrow> editor \<Rightarrow> editor" where
  "set_text s e =
     (let e1 = e\<lparr>ed_last := NoAction, ed_history_index := - 1\<rparr>
      in set_text_internal s (if get_text e1 \<noteq> s then push_undo_snapshot e1 else e1))"

definition history_limit :: nat where
  "history_limit = 100"

definition add_to_history :: "string \<Rightarrow> editor \<Rightarrow> editor" where
  "add_to_history s e =
     (let t = trim_space s in
      if t = [] \<or> (ed_history e \<noteq> [] \<and> hd (ed_history e) = t) then e
      else e\<lparr>ed_history := take history_limit (t # ed_history e)\<rparr>)"

text \<open>Up in the history is the direction \<open>- 1\<close>.\<close>

definition navigate_history :: "int \<Rightarrow> editor \<Rightarrow> editor" where
  "navigate_history dir e =
     (let e1 = e\<lparr>ed_last := NoAction\<rparr>; i = ed_history_index e1 - dir in
      if ed_history e1 = [] \<or> i < - 1 \<or> int (length (ed_history e1)) \<le> i then e1
      else let e2 = (if ed_history_index e1 = - 1 \<and> 0 \<le> i then push_undo_snapshot e1 else e1);
               e3 = e2\<lparr>ed_history_index := i\<rparr>
           in set_text_internal (if i = - 1 then [] else ed_history e3 ! nat i) e3)"

subsection \<open>Completion\<close>

definition cancel_autocomplete :: "editor \<Rightarrow> editor" where
  "cancel_autocomplete e = e\<lparr>ed_popup := NoPopup, ed_choices := None, ed_prefix := []\<rparr>"

definition trim_left_blank :: "string \<Rightarrow> string" where
  "trim_left_blank s = dropWhile (\<lambda>c. c = CHR '' '' \<or> c = tab_char) s"

definition is_slash_menu_allowed :: "editor \<Rightarrow> bool" where
  "is_slash_menu_allowed e \<longleftrightarrow> ts_line (ed_text e) = 0"

definition is_at_start_of_message :: "editor \<Rightarrow> bool option" where
  "is_at_start_of_message e =
     (if \<not> is_slash_menu_allowed e then Some False
      else do { b \<leftarrow> text_before (ed_text e); Some (trim_space b \<in> {[], ''/''}) })"

definition is_in_slash_command_context :: "string \<Rightarrow> editor \<Rightarrow> bool" where
  "is_in_slash_command_context b e \<longleftrightarrow> is_slash_menu_allowed e \<and> has_prefix (trim_left_blank b) ''/''"

definition show_suggestions ::
  "popup \<Rightarrow> (string \<times> select_item list) option \<Rightarrow> editor \<Rightarrow> editor" where
  "show_suggestions p sug e =
     (case sug of
        Some (typed, items) \<Rightarrow>
          if items \<noteq> []
          then e\<lparr>ed_prefix := typed, ed_choices := Some (new_select_list items (ed_max_visible e)), ed_popup := p\<rparr>
          else cancel_autocomplete e
      | None \<Rightarrow> cancel_autocomplete e)"

definition try_trigger_autocomplete :: "editor_env \<Rightarrow> bool \<Rightarrow> editor \<Rightarrow> editor" where
  "try_trigger_autocomplete env explicit e =
     (case ee_provider env of
        None \<Rightarrow> e
      | Some p \<Rightarrow>
          if explicit \<and> pv_forces p \<and> \<not> pv_should p (ed_text e) then e
          else show_suggestions RegularPopup (pv_suggest p (ed_text e)) e)"

text \<open>\<^verbatim>\<open>applyForceCompletion\<close>, and what the confirmation of a completion shares with it.\<close>

definition take_completion :: "provider \<Rightarrow> select_item \<Rightarrow> string \<Rightarrow> editor \<Rightarrow> editor option" where
  "take_completion p it typed e =
     (let e1 = (push_undo_snapshot e)\<lparr>ed_last := NoAction\<rparr>
      in do {
        r \<leftarrow> pv_apply p (ed_text e1) it typed;
        Some (set_cursor_col (ts_col r) (e1\<lparr>ed_text := r\<rparr>))
      })"

definition apply_force_completion :: "provider \<Rightarrow> select_item \<Rightarrow> string \<Rightarrow> editor \<Rightarrow> editor option" where
  "apply_force_completion p it typed e = map_option fire_on_change (take_completion p it typed e)"

text \<open>\<^verbatim>\<open>forceFileAutocomplete\<close>, first without, then with an explicit tab, which falls back on the former.\<close>

definition force_list :: "editor_env \<Rightarrow> editor \<Rightarrow> editor" where
  "force_list env e =
     (case ee_provider env of
        None \<Rightarrow> e
      | Some p \<Rightarrow>
          if \<not> pv_forces p then try_trigger_autocomplete env True e
          else show_suggestions ForcePopup (pv_force p (ed_text e)) e)"

definition force_file_autocomplete :: "editor_env \<Rightarrow> editor \<Rightarrow> editor option" where
  "force_file_autocomplete env e =
     (case ee_provider env of
        None \<Rightarrow> Some e
      | Some p \<Rightarrow>
          if \<not> pv_forces p then Some (try_trigger_autocomplete env True e)
          else case pv_force p (ed_text e) of
                 None \<Rightarrow> Some (cancel_autocomplete e)
               | Some (typed, items) \<Rightarrow>
                   if length items = 1 then apply_force_completion p (hd items) typed e
                   else if items \<noteq> [] \<and> length typed < length (longest_common_prefix items)
                   then map_option (force_list env) (apply_force_completion p
                          \<lparr>it_value = longest_common_prefix items, it_label = [], it_description = []\<rparr> typed e)
                   else Some (show_suggestions ForcePopup (Some (typed, items)) e))"

definition update_autocomplete :: "editor_env \<Rightarrow> editor \<Rightarrow> editor" where
  "update_autocomplete env e =
     (case ee_provider env of
        None \<Rightarrow> e
      | Some p \<Rightarrow>
          if ed_popup e = NoPopup then e
          else if ed_popup e = ForcePopup then force_list env e
          else show_suggestions (ed_popup e) (pv_suggest p (ed_text e)) e)"

definition handle_tab_completion :: "editor_env \<Rightarrow> editor \<Rightarrow> editor option" where
  "handle_tab_completion env e =
     (if ee_provider env = None then Some e
      else do {
        b \<leftarrow> text_before (ed_text e);
        if is_in_slash_command_context b e \<and> CHR '' '' \<notin> set (trim_left_blank b)
        then Some (try_trigger_autocomplete env True e)
        else force_file_autocomplete env e
      })"

text \<open>What a deletion ends with: the completions are brought up to date, or offered again.\<close>

definition retrigger :: "editor_env \<Rightarrow> editor \<Rightarrow> editor option" where
  "retrigger env e =
     (if ed_popup e \<noteq> NoPopup then Some (update_autocomplete env e)
      else do {
        b \<leftarrow> text_before (ed_text e);
        Some (if is_in_slash_command_context b e \<or> match_at_file_ref b
              then try_trigger_autocomplete env False e else e)
      })"

definition at_sign_opens :: "string \<Rightarrow> bool" where
  "at_sign_opens b \<longleftrightarrow>
     length b = 1 \<or> (2 \<le> length b \<and> (b ! (length b - 2) = CHR '' '' \<or> b ! (length b - 2) = tab_char))"

definition auto_trigger :: "editor_env \<Rightarrow> string \<Rightarrow> editor \<Rightarrow> editor option" where
  "auto_trigger env ch e =
     (if ed_popup e \<noteq> NoPopup then Some (update_autocomplete env e)
      else do {
        start \<leftarrow> (if ch = ''/'' then is_at_start_of_message e else Some False);
        if start then Some (try_trigger_autocomplete env False e)
        else if ch = ''@''
        then do {
          b \<leftarrow> text_before (ed_text e);
          Some (if at_sign_opens b then try_trigger_autocomplete env False e else e)
        }
        else if is_alnum_dot_dash_underscore ch
        then do {
          b \<leftarrow> text_before (ed_text e);
          Some (if is_in_slash_command_context b e \<or> match_at_file_ref b
                then try_trigger_autocomplete env False e else e)
        }
        else Some e
      })"

subsection \<open>Inserting\<close>

text \<open>Typing takes a snapshot at the start of a word only; pasting has taken its own.\<close>

definition before_typing :: "string \<Rightarrow> bool \<Rightarrow> editor \<Rightarrow> editor" where
  "before_typing ch skip_coalescing e =
     (let e1 = e\<lparr>ed_history_index := - 1\<rparr> in
      if skip_coalescing then e1
      else (if is_space (first_rune ch) \<or> ed_last e1 \<noteq> TypeWord then push_undo_snapshot e1 else e1)
             \<lparr>ed_last := TypeWord\<rparr>)"

definition insert_character :: "editor_env \<Rightarrow> string \<Rightarrow> bool \<Rightarrow> editor \<Rightarrow> editor option" where
  "insert_character env ch skip_coalescing e =
     (let e1 = before_typing ch skip_coalescing e in
      do {
        (b, a) \<leftarrow> split_here (ed_text e1);
        let e2 = set_cursor_col (ts_col (ed_text e1) + length ch) (map_text (set_line (b @ ch @ a)) e1);
        auto_trigger env ch (fire_on_change e2)
      })"

definition insert_text_at_cursor_internal :: "string \<Rightarrow> editor \<Rightarrow> editor option" where
  "insert_text_at_cursor_internal s e =
     (if s = [] then Some e
      else let norm = unify_newlines s; ins = split_on newline norm; t = ed_text e in
           do {
             (b, a) \<leftarrow> split_here t;
             Some (fire_on_change
               (if length ins = 1
                then set_cursor_col (ts_col t + length norm) (map_text (set_line (b @ norm @ a)) e)
                else set_cursor_col (length (last ins))
                       (map_text (\<lambda>t. t\<lparr>ts_lines := take (ts_line t) (ts_lines t) @ [b @ hd ins]
                                           @ butlast (tl ins) @ [last ins @ a] @ drop (Suc (ts_line t)) (ts_lines t),
                                        ts_line := ts_line t + (length ins - 1)\<rparr>) e)))
           })"

definition insert_text_at_cursor :: "string \<Rightarrow> editor \<Rightarrow> editor option" where
  "insert_text_at_cursor s e =
     (if s = [] then Some e
      else insert_text_at_cursor_internal s
             ((push_undo_snapshot e)\<lparr>ed_last := NoAction, ed_history_index := - 1\<rparr>))"

definition add_new_line :: "editor \<Rightarrow> editor option" where
  "add_new_line e =
     (let e1 = begin_edit e in
      do {
        (b, a) \<leftarrow> split_here (ed_text e1);
        let e2 = map_text (\<lambda>t. t\<lparr>ts_lines := take (Suc (ts_line t)) ((ts_lines t)[ts_line t := b]) @ [a]
                                   @ drop (Suc (ts_line t)) (ts_lines t)\<rparr>) e1;
        Some (fire_on_change (set_cursor_col 0 (move_line (Suc (ts_line (ed_text e2))) e2)))
      })"

subsection \<open>Pasting\<close>

text \<open>A path pasted after a letter, a digit or an underscore gets a space in front.\<close>

definition space_before_path :: "text_state \<Rightarrow> string \<Rightarrow> string option" where
  "space_before_path t s =
     (if s \<noteq> [] \<and> hd s \<in> {CHR ''/'', CHR ''~'', CHR ''.''}
      then do {
        l \<leftarrow> current_line t;
        Some (if 0 < ts_col t \<and> ts_col t \<le> length l \<and> is_word_byte (l ! (ts_col t - 1))
              then CHR '' '' # s else s)
      }
      else Some s)"

definition paste_marker :: "int \<Rightarrow> string \<Rightarrow> string" where
  "paste_marker i s =
     (let n = length (split_on newline s) in
      ''[paste #'' @ itoa i
      @ (if 10 < n then '' +'' @ itoa (int n) @ '' lines]'' else '' '' @ itoa (int (length s)) @ '' chars]''))"

fun insert_characters :: "editor_env \<Rightarrow> string list \<Rightarrow> editor \<Rightarrow> editor option" where
  "insert_characters env [] e = Some e"
| "insert_characters env (r # rs) e =
     do { e1 \<leftarrow> insert_character env r True e; insert_characters env rs e1 }"

definition large_paste :: "string \<Rightarrow> bool" where
  "large_paste s \<longleftrightarrow> 10 < length (split_on newline s) \<or> 1000 < length s"

definition handle_paste :: "editor_env \<Rightarrow> string \<Rightarrow> editor \<Rightarrow> editor option" where
  "handle_paste env s e =
     (let e1 = begin_edit e in
      do {
        f \<leftarrow> space_before_path (ed_text e1) (clean_paste s);
        if large_paste f
        then (let i = ed_paste_counter e1 + 1
              in insert_text_at_cursor_internal (paste_marker i f)
                   (e1\<lparr>ed_paste_counter := i, ed_pastes := put i f (ed_pastes e1)\<rparr>))
        else if length (split_on newline f) = 1 then insert_characters env (map write_rune (runes f)) e1
        else insert_text_at_cursor_internal f e1
      })"

subsection \<open>Submitting\<close>

definition get_expanded_text :: "editor_env \<Rightarrow> editor \<Rightarrow> string" where
  "get_expanded_text env e = expand_pastes env (ed_pastes e) (get_text e)"

definition submit_value :: "editor_env \<Rightarrow> editor \<Rightarrow> editor" where
  "submit_value env e =
     (let result = expand_pastes env (ed_pastes e) (trim_space (get_text e))
      in fire_on_submit result (fire_on_change_text []
           (e\<lparr>ed_text := empty_text, ed_pastes := [], ed_paste_counter := 0, ed_history_index := - 1,
              ed_scroll := 0, ed_undo := [], ed_last := NoAction\<rparr>)))"

subsection \<open>Deleting\<close>

definition handle_backspace :: "editor_env \<Rightarrow> editor \<Rightarrow> editor option" where
  "handle_backspace env e =
     (let e1 = e\<lparr>ed_history_index := - 1, ed_last := NoAction\<rparr>; t = ed_text e1 in
      do {
        e2 \<leftarrow> (if 0 < ts_col t
               then do {
                 (b, a) \<leftarrow> split_here t;
                 let n = ts_col t - last_rune_len b;
                 Some (set_cursor_col n (map_text (set_line (take n b @ a)) (push_undo_snapshot e1)))
               }
               else if 0 < ts_line t
               then do {
                 prev \<leftarrow> line_at t (ts_line t - 1);
                 l \<leftarrow> current_line t;
                 Some (set_cursor_col (length prev) (move_line (ts_line t - 1)
                        (map_text (join_next (ts_line t - 1)) (push_undo_snapshot e1))))
               }
               else Some e1);
        retrigger env (fire_on_change e2)
      })"

definition handle_forward_delete :: "editor_env \<Rightarrow> editor \<Rightarrow> editor option" where
  "handle_forward_delete env e =
     (let e1 = e\<lparr>ed_history_index := - 1, ed_last := NoAction\<rparr>; t = ed_text e1 in
      do {
        l \<leftarrow> current_line t;
        e2 \<leftarrow> (if ts_col t < length l
               then do {
                 (b, a) \<leftarrow> split_here t;
                 Some (map_text (set_line (b @ drop (rune_len a) a)) (push_undo_snapshot e1))
               }
               else Some (if Suc (ts_line t) < length (ts_lines t)
                          then map_text (join_next (ts_line t)) (push_undo_snapshot e1) else e1));
        retrigger env (fire_on_change e2)
      })"

subsection \<open>Killing\<close>

text \<open>A kill: the snapshot, the ring, and the text without what was killed.\<close>

definition kill :: "string \<Rightarrow> bool \<Rightarrow> bool \<Rightarrow> (text_state \<Rightarrow> text_state) \<Rightarrow> editor \<Rightarrow> editor" where
  "kill s prepend accumulate f e =
     (let e1 = push_undo_snapshot e
      in map_text f (e1\<lparr>ed_kills := kill_push s prepend accumulate (ed_kills e1), ed_last := KillAction\<rparr>))"

definition kill_line_break_before :: "editor \<Rightarrow> editor option" where
  "kill_line_break_before e =
     (let t = ed_text e in
      if 0 < ts_line t
      then do {
        prev \<leftarrow> line_at t (ts_line t - 1);
        Some (set_cursor_col (length prev) (move_line (ts_line t - 1)
               (kill [newline] True (ed_last e = KillAction) (join_next (ts_line t - 1)) e)))
      }
      else Some e)"

definition kill_line_break_after :: "editor \<Rightarrow> editor" where
  "kill_line_break_after e =
     (let t = ed_text e in
      if Suc (ts_line t) < length (ts_lines t)
      then kill [newline] False (ed_last e = KillAction) (join_next (ts_line t)) e
      else e)"

definition delete_to_start_of_line :: "editor \<Rightarrow> editor option" where
  "delete_to_start_of_line e =
     (let e1 = e\<lparr>ed_history_index := - 1\<rparr> in
      do {
        l \<leftarrow> current_line (ed_text e1);
        e2 \<leftarrow> (if 0 < ts_col (ed_text e1)
               then do {
                 (b, a) \<leftarrow> split_here (ed_text e1);
                 Some (set_cursor_col 0 (kill b True (ed_last e1 = KillAction) (set_line a) e1))
               }
               else kill_line_break_before e1);
        Some (fire_on_change e2)
      })"

definition delete_to_end_of_line :: "editor \<Rightarrow> editor option" where
  "delete_to_end_of_line e =
     (let e1 = e\<lparr>ed_history_index := - 1\<rparr> in
      do {
        l \<leftarrow> current_line (ed_text e1);
        e2 \<leftarrow> (if ts_col (ed_text e1) < length l
               then do {
                 (b, a) \<leftarrow> split_here (ed_text e1);
                 Some (kill a False (ed_last e1 = KillAction) (set_line b) e1)
               }
               else Some (kill_line_break_after e1));
        Some (fire_on_change e2)
      })"

subsection \<open>Words\<close>

function skip_back :: "(string \<Rightarrow> bool) \<Rightarrow> string \<Rightarrow> string" where
  "skip_back p s =
     (if s \<noteq> [] \<and> p (last_rune s) then skip_back p (take (length s - last_rune_len s) s) else s)"
  by pat_completeness auto

termination
  by (relation "measure (\<lambda>(p, s). length s)") (auto dest: last_rune_len_bounds)

function skip_forward :: "(string \<Rightarrow> bool) \<Rightarrow> string \<Rightarrow> string" where
  "skip_forward p s = (if s \<noteq> [] \<and> p (first_rune s) then skip_forward p (drop (rune_len s) s) else s)"
  by pat_completeness auto

termination
  by (relation "measure (\<lambda>(p, s). length s)") (auto dest: rune_len_bounds)

declare skip_back.simps [simp del] skip_forward.simps [simp del]

definition word_inside :: "editor_env \<Rightarrow> string \<Rightarrow> bool" where
  "word_inside env r \<longleftrightarrow> \<not> is_space r \<and> \<not> ee_punct env r"

text \<open>What is left of the text before the cursor, or after it, once a word is taken off.\<close>

definition before_word :: "editor_env \<Rightarrow> string \<Rightarrow> string" where
  "before_word env b =
     (let s = skip_back is_space b in
      if s = [] then []
      else skip_back (if ee_punct env (last_rune s) then ee_punct env else word_inside env) s)"

definition after_word :: "editor_env \<Rightarrow> string \<Rightarrow> string" where
  "after_word env a =
     (let s = skip_forward is_space a in
      if s = [] then []
      else skip_forward (if ee_punct env (first_rune s) then ee_punct env else word_inside env) s)"

definition move_word_backwards :: "editor_env \<Rightarrow> editor \<Rightarrow> editor option" where
  "move_word_backwards env e =
     (let e1 = e\<lparr>ed_last := NoAction\<rparr>; t = ed_text e1 in
      do {
        l \<leftarrow> current_line t;
        if ts_col t = 0
        then (if 0 < ts_line t
              then do {
                prev \<leftarrow> line_at t (ts_line t - 1);
                Some (set_cursor_col (length prev) (move_line (ts_line t - 1) e1))
              }
              else Some e1)
        else do {
          (b, a) \<leftarrow> split_here t;
          Some (set_cursor_col (length (before_word env b)) e1)
        }
      })"

definition move_word_forwards :: "editor_env \<Rightarrow> editor \<Rightarrow> editor option" where
  "move_word_forwards env e =
     (let e1 = e\<lparr>ed_last := NoAction\<rparr>; t = ed_text e1 in
      do {
        l \<leftarrow> current_line t;
        if length l \<le> ts_col t
        then Some (if Suc (ts_line t) < length (ts_lines t)
                   then set_cursor_col 0 (move_line (Suc (ts_line t)) e1) else e1)
        else do {
          (b, a) \<leftarrow> split_here t;
          Some (set_cursor_col (ts_col t + (length a - length (after_word env a))) e1)
        }
      })"

definition delete_word_backwards :: "editor_env \<Rightarrow> editor \<Rightarrow> editor option" where
  "delete_word_backwards env e =
     (let e1 = e\<lparr>ed_history_index := - 1\<rparr>; t = ed_text e1 in
      do {
        l \<leftarrow> current_line t;
        e2 \<leftarrow> (if ts_col t = 0 then kill_line_break_before e1
               else do {
                 (b, a) \<leftarrow> split_here t;
                 e' \<leftarrow> move_word_backwards env e1;
                 let from = ts_col (ed_text e');
                 if from \<le> ts_col t
                 then Some (set_cursor_col from
                        (kill (drop from b) True (ed_last e1 = KillAction) (set_line (take from b @ a)) e1))
                 else None
               });
        Some (fire_on_change e2)
      })"

definition delete_word_forward :: "editor_env \<Rightarrow> editor \<Rightarrow> editor option" where
  "delete_word_forward env e =
     (let e1 = e\<lparr>ed_history_index := - 1\<rparr>; t = ed_text e1 in
      do {
        l \<leftarrow> current_line t;
        e2 \<leftarrow> (if length l \<le> ts_col t then Some (kill_line_break_after e1)
               else do {
                 (b, a) \<leftarrow> split_here t;
                 e' \<leftarrow> move_word_forwards env e1;
                 let n = ts_col (ed_text e') - ts_col t;
                 if n \<le> length a
                 then Some ((kill (take n a) False (ed_last e1 = KillAction) (set_line (b @ drop n a)) e1)
                              \<lparr>ed_preferred := None\<rparr>)
                 else None
               });
        Some (fire_on_change e2)
      })"

end
