(* ===== verification/EditorMoves.thy ===== *)
theory EditorMoves
  imports Editor
begin

text \<open>
  The rest of the operations of the editor (\<^verbatim>\<open>pkg/tui/components/editor.go\<close>): yanking, jumping to a
  character, moving over the lines as they are displayed, and the layout and scrolling of a frame.
\<close>

subsection \<open>Yanking\<close>

definition insert_at :: "nat \<Rightarrow> 'a \<Rightarrow> 'a list \<Rightarrow> 'a list" where
  "insert_at i x xs = take i xs @ x # drop i xs"

text \<open>The loop that puts the lines one below the other, from the given index on.\<close>

fun insert_lines :: "nat \<Rightarrow> string list \<Rightarrow> string list \<Rightarrow> string list" where
  "insert_lines i [] ls = ls"
| "insert_lines i (x # xs) ls = insert_lines (Suc i) xs (insert_at i x ls)"

definition insert_yanked_text :: "string \<Rightarrow> editor \<Rightarrow> editor option" where
  "insert_yanked_text s e =
     (let e1 = e\<lparr>ed_history_index := - 1\<rparr>; t = ed_text e1; ins = split_on newline s in
      do {
        (b, a) \<leftarrow> split_here t;
        Some (fire_on_change
          (if length ins = 1
           then set_cursor_col (ts_col t + length s) (map_text (set_line (b @ s @ a)) e1)
           else set_cursor_col (length (last ins)) (move_line (ts_line t + length ins - 1)
                  (map_text (\<lambda>t. t\<lparr>ts_lines := insert_lines (Suc (ts_line t)) (butlast (tl ins) @ [last ins @ a])
                                                ((ts_lines t)[ts_line t := b @ hd ins])\<rparr>) e1))))
      })"

definition yank :: "editor \<Rightarrow> editor option" where
  "yank e =
     (if ed_kills e = [] then Some e
      else do {
        e1 \<leftarrow> insert_yanked_text (kill_peek (ed_kills e)) (push_undo_snapshot e);
        Some (e1\<lparr>ed_last := YankAction\<rparr>)
      })"

definition delete_yanked_text :: "editor \<Rightarrow> editor option" where
  "delete_yanked_text e =
     (let s = kill_peek (ed_kills e); ys = split_on newline s; t = ed_text e in
      if s = [] then Some e
      else if length ys = 1
      then do {
        (b, a) \<leftarrow> split_here t;
        if length s \<le> ts_col t
        then Some (fire_on_change (set_cursor_col (ts_col t - length s)
               (map_text (set_line (take (ts_col t - length s) b @ a)) e)))
        else None
      }
      else do {
        (b, a) \<leftarrow> split_here t;
        if ts_line t < length ys - 1 then None
        else do {
          let start = ts_line t - (length ys - 1);
          first \<leftarrow> line_at t start;
          if length first < length (hd ys) then None
          else let col = length first - length (hd ys) in
               Some (fire_on_change (set_cursor_col col (move_line start
                 (map_text (\<lambda>t. t\<lparr>ts_lines := take start (ts_lines t) @ [take col first @ a]
                                   @ drop (Suc (ts_line t)) (ts_lines t)\<rparr>) e))))
        }
      })"

definition yank_pop :: "editor \<Rightarrow> editor option" where
  "yank_pop e =
     (if ed_last e \<noteq> YankAction \<or> length (ed_kills e) \<le> 1 then Some e
      else do {
        e1 \<leftarrow> delete_yanked_text (push_undo_snapshot e);
        let e2 = e1\<lparr>ed_kills := kill_rotate (ed_kills e1)\<rparr>;
        e3 \<leftarrow> insert_yanked_text (kill_peek (ed_kills e2)) e2;
        Some (e3\<lparr>ed_last := YankAction\<rparr>)
      })"

subsection \<open>Jumping to a character\<close>

text \<open>
  The slice of the current line behind the character under the cursor: at the end of the line there is
  none, and the code panics.
\<close>

fun jump_forward_from :: "string \<Rightarrow> string list \<Rightarrow> nat \<Rightarrow> (nat \<times> nat) option" where
  "jump_forward_from ch [] i = None"
| "jump_forward_from ch (l # ls) i =
     (case find_sub l ch of Some k \<Rightarrow> Some (i, k) | None \<Rightarrow> jump_forward_from ch ls (Suc i))"

fun jump_backward_from :: "string \<Rightarrow> string list \<Rightarrow> nat \<Rightarrow> (nat \<times> nat) option" where
  "jump_backward_from ch ls 0 = None"
| "jump_backward_from ch ls (Suc i) =
     (case find_sub_last (ls ! i) ch of Some k \<Rightarrow> Some (i, k) | None \<Rightarrow> jump_backward_from ch ls i)"

definition jump_target :: "string \<Rightarrow> direction \<Rightarrow> text_state \<Rightarrow> (nat \<times> nat) option option" where
  "jump_target ch dir t =
     do {
       l \<leftarrow> current_line t;
       if dir = Forward
       then (if length l < ts_col t + 1 then None
             else Some (case find_sub (drop (ts_col t + 1) l) ch of
                          Some k \<Rightarrow> Some (ts_line t, ts_col t + 1 + k)
                        | None \<Rightarrow> jump_forward_from ch (drop (Suc (ts_line t)) (ts_lines t)) (Suc (ts_line t))))
       else if length l < ts_col t then None
       else Some (case (if ts_col t = 0 then None else find_sub_last (take (ts_col t) l) ch) of
                    Some k \<Rightarrow> Some (ts_line t, k)
                  | None \<Rightarrow> jump_backward_from ch (ts_lines t) (ts_line t))
     }"

definition jump_to_char :: "string \<Rightarrow> direction \<Rightarrow> editor \<Rightarrow> editor option" where
  "jump_to_char ch dir e =
     (let e1 = e\<lparr>ed_last := NoAction\<rparr> in
      do {
        target \<leftarrow> jump_target ch dir (ed_text e1);
        Some (case target of None \<Rightarrow> e1 | Some (i, k) \<Rightarrow> set_cursor_col k (move_line i e1))
      })"

subsection \<open>Lines as displayed\<close>

record visual_line =
  vl_line :: nat
  vl_start :: nat
  vl_length :: nat

definition visual_lines_of :: "editor_env \<Rightarrow> go_int \<Rightarrow> nat \<Rightarrow> string \<Rightarrow> visual_line list" where
  "visual_lines_of env width i line =
     (if line = [] then [\<lparr>vl_line = i, vl_start = 0, vl_length = 0\<rparr>]
      else if ee_width env line \<le> width then [\<lparr>vl_line = i, vl_start = 0, vl_length = length line\<rparr>]
      else map (\<lambda>c. \<lparr>vl_line = i, vl_start = ck_start c, vl_length = ck_end c - ck_start c\<rparr>)
             (word_wrap_line env line width))"

definition build_visual_line_map :: "editor_env \<Rightarrow> string list \<Rightarrow> go_int \<Rightarrow> visual_line list" where
  "build_visual_line_map env ls width =
     concat (map (\<lambda>(i, l). visual_lines_of env width i l) (enumerate 0 ls))"

definition last_segment :: "visual_line list \<Rightarrow> nat \<Rightarrow> bool" where
  "last_segment vls i \<longleftrightarrow> i = length vls - 1 \<or> vl_line (vls ! Suc i) \<noteq> vl_line (vls ! i)"

definition cursor_in_segment :: "visual_line list \<Rightarrow> text_state \<Rightarrow> nat \<Rightarrow> bool" where
  "cursor_in_segment vls t i \<longleftrightarrow>
     (let v = vls ! i in
      vl_line v = ts_line t \<and> vl_start v \<le> ts_col t
      \<and> (ts_col t - vl_start v < vl_length v
         \<or> (last_segment vls i \<and> ts_col t - vl_start v \<le> vl_length v)))"

definition find_current_visual_line :: "visual_line list \<Rightarrow> text_state \<Rightarrow> int" where
  "find_current_visual_line vls t =
     (case find (cursor_in_segment vls t) [0..<length vls] of
        Some i \<Rightarrow> int i | None \<Rightarrow> int (length vls) - 1)"

definition is_on_first_visual_line :: "editor_env \<Rightarrow> editor \<Rightarrow> bool" where
  "is_on_first_visual_line env e \<longleftrightarrow>
     find_current_visual_line (build_visual_line_map env (ts_lines (ed_text e)) (ed_width e)) (ed_text e) = 0"

definition is_on_last_visual_line :: "editor_env \<Rightarrow> editor \<Rightarrow> bool" where
  "is_on_last_visual_line env e \<longleftrightarrow>
     (let vls = build_visual_line_map env (ts_lines (ed_text e)) (ed_width e)
      in find_current_visual_line vls (ed_text e) = int (length vls) - 1)"

definition is_editor_empty :: "editor \<Rightarrow> bool" where
  "is_editor_empty e \<longleftrightarrow> ts_lines (ed_text e) = [[]]"

subsection \<open>Moving\<close>

definition move_to_line_start :: "editor \<Rightarrow> editor" where
  "move_to_line_start e = set_cursor_col 0 (e\<lparr>ed_last := NoAction\<rparr>)"

definition move_to_line_end :: "editor \<Rightarrow> editor option" where
  "move_to_line_end e =
     do { l \<leftarrow> current_line (ed_text e); Some (set_cursor_col (length l) (e\<lparr>ed_last := NoAction\<rparr>)) }"

text \<open>The column to move to, and the column to remember.\<close>

definition compute_vertical_move_column ::
  "nat option \<Rightarrow> nat \<Rightarrow> nat \<Rightarrow> nat \<Rightarrow> nat \<times> nat option" where
  "compute_vertical_move_column preferred current source_max target_max =
     (case preferred of
        Some p \<Rightarrow>
          if current < source_max
          then (if target_max < current then (target_max, Some current) else (current, None))
          else if target_max < current \<or> target_max < p then (target_max, Some p)
          else (p, None)
      | None \<Rightarrow> if target_max < current then (target_max, Some current) else (current, None))"

definition segment_max :: "visual_line list \<Rightarrow> nat \<Rightarrow> nat" where
  "segment_max vls i = (if last_segment vls i then vl_length (vls ! i) else vl_length (vls ! i) - 1)"

definition move_to_visual_line :: "visual_line list \<Rightarrow> int \<Rightarrow> int \<Rightarrow> editor \<Rightarrow> editor option" where
  "move_to_visual_line vls current target e =
     (if current < 0 \<or> target < 0 \<or> int (length vls) \<le> current \<or> int (length vls) \<le> target then None
      else let i = nat current; j = nat target; t = ed_text e in
           if ts_col t < vl_start (vls ! i) then None
           else do {
             let (col, preferred) = compute_vertical_move_column (ed_preferred e)
                   (ts_col t - vl_start (vls ! i)) (segment_max vls i) (segment_max vls j);
             l \<leftarrow> line_at t (vl_line (vls ! j));
             Some (e\<lparr>ed_text := t\<lparr>ts_line := vl_line (vls ! j),
                                 ts_col := min (vl_start (vls ! j) + col) (length l)\<rparr>,
                     ed_preferred := preferred\<rparr>)
           })"

definition move_right :: "visual_line list \<Rightarrow> int \<Rightarrow> editor \<Rightarrow> editor option" where
  "move_right vls current e =
     (let t = ed_text e in
      do {
        l \<leftarrow> current_line t;
        if ts_col t < length l
        then do { (b, a) \<leftarrow> split_here t; Some (set_cursor_col (ts_col t + rune_len a) e) }
        else if Suc (ts_line t) < length (ts_lines t)
        then Some (set_cursor_col 0 (move_line (Suc (ts_line t)) e))
        else if current < 0 \<or> int (length vls) \<le> current \<or> ts_col t < vl_start (vls ! nat current) then None
        else Some (e\<lparr>ed_preferred := Some (ts_col t - vl_start (vls ! nat current))\<rparr>)
      })"

definition move_left :: "editor \<Rightarrow> editor option" where
  "move_left e =
     (let t = ed_text e in
      do {
        l \<leftarrow> current_line t;
        if 0 < ts_col t
        then do { (b, a) \<leftarrow> split_here t; Some (set_cursor_col (ts_col t - last_rune_len b) e) }
        else if 0 < ts_line t
        then do {
          prev \<leftarrow> line_at t (ts_line t - 1);
          Some (set_cursor_col (length prev) (move_line (ts_line t - 1) e))
        }
        else Some e
      })"

definition move_cursor :: "editor_env \<Rightarrow> int \<Rightarrow> int \<Rightarrow> editor \<Rightarrow> editor option" where
  "move_cursor env delta_line delta_col e =
     (let e1 = e\<lparr>ed_last := NoAction\<rparr>;
          vls = build_visual_line_map env (ts_lines (ed_text e1)) (ed_width e1);
          current = find_current_visual_line vls (ed_text e1);
          target = current + delta_line
      in do {
        e2 \<leftarrow> (if delta_line \<noteq> 0 \<and> 0 \<le> target \<and> target < int (length vls)
               then move_to_visual_line vls current target e1 else Some e1);
        if 0 < delta_col then move_right vls current e2
        else if delta_col < 0 then move_left e2
        else Some e2
      })"

definition page_size :: "editor_env \<Rightarrow> int" where
  "page_size env = max 5 (ee_rows env * 3 div 10)"

definition page_scroll :: "editor_env \<Rightarrow> int \<Rightarrow> editor \<Rightarrow> editor option" where
  "page_scroll env dir e =
     (let e1 = e\<lparr>ed_last := NoAction\<rparr>;
          vls = build_visual_line_map env (ts_lines (ed_text e1)) (ed_width e1);
          current = find_current_visual_line vls (ed_text e1);
          wanted = max 0 (current + dir * page_size env);
          target = (if int (length vls) \<le> wanted then int (length vls) - 1 else wanted)
      in move_to_visual_line vls current target e1)"

subsection \<open>The layout of a frame\<close>

record layout_line =
  ll_text :: string
  ll_cursor :: "nat option"

definition layout_chunk :: "nat option \<Rightarrow> bool \<Rightarrow> text_chunk \<Rightarrow> layout_line" where
  "layout_chunk cursor is_last c =
     \<lparr>ll_text = ck_text c,
      ll_cursor = (case cursor of
                     None \<Rightarrow> None
                   | Some p \<Rightarrow>
                       if is_last then (if ck_start c \<le> p then Some (p - ck_start c) else None)
                       else if ck_start c \<le> p \<and> p < ck_end c
                            then Some (min (p - ck_start c) (length (ck_text c))) else None)\<rparr>"

definition layout_line_of :: "editor_env \<Rightarrow> go_int \<Rightarrow> nat option \<Rightarrow> string \<Rightarrow> layout_line list" where
  "layout_line_of env width cursor line =
     (if ee_width env line \<le> width then [\<lparr>ll_text = line, ll_cursor = cursor\<rparr>]
      else let cs = word_wrap_line env line width
           in map (\<lambda>(i, c). layout_chunk cursor (i = length cs - 1) c) (enumerate 0 cs))"

definition layout_text :: "editor_env \<Rightarrow> go_int \<Rightarrow> text_state \<Rightarrow> layout_line list" where
  "layout_text env width t =
     (if ts_lines t = [] \<or> ts_lines t = [[]] then [\<lparr>ll_text = [], ll_cursor = Some 0\<rparr>]
      else concat (map (\<lambda>(i, l). layout_line_of env width (if i = ts_line t then Some (ts_col t) else None) l)
                    (enumerate 0 (ts_lines t))))"

definition layout_width :: "editor_env \<Rightarrow> string \<Rightarrow> go_int \<Rightarrow> go_int" where
  "layout_width env prompt width =
     max 1 (max 1 width - 1 - (if prompt \<noteq> [] then ee_width env prompt else 0))"

definition cursor_row :: "layout_line list \<Rightarrow> int" where
  "cursor_row ls = (case find (\<lambda>i. ll_cursor (ls ! i) \<noteq> None) [0..<length ls] of Some i \<Rightarrow> int i | None \<Rightarrow> 0)"

text \<open>The scroll offset of \<^verbatim>\<open>Render\<close> for a window of the given height, and the lines in the window.\<close>

definition scroll_to :: "int \<Rightarrow> int \<Rightarrow> int \<Rightarrow> int \<Rightarrow> int" where
  "scroll_to row total_rows height offset =
     (let o1 = (if row < offset then row else if offset + height \<le> row then row - height + 1 else offset)
      in min (max 0 (total_rows - height)) (max 0 o1))"

definition render_frame :: "editor_env \<Rightarrow> string \<Rightarrow> go_int \<Rightarrow> editor \<Rightarrow> layout_line list \<times> editor" where
  "render_frame env prompt width e =
     (let w = layout_width env prompt width;
          ls = layout_text env w (ed_text e);
          o' = scroll_to (cursor_row ls) (int (length ls)) (page_size env) (ed_scroll e)
      in (take (nat (min (int (length ls)) (o' + page_size env)) - nat o') (drop (nat o') ls),
          e\<lparr>ed_width := w, ed_scroll := o'\<rparr>))"

end
