(* ===== verification/EditorKeys.thy ===== *)
theory EditorKeys
  imports EditorMoves
begin

text \<open>
  The keys of the editor and their dispatch (\<^verbatim>\<open>HandleInput\<close> of \<^verbatim>\<open>pkg/tui/components/editor.go\<close>). An
  input is handled, or the program panics on an index, or it locks its mutex a second time and stops.
\<close>

subsection \<open>Key bindings\<close>

datatype editor_action =
    ActCursorUp | ActCursorDown | ActCursorLeft | ActCursorRight | ActCursorWordLeft | ActCursorWordRight
  | ActCursorLineStart | ActCursorLineEnd | ActJumpForward | ActJumpBackward | ActPageUp | ActPageDown
  | ActDeleteCharBackward | ActDeleteCharForward | ActDeleteWordBackward | ActDeleteWordForward
  | ActDeleteToLineStart | ActDeleteToLineEnd | ActNewLine | ActSubmit | ActTab
  | ActSelectUp | ActSelectDown | ActSelectConfirm | ActSelectCancel
  | ActCopy | ActYank | ActYankPop | ActUndo | ActExpandTools

fun default_editor_keys :: "editor_action \<Rightarrow> string list" where
  "default_editor_keys ActCursorUp = [''up'']"
| "default_editor_keys ActCursorDown = [''down'']"
| "default_editor_keys ActCursorLeft = [''left'', ''ctrl+b'']"
| "default_editor_keys ActCursorRight = [''right'', ''ctrl+f'']"
| "default_editor_keys ActCursorWordLeft = [''alt+left'', ''ctrl+left'', ''alt+b'']"
| "default_editor_keys ActCursorWordRight = [''alt+right'', ''ctrl+right'', ''alt+f'']"
| "default_editor_keys ActCursorLineStart = [''home'', ''ctrl+a'']"
| "default_editor_keys ActCursorLineEnd = [''end'', ''ctrl+e'']"
| "default_editor_keys ActJumpForward = [''ctrl+]'']"
| "default_editor_keys ActJumpBackward = [''ctrl+alt+]'']"
| "default_editor_keys ActPageUp = [''pageUp'']"
| "default_editor_keys ActPageDown = [''pageDown'']"
| "default_editor_keys ActDeleteCharBackward = [''backspace'']"
| "default_editor_keys ActDeleteCharForward = [''delete'', ''ctrl+d'']"
| "default_editor_keys ActDeleteWordBackward = [''ctrl+w'', ''alt+backspace'']"
| "default_editor_keys ActDeleteWordForward = [''alt+d'', ''alt+delete'']"
| "default_editor_keys ActDeleteToLineStart = [''ctrl+u'']"
| "default_editor_keys ActDeleteToLineEnd = [''ctrl+k'']"
| "default_editor_keys ActNewLine = [''shift+enter'']"
| "default_editor_keys ActSubmit = [''enter'']"
| "default_editor_keys ActTab = [''tab'']"
| "default_editor_keys ActSelectUp = [''up'']"
| "default_editor_keys ActSelectDown = [''down'']"
| "default_editor_keys ActSelectConfirm = [''enter'']"
| "default_editor_keys ActSelectCancel = [''escape'', ''ctrl+c'']"
| "default_editor_keys ActCopy = [''ctrl+c'']"
| "default_editor_keys ActYank = [''ctrl+y'']"
| "default_editor_keys ActYankPop = [''alt+y'']"
| "default_editor_keys ActUndo = [''ctrl+-'']"
| "default_editor_keys ActExpandTools = [''ctrl+o'']"

definition matches_editor_action :: "editor_env \<Rightarrow> string \<Rightarrow> editor_action \<Rightarrow> bool" where
  "matches_editor_action env data act = list_ex (ee_matches env data) (default_editor_keys act)"

subsection \<open>The parts of the dispatch\<close>

definition paste_open :: string where
  "paste_open = escape_char # ''[200~''"

definition paste_close :: string where
  "paste_close = escape_char # ''[201~''"

definition should_submit_on_backslash_enter :: "editor_env \<Rightarrow> string \<Rightarrow> editor \<Rightarrow> bool option" where
  "should_submit_on_backslash_enter env data e =
     (if ed_no_submit e \<or> \<not> ee_matches env data ''enter''
         \<or> \<not> list_ex (\<lambda>k. k = ''shift+enter'' \<or> k = ''shift+return'') (default_editor_keys ActSubmit)
      then Some False
      else do {
        l \<leftarrow> current_line (ed_text e);
        Some (0 < ts_col (ed_text e) \<and> ts_col (ed_text e) \<le> length l \<and> l ! (ts_col (ed_text e) - 1) = CHR 0x5C)
      })"

definition is_new_line :: "editor_env \<Rightarrow> string \<Rightarrow> bool option" where
  "is_new_line env data =
     (if matches_editor_action env data ActNewLine then Some True
      else case data of
             [] \<Rightarrow> None
           | c # cs \<Rightarrow>
               Some ((c = newline \<and> cs \<noteq> []) \<or> data = [escape_char, line_return]
                 \<or> (cs \<noteq> [] \<and> escape_char \<in> set data \<and> line_return \<in> set data) \<or> data = [newline]))"

definition new_line_input :: "editor_env \<Rightarrow> string \<Rightarrow> editor \<Rightarrow> editor option" where
  "new_line_input env data e =
     do {
       submits \<leftarrow> should_submit_on_backslash_enter env data e;
       if submits then do { e1 \<leftarrow> handle_backspace env e; Some (submit_value env e1) }
       else add_new_line e
     }"

definition submit_input :: "editor_env \<Rightarrow> editor \<Rightarrow> editor option" where
  "submit_input env e =
     (if ed_no_submit e then Some e
      else do {
        l \<leftarrow> current_line (ed_text e);
        if 0 < ts_col (ed_text e) \<and> ts_col (ed_text e) \<le> length l \<and> l ! (ts_col (ed_text e) - 1) = CHR 0x5C
        then do { e1 \<leftarrow> handle_backspace env e; add_new_line e1 }
        else Some (submit_value env e)
      })"

definition cursor_up :: "editor_env \<Rightarrow> editor \<Rightarrow> editor option" where
  "cursor_up env e =
     (if is_editor_empty e then Some (navigate_history (- 1) e)
      else if - 1 < ed_history_index e \<and> is_on_first_visual_line env e then Some (navigate_history (- 1) e)
      else if is_on_first_visual_line env e then Some (move_to_line_start e)
      else move_cursor env (- 1) 0 e)"

definition cursor_down :: "editor_env \<Rightarrow> editor \<Rightarrow> editor option" where
  "cursor_down env e =
     (if - 1 < ed_history_index e \<and> is_on_last_visual_line env e then Some (navigate_history 1 e)
      else if is_on_last_visual_line env e then move_to_line_end e
      else move_cursor env 1 0 e)"

text \<open>
  With completions shown: what a confirmation makes of the text, and whether the key is done with.
\<close>

definition complete_on_tab :: "editor_env \<Rightarrow> editor \<Rightarrow> editor option" where
  "complete_on_tab env e =
     (case (Option.bind (ed_choices e) get_selected_item, ee_provider env) of
        (Some it, Some p) \<Rightarrow>
          do {
             taken \<leftarrow> take_completion p it (ed_prefix e) e;
             let e1 = fire_on_change (cancel_autocomplete taken);
             b \<leftarrow> text_before (ed_text e1);
             Some (if has_suffix b '' '' \<and> is_in_slash_command_context b e1
                   then try_trigger_autocomplete env False e1 else e1)
          }
      | _ \<Rightarrow> Some e)"

definition submits_arguments :: "string \<Rightarrow> editor \<Rightarrow> bool" where
  "submits_arguments b e \<longleftrightarrow>
     is_in_slash_command_context b e \<and> list_ex (\<lambda>c. c = CHR '' '' \<or> c = tab_char) (trim_left_blank b)"

definition complete_on_confirm :: "editor_env \<Rightarrow> editor \<Rightarrow> (editor \<times> bool) option" where
  "complete_on_confirm env e =
     do {
       b \<leftarrow> text_before (ed_text e);
       if submits_arguments b e then Some (cancel_autocomplete e, False)
       else case (Option.bind (ed_choices e) get_selected_item, ee_provider env) of
              (Some it, Some p) \<Rightarrow>
                do {
                  e1 \<leftarrow> take_completion p it (ed_prefix e) e;
                  Some (if has_prefix (ed_prefix e) ''/'' then (cancel_autocomplete e1, False)
                        else (fire_on_change (cancel_autocomplete e1), True))
                }
            | _ \<Rightarrow> Some (e, False)
     }"

definition popup_input :: "editor_env \<Rightarrow> string \<Rightarrow> editor \<Rightarrow> (editor \<times> bool) option" where
  "popup_input env data e =
     (if ed_popup e = NoPopup \<or> ed_choices e = None then Some (e, False)
      else if matches_editor_action env data ActSelectCancel then Some (cancel_autocomplete e, True)
      else if matches_editor_action env data ActSelectUp \<or> matches_editor_action env data ActSelectDown
      then Some (e\<lparr>ed_choices := map_option (select_list_input env data) (ed_choices e)\<rparr>, True)
      else if matches_editor_action env data ActTab
      then map_option (\<lambda>e1. (e1, True)) (complete_on_tab env e)
      else if matches_editor_action env data ActSelectConfirm then complete_on_confirm env e
      else Some (e, False))"

text \<open>The keys of the editor itself, in the order they are tried; the first that matches is done.\<close>

definition movement_key :: "editor_env \<Rightarrow> string \<Rightarrow> editor \<Rightarrow> editor option" where
  "movement_key env data e =
     (if matches_editor_action env data ActCursorUp then cursor_up env e
      else if matches_editor_action env data ActCursorDown then cursor_down env e
      else if matches_editor_action env data ActCursorRight then move_cursor env 0 1 e
      else if matches_editor_action env data ActCursorLeft then move_cursor env 0 (- 1) e
      else if matches_editor_action env data ActPageUp then page_scroll env (- 1) e
      else if matches_editor_action env data ActPageDown then page_scroll env 1 e
      else if matches_editor_action env data ActJumpForward then Some (e\<lparr>ed_jump := Some Forward\<rparr>)
      else if matches_editor_action env data ActJumpBackward then Some (e\<lparr>ed_jump := Some Backward\<rparr>)
      else if ee_matches env data ''shift+space'' then insert_character env '' '' False e
      else case decode_kitty_printable data of
             Some ch \<Rightarrow> insert_character env ch False e
           | None \<Rightarrow> if data \<noteq> [] \<and> 32 \<le> byte_of (hd data) then insert_character env data False e else Some e)"

definition enter_key :: "editor_env \<Rightarrow> string \<Rightarrow> editor \<Rightarrow> editor option" where
  "enter_key env data e =
     do {
       new_line \<leftarrow> is_new_line env data;
       if new_line then new_line_input env data e
       else if matches_editor_action env data ActSubmit then submit_input env e
       else movement_key env data e
     }"

definition edit_key :: "editor_env \<Rightarrow> string \<Rightarrow> editor \<Rightarrow> editor option" where
  "edit_key env data e =
     (if matches_editor_action env data ActTab \<and> ed_popup e = NoPopup then handle_tab_completion env e
      else if matches_editor_action env data ActDeleteToLineEnd then delete_to_end_of_line e
      else if matches_editor_action env data ActDeleteToLineStart then delete_to_start_of_line e
      else if matches_editor_action env data ActDeleteWordBackward then delete_word_backwards env e
      else if matches_editor_action env data ActDeleteWordForward then delete_word_forward env e
      else if matches_editor_action env data ActDeleteCharBackward \<or> ee_matches env data ''shift+backspace''
      then handle_backspace env e
      else if matches_editor_action env data ActDeleteCharForward \<or> ee_matches env data ''shift+delete''
      then handle_forward_delete env e
      else if matches_editor_action env data ActYank then yank e
      else if matches_editor_action env data ActYankPop then yank_pop e
      else if matches_editor_action env data ActCursorLineStart then Some (move_to_line_start e)
      else if matches_editor_action env data ActCursorLineEnd then move_to_line_end e
      else if matches_editor_action env data ActCursorWordLeft then move_word_backwards env e
      else if matches_editor_action env data ActCursorWordRight then move_word_forwards env e
      else enter_key env data e)"

definition key_input :: "editor_env \<Rightarrow> string \<Rightarrow> editor \<Rightarrow> editor option" where
  "key_input env data e =
     (if matches_editor_action env data ActCopy then Some e
      else if matches_editor_action env data ActUndo then Some (undo_edit e)
      else do {
        (e1, handled) \<leftarrow> popup_input env data e;
        if handled then Some e1 else edit_key env data e1
      })"

subsection \<open>Handling an input\<close>

datatype editor_fault = IndexPanic | SelfDeadlock

text \<open>
  A bracketed paste collects the inputs up to its end. What follows the end in the same input is
  handed to \<^verbatim>\<open>HandleInput\<close> again, while its mutex is held.
\<close>

definition paste_input :: "editor_env \<Rightarrow> string \<Rightarrow> editor \<Rightarrow> editor_fault + editor" where
  "paste_input env data e =
     (let buffer = ed_paste_buffer e @ data in
      case find_sub buffer paste_close of
        None \<Rightarrow> Inr (e\<lparr>ed_paste_buffer := buffer\<rparr>)
      | Some i \<Rightarrow>
          let content = take i buffer; rest = drop (i + 6) buffer; e1 = e\<lparr>ed_paste_buffer := buffer\<rparr> in
          case (if content \<noteq> [] then handle_paste env content e1 else Some e1) of
            None \<Rightarrow> Inl IndexPanic
          | Some e2 \<Rightarrow>
              if rest \<noteq> [] then Inl SelfDeadlock
              else Inr (e2\<lparr>ed_in_paste := False, ed_paste_buffer := []\<rparr>))"

definition plain_input :: "editor_env \<Rightarrow> string \<Rightarrow> editor \<Rightarrow> editor_fault + editor" where
  "plain_input env data e =
     (let (data, e) = (if contains data paste_open
            then (remove_first paste_open data, e\<lparr>ed_in_paste := True, ed_paste_buffer := []\<rparr>) else (data, e))
      in if ed_in_paste e then paste_input env data e
         else case key_input env data e of None \<Rightarrow> Inl IndexPanic | Some e1 \<Rightarrow> Inr e1)"

definition handle_input :: "editor_env \<Rightarrow> string \<Rightarrow> editor \<Rightarrow> editor_fault + editor" where
  "handle_input env data e =
     (case ed_jump e of
        None \<Rightarrow> plain_input env data e
      | Some dir \<Rightarrow>
          let e1 = e\<lparr>ed_jump := None\<rparr> in
          if matches_editor_action env data ActJumpForward \<or> matches_editor_action env data ActJumpBackward then Inr e1
          else if data \<noteq> [] \<and> 32 \<le> byte_of (hd data)
          then (case jump_to_char data dir e1 of None \<Rightarrow> Inl IndexPanic | Some e2 \<Rightarrow> Inr e2)
          else plain_input env data e1)"

end
