(* ===== verification/EditorBuffer.thy ===== *)
theory EditorBuffer
  imports EditorKeys
begin

text \<open>
  The abstract view of the editor: a text with a cursor in it, as what stands before the cursor and what
  stands after. A well-formed text is cut into the lines above, the two halves of the current line and the
  lines below (\<open>at_cursor\<close>); every operation is computed on that form.
\<close>

subsection \<open>Lines and text\<close>

definition lead :: "string list \<Rightarrow> string" where
  "lead ls = concat (map (\<lambda>l. l @ [newline]) ls)"

definition trail :: "string list \<Rightarrow> string" where
  "trail ls = concat (map (\<lambda>l. newline # l) ls)"

lemma lead_simps [simp]: "lead [] = []" "lead (l # ls) = l @ newline # lead ls" "lead (ks @ ls) = lead ks @ lead ls"
  by (simp_all add: lead_def)

lemma trail_simps [simp]: "trail [] = []" "trail (l # ls) = newline # l @ trail ls" "trail (ks @ ls) = trail ks @ trail ls"
  by (simp_all add: trail_def)

lemma join_Cons: "join [newline] (l # ls) = l @ trail ls"
  by (induction ls arbitrary: l) auto

lemma join_snoc: "join [newline] (ls @ [l]) = lead ls @ l"
  by (induction ls rule: induct_list012) (auto simp: join_Cons)

lemma lead_trail: "lead ls @ l @ x = l' @ trail ls' @ x \<longleftrightarrow> lead ls @ l = l' @ trail ls'"
  by (metis append.assoc append_same_eq)

lemma lead_join: "lead A @ l @ trail C = join [newline] (A @ l # C)"
  by (induction A rule: induct_list012) (auto simp: join_Cons)

definition at_cursor :: "string list \<Rightarrow> string \<Rightarrow> string \<Rightarrow> string list \<Rightarrow> text_state" where
  "at_cursor A b a C = \<lparr>ts_lines = A @ (b @ a) # C, ts_line = length A, ts_col = length b\<rparr>"

definition text_ok :: "text_state \<Rightarrow> bool" where
  "text_ok t \<longleftrightarrow> ts_line t < length (ts_lines t) \<and> ts_col t \<le> length (ts_lines t ! ts_line t)"

definition before :: "text_state \<Rightarrow> string" where
  "before t = lead (take (ts_line t) (ts_lines t)) @ take (ts_col t) (ts_lines t ! ts_line t)"

definition after :: "text_state \<Rightarrow> string" where
  "after t = drop (ts_col t) (ts_lines t ! ts_line t) @ trail (drop (Suc (ts_line t)) (ts_lines t))"

lemma text_ok_at_cursor [simp]: "text_ok (at_cursor A b a C)"
  by (simp add: text_ok_def at_cursor_def nth_append)

lemma text_okE:
  assumes "text_ok t"
  obtains A b a C where "t = at_cursor A b a C"
proof
  let ?l = "ts_lines t ! ts_line t"
  have "ts_lines t = take (ts_line t) (ts_lines t) @ ?l # drop (Suc (ts_line t)) (ts_lines t)"
    using assms by (simp add: text_ok_def id_take_nth_drop)
  with assms show "t = at_cursor (take (ts_line t) (ts_lines t)) (take (ts_col t) ?l) (drop (ts_col t) ?l)
      (drop (Suc (ts_line t)) (ts_lines t))"
    by (cases t) (simp add: at_cursor_def text_ok_def min_def)
qed

lemma before_at_cursor [simp]: "before (at_cursor A b a C) = lead A @ b"
  by (simp add: before_def at_cursor_def nth_append)

lemma after_at_cursor [simp]: "after (at_cursor A b a C) = a @ trail C"
  by (simp add: after_def at_cursor_def nth_append)

subsection \<open>Operations at the cursor\<close>

lemma current_line_at [simp]: "current_line (at_cursor A b a C) = Some (b @ a)"
  by (simp add: current_line_def line_at_def at_cursor_def nth_append)

lemma split_here_at [simp]: "split_here (at_cursor A b a C) = Some (b, a)"
  by (simp add: split_here_def) (simp add: at_cursor_def)

lemma text_before_at [simp]: "text_before (at_cursor A b a C) = Some b"
  by (simp add: text_before_def)

lemma col_at [simp]: "ts_col (at_cursor A b a C) = length b"
  by (simp add: at_cursor_def)

lemma line_at_cursor [simp]: "ts_line (at_cursor A b a C) = length A"
  by (simp add: at_cursor_def)

lemma lines_at [simp]: "ts_lines (at_cursor A b a C) = A @ (b @ a) # C"
  by (simp add: at_cursor_def)

text \<open>The text is what is before the cursor, and what is after it.\<close>

lemma text_before_after: "text_ok t \<Longrightarrow> text_of_lines t = before t @ after t"
  by (erule text_okE) (simp add: text_of_lines_def lead_join [symmetric])

lemma line_above_at [simp]: "line_at (at_cursor (A @ [p]) b a C) (length A) = Some p"
  by (simp add: line_at_def nth_append)

lemma set_line_at: "b' @ a' = l \<Longrightarrow> (set_line l (at_cursor A b a C))\<lparr>ts_col := length b'\<rparr> = at_cursor A b' a' C"
  by (simp add: set_line_def at_cursor_def)

lemma set_line_at': "set_line (b @ a') (at_cursor A b a C) = at_cursor A b a' C"
  by (simp add: set_line_def at_cursor_def)

lemma set_col_at: "b' @ a' = b @ a \<Longrightarrow> (at_cursor A b a C)\<lparr>ts_col := length b'\<rparr> = at_cursor A b' a' C"
  by (simp add: at_cursor_def)

lemma join_prev_at:
  "(join_next (length A) (at_cursor (A @ [p]) b a C))\<lparr>ts_line := length A, ts_col := length p\<rparr>
     = at_cursor A p (b @ a) C"
  by (simp add: join_next_def at_cursor_def nth_append)

lemma join_next_at: "join_next (length A) (at_cursor A b [] (n # C)) = at_cursor A b n C"
  by (simp add: join_next_def at_cursor_def nth_append)

text \<open>Inserting text at the cursor, line breaks and all.\<close>

definition insert_state :: "string \<Rightarrow> text_state \<Rightarrow> text_state" where
  "insert_state s t =
     (let ins = split_on newline s; l = ts_lines t ! ts_line t;
          b = take (ts_col t) l; a = drop (ts_col t) l; A = take (ts_line t) (ts_lines t);
          C = drop (Suc (ts_line t)) (ts_lines t)
      in if length ins = 1 then at_cursor A (b @ s) a C
         else at_cursor (A @ (b @ hd ins) # butlast (tl ins)) (last ins) a C)"

lemma insert_state_at:
  "insert_state s (at_cursor A b a C) =
     (if length (split_on newline s) = 1 then at_cursor A (b @ s) a C
      else at_cursor (A @ (b @ hd (split_on newline s)) # butlast (tl (split_on newline s)))
             (last (split_on newline s)) a C)"
  by (simp add: insert_state_def nth_append Let_def)

lemma split_lines_cases:
  obtains (single) "length (split_on newline s) = 1" "split_on newline s = [s]" "newline \<notin> set s"
  | (multi) h ms l where "length (split_on newline s) \<noteq> 1" "split_on newline s = h # ms @ [l]"
      "s = h @ newline # lead ms @ l"
proof (cases "split_on newline s")
  case Nil
  then show ?thesis by simp
next
  case (Cons h rest)
  have j: "join [newline] (split_on newline s) = s" by (rule split_on_join)
  show ?thesis
  proof (cases rest rule: rev_cases)
    case Nil
    with Cons j have "split_on newline s = [s]" by simp
    moreover have "newline \<notin> set s" using split_on_no_sep [of s newline s] calculation by simp
    ultimately show ?thesis using single by simp
  next
    case (snoc ms l)
    with Cons j have "s = h @ newline # lead ms @ l"
      using join_snoc [of "h # ms" l] by simp
    with Cons snoc show ?thesis using multi by simp
  qed
qed

lemma insert_state_ok [simp]: "text_ok t \<Longrightarrow> text_ok (insert_state s t)"
  by (erule text_okE) (simp add: insert_state_at)

lemma before_insert: "text_ok t \<Longrightarrow> before (insert_state s t) = before t @ s"
proof (erule text_okE)
  fix A b a C
  assume t: "t = at_cursor A b a C"
  show ?thesis by (rule split_lines_cases [of s]) (auto simp: t insert_state_at)
qed

lemma after_insert: "text_ok t \<Longrightarrow> after (insert_state s t) = after t"
  by (erule text_okE) (simp add: insert_state_at)

text \<open>Runes do not reach over a line break.\<close>

lemma second_byte_newline [simp]: "\<not> second_byte b newline"
  by (simp add: second_byte_def in_range_def byte_of_def)

lemma rune_len_before_newline: "a \<noteq> [] \<Longrightarrow> rune_len (a @ newline # x) = rune_len a"
proof (cases a)
  case (Cons b bs)
  then show ?thesis
    by (cases bs; cases "tl bs"; cases "tl (tl bs)")
      (auto simp: rune_len_def in_range_def byte_of_def split: if_splits)
qed simp

end
