(* ===== verification/EditorInv.thy ===== *)
theory EditorInv
  imports EditorBuffer
begin

text \<open>
  The invariant of the editor, and what each operation does to the text, the undo stack, the last action
  and the kill ring.
\<close>

subsection \<open>The invariant\<close>

definition popup_ok :: "editor \<Rightarrow> bool" where
  "popup_ok e \<longleftrightarrow> (ed_popup e \<noteq> NoPopup \<longrightarrow> (\<exists>sl. ed_choices e = Some sl \<and> select_ok sl))"

text \<open>After a yank the text is one into which the top of the ring was put at the cursor.\<close>

definition yank_ok :: "editor \<Rightarrow> bool" where
  "yank_ok e \<longleftrightarrow>
     (ed_last e = YankAction \<longrightarrow> ed_kills e \<noteq> [] \<and>
        (\<exists>t. text_ok t \<and> ed_text e = insert_state (kill_peek (ed_kills e)) t))"

definition editor_ok :: "editor \<Rightarrow> bool" where
  "editor_ok e \<longleftrightarrow>
     text_ok (ed_text e) \<and> ring_ok (ed_kills e) \<and> undo_ok (ed_undo e) \<and> list_all text_ok (ed_undo e)
     \<and> length (ed_history e) \<le> history_limit \<and> - 1 \<le> ed_history_index e
     \<and> ed_history_index e < int (length (ed_history e))
     \<and> 1 \<le> ed_width e \<and> 3 \<le> ed_max_visible e \<and> ed_max_visible e \<le> 20 \<and> popup_ok e \<and> yank_ok e"

text \<open>
  A completion provider fails only on a prefix that does not fit before the cursor, and puts the cursor
  inside the text it returns; what it suggests on demand for a text fits there.
\<close>

definition applies_ok :: "provider \<Rightarrow> bool" where
  "applies_ok p \<longleftrightarrow>
     (\<forall>t it typed. text_ok t \<longrightarrow>
        (case pv_apply p t it typed of None \<Rightarrow> ts_col t < length typed | Some t' \<Rightarrow> text_ok t'))"

definition forces_ok :: "provider \<Rightarrow> bool" where
  "forces_ok p \<longleftrightarrow> (\<forall>t typed items. text_ok t \<longrightarrow> pv_force p t = Some (typed, items) \<longrightarrow> length typed \<le> ts_col t)"

definition provider_ok :: "editor_env \<Rightarrow> bool" where
  "provider_ok env \<longleftrightarrow> (\<forall>p. ee_provider env = Some p \<longrightarrow> applies_ok p \<and> forces_ok p)"

definition edited ::
  "editor \<Rightarrow> editor \<Rightarrow> text_state \<Rightarrow> text_state list \<Rightarrow> last_action \<Rightarrow> kill_ring \<Rightarrow> bool" where
  "edited e e' t us la ks \<longleftrightarrow>
     ed_text e' = t \<and> ed_undo e' = us \<and> ed_last e' = la \<and> ed_kills e' = ks
     \<and> ed_history e' = ed_history e \<and> ed_history_index e' \<in> {- 1, ed_history_index e}
     \<and> ed_max_visible e' = ed_max_visible e \<and> ed_width e' = ed_width e \<and> (popup_ok e \<longrightarrow> popup_ok e')"

lemma edited_trans: "edited e e1 t u l k \<Longrightarrow> edited e1 e2 t' u' l' k' \<Longrightarrow> edited e e2 t' u' l' k'"
  by (auto simp: edited_def)

lemma edited_fields:
  assumes "edited e e' t us la ks"
  shows "ed_text e' = t" "ed_undo e' = us" "ed_last e' = la" "ed_kills e' = ks"
  using assms by (simp_all add: edited_def)

lemma edited_ok:
  assumes "editor_ok e" and "edited e e' t us la ks" and "text_ok t" and "ring_ok ks"
    and "us = ed_undo e \<or> us = undo_push (ed_text e) (ed_undo e)"
    and "la = YankAction \<Longrightarrow> ks \<noteq> [] \<and> (\<exists>t0. text_ok t0 \<and> t = insert_state (kill_peek ks) t0)"
  shows "editor_ok e'"
proof -
  have "undo_ok us \<and> list_all text_ok us"
    using assms(1,5) undo.ok_push [of "ed_undo e" "ed_text e"]
    by (auto simp: editor_ok_def list_all_iff dest: undo_push_mem)
  with assms show ?thesis by (auto simp: edited_def editor_ok_def yank_ok_def)
qed

subsection \<open>Completions leave the rest alone\<close>

definition only_popup :: "editor \<Rightarrow> editor \<Rightarrow> bool" where
  "only_popup e e' \<longleftrightarrow> edited e e' (ed_text e) (ed_undo e) (ed_last e) (ed_kills e)"

lemma only_popup_refl [simp]: "only_popup e e"
  by (simp add: only_popup_def edited_def)

lemma only_popup_cancel [simp]: "only_popup e (cancel_autocomplete e)"
  by (simp add: only_popup_def edited_def cancel_autocomplete_def popup_ok_def)

lemma only_popup_show [simp]: "only_popup e (show_suggestions p sug e)"
  using only_popup_cancel [of e]
  by (auto simp: show_suggestions_def only_popup_def edited_def popup_ok_def select_ok_new split: option.splits)

lemma only_popup_try [simp]: "only_popup e (try_trigger_autocomplete env x e)"
  by (simp add: try_trigger_autocomplete_def split: option.split)

lemma only_popup_force_list [simp]: "only_popup e (force_list env e)"
  by (simp add: force_list_def split: option.split)

lemma only_popup_update [simp]: "only_popup e (update_autocomplete env e)"
  by (simp add: update_autocomplete_def split: option.split)

lemma retrigger_only_popup: "text_ok (ed_text e) \<Longrightarrow> \<exists>e'. retrigger env e = Some e' \<and> only_popup e e'"
  by (erule text_okE) (auto simp: retrigger_def)

lemma auto_trigger_only_popup: "text_ok (ed_text e) \<Longrightarrow> \<exists>e'. auto_trigger env ch e = Some e' \<and> only_popup e e'"
  by (erule text_okE) (auto simp: auto_trigger_def is_at_start_of_message_def split: option.split)

lemma then_retrigger:
  assumes "edited e e1 t us la ks" and "text_ok t"
  shows "\<exists>e'. retrigger env e1 = Some e' \<and> edited e e' t us la ks"
  using retrigger_only_popup [of e1 env] assms edited_trans [OF assms(1)]
  by (auto simp: only_popup_def edited_fields [OF assms(1)])

lemma then_auto_trigger:
  assumes "edited e e1 t us la ks" and "text_ok t"
  shows "\<exists>e'. auto_trigger env ch e1 = Some e' \<and> edited e e' t us la ks"
  using auto_trigger_only_popup [of e1 env ch] assms edited_trans [OF assms(1)]
  by (auto simp: only_popup_def edited_fields [OF assms(1)])

named_theorems editor_defs \<open>the small steps the operations are made of\<close>

lemmas [editor_defs] = Let_def set_cursor_col_def map_text_def move_line_def fire_on_change_def
  fire_on_change_text_def push_undo_snapshot_def begin_edit_def kill_def

lemma text_frame [simp]:
  "ed_text (push_undo_snapshot e) = ed_text e" "ed_text (begin_edit e) = ed_text e"
  "ed_text (fire_on_change e) = ed_text e" "ed_text (map_text f e) = f (ed_text e)"
  by (simp_all add: editor_defs)

subsection \<open>Inserting and deleting\<close>

lemma text_before_typing [simp]: "ed_text (before_typing ch skip e) = ed_text e"
  by (simp add: before_typing_def Let_def)

lemma insert_character_at:
  assumes at: "ed_text e = at_cursor A b a C"
  shows "\<exists>e'. insert_character env ch skip e = Some e'
    \<and> edited e e' (at_cursor A (b @ ch) a C) (ed_undo (before_typing ch skip e))
        (if skip then ed_last e else TypeWord) (ed_kills e)"
proof -
  let ?e2 = "set_cursor_col (length b + length ch) (map_text (set_line (b @ ch @ a)) (before_typing ch skip e))"
  have "(set_line (b @ ch @ a) (at_cursor A b a C))\<lparr>ts_col := length b + length ch\<rparr> = at_cursor A (b @ ch) a C"
    using set_line_at [of "b @ ch" a] by simp
  then have "edited e (fire_on_change ?e2) (at_cursor A (b @ ch) a C) (ed_undo (before_typing ch skip e))
      (if skip then ed_last e else TypeWord) (ed_kills e)"
    by (simp add: edited_def editor_defs before_typing_def at popup_ok_def)
  from then_auto_trigger [OF this text_ok_at_cursor] show ?thesis
    by (simp add: insert_character_def Let_def at)
qed

lemma undo_before_typing:
  "ed_undo (before_typing ch skip e) =
     (if \<not> skip \<and> (is_space (first_rune ch) \<or> ed_last e \<noteq> TypeWord) then undo_push (ed_text e) (ed_undo e)
      else ed_undo e)"
  by (simp add: before_typing_def editor_defs)

text \<open>An insertion of any text at the cursor.\<close>

lemma insert_internal_at:
  assumes "text_ok (ed_text e)" and "s \<noteq> []"
  shows "\<exists>e'. insert_text_at_cursor_internal s e = Some e'
    \<and> edited e e' (insert_state (unify_newlines s) (ed_text e)) (ed_undo e) (ed_last e) (ed_kills e)
    \<and> ed_pastes e' = ed_pastes e \<and> ed_history_index e' = ed_history_index e"
proof -
  from assms(1) obtain A b a C where at: "ed_text e = at_cursor A b a C" by (rule text_okE)
  show ?thesis
  proof (rule split_lines_cases [of "unify_newlines s"])
    assume "length (split_on newline (unify_newlines s)) = 1"
    then show ?thesis
      using set_line_at [of "b @ unify_newlines s" a]
      by (simp add: insert_text_at_cursor_internal_def assms(2) at edited_def editor_defs insert_state_at
          popup_ok_def)
  next
    fix h ms l
    assume "length (split_on newline (unify_newlines s)) \<noteq> 1" "split_on newline (unify_newlines s) = h # ms @ [l]"
    then show ?thesis
      by (simp add: insert_text_at_cursor_internal_def assms(2) at edited_def editor_defs insert_state_at
          popup_ok_def)
  qed
qed

lemma insert_lines_append: "length P = i \<Longrightarrow> insert_lines i xs (P @ Q) = P @ xs @ Q"
proof (induction xs arbitrary: i P)
  case (Cons x xs)
  then show ?case using Cons.IH [of "P @ [x]" "Suc i"] by (simp add: insert_at_def)
qed simp

lemma insert_yanked_at:
  assumes "text_ok (ed_text e)"
  shows "\<exists>e'. insert_yanked_text s e = Some e'
    \<and> edited e e' (insert_state s (ed_text e)) (ed_undo e) (ed_last e) (ed_kills e)"
proof -
  from assms obtain A b a C where at: "ed_text e = at_cursor A b a C" by (rule text_okE)
  show ?thesis
  proof (rule split_lines_cases [of s])
    assume "length (split_on newline s) = 1"
    then show ?thesis
      using set_line_at [of "b @ s" a]
      by (simp add: insert_yanked_text_def at edited_def editor_defs insert_state_at popup_ok_def)
  next
    fix h ms l
    assume *: "length (split_on newline s) \<noteq> 1" "split_on newline s = h # ms @ [l]"
    have "insert_lines (Suc (length A)) (ms @ [l @ a]) (A @ (b @ h) # C) = A @ (b @ h) # ms @ (l @ a) # C"
      using insert_lines_append [of "A @ [b @ h]" "Suc (length A)" "ms @ [l @ a]" C] by simp
    with * show ?thesis
      by (simp add: insert_yanked_text_def at edited_def editor_defs insert_state_at popup_ok_def)
  qed
qed

lemma add_new_line_at:
  assumes at: "ed_text e = at_cursor A b a C"
  shows "\<exists>e'. add_new_line e = Some e'
    \<and> edited e e' (at_cursor (A @ [b]) [] a C) (undo_push (ed_text e) (ed_undo e)) NoAction (ed_kills e)"
  by (simp add: add_new_line_def edited_def editor_defs at popup_ok_def list_update_append)

subsection \<open>Deleting a character\<close>

text \<open>The text before the cursor without its last rune, and the text after it without its first.\<close>

lemma take_last_rune: "b \<noteq> [] \<Longrightarrow> take (length b - last_rune_len b) b @ last_rune b = b"
  by (simp add: last_rune_def)

definition backspaced :: "text_state \<Rightarrow> text_state" where
  "backspaced t =
     (let l = ts_lines t ! ts_line t; b = take (ts_col t) l; a = drop (ts_col t) l;
          A = take (ts_line t) (ts_lines t); C = drop (Suc (ts_line t)) (ts_lines t)
      in if b \<noteq> [] then at_cursor A (take (length b - last_rune_len b) b) a C
         else if A \<noteq> [] then at_cursor (butlast A) (last A) a C else t)"

definition forward_deleted :: "text_state \<Rightarrow> text_state" where
  "forward_deleted t =
     (let l = ts_lines t ! ts_line t; b = take (ts_col t) l; a = drop (ts_col t) l;
          A = take (ts_line t) (ts_lines t); C = drop (Suc (ts_line t)) (ts_lines t)
      in if a \<noteq> [] then at_cursor A b (drop (rune_len a) a) C
         else if C \<noteq> [] then at_cursor A b (hd C) (tl C) else t)"

lemma backspaced_at:
  "backspaced (at_cursor A b a C) =
     (if b \<noteq> [] then at_cursor A (take (length b - last_rune_len b) b) a C
      else if A \<noteq> [] then at_cursor (butlast A) (last A) a C else at_cursor A b a C)"
  by (simp add: backspaced_def Let_def nth_append)

lemma forward_deleted_at:
  "forward_deleted (at_cursor A b a C) =
     (if a \<noteq> [] then at_cursor A b (drop (rune_len a) a) C
      else if C \<noteq> [] then at_cursor A b (hd C) (tl C) else at_cursor A b a C)"
  by (simp add: forward_deleted_def Let_def nth_append)

lemma snapshot_if:
  "P \<Longrightarrow> undo_push (ed_text e) (ed_undo e) = (if P then undo_push (ed_text e) (ed_undo e) else ed_undo e)"
  "\<not> P \<Longrightarrow> ed_undo e = (if P then undo_push (ed_text e) (ed_undo e) else ed_undo e)"
  by simp_all

lemma handle_backspace_ok:
  assumes "text_ok (ed_text e)"
  shows "\<exists>e'. handle_backspace env e = Some e'
    \<and> edited e e' (backspaced (ed_text e))
        (if backspaced (ed_text e) \<noteq> ed_text e then undo_push (ed_text e) (ed_undo e) else ed_undo e)
        NoAction (ed_kills e)"
proof -
  from assms obtain A b a C where at: "ed_text e = at_cursor A b a C" by (rule text_okE)
  let ?e1 = "e\<lparr>ed_history_index := - 1, ed_last := NoAction\<rparr>"
  let ?goal = "\<lambda>e2. edited e (fire_on_change e2) (backspaced (ed_text e))
      (if backspaced (ed_text e) \<noteq> ed_text e then undo_push (ed_text e) (ed_undo e) else ed_undo e) NoAction (ed_kills e)"
  consider "b \<noteq> []" | (up) p A' where "b = []" "A = A' @ [p]" | (none) "b = []" "A = []"
    by (cases b; cases A rule: rev_cases) auto
  then show ?thesis
  proof cases
    case 1
    let ?n = "length b - last_rune_len b"
    have less: "?n < length b" using 1 last_rune_len_bounds [of b] by (cases b) auto
    have "(set_line (take ?n b @ a) (at_cursor A b a C))\<lparr>ts_col := ?n\<rparr> = at_cursor A (take ?n b) a C"
      using set_line_at [of "take ?n b" a] less by simp
    moreover have "at_cursor A (take ?n b) a C \<noteq> at_cursor A b a C"
      using less by (auto simp: at_cursor_def)
    ultimately have "?goal (set_cursor_col ?n (map_text (set_line (take ?n b @ a)) (push_undo_snapshot ?e1)))"
      using 1 by (simp add: edited_def editor_defs at backspaced_at popup_ok_def)
    from then_retrigger [OF this] 1 show ?thesis
      by (simp add: handle_backspace_def at backspaced_at Let_def)
  next
    case up
    have "at_cursor A' p a C \<noteq> at_cursor (A' @ [p]) [] a C" by (simp add: at_cursor_def)
    then have "?goal (set_cursor_col (length p) (move_line (length A') (map_text (join_next (length A'))
        (push_undo_snapshot ?e1))))"
      using up join_prev_at [of p A' "[]" a C]
      by (simp add: edited_def editor_defs at backspaced_at popup_ok_def)
    from then_retrigger [OF this] up show ?thesis
      by (simp add: handle_backspace_def at backspaced_at Let_def)
  next
    case none
    have "?goal ?e1" using none by (simp add: edited_def editor_defs at backspaced_at popup_ok_def)
    from then_retrigger [OF this] none show ?thesis
      by (simp add: handle_backspace_def at backspaced_at Let_def)
  qed
qed

lemma handle_forward_delete_ok:
  assumes "text_ok (ed_text e)"
  shows "\<exists>e'. handle_forward_delete env e = Some e'
    \<and> edited e e' (forward_deleted (ed_text e))
        (if forward_deleted (ed_text e) \<noteq> ed_text e then undo_push (ed_text e) (ed_undo e) else ed_undo e)
        NoAction (ed_kills e)"
proof -
  from assms obtain A b a C where at: "ed_text e = at_cursor A b a C" by (rule text_okE)
  let ?e1 = "e\<lparr>ed_history_index := - 1, ed_last := NoAction\<rparr>"
  let ?goal = "\<lambda>e2. edited e (fire_on_change e2) (forward_deleted (ed_text e))
      (if forward_deleted (ed_text e) \<noteq> ed_text e then undo_push (ed_text e) (ed_undo e) else ed_undo e) NoAction (ed_kills e)"
  consider "a \<noteq> []" | (down) n C' where "a = []" "C = n # C'" | (none) "a = []" "C = []"
    by (cases a; cases C) auto
  then show ?thesis
  proof cases
    case 1
    have "length (drop (rune_len a) a) < length a" using 1 rune_len_bounds [of a] by (cases a) auto
    then have "drop (rune_len a) a \<noteq> a" by (metis less_irrefl)
    then have "at_cursor A b (drop (rune_len a) a) C \<noteq> at_cursor A b a C"
      by (simp add: at_cursor_def)
    then have "?goal (map_text (set_line (b @ drop (rune_len a) a)) (push_undo_snapshot ?e1))"
      using 1 by (simp add: edited_def editor_defs at forward_deleted_at popup_ok_def set_line_at')
    from then_retrigger [OF this] 1 show ?thesis
      by (simp add: handle_forward_delete_def at forward_deleted_at Let_def)
  next
    case down
    have "at_cursor A b n C' \<noteq> at_cursor A b [] (n # C')" by (auto simp: at_cursor_def)
    then have "?goal (map_text (join_next (length A)) (push_undo_snapshot ?e1))"
      using down by (simp add: edited_def editor_defs at forward_deleted_at popup_ok_def join_next_at)
    from then_retrigger [OF this] down show ?thesis
      by (simp add: handle_forward_delete_def at forward_deleted_at Let_def)
  next
    case none
    have "?goal ?e1" using none by (simp add: edited_def editor_defs at forward_deleted_at popup_ok_def)
    from then_retrigger [OF this] none show ?thesis
      by (simp add: handle_forward_delete_def at forward_deleted_at Let_def)
  qed
qed

end
