(* ===== verification/EditorKill.thy ===== *)
theory EditorKill
  imports EditorInv
begin

text \<open>
  Killing and yanking: what every kill has in common, the words that are killed, and the ring behind a
  yank.
\<close>

subsection \<open>Words\<close>

lemma skip_back_prefix: "prefix (skip_back p s) s"
proof (induction p s rule: skip_back.induct)
  case (1 p s)
  show ?case
  proof (cases "s \<noteq> [] \<and> p (last_rune s)")
    case True
    with 1 have "prefix (skip_back p (take (length s - last_rune_len s) s)) (take (length s - last_rune_len s) s)"
      by simp
    with True show ?thesis
      by (simp add: skip_back.simps [of p s]) (metis prefix_order.trans take_is_prefix)
  next
    case False
    then have "skip_back p s = s" by (subst skip_back.simps) auto
    then show ?thesis by simp
  qed
qed

lemma skip_back_less: "s \<noteq> [] \<Longrightarrow> p (last_rune s) \<Longrightarrow> length (skip_back p s) < length s"
  using prefix_length_le [OF skip_back_prefix [of p "take (length s - last_rune_len s) s"]]
    last_rune_len_bounds [of s] skip_back.simps [of p s] by (cases s) auto

lemma skip_forward_suffix: "suffix (skip_forward p s) s"
proof (induction p s rule: skip_forward.induct)
  case (1 p s)
  show ?case
  proof (cases "s \<noteq> [] \<and> p (first_rune s)")
    case True
    with 1 have "suffix (skip_forward p (drop (rune_len s) s)) (drop (rune_len s) s)" by simp
    with True show ?thesis
      by (simp add: skip_forward.simps [of p s]) (metis suffix_order.trans suffix_drop)
  next
    case False
    then have "skip_forward p s = s" by (subst skip_forward.simps) auto
    then show ?thesis by simp
  qed
qed

lemma skip_forward_less: "s \<noteq> [] \<Longrightarrow> p (first_rune s) \<Longrightarrow> length (skip_forward p s) < length s"
  using suffix_length_le [OF skip_forward_suffix [of p "drop (rune_len s) s"]]
    rune_len_bounds [of s] skip_forward.simps [of p s] by (cases s) auto

lemma skip_back_stops: "skip_back p s \<noteq> [] \<Longrightarrow> \<not> p (last_rune (skip_back p s))"
proof (induction p s rule: skip_back.induct)
  case (1 p s)
  then show ?case by (cases "s \<noteq> [] \<and> p (last_rune s)") (auto simp: skip_back.simps [of p s])
qed

lemma skip_forward_stops: "skip_forward p s \<noteq> [] \<Longrightarrow> \<not> p (first_rune (skip_forward p s))"
proof (induction p s rule: skip_forward.induct)
  case (1 p s)
  then show ?case by (cases "s \<noteq> [] \<and> p (first_rune s)") (auto simp: skip_forward.simps [of p s])
qed

lemma before_word_prefix: "prefix (before_word env b) b"
  unfolding before_word_def Let_def
  by (auto intro: prefix_order.trans [OF skip_back_prefix skip_back_prefix])

lemma after_word_suffix: "suffix (after_word env a) a"
  unfolding after_word_def Let_def
  by (auto intro: suffix_order.trans [OF skip_forward_suffix skip_forward_suffix])

lemma before_word_less: "b \<noteq> [] \<Longrightarrow> length (before_word env b) < length b"
proof -
  let ?s = "skip_back is_space b"
  assume "b \<noteq> []"
  moreover have "length (skip_back (if ee_punct env (last_rune ?s) then ee_punct env else word_inside env) ?s) < length ?s"
    if "?s \<noteq> []"
    using that skip_back_stops [OF that] by (intro skip_back_less) (auto simp: word_inside_def)
  ultimately show ?thesis
    using prefix_length_le [OF skip_back_prefix [of is_space b]]
    by (auto simp: before_word_def Let_def)
qed

lemma after_word_less: "a \<noteq> [] \<Longrightarrow> length (after_word env a) < length a"
proof -
  let ?s = "skip_forward is_space a"
  assume "a \<noteq> []"
  moreover have "length (skip_forward (if ee_punct env (first_rune ?s) then ee_punct env else word_inside env) ?s) < length ?s"
    if "?s \<noteq> []"
    using that skip_forward_stops [OF that] by (intro skip_forward_less) (auto simp: word_inside_def)
  ultimately show ?thesis
    using suffix_length_le [OF skip_forward_suffix [of is_space a]]
    by (auto simp: after_word_def Let_def)
qed

lemma move_word_backwards_at:
  assumes "ed_text e = at_cursor A b a C" and "b \<noteq> []"
  shows "\<exists>e'. move_word_backwards env e = Some e' \<and> ts_col (ed_text e') = length (before_word env b)"
  using assms by (simp add: move_word_backwards_def set_cursor_col_def Let_def)

lemma move_word_forwards_at:
  assumes "ed_text e = at_cursor A b a C" and "a \<noteq> []"
  shows "\<exists>e'. move_word_forwards env e = Some e'
    \<and> ts_col (ed_text e') = length b + (length a - length (after_word env a))"
  using assms by (simp add: move_word_forwards_def set_cursor_col_def Let_def)

subsection \<open>Kills\<close>

text \<open>A kill that took the text \<open>k\<close> from before, or from after, the cursor.\<close>

definition killed :: "string \<Rightarrow> bool \<Rightarrow> text_state \<Rightarrow> text_state \<Rightarrow> bool" where
  "killed k backward t t' \<longleftrightarrow>
     k \<noteq> [] \<and> text_ok t'
     \<and> (if backward then before t = before t' @ k \<and> after t' = after t
        else before t' = before t \<and> after t = k @ after t')"

definition kills :: "editor \<Rightarrow> editor \<Rightarrow> bool" where
  "kills e e' \<longleftrightarrow>
     only_popup e e' \<or>
     (\<exists>k backward t'. killed k backward (ed_text e) t'
        \<and> edited e e' t' (undo_push (ed_text e) (ed_undo e)) KillAction
            (kill_push k backward (ed_last e = KillAction) (ed_kills e)))"

lemma killsI:
  "killed k backward (ed_text e) t' \<Longrightarrow>
     edited e e' t' (undo_push (ed_text e) (ed_undo e)) KillAction
       (kill_push k backward (ed_last e = KillAction) (ed_kills e)) \<Longrightarrow> kills e e'"
  by (auto simp: kills_def)

lemma same_ok: "only_popup e (fire_on_change (e\<lparr>ed_history_index := - 1\<rparr>))"
  by (simp add: only_popup_def edited_def editor_defs popup_ok_def)

lemma kill_break_before:
  assumes "ed_text e = at_cursor (A @ [p]) [] a C"
  shows "\<exists>e'. kill_line_break_before (e\<lparr>ed_history_index := - 1\<rparr>) = Some e' \<and> kills e (fire_on_change e')"
proof -
  have "killed [newline] True (ed_text e) (at_cursor A p a C)" using assms by (simp add: killed_def)
  moreover have "edited e (fire_on_change (set_cursor_col (length p) (move_line (length A)
       (kill [newline] True (ed_last e = KillAction) (join_next (length A)) (e\<lparr>ed_history_index := - 1\<rparr>)))))
     (at_cursor A p a C) (undo_push (ed_text e) (ed_undo e)) KillAction
     (kill_push [newline] True (ed_last e = KillAction) (ed_kills e))"
    using join_prev_at [of p A "[]" a C] by (simp add: edited_def editor_defs assms popup_ok_def)
  ultimately show ?thesis
    using assms by (simp add: kill_line_break_before_def Let_def killsI)
qed

lemma kill_break_after:
  assumes "ed_text e = at_cursor A b [] (n # C)"
  shows "kills e (fire_on_change (kill_line_break_after (e\<lparr>ed_history_index := - 1\<rparr>)))"
proof -
  have "killed [newline] False (ed_text e) (at_cursor A b n C)" using assms by (simp add: killed_def)
  moreover have "edited e (fire_on_change (kill_line_break_after (e\<lparr>ed_history_index := - 1\<rparr>)))
     (at_cursor A b n C) (undo_push (ed_text e) (ed_undo e)) KillAction
     (kill_push [newline] False (ed_last e = KillAction) (ed_kills e))"
    by (simp add: kill_line_break_after_def edited_def editor_defs assms popup_ok_def join_next_at)
  ultimately show ?thesis by (rule killsI)
qed

lemma before_cases:
  obtains (col) "b \<noteq> []" | (up) p A' where "b = []" "A = A' @ [p]" | (first) "b = []" "A = []"
  by (cases b; cases A rule: rev_cases) auto

lemma after_cases:
  obtains (col) "a \<noteq> []" | (down) n C' where "a = []" "C = n # C'" | (bottom) "a = []" "C = []"
  by (cases a; cases C) auto

lemma delete_to_start_of_line_kills:
  assumes "text_ok (ed_text e)"
  shows "\<exists>e'. delete_to_start_of_line e = Some e' \<and> kills e e'"
proof -
  from assms obtain A b a C where at: "ed_text e = at_cursor A b a C" by (rule text_okE)
  show ?thesis
  proof (rule before_cases [of b _ A])
    assume "b \<noteq> []"
    then have "killed b True (ed_text e) (at_cursor A [] a C)" by (simp add: killed_def at)
    moreover have "edited e (fire_on_change (set_cursor_col 0
         (kill b True (ed_last e = KillAction) (set_line a) (e\<lparr>ed_history_index := - 1\<rparr>))))
       (at_cursor A [] a C) (undo_push (ed_text e) (ed_undo e)) KillAction
       (kill_push b True (ed_last e = KillAction) (ed_kills e))"
      using set_line_at [of "[]" a] by (simp add: edited_def editor_defs at popup_ok_def)
    ultimately have "kills e (fire_on_change (set_cursor_col 0
         (kill b True (ed_last e = KillAction) (set_line a) (e\<lparr>ed_history_index := - 1\<rparr>))))" by (rule killsI)
    then show ?thesis
      using \<open>b \<noteq> []\<close> by (simp add: delete_to_start_of_line_def Let_def at)
  next
    fix p A'
    assume "b = []" "A = A' @ [p]"
    with kill_break_before [of e A' p a C] at show ?thesis
      by (auto simp: delete_to_start_of_line_def Let_def)
  next
    assume "b = []" "A = []"
    then show ?thesis
      using same_ok [of e] by (simp add: delete_to_start_of_line_def kill_line_break_before_def Let_def at kills_def)
  qed
qed

lemma delete_to_end_of_line_kills:
  assumes "text_ok (ed_text e)"
  shows "\<exists>e'. delete_to_end_of_line e = Some e' \<and> kills e e'"
proof -
  from assms obtain A b a C where at: "ed_text e = at_cursor A b a C" by (rule text_okE)
  show ?thesis
  proof (rule after_cases [of a _ C])
    assume "a \<noteq> []"
    then have "killed a False (ed_text e) (at_cursor A b [] C)" by (simp add: killed_def at)
    moreover have "edited e (fire_on_change
         (kill a False (ed_last e = KillAction) (set_line b) (e\<lparr>ed_history_index := - 1\<rparr>)))
       (at_cursor A b [] C) (undo_push (ed_text e) (ed_undo e)) KillAction
       (kill_push a False (ed_last e = KillAction) (ed_kills e))"
      using set_line_at' [of b "[]" A a C] by (simp add: edited_def editor_defs at popup_ok_def)
    ultimately have "kills e (fire_on_change (kill a False (ed_last e = KillAction) (set_line b) (e\<lparr>ed_history_index := - 1\<rparr>)))" by (rule killsI)
    then show ?thesis
      using \<open>a \<noteq> []\<close> by (simp add: delete_to_end_of_line_def Let_def at)
  next
    fix n C'
    assume "a = []" "C = n # C'"
    with kill_break_after [of e A b n C'] at show ?thesis
      by (simp add: delete_to_end_of_line_def Let_def)
  next
    assume "a = []" "C = []"
    then show ?thesis
      using same_ok [of e] by (simp add: delete_to_end_of_line_def kill_line_break_after_def Let_def at kills_def)
  qed
qed

lemma delete_word_backwards_kills:
  assumes "text_ok (ed_text e)"
  shows "\<exists>e'. delete_word_backwards env e = Some e' \<and> kills e e'"
proof -
  from assms obtain A b a C where at: "ed_text e = at_cursor A b a C" by (rule text_okE)
  show ?thesis
  proof (rule before_cases [of b _ A])
    assume b: "b \<noteq> []"
    let ?n = "length (before_word env b)"
    let ?e1 = "e\<lparr>ed_history_index := - 1\<rparr>"
    have less: "?n < length b" using before_word_less [OF b] .
    then have "killed (drop ?n b) True (ed_text e) (at_cursor A (take ?n b) a C)"
      by (simp add: killed_def at)
    moreover have "edited e (fire_on_change (set_cursor_col ?n
         (kill (drop ?n b) True (ed_last e = KillAction) (set_line (take ?n b @ a)) ?e1)))
       (at_cursor A (take ?n b) a C) (undo_push (ed_text e) (ed_undo e)) KillAction
       (kill_push (drop ?n b) True (ed_last e = KillAction) (ed_kills e))"
      using set_line_at [of "take ?n b" a] less by (simp add: edited_def editor_defs at popup_ok_def)
    ultimately have "kills e (fire_on_change (set_cursor_col ?n
         (kill (drop ?n b) True (ed_last e = KillAction) (set_line (take ?n b @ a)) ?e1)))" by (rule killsI)
    then show ?thesis
      using b less move_word_backwards_at [of ?e1 A b a C env]
      by (auto simp: delete_word_backwards_def Let_def at)
  next
    fix p A'
    assume "b = []" "A = A' @ [p]"
    with kill_break_before [of e A' p a C] at show ?thesis
      by (auto simp: delete_word_backwards_def Let_def)
  next
    assume "b = []" "A = []"
    then show ?thesis
      using same_ok [of e] by (simp add: delete_word_backwards_def kill_line_break_before_def Let_def at kills_def)
  qed
qed

lemma delete_word_forward_kills:
  assumes "text_ok (ed_text e)"
  shows "\<exists>e'. delete_word_forward env e = Some e' \<and> kills e e'"
proof -
  from assms obtain A b a C where at: "ed_text e = at_cursor A b a C" by (rule text_okE)
  show ?thesis
  proof (rule after_cases [of a _ C])
    assume a: "a \<noteq> []"
    let ?n = "length a - length (after_word env a)"
    let ?e1 = "e\<lparr>ed_history_index := - 1\<rparr>"
    have pos: "0 < ?n" using after_word_less [OF a, of env] by simp
    with a have "killed (take ?n a) False (ed_text e) (at_cursor A b (drop ?n a) C)"
      by (cases a) (auto simp: killed_def at)
    moreover have "edited e (fire_on_change ((kill (take ?n a) False (ed_last e = KillAction) (set_line (b @ drop ?n a)) ?e1)
           \<lparr>ed_preferred := None\<rparr>))
       (at_cursor A b (drop ?n a) C) (undo_push (ed_text e) (ed_undo e)) KillAction
       (kill_push (take ?n a) False (ed_last e = KillAction) (ed_kills e))"
      by (simp add: edited_def editor_defs at popup_ok_def set_line_at')
    ultimately have "kills e (fire_on_change ((kill (take ?n a) False (ed_last e = KillAction) (set_line (b @ drop ?n a)) ?e1)
           \<lparr>ed_preferred := None\<rparr>))" by (rule killsI)
    then show ?thesis
      using a move_word_forwards_at [of ?e1 A b a C env]
      by (auto simp: delete_word_forward_def Let_def at)
  next
    fix n C'
    assume "a = []" "C = n # C'"
    with kill_break_after [of e A b n C'] at show ?thesis
      by (simp add: delete_word_forward_def Let_def)
  next
    assume "a = []" "C = []"
    then show ?thesis
      using same_ok [of e] by (simp add: delete_word_forward_def kill_line_break_after_def Let_def at kills_def)
  qed
qed

subsection \<open>Yanks\<close>

lemma yank_at:
  assumes "text_ok (ed_text e)" and "ed_kills e \<noteq> []"
  shows "\<exists>e'. yank e = Some e'
    \<and> edited e e' (insert_state (kill_peek (ed_kills e)) (ed_text e)) (undo_push (ed_text e) (ed_undo e))
        YankAction (ed_kills e)"
proof -
  obtain e1 where "insert_yanked_text (kill_peek (ed_kills e)) (push_undo_snapshot e) = Some e1"
    "edited (push_undo_snapshot e) e1 (insert_state (kill_peek (ed_kills e)) (ed_text e))
       (undo_push (ed_text e) (ed_undo e)) (ed_last e) (ed_kills e)"
    using insert_yanked_at [of "push_undo_snapshot e"] assms by (auto simp: push_undo_snapshot_def)
  with assms show ?thesis by (auto simp: yank_def edited_def popup_ok_def push_undo_snapshot_def)
qed

lemma delete_yanked_at:
  assumes "text_ok t" and "ed_text e = insert_state (kill_peek (ed_kills e)) t" and "kill_peek (ed_kills e) \<noteq> []"
  shows "\<exists>e'. delete_yanked_text e = Some e' \<and> edited e e' t (ed_undo e) (ed_last e) (ed_kills e)"
proof -
  let ?s = "kill_peek (ed_kills e)"
  from assms(1) obtain A b a C where t: "t = at_cursor A b a C" by (rule text_okE)
  show ?thesis
  proof (rule split_lines_cases [of ?s])
    assume "length (split_on newline ?s) = 1" "split_on newline ?s = [?s]"
    then show ?thesis
      using assms(2,3) set_line_at [of b a "b @ a" A "b @ ?s" a C]
      by (simp add: delete_yanked_text_def t insert_state_at edited_def editor_defs popup_ok_def)
  next
    fix h ms l
    assume *: "length (split_on newline ?s) \<noteq> 1" "split_on newline ?s = h # ms @ [l]"
    let ?S = "at_cursor (A @ (b @ h) # ms) l a C"
    have S: "ed_text e = ?S" using assms(2) * by (simp add: t insert_state_at)
    have first: "line_at ?S (length A) = Some (b @ h)" by (simp add: line_at_def nth_append)
    show ?thesis
      using * assms(3) first
      by (simp add: delete_yanked_text_def S t edited_def editor_defs popup_ok_def)
  qed
qed

lemma yank_pop_at:
  assumes "text_ok t" and "ed_text e = insert_state (kill_peek (ed_kills e)) t" and "ring_ok (ed_kills e)"
    and "ed_last e = YankAction" and "1 < length (ed_kills e)"
  shows "\<exists>e'. yank_pop e = Some e'
    \<and> edited e e' (insert_state (kill_peek (kill_rotate (ed_kills e))) t) (undo_push (ed_text e) (ed_undo e))
        YankAction (kill_rotate (ed_kills e))"
proof -
  let ?p = "push_undo_snapshot e"
  have "kill_peek (ed_kills e) \<noteq> []" using assms by (intro kill_peek_nonempty) auto
  then obtain e1 where e1: "delete_yanked_text ?p = Some e1"
    "edited ?p e1 t (undo_push (ed_text e) (ed_undo e)) (ed_last e) (ed_kills e)"
    using delete_yanked_at [of t ?p] assms(1,2) by (auto simp: push_undo_snapshot_def)
  let ?e2 = "e1\<lparr>ed_kills := kill_rotate (ed_kills e1)\<rparr>"
  have "text_ok (ed_text ?e2)" using assms(1) edited_fields [OF e1(2)] by simp
  from insert_yanked_at [OF this, of "kill_peek (kill_rotate (ed_kills e))"] obtain e3
    where "insert_yanked_text (kill_peek (kill_rotate (ed_kills e))) ?e2 = Some e3"
      "edited ?e2 e3 (insert_state (kill_peek (kill_rotate (ed_kills e))) t) (undo_push (ed_text e) (ed_undo e))
         (ed_last e) (kill_rotate (ed_kills e))"
    using edited_fields [OF e1(2)] by auto
  then show ?thesis
    using assms(4,5) e1 by (auto simp: yank_pop_def edited_def popup_ok_def push_undo_snapshot_def)
qed

end
