(* ===== verification/EditorLayout.thy ===== *)
theory EditorLayout
  imports EditorKill
begin

text \<open>
  Lines as displayed: wrapping cuts a line into pieces that follow each other, the line the cursor is
  displayed in contains it, and moving over displayed lines keeps the cursor inside the text.
\<close>

subsection \<open>Wrapping\<close>

definition cuts :: "string \<Rightarrow> nat \<Rightarrow> text_chunk \<Rightarrow> bool" where
  "cuts line a c \<longleftrightarrow> ck_start c = a \<and> a \<le> ck_end c \<and> ck_text c = drop a (take (ck_end c) line)"

lemma cuts_chunk_of [simp]: "cuts line a (chunk_of line s z) \<longleftrightarrow> s = a \<and> a \<le> z"
  by (auto simp: cuts_def chunk_of_def)

lemma ck_end_chunk_of [simp]: "ck_end (chunk_of line s z) = z"
  by (simp add: chunk_of_def)

fun chain :: "string \<Rightarrow> nat \<Rightarrow> text_chunk list \<Rightarrow> nat \<Rightarrow> bool" where
  "chain line a [] z = False"
| "chain line a [c] z = (cuts line a c \<and> ck_end c = z)"
| "chain line a (c # d # cs) z = (cuts line a c \<and> chain line (ck_end c) (d # cs) z)"

lemma chain_Cons: "cs \<noteq> [] \<Longrightarrow> chain line a (c # cs) z \<longleftrightarrow> cuts line a c \<and> chain line (ck_end c) cs z"
  by (cases cs) auto

lemma chain_bounds: "chain line a cs z \<Longrightarrow> a \<le> z"
  by (induction line a cs z rule: chain.induct) (auto simp: cuts_def)

lemma drop_take_split:
  assumes "a \<le> e" and "e \<le> z"
  shows "drop a (take z l) = drop a (take e l) @ drop e (take z l)"
proof -
  let ?x = "take z l"
  have "take e l = take e ?x" using assms by (simp add: min_def)
  moreover have "drop a ?x = drop a (take e ?x) @ drop e ?x"
  proof (cases "e \<le> length ?x")
    case True
    then have "length (take e ?x) = e" by simp
    with assms(1) have "drop (a - length (take e ?x)) (drop e ?x) = drop e ?x" by simp
    then show ?thesis using drop_append [of a "take e ?x" "drop e ?x"] by (simp only: append_take_drop_id)
  next
    case False
    then have "length ?x \<le> e" by (simp only: not_le less_imp_le)
    then have "take e ?x = ?x" "drop e ?x = []" by (rule take_all, rule drop_all)
    then show ?thesis by (simp only: append_Nil2)
  qed
  ultimately show ?thesis by simp
qed

lemma chain_text: "chain line a cs z \<Longrightarrow> concat (map ck_text cs) = drop a (take z line)"
proof (induction line a cs z rule: chain.induct)
  case (3 line a c d cs z)
  then have "a \<le> ck_end c" "ck_end c \<le> z" using chain_bounds by (auto simp: cuts_def)
  with 3 show ?case using drop_take_split [of a "ck_end c" z line] by (simp add: cuts_def)
qed (auto simp: cuts_def)

lemma chain_starts_within:
  "chain line a cs z \<Longrightarrow> c \<in> set cs \<Longrightarrow> a \<le> ck_start c \<and> ck_start c \<le> ck_end c \<and> ck_end c \<le> z"
proof (induction line a cs z rule: chain.induct)
  case (3 line a c' d cs z)
  then have "a \<le> ck_end c'" "ck_end c' \<le> z" "ck_start c' = a" using chain_bounds by (auto simp: cuts_def)
  with 3 show ?case by (cases "c = c'") (auto intro: order_trans)
qed (auto simp: cuts_def)

text \<open>Every column lies in a chunk, the last one included when it is at its end.\<close>

lemma chain_covers:
  "chain line a cs z \<Longrightarrow> a \<le> col \<Longrightarrow> col \<le> z \<Longrightarrow>
     \<exists>k < length cs. ck_start (cs ! k) \<le> col
       \<and> (col < ck_end (cs ! k) \<or> k = length cs - 1 \<and> col \<le> ck_end (cs ! k))"
proof (induction line a cs z rule: chain.induct)
  case (3 line a c d cs z)
  show ?case
  proof (cases "col < ck_end c")
    case True
    with 3 have "ck_start c \<le> col" by (auto simp: cuts_def)
    with True show ?thesis by (intro exI [of _ 0]) auto
  next
    case False
    with 3 obtain k where "k < length (d # cs)" "ck_start ((d # cs) ! k) \<le> col"
      "col < ck_end ((d # cs) ! k) \<or> k = length (d # cs) - 1 \<and> col \<le> ck_end ((d # cs) ! k)" by auto
    then show ?thesis by (intro exI [of _ "Suc k"]) auto
  qed
qed (auto simp: cuts_def)

definition break_ok :: "nat \<Rightarrow> nat \<Rightarrow> (nat \<times> int) option \<Rightarrow> bool" where
  "break_ok start off opp \<longleftrightarrow> (case opp of None \<Rightarrow> True | Some (i, w) \<Rightarrow> start \<le> i \<and> i \<le> off)"

lemma wrap_loop_chain:
  "start \<le> off \<Longrightarrow> off + length (concat rs) = length line \<Longrightarrow> break_ok start off opp
   \<Longrightarrow> chain line start (wrap_loop env m line (offsets off rs) w start opp) (length line)"
proof (induction rs arbitrary: off w start opp)
  case (Cons g rs)
  let ?gw = "ee_width env g"
  let ?off = "off + length g"
  have len: "?off + length (concat rs) = length line" using Cons.prems by simp
  have rest: "wrap_loop env m line (offsets ?off rs) w' s' opp' \<noteq> []
      \<and> chain line s' (wrap_loop env m line (offsets ?off rs) w' s' opp') (length line)"
    if "s' \<le> ?off" "break_ok s' ?off opp'" for w' s' opp'
    using Cons.IH [OF that(1) len that(2)] by (metis chain.simps(1))
  have step: "chain line start (chunk_of line start s' # wrap_loop env m line (offsets ?off rs) w' s' opp') (length line)"
    if "start \<le> s'" "s' \<le> ?off" "break_ok s' ?off opp'" for w' s' opp'
    using rest [OF that(2,3), of w'] that(1) by (simp add: chain_Cons)
  have opp_ok: "break_ok s' ?off (case offsets ?off rs of
        (g', off') # _ \<Rightarrow> if is_space g \<and> \<not> is_space g' then Some (off', w') else opp'
      | [] \<Rightarrow> opp')" if "s' \<le> ?off" "break_ok s' ?off opp'" for w' s' opp'
    using that by (cases rs) (auto simp: break_ok_def)
  have wider: "break_ok s' ?off opp'" if "break_ok s' off opp'" for s' opp'
    using that by (auto simp: break_ok_def split: option.splits)
  show ?case
  proof (cases "m < w + ?gw")
    case False
    then show ?thesis using Cons.prems wider by (simp add: Let_def) (intro rest [THEN conjunct2] opp_ok; simp)
  next
    case True
    show ?thesis
    proof (cases opp)
      case None
      then show ?thesis
        using True Cons.prems
        by (cases "start < off") (auto simp: Let_def break_ok_def intro!: step rest [THEN conjunct2] opp_ok)
    next
      case (Some p)
      then show ?thesis
        using True Cons.prems
        by (cases p) (auto simp: Let_def break_ok_def intro!: step opp_ok)
    qed
  qed
qed (simp add: break_ok_def)

lemma word_wrap_chain:
  assumes "line \<noteq> []" and "0 < m"
  shows "chain line 0 (word_wrap_line env line m) (length line)"
  using assms wrap_loop_chain [of 0 0 "runes line" line None env m 0]
  by (simp add: word_wrap_line_def segment_graphemes_def break_ok_def)

subsection \<open>The displayed lines\<close>

definition covered :: "visual_line list \<Rightarrow> nat \<Rightarrow> nat \<Rightarrow> bool" where
  "covered V i col \<longleftrightarrow>
     (\<exists>k < length V. vl_start (V ! k) \<le> col
        \<and> (col - vl_start (V ! k) < vl_length (V ! k)
           \<or> k = length V - 1 \<and> col - vl_start (V ! k) \<le> vl_length (V ! k)))"

lemma visual_lines_of_line: "v \<in> set (visual_lines_of env w i l) \<Longrightarrow> vl_line v = i"
  by (auto simp: visual_lines_of_def split: if_splits)

lemma visual_lines_of_covered:
  assumes "1 \<le> w" and "col \<le> length l"
  shows "covered (visual_lines_of env w i l) i col"
proof (cases "l = [] \<or> ee_width env l \<le> w")
  case True
  then show ?thesis using assms by (auto simp: visual_lines_of_def covered_def intro!: exI [of _ 0])
next
  case False
  then have ch: "chain l 0 (word_wrap_line env l w) (length l)" using assms by (intro word_wrap_chain) auto
  from chain_covers [OF this _ assms(2)] obtain k where k: "k < length (word_wrap_line env l w)"
    "ck_start (word_wrap_line env l w ! k) \<le> col"
    "col < ck_end (word_wrap_line env l w ! k) \<or> k = length (word_wrap_line env l w) - 1
       \<and> col \<le> ck_end (word_wrap_line env l w ! k)" by auto
  let ?c = "word_wrap_line env l w ! k"
  have "col - ck_start ?c < ck_end ?c - ck_start ?c
      \<or> k = length (word_wrap_line env l w) - 1 \<and> col - ck_start ?c \<le> ck_end ?c - ck_start ?c"
    using k(2,3) by (auto intro: diff_less_mono diff_le_mono)
  with k(1,2) have "\<exists>k < length (word_wrap_line env l w). ck_start (word_wrap_line env l w ! k) \<le> col
      \<and> (col - ck_start (word_wrap_line env l w ! k)
            < ck_end (word_wrap_line env l w ! k) - ck_start (word_wrap_line env l w ! k)
         \<or> k = length (word_wrap_line env l w) - 1 \<and> col - ck_start (word_wrap_line env l w ! k)
            \<le> ck_end (word_wrap_line env l w ! k) - ck_start (word_wrap_line env l w ! k))" by blast
  then show ?thesis using False by (simp add: visual_lines_of_def covered_def cong: conj_cong)
qed

lemma build_map_split:
  "build_visual_line_map env (A @ l # C) w =
     concat (map (\<lambda>(i, l). visual_lines_of env w i l) (enumerate 0 A)) @ visual_lines_of env w (length A) l
     @ concat (map (\<lambda>(i, l). visual_lines_of env w i l) (enumerate (Suc (length A)) C))"
  by (simp add: build_visual_line_map_def enumerate_append_eq)

lemma map_line_bound: "v \<in> set (build_visual_line_map env ls w) \<Longrightarrow> vl_line v < length ls"
  by (auto simp: build_visual_line_map_def in_set_enumerate_eq dest: visual_lines_of_line)

lemma length_nonempty: "k < length xs \<Longrightarrow> xs \<noteq> []"
  by auto

lemma last_segment_append:
  assumes "vls = V1 @ V @ V2" and "V \<noteq> []" and "\<forall>v \<in> set V. vl_line v = n" and "\<forall>v \<in> set V2. vl_line v \<noteq> n"
  shows "last_segment vls (length V1 + (length V - 1))"
proof (cases V2)
  case Nil
  with assms show ?thesis by (cases V) (simp_all add: last_segment_def)
next
  case (Cons v V2')
  obtain W w where V: "V = W @ [w]" using assms(2) by (cases V rule: rev_cases) auto
  with assms Cons show ?thesis by (simp add: last_segment_def nth_append)
qed

lemma cursor_covered:
  assumes "text_ok t" and "1 \<le> w" and "vls = build_visual_line_map env (ts_lines t) w"
  shows "\<exists>i < length vls. cursor_in_segment vls t i"
proof -
  from assms(1) obtain A b a C where t: "t = at_cursor A b a C" by (rule text_okE)
  let ?V1 = "concat (map (\<lambda>(i, l). visual_lines_of env w i l) (enumerate 0 A))"
  let ?V = "visual_lines_of env w (length A) (b @ a)"
  let ?V2 = "concat (map (\<lambda>(i, l). visual_lines_of env w i l) (enumerate (Suc (length A)) C))"
  have vls: "vls = ?V1 @ ?V @ ?V2" using assms(3) by (simp add: t build_map_split)
  obtain k where k: "k < length ?V" "vl_start (?V ! k) \<le> length b"
    "length b - vl_start (?V ! k) < vl_length (?V ! k)
      \<or> k = length ?V - 1 \<and> length b - vl_start (?V ! k) \<le> vl_length (?V ! k)"
    using visual_lines_of_covered [OF assms(2), of "length b" "b @ a" env "length A"] by (auto simp: covered_def)
  let ?i = "length ?V1 + k"
  have nth: "vls ! ?i = ?V ! k" using k(1) by (simp add: vls nth_append)
  have line: "vl_line (?V ! k) = length A" using k(1) by (intro visual_lines_of_line [of _ env w _ "b @ a"] nth_mem)
  have "last_segment vls ?i" if "k = length ?V - 1"
  proof -
    have "\<forall>v \<in> set ?V2. vl_line v \<noteq> length A"
      by (auto simp: in_set_enumerate_eq dest: visual_lines_of_line)
    moreover have "\<forall>v \<in> set ?V. vl_line v = length A" by (auto dest: visual_lines_of_line)
    moreover have "?V \<noteq> []" using k(1) by (rule length_nonempty)
    ultimately show ?thesis unfolding that using last_segment_append [OF vls] by blast
  qed
  with k nth line have "cursor_in_segment vls t ?i"
    by (auto simp: cursor_in_segment_def Let_def t)
  moreover have "?i < length vls" using k(1) by (simp add: vls)
  ultimately show ?thesis by blast
qed

lemma find_current_covers:
  assumes "text_ok t" and "1 \<le> w" and "vls = build_visual_line_map env (ts_lines t) w"
  shows "\<exists>i < length vls. find_current_visual_line vls t = int i \<and> cursor_in_segment vls t i"
proof -
  obtain j where j: "j < length vls" "cursor_in_segment vls t j" using cursor_covered [OF assms] by blast
  then have "find (cursor_in_segment vls t) [0..<length vls] \<noteq> None" by (auto simp: find_None_iff)
  then obtain i where i: "find (cursor_in_segment vls t) [0..<length vls] = Some i" by auto
  then have "i < length vls \<and> cursor_in_segment vls t i" by (auto simp: find_Some_iff)
  with i show ?thesis by (auto simp: find_current_visual_line_def)
qed

subsection \<open>Moves\<close>

text \<open>A move: another place in the same text, and no action to go on with.\<close>

definition moves :: "editor \<Rightarrow> editor \<Rightarrow> bool" where
  "moves e e' \<longleftrightarrow>
     (\<exists>t. text_ok t \<and> ts_lines t = ts_lines (ed_text e)
        \<and> edited e e' t (ed_undo e) NoAction (ed_kills e))"

lemma movesI:
  "text_ok t \<Longrightarrow> ts_lines t = ts_lines (ed_text e) \<Longrightarrow> edited e e' t (ed_undo e) NoAction (ed_kills e) \<Longrightarrow> moves e e'"
  by (auto simp: moves_def)

lemma moves_to_visual_line:
  assumes "text_ok (ed_text e)" and "1 \<le> ed_width e" and "ed_last e = NoAction"
    and "vls = build_visual_line_map env (ts_lines (ed_text e)) (ed_width e)"
    and "0 \<le> target" and "target < int (length vls)"
  shows "\<exists>e'. move_to_visual_line vls (find_current_visual_line vls (ed_text e)) target e = Some e' \<and> moves e e'"
proof -
  obtain i where i: "i < length vls" "find_current_visual_line vls (ed_text e) = int i"
    "cursor_in_segment vls (ed_text e) i" using find_current_covers [OF assms(1,2,4)] by blast
  obtain j where j: "target = int j" "j < length vls" using assms(5,6) by (metis nonneg_int_cases of_nat_less_iff)
  have start: "vl_start (vls ! i) \<le> ts_col (ed_text e)" using i(3) by (simp add: cursor_in_segment_def Let_def)
  obtain col preferred where col: "compute_vertical_move_column (ed_preferred e)
      (ts_col (ed_text e) - vl_start (vls ! i)) (segment_max vls i) (segment_max vls j) = (col, preferred)"
    by (cases "compute_vertical_move_column (ed_preferred e)
      (ts_col (ed_text e) - vl_start (vls ! i)) (segment_max vls i) (segment_max vls j)")
  have line: "vl_line (vls ! j) < length (ts_lines (ed_text e))"
    using j(2) assms(4) by (intro map_line_bound [of _ env _ "ed_width e"]) auto
  let ?t = "(ed_text e)\<lparr>ts_line := vl_line (vls ! j),
      ts_col := min (vl_start (vls ! j) + col) (length (ts_lines (ed_text e) ! vl_line (vls ! j)))\<rparr>"
  have "moves e (e\<lparr>ed_text := ?t, ed_preferred := preferred\<rparr>)"
    using line assms(3) by (intro movesI [of ?t]) (simp_all add: text_ok_def edited_def popup_ok_def)
  with i j start col line show ?thesis
    by (simp add: move_to_visual_line_def Let_def line_at_def)
qed

lemma set_col_moves:
  assumes "text_ok ((ed_text e)\<lparr>ts_line := i, ts_col := c\<rparr>)"
  shows "moves e (set_cursor_col c (move_line i (e\<lparr>ed_last := NoAction\<rparr>)))"
  using assms by (intro movesI) (auto simp: edited_def editor_defs popup_ok_def)

lemma set_col_moves':
  assumes "text_ok ((ed_text e)\<lparr>ts_col := c\<rparr>)"
  shows "moves e (set_cursor_col c (e\<lparr>ed_last := NoAction\<rparr>))"
  using assms by (intro movesI) (auto simp: edited_def editor_defs popup_ok_def)

end
