(* ===== verification/EditorSafe.thy ===== *)
theory EditorSafe
  imports EditorLayout
begin

text \<open>
  No input makes the editor panic, but two: every operation keeps its invariant.
\<close>

subsection \<open>Moves\<close>

lemma editor_okD:
  assumes "editor_ok e"
  shows "text_ok (ed_text e)" "ring_ok (ed_kills e)" "undo_ok (ed_undo e)" "1 \<le> ed_width e"
  using assms by (simp_all add: editor_ok_def)

lemma moves_ok: "editor_ok e \<Longrightarrow> moves e e' \<Longrightarrow> editor_ok e'"
  by (auto simp: moves_def editor_okD intro: edited_ok)

lemma moves_if: "editor_ok e \<Longrightarrow> moves (e\<lparr>ed_last := NoAction\<rparr>) e' \<Longrightarrow> editor_ok e'"
proof (rule moves_ok [of "e\<lparr>ed_last := NoAction\<rparr>"])
  assume "editor_ok e"
  then show "editor_ok (e\<lparr>ed_last := NoAction\<rparr>)" by (simp add: editor_ok_def yank_ok_def popup_ok_def)
qed

lemma moves_stay: "text_ok (ed_text e) \<Longrightarrow> moves e (e\<lparr>ed_last := NoAction\<rparr>)"
  by (intro movesI [of "ed_text e"]) (simp_all add: edited_def popup_ok_def)

lemma text_ok_same_line:
  "text_ok t \<Longrightarrow> c \<le> length (ts_lines t ! ts_line t) \<Longrightarrow> text_ok (t\<lparr>ts_col := c\<rparr>)"
  by (simp add: text_ok_def)

lemma move_line_start_moves: "text_ok (ed_text e) \<Longrightarrow> moves e (move_to_line_start e)"
  unfolding move_to_line_start_def by (intro set_col_moves' text_ok_same_line) auto

lemma move_line_end_moves: "text_ok (ed_text e) \<Longrightarrow> \<exists>e'. move_to_line_end e = Some e' \<and> moves e e'"
  by (auto simp: move_to_line_end_def current_line_def line_at_def text_ok_def intro!: set_col_moves')

lemma moves_no_action:
  assumes "moves e e'" and "ed_last e = NoAction"
  shows "ed_last e' = NoAction"
  using assms by (auto simp: moves_def edited_def)

lemma move_left_moves:
  assumes "text_ok (ed_text e)" and "ed_last e = NoAction"
  shows "\<exists>e'. move_left e = Some e' \<and> moves e e'"
proof -
  from assms(1) obtain A b a C where at: "ed_text e = at_cursor A b a C" by (rule text_okE)
  have last: "e\<lparr>ed_last := NoAction\<rparr> = e" using assms(2) by simp
  show ?thesis
  proof (rule before_cases [of b _ A])
    assume "b \<noteq> []"
    have "text_ok ((ed_text e)\<lparr>ts_col := length b - last_rune_len b\<rparr>)"
      by (simp add: at text_ok_def nth_append)
    from set_col_moves' [OF this] \<open>b \<noteq> []\<close> show ?thesis by (simp add: move_left_def at last Let_def)
  next
    fix p A'
    assume *: "b = []" "A = A' @ [p]"
    have "text_ok ((ed_text e)\<lparr>ts_line := length A', ts_col := length p\<rparr>)"
      by (simp add: at * text_ok_def nth_append)
    from set_col_moves [OF this] * show ?thesis by (simp add: move_left_def at last Let_def)
  next
    assume "b = []" "A = []"
    with moves_stay [OF assms(1)] show ?thesis by (simp add: move_left_def at last Let_def)
  qed
qed

lemma move_right_moves:
  assumes "text_ok (ed_text e)" and "ed_last e = NoAction" and "1 \<le> ed_width e"
    and "vls = build_visual_line_map env (ts_lines (ed_text e)) (ed_width e)"
  shows "\<exists>e'. move_right vls (find_current_visual_line vls (ed_text e)) e = Some e' \<and> moves e e'"
proof -
  from assms(1) obtain A b a C where at: "ed_text e = at_cursor A b a C" by (rule text_okE)
  have last: "e\<lparr>ed_last := NoAction\<rparr> = e" using assms(2) by simp
  show ?thesis
  proof (rule after_cases [of a _ C])
    assume "a \<noteq> []"
    have "text_ok ((ed_text e)\<lparr>ts_col := length b + rune_len a\<rparr>)"
      by (simp add: at text_ok_def nth_append rune_len_le)
    from set_col_moves' [OF this] \<open>a \<noteq> []\<close> show ?thesis by (simp add: move_right_def at last Let_def)
  next
    fix n C'
    assume *: "a = []" "C = n # C'"
    have "text_ok ((ed_text e)\<lparr>ts_line := Suc (length A), ts_col := 0\<rparr>)"
      by (simp add: at * text_ok_def nth_append)
    from set_col_moves [OF this] * show ?thesis by (simp add: move_right_def at last Let_def)
  next
    assume *: "a = []" "C = []"
    obtain i where i: "i < length vls" "find_current_visual_line vls (ed_text e) = int i"
      "cursor_in_segment vls (ed_text e) i" using find_current_covers [OF assms(1,3,4)] by blast
    then have "vl_start (vls ! i) \<le> length b" by (simp add: cursor_in_segment_def Let_def at)
    moreover have "moves e (e\<lparr>ed_preferred := Some (length b - vl_start (vls ! i))\<rparr>)"
      using assms(1,2) by (intro movesI [of "ed_text e"]) (simp_all add: edited_def popup_ok_def)
    ultimately show ?thesis using i(1,2) * by (simp add: move_right_def at Let_def)
  qed
qed

lemma text_ok_lines: "text_ok t \<Longrightarrow> ts_lines t \<noteq> []"
  by (auto simp: text_ok_def)

lemma move_cursor_moves:
  assumes "text_ok (ed_text e)" and "1 \<le> ed_width e" and "dl = 0 \<or> dc = 0"
  shows "\<exists>e'. move_cursor env dl dc e = Some e' \<and> moves (e\<lparr>ed_last := NoAction\<rparr>) e'"
proof -
  let ?e1 = "e\<lparr>ed_last := NoAction\<rparr>"
  let ?vls = "build_visual_line_map env (ts_lines (ed_text ?e1)) (ed_width ?e1)"
  let ?target = "find_current_visual_line ?vls (ed_text ?e1) + dl"
  have ok: "text_ok (ed_text ?e1)" "1 \<le> ed_width ?e1" "ed_last ?e1 = NoAction" using assms by simp_all
  have stay: "moves ?e1 ?e1" using moves_stay [OF ok(1)] by simp
  show ?thesis
  proof (cases "dl \<noteq> 0 \<and> 0 \<le> ?target \<and> ?target < int (length ?vls)")
    case True
    with moves_to_visual_line [OF ok refl, of ?target env] assms(3) show ?thesis
      by (auto simp: move_cursor_def Let_def)
  next
    case False
    with stay move_left_moves [OF ok(1,3)] move_right_moves [OF ok(1,3,2) refl, of env] show ?thesis
      by (auto simp: move_cursor_def Let_def)
  qed
qed

lemma map_nonempty:
  assumes "text_ok t" and "1 \<le> w"
  shows "build_visual_line_map env (ts_lines t) w \<noteq> []"
  using cursor_covered [OF assms refl, of env] by auto

lemma page_scroll_moves:
  assumes "text_ok (ed_text e)" and "1 \<le> ed_width e"
  shows "\<exists>e'. page_scroll env dir e = Some e' \<and> moves (e\<lparr>ed_last := NoAction\<rparr>) e'"
proof -
  let ?e1 = "e\<lparr>ed_last := NoAction\<rparr>"
  let ?vls = "build_visual_line_map env (ts_lines (ed_text ?e1)) (ed_width ?e1)"
  have "?vls \<noteq> []" using map_nonempty [of "ed_text e" "ed_width e" env] assms by simp
  then have "0 < int (length ?vls)" by simp
  then show ?thesis
    using moves_to_visual_line [of ?e1 ?vls env] assms by (simp add: page_scroll_def Let_def)
qed

lemma move_word_backwards_moves:
  assumes "text_ok (ed_text e)"
  shows "\<exists>e'. move_word_backwards env e = Some e' \<and> moves e e'"
proof -
  from assms obtain A b a C where at: "ed_text e = at_cursor A b a C" by (rule text_okE)
  show ?thesis
  proof (rule before_cases [of b _ A])
    assume "b \<noteq> []"
    have "text_ok ((ed_text e)\<lparr>ts_col := length (before_word env b)\<rparr>)"
      using prefix_length_le [OF before_word_prefix [of env b]] by (simp add: at text_ok_def nth_append)
    from set_col_moves' [OF this] \<open>b \<noteq> []\<close> show ?thesis by (simp add: move_word_backwards_def at Let_def)
  next
    fix p A'
    assume *: "b = []" "A = A' @ [p]"
    have "text_ok ((ed_text e)\<lparr>ts_line := length A', ts_col := length p\<rparr>)"
      by (simp add: at * text_ok_def nth_append)
    from set_col_moves [OF this] * show ?thesis by (simp add: move_word_backwards_def at Let_def)
  next
    assume "b = []" "A = []"
    with moves_stay [OF assms] show ?thesis by (simp add: move_word_backwards_def at Let_def)
  qed
qed

lemma move_word_forwards_moves:
  assumes "text_ok (ed_text e)"
  shows "\<exists>e'. move_word_forwards env e = Some e' \<and> moves e e'"
proof -
  from assms obtain A b a C where at: "ed_text e = at_cursor A b a C" by (rule text_okE)
  show ?thesis
  proof (rule after_cases [of a _ C])
    assume "a \<noteq> []"
    have "text_ok ((ed_text e)\<lparr>ts_col := length b + (length a - length (after_word env a))\<rparr>)"
      by (simp add: at text_ok_def nth_append)
    from set_col_moves' [OF this] \<open>a \<noteq> []\<close> show ?thesis by (simp add: move_word_forwards_def at Let_def)
  next
    fix n C'
    assume *: "a = []" "C = n # C'"
    have "text_ok ((ed_text e)\<lparr>ts_line := Suc (length A), ts_col := 0\<rparr>)"
      by (simp add: at * text_ok_def nth_append)
    from set_col_moves [OF this] * show ?thesis by (simp add: move_word_forwards_def at Let_def)
  next
    assume "a = []" "C = []"
    with moves_stay [OF assms] show ?thesis by (simp add: move_word_forwards_def at Let_def)
  qed
qed

subsection \<open>Jumps\<close>

lemma jump_forward_from_found:
  "jump_forward_from ch ls i = Some (j, k) \<Longrightarrow> i \<le> j \<and> j < i + length ls \<and> k + length ch \<le> length (ls ! (j - i))"
proof (induction ch ls i rule: jump_forward_from.induct)
  case (2 ch l ls i)
  show ?case
  proof (cases "find_sub l ch")
    case None
    with 2 have "Suc i \<le> j \<and> j < Suc i + length ls \<and> k + length ch \<le> length (ls ! (j - Suc i))" by simp
    then show ?thesis by (auto simp: nth_Cons' Suc_diff_le [symmetric])
  qed (use 2 in \<open>auto dest: find_sub_bound\<close>)
qed simp

lemma jump_backward_from_found:
  "jump_backward_from ch ls i = Some (j, k) \<Longrightarrow> j < i \<and> k + length ch \<le> length (ls ! j)"
  by (induction ch ls i rule: jump_backward_from.induct)
    (auto dest: find_sub_last_bound split: option.splits)

lemma jump_target_inside:
  assumes "text_ok t" and "jump_target ch dir t = Some (Some (i, k))"
  shows "text_ok (t\<lparr>ts_line := i, ts_col := k\<rparr>)"
proof -
  from assms(1) obtain A b a C where t: "t = at_cursor A b a C" by (rule text_okE)
  show ?thesis
  proof (cases dir)
    case Forward
    with assms(2) have "(i = length A \<and> a \<noteq> [] \<and> (\<exists>j. k = length b + 1 + j \<and> find_sub (drop (length b + 1) (b @ a)) ch = Some j))
        \<or> jump_forward_from ch C (Suc (length A)) = Some (i, k)"
      by (auto simp: jump_target_def t split: if_splits option.splits)
    then show ?thesis
    proof
      assume "jump_forward_from ch C (Suc (length A)) = Some (i, k)"
      from jump_forward_from_found [OF this] show ?thesis
        by (auto simp: text_ok_def t nth_append nth_Cons' Suc_le_eq)
    next
      assume "i = length A \<and> a \<noteq> [] \<and> (\<exists>j. k = length b + 1 + j \<and> find_sub (drop (length b + 1) (b @ a)) ch = Some j)"
      then show ?thesis
        by (cases a) (auto simp: text_ok_def t nth_append dest!: find_sub_bound)
    qed
  next
    case Backward
    with assms(2) have "(i = length A \<and> find_sub_last b ch = Some k)
        \<or> jump_backward_from ch (A @ (b @ a) # C) (length A) = Some (i, k)"
      by (auto simp: jump_target_def t split: if_splits option.splits)
    then show ?thesis
      by (auto simp: text_ok_def t nth_append dest!: find_sub_last_bound jump_backward_from_found)
  qed
qed

text \<open>The jump that panics: forward, with the cursor at the end of its line.\<close>

definition at_line_end :: "text_state \<Rightarrow> bool" where
  "at_line_end t \<longleftrightarrow> ts_col t = length (ts_lines t ! ts_line t)"

lemma jump_to_char_moves:
  assumes "text_ok (ed_text e)" and "\<not> (dir = Forward \<and> at_line_end (ed_text e))"
  shows "\<exists>e'. jump_to_char ch dir e = Some e' \<and> moves e e'"
proof -
  from assms(1) obtain A b a C where at: "ed_text e = at_cursor A b a C" by (rule text_okE)
  have "\<exists>target. jump_target ch dir (ed_text e) = Some target"
    using assms(2) by (cases dir; cases a) (auto simp: jump_target_def at at_line_end_def nth_append)
  then obtain target where target: "jump_target ch dir (ed_text e) = Some target" by blast
  show ?thesis
  proof (cases target)
    case None
    with target moves_stay [OF assms(1)] show ?thesis by (simp add: jump_to_char_def)
  next
    case (Some p)
    obtain i k where "p = (i, k)" by (cases p)
    with Some target set_col_moves [OF jump_target_inside [OF assms(1)], of ch dir i k] show ?thesis
      by (simp add: jump_to_char_def)
  qed
qed

subsection \<open>Operations keep the invariant\<close>

definition keeps :: "editor option \<Rightarrow> bool" where
  "keeps r \<longleftrightarrow> (\<exists>e'. r = Some e' \<and> editor_ok e')"

lemma keeps_Some [simp]: "keeps (Some e) \<longleftrightarrow> editor_ok e"
  by (simp add: keeps_def)

lemma keeps_bind: "keeps r \<Longrightarrow> (\<And>e'. r = Some e' \<Longrightarrow> editor_ok e' \<Longrightarrow> keeps (f e')) \<Longrightarrow> keeps (Option.bind r f)"
  by (auto simp: keeps_def)

lemma keeps_moves: "editor_ok e \<Longrightarrow> \<exists>e'. r = Some e' \<and> moves e e' \<Longrightarrow> keeps r"
  by (auto simp: keeps_def intro: moves_ok)

lemma keeps_moves': "editor_ok e \<Longrightarrow> \<exists>e'. r = Some e' \<and> moves (e\<lparr>ed_last := NoAction\<rparr>) e' \<Longrightarrow> keeps r"
  by (auto simp: keeps_def intro: moves_if)

lemma kills_ok: "editor_ok e \<Longrightarrow> kills e e' \<Longrightarrow> editor_ok e'"
proof -
  assume e: "editor_ok e" and k: "kills e e'"
  show ?thesis
  proof (cases "only_popup e e'")
    case True
    then have "edited e e' (ed_text e) (ed_undo e) (ed_last e) (ed_kills e)" by (simp add: only_popup_def)
    then show ?thesis by (rule edited_ok [OF e]) (use e in \<open>auto simp: editor_ok_def yank_ok_def\<close>)
  next
    case False
    with k obtain s backward t' where "killed s backward (ed_text e) t'"
      "edited e e' t' (undo_push (ed_text e) (ed_undo e)) KillAction
         (kill_push s backward (ed_last e = KillAction) (ed_kills e))" by (auto simp: kills_def)
    with e show ?thesis by (auto simp: killed_def editor_okD ring_ok_push intro: edited_ok)
  qed
qed

lemma keeps_kills: "editor_ok e \<Longrightarrow> \<exists>e'. r = Some e' \<and> kills e e' \<Longrightarrow> keeps r"
  by (auto simp: keeps_def intro: kills_ok)

lemma keeps_edited:
  assumes "editor_ok e" and "\<exists>e'. r = Some e' \<and> edited e e' t us la (ed_kills e)" and "text_ok t"
    and "us = ed_undo e \<or> us = undo_push (ed_text e) (ed_undo e)" and "la \<noteq> YankAction"
  shows "keeps r"
  using assms(2,5) edited_ok [OF assms(1) _ assms(3) editor_okD(2) [OF assms(1)] assms(4)] by (auto simp: keeps_def)

lemma only_popup_ok: "editor_ok e \<Longrightarrow> only_popup e e' \<Longrightarrow> editor_ok e'"
  by (rule kills_ok) (auto simp: kills_def)

lemma field_ok [simp]:
  "editor_ok (e\<lparr>ed_jump := j\<rparr>) = editor_ok e" "editor_ok (e\<lparr>ed_paste_buffer := b\<rparr>) = editor_ok e"
  "editor_ok (e\<lparr>ed_in_paste := i\<rparr>) = editor_ok e" "editor_ok (e\<lparr>ed_log := l\<rparr>) = editor_ok e"
  "editor_ok (e\<lparr>ed_pastes := ps\<rparr>) = editor_ok e" "editor_ok (e\<lparr>ed_paste_counter := n\<rparr>) = editor_ok e"
  "editor_ok (e\<lparr>ed_scroll := z\<rparr>) = editor_ok e"
  by (simp_all add: editor_ok_def yank_ok_def popup_ok_def)

lemma fire_ok [simp]: "editor_ok (fire_on_change e) = editor_ok e"
  by (simp add: fire_on_change_def fire_on_change_text_def)

lemma push_undo_ok: "editor_ok e \<Longrightarrow> editor_ok (push_undo_snapshot e)"
  by (rule edited_ok [of e _ "ed_text e" "undo_push (ed_text e) (ed_undo e)" "ed_last e" "ed_kills e"])
    (auto simp: push_undo_snapshot_def edited_def popup_ok_def editor_ok_def yank_ok_def)

lemma no_action_ok: "editor_ok e \<Longrightarrow> editor_ok (e\<lparr>ed_last := NoAction\<rparr>)"
  by (simp add: editor_ok_def yank_ok_def popup_ok_def)

lemma no_history_ok: "editor_ok e \<Longrightarrow> editor_ok (e\<lparr>ed_history_index := - 1\<rparr>)"
  by (simp add: editor_ok_def yank_ok_def popup_ok_def)

lemma begin_edit_ok: "editor_ok e \<Longrightarrow> editor_ok (begin_edit e)"
  using push_undo_ok [OF no_action_ok [OF no_history_ok], of e] by (simp add: begin_edit_def)

lemma set_text_ok:
  assumes "editor_ok e" and "ed_last e = NoAction" and "text_ok t"
  shows "editor_ok (e\<lparr>ed_text := t, ed_preferred := p\<rparr>)"
  using assms by (simp add: editor_ok_def yank_ok_def popup_ok_def)

definition keeps_or :: "bool \<Rightarrow> editor option \<Rightarrow> bool" where
  "keeps_or p r \<longleftrightarrow> keeps r \<or> (p \<and> r = None)"

lemma keeps_orI: "keeps r \<Longrightarrow> keeps_or p r"
  by (simp add: keeps_or_def)

lemma take_completion_ok:
  assumes "editor_ok e" and "provider_ok env" and "ee_provider env = Some p"
  shows "keeps_or (ts_col (ed_text e) < length typed) (take_completion p it typed e)"
proof -
  let ?e1 = "(push_undo_snapshot e)\<lparr>ed_last := NoAction\<rparr>"
  have ok: "editor_ok ?e1" using assms(1) by (intro no_action_ok push_undo_ok)
  have "case pv_apply p (ed_text ?e1) it typed of None \<Rightarrow> ts_col (ed_text ?e1) < length typed | Some t \<Rightarrow> text_ok t"
    using assms(2,3) editor_okD(1) [OF ok] unfolding provider_ok_def applies_ok_def by blast
  with set_text_ok [OF ok] show ?thesis
    by (auto simp: take_completion_def set_cursor_col_def Let_def keeps_def keeps_or_def split: option.splits)
qed

lemma cancel_ok: "editor_ok e \<Longrightarrow> editor_ok (cancel_autocomplete e)"
  by (erule only_popup_ok) simp

lemma try_trigger_ok: "editor_ok e \<Longrightarrow> editor_ok (try_trigger_autocomplete env x e)"
  by (erule only_popup_ok) simp

lemma apply_force_keeps:
  assumes "editor_ok e" and "provider_ok env" and "ee_provider env = Some p" and "length typed \<le> ts_col (ed_text e)"
  shows "keeps (apply_force_completion p it typed e)" "keeps (map_option (force_list env) (apply_force_completion p it typed e))"
  using take_completion_ok [OF assms(1-3), of typed it] assms(4) only_popup_ok [OF _ only_popup_force_list]
  by (auto simp: apply_force_completion_def keeps_def keeps_or_def)

lemma force_file_ok:
  assumes e: "editor_ok e" and p: "provider_ok env"
  shows "keeps (force_file_autocomplete env e)"
proof (cases "ee_provider env")
  case (Some q)
  have "length typed \<le> ts_col (ed_text e)" if "pv_force q (ed_text e) = Some (typed, items)" for typed items
    using p Some that editor_okD(1) [OF e] by (auto simp: provider_ok_def forces_ok_def)
  with e Some apply_force_keeps [OF e p Some] only_popup_ok [OF e only_popup_show] show ?thesis
    by (auto simp: force_file_autocomplete_def cancel_ok try_trigger_ok split: option.split)
qed (simp add: force_file_autocomplete_def e)

lemma handle_tab_ok:
  assumes "editor_ok e" and "provider_ok env"
  shows "keeps (handle_tab_completion env e)"
proof -
  from editor_okD(1) [OF assms(1)] obtain A b a C where "ed_text e = at_cursor A b a C" by (rule text_okE)
  with assms show ?thesis by (simp add: handle_tab_completion_def try_trigger_ok force_file_ok)
qed

end
