(* ===== verification/EditorRun.thy ===== *)
theory EditorRun
  imports EditorSafe
begin

text \<open>
  Every key keeps the invariant of the editor, and so does every sequence of operations on it.
\<close>

subsection \<open>Editing\<close>

lemma insert_character_keeps:
  assumes "editor_ok e" and "skip \<Longrightarrow> ed_last e \<noteq> YankAction"
  shows "keeps (insert_character env ch skip e)"
proof -
  from editor_okD(1) [OF assms(1)] obtain A b a C where at: "ed_text e = at_cursor A b a C" by (rule text_okE)
  from insert_character_at [OF at] show ?thesis
    by (rule keeps_edited [OF assms(1)]) (use assms(2) in \<open>auto simp: undo_before_typing\<close>)
qed

lemma insert_characters_keeps:
  "editor_ok e \<Longrightarrow> ed_last e \<noteq> YankAction \<Longrightarrow> keeps (insert_characters env rs e)"
proof (induction rs arbitrary: e)
  case (Cons r rs)
  from editor_okD(1) [OF Cons.prems(1)] obtain A b a C where "ed_text e = at_cursor A b a C" by (rule text_okE)
  from insert_character_at [OF this, of env r True] obtain e' where e': "insert_character env r True e = Some e'"
    "ed_last e' = ed_last e" by (auto simp: edited_def)
  moreover have "editor_ok e'" using insert_character_keeps [OF Cons.prems(1), of True env r] Cons.prems(2) e'
    by simp
  ultimately show ?case using Cons by simp
qed simp

lemma insert_internal_keeps:
  assumes "editor_ok e" and "ed_last e \<noteq> YankAction"
  shows "keeps (insert_text_at_cursor_internal s e)"
proof (cases "s = []")
  case True
  with assms show ?thesis by (simp add: insert_text_at_cursor_internal_def)
next
  case False
  with insert_internal_at [OF editor_okD(1) [OF assms(1)]] have "\<exists>e'. insert_text_at_cursor_internal s e = Some e'
      \<and> edited e e' (insert_state (unify_newlines s) (ed_text e)) (ed_undo e) (ed_last e) (ed_kills e)" by blast
  then show ?thesis using assms editor_okD(1) [OF assms(1)] by (auto intro: keeps_edited)
qed

lemma insert_text_keeps:
  assumes "editor_ok e"
  shows "keeps (insert_text_at_cursor s e)"
proof (cases "s = []")
  case False
  have "editor_ok ((push_undo_snapshot e)\<lparr>ed_last := NoAction, ed_history_index := - 1\<rparr>)"
    using no_history_ok [OF no_action_ok [OF push_undo_ok [OF assms]]] by simp
  with False show ?thesis by (simp add: insert_text_at_cursor_def insert_internal_keeps)
qed (simp add: insert_text_at_cursor_def assms)

lemma begin_edit_last [simp]: "ed_last (begin_edit e) = NoAction"
  by (simp add: begin_edit_def push_undo_snapshot_def)

lemma handle_paste_keeps:
  assumes "editor_ok e"
  shows "keeps (handle_paste env s e)"
proof -
  let ?e1 = "begin_edit e"
  have e1: "editor_ok ?e1" using assms by (rule begin_edit_ok)
  from editor_okD(1) [OF e1] obtain A b a C where at: "ed_text ?e1 = at_cursor A b a C" by (rule text_okE)
  have "space_before_path (at_cursor A b a C) (clean_paste s) \<noteq> None" by (simp add: space_before_path_def)
  then obtain f where f: "space_before_path (ed_text ?e1) (clean_paste s) = Some f" unfolding at by blast
  have "editor_ok (?e1\<lparr>ed_paste_counter := i, ed_pastes := ps\<rparr>)" for i ps using e1 by simp
  with e1 f show ?thesis
    by (simp add: handle_paste_def Let_def insert_internal_keeps insert_characters_keeps)
qed

lemma add_new_line_keeps: "editor_ok e \<Longrightarrow> keeps (add_new_line e)"
proof -
  assume e: "editor_ok e"
  from editor_okD(1) [OF e] obtain A b a C where at: "ed_text e = at_cursor A b a C" by (rule text_okE)
  from add_new_line_at [OF at] show ?thesis by (rule keeps_edited [OF e]) auto
qed

lemma backspaced_ok: "text_ok t \<Longrightarrow> text_ok (backspaced t)"
  by (erule text_okE) (simp add: backspaced_at)

lemma forward_deleted_ok: "text_ok t \<Longrightarrow> text_ok (forward_deleted t)"
  by (erule text_okE) (simp add: forward_deleted_at)

lemma handle_backspace_keeps: "editor_ok e \<Longrightarrow> keeps (handle_backspace env e)"
  by (rule keeps_edited [OF _ handle_backspace_ok]) (auto simp: editor_okD backspaced_ok)

lemma handle_forward_delete_keeps: "editor_ok e \<Longrightarrow> keeps (handle_forward_delete env e)"
  by (rule keeps_edited [OF _ handle_forward_delete_ok]) (auto simp: editor_okD forward_deleted_ok)

lemma yank_keeps:
  assumes "editor_ok e"
  shows "keeps (yank e)"
proof (cases "ed_kills e = []")
  case True
  with assms show ?thesis by (simp add: yank_def)
next
  case False
  from yank_at [OF editor_okD(1) [OF assms] False] obtain e' where e': "yank e = Some e'"
    "edited e e' (insert_state (kill_peek (ed_kills e)) (ed_text e)) (undo_push (ed_text e) (ed_undo e))
       YankAction (ed_kills e)" by blast
  have "editor_ok e'"
    using e'(2) by (rule edited_ok [OF assms]) (use False editor_okD [OF assms] in auto)
  with e' show ?thesis by simp
qed

lemma yank_pop_keeps:
  assumes "editor_ok e"
  shows "keeps (yank_pop e)"
proof (cases "ed_last e \<noteq> YankAction \<or> length (ed_kills e) \<le> 1")
  case True
  with assms show ?thesis by (simp add: yank_pop_def)
next
  case False
  then obtain t where t: "text_ok t" "ed_text e = insert_state (kill_peek (ed_kills e)) t"
    using assms by (auto simp: editor_ok_def yank_ok_def)
  with yank_pop_at [OF t editor_okD(2) [OF assms]] False obtain e' where e': "yank_pop e = Some e'"
    "edited e e' (insert_state (kill_peek (kill_rotate (ed_kills e))) t) (undo_push (ed_text e) (ed_undo e))
        YankAction (kill_rotate (ed_kills e))" by auto
  have "kill_rotate (ed_kills e) \<noteq> []" using False by (simp add: kill_rotate_def)
  then have "editor_ok e'"
    using t ring_ok_rotate [OF editor_okD(2) [OF assms]] edited_ok [OF assms e'(2)] by auto
  with e' show ?thesis by simp
qed

lemma empty_text_ok [simp]: "text_ok empty_text"
  by (simp add: text_ok_def empty_text_def)

lemma submit_value_ok: "editor_ok e \<Longrightarrow> editor_ok (submit_value env e)"
  by (simp add: submit_value_def fire_on_submit_def fire_on_change_text_def Let_def editor_ok_def yank_ok_def
      popup_ok_def undo_ok_def)

lemma undo_edit_ok:
  assumes "editor_ok e"
  shows "editor_ok (undo_edit e)"
proof (cases "undo_pop (ed_undo e)")
  case None
  with no_history_ok [OF assms] show ?thesis by (simp add: undo_edit_def Let_def)
next
  case (Some p)
  obtain t us where p: "p = (t, us)" by (cases p)
  with Some have "ed_undo e = us @ [t]" by (simp add: undo_pop_mem)
  with no_history_ok [OF assms] have "editor_ok (e\<lparr>ed_history_index := - 1, ed_text := t, ed_undo := us,
      ed_last := NoAction, ed_preferred := None\<rparr>)"
    by (simp add: editor_ok_def yank_ok_def popup_ok_def undo_ok_def)
  with Some p show ?thesis by (simp add: undo_edit_def Let_def)
qed

lemma set_text_internal_ok:
  assumes "editor_ok e" and "ed_last e = NoAction"
  shows "editor_ok (set_text_internal s e)"
  using assms
  by (simp add: set_text_internal_def Let_def fire_on_change_def fire_on_change_text_def set_cursor_col_def
      map_text_def editor_ok_def yank_ok_def popup_ok_def text_ok_def last_conv_nth)

lemma set_text_keeps:
  assumes "editor_ok e"
  shows "editor_ok (set_text s e)"
proof -
  let ?e1 = "e\<lparr>ed_last := NoAction, ed_history_index := - 1\<rparr>"
  have "editor_ok ?e1" using no_history_ok [OF no_action_ok [OF assms]] by simp
  with push_undo_ok [OF this] show ?thesis
    unfolding set_text_def Let_def by (intro set_text_internal_ok) (auto simp: push_undo_snapshot_def)
qed

lemma add_to_history_ok: "editor_ok e \<Longrightarrow> editor_ok (add_to_history s e)"
  by (auto simp: add_to_history_def Let_def editor_ok_def yank_ok_def popup_ok_def history_limit_def)

lemma navigate_history_ok:
  assumes "editor_ok e"
  shows "editor_ok (navigate_history dir e)"
proof -
  let ?e1 = "e\<lparr>ed_last := NoAction\<rparr>"
  let ?i = "ed_history_index e - dir"
  let ?e2 = "if ed_history_index ?e1 = - 1 \<and> 0 \<le> ?i then push_undo_snapshot ?e1 else ?e1"
  have e1: "editor_ok ?e1" using assms by (rule no_action_ok)
  then have e2: "editor_ok ?e2" "ed_history ?e2 = ed_history e" "ed_last ?e2 = NoAction"
    using push_undo_ok [OF e1] by (simp_all add: push_undo_snapshot_def)
  show ?thesis
  proof (cases "ed_history e = [] \<or> ?i < - 1 \<or> int (length (ed_history e)) \<le> ?i")
    case True
    with e1 show ?thesis by (auto simp: navigate_history_def Let_def)
  next
    case False
    with e2 have "editor_ok (?e2\<lparr>ed_history_index := ?i\<rparr>)"
      by (simp add: editor_ok_def yank_ok_def popup_ok_def)
    with False e2(3) show ?thesis
      by (simp add: navigate_history_def Let_def set_text_internal_ok del: if_split)
  qed
qed

subsection \<open>Keys\<close>

lemma move_cursor_keeps: "editor_ok e \<Longrightarrow> dl = 0 \<or> dc = 0 \<Longrightarrow> keeps (move_cursor env dl dc e)"
  by (rule keeps_moves') (auto simp: editor_okD intro: move_cursor_moves)

lemma page_scroll_keeps: "editor_ok e \<Longrightarrow> keeps (page_scroll env dir e)"
  by (rule keeps_moves') (auto simp: editor_okD intro: page_scroll_moves)

lemma move_line_end_keeps: "editor_ok e \<Longrightarrow> keeps (move_to_line_end e)"
  by (rule keeps_moves) (auto simp: editor_okD intro: move_line_end_moves)

lemma move_line_start_ok: "editor_ok e \<Longrightarrow> editor_ok (move_to_line_start e)"
  by (rule moves_ok) (auto simp: editor_okD intro: move_line_start_moves)

lemma cursor_up_keeps: "editor_ok e \<Longrightarrow> keeps (cursor_up env e)"
  by (simp add: cursor_up_def navigate_history_ok move_line_start_ok move_cursor_keeps)

lemma cursor_down_keeps: "editor_ok e \<Longrightarrow> keeps (cursor_down env e)"
  by (simp add: cursor_down_def navigate_history_ok move_line_end_keeps move_cursor_keeps)

lemma movement_key_keeps: "editor_ok e \<Longrightarrow> keeps (movement_key env data e)"
  by (simp add: movement_key_def cursor_up_keeps cursor_down_keeps insert_character_keeps move_cursor_keeps
      page_scroll_keeps split: option.split)

lemma new_line_input_keeps:
  assumes "editor_ok e"
  shows "keeps (new_line_input env data e)"
proof -
  from editor_okD(1) [OF assms] obtain A b a C where "ed_text e = at_cursor A b a C" by (rule text_okE)
  then obtain submits where "should_submit_on_backslash_enter env data e = Some submits"
    by (auto simp: should_submit_on_backslash_enter_def)
  with assms show ?thesis
    by (auto simp: new_line_input_def add_new_line_keeps submit_value_ok
        intro!: keeps_bind handle_backspace_keeps)
qed

lemma submit_input_keeps:
  assumes "editor_ok e"
  shows "keeps (submit_input env e)"
proof -
  from editor_okD(1) [OF assms] obtain A b a C where "ed_text e = at_cursor A b a C" by (rule text_okE)
  with assms show ?thesis
    by (auto simp: submit_input_def submit_value_ok intro!: keeps_bind handle_backspace_keeps add_new_line_keeps)
qed

text \<open>An input with nothing in it may panic.\<close>

lemma enter_key_keeps: "editor_ok e \<Longrightarrow> keeps_or (data = []) (enter_key env data e)"
  by (cases data)
    (auto simp: enter_key_def is_new_line_def keeps_or_def new_line_input_keeps submit_input_keeps
      movement_key_keeps)

lemma edit_key_keeps:
  assumes "editor_ok e" and "provider_ok env"
  shows "keeps_or (data = []) (edit_key env data e)"
  unfolding edit_key_def
  by (simp add: assms handle_tab_ok enter_key_keeps handle_backspace_keeps handle_forward_delete_keeps yank_keeps
      yank_pop_keeps move_line_start_ok editor_okD move_line_end_keeps keeps_orI
      keeps_moves [OF _ move_word_backwards_moves]
      keeps_moves [OF _ move_word_forwards_moves] keeps_kills [OF _ delete_to_end_of_line_kills]
      keeps_kills [OF _ delete_to_start_of_line_kills] keeps_kills [OF _ delete_word_backwards_kills]
      keeps_kills [OF _ delete_word_forward_kills])

text \<open>
  A completion is taken for the prefix it was suggested for. Moving the cursor leaves that prefix as it
  is, so it may no longer fit before the cursor.
\<close>

definition prefix_fits :: "editor \<Rightarrow> bool" where
  "prefix_fits e \<longleftrightarrow> length (ed_prefix e) \<le> ts_col (ed_text e)"

definition completion_fails :: "editor_env \<Rightarrow> string \<Rightarrow> editor \<Rightarrow> bool" where
  "completion_fails env data e \<longleftrightarrow>
     ed_popup e \<noteq> NoPopup \<and> \<not> prefix_fits e \<and> ee_provider env \<noteq> None
     \<and> (matches_editor_action env data ActTab \<or> matches_editor_action env data ActSelectConfirm)"

lemma complete_on_tab_keeps:
  assumes "editor_ok e" and "provider_ok env"
  shows "keeps_or (ee_provider env \<noteq> None \<and> \<not> prefix_fits e) (complete_on_tab env e)"
proof -
  have retry: "keeps (do { b \<leftarrow> text_before (ed_text e1);
             Some (if has_suffix b '' '' \<and> is_in_slash_command_context b e1
                   then try_trigger_autocomplete env False e1 else e1) })" if "editor_ok e1" for e1
  proof -
    from editor_okD(1) [OF that] obtain A b a C where "ed_text e1 = at_cursor A b a C" by (rule text_okE)
    with that show ?thesis by (simp add: try_trigger_ok)
  qed
  have "keeps_or q (do { taken \<leftarrow> r; let e1 = fire_on_change (cancel_autocomplete taken);
             b \<leftarrow> text_before (ed_text e1);
             Some (if has_suffix b '' '' \<and> is_in_slash_command_context b e1
                   then try_trigger_autocomplete env False e1 else e1) })" if "keeps_or q r" for q r
    using that retry [of "fire_on_change (cancel_autocomplete e2)" for e2]
    by (auto simp: keeps_or_def keeps_def cancel_ok Let_def simp del: text_frame)
  with assms take_completion_ok [OF assms] show ?thesis
    by (auto simp: complete_on_tab_def prefix_fits_def not_le intro: keeps_orI split: option.split)
qed

lemma complete_on_confirm_keeps:
  assumes "editor_ok e" and "provider_ok env"
  shows "keeps_or (ee_provider env \<noteq> None \<and> \<not> prefix_fits e) (map_option fst (complete_on_confirm env e))"
proof -
  from editor_okD(1) [OF assms(1)] obtain A b a C where at: "ed_text e = at_cursor A b a C" by (rule text_okE)
  have taken: "keeps_or q (map_option fst (Option.bind r
      (\<lambda>e1. Some (if c then (cancel_autocomplete e1, False) else (fire_on_change (cancel_autocomplete e1), True)))))"
    if "keeps_or q r" for q r c
    using that by (cases c) (auto simp: keeps_or_def keeps_def cancel_ok)
  have "keeps_or (\<not> prefix_fits e) (take_completion p it (ed_prefix e) e)" if "ee_provider env = Some p" for p it
    using take_completion_ok [OF assms that, of "ed_prefix e" it] by (simp add: prefix_fits_def not_le)
  with taken assms(1) show ?thesis
    by (cases "Option.bind (ed_choices e) get_selected_item"; cases "ee_provider env")
      (simp_all add: complete_on_confirm_def at cancel_ok keeps_orI)
qed

lemma popup_input_keeps:
  assumes "editor_ok e" and "provider_ok env"
  shows "keeps_or (completion_fails env data e) (map_option fst (popup_input env data e))"
proof -
  have select: "editor_ok (e\<lparr>ed_choices := Some (select_list_input env data sl)\<rparr>)" if "ed_choices e = Some sl" for sl
    using assms(1) that by (auto simp: editor_ok_def yank_ok_def popup_ok_def select_ok_input)
  from assms complete_on_tab_keeps [OF assms] complete_on_confirm_keeps [OF assms] select show ?thesis
    by (auto simp: popup_input_def cancel_ok completion_fails_def keeps_or_def keeps_def option.map_comp comp_def)
qed

lemma key_input_keeps:
  assumes "editor_ok e" and "provider_ok env"
  shows "keeps_or (data = [] \<or> completion_fails env data e) (key_input env data e)"
proof (cases "popup_input env data e")
  case None
  with assms popup_input_keeps [OF assms, of data] show ?thesis
    by (simp add: key_input_def undo_edit_ok keeps_or_def keeps_def)
next
  case (Some r)
  obtain e1 handled where r: "r = (e1, handled)" by (rule prod.exhaust)
  with Some popup_input_keeps [OF assms, of data] have "editor_ok e1" by (simp add: keeps_or_def keeps_def)
  with edit_key_keeps [OF this assms(2), of data] Some r assms(1) show ?thesis
    by (auto simp: key_input_def undo_edit_ok keeps_or_def)
qed

subsection \<open>Inputs and sequences of operations\<close>

text \<open>
  Where the editor fails: an input with nothing in it, a jump forward from the end of a line, a completion
  whose prefix no longer fits.
\<close>

definition jump_fails :: "string \<Rightarrow> editor \<Rightarrow> bool" where
  "jump_fails data e \<longleftrightarrow> ed_jump e = Some Forward \<and> at_line_end (ed_text e)"

definition ends_paste_early :: "string \<Rightarrow> editor \<Rightarrow> bool" where
  "ends_paste_early data e \<longleftrightarrow>
     (let buffer = (if contains data paste_open then remove_first paste_open data else ed_paste_buffer e @ data)
      in (case find_sub buffer paste_close of None \<Rightarrow> False | Some i \<Rightarrow> i + 6 < length buffer)
         \<and> (ed_in_paste e \<or> contains data paste_open))"

lemma completion_fails_jump [simp]: "completion_fails env data (e\<lparr>ed_jump := j\<rparr>) = completion_fails env data e"
  by (simp add: completion_fails_def prefix_fits_def)

definition index_fails :: "editor_env \<Rightarrow> string \<Rightarrow> editor \<Rightarrow> bool" where
  "index_fails env data e \<longleftrightarrow> data = [] \<or> jump_fails data e \<or> completion_fails env data e"

definition good_result :: "editor_env \<Rightarrow> string \<Rightarrow> editor \<Rightarrow> editor_fault + editor \<Rightarrow> bool" where
  "good_result env data e r \<longleftrightarrow>
     (case r of
        Inl IndexPanic \<Rightarrow> index_fails env data e
      | Inl SelfDeadlock \<Rightarrow> ends_paste_early data e
      | Inr e' \<Rightarrow> editor_ok e')"

lemma ends_paste_early_jump [simp]: "ends_paste_early data (e\<lparr>ed_jump := j\<rparr>) = ends_paste_early data e"
  by (simp add: ends_paste_early_def)

lemma paste_input_good:
  assumes "editor_ok e"
    and "\<And>i. find_sub (ed_paste_buffer e @ data) paste_close = Some i \<Longrightarrow> i + 6 < length (ed_paste_buffer e @ data) \<Longrightarrow> P"
  shows "(\<exists>e'. paste_input env data e = Inr e' \<and> editor_ok e') \<or> (paste_input env data e = Inl SelfDeadlock \<and> P)"
proof (cases "find_sub (ed_paste_buffer e @ data) paste_close")
  case None
  with assms(1) show ?thesis by (simp add: paste_input_def Let_def)
next
  case (Some i)
  let ?content = "take i (ed_paste_buffer e @ data)"
  let ?e1 = "e\<lparr>ed_paste_buffer := ed_paste_buffer e @ data\<rparr>"
  have "keeps (if ?content \<noteq> [] then handle_paste env ?content ?e1 else Some ?e1)"
    using handle_paste_keeps [of ?e1] assms(1) by (simp del: take_append)
  then obtain e2 where "(if ?content \<noteq> [] then handle_paste env ?content ?e1 else Some ?e1) = Some e2" "editor_ok e2"
    by (auto simp: keeps_def simp del: take_append)
  with Some assms(2) [OF Some] show ?thesis
    by (cases "i + 6 < length (ed_paste_buffer e @ data)")
      (simp_all add: paste_input_def Let_def del: take_append drop_append length_append)
qed

lemma plain_input_good:
  assumes "editor_ok e" and "provider_ok env"
  shows "(\<exists>e'. plain_input env data e = Inr e' \<and> editor_ok e')
    \<or> (plain_input env data e = Inl IndexPanic \<and> (data = [] \<or> completion_fails env data e))
    \<or> (plain_input env data e = Inl SelfDeadlock \<and> ends_paste_early data e)"
proof (cases "contains data paste_open \<or> ed_in_paste e")
  case False
  with key_input_keeps [OF assms, of data] show ?thesis
    by (auto simp: plain_input_def keeps_or_def keeps_def)
next
  case True
  let ?data = "if contains data paste_open then remove_first paste_open data else data"
  let ?e = "if contains data paste_open then e\<lparr>ed_in_paste := True, ed_paste_buffer := []\<rparr> else e"
  have e: "editor_ok ?e" using assms(1) by simp
  have "(\<exists>e'. paste_input env ?data ?e = Inr e' \<and> editor_ok e')
      \<or> (paste_input env ?data ?e = Inl SelfDeadlock \<and> ends_paste_early data e)"
    by (rule paste_input_good [OF e])
      (use True in \<open>auto simp: ends_paste_early_def Let_def split: if_splits\<close>)
  with True show ?thesis
    by (auto simp: plain_input_def split: if_splits)
qed

text \<open>The operations of the editor, as its owner calls them.\<close>

datatype editor_op =
    OpInput string
  | OpSetText string
  | OpInsert string
  | OpHistory string
  | OpRender string go_int
  | OpMaxVisible go_int

fun apply_op :: "editor_env \<Rightarrow> editor_op \<Rightarrow> editor \<Rightarrow> editor_fault + editor" where
  "apply_op env (OpInput data) e = handle_input env data e"
| "apply_op env (OpSetText s) e = Inr (set_text s e)"
| "apply_op env (OpInsert s) e = (case insert_text_at_cursor s e of None \<Rightarrow> Inl IndexPanic | Some e' \<Rightarrow> Inr e')"
| "apply_op env (OpHistory s) e = Inr (add_to_history s e)"
| "apply_op env (OpRender prompt width) e = Inr (snd (render_frame env prompt width e))"
| "apply_op env (OpMaxVisible n) e = Inr (set_autocomplete_max_visible n e)"

fun run_ops :: "editor_env \<Rightarrow> editor_op list \<Rightarrow> editor \<Rightarrow> editor_fault + editor" where
  "run_ops env [] e = Inr e"
| "run_ops env (x # xs) e = (case apply_op env x e of Inl f \<Rightarrow> Inl f | Inr e' \<Rightarrow> run_ops env xs e')"

lemma jump_at_line_end: "text_ok t \<Longrightarrow> at_line_end t \<Longrightarrow> jump_target ch Forward t = None"
  by (erule text_okE) (auto simp: jump_target_def at_line_end_def nth_append)

lemma handle_input_good:
  assumes "editor_ok e" and "provider_ok env"
  shows "good_result env data e (handle_input env data e)"
proof (cases "ed_jump e")
  case None
  with plain_input_good [OF assms, of data] show ?thesis by (auto simp: handle_input_def good_result_def index_fails_def)
next
  case (Some dir)
  let ?e = "e\<lparr>ed_jump := None\<rparr>"
  have e: "editor_ok ?e" using assms(1) by simp
  have plain: "good_result env data e (plain_input env data ?e)"
    using plain_input_good [OF e assms(2), of data] by (auto simp: good_result_def index_fails_def)
  have "keeps_or (jump_fails data e) (jump_to_char data dir ?e)"
  proof (cases "dir = Forward \<and> at_line_end (ed_text ?e)")
    case True
    with Some jump_at_line_end [of "ed_text e" data] editor_okD(1) [OF assms(1)] show ?thesis
      by (simp add: keeps_or_def jump_to_char_def jump_fails_def)
  next
    case False
    then show ?thesis using editor_okD(1) [OF e] by (intro keeps_orI keeps_moves [OF e jump_to_char_moves])
  qed
  with e Some plain show ?thesis
    by (auto simp: handle_input_def Let_def good_result_def index_fails_def keeps_or_def keeps_def)
qed

lemma render_ok: "editor_ok e \<Longrightarrow> editor_ok (snd (render_frame env prompt width e))"
  by (simp add: render_frame_def Let_def editor_ok_def yank_ok_def popup_ok_def layout_width_def)

lemma max_visible_ok: "editor_ok e \<Longrightarrow> editor_ok (set_autocomplete_max_visible n e)"
  by (simp add: set_autocomplete_max_visible_def editor_ok_def yank_ok_def popup_ok_def clamp_visible_def)

lemma new_editor_ok: "editor_ok (new_editor n)"
  by (simp add: new_editor_def editor_ok_def yank_ok_def popup_ok_def clamp_visible_def ring_ok_def undo_ok_def
      kill_ring_size_def undo_limit_def history_limit_def)

end
