(* ===== verification/EditorEdits.thy ===== *)
theory EditorEdits
  imports EditorRun
begin

text \<open>
  Runs of the editor, and what kills and yanks do to the text: kills in a row are yanked back as one, and
  popping yanks goes through the ring.

  Undoing: what an edit adds to the undo stack, and that undoing takes it back.
\<close>

subsection \<open>Samples\<close>

definition sample_editor_env :: editor_env where
  "sample_editor_env =
     \<lparr>ee_matches = (\<lambda>data key. data = key), ee_width = (\<lambda>s. int (length (runes s))),
      ee_punct = (\<lambda>r. r = ''.''), ee_word_rune = (\<lambda>r. False), ee_rows = 24, ee_provider = None,
      ee_order = (\<lambda>ps. ps)\<rparr>"

lemma sample_provider_ok: "provider_ok sample_editor_env"
  by (simp add: provider_ok_def sample_editor_env_def)

subsection \<open>Sequences of operations\<close>

definition stops_at :: "editor_env \<Rightarrow> go_int \<Rightarrow> editor_op list \<Rightarrow> editor_fault \<Rightarrow> bool" where
  "stops_at env n ops f \<longleftrightarrow>
     (\<exists>done data rest e. ops = done @ OpInput data # rest \<and> run_ops env done (new_editor n) = Inr e \<and> editor_ok e
        \<and> (if f = IndexPanic then index_fails env data e else ends_paste_early data e))"

lemma run_ops_append:
  "run_ops env (xs @ ys) e = (case run_ops env xs e of Inl f \<Rightarrow> Inl f | Inr e' \<Rightarrow> run_ops env ys e')"
  by (induction xs arbitrary: e) (auto split: sum.splits)

lemma apply_op_good:
  assumes "editor_ok e" and "provider_ok env"
  shows "case apply_op env x e of
      Inr e' \<Rightarrow> editor_ok e'
    | Inl f \<Rightarrow> \<exists>data. x = OpInput data \<and> (if f = IndexPanic then index_fails env data e else ends_paste_early data e)"
proof (cases x)
  case (OpInput data)
  with handle_input_good [OF assms, of data] show ?thesis
    by (auto simp: good_result_def split: sum.splits editor_fault.splits)
next
  case (OpInsert s)
  with insert_text_keeps [OF assms(1), of s] show ?thesis by (auto simp: keeps_def)
qed (simp_all add: assms set_text_keeps add_to_history_ok render_ok max_visible_ok)

lemma stops_later: "stops_at env n ops f \<Longrightarrow> stops_at env n (ops @ xs) f"
  unfolding stops_at_def by (metis append.assoc append_Cons)

text \<open>
  From a new editor, every sequence of operations keeps the invariant: the cursor stays inside the
  text, the ring, the history and the undo stack within their bounds. A run stops only at an input that
  is empty, that jumps forward from the end of a line, that accepts a completion after the cursor was
  moved in front of it, or that goes on after the end of a paste.
\<close>

lemma runs_safely:
  assumes "provider_ok env"
  shows "case run_ops env ops (new_editor n) of Inr e \<Rightarrow> editor_ok e | Inl f \<Rightarrow> stops_at env n ops f"
proof (induction ops rule: rev_induct)
  case Nil
  show ?case by (simp add: new_editor_ok)
next
  case (snoc x ops)
  show ?case
  proof (cases "run_ops env ops (new_editor n)")
    case (Inl f)
    with snoc show ?thesis by (simp add: run_ops_append stops_later)
  next
    case (Inr e)
    with snoc have e: "editor_ok e" by simp
    show ?thesis
    proof (cases "apply_op env x e")
      case (Inl f)
      with apply_op_good [OF e assms, of x] obtain data where "x = OpInput data"
        "if f = IndexPanic then index_fails env data e else ends_paste_early data e" by auto
      with Inr e have "stops_at env n (ops @ [x]) f" unfolding stops_at_def by blast
      with Inl Inr show ?thesis by (simp add: run_ops_append)
    next
      case (Inr e')
      with apply_op_good [OF e assms, of x] \<open>run_ops env ops (new_editor n) = Inr e\<close> show ?thesis
        by (simp add: run_ops_append)
    qed
  qed
qed

subsection \<open>Kills and yanks\<close>

datatype kill_op = KillLineStart | KillLineEnd | KillWordBack | KillWordForward

fun run_kill :: "editor_env \<Rightarrow> kill_op \<Rightarrow> editor \<Rightarrow> editor option" where
  "run_kill env KillLineStart e = delete_to_start_of_line e"
| "run_kill env KillLineEnd e = delete_to_end_of_line e"
| "run_kill env KillWordBack e = delete_word_backwards env e"
| "run_kill env KillWordForward e = delete_word_forward env e"

fun run_kills :: "editor_env \<Rightarrow> kill_op list \<Rightarrow> editor \<Rightarrow> editor option" where
  "run_kills env [] e = Some e"
| "run_kills env (x # xs) e = do { e1 \<leftarrow> run_kill env x e; run_kills env xs e1 }"

lemma run_kill_kills: "text_ok (ed_text e) \<Longrightarrow> \<exists>e'. run_kill env x e = Some e' \<and> kills e e'"
  by (cases x) (simp_all add: delete_to_start_of_line_kills delete_to_end_of_line_kills delete_word_backwards_kills
      delete_word_forward_kills)

text \<open>The killed text is on top of the ring, and fits between what is left on both sides.\<close>

definition kill_gap :: "string \<Rightarrow> editor \<Rightarrow> bool" where
  "kill_gap s e \<longleftrightarrow>
     ed_last e = KillAction \<and> ed_kills e \<noteq> []
     \<and> before (ed_text e) @ kill_peek (ed_kills e) @ after (ed_text e) = s"

definition kill_state :: "string \<Rightarrow> editor \<Rightarrow> bool" where
  "kill_state s e \<longleftrightarrow> kill_gap s e \<or> (ed_last e \<noteq> KillAction \<and> before (ed_text e) @ after (ed_text e) = s)"

lemma kills_gap:
  assumes "kills e e'" and "kill_state s e"
  shows "kill_state s e'"
proof (cases "only_popup e e'")
  case True
  with assms(2) show ?thesis by (simp add: only_popup_def edited_def kill_state_def kill_gap_def)
next
  case False
  with assms(1) obtain k backward t' where k: "killed k backward (ed_text e) t'"
    "edited e e' t' (undo_push (ed_text e) (ed_undo e)) KillAction
       (kill_push k backward (ed_last e = KillAction) (ed_kills e))" by (auto simp: kills_def)
  then have "k \<noteq> []" by (simp add: killed_def)
  with k assms(2) show ?thesis
    by (cases backward)
      (auto simp: kill_state_def kill_gap_def edited_def killed_def kill_push_nonempty kill_peek_push)
qed

lemma run_kills_gap:
  "editor_ok e \<Longrightarrow> kill_state s e \<Longrightarrow> \<exists>e'. run_kills env xs e = Some e' \<and> editor_ok e' \<and> kill_state s e'"
proof (induction xs arbitrary: e)
  case (Cons x xs)
  obtain e1 where e1: "run_kill env x e = Some e1" "kills e e1"
    using run_kill_kills [OF editor_okD(1) [OF Cons.prems(1)]] by blast
  from Cons.IH [OF kills_ok [OF Cons.prems(1) e1(2)] kills_gap [OF e1(2) Cons.prems(2)]] e1(1)
  show ?case by simp
qed simp

lemma get_text_ok: "editor_ok e \<Longrightarrow> get_text e = before (ed_text e) @ after (ed_text e)"
  by (simp add: get_text_def text_before_after editor_okD)

text \<open>
  C24: Kills in a row, forward and backward, of words and of lines, are collected: what they took is on
  top of the ring as one piece of the text, and a yank puts it back, so that the text is what it was.
\<close>

theorem kills_yanked_back:
  assumes "editor_ok e" and "ed_last e \<noteq> KillAction"
  shows "\<exists>e1. run_kills env xs e = Some e1
    \<and> (if ed_last e1 = KillAction
       then before (ed_text e1) @ kill_peek (ed_kills e1) @ after (ed_text e1) = get_text e
         \<and> (\<exists>e2. yank e1 = Some e2 \<and> get_text e2 = get_text e)
       else get_text e1 = get_text e)"
proof -
  have "kill_state (get_text e) e" using assms by (simp add: kill_state_def get_text_ok)
  from run_kills_gap [OF assms(1) this] obtain e1 where e1: "run_kills env xs e = Some e1" "editor_ok e1"
    "kill_state (get_text e) e1" by blast
  show ?thesis
  proof (cases "ed_last e1 = KillAction")
    case True
    with e1(3) have gap: "ed_kills e1 \<noteq> []"
      "before (ed_text e1) @ kill_peek (ed_kills e1) @ after (ed_text e1) = get_text e"
      by (simp_all add: kill_state_def kill_gap_def)
    from yank_at [OF editor_okD(1) [OF e1(2)] gap(1)] obtain e2 where e2: "yank e1 = Some e2"
      "ed_text e2 = insert_state (kill_peek (ed_kills e1)) (ed_text e1)" by (auto simp: edited_def)
    then have "get_text e2 = get_text e"
      using gap(2) editor_okD(1) [OF e1(2)]
      by (simp add: get_text_def text_before_after before_insert after_insert)
    with e1(1) True gap(2) e2(1) show ?thesis by simp
  next
    case False
    with e1(3) have "get_text e1 = get_text e" by (simp add: kill_state_def kill_gap_def get_text_ok [OF e1(2)])
    with e1(1) False show ?thesis by simp
  qed
qed

definition sample_typed :: editor where
  "sample_typed = (new_editor 5)\<lparr>ed_text := at_cursor [''one two''] ''three '' ''four'' [''five'']\<rparr>"

lemma sample_typed_ok: "editor_ok sample_typed"
  using new_editor_ok [of 5] by (simp add: sample_typed_def editor_ok_def yank_ok_def popup_ok_def new_editor_def)

theorem kills_yanked_back_witness:
  "\<exists>e1. run_kills sample_editor_env [KillWordBack, KillLineEnd, KillWordBack] sample_typed = Some e1
    \<and> (if ed_last e1 = KillAction
       then before (ed_text e1) @ kill_peek (ed_kills e1) @ after (ed_text e1) = get_text sample_typed
         \<and> (\<exists>e2. yank e1 = Some e2 \<and> get_text e2 = get_text sample_typed)
       else get_text e1 = get_text sample_typed)"
  by (rule kills_yanked_back [OF sample_typed_ok]) (simp add: sample_typed_def new_editor_def)

text \<open>Rotating a ring as often as it is long gives it back.\<close>

lemma rotations: "n \<le> length ks \<Longrightarrow> (kill_rotate ^^ n) ks = drop (length ks - n) ks @ take (length ks - n) ks"
proof (induction n)
  case (Suc n)
  let ?m = "length ks - Suc n"
  have m: "length ks - n = Suc ?m" "?m < length ks" using Suc.prems by auto
  have "kill_rotate (drop (Suc ?m) ks @ take (Suc ?m) ks) = drop ?m ks @ take ?m ks"
  proof (cases "length ks \<le> 1")
    case True
    with m(2) obtain k where "ks = [k]" by (cases ks) auto
    then show ?thesis by (simp add: kill_rotate_def)
  next
    case False
    with m(2) show ?thesis
      by (simp add: kill_rotate_def take_Suc_conv_app_nth butlast_append Cons_nth_drop_Suc)
  qed
  with Suc m show ?case by simp
qed simp

lemma rotate_all: "(kill_rotate ^^ length ks) ks = ks"
  by (simp add: rotations)

fun yank_pops :: "nat \<Rightarrow> editor \<Rightarrow> editor option" where
  "yank_pops 0 e = Some e"
| "yank_pops (Suc n) e = do { e1 \<leftarrow> yank_pops n e; yank_pop e1 }"

text \<open>
  Yank-pops replace what was yanked and nothing else: after any number of them the text is the one
  before the yank with an entry of the ring put at the cursor, the entries coming up in turn; as many as
  the ring is long give back the text after the yank, cursor included.
\<close>

theorem yank_pops_cycle:
  assumes "editor_ok e" and "ed_last e = YankAction" and "1 < length (ed_kills e)"
  shows "\<exists>t. text_ok t \<and> ed_text e = insert_state (kill_peek (ed_kills e)) t
    \<and> (\<forall>n. \<exists>e'. yank_pops n e = Some e'
        \<and> ed_text e' = insert_state (kill_peek ((kill_rotate ^^ n) (ed_kills e))) t)
    \<and> (\<exists>e'. yank_pops (length (ed_kills e)) e = Some e' \<and> ed_text e' = ed_text e)"
proof -
  obtain t where t: "text_ok t" "ed_text e = insert_state (kill_peek (ed_kills e)) t"
    using assms(1,2) by (auto simp: editor_ok_def yank_ok_def)
  have len: "length ((kill_rotate ^^ n) ks) = length ks" for n ks by (induction n) simp_all
  have ok: "ring_ok ((kill_rotate ^^ n) (ed_kills e))" for n
    by (induction n) (simp_all add: editor_okD [OF assms(1)] ring_ok_rotate)
  have pops: "\<exists>e'. yank_pops n e = Some e' \<and> ed_last e' = YankAction \<and> ed_kills e' = (kill_rotate ^^ n) (ed_kills e)
      \<and> ed_text e' = insert_state (kill_peek ((kill_rotate ^^ n) (ed_kills e))) t" for n
  proof (induction n)
    case 0
    show ?case using assms(2) t(2) by simp
  next
    case (Suc n)
    then obtain e1 where e1: "yank_pops n e = Some e1" "ed_last e1 = YankAction"
      "ed_kills e1 = (kill_rotate ^^ n) (ed_kills e)" "ed_text e1 = insert_state (kill_peek (ed_kills e1)) t" by auto
    with yank_pop_at [OF t(1) e1(4)] ok [of n] len [of n "ed_kills e"] assms(3) show ?case
      by (auto simp: edited_def)
  qed
  obtain e' where "yank_pops (length (ed_kills e)) e = Some e'" "ed_text e' = ed_text e"
    using pops [of "length (ed_kills e)"] t(2) by (auto simp: rotate_all)
  then have "\<exists>e'. yank_pops (length (ed_kills e)) e = Some e' \<and> ed_text e' = ed_text e" by blast
  moreover have "\<forall>n. \<exists>e'. yank_pops n e = Some e'
      \<and> ed_text e' = insert_state (kill_peek ((kill_rotate ^^ n) (ed_kills e))) t" using pops by blast
  ultimately show ?thesis using t by blast
qed

definition sample_yanked :: editor where
  "sample_yanked = sample_typed\<lparr>ed_kills := [''x'', [newline], ''last''], ed_last := YankAction,
     ed_text := insert_state ''last'' (ed_text sample_typed)\<rparr>"

lemma sample_yanked_ok: "editor_ok sample_yanked"
proof -
  have "text_ok (ed_text sample_typed)" using sample_typed_ok by (rule editor_okD)
  then show ?thesis
    using sample_typed_ok
    by (auto simp: sample_yanked_def editor_ok_def yank_ok_def popup_ok_def ring_ok_def kill_ring_size_def kill_peek_def)
qed

theorem yank_pops_cycle_witness:
  "\<exists>t. text_ok t \<and> ed_text sample_yanked = insert_state (kill_peek (ed_kills sample_yanked)) t
    \<and> (\<forall>n. \<exists>e'. yank_pops n sample_yanked = Some e'
        \<and> ed_text e' = insert_state (kill_peek ((kill_rotate ^^ n) (ed_kills sample_yanked))) t)
    \<and> (\<exists>e'. yank_pops (length (ed_kills sample_yanked)) sample_yanked = Some e'
        \<and> ed_text e' = ed_text sample_yanked)"
  by (rule yank_pops_cycle [OF sample_yanked_ok]) (simp_all add: sample_yanked_def)


subsection \<open>Edits\<close>











subsection \<open>Undo\<close>








end
