(* ===== verification/EditorRefine.thy ===== *)
theory EditorRefine
  imports EditorEdits
begin

text \<open>
  The abstract editor: two strings, before and after the cursor. Lines, line numbers and columns do not
  occur in it; a line break is a byte like the others.
\<close>

subsection \<open>Runes at line breaks\<close>

lemma rune_len_newline [simp]: "rune_len (newline # s) = 1"
  by (simp add: rune_len_def in_range_def byte_of_def)

lemma last_rune_start_found:
  "k \<in> {2, 3, 4} \<Longrightarrow> k \<le> length s \<Longrightarrow> rune_start (s ! (length s - k))
     \<Longrightarrow> (\<And>j. j \<in> {2, 3, 4} \<Longrightarrow> j < k \<Longrightarrow> \<not> (j \<le> length s \<and> rune_start (s ! (length s - j))))
     \<Longrightarrow> last_rune_start s = Some k"
  by (fastforce simp: last_rune_start_def)

lemma last_rune_start_None:
  "last_rune_start s = None \<longleftrightarrow> (\<forall>k \<in> {2, 3, 4}. \<not> (k \<le> length s \<and> rune_start (s ! (length s - k))))"
  by (auto simp: last_rune_start_def find_None_iff simp del: find.simps)

lemma rune_start_newline [simp]: "rune_start newline"
  by (simp add: rune_start_def byte_of_def)

text \<open>Seen from behind, a line break ends the search for the start of a rune, and is none itself.\<close>

lemma last_rune_start_after_newline:
  assumes "b \<noteq> []"
  shows "last_rune_start (x @ newline # b) =
    (case last_rune_start b of
       Some k \<Rightarrow> Some k
     | None \<Rightarrow> if Suc (length b) \<in> {2, 3, 4} then Some (Suc (length b)) else None)"
proof -
  let ?s = "x @ newline # b"
  have nth: "?s ! (length ?s - k) = b ! (length b - k)" if "0 < k" "k \<le> length b" for k
  proof -
    have "?s ! (length ?s - k) = ((x @ [newline]) @ b) ! (length (x @ [newline]) + (length b - k))"
      using that by (simp add: Suc_diff_le)
    then show ?thesis by (simp only: nth_append_length_plus)
  qed
  have break: "?s ! (length ?s - Suc (length b)) = newline" by simp
  have len: "length b \<noteq> 0" using assms by simp
  let ?P = "\<lambda>s k. k \<le> length s \<and> rune_start (s ! (length s - k))"
  have found: "?P ?s k = (if k \<le> length b then ?P b k else k = Suc (length b) \<or> ?P ?s k)" if "0 < k" for k
    using nth [OF that] break by (cases "k = Suc (length b)") auto
  have step: "last_rune_start s = (if ?P s 2 then Some 2 else if ?P s 3 then Some 3 else if ?P s 4 then Some 4 else None)" for s
    by (simp add: last_rune_start_def)
  consider "length b = 1" | "length b = 2" | "length b = 3" | "4 \<le> length b" using len by linarith
  then show ?thesis
    unfolding step using found [of 2] found [of 3] found [of 4] by cases (simp_all only: split: if_splits, auto)
qed

lemma last_rune_len_after_newline: "b \<noteq> [] \<Longrightarrow> last_rune_len (x @ newline # b) = last_rune_len b"
proof -
  assume b: "b \<noteq> []"
  have drop: "drop (length (x @ newline # b) - k) (x @ newline # b) = drop (length b - k) b" if "k \<le> length b" for k
    using that by (simp add: Suc_diff_le)
  have all: "drop (length (x @ newline # b) - Suc (length b)) (x @ newline # b) = newline # b" by simp
  show ?thesis
  proof (cases "last_rune_start b")
    case None
    with b all show ?thesis by (simp add: last_rune_len_def last_rune_start_after_newline)
  next
    case (Some k)
    with b drop [of k] last_rune_start_bounds [OF Some] show ?thesis
      by (simp add: last_rune_len_def last_rune_start_after_newline)
  qed
qed

lemma last_rune_len_newline [simp]: "last_rune_len (x @ [newline]) = 1"
  by (simp add: last_rune_len_def byte_of_def)

lemma last_rune_len_lead: "b \<noteq> [] \<Longrightarrow> last_rune_len (lead A @ b) = last_rune_len b"
proof (cases A rule: rev_cases)
  case (snoc ys y)
  assume "b \<noteq> []"
  with snoc last_rune_len_after_newline [of b "lead ys @ y"] show ?thesis by simp
qed simp

lemma rune_len_trail: "a \<noteq> [] \<Longrightarrow> rune_len (a @ trail C) = rune_len a"
  by (cases C) (simp_all add: rune_len_before_newline)

subsection \<open>The abstract editor\<close>

type_synonym buffer = "string \<times> string"

definition buffer_of :: "editor \<Rightarrow> buffer" where
  "buffer_of e = (before (ed_text e), after (ed_text e))"

datatype command = Put string | PutText string | Break | EraseBack | EraseForward | StepLeft | StepRight

fun run_command :: "editor_env \<Rightarrow> command \<Rightarrow> editor \<Rightarrow> editor option" where
  "run_command env (Put s) e = insert_character env s False e"
| "run_command env (PutText s) e = insert_text_at_cursor s e"
| "run_command env Break e = add_new_line e"
| "run_command env EraseBack e = handle_backspace env e"
| "run_command env EraseForward e = handle_forward_delete env e"
| "run_command env StepLeft e = move_cursor env 0 (- 1) e"
| "run_command env StepRight e = move_cursor env 0 1 e"

definition split_last :: "string \<Rightarrow> string \<times> string" where
  "split_last b = (take (length b - last_rune_len b) b, drop (length b - last_rune_len b) b)"

fun buffer_command :: "command \<Rightarrow> buffer \<Rightarrow> buffer" where
  "buffer_command (Put s) (b, a) = (b @ s, a)"
| "buffer_command (PutText s) (b, a) = (b @ unify_newlines s, a)"
| "buffer_command Break (b, a) = (b @ [newline], a)"
| "buffer_command EraseBack (b, a) = (fst (split_last b), a)"
| "buffer_command EraseForward (b, a) = (b, drop (rune_len a) a)"
| "buffer_command StepLeft (b, a) = (fst (split_last b), snd (split_last b) @ a)"
| "buffer_command StepRight (b, a) = (b @ take (rune_len a) a, drop (rune_len a) a)"

lemma split_last_in_line: "b \<noteq> [] \<Longrightarrow> split_last (lead A @ b) = (lead A @ fst (split_last b), snd (split_last b))"
  using last_rune_len_le [of b] by (simp add: split_last_def last_rune_len_lead)

lemma split_last_break: "split_last (x @ [newline]) = (x, [newline])"
  by (simp add: split_last_def)

lemma split_last_Nil [simp]: "split_last [] = ([], [])"
  by (simp add: split_last_def)

lemma backspaced_buffer:
  "text_ok t \<Longrightarrow> before (backspaced t) = fst (split_last (before t)) \<and> after (backspaced t) = after t"
proof (erule text_okE)
  fix A b a C
  assume t: "t = at_cursor A b a C"
  show ?thesis
  proof (rule before_cases [of b _ A])
    assume "b \<noteq> []"
    then show ?thesis using split_last_in_line [of b A] by (simp add: t backspaced_at) (simp add: split_last_def)
  next
    fix p A'
    assume "b = []" "A = A' @ [p]"
    then show ?thesis using split_last_break [of "lead A' @ p"] by (simp add: t backspaced_at)
  qed (simp add: t backspaced_at)
qed

lemma forward_deleted_buffer:
  "text_ok t \<Longrightarrow> before (forward_deleted t) = before t \<and> after (forward_deleted t) = drop (rune_len (after t)) (after t)"
proof (erule text_okE)
  fix A b a C
  assume t: "t = at_cursor A b a C"
  show ?thesis
  proof (rule after_cases [of a _ C])
    assume "a \<noteq> []"
    then show ?thesis using rune_len_le [of a] by (simp add: t forward_deleted_at rune_len_trail)
  qed (simp_all add: t forward_deleted_at)
qed

lemma stepped_left:
  assumes "text_ok (ed_text e)" and "move_left e = Some e'"
  shows "buffer_of e' = buffer_command StepLeft (buffer_of e)"
proof -
  from assms(1) obtain A b a C where at: "ed_text e = at_cursor A b a C" by (rule text_okE)
  show ?thesis
  proof (rule before_cases [of b _ A])
    assume b: "b \<noteq> []"
    let ?n = "length b - last_rune_len b"
    have "(at_cursor A b a C)\<lparr>ts_col := ?n\<rparr> = at_cursor A (take ?n b) (drop ?n b @ a) C"
      using set_col_at [of "take ?n b" "drop ?n b @ a" b a A C] by simp
    with b assms(2) split_last_in_line [OF b, of A] show ?thesis
      by (auto simp: move_left_def Let_def at buffer_of_def set_cursor_col_def split_last_def)
  next
    fix p A'
    assume *: "b = []" "A = A' @ [p]"
    have "(at_cursor (A' @ [p]) [] a C)\<lparr>ts_line := length A', ts_col := length p\<rparr> = at_cursor A' p [] (a # C)"
      by (simp add: at_cursor_def)
    with * assms(2) split_last_break [of "lead A' @ p"] show ?thesis
      by (auto simp: move_left_def Let_def at buffer_of_def set_cursor_col_def move_line_def map_text_def)
  next
    assume "b = []" "A = []"
    with assms(2) have "e' = e" by (simp add: move_left_def Let_def at)
    moreover from \<open>b = []\<close> \<open>A = []\<close> at have "before (ed_text e) = []" by simp
    ultimately show ?thesis by (simp add: buffer_of_def)
  qed
qed

lemma stepped_right:
  assumes "text_ok (ed_text e)" and "move_right vls i e = Some e'"
  shows "buffer_of e' = buffer_command StepRight (buffer_of e)"
proof -
  from assms(1) obtain A b a C where at: "ed_text e = at_cursor A b a C" by (rule text_okE)
  show ?thesis
  proof (rule after_cases [of a _ C])
    assume a: "a \<noteq> []"
    have "(at_cursor A b a C)\<lparr>ts_col := length b + rune_len a\<rparr> = at_cursor A (b @ take (rune_len a) a) (drop (rune_len a) a) C"
      using set_col_at [of "b @ take (rune_len a) a" "drop (rune_len a) a" b a A C] rune_len_le [of a] by simp
    with a assms(2) rune_len_le [of a] show ?thesis
      by (auto simp: move_right_def Let_def at buffer_of_def set_cursor_col_def rune_len_trail)
  next
    fix n C'
    assume *: "a = []" "C = n # C'"
    have "(at_cursor A b [] (n # C'))\<lparr>ts_line := Suc (length A), ts_col := 0\<rparr> = at_cursor (A @ [b]) [] n C'"
      by (simp add: at_cursor_def)
    with * assms(2) show ?thesis
      by (auto simp: move_right_def Let_def at buffer_of_def set_cursor_col_def move_line_def map_text_def)
  next
    assume "a = []" "C = []"
    with assms(2) show ?thesis by (auto simp: move_right_def Let_def at buffer_of_def split: if_splits)
  qed
qed

text \<open>
  C9: The editor implements the abstract one: typing, inserting, breaking a line, deleting to either side
  and stepping to either side are, on the text before and after the cursor, what they are on two
  strings, over line breaks as inside a line.
\<close>

theorem editor_refines_buffer:
  assumes "editor_ok e"
  shows "\<exists>e'. run_command env c e = Some e' \<and> editor_ok e' \<and> buffer_of e' = buffer_command c (buffer_of e)"
proof -
  note ok = editor_okD [OF assms]
  from ok(1) obtain A b a C where at: "ed_text e = at_cursor A b a C" by (rule text_okE)
  let ?e1 = "e\<lparr>ed_last := NoAction\<rparr>"
  have text1: "text_ok (ed_text ?e1)" using ok(1) by simp
  have keep: "\<exists>e'. run_command env c e = Some e' \<and> editor_ok e' \<and> buffer_of e' = buffer_command c (buffer_of e)"
    if "keeps (run_command env c e)" "\<And>e'. run_command env c e = Some e' \<Longrightarrow> buffer_of e' = buffer_command c (buffer_of e)"
    using that by (auto simp: keeps_def)
  show ?thesis
  proof (cases c)
    case (Put s)
    show ?thesis
      using insert_character_keeps [OF assms, of False env s] insert_character_at [OF at, of env s False] Put
      by (intro keep) (auto simp: buffer_of_def edited_def at)
  next
    case (PutText s)
    have "insert_text_at_cursor s e = Some e' \<Longrightarrow> ed_text e' = insert_state (unify_newlines s) (ed_text e)" for e'
    proof (cases "s = []")
      case False
      assume "insert_text_at_cursor s e = Some e'"
      with False insert_internal_at [of "(push_undo_snapshot e)\<lparr>ed_last := NoAction, ed_history_index := - 1\<rparr>" s] ok(1)
      show ?thesis by (auto simp: insert_text_at_cursor_def edited_def)
    next
      case True
      have "insert_state [] (ed_text e) = ed_text e" by (simp add: at insert_state_at)
      moreover assume "insert_text_at_cursor s e = Some e'"
      ultimately show ?thesis using True by (simp add: insert_text_at_cursor_def unify_newlines_def)
    qed
    then show ?thesis
      using insert_text_keeps [OF assms, of s] ok(1) PutText
      by (intro keep) (auto simp: buffer_of_def before_insert after_insert)
  next
    case Break
    show ?thesis
      using add_new_line_keeps [OF assms] add_new_line_at [OF at] Break
      by (intro keep) (auto simp: buffer_of_def edited_def at)
  next
    case EraseBack
    show ?thesis
      using handle_backspace_keeps [OF assms] handle_backspace_ok [OF ok(1), of env] backspaced_buffer [OF ok(1)] EraseBack
      by (intro keep) (auto simp: buffer_of_def edited_def)
  next
    case EraseForward
    show ?thesis
      using handle_forward_delete_keeps [OF assms] handle_forward_delete_ok [OF ok(1), of env]
        forward_deleted_buffer [OF ok(1)] EraseForward
      by (intro keep) (auto simp: buffer_of_def edited_def)
  next
    case StepLeft
    have "buffer_of ?e1 = buffer_of e" by (simp add: buffer_of_def)
    then show ?thesis
      using move_cursor_keeps [OF assms, of 0 "- 1" env] stepped_left [OF text1] StepLeft
      by (intro keep) (auto simp: move_cursor_def Let_def)
  next
    case StepRight
    have "buffer_of ?e1 = buffer_of e" by (simp add: buffer_of_def)
    then show ?thesis
      using move_cursor_keeps [OF assms, of 0 1 env] stepped_right [OF text1] StepRight
      by (intro keep) (auto simp: move_cursor_def Let_def)
  qed
qed

theorem editor_refines_buffer_witness:
  "\<exists>e'. run_command sample_editor_env StepRight sample_typed = Some e' \<and> editor_ok e'
    \<and> buffer_of e' = buffer_command StepRight (buffer_of sample_typed)"
  by (rule editor_refines_buffer [OF sample_typed_ok])

end
