(* ===== verification/Completion.thy ===== *)
theory Completion
  imports EditorEdits "HOL-Library.List_Lexorder" "HOL-Library.Char_ord" "HOL-Library.Product_Lexorder"
begin

text \<open>
  The completion provider of the interactive mode (\<^verbatim>\<open>pkg/modes/interactive/autocomplete.go\<close>): slash commands,
  their arguments and file paths. It is the provider the editor works with, so that what is assumed of a
  provider there is shown of this one here.

  Directories, the home directory, lower-casing and the fuzzy filter of the terminal library are the
  parameters \<open>file_env\<close>; the filter gives the indices of what it keeps, in its order.
\<close>

subsection \<open>Data\<close>

record slash_command =
  sc_name :: string
  sc_description :: string

datatype arg_type = ArgCompleteNone | ArgCompleteFile | ArgCompleteStatic

datatype arg_spec =
  ArgSpec (sp_type: arg_type) (sp_values: "string list") (sp_sub: "(string \<times> arg_spec) list option")

record dir_entry =
  de_name :: string
  de_is_dir :: bool
  de_symlink :: bool

datatype fs_node = FsFile string | FsDir string "fs_node list"

record file_env =
  fe_home :: string
  fe_lower :: "string \<Rightarrow> string"
  fe_read_dir :: "string \<Rightarrow> dir_entry list option"
  fe_stat_dir :: "string \<Rightarrow> bool"
  fe_tree :: "string \<Rightarrow> fs_node list"
  fe_fuzzy :: "string \<Rightarrow> string list \<Rightarrow> nat list"

record completer =
  cm_commands :: "slash_command list"
  cm_base :: string
  cm_specs :: "(string \<times> arg_spec) list"

definition fuzzy_filter :: "file_env \<Rightarrow> ('a \<Rightarrow> string) \<Rightarrow> string \<Rightarrow> 'a list \<Rightarrow> 'a list" where
  "fuzzy_filter fs key q xs = map ((!) xs) (filter (\<lambda>i. i < length xs) (fe_fuzzy fs q (map key xs)))"

subsection \<open>Paths\<close>

text \<open>\<^verbatim>\<open>filepath.Clean\<close>, \<^verbatim>\<open>Join\<close>, \<^verbatim>\<open>Dir\<close> and \<^verbatim>\<open>Base\<close>, on slash-separated paths.\<close>

definition clean_step :: "bool \<Rightarrow> string list \<Rightarrow> string \<Rightarrow> string list" where
  "clean_step rooted acc c =
     (if c = [] \<or> c = ''.'' then acc
      else if c = ''..''
      then (case acc of
              x # xs \<Rightarrow> if x = ''..'' then c # acc else xs
            | [] \<Rightarrow> if rooted then [] else [c])
      else c # acc)"

definition path_clean :: "string \<Rightarrow> string" where
  "path_clean p =
     (let rooted = has_prefix p ''/'';
          body = join ''/'' (rev (foldl (clean_step rooted) [] (split_on (CHR ''/'') p)))
      in if rooted then ''/'' @ body else if body = [] then ''.'' else body)"

definition path_join :: "string \<Rightarrow> string \<Rightarrow> string" where
  "path_join a b = (if a \<noteq> [] then path_clean (a @ ''/'' @ b) else if b \<noteq> [] then path_clean b else [])"

definition path_dir :: "string \<Rightarrow> string" where
  "path_dir p =
     path_clean (case find_last (\<lambda>c. c = CHR ''/'') p of None \<Rightarrow> [] | Some i \<Rightarrow> take (Suc i) p)"

definition path_base :: "string \<Rightarrow> string" where
  "path_base p =
     (if p = [] then ''.''
      else let q = trim_right_bytes [CHR ''/''] p in if q = [] then ''/'' else last (split_on (CHR ''/'') q))"

text \<open>Slashes are halved until no two of them are neighbours.\<close>

fun halve_slashes :: "string \<Rightarrow> string" where
  "halve_slashes (a # b # s) =
     (if a = CHR ''/'' \<and> b = CHR ''/'' then CHR ''/'' # halve_slashes s else a # halve_slashes (b # s))"
| "halve_slashes s = s"

lemma halve_slashes_le: "length (halve_slashes s) \<le> length s"
  by (induction s rule: halve_slashes.induct) auto

lemma halve_slashes_less: "contains s ''//'' \<Longrightarrow> length (halve_slashes s) < length s"
proof (induction s rule: halve_slashes.induct)
  case (1 a b s)
  show ?case
  proof (cases "a = CHR ''/'' \<and> b = CHR ''/''")
    case True
    then show ?thesis using halve_slashes_le [of s] by simp
  next
    case False
    with 1 show ?thesis by (auto simp: has_prefix_def)
  qed
qed (auto simp: has_prefix_def)

function clean_slashes :: "string \<Rightarrow> string" where
  "clean_slashes s = (if contains s ''//'' then clean_slashes (halve_slashes s) else s)"
  by pat_completeness auto

termination
  by (relation "measure length") (auto simp: halve_slashes_less)

declare clean_slashes.simps [simp del]

definition expand_home_path :: "file_env \<Rightarrow> string \<Rightarrow> string" where
  "expand_home_path fs p =
     (if has_prefix p ''~/''
      then let q = path_join (fe_home fs) (drop 2 p)
           in if has_suffix p ''/'' \<and> \<not> has_suffix q ''/'' then q @ ''/'' else q
      else if p = ''~'' then fe_home fs else p)"

definition expanded :: "file_env \<Rightarrow> string \<Rightarrow> string" where
  "expanded fs raw = (if has_prefix raw ''~'' then expand_home_path fs raw else raw)"

subsection \<open>Tokens\<close>

abbreviation double_quote :: char where "double_quote \<equiv> CHR 0x22"
abbreviation single_quote :: char where "single_quote \<equiv> CHR 0x27"

text \<open>Where the last token starts; inside double quotes nothing separates tokens.\<close>

fun token_start_from :: "nat \<Rightarrow> nat \<Rightarrow> bool \<Rightarrow> string \<Rightarrow> nat" where
  "token_start_from i start quoted [] = start"
| "token_start_from i start quoted (c # s) =
     (if c = double_quote then token_start_from (Suc i) start (\<not> quoted) s
      else token_start_from (Suc i)
             (if \<not> quoted \<and> c \<in> {CHR '' '', tab_char, single_quote, CHR ''=''} then Suc i else start) quoted s)"

definition token_start_index :: "string \<Rightarrow> nat" where
  "token_start_index s = token_start_from 0 0 False s"

definition extract_at_prefix :: "string \<Rightarrow> string" where
  "extract_at_prefix s =
     (let tok = drop (token_start_index s) s in if tok \<noteq> [] \<and> hd tok = CHR ''@'' then tok else [])"

definition parse_path_prefix :: "string \<Rightarrow> string \<times> bool" where
  "parse_path_prefix p =
     (if has_prefix p [CHR ''@'', double_quote] then (drop 2 p, True)
      else if has_prefix p ''@'' then (drop 1 p, True)
      else if has_prefix p [double_quote] then (drop 1 p, False)
      else (p, False))"

definition path_needs_quoting :: "string \<Rightarrow> bool" where
  "path_needs_quoting s = list_ex (\<lambda>c. c \<in> {CHR '' '', tab_char, double_quote, single_quote}) s"

definition quote_path :: "string \<Rightarrow> string" where
  "quote_path s =
     (if \<not> path_needs_quoting s then s
      else [double_quote] @ concat (map (\<lambda>c. if c = double_quote then [CHR 0x5C, double_quote] else [c]) s)
           @ [double_quote])"

definition extract_path_prefix :: "string \<Rightarrow> bool \<Rightarrow> string" where
  "extract_path_prefix s forced =
     (let p = drop (token_start_index s) s in
      if forced then p
      else if CHR ''/'' \<in> set p \<or> has_prefix p ''.'' \<or> has_prefix p ''~/'' then p
      else [])"

subsection \<open>Files\<close>

definition item_of :: "string \<Rightarrow> string \<Rightarrow> select_item" where
  "item_of v l = \<lparr>it_value = v, it_label = l, it_description = []\<rparr>"

definition dir_mark :: "bool \<Rightarrow> string" where
  "dir_mark d = (if d then ''/'' else [])"

definition sort_items :: "select_item list \<Rightarrow> select_item list" where
  "sort_items = sort_key (\<lambda>it. (\<not> has_suffix (it_value it) ''/'', it_label it))"

definition search_place :: "file_env \<Rightarrow> string \<Rightarrow> string \<Rightarrow> string \<times> string" where
  "search_place fs base raw =
     (let ex = expanded fs raw;
          place = (\<lambda>d. if has_prefix raw ''~'' \<or> has_prefix ex ''/'' then d else path_join base d)
      in if raw \<in> {[], ''./'', ''../'', ''~'', ''~/'', ''/''} \<or> has_suffix raw ''/'' then (place ex, [])
         else (place (path_dir ex), path_base ex))"

definition relative_path :: "string \<Rightarrow> string \<Rightarrow> string" where
  "relative_path raw name =
     (if has_suffix raw ''/'' then raw @ name
      else if CHR ''/'' \<in> set raw
      then if has_prefix raw ''~/''
           then let d = path_dir (drop 2 raw) in if d = ''.'' then ''~/'' @ name else ''~/'' @ d @ ''/'' @ name
           else if has_prefix raw ''/''
           then let d = path_dir raw in if d = ''/'' then ''/'' @ name else d @ ''/'' @ name
           else path_join (path_dir raw) name
      else if has_prefix raw ''~'' then ''~/'' @ name else name)"

definition entry_is_dir :: "file_env \<Rightarrow> string \<Rightarrow> dir_entry \<Rightarrow> bool" where
  "entry_is_dir fs dir en \<longleftrightarrow>
     de_is_dir en \<or> (de_symlink en \<and> fe_stat_dir fs (path_join dir (de_name en)))"

definition file_item :: "file_env \<Rightarrow> string \<Rightarrow> string \<Rightarrow> bool \<Rightarrow> dir_entry \<Rightarrow> select_item" where
  "file_item fs dir raw at_token en =
     (let d = entry_is_dir fs dir en;
          v = quote_path (clean_slashes (relative_path raw (de_name en)) @ dir_mark d)
      in item_of (if at_token then ''@'' @ v else v) (de_name en @ dir_mark d))"

definition get_file_suggestions :: "file_env \<Rightarrow> completer \<Rightarrow> string \<Rightarrow> select_item list" where
  "get_file_suggestions fs cm p =
     (let (raw, at_token) = parse_path_prefix p; (dir, start) = search_place fs (cm_base cm) raw
      in case fe_read_dir fs dir of
           None \<Rightarrow> []
         | Some es \<Rightarrow>
             sort_items (map (file_item fs dir raw at_token)
               (filter (\<lambda>en. has_prefix (fe_lower fs (de_name en)) (fe_lower fs start)) es)))"

text \<open>The walk over a directory tree, without hidden and noisy directories, up to ten thousand entries.\<close>

definition max_walk_files :: nat where
  "max_walk_files = 10000"

definition skip_dirs :: "string list" where
  "skip_dirs = [''.git'', ''node_modules'', ''.hg'', ''.svn'', ''__pycache__'', ''.tox'', ''.venv'', ''vendor'']"

fun walk_nodes :: "string \<Rightarrow> fs_node list \<Rightarrow> (string \<times> bool) list" where
  "walk_nodes rel [] = []"
| "walk_nodes rel (FsFile n # ns) = (rel @ n, False) # walk_nodes rel ns"
| "walk_nodes rel (FsDir n cs # ns) =
     (if n \<in> set skip_dirs \<or> (has_prefix n ''.'' \<and> n \<noteq> ''.'') then []
      else (rel @ n, True) # walk_nodes (rel @ n @ ''/'') cs) @ walk_nodes rel ns"

definition collect_files :: "file_env \<Rightarrow> string \<Rightarrow> (string \<times> bool) list" where
  "collect_files fs root = take max_walk_files (walk_nodes [] (fe_tree fs root))"

definition fuzzy_dir_item :: "string \<Rightarrow> dir_entry \<Rightarrow> select_item" where
  "fuzzy_dir_item ex en =
     item_of (''@'' @ quote_path (clean_slashes (ex @ de_name en) @ dir_mark (de_is_dir en)))
       (de_name en @ dir_mark (de_is_dir en))"

definition get_fuzzy_file_suggestions_dir :: "file_env \<Rightarrow> completer \<Rightarrow> string \<Rightarrow> select_item list" where
  "get_fuzzy_file_suggestions_dir fs cm ex =
     (case fe_read_dir fs (if has_prefix ex ''/'' then ex else path_join (cm_base cm) ex) of
        None \<Rightarrow> []
      | Some es \<Rightarrow> sort_items (map (fuzzy_dir_item ex) es))"

definition fuzzy_item :: "string \<Rightarrow> string \<times> bool \<Rightarrow> select_item" where
  "fuzzy_item ex = (\<lambda>(name, d).
     item_of (''@'' @ quote_path ((if CHR ''/'' \<in> set ex then clean_slashes (path_dir ex @ ''/'' @ name) else name) @ dir_mark d))
       (name @ dir_mark d))"

definition walk_place :: "file_env \<Rightarrow> completer \<Rightarrow> string \<Rightarrow> string \<times> string" where
  "walk_place fs cm raw =
     (let ex = expanded fs raw in
      if CHR ''/'' \<in> set ex
      then (if has_prefix (path_dir ex) ''/'' \<or> has_prefix raw ''~'' then path_dir ex
            else path_join (cm_base cm) (path_dir ex), path_base ex)
      else (cm_base cm, ex))"

definition get_fuzzy_file_suggestions :: "file_env \<Rightarrow> completer \<Rightarrow> string \<Rightarrow> select_item list" where
  "get_fuzzy_file_suggestions fs cm raw =
     (let ex = expanded fs raw in
      if has_suffix ex ''/'' then get_fuzzy_file_suggestions_dir fs cm ex
      else let (root, q) = walk_place fs cm raw; found = collect_files fs root
           in map (fuzzy_item ex) (if q \<noteq> [] then fuzzy_filter fs fst q found else found))"

subsection \<open>Suggestions\<close>

definition suggestions :: "string \<Rightarrow> select_item list \<Rightarrow> (string \<times> select_item list) option" where
  "suggestions p items = (if items = [] then None else Some (p, items))"

definition filter_static_candidates ::
  "file_env \<Rightarrow> string list \<Rightarrow> string \<Rightarrow> string \<Rightarrow> (string \<times> select_item list) option" where
  "filter_static_candidates fs candidates typed full =
     suggestions full (map (\<lambda>v. item_of v v) (fuzzy_filter fs (\<lambda>v. v) typed candidates))"

definition complete_from_spec ::
  "file_env \<Rightarrow> completer \<Rightarrow> arg_spec \<Rightarrow> string \<Rightarrow> string \<Rightarrow> (string \<times> select_item list) option" where
  "complete_from_spec fs cm spec typed full =
     (case sp_type spec of
        ArgCompleteStatic \<Rightarrow> filter_static_candidates fs (sp_values spec) typed full
      | ArgCompleteFile \<Rightarrow> suggestions typed (get_file_suggestions fs cm typed)
      | ArgCompleteNone \<Rightarrow> None)"

text \<open>\<^verbatim>\<open>strings.SplitN(s, " ", 2)\<close>.\<close>

definition cut_space :: "string \<Rightarrow> string \<times> string option" where
  "cut_space s =
     (let w = takeWhile (\<lambda>c. c \<noteq> CHR '' '') s
      in (w, if length w < length s then Some (drop (Suc (length w)) s) else None))"

definition get_command_arg_suggestions ::
  "file_env \<Rightarrow> completer \<Rightarrow> string \<Rightarrow> string \<Rightarrow> string \<Rightarrow> (string \<times> select_item list) option" where
  "get_command_arg_suggestions fs cm cmd after_cmd full =
     (case map_of (cm_specs cm) cmd of
        None \<Rightarrow> None
      | Some spec \<Rightarrow>
          (case sp_sub spec of
             None \<Rightarrow> complete_from_spec fs cm spec after_cmd full
           | Some subs \<Rightarrow>
               (case cut_space after_cmd of
                  (w, None) \<Rightarrow>
                    filter_static_candidates fs
                      (sort (remdups (map fst subs @ (if sp_type spec = ArgCompleteStatic then sp_values spec else []))))
                      w full
                | (w, Some rest) \<Rightarrow>
                    (case map_of subs w of
                       None \<Rightarrow> None
                     | Some nested \<Rightarrow> complete_from_spec fs cm nested rest full))))"

definition command_suggestions :: "file_env \<Rightarrow> completer \<Rightarrow> string \<Rightarrow> (string \<times> select_item list) option" where
  "command_suggestions fs cm b =
     suggestions b (map (\<lambda>c. \<lparr>it_value = sc_name c, it_label = sc_name c, it_description = sc_description c\<rparr>)
       (fuzzy_filter fs sc_name (drop 1 b) (cm_commands cm)))"

definition clamped_before :: "text_state \<Rightarrow> string option" where
  "clamped_before t =
     (if ts_line t < length (ts_lines t) then Some (take (ts_col t) (ts_lines t ! ts_line t)) else None)"

definition suggestions_before :: "file_env \<Rightarrow> completer \<Rightarrow> string \<Rightarrow> (string \<times> select_item list) option" where
  "suggestions_before fs cm b =
     (if extract_at_prefix b \<noteq> []
      then suggestions (extract_at_prefix b)
             (get_fuzzy_file_suggestions fs cm (fst (parse_path_prefix (extract_at_prefix b))))
      else if has_prefix b ''/''
      then (case cut_space b of
              (w, None) \<Rightarrow> command_suggestions fs cm b
            | (w, Some rest) \<Rightarrow> get_command_arg_suggestions fs cm (drop 1 w) rest b)
      else if extract_path_prefix b False \<noteq> []
      then suggestions (extract_path_prefix b False) (get_file_suggestions fs cm (extract_path_prefix b False))
      else None)"

definition get_suggestions :: "file_env \<Rightarrow> completer \<Rightarrow> text_state \<Rightarrow> (string \<times> select_item list) option" where
  "get_suggestions fs cm t = Option.bind (clamped_before t) (suggestions_before fs cm)"

definition get_force_file_suggestions ::
  "file_env \<Rightarrow> completer \<Rightarrow> text_state \<Rightarrow> (string \<times> select_item list) option" where
  "get_force_file_suggestions fs cm t =
     do {
       b \<leftarrow> clamped_before t;
       suggestions (extract_path_prefix b True) (get_file_suggestions fs cm (extract_path_prefix b True))
     }"

subsection \<open>Applying a completion\<close>

definition is_slash_command :: "string \<Rightarrow> string \<Rightarrow> bool" where
  "is_slash_command typed before_prefix \<longleftrightarrow>
     has_prefix typed ''/'' \<and> trim_space before_prefix = [] \<and> CHR ''/'' \<notin> set (drop 1 typed)"

text \<open>What is put in place of the prefix, and how far from its start the cursor is then.\<close>

definition inside_quote :: "select_item \<Rightarrow> bool" where
  "inside_quote it \<longleftrightarrow> has_suffix (it_label it) ''/'' \<and> has_suffix (it_value it) [double_quote]"

definition completion_text :: "string \<Rightarrow> select_item \<Rightarrow> string \<Rightarrow> string \<times> nat" where
  "completion_text before_prefix it typed =
     (if is_slash_command typed before_prefix
      then if CHR '' '' \<in> set typed
           then let cmd = (case find_last (\<lambda>c. c = CHR '' '') typed of None \<Rightarrow> [] | Some i \<Rightarrow> take (Suc i) typed)
                in (cmd @ it_value it @ '' '', length cmd + length (it_value it) + 1)
           else (''/'' @ it_value it @ '' '', length (it_value it) + 2)
      else if has_prefix typed ''@''
      then let sp = (if has_suffix (it_label it) ''/'' then [] else '' '')
           in (it_value it @ sp,
               if inside_quote it then length (it_value it) - 1 else length (it_value it) + length sp)
      else (it_value it, if inside_quote it then length (it_value it) - 1 else length (it_value it)))"

definition apply_completion :: "text_state \<Rightarrow> select_item \<Rightarrow> string \<Rightarrow> text_state option" where
  "apply_completion t it typed =
     (if length (ts_lines t) \<le> ts_line t then Some t
      else let l = ts_lines t ! ts_line t; col = min (ts_col t) (length l)
           in if col < length typed then None
              else let b = take (col - length typed) l; (s, n) = completion_text b it typed
                   in Some (t\<lparr>ts_lines := (ts_lines t)[ts_line t := b @ s @ drop col l], ts_col := length b + n\<rparr>))"

definition combined_provider :: "file_env \<Rightarrow> completer \<Rightarrow> provider" where
  "combined_provider fs cm =
     \<lparr>pv_suggest = get_suggestions fs cm, pv_apply = apply_completion, pv_forces = True,
      pv_force = get_force_file_suggestions fs cm, pv_should = (\<lambda>_. True)\<rparr>"

subsection \<open>Suggestions end where the cursor stands\<close>










subsection \<open>What a completion does to the text\<close>











definition completing_env :: "editor_env \<Rightarrow> file_env \<Rightarrow> completer option \<Rightarrow> editor_env" where
  "completing_env env fs cm = env\<lparr>ee_provider := map_option (combined_provider fs) cm\<rparr>"




definition sample_files :: file_env where
  "sample_files =
     \<lparr>fe_home = ''/home/me'', fe_lower = to_lower,
      fe_read_dir = (\<lambda>d. Some [\<lparr>de_name = ''my docs'', de_is_dir = True, de_symlink = False\<rparr>]),
      fe_stat_dir = (\<lambda>p. False), fe_tree = (\<lambda>r. [FsDir ''my docs'' []]), fe_fuzzy = (\<lambda>q xs. [0..<length xs])\<rparr>"

definition sample_completer :: completer where
  "sample_completer =
     \<lparr>cm_commands = [\<lparr>sc_name = ''help'', sc_description = ''Help''\<rparr>], cm_base = ''/work'', cm_specs = []\<rparr>"

definition item_help :: select_item where
  "item_help = \<lparr>it_value = ''help'', it_label = ''help'', it_description = ''Help''\<rparr>"



subsection \<open>Going on inside a directory\<close>
















subsection \<open>Where completions go wrong\<close>

text \<open>A completion accepted with the cursor in front of its prefix stops the program.\<close>

lemma completion_after_move_panics:
  assumes "ed_popup e \<noteq> NoPopup" and "ed_choices e = Some sl" and "get_selected_item sl = Some it"
    and "text_ok (ed_text e)" and "\<not> prefix_fits e" and "ed_jump e = None" and "\<not> ed_in_paste e"
    and "\<not> contains data paste_open" and "matches_editor_action env data ActTab"
    and "\<forall>act \<in> {ActCopy, ActUndo, ActSelectCancel, ActSelectUp, ActSelectDown}. \<not> matches_editor_action env data act"
  shows "handle_input (completing_env env fs (Some cm)) data e = Inl IndexPanic"
proof -
  have "apply_completion (ed_text e) it (ed_prefix e) = None"
    using assms(4,5) by (simp add: apply_completion_def text_ok_def prefix_fits_def Let_def min_def)
  then have "complete_on_tab (completing_env env fs (Some cm)) e = None"
    using assms(2,3) by (simp add: complete_on_tab_def take_completion_def completing_env_def combined_provider_def)
  moreover have "matches_editor_action (completing_env env fs (Some cm)) = matches_editor_action env"
    by (simp add: fun_eq_iff matches_editor_action_def completing_env_def)
  ultimately show ?thesis
    using assms by (simp add: handle_input_def plain_input_def key_input_def popup_input_def)
qed

definition sample_completing_env :: editor_env where
  "sample_completing_env = completing_env sample_editor_env sample_files (Some sample_completer)"

lemma sample_matches:
  "matches_editor_action sample_completing_env data act \<longleftrightarrow> list_ex (\<lambda>k. data = k) (default_editor_keys act)"
  "ee_matches sample_completing_env data k \<longleftrightarrow> data = k"
  by (simp_all add: matches_editor_action_def sample_completing_env_def completing_env_def sample_editor_env_def)

lemma slash_typed:
  "handle_input sample_completing_env ''/'' (new_editor 5) =
     (case insert_character sample_completing_env ''/'' False (new_editor 5) of None \<Rightarrow> Inl IndexPanic | Some e \<Rightarrow> Inr e)"
  by (simp add: handle_input_def plain_input_def key_input_def popup_input_def edit_key_def enter_key_def is_new_line_def
      movement_key_def sample_matches new_editor_def paste_open_def has_prefix_def decode_kitty_printable_def
      kitty_groups_def byte_of_def)

lemma trim_slash: "trim_space ''/'' = ''/''"
  by code_simp

lemma slash_suggestions: "suggestions_before sample_files sample_completer ''/'' = Some (''/'', [item_help])"
  by (simp add: suggestions_before_def extract_at_prefix_def token_start_index_def cut_space_def command_suggestions_def
      suggestions_def fuzzy_filter_def sample_files_def sample_completer_def has_prefix_def item_help_def)

lemma slash_offers:
  "\<exists>e. handle_input sample_completing_env ''/'' (new_editor 5) = Inr e \<and> ed_popup e = RegularPopup \<and> ed_prefix e = ''/''
     \<and> ed_choices e = Some (new_select_list [item_help] 5)
     \<and> ed_text e = at_cursor [] ''/'' [] [] \<and> ed_jump e = None \<and> \<not> ed_in_paste e"
  unfolding slash_typed
  by (simp add: insert_character_def before_typing_def new_editor_def clamp_visible_def push_undo_snapshot_def Let_def
      split_here_def current_line_def line_at_def empty_text_def set_cursor_col_def map_text_def set_line_def
      fire_on_change_def fire_on_change_text_def auto_trigger_def is_at_start_of_message_def is_slash_menu_allowed_def
      text_before_def try_trigger_autocomplete_def sample_completing_env_def completing_env_def combined_provider_def
      get_suggestions_def clamped_before_def slash_suggestions show_suggestions_def at_cursor_def trim_slash)

lemma home_keeps_offer:
  "ed_popup e = RegularPopup \<Longrightarrow> ed_jump e = None \<Longrightarrow> \<not> ed_in_paste e
     \<Longrightarrow> handle_input sample_completing_env ''home'' e = Inr (move_to_line_start e)"
  by (simp add: handle_input_def plain_input_def key_input_def popup_input_def edit_key_def sample_matches paste_open_def
      has_prefix_def)

lemma slash_home_tab_panics:
  "run_ops sample_completing_env [OpInput ''/'', OpInput ''home'', OpInput ''tab''] (new_editor 5) = Inl IndexPanic"
proof -
  from slash_offers obtain e where e: "handle_input sample_completing_env ''/'' (new_editor 5) = Inr e"
    "ed_popup e = RegularPopup" "ed_prefix e = ''/''" "ed_choices e = Some (new_select_list [item_help] 5)"
    "ed_text e = at_cursor [] ''/'' [] []" "ed_jump e = None" "\<not> ed_in_paste e" by blast
  have "get_selected_item (new_select_list [item_help] 5) = Some item_help"
    by (simp add: get_selected_item_def new_select_list_def)
  then have "handle_input sample_completing_env ''tab'' (move_to_line_start e) = Inl IndexPanic"
    unfolding sample_completing_env_def
    by (intro completion_after_move_panics)
      (simp_all add: e(2-7) move_to_line_start_def set_cursor_col_def prefix_fits_def text_ok_def at_cursor_def
        map_text_def paste_open_def has_prefix_def matches_editor_action_def sample_editor_env_def)
  with e home_keeps_offer show ?thesis by simp
qed

text \<open>The closing quote of a directory stays behind when the path is completed further.\<close>

lemma closing_quote_doubled:
  "apply_completion (at_cursor [] ([CHR ''@'', double_quote] @ ''a b/'') [double_quote] [])
     (item_of (''@'' @ quote_path ''a b/c'') ''c'') ([CHR ''@'', double_quote] @ ''a b/'') =
   Some (at_cursor [] ([CHR ''@'', double_quote] @ ''a b/c'' @ [double_quote, CHR '' '']) [double_quote] [])"
  by code_simp

text \<open>An absolute path of one step, completed at the start of a line, gets a second slash.\<close>

lemma absolute_path_doubled:
  "apply_completion (at_cursor [''x''] ''/ho'' [] []) (item_of ''/home/'' ''home/'') ''/ho'' =
   Some (at_cursor [''x''] ''//home/ '' [] [])"
  by code_simp

text \<open>A path with an equals sign is inserted without quotes and read back from the sign on.\<close>

lemma equals_sign_cuts_token:
  "quote_path ''a=b/'' = ''a=b/'' \<and> extract_at_prefix (''@'' @ quote_path ''a=b/'') = []"
  by code_simp

text \<open>Directories come first, except those that are quoted.\<close>

lemma quoted_directory_last:
  "map it_label (sort_items [item_of (quote_path ''a b/'') ''a b/'', item_of ''c'' ''c'', item_of ''d/'' ''d/'']) =
   [''d/'', ''a b/'', ''c'']"
  by code_simp

text \<open>No more than ten thousand files are offered for an at sign token without a directory.\<close>

lemma offered_files_bounded: "length (collect_files fs root) \<le> max_walk_files"
  by (simp add: collect_files_def)

end
