(* ===== verification/ModelFamily.thy ===== *)
theory ModelFamily
  imports GoStrings "HOL-Library.List_Lexorder" "HOL-Library.Char_ord"
begin

text \<open>
  What the identifier of a model says about its lineage (\<^verbatim>\<open>pkg/ai/family.go\<close>): its family, its product
  line, its generation, and the newest generation of a product line.
\<close>

abbreviation hyphen :: char where "hyphen \<equiv> CHR ''-''"
abbreviation dot :: char where "dot \<equiv> CHR ''.''"

definition decimal :: "char \<Rightarrow> bool" where
  "decimal c \<longleftrightarrow> c \<in> set ''0123456789''"

definition lower_letter :: "char \<Rightarrow> bool" where
  "lower_letter c \<longleftrightarrow> c \<in> set ''abcdefghijklmnopqrstuvwxyz''"

subsection \<open>Normal form of an identifier\<close>

text \<open>Dotted prefixes: from the last dot on that a lower-case letter and later a hyphen follow.\<close>

fun strip_dotted :: "string \<Rightarrow> string \<Rightarrow> string" where
  "strip_dotted s [] = s"
| "strip_dotted s (c # rest) =
     (if c = dot \<and> rest \<noteq> [] \<and> lower_letter (hd rest) \<and> hyphen \<in> set rest then strip_dotted rest rest
      else strip_dotted s rest)"

text \<open>The expressions \<^verbatim>\<open>-v\d+$\<close> and \<^verbatim>\<open>-\d{8}$\<close>, taken off.\<close>

definition strip_revision :: "string \<Rightarrow> string" where
  "strip_revision s =
     (let ds = takeWhile decimal (rev s); r = drop (length ds) (rev s)
      in if ds \<noteq> [] \<and> has_prefix r ''v-'' then rev (drop 2 r) else s)"

definition strip_date :: "string \<Rightarrow> string" where
  "strip_date s =
     (if 9 \<le> length s \<and> s ! (length s - 9) = hyphen \<and> list_all decimal (drop (length s - 8) s)
      then take (length s - 9) s else s)"

definition family_tags :: "string list" where
  "family_tags = [''-latest'', ''-preview'', ''-exp'', ''-free'', ''-customtools'']"

function remove_all :: "string \<Rightarrow> string \<Rightarrow> string" where
  "remove_all tag [] = []"
| "remove_all tag (c # s) =
     (if tag \<noteq> [] \<and> has_prefix (c # s) tag then remove_all tag (drop (length tag) (c # s))
      else c # remove_all tag s)"
  by pat_completeness auto

termination
  by (relation "measure (\<lambda>(tag, s). length s)") auto

definition after_slash :: "string \<Rightarrow> string" where
  "after_slash s = (case find_last (\<lambda>c. c = CHR ''/'') s of None \<Rightarrow> s | Some i \<Rightarrow> drop (Suc i) s)"

definition strip_qualifier :: "string \<Rightarrow> string" where
  "strip_qualifier s = (case find_last (\<lambda>c. c = CHR '':'') s of None \<Rightarrow> s | Some i \<Rightarrow> strip_revision (take i s))"

definition normalise_model_id :: "string \<Rightarrow> string" where
  "normalise_model_id s =
     (let a = after_slash s; b = to_lower (strip_dotted a a)
      in trim_right_bytes [hyphen] (fold remove_all family_tags (strip_date (strip_qualifier b))))"

subsection \<open>Tokens\<close>

definition is_alpha :: "string \<Rightarrow> bool" where
  "is_alpha s \<longleftrightarrow> s \<noteq> [] \<and> list_all lower_letter s"

definition is_version_token :: "string \<Rightarrow> bool" where
  "is_version_token s \<longleftrightarrow>
     s \<noteq> [] \<and> list_all (\<lambda>c. c = dot \<or> decimal c) (if hd s = CHR ''v'' \<and> tl s \<noteq> [] then tl s else s)"

definition expand_token :: "string \<Rightarrow> string list" where
  "expand_token p =
     (let pre = takeWhile (\<lambda>c. c \<noteq> dot) p; suf = drop (Suc (length pre)) p
      in if pre \<noteq> [] \<and> length pre < length p \<and> \<not> is_version_token p
         then if is_alpha pre \<and> is_version_token suf then [pre, suf]
              else if is_version_token suf then [pre]
              else [p]
         else [p])"

definition model_id_tokens :: "string \<Rightarrow> string list" where
  "model_id_tokens s = concat (map expand_token (split_on hyphen (normalise_model_id s)))"

definition trim_v :: "string \<Rightarrow> string" where
  "trim_v p = (if has_prefix p ''v'' then drop 1 p else p)"

text \<open>The words of the family, and the major part of the first version among them.\<close>

fun family_words :: "bool \<Rightarrow> string list \<Rightarrow> string list" where
  "family_words seen [] = []"
| "family_words seen (p # ps) =
     (if is_version_token p
      then if seen then family_words True ps
           else takeWhile (\<lambda>c. c \<noteq> dot) (trim_v p) # family_words True ps
      else p # family_words seen ps)"

definition extract_family :: "string \<Rightarrow> string" where
  "extract_family s = join [hyphen] (family_words False (model_id_tokens s))"

definition extract_lineage :: "string \<Rightarrow> string" where
  "extract_lineage s = join [hyphen] (filter (\<lambda>p. \<not> is_version_token p) (model_id_tokens s))"

subsection \<open>Generations\<close>

definition digits_value :: "string \<Rightarrow> int" where
  "digits_value s = foldl (\<lambda>n c. 10 * n + (int (byte_of c) - 48)) 0 s"

text \<open>\<^verbatim>\<open>strconv.Atoi\<close> on a string of digits.\<close>

definition atoi_digits :: "string \<Rightarrow> int option" where
  "atoi_digits s = (if s \<noteq> [] \<and> list_all decimal s \<and> digits_value s < 2 ^ 63 then Some (digits_value s) else None)"

fun all_parsed :: "'a option list \<Rightarrow> 'a list option" where
  "all_parsed [] = Some []"
| "all_parsed (None # xs) = None"
| "all_parsed (Some x # xs) = map_option (Cons x) (all_parsed xs)"

definition generation_vector :: "string \<Rightarrow> int list option" where
  "generation_vector s =
     (case all_parsed (map atoi_digits (concat (map (\<lambda>p. split_on dot (trim_v p))
              (filter is_version_token (model_id_tokens s))))) of
        None \<Rightarrow> None
      | Some v \<Rightarrow> if v = [] then None else Some v)"

fun compare_generations :: "int list \<Rightarrow> int list \<Rightarrow> int" where
  "compare_generations [] [] = 0"
| "compare_generations [] (y # ys) = (if 0 < y then - 1 else if y < 0 then 1 else compare_generations [] ys)"
| "compare_generations (x # xs) [] = (if 0 < x then 1 else if x < 0 then - 1 else compare_generations xs [])"
| "compare_generations (x # xs) (y # ys) = (if x < y then - 1 else if y < x then 1 else compare_generations xs ys)"

subsection \<open>Product lines\<close>

definition is_dotted_digits :: "string \<Rightarrow> bool" where
  "is_dotted_digits s \<longleftrightarrow>
     s \<noteq> [] \<and> hd s \<noteq> dot \<and> last s \<noteq> dot \<and> \<not> contains s ''..'' \<and> list_all (\<lambda>c. c = dot \<or> decimal c) s"

definition is_ascii_letter :: "char \<Rightarrow> bool" where
  "is_ascii_letter c \<longleftrightarrow> lower_letter c \<or> c \<in> set ''ABCDEFGHIJKLMNOPQRSTUVWXYZ''"

text \<open>A segment, as the letter in front of a version and the version.\<close>

definition version_of :: "string \<Rightarrow> (string \<times> string) option" where
  "version_of seg =
     (if is_dotted_digits seg then Some ([], seg)
      else if 1 < length seg \<and> is_ascii_letter (hd seg) \<and> is_dotted_digits (tl seg) then Some ([hd seg], tl seg)
      else None)"

definition version_part :: "string \<Rightarrow> int option" where
  "version_part p =
     (if 4 \<le> length p \<or> (1 < length p \<and> hd p = CHR ''0'') then None else Some (digits_value p))"

fun product_segments :: "bool \<Rightarrow> string list \<Rightarrow> (string list \<times> int list) option" where
  "product_segments in_run [] = Some ([], [])"
| "product_segments in_run (seg # segs) =
     (case version_of seg of
        None \<Rightarrow> map_option (\<lambda>(out, v). (seg # out, v)) (product_segments False segs)
      | Some (pre, ver) \<Rightarrow>
          (case all_parsed (map version_part (split_on dot ver)) of
             None \<Rightarrow> None
           | Some ns \<Rightarrow>
               map_option (\<lambda>(out, v). ((if pre = [] \<and> in_run then [] else [pre @ ''#'']) @ out, ns @ v))
                 (product_segments (pre = []) segs)))"

definition product_line :: "string \<Rightarrow> (string \<times> int list) option" where
  "product_line s =
     (case product_segments False (split_on hyphen s) of
        None \<Rightarrow> None
      | Some (out, v) \<Rightarrow> if v = [] then None else Some (join [hyphen] out, v))"

text \<open>The newest generation among the candidates, ties to the smallest identifier.\<close>

fun newest_from :: "string \<Rightarrow> string \<Rightarrow> int list \<Rightarrow> string \<Rightarrow> string list \<Rightarrow> string" where
  "newest_from anchor shape best best_id [] = best_id"
| "newest_from anchor shape best best_id (i # cs) =
     (case product_line i of
        None \<Rightarrow> newest_from anchor shape best best_id cs
      | Some (s, v) \<Rightarrow>
          if s = shape \<and> (0 < compare_generations v best
               \<or> (compare_generations v best = 0 \<and> best_id \<noteq> anchor \<and> i < best_id))
          then newest_from anchor shape v i cs
          else newest_from anchor shape best best_id cs)"

definition newest_in_product_line :: "string \<Rightarrow> string list \<Rightarrow> string" where
  "newest_in_product_line anchor cs =
     (case product_line anchor of
        None \<Rightarrow> anchor
      | Some (shape, v) \<Rightarrow> newest_from anchor shape v anchor cs)"

subsection \<open>Generations are ordered\<close>

lemma compare_self [simp]: "compare_generations v v = 0"
  by (induction v) auto

lemma compare_swap: "compare_generations b a = - compare_generations a b"
  by (induction a b rule: compare_generations.induct) auto

lemma compare_values: "compare_generations a b \<in> {- 1, 0, 1}"
  by (induction a b rule: compare_generations.induct) auto

definition major :: "int list \<Rightarrow> int" where
  "major v = (case v of [] \<Rightarrow> 0 | x # xs \<Rightarrow> x)"

lemma compare_major:
  "compare_generations a b =
     (if major a < major b then - 1 else if major b < major a then 1 else compare_generations (tl a) (tl b))"
  by (cases a; cases b) (auto simp: major_def)

lemma compare_trans:
  "compare_generations a b \<le> 0 \<Longrightarrow> compare_generations b c \<le> 0
     \<Longrightarrow> compare_generations a c \<le> 0 \<and> (compare_generations a b < 0 \<or> compare_generations b c < 0 \<longrightarrow> compare_generations a c < 0)"
proof (induction "length a + length b + length c" arbitrary: a b c rule: less_induct)
  case less
  show ?case
  proof (cases "a = [] \<and> b = [] \<and> c = []")
    case False
    then have "length (tl a) + length (tl b) + length (tl c) < length a + length b + length c"
      by (cases a; cases b; cases c) auto
    note tails = less.hyps [OF this]
    show ?thesis
      using less.prems tails compare_major [of a b] compare_major [of b c] compare_major [of a c]
      by (cases "major a < major b"; cases "major b < major c"; cases "major a = major b"; cases "major b = major c")
        simp_all
  qed simp
qed

text \<open>What beats what among the candidates of a shape: a newer generation, or the same with a smaller identifier.\<close>

definition newest_ok :: "string \<Rightarrow> string \<Rightarrow> int list \<Rightarrow> string set \<Rightarrow> int list \<Rightarrow> string \<Rightarrow> bool" where
  "newest_ok anchor shape v0 cs v r \<longleftrightarrow>
     product_line r = Some (shape, v) \<and> (r = anchor \<and> v = v0 \<or> r \<noteq> anchor \<and> r \<in> cs \<and> 0 < compare_generations v v0)
     \<and> (\<forall>i \<in> cs. \<forall>w. product_line i = Some (shape, w) \<longrightarrow>
          compare_generations w v < 0 \<or> compare_generations w v = 0 \<and> (r = anchor \<or> r \<le> i))"

lemma newest_take:
  assumes anchor: "product_line anchor = Some (shape, v0)" and old: "newest_ok anchor shape v0 ds best best_id"
    and line: "product_line i = Some (shape, v)"
    and better: "0 < compare_generations v best \<or> compare_generations v best = 0 \<and> best_id \<noteq> anchor \<and> i < best_id"
  shows "newest_ok anchor shape v0 (insert i ds) v i"
proof -
  have up: "compare_generations best v \<le> 0" using better compare_swap [of v best] by auto
  have since: "compare_generations v0 best \<le> 0" using old compare_swap [of v0 best] by (auto simp: newest_ok_def)
  have "compare_generations v0 best < 0 \<or> compare_generations best v < 0"
    using old better compare_swap [of v0 best] compare_swap [of best v] by (auto simp: newest_ok_def)
  with compare_trans [OF since up] compare_swap [of v0 v] have newer: "0 < compare_generations v v0" by simp
  with line anchor have "i \<noteq> anchor" by auto
  moreover have "compare_generations w v < 0 \<or> compare_generations w v = 0 \<and> i \<le> j"
    if "j \<in> insert i ds" "product_line j = Some (shape, w)" for j w
  proof (cases "j = i")
    case True
    with that(2) line show ?thesis by simp
  next
    case False
    with that old have j: "compare_generations w best < 0 \<or> compare_generations w best = 0 \<and> (best_id = anchor \<or> best_id \<le> j)"
      by (auto simp: newest_ok_def)
    then have "compare_generations w best \<le> 0" by auto
    from compare_trans [OF this up] j better compare_swap [of v best] show ?thesis by force
  qed
  ultimately show ?thesis using line newer by (simp add: newest_ok_def)
qed

lemma newest_skip:
  assumes "newest_ok anchor shape v0 ds best best_id"
    and "\<And>w. product_line i = Some (shape, w) \<Longrightarrow> \<not> (0 < compare_generations w best
      \<or> compare_generations w best = 0 \<and> best_id \<noteq> anchor \<and> i < best_id)"
  shows "newest_ok anchor shape v0 (insert i ds) best best_id"
  using assms unfolding newest_ok_def by (auto simp: not_less)

lemma newest_from_ok:
  "product_line anchor = Some (shape, v0) \<Longrightarrow> newest_ok anchor shape v0 ds best best_id \<Longrightarrow>
     \<exists>v. newest_ok anchor shape v0 (set cs \<union> ds) v (newest_from anchor shape best best_id cs)"
proof (induction cs arbitrary: ds best best_id)
  case (Cons i cs)
  let ?better = "\<lambda>v. 0 < compare_generations v best \<or> compare_generations v best = 0 \<and> best_id \<noteq> anchor \<and> i < best_id"
  show ?case
  proof (cases "\<exists>v. product_line i = Some (shape, v) \<and> ?better v")
    case True
    then obtain v where v: "product_line i = Some (shape, v)" "?better v" by blast
    from Cons.IH [OF Cons.prems(1) newest_take [OF Cons.prems v]] v show ?thesis by simp
  next
    case False
    then have "newest_ok anchor shape v0 (insert i ds) best best_id"
      by (intro newest_skip [OF Cons.prems(2)]) blast
    from Cons.IH [OF Cons.prems(1) this] False show ?thesis
      by (auto split: option.split)
  qed
qed auto

lemma newest_ok_unique:
  assumes "newest_ok anchor shape v0 cs v r" and "newest_ok anchor shape v0 cs v' r'"
    and "product_line anchor = Some (shape, v0)"
  shows "r = r'"
proof -
  have in_cs: "r = anchor \<or> r \<in> cs" "r' = anchor \<or> r' \<in> cs" using assms by (auto simp: newest_ok_def)
  note swap = compare_swap [of v v'] compare_swap [of v0 v] compare_swap [of v0 v']
  show ?thesis
    using assms in_cs swap unfolding newest_ok_def by (cases "r = anchor"; cases "r' = anchor") force+
qed

text \<open>
  C39: The model chosen for a product line is its newest generation: it is the anchor or a candidate of the
  same shape strictly newer than it, no candidate of the shape is newer, among equals the smallest
  identifier is taken, and the order and multiplicity of the candidates do not matter. An anchor without a
  version is left as it is.
\<close>

theorem newest_is_newest:
  "case product_line anchor of
     None \<Rightarrow> newest_in_product_line anchor cs = anchor
   | Some (shape, v0) \<Rightarrow>
       {r. \<exists>v. newest_ok anchor shape v0 (set cs) v r} = {newest_in_product_line anchor cs}"
proof (cases "product_line anchor")
  case (Some line)
  obtain shape v0 where line: "line = (shape, v0)" by (rule prod.exhaust)
  with Some have anchor: "product_line anchor = Some (shape, v0)" by simp
  then have "newest_ok anchor shape v0 {} v0 anchor" by (simp add: newest_ok_def)
  from newest_from_ok [OF anchor this, of cs]
  obtain v where v: "newest_ok anchor shape v0 (set cs) v (newest_in_product_line anchor cs)"
    by (auto simp: newest_in_product_line_def anchor)
  with newest_ok_unique [OF _ _ anchor] show ?thesis unfolding anchor by (auto simp: Some)
qed (simp add: newest_in_product_line_def)

end
