(* ===== verification/ModelConfig.thy ===== *)
theory ModelConfig
  imports ModelFamily Assoc Json Complex_Main
begin

text \<open>
  How the registry of models is built (\<^verbatim>\<open>pkg/models/modelregistry.go\<close>): the layers of configuration and their
  merge, validation, the models they define, overrides of built-in models, and the catalogue that is published
  as data (\<^verbatim>\<open>pkg/models/catalog.go\<close>).

  A layer is a decoded document, or what went wrong reading it. Go's maps are association lists with distinct
  keys; where the order in which Go runs over a map can be seen in the result, it is a parameter. So are the
  built-in models, the accounts, and what a configured value stands for: the environment, or a command.
  \<^verbatim>\<open>float64\<close> prices and scores are only copied and compared.
\<close>

subsection \<open>Models\<close>

type_synonym headers = "(string \<times> string) list"

record prices =
  pc_input :: real
  pc_output :: real
  pc_cache_read :: real
  pc_cache_write :: real

record max_price =
  mp_prompt :: "json option"
  mp_completion :: "json option"
  mp_image :: "json option"
  mp_audio :: "json option"
  mp_request :: "json option"

record open_router_routing =
  or_allow_fallbacks :: "bool option"
  or_require_parameters :: "bool option"
  or_data_collection :: string
  or_zdr :: "bool option"
  or_distillable :: "bool option"
  or_order :: "string list option"
  or_only :: "string list option"
  or_ignore :: "string list option"
  or_quantizations :: "string list option"
  or_sort :: "json option"
  or_max_price :: "max_price option"
  or_throughput :: "json option"
  or_latency :: "json option"

record vercel_routing =
  vg_only :: "string list option"
  vg_order :: "string list option"

text \<open>The settings of a document and those of a model have the same fields; one record stands for both.\<close>

record compat_config =
  cc_store :: "bool option"
  cc_developer_role :: "bool option"
  cc_reasoning_effort :: "bool option"
  cc_usage_streaming :: "bool option"
  cc_max_tokens_field :: string
  cc_tool_result_name :: "bool option"
  cc_assistant_after :: "bool option"
  cc_thinking_text :: "bool option"
  cc_thinking_format :: string
  cc_open_router :: "open_router_routing option"
  cc_vercel :: "vercel_routing option"

datatype compat = OpenAICompat compat_config | OtherCompat json

record model =
  mo_id :: string
  mo_name :: string
  mo_api :: string
  mo_provider :: string
  mo_base_url :: string
  mo_reasoning :: bool
  mo_effort_values :: "string list"
  mo_input :: "string list"
  mo_cost :: prices
  mo_context_window :: int
  mo_max_tokens :: int
  mo_headers :: headers
  mo_compat :: "compat option"
  mo_server_tools :: "string list"
  mo_compaction :: bool
  mo_adaptive_thinking :: bool
  mo_swe_score :: real
  mo_inferred :: bool

definition model_key :: "model \<Rightarrow> string \<times> string" where
  "model_key m = (mo_provider m, mo_id m)"

subsection \<open>Documents\<close>

record cost_config =
  co_input :: "real option"
  co_output :: "real option"
  co_cache_read :: "real option"
  co_cache_write :: "real option"

record model_def =
  md_id :: string
  md_name :: string
  md_api :: string
  md_base_url :: string
  md_reasoning :: "bool option"
  md_effort_values :: "string list"
  md_input :: "string list option"
  md_cost :: "cost_config option"
  md_context_window :: "int option"
  md_max_tokens :: "int option"
  md_headers :: headers
  md_compat :: "compat_config option"
  md_server_tools :: "string list"
  md_compaction :: "bool option"
  md_adaptive_thinking :: "bool option"
  md_swe_score :: "real option"

record model_override =
  ov_name :: string
  ov_reasoning :: "bool option"
  ov_effort_values :: "string list option"
  ov_input :: "string list option"
  ov_cost :: "cost_config option"
  ov_context_window :: "int option"
  ov_max_tokens :: "int option"
  ov_headers :: headers
  ov_compat :: "compat_config option"
  ov_server_tools :: "string list option"
  ov_compaction :: "bool option"
  ov_adaptive_thinking :: "bool option"
  ov_swe_score :: "real option"

record provider_cfg =
  pv_base_url :: string
  pv_api_key :: string
  pv_api :: string
  pv_headers :: headers
  pv_auth_header :: "bool option"
  pv_models :: "model_def list"
  pv_overrides :: "(string \<times> model_override) list"

text \<open>A document without the field \<^verbatim>\<open>providers\<close> has none.\<close>

type_synonym models_config = "(string \<times> provider_cfg) list option"

subsection \<open>What a configured value stands for\<close>

text \<open>The output of a command, trimmed, or nothing when it fails; it is run once.\<close>

record value_env =
  ve_getenv :: "string \<Rightarrow> string"
  ve_command :: "string \<Rightarrow> string"

definition resolve_config_value :: "value_env \<Rightarrow> string \<Rightarrow> string" where
  "resolve_config_value env c =
     (if c = [] then []
      else if has_prefix c ''!'' then ve_command env c
      else if ve_getenv env c \<noteq> [] then ve_getenv env c else c)"

definition resolve_headers :: "value_env \<Rightarrow> headers \<Rightarrow> headers" where
  "resolve_headers env hs =
     filter (\<lambda>(k, v). v \<noteq> []) (map (\<lambda>(k, v). (k, resolve_config_value env v)) hs)"

definition put_all :: "headers \<Rightarrow> headers \<Rightarrow> headers" where
  "put_all new old = fold (\<lambda>(k, v). put k v) new old"

subsection \<open>Overriding a built-in model\<close>

definition over :: "'a option \<Rightarrow> 'a option \<Rightarrow> 'a option" where
  "over new old = (case new of None \<Rightarrow> old | Some x \<Rightarrow> Some x)"

definition over_text :: "string \<Rightarrow> string \<Rightarrow> string" where
  "over_text new old = (if new \<noteq> [] then new else old)"

definition no_compat :: compat_config where
  "no_compat = \<lparr>cc_store = None, cc_developer_role = None, cc_reasoning_effort = None, cc_usage_streaming = None,
     cc_max_tokens_field = [], cc_tool_result_name = None, cc_assistant_after = None, cc_thinking_text = None,
     cc_thinking_format = [], cc_open_router = None, cc_vercel = None\<rparr>"

definition merge_open_router :: "open_router_routing \<Rightarrow> open_router_routing option \<Rightarrow> open_router_routing" where
  "merge_open_router new base =
     (case base of
        None \<Rightarrow> new
      | Some b \<Rightarrow>
          \<lparr>or_allow_fallbacks = over (or_allow_fallbacks new) (or_allow_fallbacks b),
           or_require_parameters = over (or_require_parameters new) (or_require_parameters b),
           or_data_collection = over_text (or_data_collection new) (or_data_collection b),
           or_zdr = over (or_zdr new) (or_zdr b),
           or_distillable = over (or_distillable new) (or_distillable b),
           or_order = over (or_order new) (or_order b),
           or_only = over (or_only new) (or_only b),
           or_ignore = over (or_ignore new) (or_ignore b),
           or_quantizations = over (or_quantizations new) (or_quantizations b),
           or_sort = over (or_sort new) (or_sort b),
           or_max_price = over (or_max_price new) (or_max_price b),
           or_throughput = over (or_throughput new) (or_throughput b),
           or_latency = over (or_latency new) (or_latency b)\<rparr>)"

definition merge_vercel :: "vercel_routing \<Rightarrow> vercel_routing option \<Rightarrow> vercel_routing" where
  "merge_vercel new base =
     (case base of
        None \<Rightarrow> new
      | Some b \<Rightarrow> \<lparr>vg_only = over (vg_only new) (vg_only b), vg_order = over (vg_order new) (vg_order b)\<rparr>)"

definition merge_compat :: "compat option \<Rightarrow> compat_config option \<Rightarrow> compat option" where
  "merge_compat base override =
     (case override of
        None \<Rightarrow> base
      | Some n \<Rightarrow>
          let b = (case base of Some (OpenAICompat c) \<Rightarrow> c | _ \<Rightarrow> no_compat)
          in Some (OpenAICompat
               \<lparr>cc_store = over (cc_store n) (cc_store b),
                cc_developer_role = over (cc_developer_role n) (cc_developer_role b),
                cc_reasoning_effort = over (cc_reasoning_effort n) (cc_reasoning_effort b),
                cc_usage_streaming = over (cc_usage_streaming n) (cc_usage_streaming b),
                cc_max_tokens_field = over_text (cc_max_tokens_field n) (cc_max_tokens_field b),
                cc_tool_result_name = over (cc_tool_result_name n) (cc_tool_result_name b),
                cc_assistant_after = over (cc_assistant_after n) (cc_assistant_after b),
                cc_thinking_text = over (cc_thinking_text n) (cc_thinking_text b),
                cc_thinking_format = over_text (cc_thinking_format n) (cc_thinking_format b),
                cc_open_router =
                  (case cc_open_router n of None \<Rightarrow> cc_open_router b | Some r \<Rightarrow> Some (merge_open_router r (cc_open_router b))),
                cc_vercel = (case cc_vercel n of None \<Rightarrow> cc_vercel b | Some v \<Rightarrow> Some (merge_vercel v (cc_vercel b)))\<rparr>))"

definition merge_cost :: "prices \<Rightarrow> cost_config \<Rightarrow> prices" where
  "merge_cost p c =
     \<lparr>pc_input = the_default (pc_input p) (co_input c), pc_output = the_default (pc_output p) (co_output c),
      pc_cache_read = the_default (pc_cache_read p) (co_cache_read c),
      pc_cache_write = the_default (pc_cache_write p) (co_cache_write c)\<rparr>"

definition merge_headers :: "value_env \<Rightarrow> headers \<Rightarrow> headers \<Rightarrow> headers" where
  "merge_headers env base configured =
     (let resolved = resolve_headers env configured
      in if resolved = [] then base else put_all resolved (put_all base []))"

definition apply_model_override :: "value_env \<Rightarrow> model \<Rightarrow> model_override \<Rightarrow> model" where
  "apply_model_override env m ov =
     m\<lparr>mo_name := over_text (ov_name ov) (mo_name m),
       mo_reasoning := the_default (mo_reasoning m) (ov_reasoning ov),
       mo_effort_values := the_default (mo_effort_values m) (ov_effort_values ov),
       mo_input := the_default (mo_input m) (ov_input ov),
       mo_context_window := the_default (mo_context_window m) (ov_context_window ov),
       mo_max_tokens := the_default (mo_max_tokens m) (ov_max_tokens ov),
       mo_server_tools := the_default (mo_server_tools m) (ov_server_tools ov),
       mo_compaction := the_default (mo_compaction m) (ov_compaction ov),
       mo_adaptive_thinking := the_default (mo_adaptive_thinking m) (ov_adaptive_thinking ov),
       mo_swe_score := the_default (mo_swe_score m) (ov_swe_score ov),
       mo_cost := (case ov_cost ov of None \<Rightarrow> mo_cost m | Some c \<Rightarrow> merge_cost (mo_cost m) c),
       mo_headers := merge_headers env (mo_headers m) (ov_headers ov),
       mo_compat := merge_compat (mo_compat m) (ov_compat ov)\<rparr>"

subsection \<open>Merging layers\<close>

definition merge_model_defs :: "model_def list \<Rightarrow> model_def list \<Rightarrow> model_def list" where
  "merge_model_defs base overlay = filter (\<lambda>m. md_id m \<notin> md_id ` set overlay) base @ overlay"

definition merge_provider :: "provider_cfg \<Rightarrow> provider_cfg \<Rightarrow> provider_cfg" where
  "merge_provider bp op =
     \<lparr>pv_base_url = over_text (pv_base_url op) (pv_base_url bp),
      pv_api_key = over_text (pv_api_key op) (pv_api_key bp),
      pv_api = over_text (pv_api op) (pv_api bp),
      pv_headers = put_all (pv_headers op) (pv_headers bp),
      pv_auth_header = over (pv_auth_header op) (pv_auth_header bp),
      pv_models = (if pv_models op = [] then pv_models bp else merge_model_defs (pv_models bp) (pv_models op)),
      pv_overrides = fold (\<lambda>(i, ov). put i ov) (pv_overrides op) (pv_overrides bp)\<rparr>"

definition merge_models_config :: "models_config \<Rightarrow> models_config \<Rightarrow> models_config" where
  "merge_models_config base overlay =
     (case overlay of
        None \<Rightarrow> base
      | Some ps \<Rightarrow>
          Some (fold (\<lambda>(p, op) b. put p (case map_of b p of None \<Rightarrow> op | Some bp \<Rightarrow> merge_provider bp op) b)
                  ps (the_default [] base)))"

definition origin_key :: "string \<Rightarrow> string \<Rightarrow> string" where
  "origin_key p i = p @ [CHR 0x00] @ i"

definition record_origins :: "headers \<Rightarrow> models_config \<Rightarrow> string \<Rightarrow> headers" where
  "record_origins origins cfg origin =
     fold (\<lambda>(p, pc) os.
            fold (\<lambda>(i, ov). put (origin_key p i) origin) (pv_overrides pc)
              (fold (\<lambda>d. put (origin_key p (md_id d)) origin) (pv_models pc) os))
       (the_default [] cfg) origins"

subsection \<open>Validation\<close>

definition first_non_empty :: "string list \<Rightarrow> string" where
  "first_non_empty vs = (case find (\<lambda>v. v \<noteq> []) vs of None \<Rightarrow> [] | Some v \<Rightarrow> v)"

definition is_unix_url :: "string \<Rightarrow> bool" where
  "is_unix_url u = has_prefix u ''unix://''"

definition is_keyless_provider :: "provider_cfg \<Rightarrow> bool" where
  "is_keyless_provider pc \<longleftrightarrow>
     pv_api_key pc = [] \<and> pv_models pc \<noteq> []
     \<and> list_all (\<lambda>d. is_unix_url (first_non_empty [md_base_url d, pv_base_url pc])) (pv_models pc)"

fun first_error :: "('a \<Rightarrow> string option) \<Rightarrow> 'a list \<Rightarrow> string option" where
  "first_error f [] = None"
| "first_error f (x # xs) = (case f x of None \<Rightarrow> first_error f xs | Some e \<Rightarrow> Some e)"

definition validate_model :: "bool \<Rightarrow> string \<Rightarrow> string \<Rightarrow> model_def \<Rightarrow> string option" where
  "validate_model built_in api p d =
     (if api = [] \<and> md_api d = [] \<and> \<not> built_in
      then Some (''Provider '' @ p @ '', model '' @ md_id d @ '': no \"api\" specified. Set at provider or model level'')
      else if md_id d = [] then Some (''Provider '' @ p @ '': model missing \"id\"'')
      else if (case md_context_window d of None \<Rightarrow> False | Some n \<Rightarrow> n \<le> 0)
      then Some (''Provider '' @ p @ '', model '' @ md_id d @ '': invalid contextWindow'')
      else if (case md_max_tokens d of None \<Rightarrow> False | Some n \<Rightarrow> n \<le> 0)
      then Some (''Provider '' @ p @ '', model '' @ md_id d @ '': invalid maxTokens'')
      else None)"

definition validate_provider :: "string list \<Rightarrow> string \<times> provider_cfg \<Rightarrow> string option" where
  "validate_provider built_ins = (\<lambda>(p, pc).
     if pv_models pc = [] \<and> pv_base_url pc = [] \<and> pv_overrides pc = []
     then Some (''Provider '' @ p @ '': must specify \"baseUrl\", \"modelOverrides\", or \"models\"'')
     else if pv_models pc \<noteq> [] \<and> p \<notin> set built_ins \<and> pv_base_url pc = []
     then Some (''Provider '' @ p @ '': \"baseUrl\" is required when defining custom models'')
     else if pv_models pc \<noteq> [] \<and> p \<notin> set built_ins \<and> pv_api_key pc = [] \<and> \<not> is_keyless_provider pc
     then Some (''Provider '' @ p @ '': \"apiKey\" is required when defining custom models (unless every model's baseUrl is unix://)'')
     else first_error (validate_model (p \<in> set built_ins) (pv_api pc) p) (pv_models pc))"

text \<open>The providers come in the order in which Go runs over them.\<close>

definition validate_models_config :: "string list \<Rightarrow> (string \<times> provider_cfg) list \<Rightarrow> string option" where
  "validate_models_config built_ins ps = first_error (validate_provider built_ins) ps"

subsection \<open>Custom models\<close>

record account =
  ac_slot :: string
  ac_id :: string
  ac_label :: string
  ac_overrides :: "(string \<times> string) list"

text \<open>
  What a build reads: the built-in models of a provider in the orders of the two calls that list them (a map
  has no first entry), the orders in which the two loops over the configuration run, the accounts, and the
  changes the OAuth providers make.
\<close>

record build_env =
  be_values :: value_env
  be_providers :: "string list"
  be_listed :: "string \<Rightarrow> model list"
  be_listed_again :: "string \<Rightarrow> model list"
  be_check_order :: "(string \<times> provider_cfg) list \<Rightarrow> (string \<times> provider_cfg) list"
  be_parse_order :: "(string \<times> provider_cfg) list \<Rightarrow> (string \<times> provider_cfg) list"
  be_accounts :: "string \<Rightarrow> account list"
  be_modify :: "(model list \<Rightarrow> model list option) list"

definition built_in_defaults :: "build_env \<Rightarrow> string \<Rightarrow> (string \<times> string) option" where
  "built_in_defaults env p =
     (if p \<notin> set (be_providers env) then None
      else case be_listed_again env p of [] \<Rightarrow> None | m # ms \<Rightarrow> Some (mo_api m, mo_base_url m))"

definition custom_headers :: "value_env \<Rightarrow> provider_cfg \<Rightarrow> model_def \<Rightarrow> headers" where
  "custom_headers env pc d =
     (let hs = put_all (resolve_headers env (md_headers d)) (put_all (resolve_headers env (pv_headers pc)) []);
          key = resolve_config_value env (pv_api_key pc)
      in if pv_auth_header pc = Some True \<and> pv_api_key pc \<noteq> [] \<and> key \<noteq> []
         then put ''Authorization'' (''Bearer '' @ key) hs else hs)"

definition no_prices :: prices where
  "no_prices = \<lparr>pc_input = 0, pc_output = 0, pc_cache_read = 0, pc_cache_write = 0\<rparr>"

definition custom_api :: "build_env \<Rightarrow> string \<Rightarrow> provider_cfg \<Rightarrow> model_def \<Rightarrow> string" where
  "custom_api env p pc d =
     first_non_empty [md_api d, pv_api pc, (case built_in_defaults env p of None \<Rightarrow> [] | Some (a, u) \<Rightarrow> a)]"

definition custom_base_url :: "build_env \<Rightarrow> string \<Rightarrow> provider_cfg \<Rightarrow> model_def \<Rightarrow> string" where
  "custom_base_url env p pc d =
     first_non_empty [md_base_url d, pv_base_url pc, (case built_in_defaults env p of None \<Rightarrow> [] | Some (a, u) \<Rightarrow> u)]"

definition custom_model :: "build_env \<Rightarrow> string \<Rightarrow> provider_cfg \<Rightarrow> model_def \<Rightarrow> model option" where
  "custom_model env p pc d =
     (if custom_api env p pc d = [] \<or> custom_base_url env p pc d = [] then None
      else Some
        \<lparr>mo_id = md_id d,
         mo_name = over_text (md_name d) (md_id d),
         mo_api = custom_api env p pc d,
         mo_provider = p,
         mo_base_url = custom_base_url env p pc d,
         mo_reasoning = the_default False (md_reasoning d),
         mo_effort_values = md_effort_values d,
         mo_input = the_default [''text''] (md_input d),
         mo_cost = (case md_cost d of None \<Rightarrow> no_prices | Some c \<Rightarrow> merge_cost no_prices c),
         mo_context_window = the_default 128000 (md_context_window d),
         mo_max_tokens = the_default 16384 (md_max_tokens d),
         mo_headers = custom_headers (be_values env) pc d,
         mo_compat = map_option OpenAICompat (md_compat d),
         mo_server_tools = md_server_tools d,
         mo_compaction = the_default False (md_compaction d),
         mo_adaptive_thinking = the_default False (md_adaptive_thinking d),
         mo_swe_score = the_default 0 (md_swe_score d),
         mo_inferred = False\<rparr>)"

definition provider_models :: "build_env \<Rightarrow> string \<times> provider_cfg \<Rightarrow> model list" where
  "provider_models env = (\<lambda>(p, pc). List.map_filter (custom_model env p pc) (pv_models pc))"

definition parse_models :: "build_env \<Rightarrow> (string \<times> provider_cfg) list \<Rightarrow> headers \<Rightarrow> model list \<times> headers" where
  "parse_models env ps keys =
     (concat (map (provider_models env) (be_parse_order env ps)),
      fold (\<lambda>(p, pc). if pv_models pc \<noteq> [] \<and> (pv_api_key pc \<noteq> [] \<or> is_keyless_provider pc) then put p (pv_api_key pc) else id)
        ps keys)"

subsection \<open>Loading the layers\<close>

datatype layer = Absent | Unreadable string | Malformed string | Document models_config

record provider_override =
  po_base_url :: string
  po_headers :: headers
  po_api_key :: string

record custom_models =
  cm_models :: "model list"
  cm_overrides :: "(string \<times> provider_override) list"
  cm_model_overrides :: "(string \<times> (string \<times> model_override) list) list"
  cm_keys :: headers
  cm_origins :: headers
  cm_error :: string

definition empty_custom_models :: "string \<Rightarrow> custom_models" where
  "empty_custom_models e =
     \<lparr>cm_models = [], cm_overrides = [], cm_model_overrides = [], cm_keys = [], cm_origins = [], cm_error = e\<rparr>"

definition file_note :: "string \<Rightarrow> string" where
  "file_note path = [CHR 0x0A, CHR 0x0A] @ ''File: '' @ path"

definition add_layer :: "models_config \<times> headers \<Rightarrow> models_config \<Rightarrow> string \<Rightarrow> models_config \<times> headers" where
  "add_layer st cfg origin = (merge_models_config (fst st) cfg, record_origins (snd st) cfg origin)"

text \<open>The user's own file; it may be absent.\<close>

definition load_base :: "models_config \<times> headers \<Rightarrow> string \<Rightarrow> layer \<Rightarrow> string + (models_config \<times> headers)" where
  "load_base st path l =
     (case l of
        Absent \<Rightarrow> Inr st
      | Malformed e \<Rightarrow> Inl (''Failed to parse models.json: '' @ e @ file_note path)
      | Unreadable e \<Rightarrow> Inl (''Failed to load models.json: '' @ e @ file_note path)
      | Document cfg \<Rightarrow> Inr (add_layer st cfg ''user:models.json''))"

text \<open>The fragments in the order of their names; a file that goes away meanwhile is an unreadable one.\<close>

fun load_fragments :: "models_config \<times> headers \<Rightarrow> (string \<times> string \<times> layer) list \<Rightarrow> string + (models_config \<times> headers)" where
  "load_fragments st [] = Inr st"
| "load_fragments st ((path, name, l) # fs) =
     (case l of
        Absent \<Rightarrow> Inl (''Failed to load models.d fragment: open '' @ path @ '': no such file or directory'' @ file_note path)
      | Unreadable e \<Rightarrow> Inl (''Failed to load models.d fragment: '' @ e @ file_note path)
      | Malformed e \<Rightarrow> Inl (''Failed to parse models.d fragment: '' @ e @ file_note path)
      | Document None \<Rightarrow> Inl (''Invalid models.d fragment: missing \"providers\" field'' @ file_note path)
      | Document cfg \<Rightarrow> load_fragments (add_layer st cfg (''user:models.d/'' @ name)) fs)"

definition load_layers ::
  "string \<Rightarrow> layer \<Rightarrow> (string \<times> string \<times> layer) list \<Rightarrow> models_config option \<Rightarrow> string + (models_config \<times> headers)" where
  "load_layers path base fragments overlay =
     (let start = (case overlay of None \<Rightarrow> (None, []) | Some cfg \<Rightarrow> add_layer (None, []) cfg ''overlay'')
      in if path = [] then Inr start
         else case load_base start path base of
                Inl e \<Rightarrow> Inl e
              | Inr st \<Rightarrow> load_fragments st (sort_key fst fragments))"

definition provider_overrides :: "(string \<times> provider_cfg) list \<Rightarrow> (string \<times> provider_override) list" where
  "provider_overrides ps =
     map (\<lambda>(p, pc). (p, \<lparr>po_base_url = pv_base_url pc, po_headers = pv_headers pc, po_api_key = pv_api_key pc\<rparr>))
       (filter (\<lambda>(p, pc). pv_base_url pc \<noteq> [] \<or> pv_headers pc \<noteq> [] \<or> pv_api_key pc \<noteq> []) ps)"

definition provider_keys :: "(string \<times> provider_cfg) list \<Rightarrow> headers" where
  "provider_keys ps = map (\<lambda>(p, pc). (p, pv_api_key pc)) (filter (\<lambda>(p, pc). pv_api_key pc \<noteq> []) ps)"

definition overrides_by_provider :: "(string \<times> provider_cfg) list \<Rightarrow> (string \<times> (string \<times> model_override) list) list" where
  "overrides_by_provider ps =
     map (\<lambda>(p, pc). (p, pv_overrides pc)) (filter (\<lambda>(p, pc). pv_overrides pc \<noteq> []) ps)"

definition load_custom_models ::
  "build_env \<Rightarrow> string \<Rightarrow> layer \<Rightarrow> (string \<times> string \<times> layer) list \<Rightarrow> models_config option \<Rightarrow> custom_models" where
  "load_custom_models env path base fragments overlay =
     (case load_layers path base fragments overlay of
        Inl e \<Rightarrow> empty_custom_models e
      | Inr (None, origins) \<Rightarrow> empty_custom_models []
      | Inr (Some ps, origins) \<Rightarrow>
          (case validate_models_config (be_providers env) (be_check_order env ps) of
             Some e \<Rightarrow> empty_custom_models (e @ file_note path)
           | None \<Rightarrow>
               let (ms, keys) = parse_models env ps (provider_keys ps)
               in \<lparr>cm_models = ms, cm_overrides = provider_overrides ps, cm_model_overrides = overrides_by_provider ps,
                   cm_keys = keys, cm_origins = origins, cm_error = []\<rparr>))"

subsection \<open>Built-in models\<close>

definition override_provider :: "value_env \<Rightarrow> provider_override option \<Rightarrow> model \<Rightarrow> model" where
  "override_provider env po m =
     (case po of
        None \<Rightarrow> m
      | Some o' \<Rightarrow> m\<lparr>mo_base_url := over_text (po_base_url o') (mo_base_url m),
                    mo_headers := merge_headers env (mo_headers m) (po_headers o')\<rparr>)"

definition override_model :: "value_env \<Rightarrow> (string \<times> model_override) list \<Rightarrow> model \<Rightarrow> model" where
  "override_model env ovs m = (case map_of ovs (mo_id m) of None \<Rightarrow> m | Some ov \<Rightarrow> apply_model_override env m ov)"

definition display_name :: "account \<Rightarrow> string" where
  "display_name a = (if ac_label a \<noteq> [] then ac_label a else if ac_id a \<noteq> [] then ac_id a else ''default'')"

definition slot_provider :: "string \<Rightarrow> string" where
  "slot_provider key = takeWhile (\<lambda>c. c \<noteq> CHR ''#'') key"

definition account_model_override :: "account \<Rightarrow> string \<Rightarrow> string" where
  "account_model_override a i = the_default [] (map_of (ac_overrides a) i)"

definition apply_bedrock_account_overrides :: "model \<Rightarrow> account \<Rightarrow> model \<Rightarrow> model" where
  "apply_bedrock_account_overrides base a m =
     (if slot_provider (ac_slot a) \<noteq> ''amazon-bedrock'' then m
      else m\<lparr>mo_id := over_text (account_model_override a (mo_id base)) (mo_id m)\<rparr>)"

definition account_clone :: "model \<Rightarrow> account \<Rightarrow> model" where
  "account_clone base a =
     apply_bedrock_account_overrides base a
       (base\<lparr>mo_provider := ac_slot a,
             mo_name := (if display_name a = ''default'' then mo_name base
                         else mo_name base @ '' ('' @ display_name a @ '')'')\<rparr>)"

definition account_clones :: "build_env \<Rightarrow> model \<Rightarrow> model list" where
  "account_clones env base = map (account_clone base) (filter (\<lambda>a. ac_id a \<noteq> []) (be_accounts env (mo_provider base)))"

definition load_built_in_models ::
  "build_env \<Rightarrow> (string \<times> provider_override) list \<Rightarrow> (string \<times> (string \<times> model_override) list) list \<Rightarrow> model list" where
  "load_built_in_models env overrides model_overrides =
     (let ms = concat (map (\<lambda>p. map (\<lambda>m. override_model (be_values env) (the_default [] (map_of model_overrides p))
                 (override_provider (be_values env) (map_of overrides p) m)) (be_listed env p)) (be_providers env))
      in ms @ concat (map (account_clones env) ms))"

subsection \<open>The registry's models\<close>

text \<open>The model takes the place of the first one of its provider and id, or goes to the end.\<close>

fun put_model :: "model \<Rightarrow> model list \<Rightarrow> model list" where
  "put_model m [] = [m]"
| "put_model m (x # xs) = (if mo_provider x = mo_provider m \<and> mo_id x = mo_id m then m # xs else x # put_model m xs)"

definition merge_custom_models :: "model list \<Rightarrow> model list \<Rightarrow> model list" where
  "merge_custom_models built_in custom = fold put_model custom built_in"

definition add_runtime_model :: "model \<Rightarrow> model list \<Rightarrow> model list" where
  "add_runtime_model m ms = put_model m ms"

fun modify_models :: "(model list \<Rightarrow> model list option) list \<Rightarrow> model list \<Rightarrow> model list" where
  "modify_models [] ms = ms"
| "modify_models (f # fs) ms = modify_models fs (the_default ms (f ms))"

subsection \<open>The catalogue\<close>

record catalog_doc =
  ca_version :: int
  ca_generated :: int
  ca_defaults :: "(string \<times> string) list"
  ca_claude_code :: "string option"
  ca_providers :: models_config

definition client_version_max_len :: nat where
  "client_version_max_len = 32"

text \<open>One to four numbers, separated by dots.\<close>

definition client_version_re :: "string \<Rightarrow> bool" where
  "client_version_re v \<longleftrightarrow>
     (let ns = split_on (CHR ''.'') v in length ns \<le> 4 \<and> list_all (\<lambda>n. n \<noteq> [] \<and> list_all decimal n) ns)"

definition validate_client_version :: "string \<Rightarrow> bool" where
  "validate_client_version v \<longleftrightarrow> v = [] \<or> (length v \<le> client_version_max_len \<and> client_version_re v)"

text \<open>\<^verbatim>\<open>strconv.Atoi\<close> with its error ignored: too large a number is the largest one, no number is zero.\<close>

definition version_number :: "string \<Rightarrow> int" where
  "version_number s = (if s \<noteq> [] \<and> list_all decimal s then min (2 ^ 63 - 1) (digits_value s) else 0)"

definition version_numbers :: "string \<Rightarrow> int list" where
  "version_numbers v = map version_number (split_on (CHR ''.'') v)"

definition compare_client_versions :: "string \<Rightarrow> string \<Rightarrow> int" where
  "compare_client_versions a b = compare_generations (version_numbers a) (version_numbers b)"

definition max_client_version :: "string \<Rightarrow> string \<Rightarrow> string" where
  "max_client_version overlay lowest =
     (if overlay = [] then lowest else if lowest = [] then overlay
      else if compare_client_versions overlay lowest < 0 then lowest else overlay)"

definition client_version_source :: "string \<Rightarrow> string \<Rightarrow> string" where
  "client_version_source overlay lowest =
     (let eff = max_client_version overlay lowest
      in if eff \<noteq> [] \<and> eff = overlay \<and> overlay \<noteq> lowest then ''overlay'' else ''embedded-floor'')"

definition get_client_version :: "catalog_doc option \<Rightarrow> string \<Rightarrow> string" where
  "get_client_version c key =
     (case c of None \<Rightarrow> []
      | Some c \<Rightarrow> if key = ''claudeCode'' then the_default [] (ca_claude_code c) else [])"

text \<open>What a published document may not set: where a request goes and what credential it carries.\<close>

definition validate_catalog_provider :: "provider_cfg \<Rightarrow> bool" where
  "validate_catalog_provider pc \<longleftrightarrow>
     pv_api_key pc = [] \<and> pv_base_url pc = [] \<and> pv_headers pc = [] \<and> pv_auth_header pc = None
     \<and> list_all (\<lambda>d. md_base_url d = [] \<and> md_headers d = []) (pv_models pc)
     \<and> list_all (\<lambda>(i, ov). ov_headers ov = []) (pv_overrides pc)"

definition validate_catalog_providers :: "(string \<times> provider_cfg) list \<Rightarrow> bool" where
  "validate_catalog_providers ps \<longleftrightarrow> list_all (\<lambda>(p, pc). validate_catalog_provider pc) ps"

text \<open>A document that decodes is taken or not; the zero time is 0.\<close>

definition parse_catalog_overlay :: "string list \<Rightarrow> catalog_doc \<Rightarrow> bool" where
  "parse_catalog_overlay built_ins c \<longleftrightarrow>
     ca_version c = 1 \<and> ca_generated c \<noteq> 0
     \<and> (case ca_providers c of
          None \<Rightarrow> False
        | Some ps \<Rightarrow> validate_catalog_providers ps
            \<and> (case ca_claude_code c of None \<Rightarrow> True | Some v \<Rightarrow> validate_client_version v)
            \<and> validate_models_config built_ins ps = None)"

text \<open>The later of the embedded document and the one in the cache; neither need be there or be valid.\<close>

definition newer_overlay :: "string list \<Rightarrow> catalog_doc option \<Rightarrow> catalog_doc option \<Rightarrow> catalog_doc option" where
  "newer_overlay built_ins doc best =
     (case doc of
        None \<Rightarrow> best
      | Some c \<Rightarrow>
          if parse_catalog_overlay built_ins c
             \<and> (case best of None \<Rightarrow> True | Some b \<Rightarrow> ca_generated b < ca_generated c)
          then Some c else best)"

definition best_local_overlay :: "string list \<Rightarrow> catalog_doc option \<Rightarrow> catalog_doc option \<Rightarrow> catalog_doc option" where
  "best_local_overlay built_ins embedded cached = newer_overlay built_ins cached (newer_overlay built_ins embedded None)"

subsection \<open>Building\<close>

record model_snapshot =
  sn_models :: "model list"
  sn_keys :: headers
  sn_origins :: headers
  sn_defaults :: "(string \<times> string) list"
  sn_client :: "string option"
  sn_error :: string

definition combined_models :: "build_env \<Rightarrow> custom_models \<Rightarrow> model list" where
  "combined_models env c =
     merge_custom_models (load_built_in_models env (cm_overrides c) (cm_model_overrides c)) (cm_models c)"

definition build_models ::
  "build_env \<Rightarrow> string \<Rightarrow> layer \<Rightarrow> (string \<times> string \<times> layer) list \<Rightarrow> catalog_doc option \<Rightarrow> model_snapshot" where
  "build_models env path base fragments overlay =
     (let c = load_custom_models env path base fragments (map_option ca_providers overlay)
      in \<lparr>sn_models = modify_models (be_modify env) (combined_models env c),
          sn_keys = cm_keys c, sn_origins = cm_origins c,
          sn_defaults = (case overlay of None \<Rightarrow> [] | Some o' \<Rightarrow> ca_defaults o'),
          sn_client = (case overlay of None \<Rightarrow> None | Some o' \<Rightarrow> ca_claude_code o'),
          sn_error = cm_error c\<rparr>)"

definition model_origin :: "headers \<Rightarrow> string \<Rightarrow> string \<Rightarrow> string" where
  "model_origin origins p i = the_default ''builtin'' (map_of origins (origin_key p i))"

end
