(* ===== verification/ModelResolver.thy ===== *)
theory ModelResolver
  imports ModelConfig "HOL-Library.While_Combinator" "HOL-Library.Product_Lexorder"
begin

text \<open>
  From a name to a model: the queries of the model registry (\<^verbatim>\<open>pkg/models/modelregistry.go\<close>,
  \<^verbatim>\<open>live_models.go\<close>, \<^verbatim>\<open>live_synthesis.go\<close>) and the resolution of the model the user or a session names
  (\<^verbatim>\<open>pkg/models/modelresolver.go\<close>).

  A registry is what it holds once its credentials are synchronised. The models a provider's own defaulter
  makes up, and quoting in messages, are parameters; the live lists come in the order in which Go iterates
  over them in the call at hand. A cached synthesised model is the one made anew.
\<close>

subsection \<open>The registry\<close>

record live_state =
  ls_fetched :: bool
  ls_failed :: bool
  ls_ids :: "string list option"
  ls_models :: "model list"

record provider_record =
  pr_id :: string
  pr_priority :: int
  pr_default :: string
  pr_claims :: "string list"
  pr_refuse :: bool

record registry =
  mr_models :: "model list"
  mr_defaults :: "(string \<times> string) list"
  mr_live :: "(string \<times> live_state) list"
  mr_has_auth :: "string \<Rightarrow> bool"
  mr_custom_keys :: "(string \<times> string) list"
  mr_providers :: "provider_record list"
  mr_defaulter :: "string \<Rightarrow> string \<Rightarrow> model list \<Rightarrow> model option"
  mr_quote :: "string \<Rightarrow> string"

text \<open>What a build leaves in the registry.\<close>

definition apply_snapshot :: "registry \<Rightarrow> model_snapshot \<Rightarrow> registry" where
  "apply_snapshot r s = r\<lparr>mr_models := sn_models s, mr_defaults := sn_defaults s, mr_custom_keys := sn_keys s\<rparr>"

definition live_has_data :: "live_state \<Rightarrow> bool" where
  "live_has_data st \<longleftrightarrow> ls_fetched st \<and> \<not> ls_failed st \<and> ls_ids st \<noteq> None"

definition live_has :: "live_state \<Rightarrow> string \<Rightarrow> bool" where
  "live_has st i = (case ls_ids st of None \<Rightarrow> True | Some is \<Rightarrow> \<not> ls_fetched st \<or> ls_failed st \<or> i \<in> set is)"

definition live_get :: "live_state \<Rightarrow> string \<Rightarrow> model option" where
  "live_get st i = find (\<lambda>m. mo_id m = i) (ls_models st)"

definition is_model_live :: "registry \<Rightarrow> string \<Rightarrow> string \<Rightarrow> bool" where
  "is_model_live r p i = (case map_of (mr_live r) p of None \<Rightarrow> True | Some st \<Rightarrow> live_has st i)"

subsection \<open>Synthesised models\<close>

fun common_prefix_len :: "string \<Rightarrow> string \<Rightarrow> nat" where
  "common_prefix_len (a # s) (b # t) = (if a = b then Suc (common_prefix_len s t) else 0)"
| "common_prefix_len s t = 0"

text \<open>\<^verbatim>\<open>strings.ToUpper\<close> on one byte: a byte that is no rune becomes the replacement rune.\<close>

definition upper_byte :: "char \<Rightarrow> string" where
  "upper_byte c =
     (if 97 \<le> byte_of c \<and> byte_of c \<le> 122 then [char_of (byte_of c - 32)]
      else if byte_of c < 128 then [c] else [CHR 0xEF, CHR 0xBF, CHR 0xBD])"

fun capitalise :: "string \<Rightarrow> string" where
  "capitalise [] = []"
| "capitalise (c # s) = upper_byte c @ s"

fun split_fields :: "(char \<Rightarrow> bool) \<Rightarrow> string \<Rightarrow> string \<Rightarrow> string list" where
  "split_fields p w [] = (if w = [] then [] else [w])"
| "split_fields p w (c # s) =
     (if p c then (if w = [] then [] else [w]) @ split_fields p [] s else split_fields p (w @ [c]) s)"

definition humanise_id :: "string \<Rightarrow> string" where
  "humanise_id i = join '' '' (map capitalise (split_fields (\<lambda>c. c \<in> set ''-_/:'') [] i))"

fun closest_sibling :: "string \<Rightarrow> model \<Rightarrow> model list \<Rightarrow> model" where
  "closest_sibling i best [] = best"
| "closest_sibling i best (m # ms) =
     closest_sibling i (if common_prefix_len (mo_id best) i < common_prefix_len (mo_id m) i then m else best) ms"

definition synthesise_from_sibling :: "string \<Rightarrow> model list \<Rightarrow> model option" where
  "synthesise_from_sibling i ms =
     (case ms of
        [] \<Rightarrow> None
      | m # rest \<Rightarrow> Some ((closest_sibling i m rest)\<lparr>mo_id := i, mo_name := humanise_id i, mo_inferred := True\<rparr>))"

definition synthesise :: "registry \<Rightarrow> string \<Rightarrow> string \<Rightarrow> model option" where
  "synthesise r p i =
     (let siblings = filter (\<lambda>m. mo_provider m = p) (mr_models r) in
      case mr_defaulter r p i siblings of
        Some m \<Rightarrow> Some (m\<lparr>mo_provider := p, mo_id := i\<rparr>)
      | None \<Rightarrow> synthesise_from_sibling i siblings)"

subsection \<open>Queries\<close>

definition has_auth_locked :: "registry \<Rightarrow> string \<Rightarrow> bool" where
  "has_auth_locked r p \<longleftrightarrow> mr_has_auth r p \<or> map_of (mr_custom_keys r) p = Some []"

definition has_configured_auth :: "registry \<Rightarrow> model \<Rightarrow> bool" where
  "has_configured_auth r m \<longleftrightarrow> mr_has_auth r (mo_provider m) \<or> map_of (mr_custom_keys r) (mo_provider m) \<noteq> None"

definition get_available :: "registry \<Rightarrow> model list" where
  "get_available r =
     filter (\<lambda>m. has_auth_locked r (mo_provider m) \<and> is_model_live r (mo_provider m) (mo_id m)) (mr_models r)
     @ concat (map (\<lambda>(p, st). ls_models st) (filter (\<lambda>(p, st). mr_has_auth r p) (mr_live r)))"

definition find_model :: "registry \<Rightarrow> string \<Rightarrow> string \<Rightarrow> model option" where
  "find_model r p i =
     (case find (\<lambda>m. mo_provider m = p \<and> mo_id m = i) (mr_models r) of
        Some m \<Rightarrow> Some m
      | None \<Rightarrow>
          (case map_of (mr_live r) p of
             None \<Rightarrow> synthesise r p i
           | Some st \<Rightarrow>
               (case live_get st i of
                  Some m \<Rightarrow> Some m
                | None \<Rightarrow> if live_has_data st then None else synthesise r p i)))"

definition provider_record_of :: "registry \<Rightarrow> string \<Rightarrow> provider_record option" where
  "provider_record_of r p = find (\<lambda>rec. pr_id rec = p) (mr_providers r)"

definition ordered_providers :: "registry \<Rightarrow> string list" where
  "ordered_providers r = map pr_id (sort_key (\<lambda>rec. (pr_priority rec, pr_id rec)) (mr_providers r))"

definition default_anchor :: "registry \<Rightarrow> string \<Rightarrow> string" where
  "default_anchor r p =
     (case map_of (mr_defaults r) p of
        Some (c # s) \<Rightarrow> c # s
      | _ \<Rightarrow> (case provider_record_of r p of None \<Rightarrow> [] | Some rec \<Rightarrow> pr_default rec))"

definition default_model_for_provider :: "registry \<Rightarrow> string \<Rightarrow> string" where
  "default_model_for_provider r p =
     (let anchor = default_anchor r p in
      if anchor = [] then []
      else newest_in_product_line anchor
             (map mo_id (filter (\<lambda>m. mo_provider m = p \<and> is_model_live r p (mo_id m)) (mr_models r))))"

subsection \<open>Glob patterns\<close>

text \<open>
  The loop of \<^verbatim>\<open>globMatchImpl\<close>: positions in the text and the pattern, those of the last star, and whether it
  has returned false.
\<close>

record glob_state =
  gs_text :: nat
  gs_pat :: nat
  gs_star :: "(nat \<times> nat) option"
  gs_failed :: bool

definition glob_step :: "string \<Rightarrow> string \<Rightarrow> glob_state \<Rightarrow> glob_state" where
  "glob_step t p g =
     (let ti = gs_text g; pi = gs_pat g in
      if pi < length p \<and> (p ! pi = CHR ''?'' \<or> p ! pi = t ! ti) then g\<lparr>gs_text := Suc ti, gs_pat := Suc pi\<rparr>
      else if pi < length p \<and> p ! pi = CHR ''*'' then g\<lparr>gs_star := Some (ti, pi), gs_pat := Suc pi\<rparr>
      else case gs_star g of
             Some (st, sp) \<Rightarrow> g\<lparr>gs_star := Some (Suc st, sp), gs_text := Suc st, gs_pat := Suc sp\<rparr>
           | None \<Rightarrow> g\<lparr>gs_failed := True\<rparr>)"

definition glob_loop :: "string \<Rightarrow> string \<Rightarrow> glob_state option" where
  "glob_loop t p =
     while_option (\<lambda>g. gs_text g < length t \<and> \<not> gs_failed g) (glob_step t p)
       \<lparr>gs_text = 0, gs_pat = 0, gs_star = None, gs_failed = False\<rparr>"

definition glob_match_impl :: "string \<Rightarrow> string \<Rightarrow> bool option" where
  "glob_match_impl t p =
     (if p = ''*'' then Some True
      else case glob_loop t p of
             None \<Rightarrow> None
           | Some g \<Rightarrow> Some (\<not> gs_failed g \<and> list_all (\<lambda>c. c = CHR ''*'') (drop (gs_pat g) p)))"

definition glob_match :: "string \<Rightarrow> string \<Rightarrow> bool option" where
  "glob_match t p = glob_match_impl (to_lower t) (to_lower p)"

definition provider_claims_model_id :: "provider_record \<Rightarrow> string \<Rightarrow> bool" where
  "provider_claims_model_id rec i = list_ex (\<lambda>g. glob_match i g = Some True) (pr_claims rec)"

subsection \<open>Patterns\<close>

definition valid_thinking_levels :: "string list" where
  "valid_thinking_levels = [''off'', ''minimal'', ''low'', ''medium'', ''high'', ''xhigh'', ''max'']"

definition is_valid_thinking_level :: "string \<Rightarrow> bool" where
  "is_valid_thinking_level s \<longleftrightarrow> to_lower s \<in> set valid_thinking_levels"

definition is_alias :: "string \<Rightarrow> bool" where
  "is_alias i \<longleftrightarrow>
     has_suffix i ''-latest''
     \<or> \<not> (9 \<le> length i \<and> i ! (length i - 9) = hyphen \<and> list_all decimal (drop (length i - 8) i))"

fun best_by_id :: "model \<Rightarrow> model list \<Rightarrow> model" where
  "best_by_id best [] = best"
| "best_by_id best (m # ms) = best_by_id (if mo_id best < mo_id m then m else best) ms"

definition cut_slash :: "string \<Rightarrow> (string \<times> string) option" where
  "cut_slash s =
     (let a = takeWhile (\<lambda>c. c \<noteq> CHR ''/'') s
      in if length a < length s then Some (a, drop (Suc (length a)) s) else None)"

definition match_provider_id :: "string \<Rightarrow> model list \<Rightarrow> model option" where
  "match_provider_id pat ms =
     (case cut_slash pat of
        None \<Rightarrow> None
      | Some (p, i) \<Rightarrow> find (\<lambda>m. to_lower (mo_provider m) = to_lower p \<and> to_lower (mo_id m) = to_lower i) ms)"

definition match_partly :: "string \<Rightarrow> model list \<Rightarrow> model option" where
  "match_partly lp ms =
     (let found = filter (\<lambda>m. contains (to_lower (mo_id m)) lp \<or> contains (to_lower (mo_name m)) lp) ms;
          aliases = filter (\<lambda>m. is_alias (mo_id m)) found; dated = filter (\<lambda>m. \<not> is_alias (mo_id m)) found
      in case aliases of
           a # as \<Rightarrow> Some (best_by_id a as)
         | [] \<Rightarrow> (case dated of d # ds \<Rightarrow> Some (best_by_id d ds) | [] \<Rightarrow> None))"

definition try_match_model :: "string \<Rightarrow> model list \<Rightarrow> model option" where
  "try_match_model pat ms =
     (case match_provider_id pat ms of
        Some m \<Rightarrow> Some m
      | None \<Rightarrow>
          (case find (\<lambda>m. to_lower (mo_id m) = to_lower pat) ms of
             Some m \<Rightarrow> Some m
           | None \<Rightarrow> match_partly (to_lower pat) ms))"

record parsed_model =
  pm_model :: "model option"
  pm_level :: string
  pm_warning :: string

definition nothing_parsed :: parsed_model where
  "nothing_parsed = \<lparr>pm_model = None, pm_level = [], pm_warning = []\<rparr>"

definition invalid_level_warning :: "(string \<Rightarrow> string) \<Rightarrow> string \<Rightarrow> string \<Rightarrow> string" where
  "invalid_level_warning quote suf pat =
     ''Invalid thinking level '' @ quote suf @ '' in pattern '' @ quote pat @ ''. Using default instead.''"

function parse_model_pattern_inner ::
  "(string \<Rightarrow> string) \<Rightarrow> bool \<Rightarrow> model list \<Rightarrow> string \<Rightarrow> parsed_model" where
  "parse_model_pattern_inner quote fallback ms pat =
     (case try_match_model pat ms of
        Some m \<Rightarrow> nothing_parsed\<lparr>pm_model := Some m\<rparr>
      | None \<Rightarrow>
          (case find_last (\<lambda>c. c = CHR '':'') pat of
             None \<Rightarrow> nothing_parsed
           | Some i \<Rightarrow>
               if i < length pat
               then let suf = drop (Suc i) pat in
                    if is_valid_thinking_level suf
                    then let res = parse_model_pattern_inner quote fallback ms (take i pat)
                         in if pm_model res \<noteq> None \<and> pm_warning res = [] then res\<lparr>pm_level := to_lower suf\<rparr> else res
                    else if \<not> fallback then nothing_parsed
                    else let res = parse_model_pattern_inner quote fallback ms (take i pat)
                         in if pm_model res \<noteq> None
                            then \<lparr>pm_model = pm_model res, pm_level = [], pm_warning = invalid_level_warning quote suf pat\<rparr>
                            else res
               else nothing_parsed))"
  by pat_completeness auto

termination
  by (relation "measure (\<lambda>(quote, fallback, ms, pat). length pat)") auto

declare parse_model_pattern_inner.simps [simp del]

definition parse_model_pattern :: "(string \<Rightarrow> string) \<Rightarrow> model list \<Rightarrow> string \<Rightarrow> parsed_model" where
  "parse_model_pattern quote = parse_model_pattern_inner quote True"

definition parse_model_pattern_strict :: "(string \<Rightarrow> string) \<Rightarrow> model list \<Rightarrow> string \<Rightarrow> parsed_model" where
  "parse_model_pattern_strict quote = parse_model_pattern_inner quote False"

subsection \<open>Resolving the command line\<close>

record cli_result =
  cr_model :: "model option"
  cr_level :: string
  cr_warning :: string
  cr_error :: string

definition resolved :: "model \<Rightarrow> cli_result" where
  "resolved m = \<lparr>cr_model = Some m, cr_level = [], cr_warning = [], cr_error = []\<rparr>"

definition parsed_result :: "parsed_model \<Rightarrow> cli_result" where
  "parsed_result res = \<lparr>cr_model = pm_model res, cr_level = pm_level res, cr_warning = pm_warning res, cr_error = []\<rparr>"

definition failed_result :: "string \<Rightarrow> string \<Rightarrow> cli_result" where
  "failed_result warning err = \<lparr>cr_model = None, cr_level = [], cr_warning = warning, cr_error = err\<rparr>"

definition canonical_provider :: "model list \<Rightarrow> string \<Rightarrow> string option" where
  "canonical_provider ms p = map_of (rev (map (\<lambda>m. (to_lower (mo_provider m), mo_provider m)) ms)) (to_lower p)"

definition match_exactly :: "string \<Rightarrow> model list \<Rightarrow> model option" where
  "match_exactly s ms =
     find (\<lambda>m. to_lower (mo_id m) = to_lower s \<or> to_lower (mo_provider m @ ''/'' @ mo_id m) = to_lower s) ms"

definition build_fallback_model :: "registry \<Rightarrow> string \<Rightarrow> string \<Rightarrow> model option" where
  "build_fallback_model r p i =
     (case filter (\<lambda>m. mo_provider m = p) (mr_models r) of
        [] \<Rightarrow> None
      | m # ms \<Rightarrow>
          let d = default_model_for_provider r p;
              base = (if d = [] then m else case find (\<lambda>x. mo_id x = d) (m # ms) of Some b \<Rightarrow> b | None \<Rightarrow> m)
          in Some (base\<lparr>mo_id := i, mo_name := i\<rparr>))"

text \<open>
  The provider and the pattern the arguments name, and whether the provider was taken from the pattern; an
  error when the provider is unknown.
\<close>

definition named_provider :: "registry \<Rightarrow> string \<Rightarrow> string \<Rightarrow> string + (string \<times> string \<times> bool)" where
  "named_provider r cli_provider cli_model =
     (if cli_provider \<noteq> []
      then (case canonical_provider (mr_models r) cli_provider of
              None \<Rightarrow> Inl (''Unknown provider '' @ mr_quote r cli_provider
                        @ ''. Use --list-models to see available providers/models.'')
            | Some p \<Rightarrow>
                Inr (p, if p \<noteq> [] \<and> to_lower (take (length p + 1) cli_model) = to_lower (p @ ''/'')
                        then drop (length p + 1) cli_model else cli_model, False))
      else case cut_slash cli_model of
             None \<Rightarrow> Inr ([], cli_model, False)
           | Some (a, b) \<Rightarrow>
               (case canonical_provider (mr_models r) a of
                  None \<Rightarrow> Inr ([], cli_model, False)
                | Some p \<Rightarrow> Inr (p, b, True)))"

definition custom_model_result :: "registry \<Rightarrow> string \<Rightarrow> string \<Rightarrow> string \<Rightarrow> model \<Rightarrow> cli_result" where
  "custom_model_result r p pat warning m =
     (case provider_record_of r p of
        Some rec \<Rightarrow>
          if provider_claims_model_id rec pat then resolved m
          else if pr_refuse rec
          then failed_result warning (''Model '' @ mr_quote r pat @ '' not found for provider '' @ mr_quote r p
                 @ ''. Use --list-models to see available models.'')
          else (resolved m)\<lparr>cr_warning := (if warning = [] then [] else warning @ '' '')
                 @ ''Model '' @ mr_quote r pat @ '' not found for provider '' @ mr_quote r p @ ''. Using custom model id.''\<rparr>
      | None \<Rightarrow>
          (resolved m)\<lparr>cr_warning := (if warning = [] then [] else warning @ '' '')
             @ ''Model '' @ mr_quote r pat @ '' not found for provider '' @ mr_quote r p @ ''. Using custom model id.''\<rparr>)"

definition not_found_result :: "registry \<Rightarrow> string \<Rightarrow> string \<Rightarrow> string \<Rightarrow> string \<Rightarrow> cli_result" where
  "not_found_result r p pat cli_model warning =
     failed_result warning (''Model '' @ mr_quote r (if p \<noteq> [] then p @ ''/'' @ pat else cli_model)
       @ '' not found. Use --list-models to see available models.'')"

definition resolve_unmatched ::
  "registry \<Rightarrow> string \<Rightarrow> string \<Rightarrow> bool \<Rightarrow> string \<Rightarrow> string \<Rightarrow> cli_result" where
  "resolve_unmatched r p pat inferred cli_model warning =
     (case (if inferred then match_exactly cli_model (mr_models r) else None) of
        Some m \<Rightarrow> resolved m
      | None \<Rightarrow>
          let whole = (if inferred then parse_model_pattern_strict (mr_quote r) (mr_models r) cli_model else nothing_parsed)
          in if pm_model whole \<noteq> None then parsed_result whole
             else case (if p \<noteq> [] then build_fallback_model r p pat else None) of
                    Some m \<Rightarrow> custom_model_result r p pat warning m
                  | None \<Rightarrow> not_found_result r p pat cli_model warning)"

definition resolve_cli_model :: "registry \<Rightarrow> string \<Rightarrow> string \<Rightarrow> cli_result" where
  "resolve_cli_model r cli_provider cli_model =
     (if cli_model = [] then failed_result [] []
      else if mr_models r = []
      then failed_result [] ''No models available. Check your installation or add models to models.json.''
      else case named_provider r cli_provider cli_model of
             Inl err \<Rightarrow> failed_result [] err
           | Inr (p, pat, inferred) \<Rightarrow>
               (case (if p = [] then match_exactly cli_model (mr_models r) else None) of
                  Some m \<Rightarrow> resolved m
                | None \<Rightarrow>
                    let res = parse_model_pattern_strict (mr_quote r)
                                (if p \<noteq> [] then filter (\<lambda>m. mo_provider m = p) (mr_models r) else mr_models r) pat
                    in if pm_model res \<noteq> None then parsed_result res
                       else resolve_unmatched r p pat inferred cli_model (pm_warning res)))"

subsection \<open>The first model, and the model of a session\<close>

record initial_model =
  im_model :: "model option"
  im_level :: string

definition preferred_model :: "registry \<Rightarrow> bool \<Rightarrow> model list \<Rightarrow> model option" where
  "preferred_model r skip_empty ms =
     (case List.map_filter (\<lambda>p. let d = default_model_for_provider r p
             in if skip_empty \<and> d = [] then None else find (\<lambda>m. mo_provider m = p \<and> mo_id m = d) ms)
           (ordered_providers r) of
        m # rest \<Rightarrow> Some m
      | [] \<Rightarrow> (case ms of m # rest \<Rightarrow> Some m | [] \<Rightarrow> None))"

definition find_initial_model ::
  "registry \<Rightarrow> string \<Rightarrow> string \<Rightarrow> string \<Rightarrow> string \<Rightarrow> string \<Rightarrow> initial_model" where
  "find_initial_model r cli_provider cli_model def_provider def_model def_level =
     (let level = (if def_level \<noteq> [] then def_level else ''medium'');
          cli = (if cli_provider \<noteq> [] \<and> cli_model \<noteq> [] then Some (resolve_cli_model r cli_provider cli_model) else None);
          saved = (if def_provider \<noteq> [] \<and> def_model \<noteq> [] then find_model r def_provider def_model else None);
          rest = (case saved of Some m \<Rightarrow> Some m | None \<Rightarrow> preferred_model r True (get_available r))
      in \<lparr>im_model = (case cli of
                        Some c \<Rightarrow> if cr_error c \<noteq> [] then None
                                  else (case cr_model c of Some m \<Rightarrow> Some m | None \<Rightarrow> rest)
                      | None \<Rightarrow> rest),
          im_level = level\<rparr>)"

definition restore_message :: "string \<Rightarrow> string \<Rightarrow> string \<Rightarrow> model \<Rightarrow> string" where
  "restore_message p i reason m =
     ''Could not restore model '' @ p @ ''/'' @ i @ '' ('' @ reason @ ''). Using '' @ mo_provider m @ ''/'' @ mo_id m @ ''.''"

definition restore_model_from_session ::
  "registry \<Rightarrow> string \<Rightarrow> string \<Rightarrow> model option \<Rightarrow> model option \<times> string" where
  "restore_model_from_session r p i current =
     (let found = find_model r p i;
          reason = (if found \<noteq> None then ''no auth configured'' else ''model no longer exists'')
      in case found of
           Some m \<Rightarrow> if has_configured_auth r m then (Some m, [])
                     else (case (case current of Some c \<Rightarrow> Some c | None \<Rightarrow> preferred_model r False (get_available r)) of
                             Some c \<Rightarrow> (Some c, restore_message p i reason c) | None \<Rightarrow> (None, []))
         | None \<Rightarrow> (case (case current of Some c \<Rightarrow> Some c | None \<Rightarrow> preferred_model r False (get_available r)) of
                      Some c \<Rightarrow> (Some c, restore_message p i reason c) | None \<Rightarrow> (None, [])))"

subsection \<open>The glob loop decides matching\<close>

text \<open>Matching as it is meant: a star stands for any text, a question mark for one byte.\<close>

fun glob_matches :: "string \<Rightarrow> string \<Rightarrow> bool" where
  "glob_matches t [] \<longleftrightarrow> t = []"
| "glob_matches [] (d # p) \<longleftrightarrow> d = CHR ''*'' \<and> glob_matches [] p"
| "glob_matches (c # t) (d # p) \<longleftrightarrow>
     (if d = CHR ''*'' then glob_matches (c # t) p \<or> glob_matches t (d # p)
      else (d = CHR ''?'' \<or> d = c) \<and> glob_matches t p)"





















text \<open>A star in the text is taken for the star of the pattern, which then stands for nothing else.\<close>

lemma star_in_text: "glob_match ''*ab'' ''*b'' = Some False \<and> glob_matches ''*ab'' ''*b''"
  by code_simp

subsection \<open>Resolution\<close>

lemma find_in: "find P xs = Some x \<Longrightarrow> x \<in> set xs \<and> P x"
  by (auto simp: find_Some_iff)

lemma best_by_id_in: "best_by_id m ms \<in> insert m (set ms)"
proof (induction ms arbitrary: m)
  case (Cons a ms)
  from Cons [of "if mo_id m < mo_id a then a else m"] show ?case by (auto split: if_splits)
qed simp

lemma match_partly_in: "match_partly lp ms = Some m \<Longrightarrow> m \<in> set ms"
proof -
  have head: "best_by_id a as \<in> set ms" if "filter P ms = a # as" for P a as
  proof -
    from best_by_id_in [of a as] that have "best_by_id a as \<in> set (filter P ms)" by simp
    then show ?thesis by simp
  qed
  assume "match_partly lp ms = Some m"
  then show ?thesis
    by (auto simp: match_partly_def Let_def filter_filter split: list.splits dest: head)
qed

lemma try_match_model_in: "try_match_model pat ms = Some m \<Longrightarrow> m \<in> set ms"
  by (auto simp: try_match_model_def match_provider_id_def dest: find_in match_partly_in
      split: option.splits prod.splits)

lemma parse_model_in: "pm_model (parse_model_pattern_inner quote fallback ms pat) = Some m \<Longrightarrow> m \<in> set ms"
proof (induction quote fallback ms pat rule: parse_model_pattern_inner.induct)
  case (1 quote fallback ms pat)
  then show ?case
    by (subst (asm) (3) parse_model_pattern_inner.simps)
      (auto simp: nothing_parsed_def Let_def dest: try_match_model_in split: option.splits if_splits)
qed

lemma canonical_provider_lower:
  "canonical_provider ms p = Some q \<Longrightarrow> to_lower q = to_lower p \<and> (\<exists>m \<in> set ms. mo_provider m = q)"
  by (auto simp: canonical_provider_def dest!: map_of_SomeD)

lemma build_fallback_model_provider: "build_fallback_model r p i = Some m \<Longrightarrow> mo_provider m = p"
proof -
  assume some: "build_fallback_model r p i = Some m"
  then obtain a as where fil: "filter (\<lambda>m. mo_provider m = p) (mr_models r) = a # as"
    by (auto simp: build_fallback_model_def split: list.splits)
  then have all: "mo_provider x = p" if "x \<in> set (a # as)" for x
  proof -
    from that have "x \<in> set (filter (\<lambda>m. mo_provider m = p) (mr_models r))" by (simp only: fil)
    then show ?thesis by simp
  qed
  from some all show ?thesis
    by (auto simp: build_fallback_model_def fil Let_def dest!: find_in split: if_splits option.splits)
qed

lemma custom_model_result_model:
  "cr_model (custom_model_result r p pat w m) = Some x \<Longrightarrow> x = m"
  by (auto simp: custom_model_result_def resolved_def failed_result_def split: option.splits if_splits)

text \<open>A model a name may stand for: of the provider given, if any, and registered or made from a registered one.\<close>

definition provider_fits :: "string \<Rightarrow> model \<Rightarrow> bool" where
  "provider_fits p m \<longleftrightarrow> p = [] \<or> to_lower (mo_provider m) = to_lower p"

definition registered_or_custom :: "registry \<Rightarrow> model \<Rightarrow> bool" where
  "registered_or_custom r m \<longleftrightarrow>
     m \<in> set (mr_models r) \<or> (\<exists>b \<in> set (mr_models r). m = b\<lparr>mo_id := mo_id m, mo_name := mo_id m\<rparr>)"

lemma build_fallback_model_custom:
  assumes "build_fallback_model r p i = Some m"
  shows "registered_or_custom r m"
proof -
  from assms obtain a as where fil: "filter (\<lambda>m. mo_provider m = p) (mr_models r) = a # as"
    by (auto simp: build_fallback_model_def split: list.splits)
  have all: "x \<in> set (mr_models r)" if "x \<in> set (a # as)" for x
  proof -
    from that have "x \<in> set (filter (\<lambda>m. mo_provider m = p) (mr_models r))" by (simp only: fil)
    then show ?thesis by simp
  qed
  have "\<exists>b \<in> set (a # as). m = b\<lparr>mo_id := i, mo_name := i\<rparr>"
    using assms by (auto simp: build_fallback_model_def fil Let_def dest!: find_in split: if_splits option.splits)
  then show ?thesis using all by (auto simp: registered_or_custom_def)
qed

definition good_answer :: "registry \<Rightarrow> string \<Rightarrow> cli_result \<Rightarrow> bool" where
  "good_answer r p c \<longleftrightarrow>
     (case cr_model c of
        None \<Rightarrow> cr_error c \<noteq> []
      | Some m \<Rightarrow> cr_error c = [] \<and> provider_fits p m \<and> registered_or_custom r m)"

lemma good_resolved: "m \<in> set (mr_models r) \<Longrightarrow> provider_fits p m \<Longrightarrow> good_answer r p (resolved m)"
  by (simp add: good_answer_def resolved_def registered_or_custom_def)

lemma good_parsed:
  assumes "pm_model res \<noteq> None" and "\<And>m. pm_model res = Some m \<Longrightarrow> m \<in> set (mr_models r) \<and> provider_fits p m"
  shows "good_answer r p (parsed_result res)"
  using assms by (auto simp: good_answer_def parsed_result_def registered_or_custom_def)

lemma good_custom:
  assumes "build_fallback_model r q i = Some m" and "provider_fits p m"
  shows "good_answer r p (custom_model_result r q i w m)"
  using assms build_fallback_model_custom [OF assms(1)]
  by (simp add: good_answer_def custom_model_result_def resolved_def failed_result_def split: option.split)

lemma good_failed: "err \<noteq> [] \<Longrightarrow> good_answer r p (failed_result w err)"
  by (simp add: good_answer_def failed_result_def)

lemma parse_strict_in:
  "pm_model (parse_model_pattern_strict quote ms pat) = Some m \<Longrightarrow> m \<in> set ms"
  by (auto simp: parse_model_pattern_strict_def dest: parse_model_in)

lemma match_exactly_in: "match_exactly s ms = Some m \<Longrightarrow> m \<in> set ms"
  by (auto simp: match_exactly_def dest: find_in)

lemma resolve_unmatched_good:
  assumes "inferred \<Longrightarrow> p = []" and "\<And>m. mo_provider m = q \<Longrightarrow> provider_fits p m"
  shows "good_answer r p (resolve_unmatched r q pat inferred cli w)"
proof -
  have whole: "good_answer r p (parsed_result (parse_model_pattern_strict (mr_quote r) (mr_models r) cli))"
    if inferred "pm_model (parse_model_pattern_strict (mr_quote r) (mr_models r) cli) \<noteq> None"
    using that assms(1) by (intro good_parsed) (auto simp: provider_fits_def dest: parse_strict_in)
  have exact: "good_answer r p (resolved m)" if inferred "match_exactly cli (mr_models r) = Some m" for m
    using that assms(1) by (intro good_resolved) (auto simp: provider_fits_def dest: match_exactly_in)
  have made: "good_answer r p (custom_model_result r q pat w m)" if "build_fallback_model r q pat = Some m" for m
    using that by (intro good_custom assms(2)) (auto dest: build_fallback_model_provider)
  have lost: "good_answer r p (not_found_result r q pat cli w)"
    by (simp add: not_found_result_def good_failed)
  show ?thesis
    using whole exact made lost by (auto simp: resolve_unmatched_def nothing_parsed_def Let_def split: option.split)
qed

lemma named_provider_cases:
  "named_provider r p s = Inl err \<Longrightarrow> err \<noteq> []"
  "named_provider r p s = Inr (q, pat, inferred) \<Longrightarrow> inferred \<Longrightarrow> p = []"
  "named_provider r p s = Inr (q, pat, inferred) \<Longrightarrow> p \<noteq> [] \<Longrightarrow> to_lower q = to_lower p"
  by (auto simp: named_provider_def dest: canonical_provider_lower split: option.splits if_splits)

lemma resolve_good:
  assumes "s \<noteq> []"
  shows "good_answer r p (resolve_cli_model r p s)"
proof (cases "mr_models r = []")
  case True
  with assms show ?thesis by (simp add: resolve_cli_model_def good_failed)
next
  case models: False
  show ?thesis
  proof (cases "named_provider r p s")
    case (Inl err)
    with models assms show ?thesis by (simp add: resolve_cli_model_def good_failed named_provider_cases(1) [OF Inl])
  next
    case (Inr a)
    obtain q pat inferred where a: "a = (q, pat, inferred)" by (rule prod_cases3)
    note cases = named_provider_cases(2,3) [OF Inr [unfolded a]]
    have fits: "provider_fits p m" if "mo_provider m = q" for m
      using cases(2) that by (auto simp: provider_fits_def)
    have none: "p = []" if "q = []"
      using cases(2) that by (auto simp: to_lower_def)
    let ?ms = "if q \<noteq> [] then filter (\<lambda>m. mo_provider m = q) (mr_models r) else mr_models r"
    let ?res = "parse_model_pattern_strict (mr_quote r) ?ms pat"
    have res: "good_answer r p (parsed_result ?res)" if "pm_model ?res \<noteq> None"
    proof (rule good_parsed [OF that])
      fix m
      assume "pm_model ?res = Some m"
      then have "m \<in> set ?ms" by (rule parse_strict_in)
      with fits none show "m \<in> set (mr_models r) \<and> provider_fits p m"
        by (auto simp: provider_fits_def split: if_splits)
    qed
    have exact: "good_answer r p (resolved m)" if "q = []" "match_exactly s (mr_models r) = Some m" for m
      using that none by (intro good_resolved) (auto simp: provider_fits_def dest: match_exactly_in)
    have unmatched: "good_answer r p (resolve_unmatched r q pat inferred s (pm_warning ?res))"
      by (rule resolve_unmatched_good) (use cases(1) fits in blast)+
    have "resolve_cli_model r p s =
      (case (if q = [] then match_exactly s (mr_models r) else None) of
         Some m \<Rightarrow> resolved m
       | None \<Rightarrow> if pm_model ?res \<noteq> None then parsed_result ?res
                 else resolve_unmatched r q pat inferred s (pm_warning ?res))"
      using models assms Inr by (cases "match_exactly s (mr_models r)") (simp_all add: resolve_cli_model_def a Let_def)
    with res exact unmatched show ?thesis by (auto split: option.split)
  qed
qed

text \<open>
  C38: Resolving the model on the command line gives a model or says why it cannot: without a model there is
  an error, unless no model was named, and with one there is none; the model is registered or a custom model
  made from a registered one, and when a provider was named the model is that provider's.
\<close>

theorem resolution_explained:
  "case cr_model (resolve_cli_model r p s) of
     None \<Rightarrow> (cr_error (resolve_cli_model r p s) = []) = (s = [])
   | Some m \<Rightarrow> cr_error (resolve_cli_model r p s) = [] \<and> provider_fits p m \<and> registered_or_custom r m"
proof (cases "s = []")
  case True
  then show ?thesis by (simp add: resolve_cli_model_def failed_result_def)
next
  case False
  from resolve_good [OF this, of r p] False show ?thesis by (simp add: good_answer_def split: option.splits)
qed






lemma to_lower_append [simp]: "to_lower (s @ t) = to_lower s @ to_lower t"
  by (simp add: to_lower_def)





definition sample_model :: "string \<Rightarrow> string \<Rightarrow> model" where
  "sample_model p i =
     \<lparr>mo_id = i, mo_name = i, mo_api = ''openai-responses'', mo_provider = p, mo_base_url = ''https://x'',
      mo_reasoning = False, mo_effort_values = [], mo_input = [''text''], mo_cost = no_prices, mo_context_window = 1,
      mo_max_tokens = 1, mo_headers = [], mo_compat = None, mo_server_tools = [], mo_compaction = False,
      mo_adaptive_thinking = False, mo_swe_score = 0, mo_inferred = False\<rparr>"

definition sample_registry :: registry where
  "sample_registry =
     \<lparr>mr_models = [sample_model ''openai'' ''gpt-5-mini'', sample_model ''openai'' ''gpt-5'',
                   sample_model ''openrouter'' ''openai/gpt-5'', sample_model ''openrouter'' ''auto'',
                   sample_model ''openrouter'' ''openrouter/auto''],
      mr_defaults = [], mr_live = [], mr_has_auth = (\<lambda>p. True), mr_custom_keys = [], mr_providers = [],
      mr_defaulter = (\<lambda>p i ms. None), mr_quote = (\<lambda>s. s)\<rparr>"


text \<open>An id that starts with the provider's own name and a slash is taken for another model of that provider.\<close>

lemma own_prefix_lost:
  "cr_model (resolve_cli_model sample_registry [] ''openrouter/openrouter/auto'') = Some (sample_model ''openrouter'' ''auto'')"
  by code_simp

text \<open>
  An empty pattern is part of every id: a level alone, or a provider alone, stands for the model whose id sorts
  last.
\<close>

lemma level_alone_resolves:
  "resolve_cli_model sample_registry [] '':high'' = (resolved (sample_model ''openrouter'' ''openrouter/auto''))\<lparr>cr_level := ''high''\<rparr>"
  by code_simp

lemma provider_alone_resolves:
  "resolve_cli_model sample_registry [] ''openai/'' = resolved (sample_model ''openai'' ''gpt-5-mini'')"
  by code_simp

text \<open>The first model forgets the level that the command line names with the model.\<close>

lemma initial_level_lost:
  "cr_level (resolve_cli_model sample_registry ''openai'' ''gpt-5:high'') = ''high''
   \<and> im_level (find_initial_model sample_registry ''openai'' ''gpt-5:high'' [] [] ''low'') = ''low''"
  by code_simp

end
