(* ===== verification/ModelConfigProps.thy ===== *)
theory ModelConfigProps
  imports ModelResolver
begin

text \<open>
  What the layers of configuration do: a published catalogue never decides where a request goes or what it
  carries, the last layer that defines a model has its way, and a client version is only ever advanced.
\<close>

subsection \<open>Merging maps\<close>

lemma set_put_subset: "set (put k v m) \<subseteq> insert (k, v) (set m)"
  by (induction k v m rule: put.induct) auto

lemma set_put_all: "set (put_all new old) \<subseteq> set new \<union> set old"
  unfolding put_all_def
proof (induction new arbitrary: old)
  case (Cons a new)
  obtain k v where a: "a = (k, v)" by (cases a)
  from Cons [of "put k v old"] set_put_subset [of k v old] show ?case by (auto simp: a)
qed simp

lemma set_fold_put: "set (fold (\<lambda>(i, ov). put i ov) new old) \<subseteq> set new \<union> set old"
proof (induction new arbitrary: old)
  case (Cons a new)
  obtain k v where a: "a = (k, v)" by (cases a)
  from Cons [of "put k v old"] set_put_subset [of k v old] show ?case by (auto simp: a)
qed simp

lemma over_text_in: "a \<in> insert [] U \<Longrightarrow> b \<in> insert [] U \<Longrightarrow> over_text a b \<in> insert [] U"
  by (auto simp: over_text_def)

subsection \<open>What a configuration may name\<close>

text \<open>The endpoints, headers and keys of a configuration are among those given.\<close>

definition provider_within :: "string set \<Rightarrow> (string \<times> string) set \<Rightarrow> string set \<Rightarrow> provider_cfg \<Rightarrow> bool" where
  "provider_within U H K pc \<longleftrightarrow>
     pv_base_url pc \<in> insert [] U \<and> set (pv_headers pc) \<subseteq> H \<and> pv_api_key pc \<in> insert [] K
     \<and> (\<forall>d \<in> set (pv_models pc). md_base_url d \<in> insert [] U \<and> set (md_headers d) \<subseteq> H)
     \<and> (\<forall>x \<in> set (pv_overrides pc). set (ov_headers (snd x)) \<subseteq> H)"

definition config_within :: "string set \<Rightarrow> (string \<times> string) set \<Rightarrow> string set \<Rightarrow> models_config \<Rightarrow> bool" where
  "config_within U H K cfg \<longleftrightarrow> (\<forall>x \<in> set (the_default [] cfg). provider_within U H K (snd x))"

lemma merge_provider_within:
  assumes "provider_within U H K bp" and "provider_within U H K op"
  shows "provider_within U H K (merge_provider bp op)"
proof -
  have "set (put_all (pv_headers op) (pv_headers bp)) \<subseteq> H"
    using set_put_all [of "pv_headers op" "pv_headers bp"] assms by (auto simp: provider_within_def)
  moreover have "\<forall>x \<in> set (fold (\<lambda>(i, ov). put i ov) (pv_overrides op) (pv_overrides bp)). set (ov_headers (snd x)) \<subseteq> H"
    using set_fold_put [of "pv_overrides op" "pv_overrides bp"] assms unfolding provider_within_def by blast
  moreover have "over_text (pv_base_url op) (pv_base_url bp) \<in> insert [] U" "over_text (pv_api_key op) (pv_api_key bp) \<in> insert [] K"
    using assms unfolding provider_within_def by (auto simp: over_text_def)
  moreover have "\<forall>d \<in> set (merge_model_defs (pv_models bp) (pv_models op)). md_base_url d \<in> insert [] U \<and> set (md_headers d) \<subseteq> H"
    using assms by (auto simp: provider_within_def merge_model_defs_def)
  ultimately show ?thesis using assms by (simp add: provider_within_def merge_provider_def)
qed

lemma merge_config_within:
  assumes "config_within U H K base" and "config_within U H K overlay"
  shows "config_within U H K (merge_models_config base overlay)"
proof (cases overlay)
  case (Some ps)
  let ?add = "\<lambda>(p, op) b. put p (case map_of b p of None \<Rightarrow> op | Some bp \<Rightarrow> merge_provider bp op) b"
  have "\<forall>x \<in> set (fold ?add ps b). provider_within U H K (snd x)"
    if "\<forall>x \<in> set ps. provider_within U H K (snd x)" "\<forall>x \<in> set b. provider_within U H K (snd x)" for b
    using that
  proof (induction ps arbitrary: b)
    case (Cons a ps)
    obtain p op where a: "a = (p, op)" by (cases a)
    let ?new = "case map_of b p of None \<Rightarrow> op | Some bp \<Rightarrow> merge_provider bp op"
    have op: "provider_within U H K op" using Cons.prems(1) by (simp add: a)
    have "provider_within U H K bp" if "map_of b p = Some bp" for bp
      using Cons.prems(2) map_of_SomeD [OF that] by fastforce
    with op have "provider_within U H K ?new" by (auto split: option.split intro: merge_provider_within)
    then have "\<forall>x \<in> set (put p ?new b). provider_within U H K (snd x)"
      using Cons.prems(2) set_put_subset [of p ?new b] by fastforce
    with Cons show ?case by (simp add: a)
  qed simp
  with assms show ?thesis by (simp add: merge_models_config_def config_within_def Some)
qed (use assms in \<open>simp add: merge_models_config_def\<close>)

text \<open>The configurations the user has written.\<close>

fun layer_config :: "layer \<Rightarrow> (string \<times> provider_cfg) list" where
  "layer_config (Document (Some ps)) = ps"
| "layer_config l = []"

definition user_configs :: "layer \<Rightarrow> (string \<times> string \<times> layer) list \<Rightarrow> (string \<times> provider_cfg) list" where
  "user_configs base fragments = layer_config base @ concat (map (\<lambda>(path, name, l). layer_config l) fragments)"

lemma load_fragments_within:
  "load_fragments st fs = Inr st' \<Longrightarrow> config_within U H K (fst st)
   \<Longrightarrow> \<forall>(path, name, l) \<in> set fs. config_within U H K (Some (layer_config l)) \<Longrightarrow> config_within U H K (fst st')"
proof (induction st fs rule: load_fragments.induct)
  case (2 st path name l fs)
  then obtain ps where l: "l = Document (Some ps)"
    by (auto split: layer.splits option.splits)
  from 2 show ?case by (simp add: l add_layer_def merge_config_within)
qed simp

lemma load_layers_within:
  assumes "load_layers path base fragments overlay = Inr (cfg, origins)"
    and "\<And>c. overlay = Some c \<Longrightarrow> config_within U H K c"
    and user: "config_within U H K (Some (user_configs base fragments))"
  shows "config_within U H K cfg"
proof -
  let ?start = "case overlay of None \<Rightarrow> (None, []) | Some c \<Rightarrow> add_layer (None, []) c ''overlay''"
  have none: "config_within U H K None" by (simp add: config_within_def)
  have start: "config_within U H K (fst ?start)"
    using assms(2) none by (auto simp: add_layer_def merge_config_within split: option.split)
  show ?thesis
  proof (cases "path = []")
    case True
    with assms(1) start show ?thesis by (simp add: load_layers_def)
  next
    case False
    with assms(1) obtain st where st: "load_base ?start path base = Inr st"
      "load_fragments st (sort_key fst fragments) = Inr (cfg, origins)"
      by (auto simp: load_layers_def Let_def split: sum.splits)
    have "config_within U H K c" if "base = Document c" for c
      using user that by (cases c) (auto simp: config_within_def user_configs_def)
    with st(1) start have "config_within U H K (fst st)"
      by (auto simp: load_base_def add_layer_def merge_config_within split: layer.splits)
    moreover have "\<forall>(path, name, l) \<in> set (sort_key fst fragments). config_within U H K (Some (layer_config l))"
      using user by (fastforce simp: config_within_def user_configs_def)
    ultimately show ?thesis using load_fragments_within [OF st(2)] by simp
  qed
qed

subsection \<open>Where a request goes, and what it carries\<close>

definition built_ins :: "build_env \<Rightarrow> model set" where
  "built_ins env = (\<Union>p \<in> set (be_providers env). set (be_listed env p) \<union> set (be_listed_again env p))"

definition user_urls :: "(string \<times> provider_cfg) list \<Rightarrow> string set" where
  "user_urls ps = (\<Union>(p, pc) \<in> set ps. insert (pv_base_url pc) (md_base_url ` set (pv_models pc)))"

definition user_headers :: "(string \<times> provider_cfg) list \<Rightarrow> (string \<times> string) set" where
  "user_headers ps =
     (\<Union>(p, pc) \<in> set ps. set (pv_headers pc) \<union> (\<Union>d \<in> set (pv_models pc). set (md_headers d))
        \<union> (\<Union>x \<in> set (pv_overrides pc). set (ov_headers (snd x))))"

definition user_keys :: "(string \<times> provider_cfg) list \<Rightarrow> string set" where
  "user_keys ps = (pv_api_key \<circ> snd) ` set ps"

lemma user_within: "config_within (user_urls ps) (user_headers ps) (user_keys ps) (Some ps)"
  by (force simp: config_within_def provider_within_def user_urls_def user_headers_def user_keys_def)

lemma catalog_within:
  "parse_catalog_overlay bs c \<Longrightarrow> config_within U H K (ca_providers c)"
  by (force simp: parse_catalog_overlay_def validate_catalog_providers_def validate_catalog_provider_def list_all_iff
      config_within_def provider_within_def split: option.splits)

text \<open>The headers that configured values stand for, and the one made of a key.\<close>

definition sent_headers :: "value_env \<Rightarrow> (string \<times> string) set \<Rightarrow> string set \<Rightarrow> (string \<times> string) set" where
  "sent_headers env H K =
     (\<lambda>(k, v). (k, resolve_config_value env v)) ` H
     \<union> (\<lambda>key. (''Authorization'', ''Bearer '' @ resolve_config_value env key)) ` K"

lemma resolve_headers_sent: "set hs \<subseteq> H \<Longrightarrow> set (resolve_headers env hs) \<subseteq> sent_headers env H K"
  by (auto simp: resolve_headers_def sent_headers_def)

lemma put_all_sent:
  "set new \<subseteq> S \<Longrightarrow> set old \<subseteq> S \<Longrightarrow> set (put_all new old) \<subseteq> S"
  using set_put_all [of new old] by blast

lemma custom_headers_sent:
  assumes "provider_within U H K pc" and "d \<in> set (pv_models pc)"
  shows "set (custom_headers env pc d) \<subseteq> sent_headers env H K"
proof -
  let ?hs = "put_all (resolve_headers env (md_headers d)) (put_all (resolve_headers env (pv_headers pc)) [])"
  from assms have hs: "set ?hs \<subseteq> sent_headers env H K"
    by (intro put_all_sent resolve_headers_sent) (auto simp: provider_within_def)
  have "(''Authorization'', ''Bearer '' @ resolve_config_value env (pv_api_key pc)) \<in> sent_headers env H K"
    if "pv_api_key pc \<noteq> []"
    using that assms(1) by (auto simp: provider_within_def sent_headers_def)
  with hs show ?thesis
    using set_put_subset [of "''Authorization''" "''Bearer '' @ resolve_config_value env (pv_api_key pc)" ?hs]
    by (auto simp: custom_headers_def Let_def)
qed

lemma merge_headers_sent:
  "set base \<subseteq> S \<Longrightarrow> set hs \<subseteq> H \<Longrightarrow> set (merge_headers env base hs) \<subseteq> S \<union> sent_headers env H K"
  using resolve_headers_sent [of hs H env K]
  by (auto simp: merge_headers_def Let_def dest!: set_put_all [THEN subsetD])

text \<open>A model that goes where it may and carries what it may.\<close>

definition model_within :: "string set \<Rightarrow> (string \<times> string) set \<Rightarrow> model \<Rightarrow> bool" where
  "model_within U S m \<longleftrightarrow> mo_base_url m \<in> U \<and> set (mo_headers m) \<subseteq> S"

definition allowed_urls :: "build_env \<Rightarrow> string set \<Rightarrow> string set" where
  "allowed_urls env U = mo_base_url ` built_ins env \<union> U"

definition allowed_headers :: "build_env \<Rightarrow> (string \<times> string) set \<Rightarrow> string set \<Rightarrow> (string \<times> string) set" where
  "allowed_headers env H K = (\<Union>m \<in> built_ins env. set (mo_headers m)) \<union> sent_headers (be_values env) H K"

lemma first_non_empty_in: "first_non_empty vs \<noteq> [] \<Longrightarrow> first_non_empty vs \<in> set vs"
  by (auto simp: first_non_empty_def split: option.splits dest: find_in)

lemma custom_model_within:
  assumes "provider_within U H K pc" and "d \<in> set (pv_models pc)" and "custom_model env p pc d = Some m"
  shows "model_within (allowed_urls env U) (allowed_headers env H K) m"
proof -
  let ?u = "custom_base_url env p pc d"
  from assms(3) have m: "mo_base_url m = ?u" "?u \<noteq> []" "mo_headers m = custom_headers (be_values env) pc d"
    by (auto simp: custom_model_def split: if_splits)
  from first_non_empty_in m(2) have "?u = md_base_url d \<or> ?u = pv_base_url pc
      \<or> (\<exists>a. built_in_defaults env p = Some (a, ?u))"
    by (fastforce simp: custom_base_url_def split: option.splits)
  moreover have "u \<in> mo_base_url ` built_ins env" if "built_in_defaults env p = Some (a, u)" for a u
  proof -
    from that obtain x xs where x: "be_listed_again env p = x # xs" "p \<in> set (be_providers env)" "u = mo_base_url x"
      by (auto simp: built_in_defaults_def split: if_splits list.splits)
    then have "x \<in> set (be_listed_again env p)" by simp
    with x(2) have "x \<in> built_ins env" unfolding built_ins_def by blast
    with x(3) show ?thesis by simp
  qed
  ultimately have "?u \<in> allowed_urls env U"
    using assms(1,2) m(2) by (auto simp: provider_within_def allowed_urls_def)
  with m custom_headers_sent [OF assms(1,2), of "be_values env"] show ?thesis
    by (auto simp: model_within_def allowed_headers_def)
qed

lemma override_within:
  assumes m: "model_within (allowed_urls env U) (allowed_headers env H K) m" and hs: "set hs \<subseteq> H"
  shows "set (merge_headers (be_values env) (mo_headers m) hs) \<subseteq> allowed_headers env H K"
  using merge_headers_sent [OF _ hs, of "mo_headers m" "allowed_headers env H K" "be_values env" K] m
  by (auto simp: model_within_def allowed_headers_def)

lemma put_model_in: "set (put_model m ms) \<subseteq> insert m (set ms)"
  by (induction ms) auto

lemma merge_custom_in: "set (merge_custom_models bs cs) \<subseteq> set bs \<union> set cs"
  unfolding merge_custom_models_def
proof (induction cs arbitrary: bs)
  case (Cons c cs)
  from Cons [of "put_model c bs"] put_model_in [of c bs] show ?case by auto
qed simp


lemma load_built_in_within:
  assumes po: "\<And>p o'. map_of overrides p = Some o' \<Longrightarrow> po_base_url o' \<in> insert [] U \<and> set (po_headers o') \<subseteq> H"
    and ov: "\<And>p ovs i ov. map_of model_overrides p = Some ovs \<Longrightarrow> map_of ovs i = Some ov \<Longrightarrow> set (ov_headers ov) \<subseteq> H"
    and m: "m \<in> set (load_built_in_models env overrides model_overrides)"
  shows "model_within (allowed_urls env U) (allowed_headers env H K) m"
proof -
  let ?within = "model_within (allowed_urls env U) (allowed_headers env H K)"
  have clone: "?within (account_clone x a)" if "?within x" for x a
    using that by (simp add: account_clone_def apply_bedrock_account_overrides_def model_within_def)
  have listed: "?within (override_model (be_values env) (the_default [] (map_of model_overrides p))
      (override_provider (be_values env) (map_of overrides p) x))"
    if "p \<in> set (be_providers env)" "x \<in> set (be_listed env p)" for p x
  proof -
    have x: "?within x"
      using that by (auto simp: model_within_def allowed_urls_def allowed_headers_def built_ins_def)
    let ?y = "override_provider (be_values env) (map_of overrides p) x"
    have y: "?within ?y"
    proof (cases "map_of overrides p")
      case (Some o')
      with po [OF Some] override_within [OF x, of "po_headers o'"] x show ?thesis
        by (auto simp: override_provider_def model_within_def allowed_urls_def over_text_def)
    qed (simp add: override_provider_def x)
    show ?thesis
    proof (cases "map_of (the_default [] (map_of model_overrides p)) (mo_id ?y)")
      case (Some ov')
      then have "set (ov_headers ov') \<subseteq> H"
        using ov by (cases "map_of model_overrides p") auto
      from override_within [OF y this] y show ?thesis
        by (simp add: override_model_def Some apply_model_override_def model_within_def)
    qed (simp add: override_model_def y)
  qed
  from m show ?thesis
    by (auto simp: load_built_in_models_def Let_def account_clones_def intro: listed clone)
qed

lemma loaded_within:
  assumes load: "load_layers path base fragments overlay = Inr (Some ps, origins)"
    and "config_within U H K (Some ps)"
    and c: "c = load_custom_models env path base fragments overlay" and perm: "set (be_parse_order env ps) = set ps"
    and m: "m \<in> set (combined_models env c)"
  shows "model_within (allowed_urls env U) (allowed_headers env H K) m"
proof -
  have pv: "provider_within U H K pc" if "(p, pc) \<in> set ps" for p pc
    using assms(2) that by (fastforce simp: config_within_def)
  have none: "?thesis" if "m \<in> set (load_built_in_models env [] [])"
    by (rule load_built_in_within [OF _ _ that]) simp_all
  show ?thesis
  proof (cases "validate_models_config (be_providers env) (be_check_order env ps)")
    case (Some e)
    with m none show ?thesis
      by (simp add: c load_custom_models_def load empty_custom_models_def combined_models_def merge_custom_models_def)
  next
    case None
    then have c': "cm_models c = concat (map (provider_models env) (be_parse_order env ps))"
      "cm_overrides c = provider_overrides ps" "cm_model_overrides c = overrides_by_provider ps"
      by (simp_all add: c load_custom_models_def load parse_models_def)
    from m merge_custom_in have "m \<in> set (load_built_in_models env (provider_overrides ps) (overrides_by_provider ps))
        \<or> m \<in> set (concat (map (provider_models env) (be_parse_order env ps)))"
      by (force simp: combined_models_def c')
    then show ?thesis
    proof
      assume built: "m \<in> set (load_built_in_models env (provider_overrides ps) (overrides_by_provider ps))"
      show ?thesis
      proof (rule load_built_in_within [OF _ _ built])
        fix p o'
        assume "map_of (provider_overrides ps) p = Some o'"
        from map_of_SomeD [OF this] pv show "po_base_url o' \<in> insert [] U \<and> set (po_headers o') \<subseteq> H"
          by (fastforce simp: provider_overrides_def provider_within_def)
      next
        fix p ovs i ov
        assume "map_of (overrides_by_provider ps) p = Some ovs" "map_of ovs i = Some ov"
        then have "(p, ovs) \<in> set (overrides_by_provider ps)" "(i, ov) \<in> set ovs" by (auto dest: map_of_SomeD)
        with pv show "set (ov_headers ov) \<subseteq> H"
          by (fastforce simp: overrides_by_provider_def provider_within_def)
      qed
    next
      assume "m \<in> set (concat (map (provider_models env) (be_parse_order env ps)))"
      then obtain p pc d where "(p, pc) \<in> set ps" "d \<in> set (pv_models pc)" "custom_model env p pc d = Some m"
        using perm by (auto simp: provider_models_def List.map_filter_def)
      with custom_model_within [OF pv] show ?thesis by blast
    qed
  qed
qed

text \<open>What is left to Go's maps: their entries in some order.\<close>

definition orders_ok :: "build_env \<Rightarrow> bool" where
  "orders_ok env \<longleftrightarrow>
     (\<forall>ps. mset (be_parse_order env ps) = mset ps \<and> mset (be_check_order env ps) = mset ps)"

lemma orders_set: "orders_ok env \<Longrightarrow> set (be_parse_order env ps) = set ps \<and> set (be_check_order env ps) = set ps"
  unfolding orders_ok_def by (metis mset_eq_setD)

text \<open>
  C34: Whatever a published catalogue says, once it has passed its validation every model of the registry goes
  to an endpoint, and carries headers and keys, that are built in or that the user has configured.
\<close>

theorem catalog_never_redirects:
  assumes "parse_catalog_overlay (be_providers env) doc" and "orders_ok env"
    and "m \<in> set (combined_models env (load_custom_models env path base fragments (Some (ca_providers doc))))"
  shows "mo_base_url m \<in> mo_base_url ` built_ins env \<union> user_urls (user_configs base fragments)
    \<and> set (mo_headers m) \<subseteq> (\<Union>b \<in> built_ins env. set (mo_headers b))
        \<union> sent_headers (be_values env) (user_headers (user_configs base fragments)) (user_keys (user_configs base fragments))"
proof -
  let ?c = "load_custom_models env path base fragments (Some (ca_providers doc))"
  let ?us = "user_configs base fragments"
  let ?within = "model_within (allowed_urls env (user_urls ?us)) (allowed_headers env (user_headers ?us) (user_keys ?us))"
  have "?within m" if "combined_models env ?c = load_built_in_models env [] []"
    using assms(3) unfolding that by (rule load_built_in_within [rotated 2]) simp_all
  moreover have "?within m \<or> combined_models env ?c = load_built_in_models env [] []"
  proof (cases "load_layers path base fragments (Some (ca_providers doc))")
    case (Inl e)
    then show ?thesis
      by (simp add: load_custom_models_def combined_models_def empty_custom_models_def merge_custom_models_def)
  next
    case (Inr a)
    obtain cfg origins where a: "a = (cfg, origins)" by (cases a)
    show ?thesis
    proof (cases cfg)
      case None
      then show ?thesis
        by (simp add: load_custom_models_def Inr a combined_models_def empty_custom_models_def merge_custom_models_def)
    next
      case (Some ps)
      from load_layers_within [OF Inr [unfolded a] _ user_within] catalog_within [OF assms(1)]
      have "config_within (user_urls ?us) (user_headers ?us) (user_keys ?us) (Some ps)" by (simp add: Some)
      from loaded_within [OF Inr [unfolded a Some] this refl _ assms(3)] orders_set [OF assms(2)] show ?thesis by blast
    qed
  qed
  ultimately show ?thesis by (auto simp: model_within_def allowed_urls_def allowed_headers_def)
qed

subsection \<open>The last layer has its way\<close>

lemma find_append: "find P (xs @ ys) = over (find P xs) (find P ys)"
  by (induction xs) (auto simp: over_def)

lemma find_filter: "(\<And>x. P x \<Longrightarrow> Q x) \<Longrightarrow> find P (filter Q xs) = find P xs"
  by (induction xs) auto

definition last_def :: "provider_cfg \<Rightarrow> string \<Rightarrow> model_def option" where
  "last_def pc i = find (\<lambda>d. md_id d = i) (rev (pv_models pc))"

definition def_of :: "models_config \<Rightarrow> string \<Rightarrow> string \<Rightarrow> model_def option" where
  "def_of cfg p i = (case map_of (the_default [] cfg) p of None \<Rightarrow> None | Some pc \<Rightarrow> last_def pc i)"

lemma last_def_merge: "last_def (merge_provider bp op) i = over (last_def op i) (last_def bp i)"
proof -
  have "find (\<lambda>d. md_id d = i) (rev (filter (\<lambda>m. md_id m \<notin> md_id ` set (pv_models op)) (pv_models bp))) = last_def bp i"
    if "last_def op i = None"
  proof -
    from that have "i \<notin> md_id ` set (pv_models op)" by (auto simp: last_def_def find_None_iff)
    then show ?thesis unfolding last_def_def by (subst rev_filter) (rule find_filter, auto)
  qed
  then show ?thesis
    by (cases "last_def op i") (auto simp: merge_provider_def merge_model_defs_def last_def_def find_append over_def)
qed

lemma map_of_merge:
  assumes "distinct (map fst ps)"
  shows "map_of (fold (\<lambda>(p, op) b. put p (case map_of b p of None \<Rightarrow> op | Some bp \<Rightarrow> merge_provider bp op) b) ps b) p =
    (case map_of ps p of
       None \<Rightarrow> map_of b p
     | Some op \<Rightarrow> Some (case map_of b p of None \<Rightarrow> op | Some bp \<Rightarrow> merge_provider bp op))"
  using assms
proof (induction ps arbitrary: b)
  case (Cons a ps)
  obtain q op where a: "a = (q, op)" by (cases a)
  with Cons.prems have "map_of ps q = None" by (simp add: map_of_eq_None_iff)
  with Cons show ?case by (cases "p = q"; cases "map_of ps p") (simp_all add: a)
qed simp

lemma def_of_merge:
  assumes "distinct (map fst (the_default [] b))"
  shows "def_of (merge_models_config a b) p i = over (def_of b p i) (def_of a p i)"
proof (cases b)
  case (Some ps)
  with assms show ?thesis
    by (auto simp: def_of_def merge_models_config_def map_of_merge last_def_merge over_def split: option.splits)
qed (simp add: merge_models_config_def def_of_def over_def)

text \<open>The documents read, from the lowest layer to the highest, with what they are called.\<close>

definition layer_documents :: "string \<Rightarrow> layer \<Rightarrow> (string \<times> models_config) list" where
  "layer_documents origin l = (case l of Document cfg \<Rightarrow> [(origin, cfg)] | _ \<Rightarrow> [])"

definition labelled_layers ::
  "string \<Rightarrow> layer \<Rightarrow> (string \<times> string \<times> layer) list \<Rightarrow> models_config option \<Rightarrow> (string \<times> models_config) list" where
  "labelled_layers path base fragments overlay =
     (case overlay of None \<Rightarrow> [] | Some cfg \<Rightarrow> [(''overlay'', cfg)])
     @ (if path = [] then []
        else layer_documents ''user:models.json'' base
          @ concat (map (\<lambda>(f, name, l). layer_documents (''user:models.d/'' @ name) l) (sort_key fst fragments)))"

definition add_layers :: "(string \<times> models_config) list \<Rightarrow> models_config \<times> headers \<Rightarrow> models_config \<times> headers" where
  "add_layers ls st = fold (\<lambda>(origin, cfg) st. add_layer st cfg origin) ls st"

lemma load_fragments_added:
  "load_fragments st fs = Inr st' \<Longrightarrow>
   st' = add_layers (concat (map (\<lambda>(f, name, l). layer_documents (''user:models.d/'' @ name) l) fs)) st"
proof (induction st fs rule: load_fragments.induct)
  case (2 st path name l fs)
  then obtain ps where l: "l = Document (Some ps)"
    by (auto split: layer.splits option.splits)
  from 2 show ?case by (simp add: l add_layers_def layer_documents_def)
qed (simp add: add_layers_def)

lemma load_layers_added:
  assumes "load_layers path base fragments overlay = Inr st"
  shows "st = add_layers (labelled_layers path base fragments overlay) (None, [])"
proof (cases "path = []")
  case True
  with assms show ?thesis by (auto simp: load_layers_def labelled_layers_def add_layers_def split: option.splits)
next
  case False
  let ?start = "case overlay of None \<Rightarrow> (None, []) | Some c \<Rightarrow> add_layer (None, []) c ''overlay''"
  from False assms obtain st' where st: "load_base ?start path base = Inr st'" "load_fragments st' (sort_key fst fragments) = Inr st"
    by (auto simp: load_layers_def Let_def split: sum.splits)
  from st(1) have "st' = add_layers (layer_documents ''user:models.json'' base) ?start"
    by (auto simp: load_base_def layer_documents_def add_layers_def split: layer.splits)
  with load_fragments_added [OF st(2)] False show ?thesis
    by (auto simp: labelled_layers_def add_layers_def split: option.splits)
qed

lemma def_of_added:
  assumes "\<forall>(origin, cfg) \<in> set ls. distinct (map fst (the_default [] cfg)) \<and> def_of cfg p i = None"
  shows "def_of (fst (add_layers ls st)) p i = def_of (fst st) p i"
  using assms
proof (induction ls arbitrary: st)
  case (Cons a ls)
  obtain origin cfg where a: "a = (origin, cfg)" by (cases a)
  from Cons show ?case by (simp add: a add_layers_def add_layer_def def_of_merge over_def)
qed (simp add: add_layers_def)

lemma last_layer_defines:
  assumes "ls = before @ (origin, cfg) # after" and "def_of cfg p i = Some d"
    and "\<forall>(o', c) \<in> set after. def_of c p i = None"
    and "\<forall>(o', c) \<in> set ls. distinct (map fst (the_default [] c))"
  shows "def_of (fst (add_layers ls st)) p i = Some d"
proof -
  have "add_layers ls st = add_layers after (add_layer (add_layers before st) cfg origin)"
    by (simp add: assms(1) add_layers_def)
  moreover have "def_of (fst (add_layer (add_layers before st) cfg origin)) p i = Some d"
    using assms by (simp add: add_layer_def def_of_merge over_def)
  moreover have "\<forall>(o', c) \<in> set after. distinct (map fst (the_default [] c)) \<and> def_of c p i = None"
    using assms by auto
  note def_of_added [OF this, of "add_layer (add_layers before st) cfg origin"]
  ultimately show ?thesis by simp
qed

lemma find_put_model:
  "find (\<lambda>x. model_key x = k) (put_model m ms) = (if model_key m = k then Some m else find (\<lambda>x. model_key x = k) ms)"
  by (induction ms) (auto simp: model_key_def)

lemma find_merge_custom:
  "find (\<lambda>x. model_key x = k) (merge_custom_models bs cs) =
    over (find (\<lambda>x. model_key x = k) (rev cs)) (find (\<lambda>x. model_key x = k) bs)"
  unfolding merge_custom_models_def
proof (induction cs arbitrary: bs)
  case (Cons c cs)
  then show ?case
    by (cases "find (\<lambda>x. model_key x = k) (rev cs)") (simp_all add: find_put_model find_append over_def)
qed (simp add: over_def)

lemma find_map_filter:
  assumes "find (\<lambda>d. md_id d = i) ds = Some d" and "f d = Some m" and "\<And>d m. f d = Some m \<Longrightarrow> model_key m = (p, md_id d)"
  shows "find (\<lambda>x. model_key x = (p, i)) (List.map_filter f ds) = Some m"
  using assms(1)
proof (induction ds)
  case (Cons a ds)
  show ?case
  proof (cases "f a")
    case None
    with Cons assms(2) show ?thesis by (auto simp: List.map_filter_simps split: if_splits)
  next
    case (Some x)
    with Cons assms(2,3) show ?thesis by (auto simp: List.map_filter_simps split: if_splits)
  qed
qed simp

lemma custom_model_key: "custom_model env p pc d = Some m \<Longrightarrow> model_key m = (p, md_id d)"
  by (auto simp: custom_model_def model_key_def split: if_splits)

lemma rev_map_filter: "rev (List.map_filter f xs) = List.map_filter f (rev xs)"
  by (simp add: List.map_filter_def rev_map rev_filter)

lemma provider_block_other: "p' \<noteq> p \<Longrightarrow> m \<in> set (provider_models env (p', pc)) \<Longrightarrow> model_key m \<noteq> (p, i)"
  using custom_model_key [of env p'] by (fastforce simp: provider_models_def List.map_filter_def)

lemma find_custom:
  assumes dist: "distinct (map fst ps)" and p: "map_of ps p = Some pc" and d: "last_def pc i = Some d"
    and m: "custom_model env p pc d = Some m"
  shows "find (\<lambda>x. model_key x = (p, i)) (rev (concat (map (provider_models env) ps))) = Some m"
proof -
  from split_list [OF map_of_SomeD [OF p]] obtain as bs where ps: "ps = as @ (p, pc) # bs" by blast
  from dist have "p \<notin> fst ` set bs" by (simp add: ps)
  then have other: "p' \<noteq> p" if "(p', pc') \<in> set bs" for p' pc' using that by (metis fst_conv image_eqI)
  have before: "find (\<lambda>x. model_key x = (p, i)) (rev (concat (map (provider_models env) bs))) = None" (is ?none)
  proof (rule ccontr)
    assume "\<not> ?none"
    then obtain p' pc' x where "(p', pc') \<in> set bs" "x \<in> set (provider_models env (p', pc'))" "model_key x = (p, i)"
      by (auto simp: find_None_iff)
    with provider_block_other other show False by blast
  qed
  have "find (\<lambda>x. model_key x = (p, i)) (rev (provider_models env (p, pc))) = Some m"
    unfolding provider_models_def prod.case rev_map_filter
    by (rule find_map_filter [where f = "custom_model env p pc", OF d [unfolded last_def_def] m]) (rule custom_model_key)
  with before show ?thesis by (simp add: ps find_append over_def)
qed

lemma first_error_None: "first_error f xs = None \<longleftrightarrow> (\<forall>x \<in> set xs. f x = None)"
  by (induction xs) (auto split: option.split)

text \<open>
  The endpoint of a built-in provider, from which a definition takes what it leaves out: there is a model to
  take it from, and that model names one.
\<close>

definition endpoint_known :: "build_env \<Rightarrow> string \<Rightarrow> bool" where
  "endpoint_known env p \<longleftrightarrow>
     p \<notin> set (be_providers env) \<or> (case built_in_defaults env p of None \<Rightarrow> False | Some (a, u) \<Rightarrow> a \<noteq> [] \<and> u \<noteq> [])"

lemma first_non_empty_Nil: "first_non_empty vs = [] \<longleftrightarrow> (\<forall>v \<in> set vs. v = [])"
  by (auto simp: first_non_empty_def find_None_iff split: option.splits dest: find_in)

lemma valid_definition_kept:
  assumes "validate_models_config (be_providers env) ps = None" and "(p, pc) \<in> set ps" and "d \<in> set (pv_models pc)"
    and "endpoint_known env p"
  shows "\<exists>m. custom_model env p pc d = Some m"
proof -
  have pv: "validate_provider (be_providers env) (p, pc) = None"
    using assms(1,2) by (simp add: validate_models_config_def first_error_None)
  have models: "pv_models pc \<noteq> []" using assms(3) by auto
  have api: "pv_api pc \<noteq> [] \<or> md_api d \<noteq> []" and url: "pv_base_url pc \<noteq> []" if new: "p \<notin> set (be_providers env)"
  proof -
    from pv models new have "first_error (validate_model False (pv_api pc) p) (pv_models pc) = None"
      by (auto simp: validate_provider_def split: if_splits)
    with assms(3) have "validate_model False (pv_api pc) p d = None" by (simp add: first_error_None)
    then show "pv_api pc \<noteq> [] \<or> md_api d \<noteq> []" by (auto simp: validate_model_def split: if_splits)
    from pv models new show "pv_base_url pc \<noteq> []" by (auto simp: validate_provider_def split: if_splits)
  qed
  have "custom_api env p pc d \<noteq> []" "custom_base_url env p pc d \<noteq> []"
    using api url assms(4)
    by (auto simp: custom_api_def custom_base_url_def first_non_empty_Nil endpoint_known_def split: option.splits)
  then show ?thesis by (simp add: custom_model_def)
qed


lemma distinct_merge:
  "distinct (map fst (the_default [] a)) \<Longrightarrow> distinct (map fst (the_default [] (merge_models_config a b)))"
proof (cases b)
  case (Some ps)
  have "distinct (map fst (fold (\<lambda>(p, op) b. put p (case map_of b p of None \<Rightarrow> op | Some bp \<Rightarrow> merge_provider bp op) b) ps c))"
    if "distinct (map fst c)" for c
    using that by (induction ps arbitrary: c) (auto split: prod.splits)
  then show ?thesis if "distinct (map fst (the_default [] a))" using that by (simp add: merge_models_config_def Some)
qed (simp add: merge_models_config_def)

lemma distinct_added:
  "distinct (map fst (the_default [] (fst st))) \<Longrightarrow> distinct (map fst (the_default [] (fst (add_layers ls st))))"
proof (induction ls arbitrary: st)
  case (Cons a ls)
  obtain origin cfg where a: "a = (origin, cfg)" by (cases a)
  from Cons show ?case by (simp add: a add_layers_def add_layer_def distinct_merge)
qed (simp add: add_layers_def)

lemma map_of_permuted: "distinct (map fst ps) \<Longrightarrow> mset qs = mset ps \<Longrightarrow> distinct (map fst qs) \<and> map_of qs = map_of ps"
  by (metis map_of_inject_set mset_eq_imp_distinct_iff mset_eq_setD mset_map)

text \<open>
  C35: The last layer that defines a model has its way. When all the documents can be read and the configuration
  is valid, a model that some layer defines, and no later one, is in the registry as that layer has defined it,
  with what it leaves out taken from the provider as merged from all layers. No definition is lost, provided
  the built-in models of the provider, if it has any, name an endpoint to take from.
\<close>

theorem last_layer_wins:
  assumes load: "load_layers path base fragments overlay = Inr (Some ps, origins)"
    and layers: "labelled_layers path base fragments overlay = before @ (origin, cfg) # after"
    and "def_of cfg p i = Some d" and "\<forall>(o', c) \<in> set after. def_of c p i = None"
    and "\<forall>(o', c) \<in> set (labelled_layers path base fragments overlay). distinct (map fst (the_default [] c))"
    and valid: "validate_models_config (be_providers env) (be_check_order env ps) = None"
    and orders: "orders_ok env" and known: "endpoint_known env p"
  shows "\<exists>pc m. map_of ps p = Some pc \<and> custom_model env p pc d = Some m
    \<and> find (\<lambda>x. model_key x = (p, i)) (combined_models env (load_custom_models env path base fragments overlay)) = Some m"
proof -
  let ?c = "load_custom_models env path base fragments overlay"
  have ps: "(Some ps, origins) = add_layers (labelled_layers path base fragments overlay) (None, [])"
    by (rule load_layers_added [OF load])
  then have dist: "distinct (map fst ps)"
    using distinct_added [of "(None, [])" "labelled_layers path base fragments overlay"] by (simp flip: ps)
  have "def_of (Some ps) p i = Some d"
    using last_layer_defines [OF layers assms(3-5), of "(None, [])"] by (simp flip: ps)
  then obtain pc where pc: "map_of ps p = Some pc" "last_def pc i = Some d"
    by (auto simp: def_of_def split: option.splits)
  then have d: "d \<in> set (pv_models pc)" by (auto simp: last_def_def dest: find_in)
  have "(p, pc) \<in> set (be_check_order env ps)"
    using orders_set [OF orders, of ps] map_of_SomeD [OF pc(1)] by blast
  from valid_definition_kept [OF valid this d known] obtain m where m: "custom_model env p pc d = Some m" by blast
  have perm: "distinct (map fst (be_parse_order env ps))" "map_of (be_parse_order env ps) p = Some pc"
    using map_of_permuted [OF dist, of "be_parse_order env ps"] orders pc(1) by (simp_all add: orders_ok_def)
  have "cm_models ?c = concat (map (provider_models env) (be_parse_order env ps))"
    by (simp add: load_custom_models_def load valid parse_models_def)
  then have "find (\<lambda>x. model_key x = (p, i)) (combined_models env ?c) = Some m"
    by (simp add: combined_models_def find_merge_custom find_custom [OF perm pc(2) m] over_def)
  with pc(1) m show ?thesis by blast
qed


subsection \<open>Samples\<close>

definition empty_provider :: provider_cfg where
  "empty_provider = \<lparr>pv_base_url = [], pv_api_key = [], pv_api = [], pv_headers = [], pv_auth_header = None, pv_models = [],
     pv_overrides = []\<rparr>"

definition bare_def :: "string \<Rightarrow> model_def" where
  "bare_def i = \<lparr>md_id = i, md_name = [], md_api = [], md_base_url = [], md_reasoning = None, md_effort_values = [],
     md_input = None, md_cost = None, md_context_window = None, md_max_tokens = None, md_headers = [], md_compat = None,
     md_server_tools = [], md_compaction = None, md_adaptive_thinking = None, md_swe_score = None\<rparr>"

definition bare_override :: model_override where
  "bare_override = \<lparr>ov_name = [], ov_reasoning = None, ov_effort_values = None, ov_input = None, ov_cost = None,
     ov_context_window = None, ov_max_tokens = None, ov_headers = [], ov_compat = None, ov_server_tools = None,
     ov_compaction = None, ov_adaptive_thinking = None, ov_swe_score = None\<rparr>"

definition sample_env :: "model list \<Rightarrow> model list \<Rightarrow> build_env" where
  "sample_env ms ms' =
     \<lparr>be_values = \<lparr>ve_getenv = (\<lambda>v. []), ve_command = (\<lambda>c. [])\<rparr>, be_providers = [''openai''],
      be_listed = (\<lambda>p. if p = ''openai'' then ms else []), be_listed_again = (\<lambda>p. if p = ''openai'' then ms' else []),
      be_check_order = (\<lambda>ps. ps), be_parse_order = (\<lambda>ps. ps), be_accounts = (\<lambda>p. []), be_modify = []\<rparr>"

definition sample_catalog :: catalog_doc where
  "sample_catalog =
     \<lparr>ca_version = 1, ca_generated = 7, ca_defaults = [], ca_claude_code = Some ''2.1.280'',
      ca_providers = Some [(''openai'', empty_provider\<lparr>pv_models := [(bare_def ''gpt-6'')\<lparr>md_name := ''Catalogue''\<rparr>]\<rparr>)]\<rparr>"

definition user_layer :: layer where
  "user_layer = Document (Some [(''openai'', empty_provider\<lparr>pv_models := [(bare_def ''gpt-6'')\<lparr>md_name := ''Mine''\<rparr>],
     pv_headers := [(''x-team'', ''a'')]\<rparr>)])"

abbreviation "one_model \<equiv> [sample_model ''openai'' ''gpt-5'']"

lemma sample_orders: "orders_ok (sample_env ms ms')"
  by (simp add: orders_ok_def sample_env_def)

theorem catalog_never_redirects_witness:
  "\<exists>m \<in> set (combined_models (sample_env one_model one_model)
       (load_custom_models (sample_env one_model one_model) ''m'' user_layer [] (Some (ca_providers sample_catalog)))).
     mo_id m = ''gpt-6'' \<and> mo_base_url m \<in> mo_base_url ` built_ins (sample_env one_model one_model)
       \<union> user_urls (user_configs user_layer [])"
proof -
  let ?env = "sample_env one_model one_model"
  let ?ms = "combined_models ?env (load_custom_models ?env ''m'' user_layer [] (Some (ca_providers sample_catalog)))"
  have "''gpt-6'' \<in> mo_id ` set ?ms" by code_simp
  then obtain m where m: "m \<in> set ?ms" "mo_id m = ''gpt-6''" by force
  have "parse_catalog_overlay (be_providers ?env) sample_catalog" by code_simp
  from catalog_never_redirects [OF this sample_orders m(1)] m show ?thesis by blast
qed

theorem last_layer_wins_witness:
  "\<exists>pc m. custom_model (sample_env one_model one_model) ''openai'' pc ((bare_def ''gpt-6'')\<lparr>md_name := ''Mine''\<rparr>) = Some m
    \<and> find (\<lambda>x. model_key x = (''openai'', ''gpt-6''))
        (combined_models (sample_env one_model one_model)
           (load_custom_models (sample_env one_model one_model) ''m'' user_layer [] (Some (ca_providers sample_catalog)))) = Some m"
proof -
  let ?env = "sample_env one_model one_model" and ?d = "(bare_def ''gpt-6'')\<lparr>md_name := ''Mine''\<rparr>"
  let ?user = "[(''openai'', empty_provider\<lparr>pv_models := [?d], pv_headers := [(''x-team'', ''a'')]\<rparr>)]"
  let ?over = "Some (ca_providers sample_catalog)"
  let ?ps = "[(''openai'', empty_provider\<lparr>pv_models := [?d], pv_headers := [(''x-team'', ''a'')]\<rparr>)]"
  have layers: "labelled_layers ''m'' user_layer [] ?over =
      [(''overlay'', ca_providers sample_catalog)] @ (''user:models.json'', Some ?user) # []"
    by (simp add: labelled_layers_def user_layer_def layer_documents_def)
  have "\<exists>origins. load_layers ''m'' user_layer [] ?over = Inr (Some ?ps, origins)"
    by (simp add: load_layers_def load_base_def user_layer_def add_layer_def merge_models_config_def sample_catalog_def
        merge_provider_def merge_model_defs_def empty_provider_def bare_def_def put_all_def over_def over_text_def)
  then obtain origins where load: "load_layers ''m'' user_layer [] ?over = Inr (Some ?ps, origins)" by blast
  have "\<exists>pc m. map_of ?ps ''openai'' = Some pc \<and> custom_model ?env ''openai'' pc ?d = Some m
    \<and> find (\<lambda>x. model_key x = (''openai'', ''gpt-6'')) (combined_models ?env (load_custom_models ?env ''m'' user_layer [] ?over)) = Some m"
  proof (rule last_layer_wins [OF load layers])
    show "def_of (Some ?user) ''openai'' ''gpt-6'' = Some ?d"
      by (simp add: def_of_def last_def_def bare_def_def)
    show "validate_models_config (be_providers ?env) (be_check_order ?env ?ps) = None" by code_simp
    show "endpoint_known ?env ''openai''" by code_simp
    show "\<forall>(o', c) \<in> set (labelled_layers ''m'' user_layer [] ?over). distinct (map fst (the_default [] c))"
      unfolding layers by (simp add: sample_catalog_def)
  qed (simp_all add: sample_orders)
  then show ?thesis by blast
qed

text \<open>Which model comes first in Go's map decides where a model without an endpoint of its own goes.\<close>

definition other_endpoint :: model where
  "other_endpoint = (sample_model ''openai'' ''gpt-4'')\<lparr>mo_base_url := ''https://x/v1''\<rparr>"

lemma endpoint_by_chance:
  "map mo_base_url (cm_models (load_custom_models (sample_env [other_endpoint, sample_model ''openai'' ''gpt-5'']
       [other_endpoint, sample_model ''openai'' ''gpt-5'']) [] Absent [] (Some (ca_providers sample_catalog)))) = [''https://x/v1'']
   \<and> map mo_base_url (cm_models (load_custom_models (sample_env [other_endpoint, sample_model ''openai'' ''gpt-5'']
       [sample_model ''openai'' ''gpt-5'', other_endpoint]) [] Absent [] (Some (ca_providers sample_catalog)))) = [''https://x'']"
  by code_simp

text \<open>A valid definition is lost, without an error, when the built-in models of its provider have no base URL.\<close>

lemma definition_lost:
  "let env = sample_env [(sample_model ''openai'' ''gpt-5'')\<lparr>mo_base_url := []\<rparr>] [(sample_model ''openai'' ''gpt-5'')\<lparr>mo_base_url := []\<rparr>];
       c = load_custom_models env ''m'' user_layer [] None
   in cm_models c = [] \<and> cm_error c = []"
  by code_simp

text \<open>An override of a model that the catalogue defines has no effect, but the model is said to come from it.\<close>

lemma override_without_effect:
  "let env = sample_env one_model one_model;
       c = load_custom_models env ''m''
             (Document (Some [(''openai'', empty_provider\<lparr>pv_overrides := [(''gpt-6'', bare_override\<lparr>ov_name := ''Mine''\<rparr>)]\<rparr>)]))
             [] (Some (ca_providers sample_catalog))
   in map mo_name (combined_models env c) = [''gpt-5'', ''Catalogue'']
      \<and> model_origin (cm_origins c) ''openai'' ''gpt-6'' = ''user:models.json''"
  by code_simp

subsection \<open>Client versions\<close>







text \<open>Numbers beyond 64 bits count as the same: the newer of two such versions is whichever is published.\<close>

lemma large_versions_equal: "compare_client_versions ''9223372036854775808'' ''9223372036854775809'' = 0"
  by code_simp

end
