(* ===== verification/Spec2Isabelle.thy ===== *)
theory Spec2Isabelle
  imports CatalogProps CompactionProps FactProps TransformProps Observables SectionProps StatusCard
    AgentProps SettingsProps UsageProps EventProps StreamReplay RequestProps EditorRefine Completion ModelConfigProps
begin

text \<open>
  \<^bold>\<open>The program.\<close> \<^verbatim>\<open>fir\<close> is a coding agent for the terminal. A session holds a conversation with a language
  model. Every message is appended to a transcript, a file of JSON lines whose entries form a tree: going
  back to an entry and continuing there makes a branch. The context of the model is computed from the
  branch the session stands on. When it grows too long it is compacted: a summary of the older part takes
  its place. A provider turns the context into requests of one model service and the streamed answer
  into a message. The user types into a terminal editor.

  The development follows five parts of it.

  \<^item> \<^bold>\<open>The transcript\<close> (\<^verbatim>\<open>pkg/session/store\<close>, \<^verbatim>\<open>pkg/sections\<close>): files, entries, stores, forks, listings,
    settings, observable cards, extension sections.
  \<^item> \<^bold>\<open>The running session\<close> (\<^verbatim>\<open>pkg/session\<close>, \<^verbatim>\<open>pkg/session/compaction\<close>): what the agent holds in memory,
    compaction, settings, usage, the status card.
  \<^item> \<^bold>\<open>The provider\<close> (\<^verbatim>\<open>pkg/ai/providers\<close>): the conversation prepared for a model, Anthropic requests with
    their cache breakpoints, and the event stream of the answer.
  \<^item> \<^bold>\<open>The models\<close> (\<^verbatim>\<open>pkg/models\<close>, \<^verbatim>\<open>pkg/ai/family.go\<close>): layers of configuration, product lines,
    and from a name to a model.
  \<^item> \<^bold>\<open>The editor\<close> (\<^verbatim>\<open>pkg/tui/components\<close>, \<^verbatim>\<open>pkg/modes/interactive/autocomplete.go\<close>): text, cursor, undo, kill ring, completion, keys, layout.

  They meet in few places. The session appends to the store and reads its context back
  (\<^verbatim>\<open>SessionContext\<close>); compaction reads a branch of the store and appends an entry to it
  (\<^verbatim>\<open>Compaction\<close>, \<^verbatim>\<open>AutoCompaction\<close>); the provider is given the messages the session holds
  (\<^verbatim>\<open>Transform\<close>, \<^verbatim>\<open>Wire\<close>); the editor hands a submitted text to the session through a callback.

  \<^bold>\<open>Theories and sources.\<close> Under the names of the theories are those of the sources they translate. Definitions
  keep the names of the functions they translate, in lower case with underscores; records keep the fields
  with a prefix of their own.

  \<^item> \<^verbatim>\<open>Prelude\<close>, \<^verbatim>\<open>GoStrings\<close>, \<^verbatim>\<open>Json\<close>, \<^verbatim>\<open>Assoc\<close>: Go's types, strings, UTF-8, JSON values, maps whose order
    of iteration is not specified (association lists with a permutation as a parameter).
  \<^item> \<^verbatim>\<open>Messages\<close>, \<^verbatim>\<open>Entries\<close>, \<^verbatim>\<open>Disk\<close>, \<^verbatim>\<open>StateHistory\<close>, \<^verbatim>\<open>SessionStore\<close>, \<^verbatim>\<open>SessionOps\<close>, \<^verbatim>\<open>SessionOpen\<close>,
    \<^verbatim>\<open>Stores\<close>, \<^verbatim>\<open>Catalog\<close>, \<^verbatim>\<open>ForkAt\<close>: \<^verbatim>\<open>messages.go\<close>, \<^verbatim>\<open>session.go\<close>, \<^verbatim>\<open>session_sidecar.go\<close>, \<^verbatim>\<open>state.go\<close>,
    \<^verbatim>\<open>lock.go\<close>, \<^verbatim>\<open>stores.go\<close>, \<^verbatim>\<open>invocation.go\<close>, \<^verbatim>\<open>fork_at.go\<close> of the store. A disk is a map from paths to
    lists of lines, the last of which may be torn; a store is a record with its log, index, labels,
    leaf and what it has written.
  \<^item> \<^verbatim>\<open>ToolRepair\<close>, \<^verbatim>\<open>SessionContext\<close>: \<^verbatim>\<open>orphan.go\<close> and the context built from a branch.
  \<^item> \<^verbatim>\<open>Observables\<close>, \<^verbatim>\<open>StatusCard\<close>, \<^verbatim>\<open>Sections\<close>: \<^verbatim>\<open>observables.go\<close>, \<^verbatim>\<open>statuscard.go\<close>, \<^verbatim>\<open>sections.go\<close> (both).
  \<^item> \<^verbatim>\<open>CutPoint\<close>, \<^verbatim>\<open>FileOps\<close>, \<^verbatim>\<open>Serialize\<close>, \<^verbatim>\<open>Compaction\<close>: the files of the same names in
    \<^verbatim>\<open>pkg/session/compaction\<close>, with \<^verbatim>\<open>tokens.go\<close>, \<^verbatim>\<open>facts.go\<close> and \<^verbatim>\<open>prompts.go\<close>.
  \<^item> \<^verbatim>\<open>AgentState\<close>, \<^verbatim>\<open>SessionSettings\<close>, \<^verbatim>\<open>AutoCompaction\<close>, \<^verbatim>\<open>AgentSession\<close>,
    \<^verbatim>\<open>ContextUsage\<close>: \<^verbatim>\<open>agentsession.go\<close>, \<^verbatim>\<open>state.go\<close> and \<^verbatim>\<open>runner.go\<close>. A running session is a record with the
    messages in memory, the store and the disk; a world gives the clock and the random identifiers.
  \<^item> \<^verbatim>\<open>Transform\<close>, \<^verbatim>\<open>Wire\<close>, \<^verbatim>\<open>CacheLayout\<close>, \<^verbatim>\<open>ProviderOptions\<close>, \<^verbatim>\<open>AnthropicRequest\<close>, \<^verbatim>\<open>EventStream\<close>,
    \<^verbatim>\<open>AnthropicStream\<close>: \<^verbatim>\<open>transform.go\<close>, \<^verbatim>\<open>anthropic.go\<close>, \<^verbatim>\<open>sidequery.go\<close>, \<^verbatim>\<open>turncache.go\<close>, \<^verbatim>\<open>cacheguard.go\<close>,
    \<^verbatim>\<open>options.go\<close>, \<^verbatim>\<open>headers.go\<close>, \<^verbatim>\<open>sse.go\<close>. A response is a value: status, body, read error.
  \<^item> \<^verbatim>\<open>EditorText\<close>, \<^verbatim>\<open>KillRing\<close>, \<^verbatim>\<open>Editor\<close>, \<^verbatim>\<open>EditorMoves\<close>, \<^verbatim>\<open>EditorKeys\<close>: \<^verbatim>\<open>editor.go\<close>, and of \<^verbatim>\<open>input.go\<close>
    and \<^verbatim>\<open>selectlist.go\<close> the kill ring, the undo stack and the list of completions. The editor is a record;
    an operation whose indices may be out of range gives an option. \<^verbatim>\<open>Completion\<close>: the provider of completions of
    the interactive mode, \<^verbatim>\<open>autocomplete.go\<close>, and its properties.
  \<^item> \<^verbatim>\<open>ModelFamily\<close>, \<^verbatim>\<open>ModelConfig\<close>, \<^verbatim>\<open>ModelResolver\<close>: \<^verbatim>\<open>family.go\<close>; the build of the registry from the
    catalogue, \<^verbatim>\<open>models.json\<close> and fragments in \<^verbatim>\<open>modelregistry.go\<close> and \<^verbatim>\<open>catalog.go\<close>, documents being given decoded;
    \<^verbatim>\<open>modelresolver.go\<close> with the queries of \<^verbatim>\<open>modelregistry.go\<close>, \<^verbatim>\<open>live_models.go\<close>, \<^verbatim>\<open>live_synthesis.go\<close>.

  \<^bold>\<open>What is shown.\<close> The remaining theories hold the invariants, the lemmas and the properties.

  \<^item> \<^verbatim>\<open>Forest\<close>, \<^verbatim>\<open>SessionInv\<close>, \<^verbatim>\<open>SessionRun\<close>, \<^verbatim>\<open>StoreProps\<close>, \<^verbatim>\<open>ContextFacts\<close>, \<^verbatim>\<open>ContextProps\<close>: in every
    reachable state, crashes and reopenings included, the log is a tree, its file reads back as the store,
    every walk to the root ends, no step changes the context of an older entry, and every tool call
    in a context is answered.
  \<^item> \<^verbatim>\<open>BranchCopy\<close>, \<^verbatim>\<open>ForkProps\<close>, \<^verbatim>\<open>CatalogProps\<close>: forks and copies have the context of what they were made
    from; a listing says what the transcripts say.
  \<^item> \<^verbatim>\<open>FactProps\<close>, \<^verbatim>\<open>CompactionProps\<close>: compaction cuts at a turn, never before a tool result, loses nothing between
    summary and kept part, and gives the context it promises.
  \<^item> \<^verbatim>\<open>MemoryRun\<close>, \<^verbatim>\<open>MemoryProps\<close>, \<^verbatim>\<open>AgentProps\<close>, \<^verbatim>\<open>SettingsProps\<close>, \<^verbatim>\<open>UsageProps\<close>: along every run
    of a session the conversation in memory is the one a process that opens the transcript is given;
    settings saved are the settings restored.
  \<^item> \<^verbatim>\<open>TransformProps\<close>, \<^verbatim>\<open>WireProps\<close>, \<^verbatim>\<open>LayoutProps\<close>, \<^verbatim>\<open>RequestProps\<close>: requests pass the validation of the service,
    carry signed thinking back unchanged, extend each other, and have at most four breakpoints.
  \<^item> \<^verbatim>\<open>EventProps\<close>, \<^verbatim>\<open>StreamProps\<close>, \<^verbatim>\<open>StreamReplay\<close>: what a server streams is what is delivered, however it is
    cut into pieces; every response, sound or not, ends in exactly one final event.
  \<^item> \<^verbatim>\<open>EditorBuffer\<close>, \<^verbatim>\<open>EditorInv\<close>, \<^verbatim>\<open>EditorKill\<close>, \<^verbatim>\<open>EditorLayout\<close>, \<^verbatim>\<open>EditorSafe\<close>, \<^verbatim>\<open>EditorRun\<close>,
    \<^verbatim>\<open>EditorEdits\<close>, \<^verbatim>\<open>EditorRefine\<close>: the invariant of the editor along every run, where it can stop, kills and
    yanks, undo, and that editing is editing on the two strings around the cursor.
  \<^item> \<^verbatim>\<open>Completion\<close>: with the completions of the program the editor stops at four named inputs only; a completion
    replaces what was typed, and a completed directory is read back.
  \<^item> \<^verbatim>\<open>ModelFamily\<close>, \<^verbatim>\<open>ModelConfigProps\<close>, \<^verbatim>\<open>ModelResolver\<close>: the newest model of a product line; no catalogue decides
    where a request goes or what it carries; the last layer that defines a model has its way; the glob loop decides
    matching; every registered model is found under its own name, and a resolution gives a model or an error.
  \<^item> \<^verbatim>\<open>Observables\<close>, \<^verbatim>\<open>SectionProps\<close>, \<^verbatim>\<open>StatusCard\<close>: cards, sections and the status.
  \<^item> \<^verbatim>\<open>Samples\<close>, \<^verbatim>\<open>AgentSamples\<close> and the samples beside the editor properties are the concrete inputs at which
    the properties are applied.

  \<^bold>\<open>Interfaces.\<close> What several components rely on is a locale, interpreted on the definitions of the model:
  a forest of nodes with parents (\<^verbatim>\<open>Forest\<close>, for the index of a log), a codec with its round trip (\<^verbatim>\<open>Json\<close>,
  for headers, entries, settings and history records), a repair of unanswered tool calls (\<^verbatim>\<open>ToolRepair\<close>, for the
  one of the session and the one of the provider), a bounded stack (\<^verbatim>\<open>KillRing\<close>, for undo).

  \<^bold>\<open>Bounds and fuel.\<close> Loops over parents carry the number of entries as fuel, which is enough because the log
  is a tree (\<^verbatim>\<open>get_branch_rooted\<close>). The other loops are structural or have a measure. The bounds are those of
  the code: four cache breakpoints, five attempts at a response, a hundred undo states and history
  entries, ten kills. Go's \<^verbatim>\<open>int\<close> is read as an integer where it counts what fits into memory; where the code
  multiplies what a terminal sends (\<^verbatim>\<open>parse_int\<close>), it wraps at 64 bits, and at 32 bits as a rune.

  \<^bold>\<open>Conventions.\<close> Strings are lists of bytes. Errors of Go are values of an option or a sum; a panic is one too.
  Locks are not modelled, but for the editor, where a second lock is a fault; operations are atomic. Callbacks
  are logged and do not call back. The clock, random identifiers, hashes, widths and classes of runes, key
  names, regular expressions of the error classifier, the environment, commands and the network are parameters.

  \<^bold>\<open>Not modelled.\<close> The other model services; fetching the catalogue and live lists of models; the store
  of credentials; MCP, ACP and extension processes; the command line and the interactive loop; drawing; logging.
  These are processes, sockets and formats of other programs, or lists of commands that call what is modelled. Of
  \<^verbatim>\<open>agentsession.go\<close> the wiring of the agent loop, which is a module outside the repository, is left out.
\<close>

end
